(* ===== verification/Dap_Prelude.thy ===== *)
theory Dap_Prelude
  imports Complex_Main "HOL-Library.Word" "HOL-Library.Sublist"
begin

text \<open>
  Shared vocabulary of the wxdap development: the outcomes of C code whose behaviour the
  language may leave undefined, C strings, the ranges of the machine integers, decimal
  printing of integers, and generic lemmas on lists.

  A \<^verbatim>\<open>std::string\<close> and a \<^verbatim>\<open>wxString\<close> are both modelled by the byte list \<open>string\<close>
  (for \<^verbatim>\<open>wxString\<close>: its UTF-8 bytes; the conversions between the two are the identity on
  bytes).  A \<^verbatim>\<open>const char*\<close> is the list of the bytes before the terminating NUL.
\<close>

named_theorems outcome_simps \<open>computation rules of the outcome monad\<close>
named_theorems wx_simps \<open>unfolding rules of the small string helpers\<close>

section \<open>Outcomes\<close>

text \<open>
  The sites of undefined behaviour that the C code can reach: a read or a write past the end
  of a buffer, the use of an uninitialised variable, the overflow of a signed integer.
\<close>

datatype ub = Over_Read | Over_Write | Uninit_Read | Int_Overflow

datatype 'a outcome = Ok 'a | Undef ub

fun obind :: "'a outcome \<Rightarrow> ('a \<Rightarrow> 'b outcome) \<Rightarrow> 'b outcome" where
  "obind (Ok x) f = f x"
| "obind (Undef u) f = Undef u"

lemma obind_cong [fundef_cong]:
  "x = x' \<Longrightarrow> (\<And>y. x' = Ok y \<Longrightarrow> f y = f' y) \<Longrightarrow> obind x f = obind x' f'"
  by (cases x') auto

definition omap :: "('a \<Rightarrow> 'b) \<Rightarrow> 'a outcome \<Rightarrow> 'b outcome" where
  "omap f x = obind x (\<lambda>y. Ok (f y))"

definition defined :: "'a outcome \<Rightarrow> bool" where
  "defined x = (case x of Ok _ \<Rightarrow> True | Undef _ \<Rightarrow> False)"

lemma omap_simps [simp, outcome_simps]:
  "omap f (Ok x) = Ok (f x)"
  "omap f (Undef u) = Undef u"
  by (simp_all add: omap_def)

lemma defined_simps [simp, outcome_simps]:
  "defined (Ok x)"
  "\<not> defined (Undef u)"
  by (simp_all add: defined_def)

lemma defined_iff: "defined x \<longleftrightarrow> (\<exists>y. x = Ok y)"
  by (cases x) auto

lemma obind_eq_Ok: "obind x f = Ok z \<longleftrightarrow> (\<exists>y. x = Ok y \<and> f y = Ok z)"
  by (cases x) auto

lemma omap_eq_Ok: "omap f x = Ok z \<longleftrightarrow> (\<exists>y. x = Ok y \<and> f y = z)"
  by (cases x) auto

section \<open>Machine integers\<close>

definition INT_MAX :: int where "INT_MAX = 2147483647"
definition INT_MIN :: int where "INT_MIN = -2147483648"
definition LONG_MAX :: int where "LONG_MAX = 9223372036854775807"
definition LONG_MIN :: int where "LONG_MIN = -9223372036854775808"

lemmas int_limits = INT_MAX_def INT_MIN_def LONG_MAX_def LONG_MIN_def

definition is_int32 :: "int \<Rightarrow> bool" where
  "is_int32 i \<longleftrightarrow> INT_MIN \<le> i \<and> i \<le> INT_MAX"

definition is_int64 :: "int \<Rightarrow> bool" where
  "is_int64 i \<longleftrightarrow> LONG_MIN \<le> i \<and> i \<le> LONG_MAX"

text \<open>Narrowing an integer to \<^verbatim>\<open>int\<close>, as the two's complement targets do.\<close>

definition to_int32 :: "int \<Rightarrow> int" where
  "to_int32 i = (i + 2147483648) mod 4294967296 - 2147483648"

lemma to_int32_id [simp]: "is_int32 i \<Longrightarrow> to_int32 i = i"
  by (simp add: to_int32_def is_int32_def int_limits)

lemma is_int32_to_int32 [simp]: "is_int32 (to_int32 i)"
proof -
  have "0 \<le> (i + 2147483648) mod 4294967296" "(i + 2147483648) mod 4294967296 < 4294967296"
    by simp_all
  then show ?thesis unfolding to_int32_def is_int32_def int_limits by linarith
qed

text \<open>The value \<^verbatim>\<open>wxNOT_FOUND\<close> of wxWidgets, which the sources use as ``no id''.\<close>

definition wxNOT_FOUND :: int where "wxNOT_FOUND = -1"

lemma is_int32_wxNOT_FOUND [simp]: "is_int32 wxNOT_FOUND"
  by (simp add: is_int32_def wxNOT_FOUND_def int_limits)

lemma wxNOT_FOUND_neg [simp]: "\<not> 0 < wxNOT_FOUND"
  by (simp add: wxNOT_FOUND_def)

lemma is_int32_small [simp]: "is_int32 0" "is_int32 1" "is_int32 (-1)"
  by (simp_all add: is_int32_def int_limits)

section \<open>C strings\<close>

definition NUL :: char where "NUL = CHR 0x00"

text \<open>\<^verbatim>\<open>s.c_str()\<close> read as a C string: everything before the first NUL.\<close>

definition c_str :: "string \<Rightarrow> string" where
  "c_str s = takeWhile (\<lambda>c. c \<noteq> NUL) s"

definition no_nul :: "string \<Rightarrow> bool" where
  "no_nul s \<longleftrightarrow> NUL \<notin> set s"

lemma c_str_id [simp]: "no_nul s \<Longrightarrow> c_str s = s"
  by (auto simp: c_str_def no_nul_def takeWhile_eq_all_conv)

lemma no_nul_c_str [simp]: "no_nul (c_str s)"
  by (auto simp: c_str_def no_nul_def dest: set_takeWhileD)

lemma no_nul_simps [simp]:
  "no_nul []"
  "no_nul (c # s) \<longleftrightarrow> c \<noteq> NUL \<and> no_nul s"
  "no_nul (s @ t) \<longleftrightarrow> no_nul s \<and> no_nul t"
  by (auto simp: no_nul_def)

section \<open>Decimal digits\<close>

definition is_digit :: "char \<Rightarrow> bool" where
  "is_digit c \<longleftrightarrow> 48 \<le> (of_char c :: nat) \<and> (of_char c :: nat) \<le> 57"

definition digit_val :: "char \<Rightarrow> nat" where
  "digit_val c = of_char c - 48"

definition digit_char :: "nat \<Rightarrow> char" where
  "digit_char d = char_of (48 + d)"

fun show_nat :: "nat \<Rightarrow> string" where
  "show_nat n = (if n < 10 then [digit_char n] else show_nat (n div 10) @ [digit_char (n mod 10)])"

declare show_nat.simps [simp del]

definition show_int :: "int \<Rightarrow> string" where
  "show_int i = (if i < 0 then CHR ''-'' # show_nat (nat (- i)) else show_nat (nat i))"

text \<open>The value of a digit string, most significant digit first.\<close>

definition digits_val :: "string \<Rightarrow> nat" where
  "digits_val ds = foldl (\<lambda>n c. n * 10 + digit_val c) 0 ds"

lemma of_char_digit_char: "d < 10 \<Longrightarrow> (of_char (digit_char d) :: nat) = 48 + d"
  by (simp add: digit_char_def)

lemma is_digit_digit_char [simp]: "d < 10 \<Longrightarrow> is_digit (digit_char d)"
  by (simp add: is_digit_def of_char_digit_char)

lemma digit_val_digit_char [simp]: "d < 10 \<Longrightarrow> digit_val (digit_char d) = d"
  by (simp add: digit_val_def of_char_digit_char)

lemma show_nat_not_Nil [simp]: "show_nat n \<noteq> []"
  by (subst show_nat.simps) simp

lemma show_nat_digits: "c \<in> set (show_nat n) \<Longrightarrow> is_digit c"
proof (induction n rule: show_nat.induct)
  case (1 n)
  then show ?case by (subst (asm) (2) show_nat.simps) (auto split: if_splits)
qed

lemma digits_val_snoc: "digits_val (ds @ [c]) = digits_val ds * 10 + digit_val c"
  by (simp add: digits_val_def)

lemma digits_val_show_nat [simp]: "digits_val (show_nat n) = n"
proof (induction n rule: show_nat.induct)
  case (1 n)
  show ?case
  proof (cases "n < 10")
    case True
    then show ?thesis by (subst show_nat.simps) (simp add: digits_val_def)
  next
    case False
    with 1 show ?thesis by (subst show_nat.simps) (simp add: digits_val_snoc)
  qed
qed

lemma show_nat_hd:
  "is_digit (hd (show_nat n)) \<and> (hd (show_nat n) = CHR ''0'' \<longrightarrow> n = 0)"
proof (induction n rule: show_nat.induct)
  case (1 n)
  show ?case
  proof (cases "n < 10")
    case True
    then have hd: "hd (show_nat n) = digit_char n" by (subst show_nat.simps) simp
    have "of_char (digit_char n) = (48 + n :: nat)" using True by (rule of_char_digit_char)
    then have "digit_char n = CHR ''0'' \<longrightarrow> n = 0" by auto
    with hd True show ?thesis by simp
  next
    case False
    then have "hd (show_nat n) = hd (show_nat (n div 10))" by (subst show_nat.simps) simp
    with 1 False show ?thesis by auto
  qed
qed

lemma length_show_nat_le: "n < 10 ^ k \<Longrightarrow> 0 < k \<Longrightarrow> length (show_nat n) \<le> k"
proof (induction k arbitrary: n)
  case (Suc k)
  show ?case
  proof (cases "n < 10")
    case True
    then show ?thesis by (subst show_nat.simps) simp
  next
    case False
    with Suc.prems have "n div 10 < 10 ^ k" "0 < k"
      by (auto simp: less_mult_imp_div_less mult.commute intro: gr0I)
    then have "length (show_nat (n div 10)) \<le> k" by (rule Suc.IH)
    with False show ?thesis by (subst show_nat.simps) simp
  qed
qed simp

lemma not_digit_simps [simp]:
  "\<not> is_digit (CHR ''-'')" "\<not> is_digit (CHR ''.'')" "\<not> is_digit (CHR ''e'')" "\<not> is_digit (CHR ''E'')"
  "\<not> is_digit (CHR '','')" "\<not> is_digit (CHR '']'')" "\<not> is_digit (CHR ''}'')" "\<not> is_digit (CHR '' '')"
  by (simp_all add: is_digit_def)

lemma is_digit_neq:
  "is_digit c \<Longrightarrow> c \<noteq> NUL \<and> c \<noteq> CHR ''-'' \<and> c \<noteq> CHR ''.'' \<and> c \<noteq> CHR ''e'' \<and> c \<noteq> CHR ''E''"
  by (auto simp: is_digit_def NUL_def)

lemma no_nul_show_nat [simp]: "no_nul (show_nat n)"
  using show_nat_digits is_digit_neq by (fastforce simp: no_nul_def)

lemma no_nul_show_int [simp]: "no_nul (show_int i)"
  by (simp add: show_int_def NUL_def)

section \<open>Generic list lemmas\<close>

lemma takeWhile_append_stop:
  "(\<forall>x\<in>set xs. P x) \<Longrightarrow> ys = [] \<or> \<not> P (hd ys) \<Longrightarrow> takeWhile P (xs @ ys) = xs"
  by (cases ys) (auto simp: takeWhile_append takeWhile_eq_all_conv)

lemma dropWhile_append_stop:
  "(\<forall>x\<in>set xs. P x) \<Longrightarrow> ys = [] \<or> \<not> P (hd ys) \<Longrightarrow> dropWhile P (xs @ ys) = ys"
  by (cases ys) (auto simp: dropWhile_append)

lemma length_dropWhile_less:
  "xs \<noteq> [] \<Longrightarrow> P (hd xs) \<Longrightarrow> length (dropWhile P xs) < length xs"
  by (cases xs) (auto intro: le_imp_less_Suc length_dropWhile_le)

end
