(* ===== verification/Dap_Double.thy ===== *)
theory Dap_Double
  imports Dap_Prelude
begin

text \<open>
  The C type \<^verbatim>\<open>double\<close> as the JSON code uses it: IEEE binary64 with rounding to nearest,
  ties to even.  A finite double is its exact rational value; the two zeros are identified
  (no operation of the sources tells them apart).  The conversion of a double outside the
  range of \<^verbatim>\<open>int\<close>, which C++ leaves undefined, gives what the x86-64 instruction
  \<^verbatim>\<open>cvttsd2si\<close> gives; the theorems on numbers are stated where it is not used.  The values
  of \<^verbatim>\<open>pow(10.0, k)\<close> are taken correctly rounded.
\<close>

section \<open>Values and rounding\<close>

datatype double = Fin rat | Inf bool | NaN  \<comment> \<open>\<open>Inf True\<close> is minus infinity\<close>

definition pow2 :: "int \<Rightarrow> rat" where
  "pow2 e = (if 0 \<le> e then 2 ^ nat e else 1 / 2 ^ nat (- e))"

fun ilog :: "nat \<Rightarrow> nat \<Rightarrow> nat" where
  "ilog b n = (if b < 2 \<or> n < b then 0 else Suc (ilog b (n div b)))"

declare ilog.simps [simp del]

text \<open>The exponent of the leading bit of a positive rational.\<close>

definition rexp :: "rat \<Rightarrow> int" where
  "rexp x = (let (p, q) = quotient_of x; e = int (ilog 2 (nat p)) - int (ilog 2 (nat q))
             in if pow2 e \<le> x then e else e - 1)"

definition round_half_even :: "rat \<Rightarrow> int" where
  "round_half_even y =
     (let f = \<lfloor>y\<rfloor>; d = y - of_int f
      in if d < 1 / 2 then f else if 1 / 2 < d then f + 1 else if even f then f else f + 1)"

definition DBL_MAX :: rat where "DBL_MAX = of_int ((2 ^ 53 - 1) * 2 ^ 971)"

definition DBL_EPSILON :: rat where "DBL_EPSILON = 1 / 2 ^ 52"

definition rnd :: "rat \<Rightarrow> double" where
  "rnd x =
     (if x = 0 then Fin 0
      else let e = max (rexp \<bar>x\<bar> - 52) (-1074);
               r = of_int (round_half_even (x / pow2 e)) * pow2 e
           in if DBL_MAX < \<bar>r\<bar> then Inf (x < 0) else Fin r)"

section \<open>Arithmetic and comparison\<close>

fun dadd :: "double \<Rightarrow> double \<Rightarrow> double" where
  "dadd (Fin a) (Fin b) = rnd (a + b)"
| "dadd (Inf s) (Inf t) = (if s = t then Inf s else NaN)"
| "dadd (Inf s) (Fin b) = Inf s"
| "dadd (Fin a) (Inf t) = Inf t"
| "dadd _ _ = NaN"

fun dneg :: "double \<Rightarrow> double" where
  "dneg (Fin a) = Fin (- a)"
| "dneg (Inf s) = Inf (\<not> s)"
| "dneg NaN = NaN"

definition dsub :: "double \<Rightarrow> double \<Rightarrow> double" where
  "dsub a b = dadd a (dneg b)"

fun dmul :: "double \<Rightarrow> double \<Rightarrow> double" where
  "dmul (Fin a) (Fin b) = rnd (a * b)"
| "dmul (Inf s) (Inf t) = Inf (s \<noteq> t)"
| "dmul (Inf s) (Fin b) = (if b = 0 then NaN else Inf (s \<noteq> (b < 0)))"
| "dmul (Fin a) (Inf t) = (if a = 0 then NaN else Inf ((a < 0) \<noteq> t))"
| "dmul _ _ = NaN"

fun dabs :: "double \<Rightarrow> double" where
  "dabs (Fin a) = Fin \<bar>a\<bar>"
| "dabs (Inf s) = Inf False"
| "dabs NaN = NaN"

fun dfloor :: "double \<Rightarrow> double" where
  "dfloor (Fin a) = Fin (of_int \<lfloor>a\<rfloor>)"
| "dfloor d = d"

fun dle :: "double \<Rightarrow> double \<Rightarrow> bool" where
  "dle (Fin a) (Fin b) = (a \<le> b)"
| "dle (Inf s) (Inf t) = (s \<or> \<not> t)"
| "dle (Inf s) (Fin b) = s"
| "dle (Fin a) (Inf t) = (\<not> t)"
| "dle _ _ = False"

definition dlt :: "double \<Rightarrow> double \<Rightarrow> bool" where
  "dlt a b = (dle a b \<and> \<not> dle b a)"

text \<open>\<^verbatim>\<open>pow(10.0, k)\<close>: overflow above $10^{308}$, underflow below $10^{-323}$.\<close>

definition pow10 :: "int \<Rightarrow> double" where
  "pow10 k =
     (if 308 < k then Inf False
      else if k < -330 then Fin 0
      else if 0 \<le> k then rnd (10 ^ nat k)
      else rnd (1 / 10 ^ nat (- k)))"

section \<open>Conversions\<close>

definition i2d :: "int \<Rightarrow> double" where
  "i2d i = Fin (of_int i)"

definition rtrunc :: "rat \<Rightarrow> int" where
  "rtrunc r = (if 0 \<le> r then \<lfloor>r\<rfloor> else \<lceil>r\<rceil>)"

fun d2i :: "double \<Rightarrow> int" where
  "d2i (Fin r) = (if is_int32 (rtrunc r) then rtrunc r else INT_MIN)"
| "d2i _ = INT_MIN"

text \<open>A double in a context that wants a \<^verbatim>\<open>bool\<close>.\<close>

definition d2b :: "double \<Rightarrow> bool" where
  "d2b d = (d \<noteq> Fin 0)"

section \<open>Printing: the conversions of \<^verbatim>\<open>sprintf\<close>\<close>

definition pad0 :: "nat \<Rightarrow> string \<Rightarrow> string" where
  "pad0 w s = replicate (w - length s) (CHR ''0'') @ s"

definition sign_str :: "rat \<Rightarrow> string" where
  "sign_str r = (if r < 0 then ''-'' else [])"

text \<open>\<^verbatim>\<open>%.0f\<close> and \<^verbatim>\<open>%f\<close>.\<close>

fun fmt_f0 :: "double \<Rightarrow> string" where
  "fmt_f0 (Fin r) = sign_str r @ show_nat (nat (round_half_even \<bar>r\<bar>))"
| "fmt_f0 (Inf s) = (if s then ''-inf'' else ''inf'')"
| "fmt_f0 NaN = ''nan''"

fun fmt_f :: "double \<Rightarrow> string" where
  "fmt_f (Fin r) =
     (let n = nat (round_half_even (\<bar>r\<bar> * 10 ^ 6))
      in sign_str r @ show_nat (n div 10 ^ 6) @ ''.'' @ pad0 6 (show_nat (n mod 10 ^ 6)))"
| "fmt_f (Inf s) = (if s then ''-inf'' else ''inf'')"
| "fmt_f NaN = ''nan''"

definition pow10r :: "int \<Rightarrow> rat" where
  "pow10r e = (if 0 \<le> e then 10 ^ nat e else 1 / 10 ^ nat (- e))"

definition dec_exp :: "rat \<Rightarrow> int" where
  "dec_exp x = (let (p, q) = quotient_of x; e = int (ilog 10 (nat p)) - int (ilog 10 (nat q))
                in if pow10r e \<le> x then e else e - 1)"

text \<open>\<^verbatim>\<open>%e\<close>: one digit, six decimals, an exponent of at least two digits.\<close>

fun fmt_e :: "double \<Rightarrow> string" where
  "fmt_e (Fin r) =
     (let x = (if r = 0 then 0 else dec_exp \<bar>r\<bar>);
          m0 = nat (round_half_even (\<bar>r\<bar> / pow10r (x - 6)));
          (m, e) = (if m0 = 10 ^ 7 then (10 ^ 6, x + 1) else (m0, x))
      in sign_str r @ show_nat (m div 10 ^ 6) @ ''.'' @ pad0 6 (show_nat (m mod 10 ^ 6)) @ ''e'' @
         (if e < 0 then ''-'' else ''+'') @ pad0 2 (show_nat (nat \<bar>e\<bar>)))"
| "fmt_e (Inf s) = (if s then ''-inf'' else ''inf'')"
| "fmt_e NaN = ''nan''"

section \<open>Exactness on integers\<close>

lemma pow2_pos [simp]: "0 < pow2 e"
  by (simp add: pow2_def)

lemma ilog_bound: "2 \<le> b \<Longrightarrow> 0 < n \<Longrightarrow> b ^ ilog b n \<le> n"
proof (induction b n rule: ilog.induct)
  case (1 b n)
  show ?case
  proof (cases "n < b")
    case True
    with 1 show ?thesis by (subst ilog.simps) simp
  next
    case False
    with 1 have "0 < n div b" by (simp add: div_greater_zero_iff)
    with 1 False have "b ^ ilog b (n div b) \<le> n div b" by simp
    then have "b * b ^ ilog b (n div b) \<le> b * (n div b)" by (rule mult_left_mono) simp
    also have "\<dots> \<le> n" by simp
    finally show ?thesis using False 1 by (subst ilog.simps) simp
  qed
qed

lemma ilog2_less:
  assumes "0 < n" "n < 2 ^ k" shows "ilog 2 n < k"
proof -
  have "2 ^ ilog 2 n < (2 ^ k :: nat)" by (rule le_less_trans [OF ilog_bound assms(2)]) (use assms in simp_all)
  then show ?thesis by (rule power_less_imp_less_exp [rotated]) simp
qed

lemma round_half_even_of_int [simp]: "round_half_even (of_int i) = i"
  by (simp add: round_half_even_def Let_def)

lemma rexp_of_int: "0 < i \<Longrightarrow> i < 2 ^ 53 \<Longrightarrow> rexp (of_int i) \<le> 52"
proof -
  assume i: "0 < i" "i < 2 ^ 53"
  then have "nat i < 2 ^ 53" by (simp add: nat_less_iff)
  with i have "ilog 2 (nat i) < 53" by (intro ilog2_less) auto
  moreover have "ilog 2 (Suc 0) = 0" by (subst ilog.simps) simp
  ultimately show ?thesis
    by (simp add: rexp_def Let_def)
qed

lemma pow2_scale:
  assumes "e \<le> 0" shows "\<exists>k. of_int i / pow2 e = of_int (k :: int)"
proof -
  have "of_int i / pow2 e = of_int (i * 2 ^ nat (- e))"
    using assms by (cases "e = 0") (simp_all add: pow2_def)
  then show ?thesis by blast
qed

text \<open>Rounding leaves every integer below $2^{53}$ in magnitude alone.\<close>

lemma rnd_of_int:
  assumes "\<bar>i\<bar> < 2 ^ 53"
  shows "rnd (of_int i) = Fin (of_int i)"
proof (cases "i = 0")
  case True
  then show ?thesis by (simp add: rnd_def)
next
  case False
  define e where "e = max (rexp (of_int \<bar>i\<bar>) - 52) (-1074)"
  have "rexp (of_int \<bar>i\<bar>) \<le> 52" using rexp_of_int [of "\<bar>i\<bar>"] False assms by simp
  then have "e \<le> 0" by (simp add: e_def)
  then obtain k where k: "of_int i / pow2 e = of_int (k :: int)" using pow2_scale by blast
  then have r: "of_int (round_half_even (of_int i / pow2 e)) * pow2 e = of_int i"
    using pow2_pos [of e] by (simp add: field_simps)
  have "\<bar>of_int i :: rat\<bar> \<le> of_int ((2 ^ 53 - 1) * 2 ^ 971)"
    using assms by (simp only: of_int_abs [symmetric] of_int_le_iff) simp
  then have "\<not> DBL_MAX < \<bar>of_int i :: rat\<bar>" by (simp add: DBL_MAX_def)
  with False r show ?thesis
    by (simp add: rnd_def Let_def e_def [symmetric] del: of_int_abs) (simp add: e_def)
qed

lemma dadd_int: "\<bar>a + b\<bar> < 2 ^ 53 \<Longrightarrow> dadd (i2d a) (i2d b) = i2d (a + b)"
  using rnd_of_int [of "a + b"] by (simp add: i2d_def)

lemma dmul_int: "\<bar>a * b\<bar> < 2 ^ 53 \<Longrightarrow> dmul (i2d a) (i2d b) = i2d (a * b)"
  using rnd_of_int [of "a * b"] by (simp add: i2d_def)

lemma dsub_int: "\<bar>a - b\<bar> < 2 ^ 53 \<Longrightarrow> dsub (i2d a) (i2d b) = i2d (a - b)"
  using rnd_of_int [of "a - b"] by (simp add: i2d_def dsub_def)

lemma pow10_0 [simp]: "pow10 0 = i2d 1"
  using rnd_of_int [of 1] by (simp add: pow10_def i2d_def)

lemma rtrunc_of_int [simp]: "rtrunc (of_int i) = i"
  by (simp add: rtrunc_def)

lemma d2i_i2d [simp]: "is_int32 i \<Longrightarrow> d2i (i2d i) = i"
  by (simp add: i2d_def)

lemma i2d_inject [simp]: "i2d i = i2d j \<longleftrightarrow> i = j"
  by (simp add: i2d_def)

lemma dle_int [simp]: "dle (i2d a) (i2d b) \<longleftrightarrow> a \<le> b"
  by (simp add: i2d_def)

lemma dabs_int [simp]: "dabs (i2d a) = i2d \<bar>a\<bar>"
  by (simp add: i2d_def)

lemma d2b_i2d [simp]: "d2b (i2d i) \<longleftrightarrow> i \<noteq> 0"
  by (simp add: d2b_def i2d_def)

text \<open>The result of \<^verbatim>\<open>d2i\<close> is an \<^verbatim>\<open>int\<close>, whatever the double.\<close>

lemma is_int32_d2i [simp]: "is_int32 (d2i d)"
  by (cases d) (auto simp: is_int32_def int_limits)

text \<open>Rounding of integers above $2^{52}$: 53 bits are kept.\<close>

lemma ilog2_ge: "2 ^ k \<le> n \<Longrightarrow> k \<le> ilog 2 n"
proof (induction k arbitrary: n)
  case (Suc k)
  have "2 * 1 \<le> 2 * (2 ^ k :: nat)" by (rule mult_le_mono2) simp
  with Suc.prems have n: "2 \<le> n" by (metis mult_1_right order_trans power_Suc)
  have "2 ^ k \<le> n div 2" using Suc.prems by simp
  then have "k \<le> ilog 2 (n div 2)" by (rule Suc.IH)
  then show ?case using n by (subst ilog.simps) simp
qed simp

lemma rexp_int:
  assumes "2 ^ k \<le> i" "i < 2 ^ Suc k" shows "rexp (of_int i) = int k"
proof -
  have "0 < i" using assms(1) by (meson order_less_le_trans zero_less_numeral zero_less_power)
  then have "ilog 2 (nat i) < Suc k" "k \<le> ilog 2 (nat i)"
    using assms by (auto intro!: ilog2_less ilog2_ge simp: nat_less_iff le_nat_iff)
  then have "ilog 2 (nat i) = k" by simp
  moreover have "ilog 2 (Suc 0) = 0" by (subst ilog.simps) simp
  moreover have "(2 :: rat) ^ k \<le> of_int i" using assms(1) by (metis of_int_le_iff of_int_numeral of_int_power)
  ultimately show ?thesis by (simp add: rexp_def Let_def pow2_def)
qed

lemma rnd_int:
  assumes "2 ^ (e + 52) \<le> i" "i < 2 ^ Suc (e + 52)" "round_half_even (of_int i / 2 ^ e) = m" "m \<le> 2 ^ 53 - 1" "0 \<le> m" "e \<le> 971"
  shows "rnd (of_int i) = Fin (of_int (m * 2 ^ e))"
proof -
  have i: "0 < i" using assms(1) by (meson order_less_le_trans zero_less_numeral zero_less_power)
  have "rexp (of_int \<bar>i\<bar>) = int (e + 52)" using i assms(1,2) by (simp add: rexp_int del: power_Suc of_nat_add)
  moreover have "m * 2 ^ e \<le> (2 ^ 53 - 1) * 2 ^ 971"
    using assms(4-6) by (intro mult_mono power_increasing) simp_all
  then have "\<not> DBL_MAX < of_int (m * 2 ^ e)" unfolding DBL_MAX_def of_int_less_iff by simp
  ultimately show ?thesis using i assms(3,5) by (simp add: rnd_def Let_def pow2_def abs_mult)
qed

end
