(* ===== verification/Dap_CJson.thy ===== *)
theory Dap_CJson
  imports Dap_Double
begin

text \<open>
  The parser of \<^verbatim>\<open>dap/cJSON.cpp\<close>.  A node \<^verbatim>\<open>cJsonDap\<close> is a value whose \<^verbatim>\<open>child\<close> chain (linked
  by \<^verbatim>\<open>next\<close> and \<^verbatim>\<open>prev\<close>) is a list.  The input of a parse function is the rest of the C
  string, \<open>[]\<close> standing for the terminating NUL; the result is the node and the rest, or the
  failure with the error pointer \<^verbatim>\<open>ep\<close> (the rest at which parsing stopped), or the undefined
  behaviour that the code runs into.  Allocation never fails.  The recursion of
  \<^verbatim>\<open>parse_value\<close> carries fuel, which \<open>cJSON_Parse\<close> chooses from the length of the input; the
  theory \<^verbatim>\<open>Dap_CJson_Parse\<close> shows that it is never used up.
\<close>

section \<open>Nodes\<close>

datatype cJsonDap = Item
  (type_of: int)
  (valuestring: "string option")
  (valueint: int)
  (valuedouble: double)
  (name_of: "string option")
  (children: "cJsonDap list")

definition cJsonDap_False :: int where "cJsonDap_False = 0"
definition cJsonDap_True :: int where "cJsonDap_True = 1"
definition cJsonDap_Null :: int where "cJsonDap_Null = 2"
definition cJsonDap_Number :: int where "cJsonDap_Number = 3"
definition cJsonDap_String :: int where "cJsonDap_String = 4"
definition cJsonDap_Array :: int where "cJsonDap_Array = 5"
definition cJsonDap_Object :: int where "cJsonDap_Object = 6"
definition cJsonDap_IsReference :: int where "cJsonDap_IsReference = 256"

lemmas cjson_types = cJsonDap_False_def cJsonDap_True_def cJsonDap_Null_def cJsonDap_Number_def
  cJsonDap_String_def cJsonDap_Array_def cJsonDap_Object_def cJsonDap_IsReference_def

text \<open>\<^verbatim>\<open>cJSON_New_Item\<close>: a zeroed node, whose type 0 is \<^verbatim>\<open>cJsonDap_False\<close>.\<close>

definition cJSON_New_Item :: cJsonDap where
  "cJSON_New_Item = Item 0 None 0 (Fin 0) None []"

definition set_type :: "int \<Rightarrow> cJsonDap \<Rightarrow> cJsonDap" where
  "set_type t n = Item t (valuestring n) (valueint n) (valuedouble n) (name_of n) (children n)"

definition set_name :: "string option \<Rightarrow> cJsonDap \<Rightarrow> cJsonDap" where
  "set_name k n = Item (type_of n) (valuestring n) (valueint n) (valuedouble n) k (children n)"

definition set_children :: "cJsonDap list \<Rightarrow> cJsonDap \<Rightarrow> cJsonDap" where
  "set_children cs n = Item (type_of n) (valuestring n) (valueint n) (valuedouble n) (name_of n) cs"

definition cJSON_CreateNull :: cJsonDap where
  "cJSON_CreateNull = set_type cJsonDap_Null cJSON_New_Item"

definition cJSON_CreateTrue :: cJsonDap where
  "cJSON_CreateTrue = set_type cJsonDap_True cJSON_New_Item"

definition cJSON_CreateFalse :: cJsonDap where
  "cJSON_CreateFalse = set_type cJsonDap_False cJSON_New_Item"

definition cJSON_CreateBool :: "int \<Rightarrow> cJsonDap" where
  "cJSON_CreateBool b = set_type (if b \<noteq> 0 then cJsonDap_True else cJsonDap_False) cJSON_New_Item"

definition cJSON_CreateNumber :: "double \<Rightarrow> cJsonDap" where
  "cJSON_CreateNumber num = Item cJsonDap_Number None (d2i num) num None []"

definition cJSON_CreateString :: "string \<Rightarrow> cJsonDap" where
  "cJSON_CreateString s = Item cJsonDap_String (Some (c_str s)) 0 (Fin 0) None []"

definition cJSON_CreateArray :: cJsonDap where
  "cJSON_CreateArray = set_type cJsonDap_Array cJSON_New_Item"

definition cJSON_CreateObject :: cJsonDap where
  "cJSON_CreateObject = set_type cJsonDap_Object cJSON_New_Item"

lemmas create_defs = cJSON_New_Item_def set_type_def set_name_def set_children_def
  cJSON_CreateNull_def cJSON_CreateTrue_def cJSON_CreateFalse_def cJSON_CreateBool_def
  cJSON_CreateNumber_def cJSON_CreateString_def cJSON_CreateArray_def cJSON_CreateObject_def

section \<open>Results of the parse functions\<close>

datatype 'a presult = Parsed 'a string | Failed string | PUndef ub | No_Fuel

text \<open>\<^verbatim>\<open>value = skip(f(\<dots>)); if(!value) return 0; \<dots>\<close>\<close>

fun pbind :: "'a presult \<Rightarrow> ('a \<Rightarrow> string \<Rightarrow> 'b presult) \<Rightarrow> 'b presult" where
  "pbind (Parsed x r) f = f x r"
| "pbind (Failed e) f = Failed e"
| "pbind (PUndef u) f = PUndef u"
| "pbind No_Fuel f = No_Fuel"

text \<open>\<^verbatim>\<open>skip\<close>: jump whitespace and control characters.\<close>

definition is_ws :: "char \<Rightarrow> bool" where
  "is_ws c \<longleftrightarrow> (of_char c :: nat) \<le> 32"

definition skip :: "string \<Rightarrow> string" where
  "skip s = dropWhile is_ws s"

section \<open>Numbers\<close>

text \<open>
  The state of \<^verbatim>\<open>parse_number\<close> after the sign: the digits before the point are added to
  \<^verbatim>\<open>n\<close> in double arithmetic, the digits after it also count \<^verbatim>\<open>scale\<close> down, the exponent digits
  go to the \<^verbatim>\<open>int\<close> \<^verbatim>\<open>subscale\<close>, whose overflow is undefined.
\<close>

definition add_digit :: "double \<Rightarrow> char \<Rightarrow> double" where
  "add_digit n c = dadd (dmul n (i2d 10)) (i2d (int (digit_val c)))"

definition add_digits :: "double \<Rightarrow> string \<Rightarrow> double" where
  "add_digits n ds = foldl add_digit n ds"

fun add_subscale :: "int \<Rightarrow> string \<Rightarrow> int outcome" where
  "add_subscale k [] = Ok k"
| "add_subscale k (c # cs) =
     (let k10 = k * 10; k' = k10 + int (digit_val c)
      in if is_int32 k10 \<and> is_int32 k' then add_subscale k' cs else Undef Int_Overflow)"

definition int_digits :: "string \<Rightarrow> string \<times> string" where
  "int_digits s =
     (if s \<noteq> [] \<and> is_digit (hd s) \<and> hd s \<noteq> CHR ''0''
      then (takeWhile is_digit s, dropWhile is_digit s) else ([], s))"

definition frac_digits :: "string \<Rightarrow> string \<times> string" where
  "frac_digits s =
     (case s of
        c # d # r \<Rightarrow> if c = CHR ''.'' \<and> is_digit d
                     then (takeWhile is_digit (d # r), dropWhile is_digit (d # r)) else ([], s)
      | _ \<Rightarrow> ([], s))"

definition exp_part :: "string \<Rightarrow> int \<times> string \<times> string" where
  "exp_part s =
     (case s of
        [] \<Rightarrow> (1, [], s)
      | c # r \<Rightarrow>
         if c = CHR ''e'' \<or> c = CHR ''E'' then
           (let (sg, r') = (case r of
                              [] \<Rightarrow> (1, r)
                            | x # r1 \<Rightarrow> if x = CHR ''+'' then (1, r1)
                                        else if x = CHR ''-'' then (-1, r1) else (1, r))
            in (sg, takeWhile is_digit r', dropWhile is_digit r'))
         else (1, [], s))"

definition parse_number :: "string \<Rightarrow> cJsonDap presult" where
  "parse_number num =
     (let (sign, s1) = (case num of c # r \<Rightarrow> if c = CHR ''-'' then (-1, r) else (1, num) | [] \<Rightarrow> (1, num));
          s2 = (case s1 of c # r \<Rightarrow> if c = CHR ''0'' then r else s1 | [] \<Rightarrow> s1);
          (ds, s3) = int_digits s2;
          (fs, s4) = frac_digits s3;
          (signsubscale, es, s5) = exp_part s4;
          n = add_digits (add_digits (i2d 0) ds) fs
      in case add_subscale 0 es of
           Undef u \<Rightarrow> PUndef u
         | Ok subscale \<Rightarrow>
             let v = dmul (dmul (i2d sign) n) (pow10 (subscale * signsubscale - int (length fs)))
             in Parsed (Item cJsonDap_Number None (d2i v) v None []) s5)"

section \<open>Strings\<close>

text \<open>The first pass of \<^verbatim>\<open>parse_string\<close> over the text after the opening quote: it computes \<^verbatim>\<open>len\<close>.\<close>

fun scan_len :: "string \<Rightarrow> nat outcome" where
  "scan_len [] = Ok 0"
| "scan_len (c # cs) =
     (if c = CHR 0x22 then Ok 0
      else if c = CHR 0x5C then
        (case cs of [] \<Rightarrow> Undef Over_Read | _ # cs' \<Rightarrow> omap Suc (scan_len cs'))
      else omap Suc (scan_len cs))"

text \<open>
  \<^verbatim>\<open>sscanf(p, "%4x", &uc)\<close>: white space, then at most four characters of an optionally
  signed and prefixed hexadecimal number; \<open>None\<close> when nothing is converted.
\<close>

definition hex_val :: "char \<Rightarrow> nat option" where
  "hex_val c =
     (let k = (of_char c :: nat)
      in if 48 \<le> k \<and> k \<le> 57 then Some (k - 48)
         else if 65 \<le> k \<and> k \<le> 70 then Some (k - 55)
         else if 97 \<le> k \<and> k \<le> 102 then Some (k - 87) else None)"

definition is_hex :: "char \<Rightarrow> bool" where "is_hex c \<longleftrightarrow> hex_val c \<noteq> None"

definition is_space :: "char \<Rightarrow> bool" where
  "is_space c \<longleftrightarrow> (let k = (of_char c :: nat) in k = 32 \<or> 9 \<le> k \<and> k \<le> 13)"

definition hex_digits_val :: "string \<Rightarrow> nat" where
  "hex_digits_val ds = foldl (\<lambda>n c. n * 16 + (case hex_val c of Some v \<Rightarrow> v | None \<Rightarrow> 0)) 0 ds"

definition scan_hex4 :: "string \<Rightarrow> 32 word option" where
  "scan_hex4 s =
     (let w = take 4 (dropWhile is_space s);
          (neg, w1) = (case w of c # r \<Rightarrow> if c = CHR ''-'' then (True, r)
                                          else if c = CHR ''+'' then (False, r) else (False, w)
                       | [] \<Rightarrow> (False, w));
          w2 = (case w1 of c # d # r \<Rightarrow> if c = CHR ''0'' \<and> (d = CHR ''x'' \<or> d = CHR ''X'') then r else w1
                | _ \<Rightarrow> w1);
          ds = takeWhile is_hex w2;
          v = word_of_nat (hex_digits_val ds)
      in if ds = [] then None else Some (if neg then - v else v))"

definition firstByteMark :: "nat \<Rightarrow> 32 word" where
  "firstByteMark len = [0x00, 0x00, 0xC0, 0xE0, 0xF0, 0xF8, 0xFC] ! len"

definition byte_of :: "32 word \<Rightarrow> char" where
  "byte_of w = char_of (unat w mod 256)"

unbundle bit_operations_syntax

definition cont_byte :: "32 word \<Rightarrow> char" where
  "cont_byte uc = byte_of ((uc OR 0x80) AND 0xBF)"

text \<open>The bytes that the \<^verbatim>\<open>switch(len)\<close> writes, in the order of the buffer.\<close>

definition utf8_len :: "32 word \<Rightarrow> nat" where
  "utf8_len uc = (if uc < 0x80 then 1 else if uc < 0x800 then 2 else if uc < 0x10000 then 3 else 4)"

definition utf8_bytes :: "32 word \<Rightarrow> string" where
  "utf8_bytes uc =
     (let len = utf8_len uc;
          first = (\<lambda>w. byte_of (w OR firstByteMark len))
      in if len = 1 then [first uc]
         else if len = 2 then [first (drop_bit 6 uc), cont_byte uc]
         else if len = 3 then [first (drop_bit 12 uc), cont_byte (drop_bit 6 uc), cont_byte uc]
         else [first (drop_bit 18 uc), cont_byte (drop_bit 12 uc), cont_byte (drop_bit 6 uc), cont_byte uc])"

definition surrogate_pair :: "32 word \<Rightarrow> 32 word \<Rightarrow> 32 word" where
  "surrogate_pair uc uc2 = 0x10000 OR push_bit 10 (uc AND 0x3FF) OR (uc2 AND 0x3FF)"

text \<open>
  The \<^verbatim>\<open>case 'u'\<close>: \<open>r\<close> is the text after the letter \<open>u\<close>.  The result is the new \<^verbatim>\<open>uc\<close> and
  \<^verbatim>\<open>uc2\<close>, the bytes to write and the text where the loop goes on.  The pointer moves on by four
  (or ten) characters without looking at them, past the terminator if the text is shorter.
\<close>

definition unescape_u ::
  "32 word option \<Rightarrow> 32 word option \<Rightarrow> string
   \<Rightarrow> (32 word option \<times> 32 word option \<times> string \<times> string) outcome" where
  "unescape_u uc0 uc20 r =
     (case (case scan_hex4 r of Some v \<Rightarrow> Some v | None \<Rightarrow> uc0) of
        None \<Rightarrow> Undef Uninit_Read
      | Some uc \<Rightarrow>
         if length r < 4 then Undef Over_Read
         else let r4 = drop 4 r in
           if (0xDC00 \<le> uc \<and> uc \<le> 0xDFFF) \<or> uc = 0 then Ok (Some uc, uc20, [], r4)
           else if 0xD800 \<le> uc \<and> uc \<le> 0xDBFF then
             (if \<not> prefix [CHR 0x5C, CHR ''u''] r4 then Ok (Some uc, uc20, [], r4)
              else let r5 = drop 2 r4 in
                (case (case scan_hex4 r5 of Some v \<Rightarrow> Some v | None \<Rightarrow> uc20) of
                   None \<Rightarrow> Undef Uninit_Read
                 | Some uc2 \<Rightarrow>
                    if length r5 < 4 then Undef Over_Read
                    else if uc2 < 0xDC00 \<or> 0xDFFF < uc2 then Ok (Some uc, Some uc2, [], drop 4 r5)
                    else let uc' = surrogate_pair uc uc2
                         in Ok (Some uc', Some uc2, utf8_bytes uc', drop 4 r5)))
           else Ok (Some uc, uc20, utf8_bytes uc, r4))"

definition simple_escape :: "char \<Rightarrow> char" where
  "simple_escape c =
     (if c = CHR ''b'' then CHR 0x08 else if c = CHR ''f'' then CHR 0x0C
      else if c = CHR ''n'' then CHR 0x0A else if c = CHR ''r'' then CHR 0x0D
      else if c = CHR ''t'' then CHR 0x09 else c)"

text \<open>Writing \<open>bs\<close> behind \<open>out\<close> in the buffer of \<open>room\<close> bytes.\<close>

definition put :: "nat \<Rightarrow> string \<Rightarrow> string \<Rightarrow> string outcome" where
  "put room out bs = (if length out + length bs \<le> room then Ok (out @ bs) else Undef Over_Write)"

lemma unescape_u_length:
  assumes "unescape_u uc0 uc20 r = Ok (uc, uc2, bs, r')" shows "length r' + 4 \<le> length r"
  using assms unfolding unescape_u_def
  by (auto simp: Let_def prefix_def split: option.splits if_splits)

text \<open>The second pass: it writes the unescaped bytes behind \<open>out\<close> and stops at the closing quote.\<close>

function unescape ::
  "nat \<Rightarrow> 32 word option \<Rightarrow> 32 word option \<Rightarrow> string \<Rightarrow> string \<Rightarrow> (string \<times> string) outcome" where
  "unescape room uc uc2 out [] = Ok (out, [])"
| "unescape room uc uc2 out (c # cs) =
     (if c = CHR 0x22 then Ok (out, c # cs)
      else if c \<noteq> CHR 0x5C then obind (put room out [c]) (\<lambda>out'. unescape room uc uc2 out' cs)
      else (case cs of
              [] \<Rightarrow> Undef Over_Read
            | d # r \<Rightarrow>
               if d = CHR ''u'' then
                 obind (unescape_u uc uc2 r) (\<lambda>(uc', uc2', bs, r').
                   obind (put room out bs) (\<lambda>out'. unescape room uc' uc2' out' r'))
               else obind (put room out [simple_escape d]) (\<lambda>out'. unescape room uc uc2 out' r)))"
  by pat_completeness auto
termination
  by (relation "measure (\<lambda>(room, uc, uc2, out, s). length s)") (auto dest: unescape_u_length)

definition parse_string :: "string \<Rightarrow> string presult" where
  "parse_string str =
     (case str of
        [] \<Rightarrow> Failed str
      | q # s \<Rightarrow>
         if q \<noteq> CHR 0x22 then Failed str
         else (case scan_len s of
                 Undef u \<Rightarrow> PUndef u
               | Ok len \<Rightarrow>
                  (case unescape (len + 1) None None [] s of
                     Undef u \<Rightarrow> PUndef u
                   | Ok (out, r) \<Rightarrow>
                      if length out < len + 1 then Parsed out (if r \<noteq> [] then tl r else r)
                      else PUndef Over_Write)))"

section \<open>Values, arrays and objects\<close>

definition string_item :: "string \<Rightarrow> cJsonDap" where
  "string_item s = Item cJsonDap_String (Some s) 0 (Fin 0) None []"

text \<open>The name of a member: \<^verbatim>\<open>parse_string\<close>, then the colon.\<close>

definition parse_name :: "string \<Rightarrow> string presult" where
  "parse_name s =
     pbind (parse_string (skip s)) (\<lambda>k r.
       case skip r of
         c # r' \<Rightarrow> if c = CHR '':'' then Parsed k (skip r') else Failed (skip r)
       | [] \<Rightarrow> Failed [])"

text \<open>
  \<^verbatim>\<open>parse_array\<close> and \<^verbatim>\<open>parse_object\<close> call \<^verbatim>\<open>parse_value\<close>, which calls them: here they take it as
  the argument \<open>pv\<close>, and \<open>parse_value\<close> below ties the knot.  The loops over the items consume
  a comma per round; their fuel is the length of the text.
\<close>

fun parse_items ::
  "(string \<Rightarrow> cJsonDap presult) \<Rightarrow> nat \<Rightarrow> cJsonDap list \<Rightarrow> string \<Rightarrow> cJsonDap presult" where
  "parse_items pv 0 acc s = No_Fuel"
| "parse_items pv (Suc k) acc s =
     (if prefix '','' s then
        pbind (pv (skip (tl s))) (\<lambda>x r. parse_items pv k (acc @ [x]) (skip r))
      else if prefix '']'' s then Parsed (set_children acc cJSON_CreateArray) (tl s)
      else Failed s)"

definition parse_array :: "(string \<Rightarrow> cJsonDap presult) \<Rightarrow> string \<Rightarrow> cJsonDap presult" where
  "parse_array pv value =
     (if \<not> prefix ''['' value then Failed value
      else let v = skip (tl value) in
        if prefix '']'' v then Parsed cJSON_CreateArray (tl v)
        else pbind (pv (skip v)) (\<lambda>x r. parse_items pv (length v) [x] (skip r)))"

fun parse_members ::
  "(string \<Rightarrow> cJsonDap presult) \<Rightarrow> nat \<Rightarrow> cJsonDap list \<Rightarrow> string \<Rightarrow> cJsonDap presult" where
  "parse_members pv 0 acc s = No_Fuel"
| "parse_members pv (Suc k) acc s =
     (if prefix '','' s then
        pbind (parse_name (tl s)) (\<lambda>key r1.
          pbind (pv r1) (\<lambda>x r. parse_members pv k (acc @ [set_name (Some key) x]) (skip r)))
      else if prefix ''}'' s then Parsed (set_children acc cJSON_CreateObject) (tl s)
      else Failed s)"

definition parse_object :: "(string \<Rightarrow> cJsonDap presult) \<Rightarrow> string \<Rightarrow> cJsonDap presult" where
  "parse_object pv value =
     (if \<not> prefix ''{'' value then Failed value
      else let v = skip (tl value) in
        if prefix ''}'' v then Parsed cJSON_CreateObject (tl v)
        else pbind (parse_name v) (\<lambda>key r1.
               pbind (pv r1) (\<lambda>x r. parse_members pv (length v) [set_name (Some key) x] (skip r))))"

fun parse_value :: "nat \<Rightarrow> string \<Rightarrow> cJsonDap presult" where
  "parse_value 0 s = No_Fuel"
| "parse_value (Suc n) s =
     (if prefix ''null'' s then Parsed cJSON_CreateNull (drop 4 s)
      else if prefix ''false'' s then Parsed cJSON_CreateFalse (drop 5 s)
      else if prefix ''true'' s then Parsed (Item cJsonDap_True None 1 (Fin 0) None []) (drop 4 s)
      else if prefix [CHR 0x22] s then pbind (parse_string s) (\<lambda>v r. Parsed (string_item v) r)
      else if prefix ''-'' s \<or> s \<noteq> [] \<and> is_digit (hd s) then parse_number s
      else if prefix ''['' s then parse_array (parse_value n) s
      else if prefix ''{'' s then parse_object (parse_value n) s
      else Failed s)"

definition parse_fuel :: "string \<Rightarrow> nat" where
  "parse_fuel s = length s + 1"

text \<open>
  \<^verbatim>\<open>cJSON_Parse\<close>.  Text behind the first value is ignored, as in the code.
\<close>

definition cJSON_Parse :: "string \<Rightarrow> cJsonDap presult" where
  "cJSON_Parse value = (let s = skip (c_str value) in parse_value (parse_fuel s) s)"

text \<open>What \<^verbatim>\<open>cJSON_GetErrorPtr\<close> returns after a call: \<open>None\<close> (null) after a success.\<close>

definition cJSON_GetErrorPtr :: "cJsonDap presult \<Rightarrow> string option" where
  "cJSON_GetErrorPtr r = (case r of Failed e \<Rightarrow> Some e | _ \<Rightarrow> None)"

end
