(* ===== verification/Dap_CJson_Edit.thy ===== *)
theory Dap_CJson_Edit
  imports Dap_CJson
begin

text \<open>
  The tree editing functions of \<^verbatim>\<open>dap/cJSON.cpp\<close>: look-up by index and by name (ignoring case),
  appending, detaching, replacing and the array constructors.  A function that changes a node
  through a pointer returns the changed node; a null pointer is \<open>None\<close>.  The while loops that
  count an \<^verbatim>\<open>int\<close> down from a negative number stop at once, which \<open>nat\<close> expresses.
\<close>

section \<open>Comparing names\<close>

definition tolower :: "char \<Rightarrow> int" where
  "tolower c = (let k = int (of_char c) in if 65 \<le> k \<and> k \<le> 90 then k + 32 else k)"

text \<open>The loop of \<^verbatim>\<open>cJSON_strcasecmp\<close>; \<open>[]\<close> stands at the terminating NUL.\<close>

fun strcasecmp_loop :: "string \<Rightarrow> string \<Rightarrow> int" where
  "strcasecmp_loop [] [] = 0"
| "strcasecmp_loop [] (d # ds) = 0 - tolower d"
| "strcasecmp_loop (c # cs) [] = tolower c - 0"
| "strcasecmp_loop (c # cs) (d # ds) =
     (if tolower c = tolower d then strcasecmp_loop cs ds else tolower c - tolower d)"

definition cJSON_strcasecmp :: "string option \<Rightarrow> string option \<Rightarrow> int" where
  "cJSON_strcasecmp s1 s2 =
     (case s1 of
        None \<Rightarrow> (if s2 = None then 0 else 1)
      | Some a \<Rightarrow> (case s2 of None \<Rightarrow> 1 | Some b \<Rightarrow> strcasecmp_loop (c_str a) (c_str b)))"

section \<open>Look-up\<close>

definition cJSON_GetArraySize :: "cJsonDap \<Rightarrow> int" where
  "cJSON_GetArraySize a = int (length (children a))"

fun walk :: "cJsonDap list \<Rightarrow> nat \<Rightarrow> cJsonDap list" where
  "walk (c # cs) (Suc n) = walk cs n"
| "walk cs n = cs"

definition list_head :: "'a list \<Rightarrow> 'a option" where
  "list_head xs = (case xs of [] \<Rightarrow> None | x # _ \<Rightarrow> Some x)"

definition cJSON_GetArrayItem :: "cJsonDap \<Rightarrow> int \<Rightarrow> cJsonDap option" where
  "cJSON_GetArrayItem a item = list_head (walk (children a) (nat item))"

definition name_differs :: "string \<Rightarrow> cJsonDap \<Rightarrow> bool" where
  "name_differs s c \<longleftrightarrow> cJSON_strcasecmp (name_of c) (Some s) \<noteq> 0"

definition cJSON_GetObjectItem :: "cJsonDap \<Rightarrow> string \<Rightarrow> cJsonDap option" where
  "cJSON_GetObjectItem obj s = list_head (dropWhile (name_differs s) (children obj))"

section \<open>Appending\<close>

definition cJSON_AddItemToArray :: "cJsonDap option \<Rightarrow> cJsonDap \<Rightarrow> cJsonDap" where
  "cJSON_AddItemToArray item a =
     (case item of None \<Rightarrow> a | Some x \<Rightarrow> set_children (children a @ [x]) a)"

definition cJSON_AddItemToObject :: "string \<Rightarrow> cJsonDap option \<Rightarrow> cJsonDap \<Rightarrow> cJsonDap" where
  "cJSON_AddItemToObject s item obj =
     (case item of None \<Rightarrow> obj
      | Some x \<Rightarrow> cJSON_AddItemToArray (Some (set_name (Some (c_str s)) x)) obj)"

definition set_ref :: "int \<Rightarrow> int" where
  "set_ref t = (if t div 256 mod 2 = 1 then t else t + cJsonDap_IsReference)"

definition create_reference :: "cJsonDap \<Rightarrow> cJsonDap" where
  "create_reference item = set_type (set_ref (type_of item)) (set_name None item)"

definition cJSON_AddItemReferenceToArray :: "cJsonDap \<Rightarrow> cJsonDap \<Rightarrow> cJsonDap" where
  "cJSON_AddItemReferenceToArray item a = cJSON_AddItemToArray (Some (create_reference item)) a"

definition cJSON_AddItemReferenceToObject :: "string \<Rightarrow> cJsonDap \<Rightarrow> cJsonDap \<Rightarrow> cJsonDap" where
  "cJSON_AddItemReferenceToObject s item obj = cJSON_AddItemToObject s (Some (create_reference item)) obj"

section \<open>Detaching, deleting and replacing\<close>

definition cJSON_DetachItemFromArray :: "int \<Rightarrow> cJsonDap \<Rightarrow> cJsonDap option \<times> cJsonDap" where
  "cJSON_DetachItemFromArray which a =
     (let n = nat which; cs = children a in
      case list_head (walk cs n) of
        None \<Rightarrow> (None, a)
      | Some c \<Rightarrow> (Some c, set_children (take n cs @ drop (Suc n) cs) a))"

definition cJSON_DeleteItemFromArray :: "int \<Rightarrow> cJsonDap \<Rightarrow> cJsonDap" where
  "cJSON_DeleteItemFromArray which a = snd (cJSON_DetachItemFromArray which a)"

definition index_of_name :: "string \<Rightarrow> cJsonDap \<Rightarrow> nat" where
  "index_of_name s obj = length (takeWhile (name_differs s) (children obj))"

definition cJSON_DetachItemFromObject :: "string \<Rightarrow> cJsonDap \<Rightarrow> cJsonDap option \<times> cJsonDap" where
  "cJSON_DetachItemFromObject s obj =
     (case cJSON_GetObjectItem obj s of
        Some _ \<Rightarrow> cJSON_DetachItemFromArray (int (index_of_name s obj)) obj
      | None \<Rightarrow> (None, obj))"

definition cJSON_DeleteItemFromObject :: "string \<Rightarrow> cJsonDap \<Rightarrow> cJsonDap" where
  "cJSON_DeleteItemFromObject s obj = snd (cJSON_DetachItemFromObject s obj)"

definition cJSON_ReplaceItemInArray :: "int \<Rightarrow> cJsonDap \<Rightarrow> cJsonDap \<Rightarrow> cJsonDap" where
  "cJSON_ReplaceItemInArray which newitem a =
     (let n = nat which; cs = children a in
      case list_head (walk cs n) of None \<Rightarrow> a | Some _ \<Rightarrow> set_children (cs[n := newitem]) a)"

definition cJSON_ReplaceItemInObject :: "string \<Rightarrow> cJsonDap \<Rightarrow> cJsonDap \<Rightarrow> cJsonDap" where
  "cJSON_ReplaceItemInObject s newitem obj =
     (case cJSON_GetObjectItem obj s of
        Some _ \<Rightarrow> cJSON_ReplaceItemInArray (int (index_of_name s obj)) (set_name (Some (c_str s)) newitem) obj
      | None \<Rightarrow> obj)"

section \<open>Array constructors\<close>

text \<open>The loop reads \<open>count\<close> entries of the C array, past its end if it is shorter.\<close>

definition create_array_of :: "('a \<Rightarrow> cJsonDap) \<Rightarrow> 'a list \<Rightarrow> int \<Rightarrow> cJsonDap outcome" where
  "create_array_of mk xs count =
     (if count \<le> int (length xs) then Ok (set_children (map mk (take (nat count) xs)) cJSON_CreateArray)
      else Undef Over_Read)"

definition cJSON_CreateIntArray :: "int list \<Rightarrow> int \<Rightarrow> cJsonDap outcome" where
  "cJSON_CreateIntArray = create_array_of (\<lambda>i. cJSON_CreateNumber (i2d i))"

definition cJSON_CreateFloatArray :: "double list \<Rightarrow> int \<Rightarrow> cJsonDap outcome" where
  "cJSON_CreateFloatArray = create_array_of cJSON_CreateNumber"

definition cJSON_CreateDoubleArray :: "double list \<Rightarrow> int \<Rightarrow> cJsonDap outcome" where
  "cJSON_CreateDoubleArray = create_array_of cJSON_CreateNumber"

definition cJSON_CreateStringArray :: "string list \<Rightarrow> int \<Rightarrow> cJsonDap outcome" where
  "cJSON_CreateStringArray = create_array_of cJSON_CreateString"

section \<open>Properties\<close>

lemma set_children_simps [simp]:
  "children (set_children cs n) = cs"
  "type_of (set_children cs n) = type_of n"
  "name_of (set_children cs n) = name_of n"
  "valuestring (set_children cs n) = valuestring n"
  "valueint (set_children cs n) = valueint n"
  "set_children cs (set_children ds n) = set_children cs n"
  "set_children (children n) n = n"
  by (simp_all add: set_children_def)

lemma set_name_simps [simp]:
  "name_of (set_name k n) = k"
  "type_of (set_name k n) = type_of n"
  "children (set_name k n) = children n"
  "valuestring (set_name k n) = valuestring n"
  "valueint (set_name k n) = valueint n"
  by (simp_all add: set_name_def)

lemma list_head_simps [simp]: "list_head [] = None" "list_head (x # xs) = Some x"
  by (simp_all add: list_head_def)

lemma walk_drop: "walk cs n = drop n cs"
  by (induction cs n rule: walk.induct) auto

lemma list_head_drop: "list_head (drop n cs) = (if n < length cs then Some (cs ! n) else None)"
  by (cases "n < length cs") (simp_all add: Cons_nth_drop_Suc [symmetric])

lemma GetArrayItem_nth:
  "cJSON_GetArrayItem a i = (if nat i < length (children a) then Some (children a ! nat i) else None)"
  by (simp add: cJSON_GetArrayItem_def walk_drop list_head_drop)

lemma tolower_nonneg: "c \<noteq> NUL \<Longrightarrow> 0 < tolower c"
proof -
  assume "c \<noteq> NUL"
  then have "(of_char c :: nat) \<noteq> 0" using of_char_eq_iff [of c NUL, where 'a = nat] by (simp add: NUL_def)
  then show ?thesis by (simp add: tolower_def Let_def)
qed

lemma strcasecmp_loop_iff:
  "no_nul a \<Longrightarrow> no_nul b \<Longrightarrow> strcasecmp_loop a b = 0 \<longleftrightarrow> map tolower a = map tolower b"
proof (induction a b rule: strcasecmp_loop.induct)
  case (2 d ds)
  then show ?case using tolower_nonneg [of d] by simp
next
  case (3 c cs)
  then show ?case using tolower_nonneg [of c] by simp
qed auto

text \<open>Names that differ only in the case of their letters.\<close>

definition same_name :: "string \<Rightarrow> cJsonDap \<Rightarrow> bool" where
  "same_name s c \<longleftrightarrow> (\<exists>k. name_of c = Some k \<and> map tolower (c_str k) = map tolower (c_str s))"

lemma name_differs_iff: "name_differs s c \<longleftrightarrow> \<not> same_name s c"
  by (auto simp: name_differs_def same_name_def cJSON_strcasecmp_def strcasecmp_loop_iff split: option.splits)

lemma dropWhile_drop_takeWhile: "dropWhile P xs = drop (length (takeWhile P xs)) xs"
  by (induction xs) auto

lemma GetObjectItem_find: "cJSON_GetObjectItem obj s = find (same_name s) (children obj)"
proof -
  have "list_head (dropWhile (name_differs s) cs) = find (same_name s) cs" for cs
    by (induction cs) (auto simp: name_differs_iff)
  then show ?thesis by (simp add: cJSON_GetObjectItem_def)
qed

lemma find_append: "find P (xs @ ys) = (case find P xs of Some a \<Rightarrow> Some a | None \<Rightarrow> find P ys)"
  by (induction xs) auto

text \<open>Detaching and inserting at an index are inverse; deleting shortens by one.\<close>

lemma DetachItemFromArray_spec:
  "cJSON_DetachItemFromArray i a =
     (if nat i < length (children a)
      then (Some (children a ! nat i), set_children (take (nat i) (children a) @ drop (Suc (nat i)) (children a)) a)
      else (None, a))"
  by (simp add: cJSON_DetachItemFromArray_def walk_drop list_head_drop Let_def)

lemma index_of_name_less:
  "cJSON_GetObjectItem obj s = Some c \<Longrightarrow>
     index_of_name s obj < length (children obj) \<and> children obj ! index_of_name s obj = c"
  by (auto simp: cJSON_GetObjectItem_def dropWhile_drop_takeWhile list_head_drop index_of_name_def split: if_splits)

lemma DetachItemFromObject_fst: "fst (cJSON_DetachItemFromObject s obj) = cJSON_GetObjectItem obj s"
  using index_of_name_less [of obj s]
  by (auto simp: cJSON_DetachItemFromObject_def DetachItemFromArray_spec split: option.splits)

lemma ReplaceItemInObject_lookup:
  assumes "cJSON_GetObjectItem obj s = Some c"
  shows "cJSON_GetObjectItem (cJSON_ReplaceItemInObject s x obj) s = Some (set_name (Some (c_str s)) x)"
proof -
  let ?n = "index_of_name s obj" and ?x = "set_name (Some (c_str s)) x"
  have n: "?n < length (children obj)" using index_of_name_less [OF assms] by blast
  have "cJSON_ReplaceItemInObject s x obj = set_children ((children obj)[?n := ?x]) obj"
    using assms n by (simp add: cJSON_ReplaceItemInObject_def cJSON_ReplaceItemInArray_def walk_drop list_head_drop)
  moreover have "same_name s ?x" by (simp add: same_name_def)
  moreover have "\<not> same_name s (children obj ! j)" if "j < ?n" for j
    using that takeWhile_nth [of j "name_differs s" "children obj"]
      nth_mem [of j "takeWhile (name_differs s) (children obj)"]
      set_takeWhileD [of "children obj ! j" "name_differs s" "children obj"]
    by (auto simp: index_of_name_def name_differs_iff)
  ultimately show ?thesis using n
    by (auto simp: GetObjectItem_find find_Some_iff intro!: exI [of _ ?n])
qed

lemma AddItemToObject_lookup:
  "cJSON_GetObjectItem (cJSON_AddItemToObject s (Some x) obj) t =
     (case cJSON_GetObjectItem obj t of
        Some c \<Rightarrow> Some c
      | None \<Rightarrow> if map tolower (c_str s) = map tolower (c_str t) then Some (set_name (Some (c_str s)) x) else None)"
proof -
  have "same_name t (set_name (Some (c_str s)) x) \<longleftrightarrow> map tolower (c_str s) = map tolower (c_str t)"
    by (simp add: same_name_def)
  then show ?thesis
    by (auto simp: GetObjectItem_find cJSON_AddItemToObject_def cJSON_AddItemToArray_def find_append
        split: option.split)
qed

end
