(* ===== verification/Dap_Heap.thy ===== *)
theory Dap_Heap
  imports Dap_CJson_Edit "HOL-Library.Multiset"
begin

text \<open>
  The trees of \<^verbatim>\<open>dap/cJSON.cpp\<close> as they are in memory: nodes linked by \<^verbatim>\<open>next\<close>, \<^verbatim>\<open>prev\<close> and \<^verbatim>\<open>child\<close>
  that own their strings.  The memory maps addresses to the blocks that are allocated; \<open>None\<close> as a
  result is an access to memory that is not (or a loop that does not end).  The address that
  \<^verbatim>\<open>malloc\<close> returns is an argument, so the theorems hold for every allocator; it never fails.  What
  the functions do to the memory is related to the functions on trees of \<^verbatim>\<open>Dap_CJson_Edit\<close>.
\<close>

section \<open>Memory\<close>

type_synonym addr = nat

record cell =
  c_next :: "addr option"
  c_prev :: "addr option"
  c_child :: "addr option"
  c_type :: int
  c_valuestring :: "addr option"
  c_valueint :: int
  c_valuedouble :: double
  c_string :: "addr option"

datatype block = Cell cell | Chars string

type_synonym heap = "addr \<rightharpoonup> block"

definition load :: "addr \<Rightarrow> heap \<Rightarrow> cell option" where
  "load a h = (case h a of Some (Cell n) \<Rightarrow> Some n | _ \<Rightarrow> None)"

definition chars :: "addr option \<Rightarrow> heap \<Rightarrow> string option option" where
  "chars p h =
     (case p of None \<Rightarrow> Some None
      | Some a \<Rightarrow> (case h a of Some (Chars s) \<Rightarrow> Some (Some s) | _ \<Rightarrow> None))"

definition store :: "addr \<Rightarrow> (cell \<Rightarrow> cell) \<Rightarrow> heap \<Rightarrow> heap option" where
  "store a f h = map_option (\<lambda>n. h(a \<mapsto> Cell (f n))) (load a h)"

definition malloc :: "addr \<Rightarrow> block \<Rightarrow> heap \<Rightarrow> heap" where
  "malloc a b h = h(a \<mapsto> b)"

definition free :: "addr \<Rightarrow> heap \<Rightarrow> heap option" where
  "free a h = (if h a = None then None else Some (h(a := None)))"

text \<open>\<^verbatim>\<open>if(p) cJSON_free(p)\<close>\<close>

definition free_if :: "addr option \<Rightarrow> heap \<Rightarrow> heap option" where
  "free_if p h = (case p of None \<Rightarrow> Some h | Some a \<Rightarrow> free a h)"

definition is_ref :: "int \<Rightarrow> bool" where
  "is_ref t \<longleftrightarrow> t div 256 mod 2 = 1"

section \<open>The functions\<close>

definition heap_strdup :: "addr \<Rightarrow> string \<Rightarrow> heap \<Rightarrow> heap" where
  "heap_strdup a s h = malloc a (Chars (c_str s)) h"

definition new_cell :: cell where
  "new_cell = \<lparr>c_next = None, c_prev = None, c_child = None, c_type = 0, c_valuestring = None, c_valueint = 0,
     c_valuedouble = Fin 0, c_string = None\<rparr>"

definition heap_New_Item :: "addr \<Rightarrow> heap \<Rightarrow> heap" where
  "heap_New_Item a h = malloc a (Cell new_cell) h"

text \<open>\<^verbatim>\<open>cJSON_CreateArray\<close>, \<^verbatim>\<open>cJSON_CreateObject\<close> and the other constructors that only set the type.\<close>

definition heap_Create :: "int \<Rightarrow> addr \<Rightarrow> heap \<Rightarrow> heap option" where
  "heap_Create t a h = store a (\<lambda>n. n \<lparr>c_type := t\<rparr>) (heap_New_Item a h)"

definition heap_CreateNumber :: "double \<Rightarrow> addr \<Rightarrow> heap \<Rightarrow> heap option" where
  "heap_CreateNumber num a h =
     store a (\<lambda>n. n \<lparr>c_type := cJsonDap_Number, c_valuedouble := num, c_valueint := d2i num\<rparr>) (heap_New_Item a h)"

definition heap_CreateString :: "string \<Rightarrow> addr \<Rightarrow> addr \<Rightarrow> heap \<Rightarrow> heap option" where
  "heap_CreateString s a sa h =
     Option.bind (store a (\<lambda>n. n \<lparr>c_type := cJsonDap_String\<rparr>) (heap_New_Item a h)) (\<lambda>h.
       store a (\<lambda>n. n \<lparr>c_valuestring := Some sa\<rparr>) (heap_strdup sa s h))"

partial_function (option) heap_Delete :: "addr option \<Rightarrow> heap \<Rightarrow> heap option" where
  "heap_Delete c h =
     (case c of
        None \<Rightarrow> Some h
      | Some a \<Rightarrow>
          Option.bind (load a h) (\<lambda>n.
          Option.bind (if \<not> is_ref (c_type n) \<and> c_child n \<noteq> None then heap_Delete (c_child n) h else Some h) (\<lambda>h.
          Option.bind (load a h) (\<lambda>m.
          Option.bind (if \<not> is_ref (c_type m) then free_if (c_valuestring m) h else Some h) (\<lambda>h.
          Option.bind (load a h) (\<lambda>m.
          Option.bind (free_if (c_string m) h) (\<lambda>h.
          Option.bind (free a h) (\<lambda>h.
            heap_Delete (c_next n) h))))))))"

declare heap_Delete.simps [code]

definition suffix_object :: "addr \<Rightarrow> addr \<Rightarrow> heap \<Rightarrow> heap option" where
  "suffix_object prev item h =
     Option.bind (store prev (\<lambda>n. n \<lparr>c_next := Some item\<rparr>) h) (store item (\<lambda>n. n \<lparr>c_prev := Some prev\<rparr>))"

text \<open>\<^verbatim>\<open>while(c && c->next) c = c->next\<close>\<close>

partial_function (option) last_item :: "addr \<Rightarrow> heap \<Rightarrow> addr option" where
  "last_item c h =
     Option.bind (load c h) (\<lambda>n. case c_next n of None \<Rightarrow> Some c | Some d \<Rightarrow> last_item d h)"

declare last_item.simps [code]

definition heap_AddItemToArray :: "addr \<Rightarrow> addr option \<Rightarrow> heap \<Rightarrow> heap option" where
  "heap_AddItemToArray array item h =
     Option.bind (load array h) (\<lambda>n.
       case item of
         None \<Rightarrow> Some h
       | Some i \<Rightarrow>
          (case c_child n of
             None \<Rightarrow> store array (\<lambda>n. n \<lparr>c_child := Some i\<rparr>) h
           | Some c \<Rightarrow> Option.bind (last_item c h) (\<lambda>l. suffix_object l i h)))"

definition heap_AddItemToObject :: "addr \<Rightarrow> string \<Rightarrow> addr \<Rightarrow> addr option \<Rightarrow> heap \<Rightarrow> heap option" where
  "heap_AddItemToObject obj s sa item h =
     (case item of
        None \<Rightarrow> Some h
      | Some i \<Rightarrow>
          Option.bind (load i h) (\<lambda>n.
          Option.bind (free_if (c_string n) h) (\<lambda>h.
          Option.bind (store i (\<lambda>n. n \<lparr>c_string := Some sa\<rparr>) (heap_strdup sa s h)) (\<lambda>h.
            heap_AddItemToArray obj (Some i) h))))"

text \<open>\<^verbatim>\<open>while(c && which > 0) c = c->next, which--\<close>\<close>

primrec heap_walk :: "nat \<Rightarrow> addr option \<Rightarrow> heap \<Rightarrow> addr option option" where
  "heap_walk 0 c h = Some c"
| "heap_walk (Suc n) c h =
     (case c of None \<Rightarrow> Some None | Some a \<Rightarrow> Option.bind (load a h) (\<lambda>x. heap_walk n (c_next x) h))"

definition heap_GetArrayItem :: "addr \<Rightarrow> int \<Rightarrow> heap \<Rightarrow> addr option option" where
  "heap_GetArrayItem array item h = Option.bind (load array h) (\<lambda>n. heap_walk (nat item) (c_child n) h)"

text \<open>\<^verbatim>\<open>while(c && cJSON_strcasecmp(c->string, string)) i++, c = c->next\<close>\<close>

partial_function (option) heap_find :: "string \<Rightarrow> nat \<Rightarrow> addr option \<Rightarrow> heap \<Rightarrow> (addr option \<times> nat) option" where
  "heap_find s i c h =
     (case c of
        None \<Rightarrow> Some (None, i)
      | Some a \<Rightarrow>
          Option.bind (load a h) (\<lambda>n.
          Option.bind (chars (c_string n) h) (\<lambda>k.
            if cJSON_strcasecmp k (Some s) \<noteq> 0 then heap_find s (Suc i) (c_next n) h else Some (Some a, i))))"

declare heap_find.simps [code]

definition heap_GetObjectItem :: "addr \<Rightarrow> string \<Rightarrow> heap \<Rightarrow> addr option option" where
  "heap_GetObjectItem obj s h =
     Option.bind (load obj h) (\<lambda>n. map_option fst (heap_find s 0 (c_child n) h))"

text \<open>\<^verbatim>\<open>if(p) p->field = v\<close>\<close>

definition store_if :: "addr option \<Rightarrow> (cell \<Rightarrow> cell) \<Rightarrow> heap \<Rightarrow> heap option" where
  "store_if p f h = (case p of None \<Rightarrow> Some h | Some a \<Rightarrow> store a f h)"

definition heap_DetachItemFromArray :: "addr \<Rightarrow> int \<Rightarrow> heap \<Rightarrow> (addr option \<times> heap) option" where
  "heap_DetachItemFromArray array which h =
     Option.bind (load array h) (\<lambda>n.
     Option.bind (heap_walk (nat which) (c_child n) h) (\<lambda>c.
       case c of
         None \<Rightarrow> Some (None, h)
       | Some a \<Rightarrow>
           Option.bind (load a h) (\<lambda>x.
           Option.bind (store_if (c_prev x) (\<lambda>p. p \<lparr>c_next := c_next x\<rparr>) h) (\<lambda>h.
           Option.bind (store_if (c_next x) (\<lambda>p. p \<lparr>c_prev := c_prev x\<rparr>) h) (\<lambda>h.
           Option.bind (load array h) (\<lambda>n.
           Option.bind (if c_child n = Some a then store array (\<lambda>n. n \<lparr>c_child := c_next x\<rparr>) h else Some h) (\<lambda>h.
           Option.bind (store a (\<lambda>x. x \<lparr>c_prev := None, c_next := None\<rparr>) h) (\<lambda>h.
             Some (Some a, h)))))))))"

definition heap_DeleteItemFromArray :: "addr \<Rightarrow> int \<Rightarrow> heap \<Rightarrow> heap option" where
  "heap_DeleteItemFromArray array which h =
     Option.bind (heap_DetachItemFromArray array which h) (\<lambda>(c, h). heap_Delete c h)"

definition heap_DetachItemFromObject :: "addr \<Rightarrow> string \<Rightarrow> heap \<Rightarrow> (addr option \<times> heap) option" where
  "heap_DetachItemFromObject obj s h =
     Option.bind (load obj h) (\<lambda>n.
     Option.bind (heap_find s 0 (c_child n) h) (\<lambda>(c, i).
       if c \<noteq> None then heap_DetachItemFromArray obj (int i) h else Some (None, h)))"

definition heap_DeleteItemFromObject :: "addr \<Rightarrow> string \<Rightarrow> heap \<Rightarrow> heap option" where
  "heap_DeleteItemFromObject obj s h =
     Option.bind (heap_DetachItemFromObject obj s h) (\<lambda>(c, h). heap_Delete c h)"

definition heap_ReplaceItemInArray :: "addr \<Rightarrow> int \<Rightarrow> addr \<Rightarrow> heap \<Rightarrow> heap option" where
  "heap_ReplaceItemInArray array which newitem h =
     Option.bind (load array h) (\<lambda>n.
     Option.bind (heap_walk (nat which) (c_child n) h) (\<lambda>c.
       case c of
         None \<Rightarrow> Some h
       | Some a \<Rightarrow>
           Option.bind (load a h) (\<lambda>x.
           Option.bind (store newitem (\<lambda>y. y \<lparr>c_next := c_next x, c_prev := c_prev x\<rparr>) h) (\<lambda>h.
           Option.bind (store_if (c_next x) (\<lambda>p. p \<lparr>c_prev := Some newitem\<rparr>) h) (\<lambda>h.
           Option.bind (load array h) (\<lambda>n.
           Option.bind (if c_child n = Some a then store array (\<lambda>n. n \<lparr>c_child := Some newitem\<rparr>) h
                        else case c_prev x of None \<Rightarrow> None | Some p \<Rightarrow> store p (\<lambda>p. p \<lparr>c_next := Some newitem\<rparr>) h) (\<lambda>h.
           Option.bind (store a (\<lambda>x. x \<lparr>c_next := None, c_prev := None\<rparr>) h) (\<lambda>h.
             heap_Delete (Some a) h))))))))"

definition heap_ReplaceItemInObject :: "addr \<Rightarrow> string \<Rightarrow> addr \<Rightarrow> addr \<Rightarrow> heap \<Rightarrow> heap option" where
  "heap_ReplaceItemInObject obj s sa newitem h =
     Option.bind (load obj h) (\<lambda>n.
     Option.bind (heap_find s 0 (c_child n) h) (\<lambda>(c, i).
       if c \<noteq> None then
         Option.bind (store newitem (\<lambda>y. y \<lparr>c_string := Some sa\<rparr>) (heap_strdup sa s h)) (heap_ReplaceItemInArray obj (int i) newitem)
       else Some h))"

section \<open>Trees in memory\<close>

text \<open>A tree with the addresses of its blocks: the node, its value string and its name.\<close>

datatype atree = ANode (node_addr: addr) int "(addr \<times> string) option" int double "(addr \<times> string) option" "atree list"

fun tree_of :: "atree \<Rightarrow> cJsonDap" where
  "tree_of (ANode a t vs i d nm ks) = Item t (map_option snd vs) i d (map_option snd nm) (map tree_of ks)"

definition ptrs :: "(addr \<times> string) option \<Rightarrow> addr list" where
  "ptrs p = (case p of None \<Rightarrow> [] | Some (a, s) \<Rightarrow> [a])"

fun owned :: "atree \<Rightarrow> addr list" where
  "owned (ANode a t vs i d nm ks) = a # ptrs vs @ ptrs nm @ concat (map owned ks)"

definition owned_list :: "atree list \<Rightarrow> addr list" where
  "owned_list ts = concat (map owned ts)"

definition chars_at :: "heap \<Rightarrow> (addr \<times> string) option \<Rightarrow> bool" where
  "chars_at h p = (case p of None \<Rightarrow> True | Some (a, s) \<Rightarrow> h a = Some (Chars s))"

text \<open>
  \<open>seg h p q ts r\<close>: the chain that starts at \<open>q\<close> is the list of trees \<open>ts\<close>; the first node points back
  to \<open>p\<close>, the last one on to \<open>r\<close>.  No node is a reference, whose children belong to another tree:
  nothing in the program creates one.
\<close>

fun seg :: "heap \<Rightarrow> addr option \<Rightarrow> addr option \<Rightarrow> atree list \<Rightarrow> addr option \<Rightarrow> bool" where
  "seg h p q [] r \<longleftrightarrow> q = r"
| "seg h p q (ANode a t vs i d nm ks # ts) r \<longleftrightarrow> q = Some a \<and> \<not> is_ref t \<and> chars_at h vs \<and> chars_at h nm \<and>
     (\<exists>x y. h a = Some (Cell \<lparr>c_next = y, c_prev = p, c_child = x, c_type = t, c_valuestring = map_option fst vs,
               c_valueint = i, c_valuedouble = d, c_string = map_option fst nm\<rparr>) \<and>
        seg h None x ks None \<and> seg h (Some a) y ts r)"

definition root_at :: "heap \<Rightarrow> atree \<Rightarrow> bool" where
  "root_at h t \<longleftrightarrow> seg h None (Some (node_addr t)) [t] None \<and> distinct (owned t)"

lemma owned_list_simps [simp]:
  "owned_list [] = []" "owned_list (t # ts) = owned t @ owned_list ts" "owned_list (ts @ us) = owned_list ts @ owned_list us"
  by (simp_all add: owned_list_def)

lemma owned_node [simp]: "owned (ANode a t vs i d nm ks) = a # ptrs vs @ ptrs nm @ owned_list ks"
  by (simp add: owned_list_def)

declare owned.simps [simp del]

lemma node_addr_owned [simp]: "node_addr t \<in> set (owned t)"
  by (cases t) simp

lemma node_addr_apart: "set (owned v) \<inter> A = {} \<Longrightarrow> node_addr v \<notin> A" "A \<inter> set (owned v) = {} \<Longrightarrow> node_addr v \<notin> A"
  using node_addr_owned [of v] by blast+

lemma chars_at_cong: "(\<And>x. x \<in> set (ptrs v) \<Longrightarrow> h' x = h x) \<Longrightarrow> chars_at h' v = chars_at h v"
  by (auto simp: chars_at_def ptrs_def split: option.splits prod.splits)

lemma seg_cong: "(\<And>x. x \<in> set (owned_list ts) \<Longrightarrow> h' x = h x) \<Longrightarrow> seg h' p q ts r = seg h p q ts r"
proof (induction h p q ts r rule: seg.induct)
  case (2 h p q a t vs i d nm ks ts r)
  have "chars_at h' vs = chars_at h vs" "chars_at h' nm = chars_at h nm" using "2.prems" by (auto intro!: chars_at_cong)
  moreover have "h' a = h a" using "2.prems" by simp
  moreover have "seg h' None x ks None = seg h None x ks None" "seg h' (Some a) y ts r = seg h (Some a) y ts r" for x y
    using 2 by simp_all
  ultimately show ?case by simp
qed simp

text \<open>The last node of a chain.\<close>

definition last_of :: "addr option \<Rightarrow> atree list \<Rightarrow> addr option" where
  "last_of p ts = (if ts = [] then p else Some (node_addr (last ts)))"

lemma last_of_simps [simp]: "last_of p [] = p" "last_of p (ts @ [t]) = Some (node_addr t)" "last_of p (t # ts) = last_of (Some (node_addr t)) ts"
  by (simp_all add: last_of_def)

lemma seg_append: "seg h p q (ts @ us) r \<longleftrightarrow> (\<exists>m. seg h p q ts m \<and> seg h (last_of p ts) m us r)"
proof (induction ts arbitrary: p q)
  case (Cons t ts)
  then show ?case by (cases t) auto
qed simp

section \<open>Deleting\<close>

lemma restrict_upd_None: "h(a := None) = h |` (- {a})"
  by (simp add: restrict_complement_singleton_eq)

lemma load_Cell [simp]: "h a = Some (Cell n) \<Longrightarrow> load a h = Some n"
  by (simp add: load_def)

lemma free_if_ptrs:
  "chars_at h v \<Longrightarrow> free_if (map_option fst v) h = Some (h |` (- set (ptrs v)))"
  by (auto simp: free_if_def free_def chars_at_def ptrs_def restrict_upd_None split: option.splits)

lemma heap_Delete_None [simp]: "heap_Delete None h = Some h"
  by (simp add: heap_Delete.simps)

lemma restrict_UNIV [simp]: "h |` UNIV = h"
  by (simp add: restrict_map_def)

lemma seg_None: "seg h p None ts None \<Longrightarrow> ts = []"
  by (cases "(h, p, None :: addr option, ts, None :: addr option)" rule: seg.cases) auto

lemma heap_Delete_agree:
  "seg h p q ts None \<Longrightarrow> distinct (owned_list ts) \<Longrightarrow> (\<And>x. x \<in> set (owned_list ts) \<Longrightarrow> g x = h x) \<Longrightarrow>
     heap_Delete q g = Some (g |` (- set (owned_list ts)))"
proof (induction h p q ts "None :: addr option" arbitrary: g rule: seg.induct)
  case (2 h p q a t vs i d nm ks ts)
  have sg: "seg g p q (ANode a t vs i d nm ks # ts) None"
    using "2.prems"(1,3) by (subst seg_cong [where h = h]) simp_all
  then obtain x y where n: "q = Some a" "\<not> is_ref t" "chars_at g vs" "chars_at g nm"
    "g a = Some (Cell \<lparr>c_next = y, c_prev = p, c_child = x, c_type = t, c_valuestring = map_option fst vs,
       c_valueint = i, c_valuedouble = d, c_string = map_option fst nm\<rparr>)" (is "_ = Some (Cell ?n)")
    "seg g None x ks None" "seg g (Some a) y ts None" by auto
  have m: "seg h None x ks None" "seg h (Some a) y ts None"
    using "2.prems"(3) n(6,7) seg_cong [of ks h g] seg_cong [of ts h g] by simp_all
  let ?h1 = "g |` (- set (owned_list ks))"
  let ?h2 = "?h1 |` (- set (ptrs vs))"
  let ?h3 = "?h2 |` (- set (ptrs nm))"
  let ?h4 = "?h3 |` (- {a})"
  have d: "a \<notin> set (owned_list ks)" "a \<notin> set (ptrs vs)" "a \<notin> set (ptrs nm)" "set (ptrs vs) \<inter> set (ptrs nm) = {}"
    "set (ptrs vs) \<inter> set (owned_list ks) = {}" "set (ptrs nm) \<inter> set (owned_list ks) = {}" "distinct (owned_list ks)"
    using "2.prems"(2) by auto
  have 1: "(if \<not> is_ref (c_type ?n) \<and> c_child ?n \<noteq> None then heap_Delete (c_child ?n) g else Some g) = Some ?h1"
  proof (cases x)
    case None
    then show ?thesis using seg_None [of g None ks] n(6) by simp
  next
    case (Some b)
    then show ?thesis using "2.hyps"(1) [OF m(1) d(7), of g] "2.prems"(3) n(2) by simp
  qed
  have l: "load a ?h1 = Some ?n" "load a ?h2 = Some ?n" "free a ?h3 = Some ?h4"
    using n(5) d by (simp_all add: free_def restrict_upd_None)
  have "chars_at ?h1 vs" "chars_at ?h2 nm" using n(3,4) d
    by (auto simp: chars_at_def ptrs_def split: option.splits)
  then have f: "free_if (map_option fst vs) ?h1 = Some ?h2" "free_if (map_option fst nm) ?h2 = Some ?h3"
    by (simp_all add: free_if_ptrs)
  have ag: "?h4 z = h z" if "z \<in> set (owned_list ts)" for z
    using that "2.prems"(2,3) by (auto simp: restrict_map_def)
  have ds: "distinct (owned_list ts)" using "2.prems"(2) by simp
  have "heap_Delete y ?h4 = Some (?h4 |` (- set (owned_list ts)))" by (rule "2.hyps"(2) [OF m(2) ds ag])
  then have "heap_Delete q g = Some (?h4 |` (- set (owned_list ts)))"
    using n(2) 1 l f unfolding n(1) by (subst heap_Delete.simps) (simp add: n(5) del: restrict_restrict)
  moreover have "?h4 |` (- set (owned_list ts)) = g |` (- set (owned_list (ANode a t vs i d nm ks # ts)))"
    by (rule ext) (auto simp: restrict_map_def)
  ultimately show ?case by simp
qed simp

lemmas heap_Delete_seg = heap_Delete_agree [OF _ _ refl]

section \<open>Changing links\<close>

lemma node_of_seg: "seg h p (Some a) (t # ts) r \<Longrightarrow> node_addr t = a"
  by (cases t) auto

text \<open>The links of a node can be changed under its tree.\<close>

lemma relink:
  assumes "seg h p q [k] r" "distinct (owned k)"
  shows "\<exists>n. q = Some (node_addr k) \<and> h (node_addr k) = Some (Cell n) \<and> c_prev n = p \<and> c_next n = r \<and>
     (\<forall>g p' r'. (\<forall>x\<in>set (owned k) - {node_addr k}. g x = h x) \<longrightarrow>
        g (node_addr k) = Some (Cell (n \<lparr>c_next := r', c_prev := p'\<rparr>)) \<longrightarrow> seg g p' q [k] r')"
proof (cases k)
  case (ANode a t vs i d nm ks)
  from assms(1) ANode obtain x where n: "q = Some a" "\<not> is_ref t" "chars_at h vs" "chars_at h nm"
    "h a = Some (Cell \<lparr>c_next = r, c_prev = p, c_child = x, c_type = t, c_valuestring = map_option fst vs,
       c_valueint = i, c_valuedouble = d, c_string = map_option fst nm\<rparr>)" "seg h None x ks None" by auto
  have "seg g p' q [k] r'" if g: "\<forall>x\<in>set (owned k) - {a}. g x = h x"
    "g a = Some (Cell \<lparr>c_next = r', c_prev = p', c_child = x, c_type = t, c_valuestring = map_option fst vs,
       c_valueint = i, c_valuedouble = d, c_string = map_option fst nm\<rparr>)" for g p' r'
  proof -
    have "chars_at g vs = chars_at h vs" "chars_at g nm = chars_at h nm" "seg g None x ks None = seg h None x ks None"
      using g(1) assms(2) ANode by (auto intro!: chars_at_cong seg_cong)
    then show ?thesis using n g(2) ANode by simp
  qed
  then show ?thesis using n ANode by simp
qed

lemma rechild:
  assumes "seg h p q [ANode a t vs i d nm ks] r" "distinct (owned (ANode a t vs i d nm ks))"
  shows "\<exists>n. q = Some a \<and> h a = Some (Cell n) \<and> seg h None (c_child n) ks None \<and>
     (\<forall>g x ls. (\<forall>z\<in>set (ptrs vs @ ptrs nm). g z = h z) \<longrightarrow> g a = Some (Cell (n \<lparr>c_child := x\<rparr>)) \<longrightarrow> seg g None x ls None \<longrightarrow>
        seg g p q [ANode a t vs i d nm ls] r)"
proof -
  from assms(1) obtain x where n: "q = Some a" "\<not> is_ref t" "chars_at h vs" "chars_at h nm"
    "h a = Some (Cell \<lparr>c_next = r, c_prev = p, c_child = x, c_type = t, c_valuestring = map_option fst vs,
       c_valueint = i, c_valuedouble = d, c_string = map_option fst nm\<rparr>)" "seg h None x ks None" by auto
  have "chars_at g vs = chars_at h vs" "chars_at g nm = chars_at h nm" if "\<forall>z\<in>set (ptrs vs @ ptrs nm). g z = h z" for g
    using that by (auto intro!: chars_at_cong)
  then show ?thesis using n by simp
qed

lemma link_prev:
  assumes "seg h p q vs None" "distinct (owned_list vs)"
  shows "\<exists>g. store_if q (\<lambda>n. n \<lparr>c_prev := p'\<rparr>) h = Some g \<and> seg g p' q vs None \<and> (\<forall>x. x \<notin> set (owned_list vs) \<longrightarrow> g x = h x)"
proof (cases vs)
  case Nil
  then show ?thesis using assms(1) by (simp add: store_if_def)
next
  case (Cons v ws)
  let ?b = "node_addr v"
  obtain m where m: "seg h p q [v] m" "seg h (Some ?b) m ws None"
    using assms(1) seg_append [of h p q "[v]" ws None] Cons by auto
  have d: "distinct (owned v)" "?b \<notin> set (owned_list ws)" using assms(2) Cons node_addr_apart(1) [of v] by auto
  from relink [OF m(1) d(1)] obtain n where n: "q = Some ?b" "h ?b = Some (Cell n)" "c_next n = m"
    "\<And>g p' r'. (\<forall>x\<in>set (owned v) - {?b}. g x = h x) \<Longrightarrow> g ?b = Some (Cell (n \<lparr>c_next := r', c_prev := p'\<rparr>)) \<Longrightarrow> seg g p' q [v] r'"
    by blast
  let ?g = "h(?b \<mapsto> Cell (n \<lparr>c_prev := p'\<rparr>))"
  have "n \<lparr>c_next := m, c_prev := p'\<rparr> = n \<lparr>c_prev := p'\<rparr>" using n(3) by simp
  then have "seg ?g p' q [v] m" by (intro n(4)) simp_all
  moreover have "seg ?g (Some ?b) m ws None" using m(2) d(2) by (subst seg_cong [where h = h]) auto
  ultimately have "seg ?g p' q vs None" using seg_append [of ?g p' q "[v]" ws None] Cons by auto
  then show ?thesis using n(1,2) Cons by (intro exI [of _ ?g]) (auto simp: store_if_def store_def)
qed

lemma link_next:
  assumes "seg h None q us m" "distinct (owned_list us)"
  shows "\<exists>g. store_if (last_of None us) (\<lambda>n. n \<lparr>c_next := m'\<rparr>) h = Some g \<and> seg g None (if us = [] then m' else q) us m' \<and>
     (\<forall>x. x \<notin> set (owned_list us) \<longrightarrow> g x = h x)"
proof (cases us rule: rev_cases)
  case Nil
  then show ?thesis by (simp add: store_if_def)
next
  case (snoc ws v)
  let ?b = "node_addr v"
  obtain j where j: "seg h None q ws j" "seg h (last_of None ws) j [v] m"
    using assms(1) seg_append [of h None q ws "[v]" m] snoc by auto
  have d: "distinct (owned v)" "?b \<notin> set (owned_list ws)" using assms(2) snoc node_addr_apart(2) [of _ v] by auto
  from relink [OF j(2) d(1)] obtain n where n: "j = Some ?b" "h ?b = Some (Cell n)" "c_prev n = last_of None ws"
    "\<And>g p' r'. (\<forall>x\<in>set (owned v) - {?b}. g x = h x) \<Longrightarrow> g ?b = Some (Cell (n \<lparr>c_next := r', c_prev := p'\<rparr>)) \<Longrightarrow> seg g p' j [v] r'"
    by blast
  let ?g = "h(?b \<mapsto> Cell (n \<lparr>c_next := m'\<rparr>))"
  have "n \<lparr>c_next := m', c_prev := last_of None ws\<rparr> = n \<lparr>c_next := m'\<rparr>" using n(3) by simp
  then have "seg ?g (last_of None ws) j [v] m'" by (intro n(4)) simp_all
  moreover have "seg ?g None q ws j" using j(1) d(2) by (subst seg_cong [where h = h]) auto
  ultimately have "seg ?g None q us m'" using seg_append [of ?g None q ws "[v]" m'] snoc by auto
  then show ?thesis using n(1,2) snoc by (intro exI [of _ ?g]) (auto simp: store_if_def store_def)
qed

section \<open>Walking and searching\<close>

lemma chars_of_at: "chars_at h v \<Longrightarrow> chars (map_option fst v) h = Some (map_option snd v)"
  by (auto simp: chars_def chars_at_def split: option.splits)

lemma seg_Cons_load:
  "seg h p q (t # ts) r \<Longrightarrow> \<exists>n. q = Some (node_addr t) \<and> load (node_addr t) h = Some n \<and> seg h (Some (node_addr t)) (c_next n) ts r \<and>
     chars (c_string n) h = Some (name_of (tree_of t))"
  by (cases t) (auto simp: load_def chars_of_at)

lemma heap_walk_seg:
  "seg h p q ts None \<Longrightarrow> heap_walk n q h = Some (if n < length ts then Some (node_addr (ts ! n)) else None)"
proof (induction n arbitrary: p q ts)
  case 0
  then show ?case by (cases ts) (auto dest: seg_Cons_load)
next
  case (Suc n)
  show ?case
  proof (cases ts)
    case (Cons t us)
    then show ?thesis using Suc seg_Cons_load [of h p q t us None] by auto
  qed (use Suc.prems in simp)
qed

lemma last_item_seg:
  "seg h p (Some a) ts None \<Longrightarrow> ts \<noteq> [] \<Longrightarrow> last_item a h = Some (node_addr (last ts))"
proof (induction ts arbitrary: p a)
  case (Cons t ts)
  from seg_Cons_load [OF Cons.prems(1)] obtain n where n: "a = node_addr t" "load a h = Some n" "seg h (Some a) (c_next n) ts None" by auto
  show ?case
  proof (cases ts)
    case Nil
    then show ?thesis using n by (subst last_item.simps) simp
  next
    case (Cons u us)
    then obtain b where b: "c_next n = Some b" using n(3) seg_Cons_load [of h "Some a" "c_next n" u us None] by auto
    then have "last_item b h = Some (node_addr (last ts))" using Cons.IH [of "Some a" b] n(3) Cons by simp
    then show ?thesis using n b Cons by (subst last_item.simps) simp
  qed
qed simp

lemma heap_find_seg:
  "seg h p q ts None \<Longrightarrow>
     heap_find s i q h = Some (map_option node_addr (list_head (dropWhile (\<lambda>t. name_differs s (tree_of t)) ts)),
       i + length (takeWhile (\<lambda>t. name_differs s (tree_of t)) ts))"
proof (induction ts arbitrary: p q i)
  case Nil
  then show ?case by (subst heap_find.simps) simp
next
  case (Cons t ts)
  from seg_Cons_load [OF Cons.prems(1)] obtain n where n: "q = Some (node_addr t)" "load (node_addr t) h = Some n"
    "seg h (Some (node_addr t)) (c_next n) ts None" "chars (c_string n) h = Some (name_of (tree_of t))" by auto
  then show ?case using Cons.IH [OF n(3), of "Suc i"] by (subst heap_find.simps) (simp add: name_differs_def)
qed

section \<open>Edits\<close>

text \<open>Adding at the end of the children of a node; \<open>b\<close> is the root of a tree of its own.\<close>

lemma heap_AddItemToArray_seg:
  assumes "seg h p q [ANode a t vs i d nm ks] r" "seg h None (Some b) [u] None" "distinct (owned (ANode a t vs i d nm ks) @ owned u)"
  shows "\<exists>g. heap_AddItemToArray a (Some b) h = Some g \<and> seg g p q [ANode a t vs i d nm (ks @ [u])] r \<and>
     (\<forall>x. x \<notin> set (owned (ANode a t vs i d nm ks) @ owned u) \<longrightarrow> g x = h x)"
proof -
  have dd: "distinct (owned (ANode a t vs i d nm ks))" "distinct (owned_list ks)" "distinct (owned u)" "distinct (owned_list [u])"
    using assms(3) by auto
  have b: "node_addr u = b" using node_of_seg [OF assms(2)] .
  from rechild [OF assms(1) dd(1)] obtain n where n: "q = Some a" "h a = Some (Cell n)" "seg h None (c_child n) ks None"
    "\<And>g x ls. (\<forall>z\<in>set (ptrs vs @ ptrs nm). g z = h z) \<Longrightarrow> g a = Some (Cell (n \<lparr>c_child := x\<rparr>)) \<Longrightarrow> seg g None x ls None \<Longrightarrow>
        seg g p q [ANode a t vs i d nm ls] r" by blast
  show ?thesis
  proof (cases "ks = []")
    case True
    then have c: "c_child n = None" using n(3) by simp
    let ?g = "h(a \<mapsto> Cell (n \<lparr>c_child := Some b\<rparr>))"
    have "seg ?g None (Some b) [u] None" using assms(2,3) by (subst seg_cong [where h = h]) auto
    then have "seg ?g p q [ANode a t vs i d nm [u]] r" using assms(3) by (intro n(4)) auto
    then show ?thesis using True c n(2) by (intro exI [of _ ?g]) (auto simp: heap_AddItemToArray_def store_def)
  next
    case False
    obtain c where c: "c_child n = Some c" using n(3) False seg_None by (cases "c_child n") auto
    have l: "last_item c h = last_of None ks" using last_item_seg [of h None c ks] n(3) c False by (simp add: last_of_def)
    from link_next [OF n(3) dd(2), of "Some b"] obtain g1 where g1: "store_if (last_of None ks) (\<lambda>n. n \<lparr>c_next := Some b\<rparr>) h = Some g1"
      "seg g1 None (Some c) ks (Some b)" "\<forall>x. x \<notin> set (owned_list ks) \<longrightarrow> g1 x = h x" using False c by auto
    have "seg g1 None (Some b) [u] None" using assms(2,3) g1(3) by (subst seg_cong [where h = h]) auto
    from link_prev [OF this dd(4), of "last_of None ks"] obtain g where g: "store_if (Some b) (\<lambda>n. n \<lparr>c_prev := last_of None ks\<rparr>) g1 = Some g"
      "seg g (last_of None ks) (Some b) [u] None" "\<forall>x. x \<notin> set (owned_list [u]) \<longrightarrow> g x = g1 x" by auto
    have "seg g None (Some c) ks (Some b)" using g1(2) g(3) assms(3) by (subst seg_cong [where h = g1]) auto
    then have "seg g None (Some c) (ks @ [u]) None" using g(2) seg_append by blast
    then have "seg g p q [ANode a t vs i d nm (ks @ [u])] r"
      using g(3) g1(3) assms(3) n(2) c by (intro n(4) [of _ "Some c"]) (auto simp: disjoint_iff)
    moreover have "heap_AddItemToArray a (Some b) h = Some g"
      using n(2) c l g1(1) g(1) False
      by (auto simp: heap_AddItemToArray_def suffix_object_def store_if_def last_of_def)
    ultimately show ?thesis using g(3) g1(3) by auto
  qed
qed

text \<open>Taking the child at an index out.\<close>

lemma heap_DetachItemFromArray_seg:
  assumes "seg h p q [ANode a t vs i d nm (us @ [k] @ ws)] r" "distinct (owned (ANode a t vs i d nm (us @ [k] @ ws)))"
  shows "\<exists>g. heap_DetachItemFromArray a (int (length us)) h = Some (Some (node_addr k), g) \<and> seg g p q [ANode a t vs i d nm (us @ ws)] r \<and>
     seg g None (Some (node_addr k)) [k] None \<and> (\<forall>x. x \<notin> set (owned (ANode a t vs i d nm (us @ [k] @ ws))) \<longrightarrow> g x = h x)"
proof -
  let ?b = "node_addr k"
  from rechild [OF assms] obtain n where n: "q = Some a" "h a = Some (Cell n)" "seg h None (c_child n) (us @ [k] @ ws) None"
    "\<And>g x ls. (\<forall>z\<in>set (ptrs vs @ ptrs nm). g z = h z) \<Longrightarrow> g a = Some (Cell (n \<lparr>c_child := x\<rparr>)) \<Longrightarrow> seg g None x ls None \<Longrightarrow>
        seg g p q [ANode a t vs i d nm ls] r" by blast
  have dd: "distinct (owned_list us)" "distinct (owned_list ws)" "distinct (owned k)" "set (owned_list us) \<inter> set (owned_list ws) = {}"
    "set (owned k) \<inter> set (owned_list ws) = {}" "set (owned k) \<inter> set (owned_list us) = {}" "a \<notin> set (owned_list us)" "a \<notin> set (owned k)"
    "a \<notin> set (owned_list ws)" using assms(2) by auto
  from n(3) obtain m1 m2 where m: "seg h None (c_child n) us m1" "seg h (last_of None us) m1 [k] m2" "seg h (Some ?b) m2 ws None"
    using seg_append [of h None "c_child n" us "[k] @ ws" None] seg_append [of h "last_of None us" _ "[k]" ws None] by auto
  from relink [OF m(2) dd(3)] obtain x where x: "m1 = Some ?b" "h ?b = Some (Cell x)" "c_prev x = last_of None us" "c_next x = m2"
    "\<And>g p' r'. (\<forall>x\<in>set (owned k) - {?b}. g x = h x) \<Longrightarrow> g ?b = Some (Cell (x \<lparr>c_next := r', c_prev := p'\<rparr>)) \<Longrightarrow> seg g p' m1 [k] r'"
    by blast
  from link_next [OF m(1) dd(1), of m2] obtain g1 where g1: "store_if (last_of None us) (\<lambda>n. n \<lparr>c_next := m2\<rparr>) h = Some g1"
    "seg g1 None (if us = [] then m2 else c_child n) us m2" "\<forall>x. x \<notin> set (owned_list us) \<longrightarrow> g1 x = h x" by blast
  have "seg g1 (Some ?b) m2 ws None" using m(3) g1(3) dd(4) by (subst seg_cong [where h = h]) auto
  from link_prev [OF this dd(2), of "last_of None us"] obtain g2 where
    g2: "store_if m2 (\<lambda>n. n \<lparr>c_prev := last_of None us\<rparr>) g1 = Some g2" "seg g2 (last_of None us) m2 ws None"
    "\<forall>x. x \<notin> set (owned_list ws) \<longrightarrow> g2 x = g1 x" by blast
  have u: "c_child n = Some ?b \<longleftrightarrow> us = []"
  proof (cases us)
    case (Cons v vs')
    then have "c_child n = Some (node_addr v)" using seg_Cons_load [of h None "c_child n" v vs' m1] m(1) by auto
    moreover have "node_addr v \<noteq> ?b" using Cons dd(6) node_addr_owned [of v] node_addr_owned [of k] by (auto simp: disjoint_iff simp del: node_addr_owned)
    ultimately show ?thesis using Cons by simp
  qed (use m(1) x(1) in simp)
  let ?x = "if us = [] then m2 else c_child n"
  let ?g3 = "g2(a \<mapsto> Cell (n \<lparr>c_child := ?x\<rparr>))"
  let ?g = "?g3(?b \<mapsto> Cell (x \<lparr>c_next := None, c_prev := None\<rparr>))"
  have ab: "a \<noteq> ?b" "?b \<notin> set (owned_list us)" "?b \<notin> set (owned_list ws)" using dd(5,6,8) node_addr_owned [of k] node_addr_apart(1) [of k] by auto
  have a2: "g2 a = Some (Cell n)" "g2 ?b = Some (Cell x)" using g2(3) g1(3) n(2) x(2) dd(7,9) ab by auto
  have e: "n \<lparr>c_child := c_child n\<rparr> = n" by simp
  have "heap_DetachItemFromArray a (int (length us)) h = Some (Some ?b, ?g)"
    using n(2) x(2) heap_walk_seg [OF n(3), of "length us"] g1(1) g2(1) a2 u ab(1)
    by (auto simp: heap_DetachItemFromArray_def x(3,4) store_def nth_append fun_upd_twist load_def e)
  moreover have "seg ?g None ?x us m2" using g1(2) g2(3) dd(4,7) ab by (subst seg_cong [where h = g1]) auto
  moreover have "seg ?g (last_of None us) m2 ws None" using g2(2) dd(9) ab by (subst seg_cong [where h = g2]) auto
  ultimately have "seg ?g None ?x (us @ ws) None" using seg_append by blast
  then have "seg ?g p q [ANode a t vs i d nm (us @ ws)] r"
    using assms(2) g2(3) g1(3) ab node_addr_owned [of k] by (intro n(4) [of _ ?x]) (auto simp: disjoint_iff simp del: node_addr_owned)
  moreover have "seg ?g None m1 [k] None"
    using g2(3) g1(3) dd ab by (intro x(5)) (auto simp: disjoint_iff)
  moreover have "\<forall>z. z \<notin> set (owned (ANode a t vs i d nm (us @ [k] @ ws))) \<longrightarrow> ?g z = h z"
    using g2(3) g1(3) node_addr_owned [of k] by auto
  ultimately show ?thesis using x(1) \<open>heap_DetachItemFromArray a (int (length us)) h = Some (Some ?b, ?g)\<close> by blast
qed

text \<open>Putting a tree in the place of a child, which is deleted.\<close>

lemma heap_ReplaceItemInArray_seg:
  assumes "seg h p q [ANode a t vs i d nm (us @ [k] @ ws)] r" "seg h None (Some b) [u] None"
    "distinct (owned (ANode a t vs i d nm (us @ [k] @ ws)) @ owned u)"
  shows "\<exists>g. heap_ReplaceItemInArray a (int (length us)) b h = Some g \<and> seg g p q [ANode a t vs i d nm (us @ [u] @ ws)] r \<and>
     (\<forall>x. x \<notin> set (owned (ANode a t vs i d nm (us @ [k] @ ws)) @ owned u) \<longrightarrow> g x = h x) \<and> (\<forall>x\<in>set (owned k). g x = None)"
proof -
  let ?c = "node_addr k"
  have dd: "distinct (owned_list us)" "distinct (owned_list ws)" "distinct (owned k)" "distinct (owned u)"
    "set (owned_list us) \<inter> set (owned_list ws) = {}" "set (owned k) \<inter> set (owned_list ws) = {}" "set (owned k) \<inter> set (owned_list us) = {}"
    "set (owned u) \<inter> set (owned_list ws) = {}" "set (owned u) \<inter> set (owned_list us) = {}" "set (owned u) \<inter> set (owned k) = {}"
    "a \<notin> set (owned_list us)" "a \<notin> set (owned k)" "a \<notin> set (owned_list ws)" "a \<notin> set (owned u)"
    "distinct (owned (ANode a t vs i d nm (us @ [k] @ ws)))" using assms(3) by auto
  have b: "node_addr u = b" using node_of_seg [OF assms(2)] .
  from rechild [OF assms(1) dd(15)] obtain n where n: "q = Some a" "h a = Some (Cell n)" "seg h None (c_child n) (us @ [k] @ ws) None"
    "\<And>g x ls. (\<forall>z\<in>set (ptrs vs @ ptrs nm). g z = h z) \<Longrightarrow> g a = Some (Cell (n \<lparr>c_child := x\<rparr>)) \<Longrightarrow> seg g None x ls None \<Longrightarrow>
        seg g p q [ANode a t vs i d nm ls] r" by blast
  from n(3) obtain m1 m2 where m: "seg h None (c_child n) us m1" "seg h (last_of None us) m1 [k] m2" "seg h (Some ?c) m2 ws None"
    using seg_append [of h None "c_child n" us "[k] @ ws" None] seg_append [of h "last_of None us" _ "[k]" ws None] by auto
  from relink [OF m(2) dd(3)] obtain x where x: "m1 = Some ?c" "h ?c = Some (Cell x)" "c_prev x = last_of None us" "c_next x = m2"
    "\<And>g p' r'. (\<forall>x\<in>set (owned k) - {?c}. g x = h x) \<Longrightarrow> g ?c = Some (Cell (x \<lparr>c_next := r', c_prev := p'\<rparr>)) \<Longrightarrow> seg g p' m1 [k] r'"
    by blast
  from relink [OF assms(2) dd(4)] b obtain y where y: "h b = Some (Cell y)"
    "\<And>g p' r'. (\<forall>x\<in>set (owned u) - {b}. g x = h x) \<Longrightarrow> g b = Some (Cell (y \<lparr>c_next := r', c_prev := p'\<rparr>)) \<Longrightarrow> seg g p' (Some b) [u] r'"
    by auto
  have bu: "b \<in> set (owned u)" "?c \<in> set (owned k)" using b by auto
  let ?hb = "h(b \<mapsto> Cell (y \<lparr>c_next := m2, c_prev := last_of None us\<rparr>))"
  have u0: "seg ?hb (last_of None us) (Some b) [u] m2" by (rule y(2)) auto
  have "seg ?hb (Some ?c) m2 ws None" using m(3) dd(8) bu by (subst seg_cong [where h = h]) auto
  from link_prev [OF this dd(2), of "Some b"] obtain g1 where g1: "store_if m2 (\<lambda>n. n \<lparr>c_prev := Some b\<rparr>) ?hb = Some g1"
    "seg g1 (Some b) m2 ws None" "\<forall>x. x \<notin> set (owned_list ws) \<longrightarrow> g1 x = ?hb x" by blast
  have "seg g1 None (c_child n) us m1" using m(1) g1(3) dd(5,9) bu by (subst seg_cong [where h = h]) (auto simp: disjoint_iff)
  from link_next [OF this dd(1), of "Some b"] obtain g2 where g2: "store_if (last_of None us) (\<lambda>n. n \<lparr>c_next := Some b\<rparr>) g1 = Some g2"
    "seg g2 None (if us = [] then Some b else c_child n) us (Some b)" "\<forall>x. x \<notin> set (owned_list us) \<longrightarrow> g2 x = g1 x" by blast
  have ul: "c_child n = Some ?c \<longleftrightarrow> us = []"
  proof (cases us)
    case (Cons v vs')
    then have "c_child n = Some (node_addr v)" using seg_Cons_load [of h None "c_child n" v vs' m1] m(1) by auto
    moreover have "node_addr v \<noteq> ?c" using Cons dd(7) node_addr_owned [of v] bu(2) by (auto simp: disjoint_iff simp del: node_addr_owned)
    ultimately show ?thesis using Cons by simp
  qed (use m(1) x(1) in simp)
  let ?x = "if us = [] then Some b else c_child n"
  let ?g3 = "g2(a \<mapsto> Cell (n \<lparr>c_child := ?x\<rparr>))"
  let ?g4 = "?g3(?c \<mapsto> Cell (x \<lparr>c_next := None, c_prev := None\<rparr>))"
  let ?g = "?g4 |` (- set (owned k))"
  have ab: "a \<noteq> ?c" "a \<noteq> b" "b \<noteq> ?c" using dd(10,12,14) bu by auto
  have cc: "g1 a = Some (Cell n)" "g2 a = Some (Cell n)" "g2 ?c = Some (Cell x)"
    using g2(3) g1(3) n(2) x(2) dd(6,7,11,13) ab bu by (auto simp: disjoint_iff)
  have s4: "seg ?g4 None m1 [k] None"
    using g2(3) g1(3) dd(6,7,10,12) ab bu by (intro x(5)) (auto simp: disjoint_iff)
  have "distinct (owned_list [k])" using dd(3) by simp
  from heap_Delete_seg [OF s4 this] have del: "heap_Delete (Some ?c) ?g4 = Some ?g"
    unfolding x(1) by (simp only: owned_list_simps append_Nil2)
  have "heap_ReplaceItemInArray a (int (length us)) b h = Some ?g"
  proof (cases "us = []")
    case True
    then have "g2 = g1" using g2(1) by (simp add: store_if_def)
    then show ?thesis using True n(2) x(2) y(1) heap_walk_seg [OF n(3), of 0] g1(1) ul cc ab del
      by (simp add: heap_ReplaceItemInArray_def x(3,4) store_def load_def)
  next
    case False
    then obtain l where l: "last_of None us = Some l" by (auto simp: last_of_def)
    have e: "?g3 = g2" using cc(2) False by auto
    have st: "store b (\<lambda>y. y \<lparr>c_next := m2, c_prev := Some l\<rparr>) h = Some ?hb" "store l (\<lambda>n. n \<lparr>c_next := Some b\<rparr>) g1 = Some g2"
      "load a g1 = Some n" "load a h = Some n" "load ?c h = Some x" "store ?c (\<lambda>x. x \<lparr>c_next := None, c_prev := None\<rparr>) g2 = Some ?g4"
      using y(1) l g2(1) cc n(2) x(2) e by (simp_all add: store_def load_def store_if_def)
    have w: "heap_walk (length us) (c_child n) h = Some (Some ?c)" using heap_walk_seg [OF n(3), of "length us"] by (simp add: nth_append)
    show ?thesis unfolding heap_ReplaceItemInArray_def
      using st g1(1) w ul False del l by (simp add: x(3,4))
  qed
  moreover have "seg ?g None ?x us (Some b)"
    using g2(2) dd(7,11) bu by (subst seg_cong [where h = g2]) (auto simp: disjoint_iff restrict_map_def)
  moreover have "seg ?g (last_of None us) (Some b) [u] m2"
    using u0 g2(3) g1(3) dd(8,9,10,14) bu by (subst seg_cong [where h = ?hb]) (auto simp: disjoint_iff restrict_map_def)
  moreover have "seg ?g (Some b) m2 ws None"
    using g1(2) g2(3) dd(5,6,13) bu by (subst seg_cong [where h = g1]) (auto simp: disjoint_iff restrict_map_def)
  ultimately have r: "heap_ReplaceItemInArray a (int (length us)) b h = Some ?g" "seg ?g None ?x (us @ [u] @ ws) None"
    using seg_append [of ?g None ?x us "[u] @ ws" None] seg_append [of ?g "last_of None us" "Some b" "[u]" ws None] b by auto
  have out: "\<forall>z. z \<notin> set (owned (ANode a t vs i d nm (us @ [k] @ ws)) @ owned u) \<longrightarrow> ?g z = h z"
    using g2(3) g1(3) bu by (auto simp: restrict_map_def)
  have "seg ?g p q [ANode a t vs i d nm (us @ [u] @ ws)] r"
    using assms(3) g2(3) g1(3) bu dd(12) by (intro n(4) [OF _ _ r(2)]) (auto simp: disjoint_iff restrict_map_def)
  then show ?thesis using r(1) out by (intro exI [of _ ?g]) auto
qed

text \<open>The name of a node.\<close>

fun set_aname :: "(addr \<times> string) option \<Rightarrow> atree \<Rightarrow> atree" where
  "set_aname nm' (ANode a t vs i d nm ks) = ANode a t vs i d nm' ks"

fun aname :: "atree \<Rightarrow> (addr \<times> string) option" where
  "aname (ANode a t vs i d nm ks) = nm"

lemma tree_of_set_aname: "tree_of (set_aname nm u) = set_name (map_option snd nm) (tree_of u)"
  by (cases u) (simp add: set_name_def)

lemma aname_owned: "set (ptrs (aname u)) \<subseteq> set (owned u)" by (cases u) auto

lemma seg_dom: "seg h p q ts r \<Longrightarrow> set (owned_list ts) \<subseteq> dom h"
proof (induction h p q ts r rule: seg.induct)
  case (2 h p q a t vs i d nm ks ts r)
  from "2.prems" obtain x y where "seg h None x ks None" "seg h (Some a) y ts r" "chars_at h vs" "chars_at h nm" "a \<in> dom h" by auto
  moreover have "chars_at h v \<Longrightarrow> set (ptrs v) \<subseteq> dom h" for v by (auto simp: chars_at_def ptrs_def split: option.splits)
  ultimately show ?case using "2.IH" by simp
qed simp

lemma rename_seg:
  assumes "seg h p q [u] r" "distinct (owned u)" "g (node_addr u) = Some (Cell (n \<lparr>c_string := Some sa\<rparr>))" "h (node_addr u) = Some (Cell n)"
    "g sa = Some (Chars s)" "\<forall>x\<in>set (owned u) - set (ptrs (aname u)) - {node_addr u}. g x = h x"
  shows "seg g p q [set_aname (Some (sa, s)) u] r"
proof (cases u)
  case (ANode a t vs i d nm ks)
  have "chars_at g vs = chars_at h vs" using assms(2,6) ANode by (intro chars_at_cong) (auto simp: disjoint_iff)
  moreover have "seg g None x ks None = seg h None x ks None" for x
    using assms(2,6) ANode by (intro seg_cong) (auto simp: disjoint_iff)
  ultimately show ?thesis using assms ANode by (auto simp: chars_at_def)
qed

lemma owned_set_aname:
  assumes "distinct (owned u)" "sa \<notin> set (owned u) - set (ptrs (aname u))"
  shows "set (owned (set_aname (Some (sa, s)) u)) = insert sa (set (owned u) - set (ptrs (aname u)))" "distinct (owned (set_aname (Some (sa, s)) u))"
  using assms by (cases u; auto simp: ptrs_def disjoint_iff split: option.splits)+

lemma heap_AddItemToObject_seg:
  assumes "seg h p q [ANode a t vs i d nm ks] r" "seg h None (Some b) [u] None" "distinct (owned (ANode a t vs i d nm ks) @ owned u)"
    "h sa = None \<or> sa \<in> set (ptrs (aname u))"
  shows "\<exists>g. heap_AddItemToObject a s sa (Some b) h = Some g \<and>
     seg g p q [ANode a t vs i d nm (ks @ [set_aname (Some (sa, c_str s)) u])] r \<and>
     distinct (owned (ANode a t vs i d nm (ks @ [set_aname (Some (sa, c_str s)) u]))) \<and>
     (\<forall>x. x \<notin> set (owned (ANode a t vs i d nm ks) @ owned u) \<union> {sa} \<longrightarrow> g x = h x) \<and>
     (\<forall>x\<in>set (ptrs (aname u)) - {sa}. g x = None)"
proof -
  let ?w = "ANode a t vs i d nm ks" and ?u = "set_aname (Some (sa, c_str s)) u"
  have du: "distinct (owned u)" using assms(3) by simp
  have b: "node_addr u = b" using node_of_seg [OF assms(2)] .
  have bn: "b \<notin> set (ptrs (aname u))" using du b by (cases u) auto
  from assms(2) b obtain n where n: "h b = Some (Cell n)" "chars_at h (aname u)" "c_string n = map_option fst (aname u)"
    by (cases u) auto
  let ?h1 = "h |` (- set (ptrs (aname u)))"
  let ?h2 = "?h1(sa \<mapsto> Chars (c_str s), b \<mapsto> Cell (n \<lparr>c_string := Some sa\<rparr>))"
  have dom: "set (owned u) \<subseteq> dom h" "set (owned ?w) \<subseteq> dom h" using seg_dom [OF assms(2)] seg_dom [OF assms(1)] by simp_all
  have sa: "sa \<notin> set (owned u) - set (ptrs (aname u))" "sa \<notin> set (owned ?w)" "sa \<noteq> b"
  proof -
    show "sa \<notin> set (owned u) - set (ptrs (aname u))" "sa \<noteq> b" using assms(4) dom(1) n(1) bn by auto
    show "sa \<notin> set (owned ?w)" using assms(3,4) dom(2) aname_owned [of u] by (auto simp: disjoint_iff subset_iff)
  qed
  have "seg ?h2 None (Some b) [?u] None"
    using rename_seg [where h = h and p = None and q = "Some b" and r = None and u = u and g = ?h2 and n = n and sa = sa and s = "c_str s", OF assms(2) du] b n(1) sa(1,3) by (auto simp: restrict_map_def)
  moreover have "seg ?h2 p q [?w] r"
  proof -
    have "set (owned ?w) \<inter> set (owned u) = {}" using assms(3) by auto
    then have "\<forall>x\<in>set (owned ?w). ?h2 x = h x" using sa(2) aname_owned [of u] b node_addr_owned [of u]
      by (auto simp: restrict_map_def disjoint_iff simp del: node_addr_owned owned_node)
    then show ?thesis using assms(1) by (subst seg_cong [where h = h]) (simp_all del: owned_node)
  qed
  moreover have ou: "set (owned ?u) = insert sa (set (owned u) - set (ptrs (aname u)))" "distinct (owned ?u)"
    using owned_set_aname [OF du sa(1)] by blast+
  have dist: "distinct (owned ?w @ owned ?u)" using assms(3) sa(2) unfolding distinct_append ou(1) using ou(2) by (auto simp del: owned_node)
  ultimately obtain g where g: "heap_AddItemToArray a (Some b) ?h2 = Some g" "seg g p q [ANode a t vs i d nm (ks @ [?u])] r"
    "\<forall>x. x \<notin> set (owned ?w @ owned ?u) \<longrightarrow> g x = ?h2 x"
    using heap_AddItemToArray_seg [of ?h2 p q a t vs i d nm ks r b ?u] by blast
  have "load b ?h1 = Some n" using n(1) bn by simp
  then have "heap_AddItemToObject a s sa (Some b) h = Some g"
    using n free_if_ptrs [OF n(2)] g(1) sa(3)
    by (simp add: heap_AddItemToObject_def store_def heap_strdup_def malloc_def load_def)
  moreover have "distinct (owned (ANode a t vs i d nm (ks @ [?u])))" using dist by simp
  moreover have "\<forall>x. x \<notin> set (owned ?w @ owned u) \<union> {sa} \<longrightarrow> g x = h x"
    using g(3) ou(1) aname_owned [of u] b node_addr_owned [of u]
    by (auto simp: restrict_map_def subset_iff simp del: owned_node node_addr_owned)
  moreover have "\<forall>x\<in>set (ptrs (aname u)) - {sa}. g x = None"
  proof
    fix x assume x: "x \<in> set (ptrs (aname u)) - {sa}"
    then have "x \<in> set (owned u)" using aname_owned by auto
    then have "x \<notin> set (owned ?w @ owned ?u)" using x ou(1) assms(3) by (auto simp: disjoint_iff simp del: owned_node)
    then show "g x = None" using g(3) x bn by (auto simp: restrict_map_def)
  qed
  ultimately show ?thesis using g(2) by blast
qed

end
