(* ===== verification/Dap_HeapTree.thy ===== *)
theory Dap_HeapTree
  imports Dap_Heap
begin

text \<open>
  The functions of \<^verbatim>\<open>dap/cJSON.cpp\<close> on the memory implement the functions on trees of \<^verbatim>\<open>Dap_CJson_Edit\<close>, at any
  node of a tree: what the memory holds afterwards, which blocks are freed, and that nothing else changes.
\<close>

section \<open>At one node\<close>

lemma map_take_drop_nth:
  "n < length ks \<Longrightarrow> ks = take n ks @ [ks ! n] @ drop (Suc n) ks"
  by (simp add: id_take_nth_drop)

lemma tree_of_children [simp]: "children (tree_of (ANode a t vs i d nm ks)) = map tree_of ks"
  by simp

definition set_kids :: "atree list \<Rightarrow> atree \<Rightarrow> atree" where
  "set_kids ks w = (case w of ANode a t vs i d nm _ \<Rightarrow> ANode a t vs i d nm ks)"

definition kids :: "atree \<Rightarrow> atree list" where
  "kids w = (case w of ANode a t vs i d nm ks \<Rightarrow> ks)"

lemma kids_simps [simp]: "set_kids ks (ANode a t vs i d nm js) = ANode a t vs i d nm ks" "kids (ANode a t vs i d nm ks) = ks"
  by (simp_all add: set_kids_def kids_def)

lemma tree_of_set_kids: "tree_of (set_kids ks w) = set_children (map tree_of ks) (tree_of w)" "map tree_of (kids w) = children (tree_of w)"
  by (simp_all add: set_kids_def kids_def set_children_def split: atree.split)

lemma node_addr_set_kids [simp]: "node_addr (set_kids ks w) = node_addr w"
  by (cases w) simp

lemma seg_at_node: "seg h p q [w] r \<Longrightarrow> \<exists>n. load (node_addr w) h = Some n \<and> seg h None (c_child n) (kids w) None \<and> c_type n = type_of (tree_of w)"
  by (cases w) auto

text \<open>Appending.\<close>

lemma heap_AddItemToArray_refines:
  assumes "seg h p q [w] r" "seg h None (Some (node_addr u)) [u] None" "distinct (owned w @ owned u)"
  shows "\<exists>g. heap_AddItemToArray (node_addr w) (Some (node_addr u)) h = Some g \<and> seg g p q [set_kids (kids w @ [u]) w] r \<and>
     tree_of (set_kids (kids w @ [u]) w) = cJSON_AddItemToArray (Some (tree_of u)) (tree_of w) \<and>
     owned (set_kids (kids w @ [u]) w) = owned w @ owned u \<and> (\<forall>x. x \<notin> set (owned w @ owned u) \<longrightarrow> g x = h x)"
proof (cases w)
  case (ANode a t vs i d nm ks)
  have "tree_of (set_kids (kids w @ [u]) w) = cJSON_AddItemToArray (Some (tree_of u)) (tree_of w)"
    by (simp add: tree_of_set_kids cJSON_AddItemToArray_def)
  moreover have "owned (set_kids (kids w @ [u]) w) = owned w @ owned u" using ANode by simp
  ultimately show ?thesis using heap_AddItemToArray_seg [of h p q a t vs i d nm ks r "node_addr u" u] assms ANode
    by (simp del: seg.simps owned_node)
qed

lemma heap_AddItemToObject_refines:
  fixes s :: string
  assumes "seg h p q [w] r" "seg h None (Some (node_addr u)) [u] None" "distinct (owned w @ owned u)" "h sa = None"
  defines "v \<equiv> set_aname (Some (sa, c_str s)) u"
  shows "\<exists>g. heap_AddItemToObject (node_addr w) s sa (Some (node_addr u)) h = Some g \<and> seg g p q [set_kids (kids w @ [v]) w] r \<and>
     tree_of (set_kids (kids w @ [v]) w) = cJSON_AddItemToObject s (Some (tree_of u)) (tree_of w) \<and>
     distinct (owned (set_kids (kids w @ [v]) w)) \<and>
     (\<forall>x. x \<notin> set (owned w @ owned u) \<union> {sa} \<longrightarrow> g x = h x) \<and> (\<forall>x\<in>set (ptrs (aname u)). g x = None)"
proof (cases w)
  case (ANode a t vs i d nm ks)
  have "set (owned u) \<subseteq> dom h" using seg_dom [OF assms(2)] by simp
  then have "sa \<notin> set (ptrs (aname u))" using assms(4) aname_owned [of u] by auto
  moreover have "tree_of (set_kids (kids w @ [v]) w) = cJSON_AddItemToObject s (Some (tree_of u)) (tree_of w)"
    by (simp add: cJSON_AddItemToObject_def cJSON_AddItemToArray_def tree_of_set_kids tree_of_set_aname v_def)
  ultimately show ?thesis
    using heap_AddItemToObject_seg [of h p q a t vs i d nm ks r "node_addr u" u sa s] assms ANode
    by (simp del: seg.simps owned_node)
qed

text \<open>Detaching and deleting.\<close>

lemma heap_DetachItemFromArray_refines:
  assumes "seg h p q [w] r" "distinct (owned w)" "n < length (kids w)"
  defines "k \<equiv> kids w ! n" and "w' \<equiv> set_kids (take n (kids w) @ drop (Suc n) (kids w)) w"
  shows "\<exists>g. heap_DetachItemFromArray (node_addr w) (int n) h = Some (Some (node_addr k), g) \<and> seg g p q [w'] r \<and>
     seg g None (Some (node_addr k)) [k] None \<and>
     cJSON_DetachItemFromArray (int n) (tree_of w) = (Some (tree_of k), tree_of w') \<and>
     mset (owned w) = mset (owned w') + mset (owned k) \<and> (\<forall>x. x \<notin> set (owned w) \<longrightarrow> g x = h x)"
proof (cases w)
  case (ANode a t vs i d nm ks)
  have ks: "ks = take n ks @ [k] @ drop (Suc n) ks" using map_take_drop_nth [of n ks] assms(3,4) ANode by simp
  have l: "length (take n ks) = n" using assms(3) ANode by simp
  have w: "w = ANode a t vs i d nm (take n ks @ [k] @ drop (Suc n) ks)" using ANode ks by simp
  have "w' = ANode a t vs i d nm (take n ks @ drop (Suc n) ks)" using w'_def ANode by simp
  moreover from this have "mset (owned w) = mset (owned w') + mset (owned k)" using w by simp
  moreover have "cJSON_DetachItemFromArray (int n) (tree_of w) = (Some (tree_of k), tree_of w')"
    using assms(3) ANode by (simp add: DetachItemFromArray_spec w'_def k_def take_map drop_map set_children_def)
  ultimately show ?thesis
    using heap_DetachItemFromArray_seg [of h p q a t vs i d nm "take n ks" k "drop (Suc n) ks" r] assms(1,2) l
    unfolding w [symmetric] using ANode by (simp del: seg.simps owned_node)
qed

lemma heap_DetachItemFromArray_none:
  assumes "seg h p q [w] r" "length (kids w) \<le> n"
  shows "heap_DetachItemFromArray (node_addr w) (int n) h = Some (None, h)"
  using seg_at_node [OF assms(1)] heap_walk_seg [of h None _ "kids w" n] assms(2)
  by (auto simp: heap_DetachItemFromArray_def)

text \<open>The search of a member by name.\<close>

lemma heap_find_refines:
  assumes "seg h p q [w] r"
  shows "\<exists>n. load (node_addr w) h = Some n \<and>
    heap_find s 0 (c_child n) h = Some (map_option (\<lambda>_. node_addr (kids w ! index_of_name s (tree_of w))) (cJSON_GetObjectItem (tree_of w) s),
       index_of_name s (tree_of w))"
proof -
  let ?P = "\<lambda>t. name_differs s (tree_of t)"
  from seg_at_node [OF assms] obtain n where n: "load (node_addr w) h = Some n" "seg h None (c_child n) (kids w) None" by blast
  have tw: "takeWhile (name_differs s) (children (tree_of w)) = map tree_of (takeWhile ?P (kids w))"
    "dropWhile (name_differs s) (children (tree_of w)) = map tree_of (dropWhile ?P (kids w))"
    by (simp_all add: tree_of_set_kids(2) [symmetric] takeWhile_map dropWhile_map comp_def)
  have i: "index_of_name s (tree_of w) = length (takeWhile ?P (kids w))" by (simp add: index_of_name_def tw)
  have "list_head (dropWhile ?P (kids w)) = None \<longleftrightarrow> cJSON_GetObjectItem (tree_of w) s = None"
    unfolding cJSON_GetObjectItem_def tw by (auto simp: list_head_def split: list.splits simp del: dropWhile_eq_Nil_conv)
  moreover have "list_head (dropWhile ?P (kids w)) = Some k \<Longrightarrow> k = kids w ! length (takeWhile ?P (kids w))" for k
    by (auto simp: dropWhile_drop_takeWhile list_head_drop split: if_splits)
  ultimately have "map_option node_addr (list_head (dropWhile ?P (kids w))) =
      map_option (\<lambda>_. node_addr (kids w ! length (takeWhile ?P (kids w)))) (cJSON_GetObjectItem (tree_of w) s)"
    by (cases "list_head (dropWhile ?P (kids w))"; cases "cJSON_GetObjectItem (tree_of w) s") auto
  then show ?thesis using n heap_find_seg [OF n(2), of s 0] i by simp
qed

lemma index_of_name_kids: "cJSON_GetObjectItem (tree_of w) s = Some c \<Longrightarrow> index_of_name s (tree_of w) < length (kids w)"
  using index_of_name_less [of "tree_of w" s c] tree_of_set_kids(2) [of w] by (metis length_map)

lemma heap_DetachItemFromObject_refines:
  assumes "seg h p q [w] r" "distinct (owned w)" "cJSON_GetObjectItem (tree_of w) s \<noteq> None"
  shows "\<exists>g k w'. heap_DetachItemFromObject (node_addr w) s h = Some (Some (node_addr k), g) \<and> seg g p q [w'] r \<and> node_addr w' = node_addr w \<and>
     seg g None (Some (node_addr k)) [k] None \<and> cJSON_DetachItemFromObject s (tree_of w) = (Some (tree_of k), tree_of w') \<and>
     mset (owned w) = mset (owned w') + mset (owned k) \<and> (\<forall>x. x \<notin> set (owned w) \<longrightarrow> g x = h x)"
proof -
  obtain c where c: "cJSON_GetObjectItem (tree_of w) s = Some c" using assms(3) by blast
  let ?n = "index_of_name s (tree_of w)"
  have n: "?n < length (kids w)" using index_of_name_kids [OF c] .
  from heap_find_refines [OF assms(1), of s] obtain x where "load (node_addr w) h = Some x"
    "heap_find s 0 (c_child x) h = Some (Some (node_addr (kids w ! ?n)), ?n)" using c by auto
  then have "heap_DetachItemFromObject (node_addr w) s h = heap_DetachItemFromArray (node_addr w) (int ?n) h"
    by (simp add: heap_DetachItemFromObject_def)
  moreover have "cJSON_DetachItemFromObject s (tree_of w) = cJSON_DetachItemFromArray (int ?n) (tree_of w)"
    using c by (simp add: cJSON_DetachItemFromObject_def)
  moreover note heap_DetachItemFromArray_refines [OF assms(1,2) n]
  ultimately show ?thesis by (simp only: ex_simps) (blast intro: node_addr_set_kids)
qed

lemma heap_DetachItemFromObject_none:
  assumes "seg h p q [w] r" "cJSON_GetObjectItem (tree_of w) s = None"
  shows "heap_DetachItemFromObject (node_addr w) s h = Some (None, h)"
  using heap_find_refines [OF assms(1), of s] assms(2) by (auto simp: heap_DetachItemFromObject_def)

lemma heap_DeleteItemFromObject_refines:
  assumes "seg h p q [w] r" "distinct (owned w)"
  shows "\<exists>g w'. heap_DeleteItemFromObject (node_addr w) s h = Some g \<and> seg g p q [w'] r \<and> node_addr w' = node_addr w \<and>
     tree_of w' = cJSON_DeleteItemFromObject s (tree_of w) \<and> distinct (owned w') \<and> set (owned w') \<subseteq> set (owned w) \<and>
     (\<forall>x. x \<notin> set (owned w) \<longrightarrow> g x = h x) \<and> (\<forall>x\<in>set (owned w) - set (owned w'). g x = None)"
proof (cases "cJSON_GetObjectItem (tree_of w) s = None")
  case True
  then show ?thesis using assms heap_DetachItemFromObject_none [OF assms(1) True]
    by (intro exI [of _ h] exI [of _ w]) (simp add: heap_DeleteItemFromObject_def cJSON_DeleteItemFromObject_def cJSON_DetachItemFromObject_def)
next
  case False
  from heap_DetachItemFromObject_refines [OF assms False] obtain g k w' where g: "heap_DetachItemFromObject (node_addr w) s h = Some (Some (node_addr k), g)"
    "seg g p q [w'] r" "node_addr w' = node_addr w" "seg g None (Some (node_addr k)) [k] None"
    "cJSON_DetachItemFromObject s (tree_of w) = (Some (tree_of k), tree_of w')"
    "mset (owned w) = mset (owned w' @ owned k)" "\<forall>x. x \<notin> set (owned w) \<longrightarrow> g x = h x" by auto
  have d: "distinct (owned w' @ owned k)" using assms(2) g(6) mset_eq_imp_distinct_iff by blast
  have s: "set (owned w) = set (owned w') \<union> set (owned k)" using mset_eq_setD [OF g(6)] by simp
  let ?g = "g |` (- set (owned k))"
  have "heap_Delete (Some (node_addr k)) g = Some ?g" using heap_Delete_seg [OF g(4)] d by simp
  then have "heap_DeleteItemFromObject (node_addr w) s h = Some ?g" using g(1) by (simp add: heap_DeleteItemFromObject_def)
  moreover have "seg ?g p q [w'] r" using g(2) d by (subst seg_cong [where h = g]) (auto simp: restrict_map_def)
  moreover have "\<forall>x\<in>set (owned w) - set (owned w'). ?g x = None" using s by (auto simp: restrict_map_def)
  moreover have "\<forall>x. x \<notin> set (owned w) \<longrightarrow> ?g x = h x" using g(7) s by (auto simp: restrict_map_def)
  ultimately show ?thesis using g(3,5) d s by (intro exI [of _ ?g] exI [of _ w']) (auto simp: cJSON_DeleteItemFromObject_def)
qed

text \<open>
  Replacing a member.  The new item gets a copy of the name without its old name being freed: that block stays
  allocated and belongs to no tree.
\<close>

lemma heap_ReplaceItemInArray_refines:
  assumes "seg h p q [w] r" "seg h None (Some (node_addr u)) [u] None" "distinct (owned w @ owned u)" "n < length (kids w)"
  shows "\<exists>g. heap_ReplaceItemInArray (node_addr w) (int n) (node_addr u) h = Some g \<and> seg g p q [set_kids ((kids w)[n := u]) w] r \<and>
     tree_of (set_kids ((kids w)[n := u]) w) = cJSON_ReplaceItemInArray (int n) (tree_of u) (tree_of w) \<and>
     (\<forall>x. x \<notin> set (owned w @ owned u) \<longrightarrow> g x = h x) \<and> (\<forall>x\<in>set (owned (kids w ! n)). g x = None)"
proof (cases w)
  case (ANode a t vs i d nm ks)
  let ?k = "ks ! n"
  have ks: "ks = take n ks @ [?k] @ drop (Suc n) ks" using map_take_drop_nth [of n ks] assms(4) ANode by simp
  have l: "length (take n ks) = n" using assms(4) ANode by simp
  have w: "w = ANode a t vs i d nm (take n ks @ [?k] @ drop (Suc n) ks)" using ANode ks by simp
  have "tree_of (set_kids ((kids w)[n := u]) w) = cJSON_ReplaceItemInArray (int n) (tree_of u) (tree_of w)"
    using assms(4) ANode by (simp add: cJSON_ReplaceItemInArray_def walk_drop list_head_drop set_children_def map_update)
  moreover have "ks[n := u] = take n ks @ [u] @ drop (Suc n) ks" using assms(4) ANode by (simp add: upd_conv_take_nth_drop)
  ultimately show ?thesis
    using heap_ReplaceItemInArray_seg [of h p q a t vs i d nm "take n ks" ?k "drop (Suc n) ks" r "node_addr u" u] assms(1-3) l
    unfolding w [symmetric] using ANode by (simp del: seg.simps owned_node)
qed

lemma heap_ReplaceItemInObject_leaks:
  assumes "seg h p q [w] r" "seg h None (Some (node_addr u)) [u] None" "distinct (owned w @ owned u)" "h sa = None"
    "cJSON_GetObjectItem (tree_of w) s \<noteq> None" "aname u = Some (na, n)"
  shows "\<exists>g w'. heap_ReplaceItemInObject (node_addr w) s sa (node_addr u) h = Some g \<and> seg g p q [w'] r \<and>
     tree_of w' = cJSON_ReplaceItemInObject s (tree_of u) (tree_of w) \<and> g na = Some (Chars n) \<and> na \<notin> set (owned w')"
proof -
  let ?i = "index_of_name s (tree_of w)" and ?u = "set_aname (Some (sa, c_str s)) u" and ?b = "node_addr u"
  obtain c where c: "cJSON_GetObjectItem (tree_of w) s = Some c" using assms(5) by blast
  have i: "?i < length (kids w)" using index_of_name_kids [OF c] .
  from heap_find_refines [OF assms(1), of s] obtain x where x: "load (node_addr w) h = Some x"
    "heap_find s 0 (c_child x) h = Some (Some (node_addr (kids w ! ?i)), ?i)" using c by auto
  from assms(2) obtain m where m: "h ?b = Some (Cell m)" "chars_at h (aname u)" by (cases u) auto
  have na: "na \<in> set (ptrs (aname u))" "h na = Some (Chars n)" using assms(6) m(2) by (simp_all add: ptrs_def chars_at_def)
  have nu: "na \<in> set (owned u)" "na \<noteq> ?b" using na aname_owned [of u] m(1) by auto
  have dom: "set (owned u) \<subseteq> dom h" "set (owned w) \<subseteq> dom h" using seg_dom [OF assms(2)] seg_dom [OF assms(1)] by simp_all
  then have sa: "sa \<notin> set (owned u)" "sa \<notin> set (owned w)" "sa \<noteq> ?b" using assms(4) m(1) by auto
  have du: "distinct (owned u)" using assms(3) by simp
  let ?h = "h(sa \<mapsto> Chars (c_str s), ?b \<mapsto> Cell (m \<lparr>c_string := Some sa\<rparr>))"
  have ou: "set (owned ?u) = insert sa (set (owned u) - set (ptrs (aname u)))" "distinct (owned ?u)"
    using owned_set_aname [OF du, of sa "c_str s"] sa(1) by auto
  have nb: "node_addr ?u = ?b" by (cases u) simp
  have "seg ?h None (Some ?b) [?u] None"
    using rename_seg [where h = h and g = ?h and n = m and sa = sa and s = "c_str s", OF assms(2) du] m(1) sa by auto
  moreover have "?b \<notin> set (owned w)" using assms(3) node_addr_owned [of u] by (auto simp del: node_addr_owned)
  then have "seg ?h p q [w] r" using assms(1) sa(2) by (subst seg_cong [where h = h]) auto
  moreover have "distinct (owned w @ owned ?u)" unfolding distinct_append ou(1) using assms(3) ou(2) sa(2) by auto
  ultimately obtain g where g: "heap_ReplaceItemInArray (node_addr w) (int ?i) ?b ?h = Some g" "seg g p q [set_kids ((kids w)[?i := ?u]) w] r"
    "tree_of (set_kids ((kids w)[?i := ?u]) w) = cJSON_ReplaceItemInArray (int ?i) (tree_of ?u) (tree_of w)"
    "\<forall>x. x \<notin> set (owned w @ owned ?u) \<longrightarrow> g x = ?h x" using heap_ReplaceItemInArray_refines [of ?h p q w r ?u ?i] i nb by auto
  have "heap_ReplaceItemInObject (node_addr w) s sa ?b h = Some g"
    using x g(1) m(1) sa(3) by (simp add: heap_ReplaceItemInObject_def heap_strdup_def malloc_def store_def)
  moreover have no: "na \<notin> set (owned w @ owned ?u)" using nu(1) na(1) assms(3,4) na(2) ou(1) by auto
  then have "g na = Some (Chars n)" using g(4) na(2) nu(2) assms(4) by auto
  moreover have "set (owned (set_kids ((kids w)[?i := ?u]) w)) \<subseteq> set (owned w @ owned ?u)"
    using set_update_subset_insert [of "kids w" ?i ?u] by (cases w) (auto simp: owned_list_def)
  moreover have "tree_of (set_kids ((kids w)[?i := ?u]) w) = cJSON_ReplaceItemInObject s (tree_of u) (tree_of w)"
    using g(3) c by (simp add: cJSON_ReplaceItemInObject_def tree_of_set_aname)
  ultimately show ?thesis using g(2) no by (intro exI [of _ g] exI [of _ "set_kids ((kids w)[?i := ?u]) w"]) auto
qed

end
