(* ===== verification/Dap_Forest.thy ===== *)
theory Dap_Forest
  imports Dap_HeapTree
begin

text \<open>
  Edits at any node of a tree, and a memory that holds exactly a list of trees: how creating, adding and deleting
  change the list.
\<close>

section \<open>A node inside a tree\<close>

fun find_node :: "addr \<Rightarrow> atree list \<Rightarrow> atree option" where
  "find_node a [] = None"
| "find_node a (ANode b t vs i d nm ks # ts) =
     (if a = b then Some (ANode b t vs i d nm ks)
      else case find_node a ks of Some w \<Rightarrow> Some w | None \<Rightarrow> find_node a ts)"

fun put_node :: "addr \<Rightarrow> atree \<Rightarrow> atree list \<Rightarrow> atree list" where
  "put_node a u [] = []"
| "put_node a u (ANode b t vs i d nm ks # ts) =
     (if a = b then u # ts else ANode b t vs i d nm (put_node a u ks) # put_node a u ts)"

lemma find_node_addr: "find_node a ts = Some w \<Longrightarrow> node_addr w = a"
  by (induction a ts rule: find_node.induct) (auto split: if_splits option.splits)

lemma find_node_owned: "find_node a ts = Some w \<Longrightarrow> set (owned w) \<subseteq> set (owned_list ts)"
  by (induction a ts rule: find_node.induct) (auto split: if_splits option.splits)

lemma find_node_in: "find_node a ts = Some w \<Longrightarrow> a \<in> set (owned_list ts)"
  using find_node_owned [of a ts w] find_node_addr [of a ts w] node_addr_owned [of w] by blast

lemma find_node_none: "find_node a ts = None \<Longrightarrow> put_node a u ts = ts"
  by (induction a u ts rule: put_node.induct) (auto split: if_splits option.splits)

lemma put_node_addr: "node_addr u = a \<Longrightarrow> put_node a u [v] = [v'] \<Longrightarrow> node_addr v' = node_addr v"
  by (cases v) (auto split: if_splits)

lemma put_node_root: "\<exists>v'. put_node a u [v] = [v']"
  by (cases v) auto

lemma mset_put_node:
  "find_node a ts = Some w \<Longrightarrow> distinct (owned_list ts) \<Longrightarrow>
     mset (owned_list (put_node a u ts)) + mset (owned w) = mset (owned_list ts) + mset (owned u)"
proof (induction a ts rule: find_node.induct)
  case (2 a b t vs i d nm ks ts)
  show ?case
  proof (cases "a = b")
    case False
    show ?thesis
    proof (cases "find_node a ks")
      case None
      then have "put_node a u ks = ks" by (rule find_node_none)
      moreover have "mset (owned_list (put_node a u ts)) + mset (owned w) = mset (owned_list ts) + mset (owned u)"
        using "2.IH"(2) "2.prems" False None by simp
      ultimately show ?thesis using False by (simp add: ac_simps)
    next
      case (Some w')
      then have w: "w' = w" using "2.prems" False by simp
      have "a \<notin> set (owned_list ts)" using find_node_in [OF Some] "2.prems"(2) by auto
      then have "find_node a ts = None" using find_node_in [of a ts] by (cases "find_node a ts") auto
      then have "put_node a u ts = ts" by (rule find_node_none)
      moreover have "mset (owned_list (put_node a u ks)) + mset (owned w) = mset (owned_list ks) + mset (owned u)"
        using "2.IH"(1) "2.prems" False Some w by simp
      ultimately show ?thesis using False by (simp add: ac_simps)
    qed
  qed (use "2.prems" in \<open>auto simp: ac_simps\<close>)
qed simp

text \<open>The chain around a node stays a chain when the node is changed in place.\<close>

lemma seg_context:
  "seg h p q ts r \<Longrightarrow> distinct (owned_list ts) \<Longrightarrow> find_node a ts = Some w \<Longrightarrow>
     \<exists>p' r'. seg h p' (Some a) [w] r' \<and>
       (\<forall>g u. node_addr u = a \<longrightarrow> seg g p' (Some a) [u] r' \<longrightarrow> (\<forall>x\<in>set (owned_list ts) - set (owned w). g x = h x) \<longrightarrow>
          seg g p q (put_node a u ts) r)"
proof (induction h p q ts r rule: seg.induct)
  case (2 h p q b t vs i d nm ks ts r)
  from "2.prems"(1) obtain x y where n: "q = Some b" "\<not> is_ref t" "chars_at h vs" "chars_at h nm"
    "h b = Some (Cell \<lparr>c_next = y, c_prev = p, c_child = x, c_type = t, c_valuestring = map_option fst vs,
       c_valueint = i, c_valuedouble = d, c_string = map_option fst nm\<rparr>)" (is "_ = Some (Cell ?n)")
    "seg h None x ks None" "seg h (Some b) y ts r" by auto
  have d: "distinct (owned_list ks)" "distinct (owned_list ts)" "set (owned_list ks) \<inter> set (owned_list ts) = {}"
    "b \<notin> set (owned_list ks)" "b \<notin> set (owned_list ts)" "set (ptrs vs @ ptrs nm) \<inter> set (owned_list ks @ owned_list ts) = {}"
    using "2.prems"(2) by auto
  have cg: "chars_at g vs" "chars_at g nm" if "\<forall>x\<in>set (ptrs vs @ ptrs nm). g x = h x" for g
    using n(3,4) that chars_at_cong [of vs g h] chars_at_cong [of nm g h] by auto
  show ?case
  proof (cases "a = b")
    case True
    then have w: "w = ANode b t vs i d nm ks" using "2.prems"(3) by simp
    have "seg h p (Some a) [w] y" using n w True by simp
    moreover have "seg g p q (u # ts) r" if u: "node_addr u = a" "seg g p (Some a) [u] y"
      "\<forall>x\<in>set (owned_list (ANode b t vs i d nm ks # ts)) - set (owned w). g x = h x" for g u
    proof -
      have "seg g (Some b) y ts r" using n(7) u(3) d w 
        by (subst seg_cong [where h = h]) (use "2.prems"(2) in \<open>auto simp: disjoint_iff\<close>)
      then show ?thesis using seg_append [of g p q "[u]" ts r] u True n(1) by auto
    qed
    ultimately show ?thesis using True by (intro exI [of _ p] exI [of _ y]) simp
  next
    case False
    show ?thesis
    proof (cases "find_node a ks")
      case None
      then have ft: "find_node a ts = Some w" using "2.prems"(3) False by simp
      have sub: "set (owned w) \<subseteq> set (owned_list ts)" using find_node_owned [OF ft] .
      from "2.IH"(2) [OF n(7) d(2) ft] obtain p' r' where c: "seg h p' (Some a) [w] r'"
        "\<And>g u. node_addr u = a \<Longrightarrow> seg g p' (Some a) [u] r' \<Longrightarrow> (\<forall>x\<in>set (owned_list ts) - set (owned w). g x = h x) \<Longrightarrow>
          seg g (Some b) y (put_node a u ts) r" by blast
      have "seg g p q (put_node a u (ANode b t vs i d nm ks # ts)) r" if u: "node_addr u = a" "seg g p' (Some a) [u] r'"
        "\<forall>x\<in>set (owned_list (ANode b t vs i d nm ks # ts)) - set (owned w). g x = h x" for g u
      proof -
        have "\<forall>x\<in>set (ptrs vs @ ptrs nm) \<union> set (owned_list ks) \<union> {b}. g x = h x" using u(3) sub d by (auto simp: disjoint_iff subset_iff)
        then have "chars_at g vs" "chars_at g nm" "g b = h b" "seg g None x ks None" using cg [of g] n(6) seg_cong [of ks g h] by auto
        moreover have "seg g (Some b) y (put_node a u ts) r" using u by (intro c(2)) auto
        ultimately show ?thesis using n False find_node_none [OF None] by simp
      qed
      then show ?thesis using c(1) by blast
    next
      case (Some w')
      then have fk: "find_node a ks = Some w" using "2.prems"(3) False by simp
      have sub: "set (owned w) \<subseteq> set (owned_list ks)" using find_node_owned [OF fk] .
      have "find_node a ts = None" using find_node_in [of a ts] find_node_in [OF fk] d(3) by (cases "find_node a ts") auto
      then have pt: "put_node a u ts = ts" for u by (rule find_node_none)
      from "2.IH"(1) [OF n(6) d(1) fk] obtain p' r' where c: "seg h p' (Some a) [w] r'"
        "\<And>g u. node_addr u = a \<Longrightarrow> seg g p' (Some a) [u] r' \<Longrightarrow> (\<forall>x\<in>set (owned_list ks) - set (owned w). g x = h x) \<Longrightarrow>
          seg g None x (put_node a u ks) None" by blast
      have "seg g p q (put_node a u (ANode b t vs i d nm ks # ts)) r" if u: "node_addr u = a" "seg g p' (Some a) [u] r'"
        "\<forall>x\<in>set (owned_list (ANode b t vs i d nm ks # ts)) - set (owned w). g x = h x" for g u
      proof -
        have "\<forall>x\<in>set (ptrs vs @ ptrs nm) \<union> set (owned_list ts) \<union> {b}. g x = h x" using u(3) sub d by (auto simp: disjoint_iff subset_iff)
        then have "chars_at g vs" "chars_at g nm" "g b = h b" "seg g (Some b) y ts r" using cg [of g] n(7) seg_cong [of ts g h] by auto
        moreover have "seg g None x (put_node a u ks) None" using u by (intro c(2)) auto
        ultimately show ?thesis using n False pt by simp
      qed
      then show ?thesis using c(1) by blast
    qed
  qed
qed simp

section \<open>A memory that holds a list of trees\<close>

definition mem_ok :: "heap \<Rightarrow> atree list \<Rightarrow> bool" where
  "mem_ok h ts \<longleftrightarrow> (\<forall>w\<in>set ts. seg h None (Some (node_addr w)) [w] None) \<and> distinct (owned_list ts) \<and> dom h = set (owned_list ts)"

lemma mset_owned_list: "mset (owned_list ts) = (\<Sum>w\<in>#mset ts. mset (owned w))"
  by (induction ts) (simp_all add: owned_list_simps)

lemma mem_ok_perm: "mset ts = mset us \<Longrightarrow> mem_ok h ts = mem_ok h us"
proof -
  assume m: "mset ts = mset us"
  then have o: "mset (owned_list ts) = mset (owned_list us)" by (simp add: mset_owned_list)
  then show ?thesis using mset_eq_imp_distinct_iff [OF o] mset_eq_setD [OF o] mset_eq_setD [OF m] by (simp add: mem_ok_def)
qed

lemma mem_ok_empty [simp]: "mem_ok h [] \<longleftrightarrow> h = Map.empty"
  by (auto simp: mem_ok_def)

lemma seg_outside: "seg h p q [w] r \<Longrightarrow> \<forall>x\<in>set (owned w). g x = h x \<Longrightarrow> seg g p q [w] r"
  using seg_cong [of "[w]" g h p q r] by simp

lemma mem_okD:
  assumes "mem_ok h ts" "w \<in> set ts"
  shows "seg h None (Some (node_addr w)) [w] None" "set (owned w) \<subseteq> set (owned_list ts)" "set (owned w) \<subseteq> dom h"
proof -
  show "seg h None (Some (node_addr w)) [w] None" using assms by (simp only: mem_ok_def)
  show "set (owned w) \<subseteq> set (owned_list ts)" using assms(2) by (auto simp: owned_list_def)
  then show "set (owned w) \<subseteq> dom h" using assms(1) by (simp only: mem_ok_def)
qed

text \<open>A tree at new addresses.\<close>

lemma mem_ok_new:
  assumes "mem_ok h ts" "seg g None (Some (node_addr w)) [w] None" "distinct (owned w)" "set (owned w) \<inter> dom h = {}"
    "\<forall>x. x \<notin> set (owned w) \<longrightarrow> g x = h x"
  shows "mem_ok g (w # ts)"
proof -
  have "seg g None (Some (node_addr v)) [v] None" if "v \<in> set ts" for v
  proof -
    have "\<forall>x\<in>set (owned v). g x = h x" using mem_okD(3) [OF assms(1) that] assms(4,5) by blast
    then show ?thesis using seg_outside [OF mem_okD(1) [OF assms(1) that]] by blast
  qed
  moreover have "set (owned w) \<subseteq> dom g" using seg_dom [OF assms(2)] by simp
  then have "dom g = set (owned_list (w # ts))"
  proof (intro set_eqI)
    fix x
    have "x \<notin> set (owned w) \<Longrightarrow> x \<in> dom g \<longleftrightarrow> x \<in> set (owned_list ts)" using assms(1,5) unfolding mem_ok_def by (metis domIff)
    then show "x \<in> dom g \<longleftrightarrow> x \<in> set (owned_list (w # ts))" using \<open>set (owned w) \<subseteq> dom g\<close> by (cases "x \<in> set (owned w)") auto
  qed
  moreover have "set (owned w) \<inter> set (owned_list ts) = {}" "distinct (owned_list ts)" using assms(1,4) by (auto simp: mem_ok_def)
  ultimately show ?thesis using assms(2,3) by (simp add: mem_ok_def)
qed

lemma mem_ok_Create:
  assumes "mem_ok h ts" "h a = None" "\<not> is_ref t"
  shows "\<exists>g. heap_Create t a h = Some g \<and> mem_ok g (ANode a t None 0 (Fin 0) None [] # ts) \<and> (\<forall>x. x \<noteq> a \<longrightarrow> g x = h x)"
proof -
  let ?g = "h(a \<mapsto> Cell (new_cell \<lparr>c_type := t\<rparr>))"
  have "mem_ok ?g (ANode a t None 0 (Fin 0) None [] # ts)"
    using assms by (intro mem_ok_new [where h = h]) (auto simp: chars_at_def ptrs_def new_cell_def)
  then show ?thesis by (intro exI [of _ ?g]) (simp add: heap_Create_def heap_New_Item_def malloc_def store_def)
qed

lemma mem_ok_CreateNumber:
  assumes "mem_ok h ts" "h a = None"
  shows "\<exists>g. heap_CreateNumber v a h = Some g \<and> mem_ok g (ANode a cJsonDap_Number None (d2i v) v None [] # ts) \<and> (\<forall>x. x \<noteq> a \<longrightarrow> g x = h x)"
proof -
  let ?g = "h(a \<mapsto> Cell (new_cell \<lparr>c_type := cJsonDap_Number, c_valuedouble := v, c_valueint := d2i v\<rparr>))"
  have "mem_ok ?g (ANode a cJsonDap_Number None (d2i v) v None [] # ts)"
    using assms by (intro mem_ok_new [where h = h]) (auto simp: chars_at_def ptrs_def new_cell_def is_ref_def cjson_types)
  then show ?thesis by (intro exI [of _ ?g]) (simp add: heap_CreateNumber_def heap_New_Item_def malloc_def store_def)
qed

lemma mem_ok_CreateString:
  assumes "mem_ok h ts" "h a = None" "h sa = None" "a \<noteq> sa"
  shows "\<exists>g. heap_CreateString s a sa h = Some g \<and> mem_ok g (ANode a cJsonDap_String (Some (sa, c_str s)) 0 (Fin 0) None [] # ts) \<and>
     (\<forall>x. x \<noteq> a \<longrightarrow> x \<noteq> sa \<longrightarrow> g x = h x)"
proof -
  let ?g = "h(a \<mapsto> Cell (new_cell \<lparr>c_type := cJsonDap_String, c_valuestring := Some sa\<rparr>), sa \<mapsto> Chars (c_str s))"
  have "mem_ok ?g (ANode a cJsonDap_String (Some (sa, c_str s)) 0 (Fin 0) None [] # ts)"
    using assms by (intro mem_ok_new [where h = h]) (auto simp: chars_at_def ptrs_def new_cell_def is_ref_def cjson_types)
  then show ?thesis using assms(4)
    by (intro exI [of _ ?g]) (simp add: heap_CreateString_def heap_New_Item_def heap_strdup_def malloc_def store_def fun_upd_twist)
qed

lemma mem_ok_Delete:
  assumes "mem_ok h (w # ts)"
  shows "\<exists>g. heap_Delete (Some (node_addr w)) h = Some g \<and> mem_ok g ts"
proof -
  let ?g = "h |` (- set (owned w))"
  have d: "distinct (owned w)" "set (owned w) \<inter> set (owned_list ts) = {}" "dom h = set (owned w) \<union> set (owned_list ts)"
    "seg h None (Some (node_addr w)) [w] None" "\<forall>v\<in>set ts. seg h None (Some (node_addr v)) [v] None" "distinct (owned_list ts)"
    using assms by (simp_all add: mem_ok_def)
  have "heap_Delete (Some (node_addr w)) h = Some ?g" using heap_Delete_seg [OF d(4)] d(1) by simp
  moreover have "seg ?g None (Some (node_addr v)) [v] None" if "v \<in> set ts" for v
  proof -
    have "set (owned v) \<subseteq> set (owned_list ts)" using that by (auto simp: owned_list_def)
    then have "\<forall>x\<in>set (owned v). ?g x = h x" using d(2) by (auto simp: restrict_map_def)
    then show ?thesis using seg_outside [of h None "Some (node_addr v)" v None ?g] d(5) that by blast
  qed
  moreover have "dom ?g = set (owned_list ts)" using d(2,3) by (simp add: dom_restrict) blast
  ultimately show ?thesis using d(6) by (simp add: mem_ok_def)
qed

section \<open>Editing a tree of the list\<close>

lemma find_node_subset: "find_node a ts = Some w \<Longrightarrow> mset (owned w) \<subseteq># mset (owned_list ts)"
proof (induction a ts rule: find_node.induct)
  case (2 a b t vs i d nm ks ts)
  have "mset (owned_list ks) \<subseteq># mset (owned_list (ANode b t vs i d nm ks # ts))" "mset (owned_list ts) \<subseteq># mset (owned_list (ANode b t vs i d nm ks # ts))"
    by (simp_all add: add.assoc subset_mset.add_increasing2 subset_mset.add_increasing subset_mset.le_add_same_cancel1 flip: add_mset_add_single)
  then show ?case using 2 by (auto split: if_splits option.splits intro: subset_mset.order_trans)
qed simp

lemma find_node_rest: "find_node a ts = Some w \<Longrightarrow> \<exists>rs. mset (owned_list ts) = mset (rs @ owned w)"
proof -
  assume f: "find_node a ts = Some w"
  obtain rs where "mset rs = mset (owned_list ts) - mset (owned w)" using ex_mset by blast
  then have "mset (owned_list ts) = mset (rs @ owned w)" using find_node_subset [OF f] by simp
  then show ?thesis by blast
qed

lemma find_node_distinct: "find_node a ts = Some w \<Longrightarrow> distinct (owned_list ts) \<Longrightarrow> distinct (owned w)"
  using find_node_rest mset_eq_imp_distinct_iff by (metis distinct_append)

text \<open>The addresses of a tree after a node has been replaced.\<close>

lemma owned_put_node:
  assumes "find_node a [v] = Some w" "distinct (owned v)" "put_node a u [v] = [v']" "distinct (owned u)"
    "set (owned u) \<inter> (set (owned v) - set (owned w)) = {}"
  shows "set (owned v') = set (owned v) - set (owned w) \<union> set (owned u)" "distinct (owned v')"
proof -
  obtain rs where v: "mset (owned v) = mset (rs @ owned w)" using find_node_rest [OF assms(1)] by auto
  have "mset (owned v') + mset (owned w) = mset (owned v) + mset (owned u)" using mset_put_node [OF assms(1), of u] assms(2,3) by simp
  then have v': "mset (owned v') = mset (rs @ owned u)" using v by simp
  have d: "distinct (rs @ owned w)" "set (owned v) = set rs \<union> set (owned w)"
    using assms(2) mset_eq_imp_distinct_iff [OF v] mset_eq_setD [OF v] by simp_all
  then have "set rs = set (owned v) - set (owned w)" by auto
  then show "set (owned v') = set (owned v) - set (owned w) \<union> set (owned u)" "distinct (owned v')"
    using d(1) assms(4,5) mset_eq_setD [OF v'] mset_eq_imp_distinct_iff [OF v'] by auto
qed

lemma mem_ok_edit:
  assumes "mem_ok h (us @ v # ts)" "find_node a [v] = Some w"
  shows "\<exists>p r. seg h p (Some a) [w] r \<and> (\<forall>g w'. node_addr w' = a \<longrightarrow> seg g p (Some a) [w'] r \<longrightarrow> distinct (owned w') \<longrightarrow>
     set (owned w') \<inter> (set (owned_list (v # ts)) - set (owned w)) = {} \<longrightarrow>
     (\<forall>x. x \<notin> set (owned w) \<union> set (owned_list us) \<union> set (owned w') \<longrightarrow> g x = h x) \<longrightarrow>
     (\<forall>x\<in>set (owned w) \<union> set (owned_list us) - set (owned w'). g x = None) \<longrightarrow>
     (\<exists>v'. put_node a w' [v] = [v'] \<and> node_addr v' = node_addr v \<and> mem_ok g (v' # ts)))"
proof -
  have d: "distinct (owned v)" "set (owned v) \<inter> set (owned_list ts) = {}" "set (owned_list us) \<inter> set (owned_list (v # ts)) = {}" "distinct (owned_list ts)"
    "dom h = set (owned_list us) \<union> set (owned v) \<union> set (owned_list ts)" using assms(1) by (auto simp: mem_ok_def)
  have sv: "seg h None (Some (node_addr v)) [v] None" using mem_okD(1) [OF assms(1)] by simp
  have sub: "set (owned w) \<subseteq> set (owned v)" using find_node_owned [OF assms(2)] by simp
  have "distinct (owned_list [v])" using d(1) by simp
  from seg_context [OF sv this assms(2)] obtain p r where c: "seg h p (Some a) [w] r"
    "\<And>g u. node_addr u = a \<Longrightarrow> seg g p (Some a) [u] r \<Longrightarrow> (\<forall>x\<in>set (owned_list [v]) - set (owned w). g x = h x) \<Longrightarrow>
       seg g None (Some (node_addr v)) (put_node a u [v]) None" by blast
  have "\<exists>v'. put_node a w' [v] = [v'] \<and> node_addr v' = node_addr v \<and> mem_ok g (v' # ts)"
    if w': "node_addr w' = a" "seg g p (Some a) [w'] r" "distinct (owned w')" "set (owned w') \<inter> (set (owned_list (v # ts)) - set (owned w)) = {}"
      and g: "\<forall>x. x \<notin> set (owned w) \<union> set (owned_list us) \<union> set (owned w') \<longrightarrow> g x = h x"
        "\<forall>x\<in>set (owned w) \<union> set (owned_list us) - set (owned w'). g x = None" for g w'
  proof -
    obtain v' where v': "put_node a w' [v] = [v']" using put_node_root by blast
    have ow: "set (owned w') \<inter> (set (owned v) - set (owned w)) = {}" using w'(4) by auto
    note o = owned_put_node [OF assms(2) d(1) v' w'(3) ow]
    have nv: "node_addr v' = node_addr v" using put_node_addr [OF w'(1) v'] .
    have "set (owned_list ts) \<inter> (set (owned w) \<union> set (owned_list us) \<union> set (owned w')) = {}"
      "(set (owned v) - set (owned w)) \<inter> (set (owned w) \<union> set (owned_list us) \<union> set (owned w')) = {}"
      using d(2,3) w'(4) sub by auto
    then have eq: "\<forall>x\<in>set (owned v) - set (owned w). g x = h x" "\<forall>x\<in>set (owned_list ts). g x = h x" using g(1) by blast+
    then have "seg g None (Some (node_addr v')) [v'] None" using c(2) [OF w'(1,2)] v' nv by simp
    moreover have "seg g None (Some (node_addr z)) [z] None" if "z \<in> set ts" for z
    proof -
      have z: "seg h None (Some (node_addr z)) [z] None" using mem_okD(1) [OF assms(1), of z] that by simp
      have "\<forall>x\<in>set (owned z). g x = h x" using eq(2) that by (auto simp: owned_list_def)
      then show ?thesis using seg_outside [OF z] by blast
    qed
    moreover have "set (owned v') \<inter> set (owned_list ts) = {}" using o(1) d(2) w'(4) sub by (auto simp: disjoint_iff)
    moreover have "dom g = set (owned v') \<union> set (owned_list ts)"
    proof (intro set_eqI)
      fix x
      have "set (owned w') \<subseteq> dom g" using seg_dom [OF w'(2)] by simp
      moreover have "x \<notin> set (owned w') \<Longrightarrow> x \<in> set (owned w) \<union> set (owned_list us) \<Longrightarrow> x \<notin> dom g" using g(2) by auto
      moreover have "x \<notin> set (owned w) \<union> set (owned_list us) \<union> set (owned w') \<Longrightarrow> x \<in> dom g \<longleftrightarrow> x \<in> dom h" using g(1) by (simp add: domIff)
      ultimately show "x \<in> dom g \<longleftrightarrow> x \<in> set (owned v') \<union> set (owned_list ts)"
        unfolding o(1) d(5) using sub d(2,3) by (simp only: owned_list_simps set_append) blast
    qed
    ultimately have "mem_ok g (v' # ts)" using o(2) d(4) by (simp add: mem_ok_def)
    then show ?thesis using v' nv by blast
  qed
  then show ?thesis using c(1) by blast
qed

text \<open>Adding the tree \<open>u\<close> of the list to a node of the tree \<open>v\<close>.\<close>

lemma mem_ok_AddItemToArray:
  assumes "mem_ok h (u # v # ts)" "find_node a [v] = Some w"
  shows "\<exists>g v'. heap_AddItemToArray a (Some (node_addr u)) h = Some g \<and> mem_ok g (v' # ts) \<and> node_addr v' = node_addr v \<and>
     put_node a (set_kids (kids w @ [u]) w) [v] = [v']"
proof -
  have "mem_ok h ([u] @ v # ts)" using assms(1) by simp
  from mem_ok_edit [OF this assms(2)] obtain p r where e: "seg h p (Some a) [w] r"
    "\<And>g w'. node_addr w' = a \<Longrightarrow> seg g p (Some a) [w'] r \<Longrightarrow> distinct (owned w') \<Longrightarrow>
       set (owned w') \<inter> (set (owned_list (v # ts)) - set (owned w)) = {} \<Longrightarrow>
       (\<forall>x. x \<notin> set (owned w) \<union> set (owned_list [u]) \<union> set (owned w') \<longrightarrow> g x = h x) \<Longrightarrow>
       (\<forall>x\<in>set (owned w) \<union> set (owned_list [u]) - set (owned w'). g x = None) \<Longrightarrow>
       (\<exists>v'. put_node a w' [v] = [v'] \<and> node_addr v' = node_addr v \<and> mem_ok g (v' # ts))" by blast
  have a: "node_addr w = a" using find_node_addr [OF assms(2)] .
  have sub: "set (owned w) \<subseteq> set (owned v)" using find_node_owned [OF assms(2)] by simp
  have "distinct (owned v)" using assms(1) by (simp add: mem_ok_def)
  then have dw: "distinct (owned w)" using find_node_distinct [OF assms(2)] by simp
  have du: "distinct (owned w @ owned u)" "set (owned u) \<inter> set (owned_list (v # ts)) = {}" using assms(1) dw sub by (auto simp: mem_ok_def)
  have su: "seg h None (Some (node_addr u)) [u] None" using mem_okD(1) [OF assms(1)] by simp
  from heap_AddItemToArray_refines [OF e(1) su du(1)] obtain g where g: "heap_AddItemToArray a (Some (node_addr u)) h = Some g"
    "seg g p (Some a) [set_kids (kids w @ [u]) w] r" "owned (set_kids (kids w @ [u]) w) = owned w @ owned u"
    "\<forall>x. x \<notin> set (owned w @ owned u) \<longrightarrow> g x = h x" using a by auto
  have "\<exists>v'. put_node a (set_kids (kids w @ [u]) w) [v] = [v'] \<and> node_addr v' = node_addr v \<and> mem_ok g (v' # ts)"
    using g(2-4) du a by (intro e(2)) auto
  then show ?thesis using g(1) by blast
qed

lemma mem_ok_AddItemToObject:
  assumes "mem_ok h (u # v # ts)" "find_node a [v] = Some w" "h sa = None"
  shows "\<exists>g v'. heap_AddItemToObject a s sa (Some (node_addr u)) h = Some g \<and> mem_ok g (v' # ts) \<and> node_addr v' = node_addr v \<and>
     put_node a (set_kids (kids w @ [set_aname (Some (sa, c_str s)) u]) w) [v] = [v']"
proof -
  let ?u = "set_aname (Some (sa, c_str s)) u"
  have "mem_ok h ([u] @ v # ts)" using assms(1) by simp
  from mem_ok_edit [OF this assms(2)] obtain p r where e: "seg h p (Some a) [w] r"
    "\<And>g w'. node_addr w' = a \<Longrightarrow> seg g p (Some a) [w'] r \<Longrightarrow> distinct (owned w') \<Longrightarrow>
       set (owned w') \<inter> (set (owned_list (v # ts)) - set (owned w)) = {} \<Longrightarrow>
       (\<forall>x. x \<notin> set (owned w) \<union> set (owned_list [u]) \<union> set (owned w') \<longrightarrow> g x = h x) \<Longrightarrow>
       (\<forall>x\<in>set (owned w) \<union> set (owned_list [u]) - set (owned w'). g x = None) \<Longrightarrow>
       (\<exists>v'. put_node a w' [v] = [v'] \<and> node_addr v' = node_addr v \<and> mem_ok g (v' # ts))" by blast
  have a: "node_addr w = a" using find_node_addr [OF assms(2)] .
  have sub: "set (owned w) \<subseteq> set (owned v)" using find_node_owned [OF assms(2)] by simp
  have dv: "distinct (owned_list [v])" using assms(1) by (simp add: mem_ok_def)
  have du: "distinct (owned w @ owned u)" "set (owned u) \<inter> set (owned_list (v # ts)) = {}" "distinct (owned u)"
    using assms(1) find_node_distinct [OF assms(2) dv] sub by (auto simp: mem_ok_def)
  have su: "seg h None (Some (node_addr u)) [u] None" using mem_okD(1) [OF assms(1)] by simp
  have sa: "sa \<notin> set (owned_list (u # v # ts))" using assms(1,3) unfolding mem_ok_def by (metis domIff)
  have nm: "set (ptrs (aname u)) \<subseteq> set (owned u)" by (rule aname_owned)
  from heap_AddItemToObject_refines [OF e(1) su du(1) assms(3), of s] obtain g where g: "heap_AddItemToObject a s sa (Some (node_addr u)) h = Some g"
    "seg g p (Some a) [set_kids (kids w @ [?u]) w] r" "distinct (owned (set_kids (kids w @ [?u]) w))"
    "\<forall>x. x \<notin> set (owned w @ owned u) \<union> {sa} \<longrightarrow> g x = h x" "\<forall>x\<in>set (ptrs (aname u)). g x = None" unfolding a by blast
  have su2: "sa \<notin> set (owned u) - set (ptrs (aname u))" using sa by simp
  have "set (owned (set_kids (kids w @ [?u]) w)) = set (owned w) \<union> set (owned ?u)" by (cases w) auto
  then have o: "set (owned (set_kids (kids w @ [?u]) w)) = set (owned w) \<union> insert sa (set (owned u) - set (ptrs (aname u)))"
    using owned_set_aname(1) [OF du(3) su2] by simp
  have "\<exists>v'. put_node a (set_kids (kids w @ [?u]) w) [v] = [v'] \<and> node_addr v' = node_addr v \<and> mem_ok g (v' # ts)"
  proof (rule e(2) [OF _ g(2,3)])
    show "set (owned (set_kids (kids w @ [?u]) w)) \<inter> (set (owned_list (v # ts)) - set (owned w)) = {}" unfolding o using sa du(2) by auto
    show "\<forall>x. x \<notin> set (owned w) \<union> set (owned_list [u]) \<union> set (owned (set_kids (kids w @ [?u]) w)) \<longrightarrow> g x = h x" unfolding o using g(4) by simp
    show "\<forall>x\<in>set (owned w) \<union> set (owned_list [u]) - set (owned (set_kids (kids w @ [?u]) w)). g x = None" unfolding o using g(5) by auto
  qed (simp add: a)
  then show ?thesis using g(1) by blast
qed

section \<open>Nodes that are allocated\<close>

lemma live_node_seg: "seg h p q ts r \<Longrightarrow> load a h \<noteq> None \<Longrightarrow> a \<in> set (owned_list ts) \<Longrightarrow> find_node a ts \<noteq> None"
proof (induction h p q ts r rule: seg.induct)
  case (2 h p q b t vs i d nm ks ts r)
  have "a \<notin> set (ptrs vs @ ptrs nm)" using "2.prems"(1,2) by (auto simp: chars_at_def ptrs_def load_def split: option.splits)
  then show ?case using 2 by (fastforce split: option.splits)
qed simp

lemma live_node:
  assumes "mem_ok h ts" "load a h \<noteq> None"
  shows "\<exists>v w. v \<in> set ts \<and> find_node a [v] = Some w"
proof -
  have "a \<in> dom h" using assms(2) by (auto simp: load_def split: option.splits)
  then obtain v where v: "v \<in> set ts" "a \<in> set (owned v)" using assms(1) by (auto simp: mem_ok_def owned_list_def)
  then show ?thesis using live_node_seg [OF mem_okD(1) [OF assms(1) v(1)] assms(2)] by auto
qed

text \<open>The nodes below a pointer, in the order of the links.\<close>

partial_function (option) heap_nodes :: "addr option \<Rightarrow> heap \<Rightarrow> addr list option" where
  "heap_nodes c h =
     (case c of
        None \<Rightarrow> Some []
      | Some a \<Rightarrow>
          Option.bind (load a h) (\<lambda>n.
          Option.bind (heap_nodes (c_child n) h) (\<lambda>xs.
          Option.bind (heap_nodes (c_next n) h) (\<lambda>ys. Some (a # xs @ ys)))))"

declare heap_nodes.simps [code]

lemma heap_nodes_seg: "seg h p q ts None \<Longrightarrow> \<exists>xs. heap_nodes q h = Some xs \<and> (\<forall>a. find_node a ts \<noteq> None \<longrightarrow> a \<in> set xs)"
proof (induction h p q ts "None :: addr option" rule: seg.induct)
  case (1 h p q)
  then show ?case by (subst heap_nodes.simps) simp
next
  case (2 h p q b t vs i d nm ks ts)
  from "2.prems" obtain x y where n: "q = Some b"
    "h b = Some (Cell \<lparr>c_next = y, c_prev = p, c_child = x, c_type = t, c_valuestring = map_option fst vs,
       c_valueint = i, c_valuedouble = d, c_string = map_option fst nm\<rparr>)" "seg h None x ks None" "seg h (Some b) y ts None" by auto
  from "2.hyps"(1) [OF n(3)] "2.hyps"(2) [OF n(4)] obtain xs ys where "heap_nodes x h = Some xs" "\<forall>a. find_node a ks \<noteq> None \<longrightarrow> a \<in> set xs"
    "heap_nodes y h = Some ys" "\<forall>a. find_node a ts \<noteq> None \<longrightarrow> a \<in> set ys" by blast
  then show ?case using n(1,2) by (subst heap_nodes.simps) (auto split: option.splits)
qed

end
