(* ===== verification/Dap_CJson_Parse.thy ===== *)
theory Dap_CJson_Parse
  imports Dap_CJson
begin

text \<open>
  Termination of the parser of \<^verbatim>\<open>dap/cJSON.cpp\<close>: every successful call consumes text, so the
  fuel that \<open>cJSON_Parse\<close> supplies is never used up, and any larger fuel gives the same
  result.  The interface of a recursive call is the locale \<open>value_parser\<close>; the array and
  object parsers are proved total against it and \<open>parse_value\<close> interprets it.
\<close>

named_theorems consume \<open>the text that a parse function leaves is no longer than its input\<close>

lemma pbind_eq_Parsed: "pbind p f = Parsed y r \<longleftrightarrow> (\<exists>x r0. p = Parsed x r0 \<and> f x r0 = Parsed y r)"
  by (cases p) auto

lemma pbind_eq_No_Fuel: "pbind p f = No_Fuel \<longleftrightarrow> p = No_Fuel \<or> (\<exists>x r. p = Parsed x r \<and> f x r = No_Fuel)"
  by (cases p) auto

lemma pbind_cong_Parsed:
  "(\<And>x r. p = Parsed x r \<Longrightarrow> f x r = g x r) \<Longrightarrow> pbind p f = pbind p g"
  by (cases p) auto

lemma length_skip [consume]: "length (skip s) \<le> length s"
  by (simp add: skip_def length_dropWhile_le)

lemma skip_skip [simp]: "skip (skip s) = skip s"
  by (simp add: skip_def)

section \<open>Leaf parsers consume text\<close>

lemma int_digits_length: "int_digits s = (ds, r) \<Longrightarrow> length r \<le> length s"
  by (auto simp: int_digits_def length_dropWhile_le split: if_splits)

lemma frac_digits_length: "frac_digits s = (ds, r) \<Longrightarrow> length r \<le> length s"
  using length_dropWhile_le [of is_digit "tl s"]
  by (auto simp: frac_digits_def split: list.splits if_splits)

lemma exp_part_length: "exp_part s = (sg, ds, r) \<Longrightarrow> length r \<le> length s"
  using length_dropWhile_le [of is_digit "tl s"] length_dropWhile_le [of is_digit "tl (tl s)"]
  by (auto simp: exp_part_def Let_def split: list.splits if_splits)

lemma int_digits_consume:
  "s \<noteq> [] \<Longrightarrow> is_digit (hd s) \<Longrightarrow> hd s \<noteq> CHR ''0'' \<Longrightarrow> int_digits s = (ds, r) \<Longrightarrow> length r < length s"
  by (auto simp: int_digits_def length_dropWhile_less)

text \<open>The text before the digits: the sign and a leading zero.\<close>

lemma parse_number_consume:
  assumes p: "parse_number s = Parsed x r" and s: "prefix ''-'' s \<or> s \<noteq> [] \<and> is_digit (hd s)"
  shows "length r < length s"
proof -
  define s1 where "s1 = (case s of c # r \<Rightarrow> if c = CHR ''-'' then r else s | [] \<Rightarrow> s)"
  define s2 where "s2 = (case s1 of c # r \<Rightarrow> if c = CHR ''0'' then r else s1 | [] \<Rightarrow> s1)"
  obtain ds s3 where 3: "int_digits s2 = (ds, s3)" by force
  obtain fs s4 where 4: "frac_digits s3 = (fs, s4)" by force
  obtain g es s5 where 5: "exp_part s4 = (g, es, s5)" by (cases "exp_part s4") auto
  have r: "r = s5"
    using p 3 4 5 unfolding parse_number_def s2_def s1_def
    by (auto simp: Let_def split: list.splits if_splits outcome.splits)
  have "length s1 \<le> length s" "length s2 \<le> length s1"
    by (auto simp: s1_def s2_def split: list.splits)
  moreover have "length s3 \<le> length s2" "length s5 \<le> length s3"
    using int_digits_length [OF 3] frac_digits_length [OF 4] exp_part_length [OF 5] by auto
  moreover have "length s1 < length s \<or> length s2 < length s1 \<or> length s3 < length s2"
  proof (cases "prefix ''-'' s")
    case True
    then show ?thesis by (auto simp: s1_def prefix_def)
  next
    case False
    with s obtain c t where ct: "s = c # t" "is_digit c" "c \<noteq> CHR ''-''" by (cases s) auto
    show ?thesis
    proof (cases "c = CHR ''0''")
      case True
      with ct show ?thesis by (auto simp: s1_def s2_def)
    next
      case False
      with ct have "s2 = s" by (auto simp: s1_def s2_def)
      with ct False int_digits_consume [OF _ _ _ 3] show ?thesis by simp
    qed
  qed
  ultimately show ?thesis unfolding r by (elim disjE) linarith+
qed

lemma unescape_consume: "unescape room uc uc2 out s = Ok (v, r) \<Longrightarrow> length r \<le> length s"
proof (induction room uc uc2 out s arbitrary: v r rule: unescape.induct)
  case (2 room uc uc2 out c cs)
  show ?case
    using "2.prems" "2.IH"(1) "2.IH"(2) "2.IH"(3)
    by (fastforce simp: obind_eq_Ok split: if_splits list.splits dest: unescape_u_length)
qed simp

lemma parse_string_consume: "parse_string s = Parsed v r \<Longrightarrow> length r < length s"
  by (auto simp: parse_string_def split: list.splits if_splits outcome.splits dest!: unescape_consume)

lemma parse_string_fuel: "parse_string s \<noteq> No_Fuel"
  by (auto simp: parse_string_def split: list.splits outcome.splits prod.splits)

lemma parse_number_fuel: "parse_number s \<noteq> No_Fuel"
  unfolding parse_number_def Let_def by (simp add: split_def split: outcome.split)

lemma parse_name_consume: "parse_name s = Parsed k r \<Longrightarrow> length r < length s"
proof -
  assume "parse_name s = Parsed k r"
  then obtain k0 r0 where k: "parse_string (skip s) = Parsed k0 r0"
    and c: "(case skip r0 of c # r' \<Rightarrow> if c = CHR '':'' then Parsed k0 (skip r') else Failed (skip r0)
             | [] \<Rightarrow> Failed []) = Parsed k r"
    by (auto simp: parse_name_def pbind_eq_Parsed)
  from c obtain r1 where "skip r0 = CHR '':'' # r1" "r = skip r1" "k = k0"
    by (cases "skip r0") (auto split: if_splits)
  with k parse_string_consume [of "skip s" k r0] length_skip [of s] length_skip [of r0] length_skip [of r1]
  show ?thesis by simp
qed

lemma parse_name_fuel: "parse_name s \<noteq> No_Fuel"
  by (auto simp: parse_name_def pbind_eq_No_Fuel parse_string_fuel split: list.splits)

section \<open>The interface of the recursive call\<close>

locale value_parser =
  fixes pv :: "string \<Rightarrow> cJsonDap presult" and bound :: nat
  assumes pv_consume: "pv s = Parsed x r \<Longrightarrow> length r < length s"
    and pv_total: "length s < bound \<Longrightarrow> pv s \<noteq> No_Fuel"
begin

lemma items_consume: "parse_items pv k acc s = Parsed x r \<Longrightarrow> length r < length s"
proof (induction k arbitrary: acc s)
  case (Suc k)
  show ?case
  proof (cases "prefix '','' s")
    case True
    with Suc.prems obtain y r0 where y: "pv (skip (tl s)) = Parsed y r0"
      and p: "parse_items pv k (acc @ [y]) (skip r0) = Parsed x r"
      by (auto simp: pbind_eq_Parsed)
    from True have "length (tl s) < length s" by (auto simp: prefix_def)
    with Suc.IH [OF p] pv_consume [OF y] length_skip [of "tl s"] length_skip [of r0] show ?thesis by linarith
  next
    case False
    with Suc.prems show ?thesis by (auto simp: prefix_def split: if_splits)
  qed
qed simp

lemma items_total:
  "length s < bound \<Longrightarrow> length s \<le> k \<Longrightarrow> 0 < k \<Longrightarrow> parse_items pv k acc s \<noteq> No_Fuel"
proof (induction k arbitrary: acc s)
  case (Suc k)
  show ?case
  proof (cases "prefix '','' s")
    case True
    then have t: "length (tl s) < length s" by (auto simp: prefix_def)
    have "parse_items pv k (acc @ [y]) (skip r) \<noteq> No_Fuel" if "pv (skip (tl s)) = Parsed y r" for y r
    proof -
      have "length (skip r) < length (tl s)"
        using pv_consume [OF that] length_skip [of r] length_skip [of "tl s"] by linarith
      with Suc t show ?thesis by auto
    qed
    moreover have "pv (skip (tl s)) \<noteq> No_Fuel"
      using pv_total [of "skip (tl s)"] length_skip [of "tl s"] t Suc.prems by simp
    ultimately show ?thesis using True by (auto simp: pbind_eq_No_Fuel)
  next
    case False
    then show ?thesis by auto
  qed
qed simp

lemma members_consume: "parse_members pv k acc s = Parsed x r \<Longrightarrow> length r < length s"
proof (induction k arbitrary: acc s)
  case (Suc k)
  show ?case
  proof (cases "prefix '','' s")
    case True
    with Suc.prems obtain key r1 y r0 where k: "parse_name (tl s) = Parsed key r1" and y: "pv r1 = Parsed y r0"
      and p: "parse_members pv k (acc @ [set_name (Some key) y]) (skip r0) = Parsed x r"
      by (auto simp: pbind_eq_Parsed)
    from True have "length (tl s) < length s" by (auto simp: prefix_def)
    with Suc.IH [OF p] pv_consume [OF y] parse_name_consume [OF k] length_skip [of r0] show ?thesis by linarith
  next
    case False
    with Suc.prems show ?thesis by (auto simp: prefix_def split: if_splits)
  qed
qed simp

lemma members_total:
  "length s < bound \<Longrightarrow> length s \<le> k \<Longrightarrow> 0 < k \<Longrightarrow> parse_members pv k acc s \<noteq> No_Fuel"
proof (induction k arbitrary: acc s)
  case (Suc k)
  show ?case
  proof (cases "prefix '','' s")
    case True
    then have t: "length (tl s) < length s" by (auto simp: prefix_def)
    have "pv r1 \<noteq> No_Fuel" if "parse_name (tl s) = Parsed key r1" for key r1
      using pv_total [of r1] parse_name_consume [OF that] t Suc.prems by simp
    moreover have "parse_members pv k (acc @ [set_name (Some key) y]) (skip r) \<noteq> No_Fuel"
      if "parse_name (tl s) = Parsed key r1" "pv r1 = Parsed y r" for key r1 y r
    proof -
      have "length (skip r) < length (tl s)"
        using pv_consume [OF that(2)] parse_name_consume [OF that(1)] length_skip [of r] by linarith
      with Suc t show ?thesis by auto
    qed
    ultimately show ?thesis using True by (auto simp: pbind_eq_No_Fuel parse_name_fuel)
  next
    case False
    then show ?thesis by auto
  qed
qed simp

lemma array_consume: "parse_array pv s = Parsed x r \<Longrightarrow> length r < length s"
proof -
  assume p: "parse_array pv s = Parsed x r"
  then have "prefix ''['' s" by (auto simp: parse_array_def split: if_splits)
  then have t: "length (tl s) < length s" by (auto simp: prefix_def)
  define v where "v = skip (tl s)"
  have v: "length v < length s" using t length_skip [of "tl s"] by (simp add: v_def)
  show ?thesis
  proof (cases "prefix '']'' v")
    case True
    with p v show ?thesis by (auto simp: parse_array_def Let_def v_def split: if_splits)
  next
    case False
    with p obtain y r0 where "pv (skip v) = Parsed y r0" "parse_items pv (length v) [y] (skip r0) = Parsed x r"
      by (auto simp: parse_array_def Let_def v_def pbind_eq_Parsed split: if_splits)
    with v pv_consume [of "skip v" y r0] items_consume [of "length v" "[y]" "skip r0" x r]
      length_skip [of v] length_skip [of r0]
    show ?thesis by linarith
  qed
qed

lemma array_total: "length s \<le> bound \<Longrightarrow> parse_array pv s \<noteq> No_Fuel"
proof -
  assume b: "length s \<le> bound"
  define v where "v = skip (tl s)"
  have "pbind (pv (skip v)) (\<lambda>x r. parse_items pv (length v) [x] (skip r)) \<noteq> No_Fuel" if "prefix ''['' s"
  proof -
    from that have v: "length v < length s" using length_skip [of "tl s"] by (auto simp: prefix_def v_def)
    have "parse_items pv (length v) [y] (skip r) \<noteq> No_Fuel" if "pv (skip v) = Parsed y r" for y r
      using items_total [of "skip r" "length v" "[y]"] pv_consume [OF that] length_skip [of r]
        length_skip [of v] v b by linarith
    moreover have "pv (skip v) \<noteq> No_Fuel" using pv_total [of "skip v"] length_skip [of v] v b by linarith
    ultimately show ?thesis by (auto simp: pbind_eq_No_Fuel)
  qed
  then show ?thesis by (auto simp: parse_array_def Let_def v_def)
qed

lemma object_consume: "parse_object pv s = Parsed x r \<Longrightarrow> length r < length s"
proof -
  assume p: "parse_object pv s = Parsed x r"
  then have "prefix ''{'' s" by (auto simp: parse_object_def split: if_splits)
  then have t: "length (tl s) < length s" by (auto simp: prefix_def)
  define v where "v = skip (tl s)"
  have v: "length v < length s" using t length_skip [of "tl s"] by (simp add: v_def)
  show ?thesis
  proof (cases "prefix ''}'' v")
    case True
    with p v show ?thesis by (auto simp: parse_object_def Let_def v_def split: if_splits)
  next
    case False
    with p obtain k r1 y r0 where "parse_name v = Parsed k r1" "pv r1 = Parsed y r0"
      "parse_members pv (length v) [set_name (Some k) y] (skip r0) = Parsed x r"
      by (auto simp: parse_object_def Let_def v_def pbind_eq_Parsed split: if_splits)
    with v pv_consume [of r1 y r0] members_consume [of "length v" "[set_name (Some k) y]" "skip r0" x r]
      parse_name_consume [of v k r1] length_skip [of r0]
    show ?thesis by linarith
  qed
qed

lemma object_total: "length s \<le> bound \<Longrightarrow> parse_object pv s \<noteq> No_Fuel"
proof -
  assume b: "length s \<le> bound"
  define v where "v = skip (tl s)"
  have "pbind (parse_name v) (\<lambda>key r1.
          pbind (pv r1) (\<lambda>x r. parse_members pv (length v) [set_name (Some key) x] (skip r))) \<noteq> No_Fuel"
    if "prefix ''{'' s"
  proof -
    from that have v: "length v < length s" using length_skip [of "tl s"] by (auto simp: prefix_def v_def)
    have "parse_members pv (length v) [set_name (Some k) y] (skip r) \<noteq> No_Fuel"
      if "parse_name v = Parsed k r1" "pv r1 = Parsed y r" for k r1 y r
      using members_total [of "skip r" "length v"] pv_consume [OF that(2)] length_skip [of r]
        parse_name_consume [OF that(1)] v b by fastforce
    moreover have "pv r1 \<noteq> No_Fuel" if "parse_name v = Parsed k r1" for k r1
      using pv_total [of r1] parse_name_consume [OF that] v b by linarith
    ultimately show ?thesis by (auto simp: pbind_eq_No_Fuel parse_name_fuel)
  qed
  then show ?thesis by (auto simp: parse_object_def Let_def v_def)
qed

end

lemma parse_value_parser: "value_parser (parse_value n) n"
proof (induction n)
  case 0
  show ?case by unfold_locales simp_all
next
  case (Suc n)
  have lit: "length (drop k s) < length s" if "prefix t s" "length t = k" "0 < k" for t s :: string and k
    using that by (auto simp: prefix_def)
  show ?case
  proof
    fix s x r assume "parse_value (Suc n) s = Parsed x r"
    then show "length r < length s"
      using lit [of "''null''" s 4] lit [of "''false''" s 5] lit [of "''true''" s 4]
      by (auto simp: pbind_eq_Parsed split: if_splits
               dest: parse_string_consume parse_number_consume
                 value_parser.array_consume [OF Suc.IH] value_parser.object_consume [OF Suc.IH])
  next
    fix s :: string assume "length s < Suc n"
    then show "parse_value (Suc n) s \<noteq> No_Fuel"
      using value_parser.array_total [OF Suc.IH, of s] value_parser.object_total [OF Suc.IH, of s]
      by (simp add: pbind_eq_No_Fuel parse_string_fuel parse_number_fuel)
  qed
qed

interpretation pvn: value_parser "parse_value n" n for n
  by (rule parse_value_parser)

lemmas parse_value_consume = pvn.pv_consume
lemmas parse_value_total = pvn.pv_total

section \<open>More fuel gives the same result\<close>

lemma parse_items_agree:
  assumes dec: "\<And>s x r. pv s = Parsed x r \<Longrightarrow> length r < length s"
    and eq: "\<And>t. length t < b \<Longrightarrow> pv t = pv' t"
  shows "length s \<le> b \<Longrightarrow> parse_items pv k acc s = parse_items pv' k acc s"
proof (induction k arbitrary: acc s)
  case (Suc k)
  show ?case
  proof (cases "prefix '','' s")
    case True
    then have t: "length (skip (tl s)) < length s"
      using length_skip [of "tl s"] by (auto simp: prefix_def)
    have "parse_items pv k (acc @ [y]) (skip r) = parse_items pv' k (acc @ [y]) (skip r)"
      if "pv (skip (tl s)) = Parsed y r" for y r
      using dec [OF that] length_skip [of r] t Suc.prems by (intro Suc.IH) simp
    with True eq [of "skip (tl s)"] t Suc.prems show ?thesis by (auto intro: pbind_cong_Parsed)
  qed simp
qed simp

lemma parse_members_agree:
  assumes dec: "\<And>s x r. pv s = Parsed x r \<Longrightarrow> length r < length s"
    and eq: "\<And>t. length t < b \<Longrightarrow> pv t = pv' t"
  shows "length s \<le> b \<Longrightarrow> parse_members pv k acc s = parse_members pv' k acc s"
proof (induction k arbitrary: acc s)
  case (Suc k)
  show ?case
  proof (cases "prefix '','' s")
    case True
    then have t: "length (tl s) < length s" by (auto simp: prefix_def)
    have "pbind (pv r1) (\<lambda>x r. parse_members pv k (acc @ [set_name (Some key) x]) (skip r)) =
          pbind (pv' r1) (\<lambda>x r. parse_members pv' k (acc @ [set_name (Some key) x]) (skip r))"
      if n: "parse_name (tl s) = Parsed key r1" for key r1
    proof -
      have r1: "length r1 < length s" using parse_name_consume [OF n] t by simp
      have "parse_members pv k (acc @ [set_name (Some key) y]) (skip r) =
            parse_members pv' k (acc @ [set_name (Some key) y]) (skip r)" if "pv r1 = Parsed y r" for y r
        using dec [OF that] length_skip [of r] r1 Suc.prems by (intro Suc.IH) simp
      then show ?thesis using eq [of r1] r1 Suc.prems by (auto intro: pbind_cong_Parsed)
    qed
    with True show ?thesis by (auto intro: pbind_cong_Parsed)
  qed simp
qed simp

lemma parse_array_agree:
  assumes dec: "\<And>s x r. pv s = Parsed x r \<Longrightarrow> length r < length s"
    and eq: "\<And>t. length t < length s \<Longrightarrow> pv t = pv' t"
  shows "parse_array pv s = parse_array pv' s"
proof (cases "prefix ''['' s")
  case True
  define v where "v = skip (tl s)"
  have v: "length v < length s" using True length_skip [of "tl s"] by (auto simp: prefix_def v_def)
  have "parse_items pv (length v) [y] (skip r) = parse_items pv' (length v) [y] (skip r)"
    if "pv (skip v) = Parsed y r" for y r
    using dec [OF that] length_skip [of v] length_skip [of r] v
    by (intro parse_items_agree [where b = "length s", OF dec]) (auto intro: eq)
  moreover have "pv (skip v) = pv' (skip v)" using eq [of "skip v"] length_skip [of v] v by simp
  ultimately show ?thesis
    by (auto simp: parse_array_def Let_def v_def intro: pbind_cong_Parsed)
qed (simp add: parse_array_def)

lemma parse_object_agree:
  assumes dec: "\<And>s x r. pv s = Parsed x r \<Longrightarrow> length r < length s"
    and eq: "\<And>t. length t < length s \<Longrightarrow> pv t = pv' t"
  shows "parse_object pv s = parse_object pv' s"
proof (cases "prefix ''{'' s")
  case True
  define v where "v = skip (tl s)"
  have v: "length v < length s" using True length_skip [of "tl s"] by (auto simp: prefix_def v_def)
  have "pbind (pv r1) (\<lambda>x r. parse_members pv (length v) [set_name (Some key) x] (skip r)) =
        pbind (pv' r1) (\<lambda>x r. parse_members pv' (length v) [set_name (Some key) x] (skip r))"
    if n: "parse_name v = Parsed key r1" for key r1
  proof -
    have r1: "length r1 < length s" using parse_name_consume [OF n] v by simp
    have "parse_members pv (length v) [set_name (Some key) y] (skip r) =
          parse_members pv' (length v) [set_name (Some key) y] (skip r)" if "pv r1 = Parsed y r" for y r
      using dec [OF that] length_skip [of r] r1
      by (intro parse_members_agree [where b = "length s", OF dec]) (auto intro: eq)
    then show ?thesis using eq [OF r1] by (auto intro: pbind_cong_Parsed)
  qed
  then show ?thesis
    by (auto simp: parse_object_def Let_def v_def intro: pbind_cong_Parsed)
qed (simp add: parse_object_def)

lemma parse_value_fuel_irrelevant:
  "length s < n \<Longrightarrow> length s < m \<Longrightarrow> parse_value n s = parse_value m s"
proof (induction n arbitrary: m s)
  case (Suc n)
  then obtain m' where m: "m = Suc m'" by (cases m) auto
  have eq: "parse_value n t = parse_value m' t" if "length t < length s" for t
    using Suc.IH [of t m'] Suc.prems that m by simp
  have "parse_array (parse_value n) s = parse_array (parse_value m') s"
    by (rule parse_array_agree) (use parse_value_consume eq in blast)+
  moreover have "parse_object (parse_value n) s = parse_object (parse_value m') s"
    by (rule parse_object_agree) (use parse_value_consume eq in blast)+
  ultimately show ?case by (simp add: m)
qed simp

section \<open>A string that overflows its buffer\<close>

text \<open>
  The first pass stops at the closing quote, the second skips four characters behind \<open>\u\<close>
  without looking at them.  When the quote is among these, the second pass goes on behind it.
\<close>

definition overflow_text :: "nat \<Rightarrow> string" where
  "overflow_text k = [CHR 0x22, CHR 0x5C] @ ''u1'' @ [CHR 0x22] @ replicate k (CHR ''A'')"

lemma unescape_overflow:
  "CHR 0x22 \<notin> set s \<Longrightarrow> CHR 0x5C \<notin> set s \<Longrightarrow> length out \<le> room \<Longrightarrow> room < length out + length s \<Longrightarrow>
     unescape room uc uc2 out s = Undef Over_Write"
proof (induction s arbitrary: out)
  case (Cons c s)
  then show ?case by (cases "length out = room") (auto simp: put_def)
qed simp

lemma parse_string_overflow: "4 < k \<Longrightarrow> parse_string (overflow_text k) = PUndef Over_Write"
proof -
  assume k: "4 < k"
  let ?r = "''1'' @ [CHR 0x22] @ replicate k (CHR ''A'')"
  have s: "overflow_text k = CHR 0x22 # CHR 0x5C # CHR ''u'' # ?r" by (simp add: overflow_text_def)
  have scan: "scan_len (CHR 0x5C # CHR ''u'' # ?r) = Ok 2" by simp
  define m where "m = k - 2"
  have m: "k = Suc (Suc m)" "2 < m" using k by (simp_all add: m_def)
  have hex: "scan_hex4 ?r = Some 1"
    by (simp add: scan_hex4_def m(1) is_space_def is_hex_def hex_val_def hex_digits_val_def Let_def)
  have "utf8_bytes 1 = [CHR 0x01]"
    by (simp add: utf8_bytes_def utf8_len_def byte_of_def firstByteMark_def char_of_def bit_0)
  then have u: "unescape_u None None ?r = Ok (Some 1, None, [CHR 0x01], replicate m (CHR ''A''))"
    unfolding unescape_u_def hex option.case by (simp add: m(1) word_le_nat_alt)
  have "unescape 3 (Some 1) None [CHR 0x01] (replicate m (CHR ''A'')) = Undef Over_Write"
    using m by (intro unescape_overflow) auto
  then have "unescape (2 + 1) None None [] (CHR 0x5C # CHR ''u'' # ?r) = Undef Over_Write"
    using u by (simp add: put_def)
  with scan show ?thesis unfolding s parse_string_def list.case by (simp only: outcome.case if_False simp_thms)
qed

lemma cJSON_Parse_overflow: "4 < k \<Longrightarrow> cJSON_Parse (overflow_text k) = PUndef Over_Write"
proof -
  assume k: "4 < k"
  have "skip (c_str (overflow_text k)) = overflow_text k"
    by (simp add: overflow_text_def skip_def is_ws_def c_str_def NUL_def takeWhile_eq_all_conv)
  then show ?thesis
    using parse_string_overflow [OF k]
    by (simp add: cJSON_Parse_def parse_fuel_def) (simp add: overflow_text_def)
qed

end
