(* ===== verification/Dap_HeapParse.thy ===== *)
theory Dap_HeapParse
  imports Dap_HeapTree Dap_CJson_Parse
begin

text \<open>
  The parser of \<^verbatim>\<open>dap/cJSON.cpp\<close> as it builds its tree in memory: each node and string is allocated when the code
  allocates it and linked when the code links it.  The allocator \<open>alloc\<close> is any function that returns an address which is
  not in use, or fails (\<open>None\<close>, the null pointer of \<^verbatim>\<open>cJSON_malloc\<close>).  The result is related to the parser on values: on
  success the tree is in memory and nothing else has changed; on failure, of the text or of an allocation at any point, what was
  built is deleted and the memory is the one from before.
\<close>

section \<open>The functions\<close>

datatype hresult = HParsed heap string | HFailed heap | HUndef ub | HNo_Fuel | HFault

fun hbind :: "hresult \<Rightarrow> (heap \<Rightarrow> string \<Rightarrow> hresult) \<Rightarrow> hresult" where
  "hbind (HParsed h r) f = f h r"
| "hbind (HFailed h) f = HFailed h"
| "hbind (HUndef u) f = HUndef u"
| "hbind HNo_Fuel f = HNo_Fuel"
| "hbind HFault f = HFault"

definition hstore :: "addr \<Rightarrow> (cell \<Rightarrow> cell) \<Rightarrow> heap \<Rightarrow> (heap \<Rightarrow> hresult) \<Rightarrow> hresult" where
  "hstore a f h k = (case store a f h of None \<Rightarrow> HFault | Some g \<Rightarrow> k g)"

lemma hstore_Some: "store a f h = Some g \<Longrightarrow> hstore a f h k = k g"
  by (simp add: hstore_def)

lemma hstore_Cell: "h a = Some (Cell n) \<Longrightarrow> hstore a f h k = k (h(a \<mapsto> Cell (f n)))"
  by (simp add: hstore_def store_def)

text \<open>The buffer is allocated between the two passes; its contents are those of the second one.\<close>

definition mem_parse_string :: "(heap \<Rightarrow> addr option) \<Rightarrow> addr \<Rightarrow> string \<Rightarrow> heap \<Rightarrow> hresult" where
  "mem_parse_string alloc item str h =
     (case str of
        [] \<Rightarrow> HFailed h
      | q # s \<Rightarrow>
         if q \<noteq> CHR 0x22 then HFailed h
         else
           (case scan_len s of
              Undef u \<Rightarrow> HUndef u
            | Ok len \<Rightarrow>
               (case alloc h of
                  None \<Rightarrow> HFailed h
                | Some out \<Rightarrow>
                   (case parse_string str of
                      Parsed v r \<Rightarrow>
                        hstore item (\<lambda>n. n \<lparr>c_valuestring := Some out\<rparr>) (malloc out (Chars v) h) (\<lambda>h.
                        hstore item (\<lambda>n. n \<lparr>c_type := cJsonDap_String\<rparr>) h (\<lambda>h. HParsed h r))
                    | Failed e \<Rightarrow> HFailed h
                    | PUndef u \<Rightarrow> HUndef u
                    | No_Fuel \<Rightarrow> HNo_Fuel))))"

definition mem_parse_number :: "addr \<Rightarrow> string \<Rightarrow> heap \<Rightarrow> hresult" where
  "mem_parse_number item num h =
     (case parse_number num of
        Parsed x r \<Rightarrow>
          hstore item (\<lambda>n. n \<lparr>c_valuedouble := valuedouble x, c_valueint := valueint x, c_type := type_of x\<rparr>) h (\<lambda>h. HParsed h r)
      | Failed e \<Rightarrow> HFailed h
      | PUndef u \<Rightarrow> HUndef u
      | No_Fuel \<Rightarrow> HNo_Fuel)"

text \<open>
  The loops of \<^verbatim>\<open>parse_array\<close> and \<^verbatim>\<open>parse_object\<close>: they differ in what follows a comma and in the closing character.
\<close>

fun mem_parse_loop ::
  "(addr \<Rightarrow> string \<Rightarrow> heap \<Rightarrow> hresult) \<Rightarrow> char \<Rightarrow> (heap \<Rightarrow> addr option) \<Rightarrow> nat \<Rightarrow> addr \<Rightarrow> string \<Rightarrow> heap \<Rightarrow> hresult" where
  "mem_parse_loop elem close alloc 0 child s h = HNo_Fuel"
| "mem_parse_loop elem close alloc (Suc k) child s h =
     (if prefix '','' s then
        (case alloc h of
           None \<Rightarrow> HFailed h
         | Some new_item \<Rightarrow>
             hstore child (\<lambda>n. n \<lparr>c_next := Some new_item\<rparr>) (heap_New_Item new_item h) (\<lambda>h.
             hstore new_item (\<lambda>n. n \<lparr>c_prev := Some child\<rparr>) h (\<lambda>h.
             hbind (elem new_item (tl s) h) (\<lambda>h r. mem_parse_loop elem close alloc k new_item (skip r) h))))
      else if prefix [close] s then HParsed h (tl s)
      else HFailed h)"

definition mem_parse_array ::
  "(addr \<Rightarrow> string \<Rightarrow> heap \<Rightarrow> hresult) \<Rightarrow> (heap \<Rightarrow> addr option) \<Rightarrow> addr \<Rightarrow> string \<Rightarrow> heap \<Rightarrow> hresult" where
  "mem_parse_array mv alloc item value h =
     (if \<not> prefix ''['' value then HFailed h
      else hstore item (\<lambda>n. n \<lparr>c_type := cJsonDap_Array\<rparr>) h (\<lambda>h.
        let v = skip (tl value) in
        if prefix '']'' v then HParsed h (tl v)
        else
          (case alloc h of
             None \<Rightarrow> HFailed h
           | Some child \<Rightarrow>
               hstore item (\<lambda>n. n \<lparr>c_child := Some child\<rparr>) (heap_New_Item child h) (\<lambda>h.
               hbind (mv child (skip v) h) (\<lambda>h r.
                 mem_parse_loop (\<lambda>a s. mv a (skip s)) (CHR '']'') alloc (length v) child (skip r) h)))))"

text \<open>A member of an object: the string that was parsed becomes the name, and the value is parsed into the same node.\<close>

definition mem_parse_name :: "(heap \<Rightarrow> addr option) \<Rightarrow> addr \<Rightarrow> string \<Rightarrow> heap \<Rightarrow> hresult" where
  "mem_parse_name alloc child s h =
     hbind (mem_parse_string alloc child (skip s) h) (\<lambda>h r.
       hstore child (\<lambda>n. n \<lparr>c_string := c_valuestring n\<rparr>) h (\<lambda>h.
       hstore child (\<lambda>n. n \<lparr>c_valuestring := None\<rparr>) h (\<lambda>h.
         let v = skip r in if prefix '':'' v then HParsed h (skip (tl v)) else HFailed h)))"

definition mem_parse_member ::
  "(addr \<Rightarrow> string \<Rightarrow> heap \<Rightarrow> hresult) \<Rightarrow> (heap \<Rightarrow> addr option) \<Rightarrow> addr \<Rightarrow> string \<Rightarrow> heap \<Rightarrow> hresult" where
  "mem_parse_member mv alloc child s h = hbind (mem_parse_name alloc child s h) (\<lambda>h r. mv child r h)"

definition mem_parse_object ::
  "(addr \<Rightarrow> string \<Rightarrow> heap \<Rightarrow> hresult) \<Rightarrow> (heap \<Rightarrow> addr option) \<Rightarrow> addr \<Rightarrow> string \<Rightarrow> heap \<Rightarrow> hresult" where
  "mem_parse_object mv alloc item value h =
     (if \<not> prefix ''{'' value then HFailed h
      else hstore item (\<lambda>n. n \<lparr>c_type := cJsonDap_Object\<rparr>) h (\<lambda>h.
        let v = skip (tl value) in
        if prefix ''}'' v then HParsed h (tl v)
        else
          (case alloc h of
             None \<Rightarrow> HFailed h
           | Some child \<Rightarrow>
               hstore item (\<lambda>n. n \<lparr>c_child := Some child\<rparr>) (heap_New_Item child h) (\<lambda>h.
               hbind (mem_parse_member mv alloc child v h) (\<lambda>h r.
                 mem_parse_loop (mem_parse_member mv alloc) (CHR ''}'') alloc (length v) child (skip r) h)))))"

fun mem_parse_value :: "(heap \<Rightarrow> addr option) \<Rightarrow> nat \<Rightarrow> addr \<Rightarrow> string \<Rightarrow> heap \<Rightarrow> hresult" where
  "mem_parse_value alloc 0 item s h = HNo_Fuel"
| "mem_parse_value alloc (Suc n) item s h =
     (if prefix ''null'' s then hstore item (\<lambda>n. n \<lparr>c_type := cJsonDap_Null\<rparr>) h (\<lambda>h. HParsed h (drop 4 s))
      else if prefix ''false'' s then hstore item (\<lambda>n. n \<lparr>c_type := cJsonDap_False\<rparr>) h (\<lambda>h. HParsed h (drop 5 s))
      else if prefix ''true'' s then hstore item (\<lambda>n. n \<lparr>c_type := cJsonDap_True, c_valueint := 1\<rparr>) h (\<lambda>h. HParsed h (drop 4 s))
      else if prefix [CHR 0x22] s then mem_parse_string alloc item s h
      else if prefix ''-'' s \<or> s \<noteq> [] \<and> is_digit (hd s) then mem_parse_number item s h
      else if prefix ''['' s then mem_parse_array (mem_parse_value alloc n) alloc item s h
      else if prefix ''{'' s then mem_parse_object (mem_parse_value alloc n) alloc item s h
      else HFailed h)"

text \<open>\<open>Ok None\<close> is an access to memory that is not allocated, or a parser that does not end.\<close>

definition mem_cJSON_Parse :: "(heap \<Rightarrow> addr option) \<Rightarrow> string \<Rightarrow> heap \<Rightarrow> (addr option \<times> heap) option outcome" where
  "mem_cJSON_Parse alloc value h =
     (case alloc h of None \<Rightarrow> Ok (Some (None, h)) | Some c \<Rightarrow>
      let s = skip (c_str value)
      in case mem_parse_value alloc (parse_fuel s) c s (heap_New_Item c h) of
           HParsed h r \<Rightarrow> Ok (Some (Some c, h))
         | HFailed h \<Rightarrow> Ok (map_option (\<lambda>h. (None, h)) (heap_Delete (Some c) h))
         | HUndef u \<Rightarrow> Undef u
         | HNo_Fuel \<Rightarrow> Ok None
         | HFault \<Rightarrow> Ok None)"

section \<open>What a call leaves in memory\<close>

text \<open>\<open>tot\<close>: no allocation fails.\<close>

locale allocation =
  fixes alloc :: "heap \<Rightarrow> addr option" and tot :: bool
  assumes alloc_new: "finite (dom h) \<Longrightarrow> alloc h = Some a \<Longrightarrow> h a = None"
    and alloc_tot: "tot \<Longrightarrow> alloc h \<noteq> None"

text \<open>A node that has been allocated, and possibly named, but not filled.\<close>

definition blank :: "addr option \<Rightarrow> int \<Rightarrow> (addr \<times> string) option \<Rightarrow> addr \<Rightarrow> heap \<Rightarrow> bool" where
  "blank p t nm a h \<longleftrightarrow> \<not> is_ref t \<and> chars_at h nm \<and>
     h a = Some (Cell \<lparr>c_next = None, c_prev = p, c_child = None, c_type = t, c_valuestring = None, c_valueint = 0,
        c_valuedouble = Fin 0, c_string = map_option fst nm\<rparr>)"

text \<open>
  \<open>grown p a nm h g w\<close>: between the memories \<open>h\<close> and \<open>g\<close> the node \<open>a\<close>, with its name \<open>nm\<close>, has grown to the tree \<open>w\<close> out of memory
  that was not in use.
\<close>

definition grown :: "addr option \<Rightarrow> addr \<Rightarrow> (addr \<times> string) option \<Rightarrow> heap \<Rightarrow> heap \<Rightarrow> atree \<Rightarrow> bool" where
  "grown p a nm h g w \<longleftrightarrow> seg g p (Some a) [w] None \<and> aname w = nm \<and> distinct (owned w) \<and>
     (\<forall>x. x \<notin> set (owned w) \<longrightarrow> g x = h x) \<and> (\<forall>x\<in>set (owned w) - {a} - set (ptrs nm). h x = None)"

text \<open>
  How a call in memory agrees with the call on values: \<open>ok\<close> is what a success leaves, \<open>bad\<close> what a failure leaves, be it
  of the text or of an allocation.
\<close>

definition agrees :: "bool \<Rightarrow> ('a \<Rightarrow> heap \<Rightarrow> bool) \<Rightarrow> (heap \<Rightarrow> bool) \<Rightarrow> 'a presult \<Rightarrow> hresult \<Rightarrow> bool" where
  "agrees tot ok bad pr hr \<longleftrightarrow>
     \<not> tot \<and> (\<exists>g. hr = HFailed g \<and> bad g) \<or>
     (case pr of
        Parsed x r \<Rightarrow> (\<exists>g. hr = HParsed g r \<and> ok x g)
      | Failed e \<Rightarrow> (\<exists>g. hr = HFailed g \<and> bad g)
      | PUndef u \<Rightarrow> hr = HUndef u
      | No_Fuel \<Rightarrow> hr = HNo_Fuel)"

lemma agrees_Parsed: "ok x g \<Longrightarrow> agrees tot ok bad (Parsed x r) (HParsed g r)"
  by (simp add: agrees_def)

lemma agrees_Failed: "bad g \<Longrightarrow> agrees tot ok bad (Failed e) (HFailed g)"
  by (simp add: agrees_def)

lemma agrees_no_memory: "\<not> tot \<Longrightarrow> bad g \<Longrightarrow> agrees tot ok bad pr (HFailed g)"
  by (simp add: agrees_def)

lemma agrees_bind:
  assumes "agrees tot ok bad pr hr" "\<And>x r g. pr = Parsed x r \<Longrightarrow> ok x g \<Longrightarrow> agrees tot ok' bad' (f x r) (k g r)" "\<And>g. bad g \<Longrightarrow> bad' g"
  shows "agrees tot ok' bad' (pbind pr f) (hbind hr k)"
proof -
  consider g where "\<not> tot" "hr = HFailed g" "bad g" | x r g where "pr = Parsed x r" "hr = HParsed g r" "ok x g"
    | e g where "pr = Failed e" "hr = HFailed g" "bad g" | u where "pr = PUndef u" "hr = HUndef u" | "pr = No_Fuel" "hr = HNo_Fuel"
    using assms(1) by (cases pr) (auto simp: agrees_def)
  then show ?thesis
  proof cases
    case 1
    then show ?thesis using assms(3) by (auto intro: agrees_no_memory)
  next
    case 2
    then show ?thesis using assms(2) by simp
  next
    case 3
    then show ?thesis using assms(3) by (auto intro: agrees_Failed)
  qed (simp_all add: agrees_def)
qed

lemma agrees_mono:
  assumes "agrees tot ok bad pr hr" "\<And>x r g. pr = Parsed x r \<Longrightarrow> ok x g \<Longrightarrow> ok' x g" "\<And>g. bad g \<Longrightarrow> bad' g"
  shows "agrees tot ok' bad' pr hr"
  using assms by (cases pr) (auto simp: agrees_def)

definition value_ok :: "addr option \<Rightarrow> addr \<Rightarrow> (addr \<times> string) option \<Rightarrow> heap \<Rightarrow> cJsonDap \<Rightarrow> heap \<Rightarrow> bool" where
  "value_ok p a nm h x g \<longleftrightarrow> (\<exists>w. grown p a nm h g w \<and> tree_of w = set_name (map_option snd nm) x)"

definition value_bad :: "addr option \<Rightarrow> addr \<Rightarrow> (addr \<times> string) option \<Rightarrow> heap \<Rightarrow> heap \<Rightarrow> bool" where
  "value_bad p a nm h g \<longleftrightarrow> (\<exists>w. grown p a nm h g w)"

lemma finite_heap: "finite (dom h) \<Longrightarrow> (\<forall>x. x \<notin> set xs \<longrightarrow> g x = h x) \<Longrightarrow> finite (dom (g :: heap))"
  by (rule finite_subset [of _ "dom h \<union> set xs"]) auto

lemma grown_finite: "grown p a nm h g w \<Longrightarrow> finite (dom h) \<Longrightarrow> finite (dom g)"
  by (rule finite_heap [of h "owned w"]) (auto simp: grown_def)

text \<open>A node without children: only its own fields, and possibly its value string, have been written.\<close>

lemma blank_apart: "blank p t nm a h \<Longrightarrow> a \<notin> set (ptrs nm)"
  by (auto simp: blank_def chars_at_def ptrs_def split: option.splits)

lemma grown_leaf:
  assumes "blank p t nm a h" "\<not> is_ref t'"
    "g = h(a \<mapsto> Cell \<lparr>c_next = None, c_prev = p, c_child = None, c_type = t', c_valuestring = None, c_valueint = i, c_valuedouble = d,
       c_string = map_option fst nm\<rparr>)"
  shows "grown p a nm h g (ANode a t' None i d nm [])"
  using assms blank_apart [OF assms(1)]
  by (auto simp: grown_def blank_def ptrs_def chars_at_def split: option.splits)

lemma grown_blank: "blank p t nm a h \<Longrightarrow> grown p a nm h h (ANode a t None 0 (Fin 0) nm [])"
  by (rule grown_leaf [of p t nm a h]) (auto simp: blank_def)

lemma grown_string:
  assumes "blank p t nm a h" "h sa = None"
    "g = h(sa \<mapsto> Chars v, a \<mapsto> Cell \<lparr>c_next = None, c_prev = p, c_child = None, c_type = cJsonDap_String, c_valuestring = Some sa,
       c_valueint = 0, c_valuedouble = Fin 0, c_string = map_option fst nm\<rparr>)"
  shows "grown p a nm h g (ANode a cJsonDap_String (Some (sa, v)) 0 (Fin 0) nm [])"
  using assms blank_apart [OF assms(1)]
  by (auto simp: grown_def blank_def ptrs_def chars_at_def is_ref_def cjson_types split: option.splits)

section \<open>Chains of elements\<close>

text \<open>The two loops on values, in the form of the loop in memory.\<close>

fun parse_loop :: "(string \<Rightarrow> cJsonDap presult) \<Rightarrow> char \<Rightarrow> (cJsonDap list \<Rightarrow> cJsonDap) \<Rightarrow> nat \<Rightarrow> cJsonDap list \<Rightarrow> string \<Rightarrow> cJsonDap presult" where
  "parse_loop ev close mk 0 acc s = No_Fuel"
| "parse_loop ev close mk (Suc k) acc s =
     (if prefix '','' s then pbind (ev (tl s)) (\<lambda>x r. parse_loop ev close mk k (acc @ [x]) (skip r))
      else if prefix [close] s then Parsed (mk acc) (tl s)
      else Failed s)"

definition parse_member :: "(string \<Rightarrow> cJsonDap presult) \<Rightarrow> string \<Rightarrow> cJsonDap presult" where
  "parse_member pv s = pbind (parse_name s) (\<lambda>key r1. pbind (pv r1) (\<lambda>x r. Parsed (set_name (Some key) x) r))"

lemma pbind_assoc: "pbind (pbind p f) g = pbind p (\<lambda>x r. pbind (f x r) g)"
  by (cases p) auto

lemma parse_items_loop: "parse_items pv k acc s = parse_loop (\<lambda>s. pv (skip s)) (CHR '']'') (\<lambda>cs. set_children cs cJSON_CreateArray) k acc s"
  by (induction k arbitrary: acc s) simp_all

lemma parse_members_loop: "parse_members pv k acc s = parse_loop (parse_member pv) (CHR ''}'') (\<lambda>cs. set_children cs cJSON_CreateObject) k acc s"
  by (induction k arbitrary: acc s) (simp_all add: parse_member_def pbind_assoc)

text \<open>\<open>fresh_tree\<close>: as \<open>grown\<close>, for a node that had no name before and may have got one.\<close>

definition fresh_tree :: "addr option \<Rightarrow> addr \<Rightarrow> heap \<Rightarrow> heap \<Rightarrow> atree \<Rightarrow> bool" where
  "fresh_tree p a h g w \<longleftrightarrow> seg g p (Some a) [w] None \<and> distinct (owned w) \<and>
     (\<forall>x. x \<notin> set (owned w) \<longrightarrow> g x = h x) \<and> (\<forall>x\<in>set (owned w) - {a}. h x = None)"

definition elem_ok :: "addr option \<Rightarrow> addr \<Rightarrow> heap \<Rightarrow> cJsonDap \<Rightarrow> heap \<Rightarrow> bool" where
  "elem_ok p a h x g \<longleftrightarrow> (\<exists>w. fresh_tree p a h g w \<and> tree_of w = x)"

definition elem_bad :: "addr option \<Rightarrow> addr \<Rightarrow> heap \<Rightarrow> heap \<Rightarrow> bool" where
  "elem_bad p a h g \<longleftrightarrow> (\<exists>w. fresh_tree p a h g w)"

text \<open>The chain \<open>ts\<close> has been extended by \<open>us\<close>.\<close>

definition extended :: "addr option \<Rightarrow> atree list \<Rightarrow> atree list \<Rightarrow> heap \<Rightarrow> heap \<Rightarrow> bool" where
  "extended q ts us h g \<longleftrightarrow> seg g None q (ts @ us) None \<and> distinct (owned_list (ts @ us)) \<and>
     (\<forall>x. x \<notin> set (owned_list (ts @ us)) \<longrightarrow> g x = h x) \<and> (\<forall>x\<in>set (owned_list us). h x = None)"

definition loop_ok :: "(cJsonDap list \<Rightarrow> cJsonDap) \<Rightarrow> addr option \<Rightarrow> atree list \<Rightarrow> heap \<Rightarrow> cJsonDap \<Rightarrow> heap \<Rightarrow> bool" where
  "loop_ok mk q ts h x g \<longleftrightarrow> (\<exists>us. extended q ts us h g \<and> x = mk (map tree_of (ts @ us)))"

definition loop_bad :: "addr option \<Rightarrow> atree list \<Rightarrow> heap \<Rightarrow> heap \<Rightarrow> bool" where
  "loop_bad q ts h g \<longleftrightarrow> (\<exists>us. extended q ts us h g)"

lemma extended_refl: "seg h None q ts None \<Longrightarrow> distinct (owned_list ts) \<Longrightarrow> extended q ts [] h h"
  by (simp add: extended_def)

lemma extended_trans: "extended q ts us h g \<Longrightarrow> extended q (ts @ us) vs g k \<Longrightarrow> extended q ts (us @ vs) h k"
  unfolding extended_def by auto

lemma append_blank:
  assumes "seg h None q ts None" "distinct (owned_list ts)" "ts \<noteq> []" "h a = None"
  obtains g1 g where "store (node_addr (last ts)) (\<lambda>n. n \<lparr>c_next := Some a\<rparr>) (heap_New_Item a h) = Some g1"
    "store a (\<lambda>n. n \<lparr>c_prev := Some (node_addr (last ts))\<rparr>) g1 = Some g"
    "blank (Some (node_addr (last ts))) 0 None a g" "seg g None q ts (Some a)"
    "\<forall>x. x \<notin> set (owned_list ts) \<longrightarrow> x \<noteq> a \<longrightarrow> g x = h x"
proof -
  define b where "b = node_addr (last ts)"
  let ?h = "heap_New_Item a h"
  have a: "a \<notin> set (owned_list ts)" using seg_dom [OF assms(1)] assms(4) by auto
  then have "seg ?h None q ts None" using assms(1) by (subst seg_cong [where h = h]) (auto simp: heap_New_Item_def malloc_def)
  from link_next [OF this assms(2), of "Some a"] obtain g where g: "store b (\<lambda>n. n \<lparr>c_next := Some a\<rparr>) ?h = Some g"
    "seg g None q ts (Some a)" "\<forall>x. x \<notin> set (owned_list ts) \<longrightarrow> g x = ?h x" using assms(3) by (auto simp: store_if_def last_of_def b_def)
  have ga: "g a = Some (Cell new_cell)" using g(3) a by (simp add: heap_New_Item_def malloc_def)
  let ?g = "g(a \<mapsto> Cell (new_cell \<lparr>c_prev := Some b\<rparr>))"
  have "seg ?g None q ts (Some a)" using g(2) a by (subst seg_cong [where h = g]) auto
  moreover have "blank (Some b) 0 None a ?g" by (simp add: blank_def new_cell_def is_ref_def chars_at_def)
  moreover have "store a (\<lambda>n. n \<lparr>c_prev := Some b\<rparr>) g = Some ?g" using ga by (simp add: store_def)
  ultimately show thesis using that [of g ?g] g(1,3) unfolding b_def by (simp add: heap_New_Item_def malloc_def)
qed

lemma extend_step:
  assumes "seg g None q ts (Some a)" "distinct (owned_list ts)" "ts \<noteq> []" "h a = None" "seg h None q ts None"
    "\<forall>x. x \<notin> set (owned_list ts) \<longrightarrow> x \<noteq> a \<longrightarrow> g x = h x" "fresh_tree (Some (node_addr (last ts))) a g k w"
  shows "extended q ts [w] h k"
proof -
  from assms(7) have w: "seg k (Some (node_addr (last ts))) (Some a) [w] None" "distinct (owned w)" "\<forall>x. x \<notin> set (owned w) \<longrightarrow> k x = g x"
    "\<forall>x\<in>set (owned w) - {a}. g x = None" by (simp_all add: fresh_tree_def)
  have aw: "a \<in> set (owned w)" using node_of_seg [OF w(1)] node_addr_owned [of w] by simp
  have a: "a \<notin> set (owned_list ts)" using seg_dom [OF assms(5)] assms(4) by auto
  have d: "set (owned w) \<inter> set (owned_list ts) = {}" using w(4) seg_dom [OF assms(1)] a by (auto simp: subset_iff disjoint_iff) force?
  then have "seg k None q ts (Some a)" using assms(1) w(3) by (subst seg_cong [where h = g]) auto
  then have "seg k None q (ts @ [w]) None" using w(1) assms(3) seg_append [of k None q ts "[w]" None] by (auto simp: last_of_def)
  moreover have "\<forall>x\<in>set (owned w). h x = None" using w(4) assms(4,6) d by (metis DiffI IntI empty_iff singletonD)
  ultimately show ?thesis using d w(2,3) assms(2,6) aw by (auto simp: extended_def)
qed

text \<open>A container whose children are a chain of fresh trees.\<close>

lemma grown_container:
  assumes "blank p T nm a h" "h c = None"
    "g0 = h(c \<mapsto> Cell new_cell, a \<mapsto> Cell \<lparr>c_next = None, c_prev = p, c_child = Some c, c_type = T, c_valuestring = None, c_valueint = 0,
        c_valuedouble = Fin 0, c_string = map_option fst nm\<rparr>)"
    "seg g None (Some c) us None" "distinct (owned_list us)" "us \<noteq> []"
    "\<forall>x. x \<notin> set (owned_list us) \<longrightarrow> g x = g0 x" "\<forall>x\<in>set (owned_list us) - {c}. g0 x = None"
  shows "grown p a nm h g (ANode a T None 0 (Fin 0) nm us)"
proof -
  have a: "h a \<noteq> None" "a \<noteq> c" "a \<notin> set (ptrs nm)" using assms(1,2) blank_apart [OF assms(1)] by (auto simp: blank_def)
  have nm: "\<forall>x\<in>set (ptrs nm). h x \<noteq> None \<and> x \<noteq> c" using assms(1,2)
    by (auto simp: blank_def chars_at_def ptrs_def split: option.splits)
  have g0: "g0 a \<noteq> None" "\<And>x. x \<noteq> a \<Longrightarrow> x \<noteq> c \<Longrightarrow> g0 x = h x" by (simp_all add: assms(3))
  have a': "a \<notin> set (owned_list us)" using assms(8) a(2) g0(1) by (metis Diff_iff singletonD)
  have nm': "x \<notin> set (owned_list us)" if "x \<in> set (ptrs nm)" for x
  proof -
    have "x \<noteq> a" "x \<noteq> c" "h x \<noteq> None" using that nm a(3) by auto
    then show ?thesis using g0(2) [of x] assms(8) by auto
  qed
  have c: "c \<in> set (owned_list us)" using assms(4,6) node_of_seg [of g None c "hd us" "tl us" None] node_addr_owned [of "hd us"]
    by (cases us) auto
  have "chars_at g nm" using assms(1,7) nm nm' a(3) g0(2)
    by (auto simp: blank_def chars_at_def ptrs_def split: option.splits)
  then have "seg g p (Some a) [ANode a T None 0 (Fin 0) nm us] None"
    using assms(1,3,4,7) a' by (auto simp: blank_def chars_at_def)
  moreover have "distinct (owned (ANode a T None 0 (Fin 0) nm us))" using assms(5) a(3) a' nm'
    by (auto simp: ptrs_def split: option.splits)
  moreover have "g x = h x" if "x \<notin> set (owned (ANode a T None 0 (Fin 0) nm us))" for x
    using that assms(7) g0(2) [of x] c by auto
  moreover have "h x = None" if "x \<in> set (owned_list us)" for x
    using that assms(2,8) g0(2) [of x] a' by (metis Diff_iff singletonD)
  ultimately show ?thesis by (auto simp: grown_def ptrs_def split: option.splits)
qed

section \<open>The interface of an element\<close>

locale element = allocation alloc tot for alloc tot +
  fixes ev :: "string \<Rightarrow> cJsonDap presult" and me :: "addr \<Rightarrow> string \<Rightarrow> heap \<Rightarrow> hresult"
  assumes element: "finite (dom h) \<Longrightarrow> blank p 0 None a h \<Longrightarrow> agrees tot (elem_ok p a h) (elem_bad p a h) (ev s) (me a s h)"
begin

lemma loop:
  "finite (dom h) \<Longrightarrow> seg h None q ts None \<Longrightarrow> distinct (owned_list ts) \<Longrightarrow> ts \<noteq> [] \<Longrightarrow>
     agrees tot (loop_ok mk q ts h) (loop_bad q ts h)
       (parse_loop ev close mk k (map tree_of ts) s) (mem_parse_loop me close alloc k (node_addr (last ts)) s h)"
proof (induction k arbitrary: ts s h)
  case (Suc k)
  have refl: "extended q ts [] h h" using Suc.prems(2,3) by (rule extended_refl)
  then have bad: "loop_bad q ts h h" by (auto simp: loop_bad_def)
  let ?b = "node_addr (last ts)"
  consider "\<not> prefix '','' s" | "prefix '','' s" "alloc h = None" | a where "prefix '','' s" "alloc h = Some a" by fastforce
  then show ?case
  proof cases
    case 1
    have "loop_ok mk q ts h (mk (map tree_of ts)) h" using refl by (auto simp: loop_ok_def intro!: exI [of _ "[]"])
    then show ?thesis using 1 bad by (simp add: agrees_Parsed agrees_Failed)
  next
    case 2
    then show ?thesis using alloc_tot [of h] bad by (auto intro: agrees_no_memory)
  next
    case (3 a)
    have a: "h a = None" using alloc_new [OF Suc.prems(1) 3(2)] .
    from append_blank [OF Suc.prems(2-4) a] obtain g1 g where
      st: "store ?b (\<lambda>n. n \<lparr>c_next := Some a\<rparr>) (heap_New_Item a h) = Some g1" "store a (\<lambda>n. n \<lparr>c_prev := Some ?b\<rparr>) g1 = Some g"
      and g: "blank (Some ?b) 0 None a g" "seg g None q ts (Some a)" "\<forall>x. x \<notin> set (owned_list ts) \<longrightarrow> x \<noteq> a \<longrightarrow> g x = h x" .
    have f: "finite (dom g)" using g(3) by (intro finite_heap [OF Suc.prems(1), where xs = "a # owned_list ts"]) auto
    note step = extend_step [OF g(2) Suc.prems(3,4) a Suc.prems(2) g(3)]
    have "agrees tot (loop_ok mk q ts h) (loop_bad q ts h) (pbind (ev (tl s)) (\<lambda>x r. parse_loop ev close mk k (map tree_of ts @ [x]) (skip r)))
        (hbind (me a (tl s) g) (\<lambda>h r. mem_parse_loop me close alloc k a (skip r) h))"
    proof (rule agrees_bind [OF element [OF f g(1)]])
      fix x r g'
      assume "elem_ok (Some ?b) a g x g'"
      then obtain w where w: "fresh_tree (Some ?b) a g g' w" "tree_of w = x" by (auto simp: elem_ok_def)
      have e: "extended q ts [w] h g'" by (rule step [OF w(1)])
      have n: "node_addr w = a" using w(1) node_of_seg [of g' "Some ?b" a w "[]" None] by (auto simp: fresh_tree_def)
      have f': "finite (dom g')" using w(1) by (intro finite_heap [OF f, where xs = "owned w"]) (auto simp: fresh_tree_def)
      have "agrees tot (loop_ok mk q (ts @ [w]) g') (loop_bad q (ts @ [w]) g')
          (parse_loop ev close mk k (map tree_of (ts @ [w])) (skip r)) (mem_parse_loop me close alloc k (node_addr (last (ts @ [w]))) (skip r) g')"
        using e by (intro Suc.IH f') (simp_all add: extended_def)
      then have "agrees tot (loop_ok mk q ts h) (loop_bad q ts h)
          (parse_loop ev close mk k (map tree_of (ts @ [w])) (skip r)) (mem_parse_loop me close alloc k (node_addr (last (ts @ [w]))) (skip r) g')"
      proof (rule agrees_mono)
        show "loop_ok mk q ts h y k'" if k: "loop_ok mk q (ts @ [w]) g' y k'" for y k'
        proof -
          from k obtain us where "extended q (ts @ [w]) us g' k'" "y = mk (map tree_of ((ts @ [w]) @ us))" by (auto simp: loop_ok_def)
          then show ?thesis using extended_trans [OF e, of us k'] by (auto simp: loop_ok_def intro!: exI [of _ "[w] @ us"])
        qed
        show "loop_bad q ts h k'" if "loop_bad q (ts @ [w]) g' k'" for k' using that extended_trans [OF e] by (auto simp: loop_bad_def)
      qed
      then show "agrees tot (loop_ok mk q ts h) (loop_bad q ts h) (parse_loop ev close mk k (map tree_of ts @ [x]) (skip r))
          (mem_parse_loop me close alloc k a (skip r) g')" using w(2) n by simp
    qed (use step in \<open>auto simp: loop_bad_def elem_bad_def\<close>)
    then show ?thesis using 3 by (simp add: hstore_Some [OF st(1)] hstore_Some [OF st(2)])
  qed
qed (simp add: agrees_def)

text \<open>The first element and the rest of a container, whose type has been set.\<close>

lemma container:
  assumes f: "finite (dom h)" and b: "blank p T nm a h" and al: "alloc h = Some c"
  shows "agrees tot (value_ok p a nm h) (value_bad p a nm h)
     (pbind (ev v) (\<lambda>x r. parse_loop ev close (Item T None 0 (Fin 0) None) k [x] (skip r)))
     (hstore a (\<lambda>n. n \<lparr>c_child := Some c\<rparr>) (heap_New_Item c h) (\<lambda>g.
        hbind (me c v g) (\<lambda>g r. mem_parse_loop me close alloc k c (skip r) g)))"
proof -
  have c: "h c = None" using alloc_new [OF f al] .
  let ?n = "\<lparr>c_next = None, c_prev = p, c_child = None, c_type = T, c_valuestring = None, c_valueint = 0,
        c_valuedouble = Fin 0, c_string = map_option fst nm\<rparr>"
  define g0 where "g0 = h(c \<mapsto> Cell new_cell, a \<mapsto> Cell (?n \<lparr>c_child := Some c\<rparr>))"
  have a: "h a = Some (Cell ?n)" "a \<noteq> c" using b c by (auto simp: blank_def)
  have st: "hstore a (\<lambda>n. n \<lparr>c_child := Some c\<rparr>) (heap_New_Item c h) k = k g0" for k
    unfolding g0_def using a by (subst hstore_Cell [where n = ?n]) (simp_all add: heap_New_Item_def malloc_def)
  have fg: "finite (dom g0)" using f by (simp add: g0_def)
  have bc: "blank None 0 None c g0" using a(2) by (simp add: g0_def blank_def new_cell_def is_ref_def chars_at_def)
  have g0: "g0 = h(c \<mapsto> Cell new_cell, a \<mapsto> Cell \<lparr>c_next = None, c_prev = p, c_child = Some c, c_type = T, c_valuestring = None,
      c_valueint = 0, c_valuedouble = Fin 0, c_string = map_option fst nm\<rparr>)" by (simp add: g0_def)
  note grown = grown_container [OF b c g0]
  have all: "grown p a nm h k (ANode a T None 0 (Fin 0) nm ([w] @ us))" if w: "fresh_tree None c g0 g w" and e: "extended (Some c) [w] us g k" for g k w us
  proof (rule grown)
    show "\<forall>x. x \<notin> set (owned_list ([w] @ us)) \<longrightarrow> k x = g0 x" using e w by (auto simp: extended_def fresh_tree_def)
    have "x \<in> set (owned w) \<or> g0 x = g x" for x using w by (auto simp: fresh_tree_def)
    then show "\<forall>x\<in>set (owned_list ([w] @ us)) - {c}. g0 x = None" using e w by (auto simp: extended_def fresh_tree_def)
  qed (use e in \<open>simp_all add: extended_def\<close>)
  show ?thesis unfolding st
  proof (rule agrees_bind [OF element [OF fg bc]])
    fix x r g
    assume "elem_ok None c g0 x g"
    then obtain w where w: "fresh_tree None c g0 g w" "tree_of w = x" by (auto simp: elem_ok_def)
    have n: "node_addr w = c" using w(1) node_of_seg [of g None c w "[]" None] by (auto simp: fresh_tree_def)
    have fg': "finite (dom g)" using w(1) by (intro finite_heap [OF fg, where xs = "owned w"]) (auto simp: fresh_tree_def)
    have "agrees tot (loop_ok (Item T None 0 (Fin 0) None) (Some c) [w] g) (loop_bad (Some c) [w] g)
        (parse_loop ev close (Item T None 0 (Fin 0) None) k (map tree_of [w]) (skip r)) (mem_parse_loop me close alloc k (node_addr (last [w])) (skip r) g)"
      using w(1) by (intro loop fg') (simp_all add: fresh_tree_def)
    then have "agrees tot (loop_ok (Item T None 0 (Fin 0) None) (Some c) [w] g) (loop_bad (Some c) [w] g)
        (parse_loop ev close (Item T None 0 (Fin 0) None) k [x] (skip r)) (mem_parse_loop me close alloc k c (skip r) g)"
      using w(2) n by simp
    then show "agrees tot (value_ok p a nm h) (value_bad p a nm h) (parse_loop ev close (Item T None 0 (Fin 0) None) k [x] (skip r))
        (mem_parse_loop me close alloc k c (skip r) g)"
    proof (rule agrees_mono)
      show "value_ok p a nm h y k'" if "loop_ok (Item T None 0 (Fin 0) None) (Some c) [w] g y k'" for y k'
        using that all [OF w(1)] by (force simp: loop_ok_def value_ok_def set_name_def)
      show "value_bad p a nm h k'" if "loop_bad (Some c) [w] g k'" for k'
        using that all [OF w(1)] by (auto simp: loop_bad_def value_bad_def)
    qed
  next
    fix g
    assume "elem_bad None c g0 g"
    then obtain w where w: "fresh_tree None c g0 g w" by (auto simp: elem_bad_def)
    then have "grown p a nm h g (ANode a T None 0 (Fin 0) nm [w])" by (intro grown) (auto simp: fresh_tree_def)
    then show "value_bad p a nm h g" by (auto simp: value_bad_def)
  qed
qed

end

section \<open>Strings and names\<close>

lemma blank_Cell:
  assumes "blank p t nm a h"
  shows "h a = Some (Cell \<lparr>c_next = None, c_prev = p, c_child = None, c_type = t, c_valuestring = None, c_valueint = 0,
    c_valuedouble = Fin 0, c_string = map_option fst nm\<rparr>)"
  using assms by (simp add: blank_def)

lemma fresh_tree_blank: "blank p t None a h \<Longrightarrow> fresh_tree p a h h (ANode a t None 0 (Fin 0) None [])"
  using grown_blank [of p t None a h] by (simp add: grown_def fresh_tree_def ptrs_def)

lemma fresh_tree_named:
  assumes "grown p a (Some (sa, k)) g g' w" "h sa = None" "\<forall>x. x \<noteq> a \<longrightarrow> x \<noteq> sa \<longrightarrow> g x = h x"
  shows "fresh_tree p a h g' w"
proof -
  from assms(1) have w: "seg g' p (Some a) [w] None" "aname w = Some (sa, k)" "distinct (owned w)" "\<forall>x. x \<notin> set (owned w) \<longrightarrow> g' x = g x"
    "\<forall>x\<in>set (owned w) - {a} - {sa}. g x = None" by (simp_all add: grown_def ptrs_def)
  have "a \<in> set (owned w)" using node_of_seg [OF w(1)] node_addr_owned [of w] by simp
  moreover have "sa \<in> set (owned w)" using aname_owned [of w] w(2) by (simp add: ptrs_def)
  moreover have "h x = None" if "x \<in> set (owned w)" "x \<noteq> a" for x
    using that w(5) assms(2,3) by (cases "x = sa") auto
  ultimately show ?thesis using w(1,3,4) assms(3) unfolding fresh_tree_def by (metis DiffE singletonI)
qed

text \<open>A string: the buffer is new, and the node points to it.\<close>

definition string_ok :: "addr option \<Rightarrow> addr \<Rightarrow> (addr \<times> string) option \<Rightarrow> heap \<Rightarrow> string \<Rightarrow> heap \<Rightarrow> bool" where
  "string_ok p a nm h v g \<longleftrightarrow> (\<exists>sa. h sa = None \<and> g = h(sa \<mapsto> Chars v,
     a \<mapsto> Cell \<lparr>c_next = None, c_prev = p, c_child = None, c_type = cJsonDap_String, c_valuestring = Some sa,
        c_valueint = 0, c_valuedouble = Fin 0, c_string = map_option fst nm\<rparr>))"

definition name_ok :: "addr option \<Rightarrow> addr \<Rightarrow> heap \<Rightarrow> string \<Rightarrow> heap \<Rightarrow> bool" where
  "name_ok p a h k g \<longleftrightarrow> (\<exists>sa. blank p cJsonDap_String (Some (sa, k)) a g \<and> h sa = None \<and> (\<forall>x. x \<noteq> a \<longrightarrow> x \<noteq> sa \<longrightarrow> g x = h x))"

context allocation
begin

lemma string_in_memory:
  assumes "finite (dom h)" "blank p t nm a h"
  shows "agrees tot (string_ok p a nm h) (\<lambda>g. g = h) (parse_string s) (mem_parse_string alloc a s h)"
proof -
  have stored: "agrees tot (string_ok p a nm h) (\<lambda>g. g = h) (Parsed v r)
      (hstore a (\<lambda>n. n \<lparr>c_valuestring := Some out\<rparr>) (malloc out (Chars v) h) (\<lambda>h.
       hstore a (\<lambda>n. n \<lparr>c_type := cJsonDap_String\<rparr>) h (\<lambda>h. HParsed h r)))" if "alloc h = Some out" for v r out
  proof -
    have out: "h out = None" "a \<noteq> out" using alloc_new [OF assms(1) that] assms(2) by (auto simp: blank_def)
    have "hstore a (\<lambda>n. n \<lparr>c_valuestring := Some out\<rparr>) (malloc out (Chars v) h) (\<lambda>h.
       hstore a (\<lambda>n. n \<lparr>c_type := cJsonDap_String\<rparr>) h (\<lambda>h. HParsed h r)) = HParsed (h(out \<mapsto> Chars v,
       a \<mapsto> Cell \<lparr>c_next = None, c_prev = p, c_child = None, c_type = cJsonDap_String, c_valuestring = Some out,
        c_valueint = 0, c_valuedouble = Fin 0, c_string = map_option fst nm\<rparr>)) r"
      using out(2) blank_Cell [OF assms(2)] by (simp add: malloc_def hstore_def store_def load_def)
    then show ?thesis using out(1) by (auto intro!: agrees_Parsed simp: string_ok_def)
  qed
  have first: "scan_len (tl s) = Undef u \<Longrightarrow> s \<noteq> [] \<Longrightarrow> hd s = CHR 0x22 \<Longrightarrow> parse_string s = PUndef u" for u
    by (cases s) (simp_all add: parse_string_def)
  have quote: "s = [] \<or> hd s \<noteq> CHR 0x22 \<Longrightarrow> parse_string s = Failed s" by (cases s) (simp_all add: parse_string_def)
  consider "s = [] \<or> hd s \<noteq> CHR 0x22" | q t u where "s = q # t" "q = CHR 0x22" "scan_len t = Undef u"
    | q t n where "s = q # t" "q = CHR 0x22" "scan_len t = Ok n" "alloc h = None"
    | q t n out where "s = q # t" "q = CHR 0x22" "scan_len t = Ok n" "alloc h = Some out"
    by (cases s; cases "scan_len (tl s)"; cases "alloc h") auto
  then show ?thesis
  proof cases
    case 1
    then show ?thesis using quote by (cases s) (auto simp: mem_parse_string_def intro: agrees_Failed)
  next
    case 2
    then show ?thesis using first [of u] by (simp add: mem_parse_string_def agrees_def)
  next
    case 3
    then show ?thesis using alloc_tot [of h] by (auto simp: mem_parse_string_def intro: agrees_no_memory)
  next
    case 4
    then show ?thesis using stored [OF 4(4)] by (cases "parse_string s") (auto simp: mem_parse_string_def agrees_def)
  qed
qed

lemma name_in_memory:
  assumes "finite (dom h)" "blank p 0 None a h"
  shows "agrees tot (name_ok p a h) (elem_bad p a h) (parse_name s) (mem_parse_name alloc a s h)"
  unfolding parse_name_def mem_parse_name_def
proof (rule agrees_bind [OF string_in_memory [OF assms]])
  show "elem_bad p a h g" if "g = h" for g using fresh_tree_blank [OF assms(2)] that by (auto simp: elem_bad_def)
next
  fix k r g
  assume "string_ok p a None h k g"
  then obtain sa where sa: "h sa = None" "g = h(sa \<mapsto> Chars k, a \<mapsto> Cell \<lparr>c_next = None, c_prev = p, c_child = None, c_type = cJsonDap_String,
      c_valuestring = Some sa, c_valueint = 0, c_valuedouble = Fin 0, c_string = None\<rparr>)" by (auto simp: string_ok_def)
  have a: "a \<noteq> sa" using assms(2) sa(1) by (auto simp: blank_def)
  let ?g = "h(sa \<mapsto> Chars k, a \<mapsto> Cell \<lparr>c_next = None, c_prev = p, c_child = None, c_type = cJsonDap_String, c_valuestring = None,
      c_valueint = 0, c_valuedouble = Fin 0, c_string = Some sa\<rparr>)"
  have st: "hstore a (\<lambda>n. n \<lparr>c_string := c_valuestring n\<rparr>) g (\<lambda>h. hstore a (\<lambda>n. n \<lparr>c_valuestring := None\<rparr>) h f) = f ?g" for f
    by (simp add: sa(2) hstore_def store_def load_def)
  have b: "blank p cJsonDap_String (Some (sa, k)) a ?g" using a by (simp add: blank_def is_ref_def cjson_types chars_at_def)
  have "fresh_tree p a h ?g (ANode a cJsonDap_String None 0 (Fin 0) (Some (sa, k)) [])"
    using fresh_tree_named [where h = h, OF grown_blank [OF b] sa(1)] a by simp
  then have "elem_bad p a h ?g" "name_ok p a h k ?g" using b sa(1) a by (auto simp: elem_bad_def name_ok_def intro!: exI [of _ sa])
  then show "agrees tot (name_ok p a h) (elem_bad p a h)
     (case skip r of c # r' \<Rightarrow> if c = CHR '':'' then Parsed k (skip r') else Failed (skip r) | [] \<Rightarrow> Failed [])
     (hstore a (\<lambda>n. n \<lparr>c_string := c_valuestring n\<rparr>) g (\<lambda>h. hstore a (\<lambda>n. n \<lparr>c_valuestring := None\<rparr>) h (\<lambda>h.
         let v = skip r in if prefix '':'' v then HParsed h (skip (tl v)) else HFailed h)))"
    unfolding st by (cases "skip r") (auto intro: agrees_Parsed agrees_Failed)
qed

end

section \<open>The interface of the recursive call\<close>

lemma unnamed_id: "name_of x = None \<Longrightarrow> set_name None x = x"
  by (cases x) (simp add: set_name_def)

lemma fresh_tree_grown: "grown p a None h g w \<Longrightarrow> fresh_tree p a h g w"
  by (simp add: grown_def fresh_tree_def ptrs_def)

lemma grown_before: "grown p a nm g k w \<Longrightarrow> \<forall>x. x \<noteq> a \<longrightarrow> g x = h x \<Longrightarrow> grown p a nm h k w"
proof -
  assume k: "grown p a nm g k w" "\<forall>x. x \<noteq> a \<longrightarrow> g x = h x"
  have "a \<in> set (owned w)" using k(1) node_of_seg [of k p a w "[]" None] node_addr_owned [of w] by (simp add: grown_def)
  then show ?thesis using k unfolding grown_def by (metis Diff_iff singletonI)
qed

lemma value_before:
  "\<forall>x. x \<noteq> a \<longrightarrow> g x = h x \<Longrightarrow> agrees tot (value_ok p a nm g) (value_bad p a nm g) pr hr \<Longrightarrow> agrees tot (value_ok p a nm h) (value_bad p a nm h) pr hr"
  by (erule agrees_mono) (auto simp: value_ok_def value_bad_def intro: grown_before)

lemma container_nodes:
  "(\<lambda>cs. set_children cs cJSON_CreateArray) = Item cJsonDap_Array None 0 (Fin 0) None"
  "(\<lambda>cs. set_children cs cJSON_CreateObject) = Item cJsonDap_Object None 0 (Fin 0) None"
  by (simp_all add: fun_eq_iff create_defs cJSON_CreateArray_def cJSON_CreateObject_def)

lemma type_set:
  assumes "blank p t nm a h" "\<not> is_ref T"
  obtains g where "store a (\<lambda>n. n \<lparr>c_type := T\<rparr>) h = Some g" "blank p T nm a g" "\<forall>x. x \<noteq> a \<longrightarrow> g x = h x"
    "grown p a nm h g (ANode a T None 0 (Fin 0) nm [])"
proof -
  let ?g = "h(a \<mapsto> Cell \<lparr>c_next = None, c_prev = p, c_child = None, c_type = T, c_valuestring = None, c_valueint = 0,
    c_valuedouble = Fin 0, c_string = map_option fst nm\<rparr>)"
  have "blank p T nm a ?g" using assms blank_apart [OF assms(1)]
    by (auto simp: blank_def chars_at_def ptrs_def split: option.splits)
  then show thesis using that [of ?g] blank_Cell [OF assms(1)] grown_leaf [OF assms refl] by (simp add: store_def load_def)
qed

lemma value_bad_blank: "blank p t nm a h \<Longrightarrow> value_bad p a nm h h"
  using grown_blank [of p t nm a h] by (auto simp: value_bad_def)

lemma value_elem:
  assumes "agrees tot (value_ok p a None h) (value_bad p a None h) pr hr" "\<And>x r. pr = Parsed x r \<Longrightarrow> name_of x = None"
  shows "agrees tot (elem_ok p a h) (elem_bad p a h) pr hr"
  using assms(1)
proof (rule agrees_mono)
  show "elem_ok p a h x g" if "pr = Parsed x r" "value_ok p a None h x g" for x r g
    using that(2) unnamed_id [OF assms(2) [OF that(1)]] by (auto simp: value_ok_def elem_ok_def intro: fresh_tree_grown)
qed (auto simp: value_bad_def elem_bad_def intro: fresh_tree_grown)

locale value_in_memory = allocation alloc tot for alloc tot +
  fixes pv :: "string \<Rightarrow> cJsonDap presult" and mv :: "addr \<Rightarrow> string \<Rightarrow> heap \<Rightarrow> hresult"
  assumes unnamed: "pv s = Parsed x r \<Longrightarrow> name_of x = None"
    and value_agrees: "finite (dom h) \<Longrightarrow> blank p t nm a h \<Longrightarrow> agrees tot (value_ok p a nm h) (value_bad p a nm h) (pv s) (mv a s h)"
begin

sublocale array: element alloc tot "\<lambda>s. pv (skip s)" "\<lambda>a s. mv a (skip s)"
  by unfold_locales (rule value_elem [OF value_agrees unnamed])

sublocale object: element alloc tot "parse_member pv" "mem_parse_member mv alloc"
proof
  fix h :: heap and p a s
  assume f: "finite (dom h)" and b: "blank p 0 None a h"
  show "agrees tot (elem_ok p a h) (elem_bad p a h) (parse_member pv s) (mem_parse_member mv alloc a s h)"
    unfolding parse_member_def mem_parse_member_def
  proof (rule agrees_bind [OF name_in_memory [OF f b]])
    fix k r g
    assume "name_ok p a h k g"
    then obtain sa where g: "blank p cJsonDap_String (Some (sa, k)) a g" "h sa = None" "\<forall>x. x \<noteq> a \<longrightarrow> x \<noteq> sa \<longrightarrow> g x = h x"
      by (auto simp: name_ok_def)
    have fin: "finite (dom g)" using g(3) by (intro finite_heap [OF f, where xs = "[a, sa]"]) auto
    have "agrees tot (elem_ok p a h) (elem_bad p a h) (pbind (pv r) (\<lambda>x r. Parsed (set_name (Some k) x) r)) (hbind (mv a r g) HParsed)"
    proof (rule agrees_bind [OF value_agrees [OF fin g(1)]])
      fix x r' g'
      assume "value_ok p a (Some (sa, k)) g x g'"
      then obtain w where w: "grown p a (Some (sa, k)) g g' w" "tree_of w = set_name (Some k) x" by (auto simp: value_ok_def)
      have "elem_ok p a h (set_name (Some k) x) g'" using fresh_tree_named [OF w(1) g(2,3)] w(2) by (auto simp: elem_ok_def)
      then show "agrees tot (elem_ok p a h) (elem_bad p a h) (Parsed (set_name (Some k) x) r') (HParsed g' r')" by (rule agrees_Parsed)
    next
      fix g'
      assume "value_bad p a (Some (sa, k)) g g'"
      then obtain w where w: "grown p a (Some (sa, k)) g g' w" by (auto simp: value_bad_def)
      show "elem_bad p a h g'" using fresh_tree_named [OF w g(2,3)] by (auto simp: elem_bad_def)
    qed
    moreover have "hbind hr HParsed = hr" for hr by (cases hr) simp_all
    ultimately show "agrees tot (elem_ok p a h) (elem_bad p a h) (pbind (pv r) (\<lambda>x r. Parsed (set_name (Some k) x) r)) (mv a r g)" by simp
  qed
qed

lemma array_in_memory:
  assumes "finite (dom h)" "blank p t nm a h"
  shows "agrees tot (value_ok p a nm h) (value_bad p a nm h) (parse_array pv s) (mem_parse_array mv alloc a s h)"
proof -
  let ?v = "skip (tl s)"
  obtain g where g: "store a (\<lambda>n. n \<lparr>c_type := cJsonDap_Array\<rparr>) h = Some g" "blank p cJsonDap_Array nm a g" "\<forall>x. x \<noteq> a \<longrightarrow> g x = h x"
    "grown p a nm h g (ANode a cJsonDap_Array None 0 (Fin 0) nm [])"
    using type_set [OF assms(2), of cJsonDap_Array] by (auto simp: is_ref_def cjson_types)
  have f: "finite (dom g)" using g(3) by (intro finite_heap [OF assms(1), where xs = "[a]"]) auto
  have bad: "value_bad p a nm h g" using g(4) by (auto simp: value_bad_def)
  have ok: "value_ok p a nm h cJSON_CreateArray g" using g(4)
    by (auto simp: value_ok_def cJSON_CreateArray_def create_defs set_name_def intro!: exI [of _ "ANode a cJsonDap_Array None 0 (Fin 0) nm []"])
  consider "\<not> prefix ''['' s" | "prefix ''['' s" "prefix '']'' ?v" | "prefix ''['' s" "\<not> prefix '']'' ?v" "alloc g = None"
    | c where "prefix ''['' s" "\<not> prefix '']'' ?v" "alloc g = Some c" by fastforce
  then show ?thesis
  proof cases
    case 1
    then show ?thesis using value_bad_blank [OF assms(2)] by (simp add: parse_array_def mem_parse_array_def agrees_Failed)
  next
    case 2
    then show ?thesis using ok by (simp add: parse_array_def mem_parse_array_def hstore_Some [OF g(1)] Let_def agrees_Parsed)
  next
    case 3
    then show ?thesis using bad alloc_tot [of g]
      by (auto simp: mem_parse_array_def hstore_Some [OF g(1)] Let_def intro: agrees_no_memory)
  next
    case (4 c)
    show ?thesis using value_before [OF g(3) array.container [OF f g(2) 4(3), of ?v "CHR '']''" "length ?v"]] 4
      by (simp add: parse_array_def mem_parse_array_def hstore_Some [OF g(1)] Let_def parse_items_loop container_nodes)
  qed
qed

lemma object_in_memory:
  assumes "finite (dom h)" "blank p t nm a h"
  shows "agrees tot (value_ok p a nm h) (value_bad p a nm h) (parse_object pv s) (mem_parse_object mv alloc a s h)"
proof -
  let ?v = "skip (tl s)"
  obtain g where g: "store a (\<lambda>n. n \<lparr>c_type := cJsonDap_Object\<rparr>) h = Some g" "blank p cJsonDap_Object nm a g" "\<forall>x. x \<noteq> a \<longrightarrow> g x = h x"
    "grown p a nm h g (ANode a cJsonDap_Object None 0 (Fin 0) nm [])"
    using type_set [OF assms(2), of cJsonDap_Object] by (auto simp: is_ref_def cjson_types)
  have f: "finite (dom g)" using g(3) by (intro finite_heap [OF assms(1), where xs = "[a]"]) auto
  have bad: "value_bad p a nm h g" using g(4) by (auto simp: value_bad_def)
  have ok: "value_ok p a nm h cJSON_CreateObject g" using g(4)
    by (auto simp: value_ok_def cJSON_CreateObject_def create_defs set_name_def intro!: exI [of _ "ANode a cJsonDap_Object None 0 (Fin 0) nm []"])
  consider "\<not> prefix ''{'' s" | "prefix ''{'' s" "prefix ''}'' ?v" | "prefix ''{'' s" "\<not> prefix ''}'' ?v" "alloc g = None"
    | c where "prefix ''{'' s" "\<not> prefix ''}'' ?v" "alloc g = Some c" by fastforce
  then show ?thesis
  proof cases
    case 1
    then show ?thesis using value_bad_blank [OF assms(2)] by (simp add: parse_object_def mem_parse_object_def agrees_Failed)
  next
    case 2
    then show ?thesis using ok by (simp add: parse_object_def mem_parse_object_def hstore_Some [OF g(1)] Let_def agrees_Parsed)
  next
    case 3
    then show ?thesis using bad alloc_tot [of g]
      by (auto simp: mem_parse_object_def hstore_Some [OF g(1)] Let_def intro: agrees_no_memory)
  next
    case (4 c)
    show ?thesis using value_before [OF g(3) object.container [OF f g(2) 4(3), of ?v "CHR ''}''" "length ?v"]] 4
      by (simp add: parse_object_def mem_parse_object_def hstore_Some [OF g(1)] Let_def parse_members_loop container_nodes
          parse_member_def pbind_assoc)
  qed
qed

end

text \<open>An allocator returns an address that is not in use, or fails; \<open>never_fails\<close> is one that does not run out of memory.\<close>

definition allocator :: "(heap \<Rightarrow> addr option) \<Rightarrow> bool" where
  "allocator alloc \<longleftrightarrow> (\<forall>h a. finite (dom h) \<longrightarrow> alloc h = Some a \<longrightarrow> h a = None)"

definition never_fails :: "(heap \<Rightarrow> addr option) \<Rightarrow> bool" where
  "never_fails alloc \<longleftrightarrow> (\<forall>h. alloc h \<noteq> None)"

lemma allocation_of: "allocator alloc \<Longrightarrow> allocation alloc (never_fails alloc)"
  by unfold_locales (simp_all add: allocator_def never_fails_def)

lemma parse_number_node: "parse_number s = Parsed x r \<Longrightarrow> x = Item cJsonDap_Number None (valueint x) (valuedouble x) None []"
  by (auto simp: parse_number_def Let_def split: prod.splits outcome.splits)

lemma parse_number_unnamed: "parse_number s = Parsed x r \<Longrightarrow> name_of x = None"
  by (drule parse_number_node) (metis cJsonDap.sel(5))

lemma parse_loop_unnamed: "parse_loop ev close (Item T None 0 (Fin 0) None) k acc s = Parsed x r \<Longrightarrow> name_of x = None"
  by (induction k arbitrary: acc s) (auto simp: pbind_eq_Parsed split: if_splits)

lemma container_unnamed: "parse_array pv s = Parsed x r \<Longrightarrow> name_of x = None" "parse_object pv s = Parsed x r \<Longrightarrow> name_of x = None"
  by (auto simp: parse_array_def parse_object_def Let_def pbind_eq_Parsed parse_items_loop parse_members_loop container_nodes
      cJSON_CreateArray_def cJSON_CreateObject_def create_defs split: if_splits dest: parse_loop_unnamed)

lemma parse_value_unnamed: "parse_value n s = Parsed x r \<Longrightarrow> name_of x = None"
  using parse_number_unnamed [of s x r] container_unnamed [of "parse_value (n - 1)" s x r]
  by (cases n) (auto simp: create_defs cJSON_CreateNull_def cJSON_CreateFalse_def string_item_def pbind_eq_Parsed split: if_splits)

lemma string_value_in_memory:
  assumes "allocation alloc tot" "finite (dom h)" "blank p t nm a h"
  shows "agrees tot (value_ok p a nm h) (value_bad p a nm h) (pbind (parse_string s) (\<lambda>v r. Parsed (string_item v) r)) (mem_parse_string alloc a s h)"
proof -
  have "agrees tot (value_ok p a nm h) (value_bad p a nm h) (pbind (parse_string s) (\<lambda>v r. Parsed (string_item v) r))
     (hbind (mem_parse_string alloc a s h) HParsed)"
  proof (rule agrees_bind [OF allocation.string_in_memory [OF assms]])
    fix v r g
    assume "string_ok p a nm h v g"
    then obtain sa where sa: "h sa = None" "g = h(sa \<mapsto> Chars v, a \<mapsto> Cell \<lparr>c_next = None, c_prev = p, c_child = None, c_type = cJsonDap_String,
        c_valuestring = Some sa, c_valueint = 0, c_valuedouble = Fin 0, c_string = map_option fst nm\<rparr>)" by (auto simp: string_ok_def)
    have "value_ok p a nm h (string_item v) g" using grown_string [OF assms(3) sa]
      by (auto simp: value_ok_def string_item_def set_name_def intro!: exI [of _ "ANode a cJsonDap_String (Some (sa, v)) 0 (Fin 0) nm []"])
    then show "agrees tot (value_ok p a nm h) (value_bad p a nm h) (Parsed (string_item v) r) (HParsed g r)" by (rule agrees_Parsed)
  qed (use value_bad_blank [OF assms(3)] in simp)
  moreover have "hbind hr HParsed = hr" for hr by (cases hr) simp_all
  ultimately show ?thesis by simp
qed

text \<open>The values without children and without strings.\<close>

lemma leaf_in_memory:
  assumes "blank p t nm a h" "\<not> is_ref T"
    and "\<And>t. f \<lparr>c_next = None, c_prev = p, c_child = None, c_type = t, c_valuestring = None, c_valueint = 0,
      c_valuedouble = Fin 0, c_string = map_option fst nm\<rparr> = \<lparr>c_next = None, c_prev = p, c_child = None, c_type = T, c_valuestring = None,
      c_valueint = i, c_valuedouble = d, c_string = map_option fst nm\<rparr>"
  shows "agrees tot (value_ok p a nm h) (value_bad p a nm h) (Parsed (Item T None i d None []) r) (hstore a f h (\<lambda>h. HParsed h r))"
  using grown_leaf [OF assms(1,2) refl, of i d]
  by (auto simp: value_ok_def hstore_Cell [where f = f and h = h, OF blank_Cell [OF assms(1)]] assms(3) set_name_def
      intro!: agrees_Parsed exI [of _ "ANode a T None i d nm []"])

lemma number_in_memory:
  assumes "blank p t nm a h" shows "agrees tot (value_ok p a nm h) (value_bad p a nm h) (parse_number s) (mem_parse_number a s h)"
proof (cases "parse_number s")
  case (Parsed x r)
  then have x: "x = Item cJsonDap_Number None (valueint x) (valuedouble x) None []" by (rule parse_number_node)
  have "agrees tot (value_ok p a nm h) (value_bad p a nm h) (Parsed (Item cJsonDap_Number None (valueint x) (valuedouble x) None []) r)
      (hstore a (\<lambda>n. n \<lparr>c_valuedouble := valuedouble x, c_valueint := valueint x, c_type := cJsonDap_Number\<rparr>) h (\<lambda>h. HParsed h r))"
    by (rule leaf_in_memory [OF assms]) (simp_all add: is_ref_def cjson_types)
  moreover have "type_of x = cJsonDap_Number" using x by (metis cJsonDap.sel(1))
  ultimately show ?thesis using Parsed x by (simp add: mem_parse_number_def)
qed (use value_bad_blank [OF assms] in \<open>simp_all add: mem_parse_number_def agrees_def\<close>)

lemma parse_value_in_memory: "allocation alloc tot \<Longrightarrow> value_in_memory alloc tot (parse_value n) (mem_parse_value alloc n)"
proof (induction n)
  case 0
  show ?case by (intro value_in_memory.intro 0 value_in_memory_axioms.intro) (simp_all add: agrees_def)
next
  case (Suc n)
  note IH = Suc.IH [OF Suc.prems]
  show ?case
  proof (intro value_in_memory.intro Suc.prems value_in_memory_axioms.intro)
    show "name_of x = None" if "parse_value (Suc n) s = Parsed x r" for s x r using that by (rule parse_value_unnamed)
    show "agrees tot (value_ok p a nm h) (value_bad p a nm h) (parse_value (Suc n) s) (mem_parse_value alloc (Suc n) a s h)"
      if f: "finite (dom h)" and b: "blank p t nm a h" for h p t nm a s
    proof -
      have leaves: "agrees tot (value_ok p a nm h) (value_bad p a nm h) (Parsed cJSON_CreateNull r) (hstore a (\<lambda>n. n \<lparr>c_type := cJsonDap_Null\<rparr>) h (\<lambda>h. HParsed h r))"
        "agrees tot (value_ok p a nm h) (value_bad p a nm h) (Parsed cJSON_CreateFalse r) (hstore a (\<lambda>n. n \<lparr>c_type := cJsonDap_False\<rparr>) h (\<lambda>h. HParsed h r))"
        "agrees tot (value_ok p a nm h) (value_bad p a nm h) (Parsed (Item cJsonDap_True None 1 (Fin 0) None []) r)
           (hstore a (\<lambda>n. n \<lparr>c_type := cJsonDap_True, c_valueint := 1\<rparr>) h (\<lambda>h. HParsed h r))" for r
        unfolding cJSON_CreateNull_def cJSON_CreateFalse_def create_defs cJsonDap.sel
        by (rule leaf_in_memory [OF b]; simp add: is_ref_def cjson_types)+
      have failed: "agrees tot (value_ok p a nm h) (value_bad p a nm h) (Failed s) (HFailed h)"
        using value_bad_blank [OF b] by (rule agrees_Failed)
      show ?thesis unfolding parse_value.simps mem_parse_value.simps
        using leaves failed string_value_in_memory [OF Suc.prems f b] number_in_memory [OF b]
          value_in_memory.array_in_memory [OF IH f b] value_in_memory.object_in_memory [OF IH f b] by presburger
    qed
  qed
qed

section \<open>Parsing a document\<close>

lemma new_item_blank: "blank None 0 None c (heap_New_Item c h)"
  by (simp add: blank_def heap_New_Item_def malloc_def new_cell_def is_ref_def chars_at_def)

text \<open>A tree that has grown from a new root: it is all that the memory has more than before, and deleting it gives that memory back.\<close>

lemma grown_root:
  assumes "grown None c None (heap_New_Item c h) g w" "h c = None"
  shows "node_addr w = c" "root_at g w" "\<forall>y. y \<notin> set (owned w) \<longrightarrow> g y = h y" "\<forall>y\<in>set (owned w). h y = None"
    "heap_Delete (Some c) g = Some h"
proof -
  from assms(1) have w: "seg g None (Some c) [w] None" "distinct (owned w)" "\<forall>x. x \<notin> set (owned w) \<longrightarrow> g x = heap_New_Item c h x"
    "\<forall>x\<in>set (owned w) - {c}. heap_New_Item c h x = None" by (simp_all add: grown_def ptrs_def)
  show n: "node_addr w = c" using node_of_seg [OF w(1)] .
  then have c: "c \<in> set (owned w)" using node_addr_owned [of w] by simp
  show r: "root_at g w" using w(1,2) n by (simp add: root_at_def)
  show f: "\<forall>y. y \<notin> set (owned w) \<longrightarrow> g y = h y" "\<forall>y\<in>set (owned w). h y = None"
    using w(3,4) c assms(2) by (auto simp: heap_New_Item_def malloc_def split: if_splits)
  have "g |` (- set (owned w)) = h" using f by (auto simp: fun_eq_iff restrict_map_def)
  then show "heap_Delete (Some c) g = Some h" using heap_Delete_seg [of g None "Some c" "[w]"] r n by (simp add: root_at_def)
qed

text \<open>
  On success the memory has grown by exactly the tree that the parser on values gives; when the text is not accepted, or an
  allocation fails, it is the memory from before.
\<close>

lemma mem_cJSON_Parse_spec:
  assumes "allocator alloc" "finite (dom h)"
  shows "\<not> never_fails alloc \<and> mem_cJSON_Parse alloc src h = Ok (Some (None, h)) \<or>
    (case cJSON_Parse src of
      Parsed x r \<Rightarrow> \<exists>w g. mem_cJSON_Parse alloc src h = Ok (Some (Some (node_addr w), g)) \<and> root_at g w \<and> tree_of w = x \<and>
         (\<forall>y. y \<notin> set (owned w) \<longrightarrow> g y = h y) \<and> (\<forall>y\<in>set (owned w). h y = None)
    | Failed e \<Rightarrow> mem_cJSON_Parse alloc src h = Ok (Some (None, h))
    | PUndef u \<Rightarrow> mem_cJSON_Parse alloc src h = Undef u
    | No_Fuel \<Rightarrow> False)"
proof (cases "alloc h")
  case None
  then show ?thesis by (auto simp: mem_cJSON_Parse_def never_fails_def)
next
  case (Some c)
  let ?s = "skip (c_str src)" and ?h = "heap_New_Item c h" and ?tot = "never_fails alloc"
  note V = parse_value_in_memory [OF allocation_of [OF assms(1)]]
  have c: "h c = None" using assms Some by (simp add: allocator_def)
  have f: "finite (dom ?h)" using assms(2) by (simp add: heap_New_Item_def malloc_def)
  have m: "agrees ?tot (value_ok None c None ?h) (value_bad None c None ?h) (cJSON_Parse src) (mem_parse_value alloc (parse_fuel ?s) c ?s ?h)"
    unfolding cJSON_Parse_def Let_def by (rule value_in_memory.value_agrees [OF V f new_item_blank])
  have bad: "mem_cJSON_Parse alloc src h = Ok (Some (None, h))"
    if "mem_parse_value alloc (parse_fuel ?s) c ?s ?h = HFailed g" "value_bad None c None ?h g" for g
    using that grown_root(5) [where h = h, OF _ c] by (auto simp: mem_cJSON_Parse_def Some value_bad_def)
  show ?thesis
  proof (cases "\<not> ?tot \<and> (\<exists>g. mem_parse_value alloc (parse_fuel ?s) c ?s ?h = HFailed g \<and> value_bad None c None ?h g)")
    case True
    then show ?thesis using bad by blast
  next
    case False
    show ?thesis
    proof (cases "cJSON_Parse src")
      case (Parsed x r)
      with m False obtain g where g: "mem_parse_value alloc (parse_fuel ?s) c ?s ?h = HParsed g r" "value_ok None c None ?h x g"
        by (auto simp: agrees_def)
      have "name_of x = None" using parse_value_unnamed [of "parse_fuel ?s" ?s x r] Parsed by (simp add: cJSON_Parse_def Let_def)
      then obtain w where w: "grown None c None ?h g w" "tree_of w = x" using g(2) unnamed_id [of x] by (auto simp: value_ok_def)
      show ?thesis using Parsed g(1) grown_root [where h = h, OF w(1) c] w(2) by (auto simp: mem_cJSON_Parse_def Some Let_def intro!: exI [of _ w])
    next
      case (Failed e)
      then show ?thesis using m False bad by (auto simp: agrees_def)
    next
      case No_Fuel
      then show ?thesis using parse_value_total [of ?s "parse_fuel ?s"] by (simp add: cJSON_Parse_def Let_def parse_fuel_def)
    next
      case (PUndef u)
      then show ?thesis using m False by (auto simp: agrees_def mem_cJSON_Parse_def Some Let_def)
    qed
  qed
qed

text \<open>A chain in memory is determined by its tree.\<close>

lemma seg_head: "seg h p q ts r \<Longrightarrow> q = (case ts of [] \<Rightarrow> r | t # _ \<Rightarrow> Some (node_addr t))"
  by (cases ts; cases "hd ts") auto

lemma chars_at_determined: "chars_at h v \<Longrightarrow> chars_at g v \<Longrightarrow> x \<in> set (ptrs v) \<Longrightarrow> g x = h x"
  by (auto simp: chars_at_def ptrs_def split: option.splits)

lemma seg_determined:
  "seg h p q ts r \<Longrightarrow> seg g p q ts r \<Longrightarrow> x \<in> set (owned_list ts) \<Longrightarrow> g x = h x"
proof (induction h p q ts r rule: seg.induct)
  case (2 h p q a t vs i d nm ks ts r)
  from "2.prems"(1) obtain u y where h: "seg h None u ks None" "seg h (Some a) y ts r" "chars_at h vs" "chars_at h nm"
    "h a = Some (Cell \<lparr>c_next = y, c_prev = p, c_child = u, c_type = t, c_valuestring = map_option fst vs,
       c_valueint = i, c_valuedouble = d, c_string = map_option fst nm\<rparr>)" by auto
  from "2.prems"(2) obtain u' y' where g: "seg g None u' ks None" "seg g (Some a) y' ts r" "chars_at g vs" "chars_at g nm"
    "g a = Some (Cell \<lparr>c_next = y', c_prev = p, c_child = u', c_type = t, c_valuestring = map_option fst vs,
       c_valueint = i, c_valuedouble = d, c_string = map_option fst nm\<rparr>)" by auto
  have "u' = u" "y' = y" using seg_head [OF h(1)] seg_head [OF g(1)] seg_head [OF h(2)] seg_head [OF g(2)] by simp_all
  then show ?case using "2.IH"(1) [OF h(1)] "2.IH"(2) [OF h(2)] g h "2.prems"(3)
      chars_at_determined [OF h(3) g(3)] chars_at_determined [OF h(4) g(4)] by auto
qed simp

text \<open>What was parsed can be deleted, and then nothing is left of it.\<close>

lemma parse_then_delete:
  assumes "allocator alloc" "finite (dom h)" "mem_cJSON_Parse alloc src h = Ok (Some (p, g))"
  shows "heap_Delete p g = Some h"
proof (cases p)
  case None
  then show ?thesis using mem_cJSON_Parse_spec [OF assms(1,2), of src] assms(3) by (auto split: presult.splits)
next
  case (Some c)
  with mem_cJSON_Parse_spec [OF assms(1,2), of src] assms(3) obtain w where w: "p = Some (node_addr w)" "root_at g w"
    "\<forall>y. y \<notin> set (owned w) \<longrightarrow> g y = h y" "\<forall>y\<in>set (owned w). h y = None" by (auto split: presult.splits)
  have "g |` (- set (owned w)) = h" using w(3,4) by (auto simp: fun_eq_iff restrict_map_def)
  then show ?thesis using heap_Delete_seg [of g None p "[w]"] w(1,2) by (simp add: root_at_def)
qed

text \<open>Two allocators: a memory without bound, and one of \<open>n\<close> cells, which runs out.\<close>

definition first_free :: "heap \<Rightarrow> addr option" where
  "first_free h = Some (LEAST a. h a = None)"

definition first_free_below :: "nat \<Rightarrow> heap \<Rightarrow> addr option" where
  "first_free_below n h = List.find (\<lambda>a. h a = None) [0..<n]"

lemma first_free_allocator: "allocator first_free" "never_fails first_free"
proof -
  have "h (LEAST a. h a = None) = None" if f: "finite (dom h)" for h :: heap
  proof -
    obtain a where "a \<notin> dom h" using f infinite_UNIV_nat by (metis ex_new_if_finite)
    then show ?thesis by (intro LeastI [of "\<lambda>a. h a = None" a]) auto
  qed
  then show "allocator first_free" "never_fails first_free" by (auto simp: allocator_def never_fails_def first_free_def)
qed

lemma first_free_below_allocator: "allocator (first_free_below n)"
  by (auto simp: allocator_def first_free_below_def find_Some_iff)

interpretation unbounded: value_in_memory first_free True "parse_value n" "mem_parse_value first_free n" for n
  using parse_value_in_memory [OF allocation_of [OF first_free_allocator(1)]] first_free_allocator(2) by simp

interpretation bounded: value_in_memory "first_free_below k" "never_fails (first_free_below k)" "parse_value n"
    "mem_parse_value (first_free_below k) n" for k n
  by (rule parse_value_in_memory [OF allocation_of [OF first_free_below_allocator]])

end
