(* ===== verification/Dap_CJson_Print.thy ===== *)
theory Dap_CJson_Print
  imports Dap_CJson
begin

text \<open>
  The printer of \<^verbatim>\<open>dap/cJSON.cpp\<close>.  Every \<^verbatim>\<open>print_\<close> function first computes the size of the
  buffer it allocates and then fills it; the model computes both and answers
  \<open>Undef Over_Write\<close> when the text and its NUL do not fit.  A null result is \<open>Ok None\<close>.
  The lemmas at the end show that the sizes computed for strings, arrays and objects are
  always large enough.
\<close>

section \<open>Numbers and strings\<close>

text \<open>A text of known length written into a buffer of \<open>sz\<close> bytes, with its NUL.\<close>

definition fill :: "nat \<Rightarrow> string \<Rightarrow> string outcome" where
  "fill sz s = (if length s + 1 \<le> sz then Ok s else Undef Over_Write)"

definition print_number :: "cJsonDap \<Rightarrow> string outcome" where
  "print_number item =
     (let d = valuedouble item in
      if dle (dabs (dsub (i2d (valueint item)) d)) (Fin DBL_EPSILON) \<and> dle d (i2d INT_MAX) \<and> dle (i2d INT_MIN) d
      then fill 21 (show_int (valueint item))
      else if dle (dabs (dsub (dfloor d) d)) (Fin DBL_EPSILON) then fill 64 (fmt_f0 d)
      else if dlt (dabs d) (Fin (1 / 10 ^ 6)) \<or> dlt (Fin (10 ^ 9)) (dabs d) then fill 64 (fmt_e d)
      else fill 64 (fmt_f d))"

definition is_special :: "char \<Rightarrow> bool" where
  "is_special c \<longleftrightarrow> c \<in> {CHR 0x22, CHR 0x5C, CHR 0x08, CHR 0x0C, CHR 0x0A, CHR 0x0D, CHR 0x09}"

text \<open>The count of one character in the first loop of \<^verbatim>\<open>print_string_ptr\<close>.\<close>

definition esc_count :: "char \<Rightarrow> nat" where
  "esc_count c = 1 + (if is_special c then 1 else if (of_char c :: nat) < 32 then 5 else 0)"

definition hex_char :: "nat \<Rightarrow> char" where
  "hex_char d = (if d < 10 then char_of (48 + d) else char_of (87 + d))"

text \<open>\<^verbatim>\<open>sprintf(ptr2, "u%04x", token)\<close> for one byte.\<close>

definition u_escape :: "char \<Rightarrow> string" where
  "u_escape c = ''u00'' @ [hex_char (of_char c div 16), hex_char (of_char c mod 16)]"

definition esc_char :: "char \<Rightarrow> string" where
  "esc_char c =
     (if 31 < (of_char c :: nat) \<and> c \<noteq> CHR 0x22 \<and> c \<noteq> CHR 0x5C then [c]
      else CHR 0x5C #
        (if c = CHR 0x5C then [CHR 0x5C] else if c = CHR 0x22 then [CHR 0x22]
         else if c = CHR 0x08 then ''b'' else if c = CHR 0x0C then ''f''
         else if c = CHR 0x0A then ''n'' else if c = CHR 0x0D then ''r''
         else if c = CHR 0x09 then ''t'' else u_escape c))"

definition print_string_ptr :: "string option \<Rightarrow> string outcome" where
  "print_string_ptr str =
     (case str of
        None \<Rightarrow> Ok []
      | Some s0 \<Rightarrow>
         (let s = c_str s0; len = sum_list (map esc_count s)
          in fill (len + 3) ([CHR 0x22] @ concat (map esc_char s) @ [CHR 0x22])))"

definition print_string :: "cJsonDap \<Rightarrow> string outcome" where
  "print_string item = print_string_ptr (valuestring item)"

section \<open>Arrays and objects\<close>

text \<open>
  The results of the recursive calls, gathered as the loops gather them: the loop of
  \<^verbatim>\<open>print_array\<close> stops at the first null, that of \<^verbatim>\<open>print_object\<close> goes on to the end.
\<close>

fun array_entries :: "string option outcome list \<Rightarrow> string list option outcome" where
  "array_entries [] = Ok (Some [])"
| "array_entries (x # xs) =
     obind x (\<lambda>r. case r of None \<Rightarrow> Ok None
                  | Some e \<Rightarrow> omap (map_option ((#) e)) (array_entries xs))"

definition array_len :: "bool \<Rightarrow> string list \<Rightarrow> nat" where
  "array_len fmt es = 5 + sum_list (map (\<lambda>e. length e + 2 + (if fmt then 1 else 0)) es)"

fun join_array :: "bool \<Rightarrow> string list \<Rightarrow> string" where
  "join_array fmt [] = []"
| "join_array fmt [e] = e"
| "join_array fmt (e # es) = e @ '','' @ (if fmt then '' '' else []) @ join_array fmt es"

definition array_text :: "bool \<Rightarrow> string list \<Rightarrow> string" where
  "array_text fmt es = ''['' @ join_array fmt es @ '']''"

definition print_array :: "string option outcome list \<Rightarrow> bool \<Rightarrow> string option outcome" where
  "print_array rets fmt =
     obind (array_entries rets) (\<lambda>r. case r of
       None \<Rightarrow> Ok None
     | Some es \<Rightarrow> omap Some (fill (array_len fmt es) (array_text fmt es)))"

fun object_entries ::
  "(string option \<times> string option outcome) list \<Rightarrow> (string \<times> string) list option outcome" where
  "object_entries [] = Ok (Some [])"
| "object_entries ((k, x) # xs) =
     obind (print_string_ptr k) (\<lambda>str. obind x (\<lambda>ret. obind (object_entries xs) (\<lambda>rest.
       Ok (case (ret, rest) of (Some e, Some es) \<Rightarrow> Some ((str, e) # es) | _ \<Rightarrow> None))))"

definition object_len :: "nat \<Rightarrow> bool \<Rightarrow> (string \<times> string) list \<Rightarrow> nat" where
  "object_len depth fmt es =
     7 + (if fmt then depth else 0) +
     sum_list (map (\<lambda>(k, e). length e + length k + 2 + (if fmt then 2 + depth else 0)) es)"

definition indent :: "nat \<Rightarrow> bool \<Rightarrow> string" where
  "indent depth fmt = (if fmt then replicate depth (CHR '' '') else [])"

fun join_object :: "nat \<Rightarrow> bool \<Rightarrow> (string \<times> string) list \<Rightarrow> string" where
  "join_object depth fmt [] = []"
| "join_object depth fmt ((k, e) # es) =
     indent depth fmt @ k @ '':'' @ (if fmt then '' '' else []) @ e @
     (if es \<noteq> [] then '','' else []) @ (if fmt then [CHR 0x0A] else []) @ join_object depth fmt es"

definition object_text :: "nat \<Rightarrow> bool \<Rightarrow> (string \<times> string) list \<Rightarrow> string" where
  "object_text depth fmt es =
     ''{'' @ (if fmt then [CHR 0x0A] else []) @ join_object depth fmt es @ indent (depth - 1) fmt @ ''}''"

text \<open>The argument \<open>depth\<close> is the depth after the increment \<^verbatim>\<open>depth++\<close>.\<close>

definition print_object ::
  "(string option \<times> string option outcome) list \<Rightarrow> nat \<Rightarrow> bool \<Rightarrow> string option outcome" where
  "print_object rets depth fmt =
     obind (object_entries rets) (\<lambda>r. case r of
       None \<Rightarrow> Ok None
     | Some es \<Rightarrow> omap Some (fill (object_len depth fmt es) (object_text depth fmt es)))"

fun print_value :: "cJsonDap \<Rightarrow> nat \<Rightarrow> bool \<Rightarrow> string option outcome" where
  "print_value (Item t vs vi vd nm cs) depth fmt =
     (let k = t mod 256 in
      if k = cJsonDap_Null then Ok (Some ''null'')
      else if k = cJsonDap_False then Ok (Some ''false'')
      else if k = cJsonDap_True then Ok (Some ''true'')
      else if k = cJsonDap_Number then omap Some (print_number (Item t vs vi vd nm cs))
      else if k = cJsonDap_String then omap Some (print_string (Item t vs vi vd nm cs))
      else if k = cJsonDap_Array then print_array (map (\<lambda>c. print_value c (depth + 1) fmt) cs) fmt
      else if k = cJsonDap_Object
      then print_object (map (\<lambda>c. (name_of c, print_value c (depth + 1) fmt)) cs) (depth + 1) fmt
      else Ok None)"

definition cJSON_Print :: "cJsonDap \<Rightarrow> string option outcome" where
  "cJSON_Print item = print_value item 0 True"

definition cJSON_PrintUnformatted :: "cJsonDap \<Rightarrow> string option outcome" where
  "cJSON_PrintUnformatted item = print_value item 0 False"

section \<open>The computed sizes are enough\<close>

lemma length_esc_char: "length (esc_char c) = esc_count c"
  by (auto simp: esc_char_def esc_count_def is_special_def u_escape_def)

lemma length_concat_esc: "length (concat (map esc_char s)) = sum_list (map esc_count s)"
  by (induction s) (simp_all add: length_esc_char)

lemma print_string_ptr_defined:
  "print_string_ptr (Some s) = Ok ([CHR 0x22] @ concat (map esc_char (c_str s)) @ [CHR 0x22])"
  by (simp add: print_string_ptr_def Let_def fill_def length_concat_esc)

lemma length_join_array:
  "length (join_array fmt es) \<le> sum_list (map (\<lambda>e. length e + 2 + (if fmt then 1 else 0)) es)"
  by (induction fmt es rule: join_array.induct) auto

lemma length_join_object:
  "length (join_object depth fmt es) \<le>
     sum_list (map (\<lambda>(k, e). length e + length k + 2 + (if fmt then 2 + depth else 0)) es)"
  by (induction depth fmt es rule: join_object.induct) (auto simp: indent_def)

lemma fill_array: "fill (array_len fmt es) (array_text fmt es) = Ok (array_text fmt es)"
  using length_join_array [of fmt es] by (simp add: fill_def array_len_def array_text_def)

lemma fill_object: "fill (object_len depth fmt es) (object_text depth fmt es) = Ok (object_text depth fmt es)"
  using length_join_object [of depth fmt es]
  by (auto simp: fill_def object_len_def object_text_def indent_def)

lemma print_string_ptr_total: "defined (print_string_ptr k)"
  by (cases k) (simp_all add: print_string_ptr_defined, simp add: print_string_ptr_def)

lemma array_entries_defined: "(\<forall>x\<in>set xs. defined x) \<Longrightarrow> defined (array_entries xs)"
  by (induction xs) (auto simp: defined_iff omap_eq_Ok split: option.splits)

lemma object_entries_defined: "(\<forall>x\<in>set xs. defined (snd x)) \<Longrightarrow> defined (object_entries xs)"
proof (induction xs)
  case (Cons x xs)
  then show ?case using print_string_ptr_total [of "fst x"] by (cases x) (auto simp: defined_iff)
qed simp

lemma print_array_defined: "(\<forall>x\<in>set xs. defined x) \<Longrightarrow> defined (print_array xs fmt)"
  using array_entries_defined [of xs]
  by (auto simp: print_array_def defined_iff fill_array split: option.splits)

lemma print_object_defined: "(\<forall>x\<in>set xs. defined (snd x)) \<Longrightarrow> defined (print_object xs depth fmt)"
  using object_entries_defined [of xs]
  by (auto simp: print_object_def defined_iff fill_object split: option.splits)

text \<open>The numbers of a tree whose texts fit the fixed buffers of \<^verbatim>\<open>print_number\<close>.\<close>

fun numbers_fit :: "cJsonDap \<Rightarrow> bool" where
  "numbers_fit (Item t vs vi vd nm cs) \<longleftrightarrow>
     (t mod 256 = cJsonDap_Number \<longrightarrow> defined (print_number (Item t vs vi vd nm cs))) \<and>
     (\<forall>c\<in>set cs. numbers_fit c)"

lemma print_value_defined: "numbers_fit item \<Longrightarrow> defined (print_value item depth fmt)"
proof (induction item arbitrary: depth)
  case (Item t vs vi vd nm cs)
  have ch: "defined (print_value c d fmt)" if "c \<in> set cs" for c d
    using Item.IH [OF that] Item.prems that by simp
  have "defined (print_array (map (\<lambda>c. print_value c (depth + 1) fmt) cs) fmt)"
    by (rule print_array_defined) (use ch in auto)
  moreover have "defined (print_object (map (\<lambda>c. (name_of c, print_value c (depth + 1) fmt)) cs) (depth + 1) fmt)"
    by (rule print_object_defined) (use ch in auto)
  moreover have "defined (print_string (Item t vs vi vd nm cs))"
    by (simp add: print_string_def print_string_ptr_total)
  ultimately show ?case
    using Item.prems by (auto simp: Let_def defined_iff)
qed

section \<open>A number that does not fit\<close>

lemma length_show_nat_ge: "10 ^ k \<le> n \<Longrightarrow> k < length (show_nat n)"
proof (induction k arbitrary: n)
  case (Suc k)
  then have "10 ^ k \<le> n div 10" by (simp add: less_eq_div_iff_mult_less_eq mult.commute)
  moreover have "10 \<le> n" using Suc.prems one_le_power [of "10 :: nat" k] unfolding power_Suc by linarith
  ultimately show ?case using Suc.IH [of "n div 10"] by (subst show_nat.simps) simp
qed simp

lemma round_half_even_int: "round_half_even (of_int i) = i"
  by (simp add: round_half_even_def Let_def)

text \<open>\<^verbatim>\<open>sprintf(str, "%.0f", d)\<close> writes all digits of an integral number into 64 bytes.\<close>

lemma print_number_overflow:
  "10 ^ 63 \<le> i \<Longrightarrow> print_number (Item t vs vi (Fin (of_int i)) nm cs) = Undef Over_Write"
proof -
  assume i: "10 ^ 63 \<le> i"
  then have "\<not> dle (Fin (of_int i)) (i2d INT_MAX)"
    by (simp add: i2d_def int_limits)
  moreover have "dle (dabs (dsub (dfloor (Fin (of_int i))) (Fin (of_int i)))) (Fin DBL_EPSILON)"
    by (simp add: dsub_def rnd_def DBL_EPSILON_def)
  moreover have "\<bar>of_int i :: rat\<bar> = of_int i" using i by simp
  moreover have "63 < length (show_nat (nat i))" using i by (intro length_show_nat_ge) (simp add: le_nat_iff)
  ultimately show ?thesis by (simp add: print_number_def fill_def round_half_even_int)
qed

end
