(* ===== verification/Dap_CJson_Roundtrip.thy ===== *)
theory Dap_CJson_Roundtrip
  imports Dap_CJson_Parse Dap_CJson_Print
begin

text \<open>
  JSON documents as the protocol uses them (integers that fit \<^verbatim>\<open>int\<close>, strings without NUL) and
  the two directions of \<^verbatim>\<open>dap/cJSON.cpp\<close> on them: the printer writes the text of a document,
  formatted or not, and the parser reads that text back, whatever text follows it.
  \<open>node_of b nm j\<close> is the node of the document \<open>j\<close>; \<open>b\<close> is the \<^verbatim>\<open>valueint\<close> of its \<^verbatim>\<open>true\<close> nodes,
  which is 1 when the parser made them and 0 when \<^verbatim>\<open>cJSON_CreateTrue\<close> did.
\<close>

section \<open>Documents, their nodes and their texts\<close>

datatype json = JNull | JBool bool | JNum int | JStr string | JArr "json list" | JObj "(string \<times> json) list"

fun wf_json :: "json \<Rightarrow> bool" where
  "wf_json JNull \<longleftrightarrow> True"
| "wf_json (JBool b) \<longleftrightarrow> True"
| "wf_json (JNum i) \<longleftrightarrow> is_int32 i"
| "wf_json (JStr s) \<longleftrightarrow> no_nul s"
| "wf_json (JArr js) \<longleftrightarrow> list_all wf_json js"
| "wf_json (JObj ms) \<longleftrightarrow> list_all (\<lambda>(k, j). no_nul k \<and> wf_json j) ms"

fun node_of :: "int \<Rightarrow> string option \<Rightarrow> json \<Rightarrow> cJsonDap" where
  "node_of b nm JNull = Item cJsonDap_Null None 0 (Fin 0) nm []"
| "node_of b nm (JBool v) = Item (if v then cJsonDap_True else cJsonDap_False) None (if v then b else 0) (Fin 0) nm []"
| "node_of b nm (JNum i) = Item cJsonDap_Number None i (i2d i) nm []"
| "node_of b nm (JStr s) = Item cJsonDap_String (Some s) 0 (Fin 0) nm []"
| "node_of b nm (JArr js) = Item cJsonDap_Array None 0 (Fin 0) nm (map (\<lambda>j. node_of b None j) js)"
| "node_of b nm (JObj ms) = Item cJsonDap_Object None 0 (Fin 0) nm (map (\<lambda>(k, j). node_of b (Some k) j) ms)"

definition quote :: "string \<Rightarrow> string" where
  "quote s = [CHR 0x22] @ concat (map esc_char s) @ [CHR 0x22]"

fun json_text :: "bool \<Rightarrow> nat \<Rightarrow> json \<Rightarrow> string" where
  "json_text fmt d JNull = ''null''"
| "json_text fmt d (JBool v) = (if v then ''true'' else ''false'')"
| "json_text fmt d (JNum i) = show_int i"
| "json_text fmt d (JStr s) = quote s"
| "json_text fmt d (JArr js) = array_text fmt (map (\<lambda>j. json_text fmt (d + 1) j) js)"
| "json_text fmt d (JObj ms) =
     object_text (d + 1) fmt (map (\<lambda>(k, j). (quote k, json_text fmt (d + 1) j)) ms)"

lemma name_of_node_of [simp]: "name_of (node_of b nm j) = nm"
  by (cases j) auto

lemma set_name_node_of [simp]: "set_name k (node_of b nm j) = node_of b k j"
  by (cases j) (auto simp: set_name_def)

section \<open>Printing a document\<close>

lemma print_number_int: "is_int32 i \<Longrightarrow> print_number (Item t vs i (i2d i) nm cs) = Ok (show_int i)"
proof -
  assume i: "is_int32 i"
  then have "nat \<bar>i\<bar> < 10 ^ 10" by (auto simp: is_int32_def int_limits)
  then have "length (show_nat (nat \<bar>i\<bar>)) \<le> 10" by (rule length_show_nat_le) simp
  then have "length (show_int i) \<le> 11" by (auto simp: show_int_def)
  moreover have "dle (dabs (dsub (i2d i) (i2d i))) (Fin DBL_EPSILON)"
    by (simp add: dsub_int DBL_EPSILON_def) (simp add: i2d_def)
  ultimately show ?thesis using i by (simp add: print_number_def is_int32_def fill_def)
qed

lemma print_node_of:
  "wf_json j \<Longrightarrow> print_value (node_of b nm j) d fmt = Ok (Some (json_text fmt d j))"
proof (induction fmt d j arbitrary: nm rule: json_text.induct)
  case (5 fmt d js)
  have "array_entries (map (\<lambda>j. print_value (node_of b None j) (d + 1) fmt) js) =
        Ok (Some (map (\<lambda>j. json_text fmt (d + 1) j) js))"
    using 5 by (induction js) auto
  then show ?case by (simp add: cjson_types print_array_def comp_def fill_array)
next
  case (6 fmt d ms)
  have ih: "print_value (node_of b (Some k) j) (d + 1) fmt = Ok (Some (json_text fmt (d + 1) j))"
    if "(k, j) \<in> set ms" for k j
    using "6.IH" [OF that refl] "6.prems" that by (auto simp: list_all_iff)
  have "object_entries (map (\<lambda>(k, j). (Some k, print_value (node_of b (Some k) j) (d + 1) fmt)) ms) =
        Ok (Some (map (\<lambda>(k, j). (quote k, json_text fmt (d + 1) j)) ms))"
    using ih "6.prems" by (induction ms) (auto simp: print_string_ptr_defined quote_def)
  then show ?case
    by (simp add: cjson_types print_object_def comp_def case_prod_unfold fill_object)
qed (auto simp: cjson_types print_number_int print_string_def print_string_ptr_defined quote_def)

section \<open>Parsing a string\<close>

lemma hex_val_hex_char: "d < 16 \<Longrightarrow> hex_val (hex_char d) = Some d"
  by (simp add: hex_val_def hex_char_def Let_def)

lemma hex_char_neq:
  assumes "d < 16" shows "hex_char d \<noteq> CHR 0x22" "hex_char d \<noteq> CHR 0x5C" "is_hex (hex_char d)"
proof -
  have "hex_val (CHR 0x22) = None" "hex_val (CHR 0x5C) = None" by (simp_all add: hex_val_def)
  then show "hex_char d \<noteq> CHR 0x22" "hex_char d \<noteq> CHR 0x5C" "is_hex (hex_char d)"
    using hex_val_hex_char [OF assms] by (auto simp: is_hex_def)
qed

lemma char_div_mod_16: "(of_char c :: nat) div 16 < 16" "(of_char c :: nat) mod 16 < 16"
proof -
  have "(of_char c :: nat) < 256" by simp
  then show "(of_char c :: nat) div 16 < 16" by linarith
qed simp

lemmas u_escape_neq = hex_char_neq [OF char_div_mod_16(1)] hex_char_neq [OF char_div_mod_16(2)]

lemma scan_len_esc:
  "scan_len (esc_char c @ t) = omap (\<lambda>n. n + (if length (esc_char c) = 6 then 5 else 1)) (scan_len t)"
  by (cases "scan_len t") (auto simp: esc_char_def u_escape_def u_escape_neq)

lemma scan_len_quoted: "\<exists>len \<ge> length s. scan_len (concat (map esc_char s) @ CHR 0x22 # t) = Ok len"
proof (induction s)
  case (Cons c s)
  then show ?case by (auto simp: scan_len_esc)
qed simp

text \<open>The escape of a control character is read back as that character.\<close>

lemma scan_hex4_u_escape: "scan_hex4 (tl (u_escape c) @ t) = Some (word_of_nat (of_char c))"
proof -
  let ?h = "hex_char (of_char c div 16)" and ?l = "hex_char (of_char c mod 16)"
  have "?h \<noteq> CHR ''x''" "?h \<noteq> CHR ''X''"
    using u_escape_neq(3) [of c] by (auto simp: is_hex_def hex_val_def)
  then have "scan_hex4 (tl (u_escape c) @ t) = Some (word_of_nat (hex_digits_val [CHR ''0'', CHR ''0'', ?h, ?l]))"
    using u_escape_neq [of c] by (simp add: scan_hex4_def u_escape_def is_space_def is_hex_def hex_val_def Let_def)
  also have "hex_digits_val [CHR ''0'', CHR ''0'', ?h, ?l] = of_char c"
    using char_div_mod_16 [of c] by (simp add: hex_digits_val_def hex_val_hex_char) (simp add: hex_val_def)
  finally show ?thesis .
qed

lemma control_code:
  assumes "(of_char c :: nat) < 32" "c \<noteq> NUL"
  shows "unescape_u uc uc2 (tl (u_escape c) @ t) = Ok (Some (word_of_nat (of_char c)), uc2, [c], t)"
proof -
  let ?w = "word_of_nat (of_char c) :: 32 word"
  have u: "unat ?w = of_char c" using assms(1) by (simp add: unat_of_nat take_bit_nat_eq_self)
  then have lt: "?w < 32" using assms(1) by (simp add: word_less_nat_alt)
  have "(of_char c :: nat) \<noteq> 0" using assms(2) of_char_eq_iff [of c NUL, where 'a = nat] by (simp add: NUL_def)
  with u have "?w \<noteq> 0" by auto
  have "utf8_bytes ?w = [c]"
    using lt u by (simp add: utf8_bytes_def utf8_len_def Let_def byte_of_def firstByteMark_def
        order.strict_trans [of _ 32])
  moreover have "\<not> 0xDC00 \<le> ?w" "\<not> 0xD800 \<le> ?w" using lt by (auto simp: not_le intro: order.strict_trans)
  moreover have "length (tl (u_escape c) @ t) = length t + 4" "drop 4 (tl (u_escape c) @ t) = t"
    by (simp_all add: u_escape_def)
  ultimately show ?thesis
    using \<open>?w \<noteq> 0\<close> by (simp add: unescape_u_def Let_def scan_hex4_u_escape)
qed

lemma esc_special: "is_special c \<Longrightarrow> \<exists>e. esc_char c = [CHR 0x5C, e] \<and> e \<noteq> CHR ''u'' \<and> simple_escape e = c"
  unfolding is_special_def by (elim insertE emptyE) (simp_all add: esc_char_def simple_escape_def)

lemma unescape_esc:
  "c \<noteq> NUL \<Longrightarrow> \<exists>uc'. unescape room uc uc2 out (esc_char c @ t) =
     obind (put room out [c]) (\<lambda>out'. unescape room uc' uc2 out' t)"
proof -
  assume c: "c \<noteq> NUL"
  consider "31 < (of_char c :: nat)" "c \<noteq> CHR 0x22" "c \<noteq> CHR 0x5C" | "is_special c"
    | "(of_char c :: nat) < 32" "\<not> is_special c"
    by (cases "is_special c"; cases "31 < (of_char c :: nat)") (auto simp: is_special_def)
  then show ?thesis
  proof cases
    case 1
    then show ?thesis by (auto simp: esc_char_def)
  next
    case 2
    then obtain e where "esc_char c = [CHR 0x5C, e]" "e \<noteq> CHR ''u''" "simple_escape e = c"
      using esc_special by blast
    then show ?thesis by auto
  next
    case 3
    then have "esc_char c = CHR 0x5C # CHR ''u'' # tl (u_escape c)"
      by (simp add: esc_char_def is_special_def u_escape_def)
    then have "unescape room uc uc2 out (esc_char c @ t) =
        obind (put room out [c]) (\<lambda>out'. unescape room (Some (word_of_nat (of_char c))) uc2 out' t)"
      using control_code [OF 3(1) c, of uc uc2 t] by simp
    then show ?thesis by blast
  qed
qed

lemma unescape_quoted:
  "no_nul s \<Longrightarrow> length out + length s \<le> room \<Longrightarrow>
   unescape room uc uc2 out (concat (map esc_char s) @ CHR 0x22 # t) = Ok (out @ s, CHR 0x22 # t)"
proof (induction s arbitrary: out uc)
  case (Cons c s)
  obtain uc' where "unescape room uc uc2 out (esc_char c @ (concat (map esc_char s) @ CHR 0x22 # t)) =
     obind (put room out [c]) (\<lambda>out'. unescape room uc' uc2 out' (concat (map esc_char s) @ CHR 0x22 # t))"
    using unescape_esc [of c] Cons.prems by fastforce
  with Cons show ?case by (simp add: put_def)
qed simp

lemma parse_string_quote: "no_nul s \<Longrightarrow> parse_string (quote s @ t) = Parsed s t"
proof -
  assume s: "no_nul s"
  obtain len where "length s \<le> len" "scan_len (concat (map esc_char s) @ CHR 0x22 # t) = Ok len"
    using scan_len_quoted by blast
  then show ?thesis using unescape_quoted [OF s, of "[]" "len + 1" None None t]
    by (simp add: parse_string_def quote_def)
qed

section \<open>Parsing a number\<close>

definition stops :: "string \<Rightarrow> bool" where
  "stops r \<longleftrightarrow> r = [] \<or> \<not> is_digit (hd r) \<and> hd r \<notin> {CHR ''.'', CHR ''e'', CHR ''E''}"

lemma stops_simps [simp]:
  "stops []"
  "stops (CHR '','' # r)" "stops (CHR '']'' # r)" "stops (CHR ''}'' # r)" "stops (CHR 0x0A # r)"
  by (auto simp: stops_def is_digit_def)

text \<open>The digits are summed exactly while the value stays below $2^{53}$.\<close>

lemma add_digits_exact:
  "digits_val ds < 2 ^ 53 \<Longrightarrow> add_digits (i2d 0) ds = i2d (int (digits_val ds))"
proof (induction ds rule: rev_induct)
  case (snoc c ds)
  then have b: "digits_val ds * 10 + digit_val c < 2 ^ 53" by (simp add: digits_val_snoc)
  then have "digits_val ds < 2 ^ 53" by simp
  with snoc have "add_digits (i2d 0) ds = i2d (int (digits_val ds))" by simp
  moreover have "dmul (i2d (int (digits_val ds))) (i2d 10) = i2d (int (digits_val ds * 10))"
    using b by (subst dmul_int) auto
  moreover have "dadd (i2d (int (digits_val ds * 10))) (i2d (int (digit_val c))) = i2d (int (digits_val (ds @ [c])))"
    using b by (subst dadd_int) (auto simp: digits_val_snoc)
  ultimately show ?case by (simp add: add_digits_def add_digit_def)
qed (simp add: add_digits_def digits_val_def)

lemma show_nat_0: "show_nat 0 = ''0''"
  using char_of_char [of "CHR ''0''", where 'a = nat]
  by (subst show_nat.simps) (simp add: digit_char_def del: char_of_char)

lemma parse_number_tail:
  "stops r \<Longrightarrow> frac_digits r = ([], r)" "stops r \<Longrightarrow> exp_part r = (1, [], r)"
  by (auto simp: frac_digits_def exp_part_def stops_def split: list.splits)

text \<open>What is left after the sign: a zero, or digits that do not start with one.\<close>

lemma int_digits_show_nat:
  assumes "stops r" "0 < n" shows "int_digits (show_nat n @ r) = (show_nat n, r)"
proof -
  have "\<forall>c\<in>set (show_nat n). is_digit c" using show_nat_digits by blast
  moreover have "r = [] \<or> \<not> is_digit (hd r)" using assms(1) by (auto simp: stops_def)
  moreover have "hd (show_nat n @ r) \<noteq> CHR ''0''" "is_digit (hd (show_nat n @ r))"
    using show_nat_hd [of n] assms(2) by auto
  ultimately show ?thesis
    unfolding int_digits_def by (simp add: takeWhile_append_stop dropWhile_append_stop del: takeWhile_append takeWhile_append1 takeWhile_append2 dropWhile_append1 dropWhile_append2 dropWhile_append)
qed

lemma parse_number_show_int:
  assumes i: "is_int32 i" and r: "stops r"
  shows "parse_number (show_int i @ r) = Parsed (Item cJsonDap_Number None i (i2d i) None []) r"
proof -
  define n where "n = nat \<bar>i\<bar>"
  define sg :: int where "sg = (if i < 0 then -1 else 1)"
  define ds where "ds = (if n = 0 then [] else show_nat n)"
  have n: "n < 2 ^ 53" using i by (auto simp: n_def is_int32_def int_limits)
  have shows0: "show_nat 0 = ''0''" by (rule show_nat_0)
  have hd: "show_nat n = c # t \<Longrightarrow> is_digit c \<and> (c = CHR ''0'' \<longrightarrow> n = 0)" for c t
    using show_nat_hd [of n] by simp
  have s1: "(case show_int i @ r of c # t \<Rightarrow> if c = CHR ''-'' then (-1, t) else (1, show_int i @ r)
             | [] \<Rightarrow> (1, show_int i @ r)) = (sg, show_nat n @ r)"
    using hd by (cases "show_nat n") (auto simp: show_int_def sg_def n_def)
  have "add_digits (i2d 0) ds = i2d (int n)"
    using add_digits_exact [of "show_nat n"] n by (cases "n = 0") (simp_all add: ds_def add_digits_def)
  moreover have "dmul (i2d sg) (i2d (int n)) = i2d i" "dmul (i2d i) (i2d 1) = i2d i"
    using n i by (subst dmul_int; auto simp: sg_def n_def is_int32_def int_limits)+
  moreover have "int_digits (case show_nat n @ r of c # t \<Rightarrow> if c = CHR ''0'' then t else show_nat n @ r
                 | [] \<Rightarrow> show_nat n @ r) = (ds, r)"
  proof (cases "n = 0")
    case True
    then show ?thesis using r by (auto simp: shows0 ds_def int_digits_def stops_def)
  next
    case False
    then have "(case show_nat n @ r of c # t \<Rightarrow> if c = CHR ''0'' then t else show_nat n @ r
                 | [] \<Rightarrow> show_nat n @ r) = show_nat n @ r"
      using hd by (cases "show_nat n") auto
    with False int_digits_show_nat [OF r] show ?thesis by (simp add: ds_def)
  qed
  ultimately show ?thesis
    unfolding parse_number_def s1 using i r by (simp add: Let_def parse_number_tail add_digits_def)
qed

section \<open>Parsing a document\<close>

lemma skip_append: "list_all is_ws w \<Longrightarrow> skip (w @ t) = skip t"
  by (induction w) (auto simp: skip_def)

lemma skip_id: "s \<noteq> [] \<Longrightarrow> \<not> is_ws (hd s) \<Longrightarrow> skip s = s"
  by (cases s) (auto simp: skip_def)

lemma text_start: "\<exists>c t. json_text fmt d j = c # t \<and> \<not> is_ws c \<and> c \<noteq> CHR '']''"
proof (cases j)
  case (JNum i)
  have "is_digit (hd (show_nat (nat i)))" using show_nat_hd by blast
  then have "\<not> is_ws (hd (show_nat (nat i))) \<and> hd (show_nat (nat i)) \<noteq> CHR '']''"
    by (auto simp: is_ws_def is_digit_def)
  with JNum show ?thesis by (cases "show_nat (nat i)") (auto simp: show_int_def is_ws_def)
qed (auto simp: is_ws_def array_text_def object_text_def quote_def)

lemma skip_text [simp]: "skip (json_text fmt d j @ t) = json_text fmt d j @ t"
  using text_start [of fmt d j] by (auto intro!: skip_id)

lemma skip_quote [simp]: "skip (quote k @ t) = quote k @ t"
  by (rule skip_id) (auto simp: quote_def is_ws_def)

lemma parse_name_quote:
  assumes "no_nul k" "list_all is_ws w" "list_all is_ws w'"
  shows "parse_name (w @ quote k @ '':'' @ w' @ t) = Parsed k (skip t)"
proof -
  have "skip ('':'' @ w' @ t) = '':'' @ w' @ t" by (rule skip_id) (auto simp: is_ws_def)
  then show ?thesis
    using assms by (simp add: parse_name_def skip_append parse_string_quote)
qed

lemma join_array_Cons:
  "join_array fmt (e # es) = e @ concat (map (\<lambda>e. '','' @ (if fmt then '' '' else []) @ e) es)"
  by (induction es arbitrary: e) auto

definition entry_text :: "nat \<Rightarrow> bool \<Rightarrow> string \<times> string \<Rightarrow> string" where
  "entry_text d fmt x = indent d fmt @ fst x @ '':'' @ (if fmt then '' '' else []) @ snd x"

definition newline :: "bool \<Rightarrow> string" where
  "newline fmt = (if fmt then [CHR 0x0A] else [])"

lemma join_object_Cons:
  "join_object d fmt (x # xs) =
     entry_text d fmt x @ concat (map (\<lambda>x. '','' @ newline fmt @ entry_text d fmt x) xs) @ newline fmt"
  by (induction xs arbitrary: x) (auto simp: entry_text_def newline_def)

lemma ws_simps [simp]: "list_all is_ws (indent d fmt)" "list_all is_ws (newline fmt)"
  by (auto simp: indent_def newline_def is_ws_def list_all_iff)

text \<open>
  The loops over items and members, given that \<open>pv\<close> reads back every text of the list.  The
  text of the list is followed by white space and the closing bracket.
\<close>

lemma stops_ws: "list_all is_ws w \<Longrightarrow> stops (w @ CHR ''}'' # r)"
  by (cases w) (auto simp: stops_def is_ws_def is_digit_def)

lemma length_items_less: "length es < length (concat (map (\<lambda>e. CHR '','' # f e) es) @ c # r)"
  by (induction es) auto

definition reads_back :: "(string \<Rightarrow> cJsonDap presult) \<Rightarrow> string \<Rightarrow> cJsonDap \<Rightarrow> bool" where
  "reads_back pv e x \<longleftrightarrow> (\<forall>r. stops r \<longrightarrow> pv (e @ r) = Parsed x r) \<and> (\<forall>r. skip (e @ r) = e @ r)"

lemma parse_items_text:
  assumes "list_all2 (reads_back pv) es xs" "length es < k"
  shows "parse_items pv k acc (concat (map (\<lambda>e. '','' @ (if fmt then '' '' else []) @ e) es) @ '']'' @ r) =
         Parsed (set_children (acc @ xs) cJSON_CreateArray) r"
  using assms
proof (induction es xs arbitrary: acc k rule: list_all2_induct)
  case Nil
  then show ?case by (cases k) auto
next
  case (Cons e es x xs)
  let ?rest = "concat (map (\<lambda>e. '','' @ (if fmt then '' '' else []) @ e) es) @ '']'' @ r"
  obtain k' where k: "k = Suc k'" "length es < k'" using Cons.prems by (cases k) auto
  have "stops ?rest" "skip ?rest = ?rest" by (cases es; simp add: skip_def is_ws_def)+
  moreover from this have "pv (e @ ?rest) = Parsed x ?rest" "skip (e @ ?rest) = e @ ?rest"
    using Cons.hyps by (auto simp: reads_back_def)
  moreover have "skip ((if fmt then '' '' else []) @ e @ ?rest) = skip (e @ ?rest)"
    by (rule skip_append) (simp add: is_ws_def)
  ultimately show ?case using Cons.IH [of k' "acc @ [x]"] k by (auto simp del: skip_skip)
qed

lemma parse_members_text:
  assumes "list_all2 (\<lambda>(q, e) (key, x). q = quote key \<and> no_nul key \<and> reads_back pv e x) es xs"
    "length es < k" "list_all is_ws w"
  shows "parse_members pv k acc
           (skip (concat (map (\<lambda>x. '','' @ newline fmt @ entry_text d fmt x) es) @ w @ ''}'' @ r)) =
         Parsed (set_children (acc @ map (\<lambda>(key, x). set_name (Some key) x) xs) cJSON_CreateObject) r"
  using assms(1,2)
proof (induction es xs arbitrary: acc k rule: list_all2_induct)
  case Nil
  moreover have "skip (w @ ''}'' @ r) = ''}'' @ r"
    using assms(3) by (simp add: skip_append) (simp add: skip_def is_ws_def)
  ultimately show ?case by (cases k) auto
next
  case (Cons qe es kx xs)
  obtain e key x where qe: "qe = (quote key, e)" "kx = (key, x)" "no_nul key" "reads_back pv e x"
    using Cons.hyps(1) by (cases qe, cases kx) auto
  let ?rest = "concat (map (\<lambda>x. '','' @ newline fmt @ entry_text d fmt x) es) @ w @ ''}'' @ r"
  obtain k' where k: "k = Suc k'" "length es < k'" using Cons.prems by (cases k) auto
  have "stops ?rest" using stops_ws [OF assms(3), of r] by (cases es) auto
  then have pv: "pv (e @ ?rest) = Parsed x ?rest" "skip (e @ ?rest) = e @ ?rest"
    using qe by (auto simp: reads_back_def)
  have "parse_name ((newline fmt @ indent d fmt) @ quote key @ '':'' @ (if fmt then '' '' else []) @ e @ ?rest) =
        Parsed key (skip (e @ ?rest))"
    by (rule parse_name_quote) (use qe in \<open>auto simp: is_ws_def\<close>)
  then have "parse_name (newline fmt @ entry_text d fmt qe @ ?rest) = Parsed key (e @ ?rest)"
    using pv qe by (simp add: entry_text_def)
  moreover have "skip (CHR '','' # u) = CHR '','' # u" for u by (simp add: skip_def is_ws_def)
  ultimately show ?case using Cons.IH [of k' "acc @ [set_name (Some key) x]"] k pv qe by simp
qed

lemma parse_array_text:
  assumes "\<And>j. j \<in> set js \<Longrightarrow> reads_back pv (tx j) (nd j)"
    and "\<And>j. \<exists>c t. tx j = c # t \<and> c \<noteq> CHR '']''"
  shows "parse_array pv (array_text fmt (map tx js) @ r) = Parsed (set_children (map nd js) cJSON_CreateArray) r"
proof (cases js)
  case Nil
  then show ?thesis by (auto simp: parse_array_def array_text_def skip_def is_ws_def create_defs)
next
  case (Cons j js')
  let ?sp = "if fmt then '' '' else []"
  let ?rest = "concat (map (\<lambda>e. '','' @ ?sp @ e) (map tx js')) @ '']'' @ r"
  have "stops ?rest" "skip ?rest = ?rest" by (cases js'; simp add: skip_def is_ws_def)+
  moreover have rb: "reads_back pv (tx j) (nd j)" using assms(1) Cons by simp
  ultimately have "pv (tx j @ ?rest) = Parsed (nd j) ?rest" "skip (tx j @ ?rest) = tx j @ ?rest"
    by (auto simp: reads_back_def)
  moreover have "\<not> prefix '']'' (tx j @ ?rest)" using assms(2) [of j] by auto
  moreover have "parse_items pv (length (tx j @ ?rest)) [nd j] ?rest =
      Parsed (set_children ([nd j] @ map nd js') cJSON_CreateArray) r"
  proof (rule parse_items_text)
    show "list_all2 (reads_back pv) (map tx js') (map nd js')"
      using assms(1) Cons by (auto simp: list_all2_conv_all_nth)
    show "length (map tx js') < length (tx j @ ?rest)"
      using length_items_less [of "map tx js'" "\<lambda>e. ?sp @ e" "CHR '']''" r] by simp
  qed
  moreover have "array_text fmt (map tx js) @ r = CHR ''['' # tx j @ ?rest"
    by (simp add: array_text_def Cons join_array_Cons)
  ultimately show ?thesis using \<open>skip ?rest = ?rest\<close> Cons
    by (simp add: parse_array_def del: parse_items.simps)
qed

lemma parse_object_text:
  assumes "\<And>k j. (k, j) \<in> set ms \<Longrightarrow> no_nul k \<and> reads_back pv (tx j) (nd j)"
  shows "parse_object pv (object_text d fmt (map (\<lambda>(k, j). (quote k, tx j)) ms) @ r) =
         Parsed (set_children (map (\<lambda>(k, j). set_name (Some k) (nd j)) ms) cJSON_CreateObject) r"
proof (cases ms)
  case Nil
  have "skip (newline fmt @ indent (d - 1) fmt @ ''}'' @ r) = ''}'' @ r"
    by (simp add: skip_append) (simp add: skip_def is_ws_def)
  with Nil show ?thesis by (auto simp: parse_object_def object_text_def create_defs newline_def)
next
  case (Cons kj ms')
  obtain k j where kj: "kj = (k, j)" by force
  let ?es = "map (\<lambda>(k, j). (quote k, tx j)) ms'"
  let ?w = "newline fmt @ indent (d - 1) fmt"
  let ?rest = "concat (map (\<lambda>x. '','' @ newline fmt @ entry_text d fmt x) ?es) @ ?w @ ''}'' @ r"
  let ?v = "quote k @ '':'' @ (if fmt then '' '' else []) @ tx j @ ?rest"
  have w: "list_all is_ws ?w" by simp
  have "stops ?rest" using stops_ws [OF w, of r] by (cases ms') auto
  with assms [of k j] Cons kj have pv: "pv (tx j @ ?rest) = Parsed (nd j) ?rest" "skip (tx j @ ?rest) = tx j @ ?rest"
    by (auto simp: reads_back_def)
  have nm: "parse_name ?v = Parsed k (tx j @ ?rest)"
    using parse_name_quote [of k "[]" "if fmt then '' '' else []" "tx j @ ?rest"] pv assms [of k j] Cons kj
    by (simp add: is_ws_def)
  have ms: "parse_members pv (length ?v) [set_name (Some k) (nd j)] (skip ?rest) =
      Parsed (set_children ([set_name (Some k) (nd j)] @
        map (\<lambda>(key, x). set_name (Some key) x) (map (\<lambda>(k, j). (k, nd j)) ms')) cJSON_CreateObject) r"
  proof (rule parse_members_text [OF _ _ w])
    show "list_all2 (\<lambda>(q, e) (key, x). q = quote key \<and> no_nul key \<and> reads_back pv e x)
            ?es (map (\<lambda>(k, j). (k, nd j)) ms')"
      using assms Cons by (fastforce simp: list.rel_map intro!: list.rel_refl_strong split: prod.splits)
    show "length ?es < length ?v"
      using length_items_less [of ?es "\<lambda>x. newline fmt @ entry_text d fmt x" "CHR ''}''" r] by simp
  qed
  have "skip (newline fmt @ indent d fmt @ ?v) = ?v" by (simp add: skip_append)
  moreover have "object_text d fmt (map (\<lambda>(k, j). (quote k, tx j)) ms) @ r =
      CHR ''{'' # newline fmt @ indent d fmt @ ?v"
    by (simp add: object_text_def Cons kj join_object_Cons newline_def entry_text_def)
  moreover have "\<not> prefix ''}'' ?v" by (simp add: quote_def)
  ultimately show ?thesis using nm ms pv Cons kj
    by (simp add: parse_object_def comp_def case_prod_unfold del: parse_members.simps)
qed

lemma parse_text:
  "wf_json j \<Longrightarrow> size j < n \<Longrightarrow> stops r \<Longrightarrow> parse_value n (json_text fmt d j @ r) = Parsed (node_of 1 None j) r"
proof (induction j arbitrary: n d r)
  case JNull
  then show ?case by (cases n) (auto simp: create_defs)
next
  case (JBool b)
  then show ?case by (cases n) (auto simp: create_defs cjson_types)
next
  case (JNum i)
  then obtain n' where "n = Suc n'" by (cases n) auto
  moreover obtain c t where "show_int i = c # t" "c = CHR ''-'' \<or> is_digit c"
    using show_nat_hd [of "nat i"] by (cases "i < 0"; cases "show_nat (nat i)") (auto simp: show_int_def)
  moreover from this(2) have "c \<noteq> CHR ''n''" "c \<noteq> CHR ''f''" "c \<noteq> CHR ''t''" "c \<noteq> CHR 0x22"
    by (auto simp: is_digit_def)
  ultimately have "parse_value n (show_int i @ r) = parse_number (show_int i @ r)" by auto
  with JNum parse_number_show_int show ?case by simp
next
  case (JStr s)
  then obtain n' where "n = Suc n'" by (cases n) auto
  moreover have "prefix [CHR 0x22] (quote s @ r)" "\<not> prefix ''null'' (quote s @ r)"
    "\<not> prefix ''false'' (quote s @ r)" "\<not> prefix ''true'' (quote s @ r)"
    by (auto simp: quote_def)
  ultimately show ?case using JStr by (simp add: parse_string_quote string_item_def)
next
  case (JArr js)
  then obtain n' where n: "n = Suc n'" by (cases n) auto
  have "reads_back (parse_value n') (json_text fmt (d + 1) j) (node_of 1 None j)" if "j \<in> set js" for j
    using JArr that n size_list_estimation' [OF that order_refl, of size]
    by (auto simp: reads_back_def list_all_iff)
  then have "parse_array (parse_value n') (json_text fmt d (JArr js) @ r) = Parsed (node_of 1 None (JArr js)) r"
    using parse_array_text [of js "parse_value n'" "\<lambda>j. json_text fmt (d + 1) j" "\<lambda>j. node_of 1 None j" fmt r]
      text_start [of fmt "d + 1"] by (fastforce simp: create_defs)
  with n show ?case by (simp add: array_text_def is_digit_def)
next
  case (JObj ms)
  then obtain n' where n: "n = Suc n'" by (cases n) auto
  have "no_nul k \<and> reads_back (parse_value n') (json_text fmt (d + 1) j) (node_of 1 None j)"
    if "(k, j) \<in> set ms" for k j
  proof -
    have "size j < n'"
      using JObj.prems(2) n size_list_estimation' [OF that order_refl, of "size_prod (\<lambda>_. 0) size"] by simp
    with JObj that show ?thesis by (fastforce simp: reads_back_def list_all_iff)
  qed
  then have "parse_object (parse_value n') (json_text fmt d (JObj ms) @ r) = Parsed (node_of 1 None (JObj ms)) r"
    using parse_object_text
        [of ms "parse_value n'" "\<lambda>j. json_text fmt (d + 1) j" "\<lambda>j. node_of 1 None j" "d + 1" fmt r]
    by (simp add: set_children_def cJSON_CreateObject_def set_type_def cJSON_New_Item_def)
  with n show ?case by (simp add: object_text_def is_digit_def)
qed

text \<open>The parser of \<^verbatim>\<open>cJSON_Parse\<close> on the text of a document, whatever follows it.\<close>

lemma no_nul_quote: "no_nul s \<Longrightarrow> no_nul (quote s)"
proof -
  have "no_nul (esc_char c)" if "c \<noteq> NUL" for c
  proof -
    have "\<not> is_hex NUL" by (simp add: is_hex_def hex_val_def NUL_def)
    with u_escape_neq [of c] that show ?thesis by (auto simp: esc_char_def u_escape_def NUL_def)
  qed
  then have "no_nul s \<Longrightarrow> no_nul (concat (map esc_char s))" by (induction s) auto
  then show "no_nul s \<Longrightarrow> no_nul (quote s)" by (simp add: quote_def NUL_def)
qed

lemma no_nul_join_array: "list_all no_nul es \<Longrightarrow> no_nul (join_array fmt es)"
  by (induction fmt es rule: join_array.induct) (auto simp: NUL_def)

lemma no_nul_indent [simp]: "no_nul (indent d fmt)"
  by (auto simp: indent_def no_nul_def NUL_def)

lemma no_nul_join_object:
  "list_all (\<lambda>(k, e). no_nul k \<and> no_nul e) es \<Longrightarrow> no_nul (join_object d fmt es)"
  by (induction d fmt es rule: join_object.induct) (auto simp: NUL_def)

lemma no_nul_text: "wf_json j \<Longrightarrow> no_nul (json_text fmt d j)"
proof (induction fmt d j rule: json_text.induct)
  case (5 fmt d js)
  then have "list_all no_nul (map (\<lambda>j. json_text fmt (d + 1) j) js)" by (auto simp: list_all_iff)
  from no_nul_join_array [OF this, of fmt] show ?case by (simp add: array_text_def NUL_def)
next
  case (6 fmt d ms)
  then have "list_all (\<lambda>(k, e). no_nul k \<and> no_nul e) (map (\<lambda>(k, j). (quote k, json_text fmt (d + 1) j)) ms)"
    by (fastforce simp: list_all_iff no_nul_quote)
  from no_nul_join_object [OF this, of "d + 1" fmt] show ?case by (simp add: object_text_def NUL_def)
qed (auto simp: no_nul_quote NUL_def)

lemma cJSON_Parse_text:
  assumes j: "wf_json j" and r: "stops r" "no_nul r"
  shows "cJSON_Parse (json_text fmt d j @ r) = Parsed (node_of 1 None j) r"
proof -
  let ?s = "json_text fmt d j @ r"
  have "parse_value (parse_fuel ?s) ?s = parse_value (parse_fuel ?s + size j) ?s"
    by (rule parse_value_fuel_irrelevant) (simp_all add: parse_fuel_def)
  also have "\<dots> = Parsed (node_of 1 None j) r"
    using j r by (intro parse_text) (auto simp: parse_fuel_def)
  finally show ?thesis
    using j r by (simp add: cJSON_Parse_def no_nul_text del: c_str_id) (simp add: no_nul_text)
qed

end
