(* ===== verification/Dap_Json.thy ===== *)
theory Dap_Json
  imports Dap_CJson_Edit Dap_CJson_Roundtrip
begin

text \<open>
  The class \<^verbatim>\<open>dap::Json\<close> of \<^verbatim>\<open>dap/JSON.hpp\<close> and \<^verbatim>\<open>dap/JSON.cpp\<close>: a handle on a node,
  \<open>None\<close> being the null handle.  A method that changes the tree below the handle returns the
  changed handle.  The methods that answer a handle on a freshly added child take what the
  caller does with that handle as their last but one argument.  The reference counts, which only decide
  when the nodes are freed, are not part of the model.
\<close>

named_theorems json_simps \<open>look-ups in a tree built by the methods of Json\<close>
named_theorems ints_intros \<open>the integers of a parsed tree are in the range of int\<close>
named_theorems doc_intros \<open>the trees built by the methods of Json are documents\<close>

section \<open>Reading\<close>

type_synonym Json = "cJsonDap option"

definition IsOK :: "Json \<Rightarrow> bool" where
  "IsOK this \<longleftrightarrow> this \<noteq> None"

definition has_type :: "int \<Rightarrow> Json \<Rightarrow> bool" where
  "has_type t this = (case this of None \<Rightarrow> False | Some n \<Rightarrow> type_of n = t)"

definition IsArray :: "Json \<Rightarrow> bool" where "IsArray this = has_type cJsonDap_Array this"

definition IsObject :: "Json \<Rightarrow> bool" where "IsObject this = has_type cJsonDap_Object this"

definition GetName :: "Json \<Rightarrow> string" where
  "GetName this =
     (case this of None \<Rightarrow> [] | Some n \<Rightarrow> (case name_of n of None \<Rightarrow> [] | Some s \<Rightarrow> s))"

text \<open>\<^verbatim>\<open>operator[](const wxString&)\<close>: the first child of exactly that name.\<close>

fun find_child :: "string \<Rightarrow> cJsonDap list \<Rightarrow> cJsonDap option" where
  "find_child k [] = None"
| "find_child k (c # cs) = (if name_of c = Some (c_str k) then Some c else find_child k cs)"

definition Json_at :: "Json \<Rightarrow> string \<Rightarrow> Json" where
  "Json_at this index = (case this of None \<Rightarrow> None | Some n \<Rightarrow> find_child index (children n))"

definition GetCount :: "Json \<Rightarrow> nat" where
  "GetCount this = (case this of None \<Rightarrow> 0 | Some n \<Rightarrow> length (children n))"

text \<open>\<^verbatim>\<open>operator[](size_t)\<close>.\<close>

definition Json_nth :: "Json \<Rightarrow> nat \<Rightarrow> Json" where
  "Json_nth this index =
     (if GetCount this \<le> index then None
      else case this of None \<Rightarrow> None | Some n \<Rightarrow> list_head (walk (children n) index))"

definition GetString :: "Json \<Rightarrow> string \<Rightarrow> string" where
  "GetString this defaultValue =
     (case this of
        None \<Rightarrow> defaultValue
      | Some n \<Rightarrow> if type_of n \<noteq> cJsonDap_String then defaultValue
                  else (case valuestring n of Some s \<Rightarrow> s | None \<Rightarrow> []))"

definition GetNumber :: "Json \<Rightarrow> double \<Rightarrow> double" where
  "GetNumber this defaultValue =
     (case this of
        None \<Rightarrow> defaultValue
      | Some n \<Rightarrow> if type_of n \<noteq> cJsonDap_Number then defaultValue else valuedouble n)"

definition GetInteger :: "Json \<Rightarrow> int \<Rightarrow> int" where
  "GetInteger this defaultValue =
     (case this of
        None \<Rightarrow> defaultValue
      | Some n \<Rightarrow> if type_of n \<noteq> cJsonDap_Number then defaultValue else valueint n)"

text \<open>
  \<^verbatim>\<open>GetBool\<close>.  The second comparison of the code is between the pointer \<^verbatim>\<open>m_cjson\<close>, which is
  not null there, and \<^verbatim>\<open>cJsonDap_False\<close>, the constant 0: it always holds.
\<close>

definition GetBool :: "Json \<Rightarrow> bool \<Rightarrow> bool" where
  "GetBool this defaultValue =
     (case this of
        None \<Rightarrow> defaultValue
      | Some n \<Rightarrow> if type_of n \<noteq> cJsonDap_True \<and> this \<noteq> None then defaultValue
                  else type_of n = cJsonDap_True)"

definition GetStringArray :: "Json \<Rightarrow> string list" where
  "GetStringArray this =
     (if \<not> IsArray this then [] else map (\<lambda>i. GetString (Json_nth this i) []) [0..<GetCount this])"

section \<open>Building\<close>

definition Json_CreateArray :: Json where "Json_CreateArray = Some cJSON_CreateArray"

definition Json_CreateObject :: Json where "Json_CreateObject = Some cJSON_CreateObject"

text \<open>What the caller does with the handle on the child that was added last.\<close>

definition on_last :: "(Json \<Rightarrow> Json) \<Rightarrow> cJsonDap \<Rightarrow> cJsonDap" where
  "on_last k n =
     set_children (butlast (children n) @
       (case k (Some (last (children n))) of None \<Rightarrow> [] | Some c \<Rightarrow> [c])) n"

definition Json_AddItem :: "string \<Rightarrow> cJsonDap \<Rightarrow> (Json \<Rightarrow> Json) \<Rightarrow> Json \<Rightarrow> Json" where
  "Json_AddItem name item k this =
     (case this of
        None \<Rightarrow> None
      | Some n \<Rightarrow>
         if type_of n \<noteq> cJsonDap_Array \<and> type_of n \<noteq> cJsonDap_Object then Some n
         else if type_of n = cJsonDap_Array then Some (on_last k (cJSON_AddItemToArray (Some item) n))
         else Some (on_last k (cJSON_AddItemToObject name (Some item) n)))"

definition Json_AddArray :: "string \<Rightarrow> (Json \<Rightarrow> Json) \<Rightarrow> Json \<Rightarrow> Json" where
  "Json_AddArray name k this = Json_AddItem name cJSON_CreateArray k this"

definition Json_AddNewObject :: "string \<Rightarrow> (Json \<Rightarrow> Json) \<Rightarrow> Json \<Rightarrow> Json" where
  "Json_AddNewObject name k this = Json_AddItem name cJSON_CreateObject k this"

text \<open>\<^verbatim>\<open>CHECK_IS_CONTAINER\<close>, then the item goes to the object under its name or to the array.\<close>

definition add_item :: "string \<Rightarrow> cJsonDap option \<Rightarrow> Json \<Rightarrow> Json" where
  "add_item name item this =
     (case this of
        None \<Rightarrow> None
      | Some n \<Rightarrow>
         if \<not> IsArray this \<and> \<not> IsObject this then Some n
         else if IsObject this then Some (cJSON_AddItemToObject name item n)
         else Some (cJSON_AddItemToArray item n))"

definition Json_Add_string :: "string \<Rightarrow> string \<Rightarrow> Json \<Rightarrow> Json" where
  "Json_Add_string name value this = add_item name (Some (cJSON_CreateString value)) this"

definition Json_Add_double :: "string \<Rightarrow> double \<Rightarrow> Json \<Rightarrow> Json" where
  "Json_Add_double name value this = add_item name (Some (cJSON_CreateNumber value)) this"

definition Json_Add_int :: "string \<Rightarrow> int \<Rightarrow> Json \<Rightarrow> Json" where
  "Json_Add_int name value this = Json_Add_double name (i2d value) this"

definition Json_Add_bool :: "string \<Rightarrow> bool \<Rightarrow> Json \<Rightarrow> Json" where
  "Json_Add_bool name value this = add_item name (Some (cJSON_CreateBool (if value then 1 else 0))) this"

definition Json_Add_strings :: "string \<Rightarrow> string list \<Rightarrow> Json \<Rightarrow> Json" where
  "Json_Add_strings name value this =
     Json_AddArray name (\<lambda>a. foldl (\<lambda>a s. Json_Add_string [] s a) a value) this"

definition Json_AddObject :: "string \<Rightarrow> Json \<Rightarrow> Json \<Rightarrow> Json" where
  "Json_AddObject name obj this =
     (case this of None \<Rightarrow> None | Some n \<Rightarrow> Some (cJSON_AddItemToObject name obj n))"

definition Json_Add_json :: "string \<Rightarrow> Json \<Rightarrow> Json \<Rightarrow> Json" where
  "Json_Add_json name value this =
     (case this of
        None \<Rightarrow> None
      | Some n \<Rightarrow>
         if \<not> IsArray this \<and> \<not> IsObject this then Some n
         else if IsObject this then Json_AddObject name value this
         else Some (cJSON_AddItemToArray value n))"

text \<open>\<^verbatim>\<open>ToString\<close>: a null answer of the printer is an empty string.\<close>

definition Json_ToString :: "bool \<Rightarrow> Json \<Rightarrow> string outcome" where
  "Json_ToString pretty this =
     (case this of
        None \<Rightarrow> Ok []
      | Some n \<Rightarrow> omap (\<lambda>c. case c of None \<Rightarrow> [] | Some s \<Rightarrow> s)
                    (if pretty then cJSON_Print n else cJSON_PrintUnformatted n))"

definition Json_Parse :: "string \<Rightarrow> Json outcome" where
  "Json_Parse source =
     (case cJSON_Parse source of
        Parsed n _ \<Rightarrow> Ok (Some n)
      | Failed _ \<Rightarrow> Ok None
      | PUndef u \<Rightarrow> Undef u
      | No_Fuel \<Rightarrow> Ok None)"

lemmas json_build_defs = Json_AddItem_def Json_AddArray_def Json_AddNewObject_def add_item_def
  Json_Add_string_def Json_Add_double_def Json_Add_int_def Json_Add_bool_def Json_AddObject_def
  Json_Add_json_def on_last_def cJSON_AddItemToArray_def cJSON_AddItemToObject_def

section \<open>Look-ups in a tree that was built\<close>

lemma type_of_create [simp]:
  "type_of cJSON_CreateArray = cJsonDap_Array"
  "type_of cJSON_CreateObject = cJsonDap_Object"
  "children cJSON_CreateArray = []"
  "children cJSON_CreateObject = []"
  by (simp_all add: create_defs)

lemma find_child_append:
  "find_child k (cs @ ds) = (case find_child k cs of None \<Rightarrow> find_child k ds | Some c \<Rightarrow> Some c)"
  by (induction cs) auto

lemma cjson_types_distinct [simp]: "cJsonDap_Array \<noteq> cJsonDap_Object" "cJsonDap_Object \<noteq> cJsonDap_Array"
  by (simp_all add: cjson_types)

lemma IsObject_simps [simp]:
  "IsObject Json_CreateObject"
  "IsObject (Some (set_name nm cJSON_CreateObject))"
  "IsObject (add_item k x j) = IsObject j"
  "IsObject (Json_Add_string k v j) = IsObject j"
  "IsObject (Json_Add_double k d j) = IsObject j"
  "IsObject (Json_Add_int k i j) = IsObject j"
  "IsObject (Json_Add_bool k b j) = IsObject j"
  "IsObject (Json_Add_strings k vs j) = IsObject j"
  "IsObject (Json_AddItem k it f j) = IsObject j"
  "IsObject (Json_AddArray k f j) = IsObject j"
  "IsObject (Json_AddNewObject k f j) = IsObject j"
  "IsObject (Json_AddObject k x j) = IsObject j"
  "IsObject (Json_Add_json k x j) = IsObject j"
  by (auto simp: IsObject_def IsArray_def has_type_def Json_CreateObject_def Json_Add_strings_def json_build_defs
      split: option.splits)

text \<open>The entry that a look-up finds behind the entries that were there before.\<close>

definition or_else :: "Json \<Rightarrow> Json \<Rightarrow> Json" where
  "or_else a b = (case a of None \<Rightarrow> b | Some c \<Rightarrow> Some c)"

lemma or_else_simps [simp]: "or_else None b = b" "or_else (Some c) b = Some c" "or_else a None = a"
  by (simp_all add: or_else_def split: option.splits)

lemma at_CreateObject [json_simps]:
  "Json_at Json_CreateObject k = None"
  "Json_at (Some (set_name nm cJSON_CreateObject)) k = None"
  by (simp_all add: Json_at_def Json_CreateObject_def)

lemma at_add_item:
  "IsObject j \<Longrightarrow> Json_at (add_item k (Some x) j) q =
     or_else (Json_at j q) (if c_str k = c_str q then Some (set_name (Some (c_str k)) x) else None)"
  by (auto simp: IsObject_def has_type_def Json_at_def json_build_defs find_child_append or_else_def split: option.splits)

lemma at_Add [json_simps]:
  "IsObject j \<Longrightarrow> Json_at (Json_Add_string k v j) q =
     or_else (Json_at j q) (if c_str k = c_str q then Some (set_name (Some (c_str k)) (cJSON_CreateString v)) else None)"
  "IsObject j \<Longrightarrow> Json_at (Json_Add_double k d j) q =
     or_else (Json_at j q) (if c_str k = c_str q then Some (set_name (Some (c_str k)) (cJSON_CreateNumber d)) else None)"
  "IsObject j \<Longrightarrow> Json_at (Json_Add_int k i j) q =
     or_else (Json_at j q) (if c_str k = c_str q then Some (set_name (Some (c_str k)) (cJSON_CreateNumber (i2d i))) else None)"
  "IsObject j \<Longrightarrow> Json_at (Json_Add_bool k b j) q =
     or_else (Json_at j q)
       (if c_str k = c_str q then Some (set_name (Some (c_str k)) (cJSON_CreateBool (if b then 1 else 0))) else None)"
  by (simp_all add: Json_Add_string_def Json_Add_double_def Json_Add_int_def Json_Add_bool_def at_add_item)

lemma at_AddObject [json_simps]:
  "IsObject j \<Longrightarrow> Json_at (Json_AddObject k x j) q =
     or_else (Json_at j q) (if c_str k = c_str q then map_option (set_name (Some (c_str k))) x else None)"
  "IsObject j \<Longrightarrow> Json_at (Json_Add_json k x j) q =
     or_else (Json_at j q) (if c_str k = c_str q then map_option (set_name (Some (c_str k))) x else None)"
  by (auto simp: IsObject_def has_type_def Json_at_def json_build_defs find_child_append or_else_def split: option.splits)

text \<open>A continuation that works on the handle it gets: it keeps the name and answers a handle.\<close>

definition edits :: "(Json \<Rightarrow> Json) \<Rightarrow> bool" where
  "edits k \<longleftrightarrow> (\<forall>n. \<exists>c. k (Some n) = Some c \<and> name_of c = name_of n)"

lemma editsD: "edits k \<Longrightarrow> \<exists>c. k (Some n) = Some c \<and> name_of c = name_of n"
  by (simp add: edits_def)

lemma at_AddItem:
  "IsObject j \<Longrightarrow> edits f \<Longrightarrow> Json_at (Json_AddItem k x f j) q =
     or_else (Json_at j q) (if c_str k = c_str q then f (Some (set_name (Some (c_str k)) x)) else None)"
  using editsD [of f "set_name (Some (c_str k)) x"]
  by (auto simp: IsObject_def has_type_def Json_at_def json_build_defs find_child_append or_else_def split: option.splits)

lemma at_AddNew [json_simps]:
  "IsObject j \<Longrightarrow> edits f \<Longrightarrow> Json_at (Json_AddArray k f j) q =
     or_else (Json_at j q) (if c_str k = c_str q then f (Some (set_name (Some (c_str k)) cJSON_CreateArray)) else None)"
  "IsObject j \<Longrightarrow> edits f \<Longrightarrow> Json_at (Json_AddNewObject k f j) q =
     or_else (Json_at j q) (if c_str k = c_str q then f (Some (set_name (Some (c_str k)) cJSON_CreateObject)) else None)"
  by (simp_all add: Json_AddArray_def Json_AddNewObject_def at_AddItem)

lemma edits_comp: "edits f \<Longrightarrow> edits g \<Longrightarrow> edits (\<lambda>j. f (g j))"
  unfolding edits_def by metis

lemma edits_id [json_simps]: "edits (\<lambda>j. j)"
  by (simp add: edits_def)

lemma edits_add:
  "edits (Json_Add_string k v)" "edits (Json_Add_double k d)" "edits (Json_Add_int k i)" "edits (Json_Add_bool k b)"
  "edits (Json_AddObject k x)" "edits (Json_Add_json k x)" "edits (Json_AddArray k h)" "edits (Json_AddNewObject k h)"
  by (auto simp: edits_def json_build_defs split: option.splits)

lemmas edits_Add [json_simps] = edits_add edits_add [THEN edits_comp]

lemma edits_foldl [json_simps]: "(\<And>x. edits (g x)) \<Longrightarrow> edits (\<lambda>a. foldl (\<lambda>a x. g x a) a xs)"
  by (induction xs) (auto simp: edits_def, metis)

lemma edits_if [json_simps]: "edits f \<Longrightarrow> edits g \<Longrightarrow> edits (if b then f else g)"
  by simp

lemma edits_Add_strings [json_simps]:
  "edits (Json_Add_strings k vs)" "edits f \<Longrightarrow> edits (\<lambda>j. Json_Add_strings k vs (f j))"
proof -
  show "edits (Json_Add_strings k vs)" unfolding Json_Add_strings_def by (rule edits_add)
  then show "edits f \<Longrightarrow> edits (\<lambda>j. Json_Add_strings k vs (f j))" by (rule edits_comp)
qed

text \<open>Values of freshly created leaves.\<close>

lemma get_created [json_simps]:
  "GetString (Some (set_name nm (cJSON_CreateString v))) d = c_str v"
  "GetInteger (Some (set_name nm (cJSON_CreateNumber x))) i = d2i x"
  "GetNumber (Some (set_name nm (cJSON_CreateNumber x))) y = x"
  "GetBool (Some (set_name nm (cJSON_CreateBool c))) b = (if c \<noteq> 0 then True else b)"
  "GetInteger None i = i" "GetString None s = s" "GetNumber None y = y" "GetBool None b = b"
  by (simp_all add: create_defs GetString_def GetInteger_def GetNumber_def GetBool_def cjson_types)

text \<open>A value of another type than the one asked for gives the default.\<close>

lemma get_other_type [json_simps]:
  "GetNumber (Some (set_name nm (cJSON_CreateString v))) y = y"
  "GetNumber (Some (set_name nm (cJSON_CreateBool b))) y = y"
  "IsObject j \<Longrightarrow> GetInteger j i = i"
  by (auto simp: create_defs GetNumber_def GetInteger_def IsObject_def has_type_def cjson_types split: option.splits)

text \<open>Arrays: the loops that fill them and the loops that read them.\<close>

lemma foldl_Add_json:
  assumes "type_of a = cJsonDap_Array"
  shows "foldl (\<lambda>a x. Json_Add_json nm (Some (g x)) a) (Some a) xs = Some (set_children (children a @ map g xs) a)"
  using assms
proof (induction xs arbitrary: a)
  case (Cons x xs)
  then show ?case
    by (simp add: Json_Add_json_def IsArray_def IsObject_def has_type_def cJSON_AddItemToArray_def)
qed simp

lemma foldl_Add_string:
  assumes "type_of a = cJsonDap_Array"
  shows "foldl (\<lambda>a s. Json_Add_string nm s a) (Some a) xs = Some (set_children (children a @ map cJSON_CreateString xs) a)"
  using assms
proof (induction xs arbitrary: a)
  case (Cons x xs)
  then show ?case
    by (simp add: Json_Add_string_def add_item_def IsArray_def IsObject_def has_type_def cJSON_AddItemToArray_def)
qed simp

lemma Json_nth_eq: "Json_nth (Some n) i = (if i < length (children n) then Some (children n ! i) else None)"
  by (auto simp: Json_nth_def GetCount_def walk_drop list_head_drop)

lemma map_Json_nth: "map (\<lambda>i. f (Json_nth (Some n) i)) [0..<GetCount (Some n)] = map (\<lambda>c. f (Some c)) (children n)"
  by (rule nth_equalityI) (simp_all add: GetCount_def Json_nth_eq)

lemma at_Add_strings [json_simps]:
  "IsObject j \<Longrightarrow> Json_at (Json_Add_strings k vs j) q =
     or_else (Json_at j q)
       (if c_str k = c_str q
        then Some (set_children (map cJSON_CreateString vs) (set_name (Some (c_str k)) cJSON_CreateArray)) else None)"
  by (simp add: Json_Add_strings_def json_simps foldl_Add_string)

lemma GetStringArray_created [json_simps]:
  "GetStringArray (Some (set_children (map cJSON_CreateString vs) (set_name nm cJSON_CreateArray))) = map c_str vs"
proof -
  have "GetString (Some (cJSON_CreateString v)) [] = c_str v" for v
    by (simp add: GetString_def cJSON_CreateString_def)
  then show ?thesis
    by (simp add: GetStringArray_def IsArray_def has_type_def map_Json_nth [where f = "\<lambda>j. GetString j []"])
qed

lemma GetStringArray_None [json_simps]: "GetStringArray None = []"
  by (simp add: GetStringArray_def IsArray_def has_type_def)

section \<open>Trees built by the methods are documents\<close>

definition doc :: "string option \<Rightarrow> Json \<Rightarrow> bool" where
  "doc nm j \<longleftrightarrow> (\<exists>v. wf_json v \<and> j = Some (node_of 0 nm v))"

lemma docI: "wf_json v \<Longrightarrow> j = Some (node_of 0 nm v) \<Longrightarrow> doc nm j"
  by (auto simp: doc_def)

lemma doc_create [doc_intros]:
  "doc None Json_CreateObject" "doc None Json_CreateArray"
  "doc nm (Some (set_name nm cJSON_CreateObject))" "doc nm (Some (set_name nm cJSON_CreateArray))"
  by (rule docI [of "JObj []"] docI [of "JArr []"], simp,
      simp add: Json_CreateObject_def Json_CreateArray_def create_defs)+

lemma doc_leaf:
  "doc None (Some (cJSON_CreateString s))"
  "is_int32 i \<Longrightarrow> doc None (Some (cJSON_CreateNumber (i2d i)))"
  "doc None (Some (cJSON_CreateBool (if b then 1 else 0)))"
    apply (rule docI [of "JStr (c_str s)"]; simp add: create_defs)
   apply (rule docI [of "JNum i"]; simp add: create_defs)
  apply (rule docI [of "JBool b"]; simp add: create_defs)
  done

text \<open>Appending a document to a container, under a name or not.\<close>

lemma node_of_Obj_append:
  "cJSON_AddItemToObject k (Some (node_of b nm' v)) (node_of b nm (JObj ms)) = node_of b nm (JObj (ms @ [(c_str k, v)]))"
  by (simp add: cJSON_AddItemToObject_def cJSON_AddItemToArray_def set_children_def)

lemma node_of_Arr_append:
  "cJSON_AddItemToArray (Some (node_of b None v)) (node_of b nm (JArr js)) = node_of b nm (JArr (js @ [v]))"
  by (simp add: cJSON_AddItemToArray_def set_children_def)

lemma type_node_of [simp]:
  "type_of (node_of b nm v) = cJsonDap_Object \<longleftrightarrow> (\<exists>ms. v = JObj ms)"
  "type_of (node_of b nm v) = cJsonDap_Array \<longleftrightarrow> (\<exists>js. v = JArr js)"
  by (cases v; simp add: cjson_types)+

lemma doc_add_item:
  assumes "doc nm j" "doc None (Some x)" shows "doc nm (add_item k (Some x) j)"
proof -
  obtain v w where v: "wf_json v" "j = Some (node_of 0 nm v)" and w: "wf_json w" "x = node_of 0 None w"
    using assms by (auto simp: doc_def)
  show ?thesis
  proof (cases v)
    case (JArr js)
    with v w show ?thesis
      by (intro docI [of "JArr (js @ [w])"])
        (auto simp: add_item_def IsArray_def IsObject_def has_type_def node_of_Arr_append simp del: node_of.simps)
  next
    case (JObj ms)
    with v w show ?thesis
      by (intro docI [of "JObj (ms @ [(c_str k, w)])"])
        (auto simp: add_item_def IsArray_def IsObject_def has_type_def node_of_Obj_append simp del: node_of.simps)
  qed (use v assms(1) in \<open>simp_all add: add_item_def IsArray_def IsObject_def has_type_def del: node_of.simps\<close>)
qed

lemma doc_Add [doc_intros]:
  "doc nm j \<Longrightarrow> doc nm (Json_Add_string k s j)"
  "doc nm j \<Longrightarrow> is_int32 i \<Longrightarrow> doc nm (Json_Add_int k i j)"
  "doc nm j \<Longrightarrow> doc nm (Json_Add_bool k b j)"
  by (simp_all add: Json_Add_string_def Json_Add_int_def Json_Add_double_def Json_Add_bool_def doc_add_item doc_leaf)

lemma Json_Add_json_item: "Json_Add_json k x j = add_item k x j"
  by (auto simp: Json_Add_json_def add_item_def Json_AddObject_def split: option.splits)

lemma doc_Add_json [doc_intros]:
  "doc nm j \<Longrightarrow> doc None x \<Longrightarrow> doc nm (Json_Add_json k x j)"
  "doc nm j \<Longrightarrow> IsObject j \<Longrightarrow> doc None x \<Longrightarrow> doc nm (Json_AddObject k x j)"
proof -
  show "doc nm j \<Longrightarrow> doc None x \<Longrightarrow> doc nm (Json_Add_json k x j)"
    by (cases x) (auto simp: Json_Add_json_item doc_add_item, simp add: doc_def)
  then show "doc nm j \<Longrightarrow> IsObject j \<Longrightarrow> doc None x \<Longrightarrow> doc nm (Json_AddObject k x j)"
    by (cases j) (auto simp: Json_Add_json_def, simp add: doc_def)
qed

lemma doc_AddItem:
  assumes "doc nm j" "doc None (Some x)" and f: "\<And>nm'. doc nm' (f (Some (set_name nm' x)))"
  shows "doc nm (Json_AddItem k x f j)"
proof -
  obtain v w where v: "wf_json v" "j = Some (node_of 0 nm v)" and w: "wf_json w" "x = node_of 0 None w"
    using assms(1,2) by (auto simp: doc_def)
  have "doc nm' (f (Some (node_of 0 nm' w)))" for nm' using f [of nm'] by (simp add: w)
  then have f': "\<exists>w'. wf_json w' \<and> f (Some (node_of 0 nm' w)) = Some (node_of 0 nm' w')" for nm'
    by (auto simp: doc_def)
  show ?thesis
  proof (cases v)
    case (JArr js)
    obtain w' where "wf_json w'" "f (Some (node_of 0 None w)) = Some (node_of 0 None w')" using f' by blast
    with v w JArr show ?thesis
      by (intro docI [of "JArr (js @ [w'])"])
        (auto simp: Json_AddItem_def on_last_def cJSON_AddItemToArray_def set_children_def cjson_types)
  next
    case (JObj ms)
    obtain w' where "wf_json w'" "f (Some (node_of 0 (Some (c_str k)) w)) = Some (node_of 0 (Some (c_str k)) w')"
      using f' by blast
    with v w JObj show ?thesis
      by (intro docI [of "JObj (ms @ [(c_str k, w')])"])
        (auto simp: Json_AddItem_def on_last_def cJSON_AddItemToArray_def cJSON_AddItemToObject_def
          set_children_def cjson_types)
  qed (use v assms(1) in \<open>simp_all add: Json_AddItem_def del: node_of.simps\<close>)
qed

lemma doc_AddNew [doc_intros]:
  "doc nm j \<Longrightarrow> (\<And>nm' y. doc nm' y \<Longrightarrow> doc nm' (f y)) \<Longrightarrow> doc nm (Json_AddArray k f j)"
  "doc nm j \<Longrightarrow> (\<And>nm' y. doc nm' y \<Longrightarrow> IsObject y \<Longrightarrow> doc nm' (f y)) \<Longrightarrow> doc nm (Json_AddNewObject k f j)"
proof -
  have "doc None (Some cJSON_CreateArray)" "doc None (Some cJSON_CreateObject)"
    using doc_create by (simp_all add: Json_CreateArray_def Json_CreateObject_def)
  then show "doc nm j \<Longrightarrow> (\<And>nm' y. doc nm' y \<Longrightarrow> doc nm' (f y)) \<Longrightarrow> doc nm (Json_AddArray k f j)"
    "doc nm j \<Longrightarrow> (\<And>nm' y. doc nm' y \<Longrightarrow> IsObject y \<Longrightarrow> doc nm' (f y)) \<Longrightarrow> doc nm (Json_AddNewObject k f j)"
    by (simp_all add: Json_AddArray_def Json_AddNewObject_def doc_AddItem doc_create)
qed

lemma doc_foldl [doc_intros]:
  "doc nm a \<Longrightarrow> (\<And>a x. x \<in> set xs \<Longrightarrow> doc nm a \<Longrightarrow> doc nm (g a x)) \<Longrightarrow> doc nm (foldl g a xs)"
  by (induction xs arbitrary: a) auto

lemma doc_Add_strings [doc_intros]: "doc nm j \<Longrightarrow> doc nm (Json_Add_strings k vs j)"
  by (auto simp: Json_Add_strings_def intro!: doc_intros)

section \<open>What the parser changes\<close>

text \<open>
  A tree that was printed and parsed is the same tree, except that the parser sets
  \<^verbatim>\<open>valueint\<close> of its \<^verbatim>\<open>true\<close> nodes.  No accessor of \<^verbatim>\<open>Json\<close> sees the difference.
\<close>

fun retag :: "cJsonDap \<Rightarrow> cJsonDap" where
  "retag (Item t vs vi vd nm cs) = Item t vs (if t = cJsonDap_True then 1 else vi) vd nm (map retag cs)"

definition reparsed :: "Json \<Rightarrow> Json" where
  "reparsed j = map_option retag j"

lemma retag_simps [simp]:
  "type_of (retag n) = type_of n"
  "valuestring (retag n) = valuestring n"
  "valuedouble (retag n) = valuedouble n"
  "name_of (retag n) = name_of n"
  "children (retag n) = map retag (children n)"
  "type_of n \<noteq> cJsonDap_True \<Longrightarrow> valueint (retag n) = valueint n"
  by (cases n; simp)+

lemma retag_node_of: "retag (node_of 0 nm v) = node_of 1 nm v"
  by (induction "0 :: int" nm v rule: node_of.induct) (auto simp: cjson_types)

lemma find_child_retag: "find_child k (map retag cs) = map_option retag (find_child k cs)"
  by (induction cs) auto

lemma get_reparsed [simp]:
  "Json_at (reparsed j) k = reparsed (Json_at j k)"
  "GetString (reparsed j) s = GetString j s"
  "GetInteger (reparsed j) i = GetInteger j i"
  "GetNumber (reparsed j) d = GetNumber j d"
  "GetBool (reparsed j) b = GetBool j b"
  "GetCount (reparsed j) = GetCount j"
  "IsOK (reparsed j) = IsOK j"
  "IsArray (reparsed j) = IsArray j"
  "IsObject (reparsed j) = IsObject j"
  "GetName (reparsed j) = GetName j"
  by (auto simp: reparsed_def Json_at_def find_child_retag GetString_def GetInteger_def GetNumber_def GetBool_def
      GetCount_def IsOK_def IsArray_def IsObject_def has_type_def GetName_def cjson_types split: option.splits)

lemma nth_reparsed [simp]: "Json_nth (reparsed j) i = reparsed (Json_nth j i)"
  by (cases j) (auto simp: reparsed_def Json_nth_eq, simp_all add: Json_nth_def)

lemma GetStringArray_reparsed [simp]: "GetStringArray (reparsed j) = GetStringArray j"
  by (simp add: GetStringArray_def)

text \<open>The wire round trip of a document.\<close>

lemma ToString_doc: "doc None j \<Longrightarrow> \<exists>v. wf_json v \<and> j = Some (node_of 0 None v) \<and> Json_ToString fmt j = Ok (json_text fmt 0 v)"
  by (auto simp: doc_def Json_ToString_def cJSON_Print_def cJSON_PrintUnformatted_def print_node_of)

lemma Parse_ToString:
  assumes "doc None j" "stops r" "no_nul r"
  shows "\<exists>s. Json_ToString fmt j = Ok s \<and> s \<noteq> [] \<and> no_nul s \<and> Json_Parse (s @ r) = Ok (reparsed j)"
proof -
  obtain v where v: "wf_json v" "j = Some (node_of 0 None v)" "Json_ToString fmt j = Ok (json_text fmt 0 v)"
    using ToString_doc [OF assms(1)] by blast
  moreover have "Json_Parse (json_text fmt 0 v @ r) = Ok (reparsed j)"
    using cJSON_Parse_text [OF v(1) assms(2,3)] v by (simp add: Json_Parse_def reparsed_def retag_node_of)
  moreover have "json_text fmt 0 v \<noteq> []" using text_start [of fmt 0 v] by auto
  ultimately show ?thesis using no_nul_text [OF v(1)] by blast
qed

section \<open>The integers of a parsed tree\<close>

text \<open>The field \<^verbatim>\<open>valueint\<close> is an \<^verbatim>\<open>int\<close>: its value is in range in every node the parser makes.\<close>

fun ints_node :: "cJsonDap \<Rightarrow> bool" where
  "ints_node (Item t vs vi vd nm cs) \<longleftrightarrow> is_int32 vi \<and> (\<forall>c\<in>set cs. ints_node c)"

definition ints_json :: "Json \<Rightarrow> bool" where
  "ints_json j = (case j of None \<Rightarrow> True | Some n \<Rightarrow> ints_node n)"

lemma ints_nodeD: "ints_node n \<Longrightarrow> is_int32 (valueint n)" "ints_node n \<Longrightarrow> c \<in> set (children n) \<Longrightarrow> ints_node c"
  by (cases n; simp)+

lemma ints_node_simps [simp]:
  "ints_node (set_name k n) = ints_node n"
  "ints_node (set_children cs n) \<longleftrightarrow> is_int32 (valueint n) \<and> (\<forall>c\<in>set cs. ints_node c)"
  "ints_node cJSON_CreateNull" "ints_node cJSON_CreateFalse" "ints_node cJSON_CreateArray" "ints_node cJSON_CreateObject"
  "ints_node (string_item s)"
  by (cases n; simp add: set_name_def set_children_def create_defs string_item_def)+

lemmas node_defs = cJSON_New_Item_def set_type_def set_children_def cJSON_CreateNull_def cJSON_CreateFalse_def
  cJSON_CreateArray_def cJSON_CreateObject_def

text \<open>
  A property of nodes that the parser establishes for the atoms, and that names and lists of children
  keep, holds for every node it makes.
\<close>

locale parsed_nodes =
  fixes N :: "cJsonDap \<Rightarrow> bool"
  assumes N_name: "N (set_name k n) = N n"
    and N_array: "\<forall>c\<in>set cs. N c \<Longrightarrow> N (set_children cs cJSON_CreateArray)"
    and N_object: "\<forall>c\<in>set cs. N c \<Longrightarrow> N (set_children cs cJSON_CreateObject)"
    and N_atoms: "N cJSON_CreateNull" "N cJSON_CreateFalse" "N (Item cJsonDap_True None 1 (Fin 0) None [])" "N (string_item s)"
      "N (Item cJsonDap_Number None (d2i v) v None [])"
begin

lemma N_empty: "N cJSON_CreateArray" "N cJSON_CreateObject"
  using N_array [of "[]"] N_object [of "[]"] by (simp_all add: create_defs)

lemma parse_items_N:
  assumes "\<And>s x r. pv s = Parsed x r \<Longrightarrow> N x"
  shows "parse_items pv k acc s = Parsed x r \<Longrightarrow> \<forall>c\<in>set acc. N c \<Longrightarrow> N x"
proof (induction k arbitrary: acc s)
  case (Suc k)
  show ?case
  proof (cases "prefix '','' s")
    case True
    with Suc.prems obtain y r2 where y: "pv (skip (tl s)) = Parsed y r2"
      and rest: "parse_items pv k (acc @ [y]) (skip r2) = Parsed x r"
      by (auto simp: pbind_eq_Parsed)
    then show ?thesis using Suc.IH [OF rest] Suc.prems(2) assms [OF y] by (auto simp: N_name)
  next
    case False
    with Suc.prems have "x = set_children acc cJSON_CreateArray" by (simp split: if_splits)
    with Suc.prems(2) show ?thesis by (simp add: N_array)
  qed
qed simp

lemma parse_members_N:
  assumes "\<And>s x r. pv s = Parsed x r \<Longrightarrow> N x"
  shows "parse_members pv k acc s = Parsed x r \<Longrightarrow> \<forall>c\<in>set acc. N c \<Longrightarrow> N x"
proof (induction k arbitrary: acc s)
  case (Suc k)
  show ?case
  proof (cases "prefix '','' s")
    case True
    with Suc.prems obtain key r1 y r2 where y: "pv r1 = Parsed y r2"
      and rest: "parse_members pv k (acc @ [set_name (Some key) y]) (skip r2) = Parsed x r"
      by (auto simp: pbind_eq_Parsed)
    then show ?thesis using Suc.IH [OF rest] Suc.prems(2) assms [OF y] by (auto simp: N_name)
  next
    case False
    with Suc.prems have "x = set_children acc cJSON_CreateObject" by (simp split: if_splits)
    with Suc.prems(2) show ?thesis by (simp add: N_object)
  qed
qed simp

lemma parse_value_N: "parse_value n s = Parsed x r \<Longrightarrow> N x"
proof (induction n arbitrary: s x r)
  case (Suc n)
  have num: "N x" if "parse_number s = Parsed x r"
    using that by (auto simp: parse_number_def Let_def N_atoms split: prod.splits outcome.splits)
  have arr: "N x" if p: "parse_array (parse_value n) s = Parsed x r"
  proof -
    from p consider "x = cJSON_CreateArray"
      | y r0 t where "parse_value n t = Parsed y r0"
          "parse_items (parse_value n) (length (skip (tl s))) [y] (skip r0) = Parsed x r"
      by (auto simp: parse_array_def Let_def pbind_eq_Parsed split: if_splits)
    then show ?thesis using Suc.IH parse_items_N [of "parse_value n"] N_empty by cases force+
  qed
  have obj: "N x" if p: "parse_object (parse_value n) s = Parsed x r"
  proof -
    from p consider "x = cJSON_CreateObject"
      | key y r0 t where "parse_value n t = Parsed y r0"
          "parse_members (parse_value n) (length (skip (tl s))) [set_name (Some key) y] (skip r0) = Parsed x r"
      by (auto simp: parse_object_def Let_def pbind_eq_Parsed split: if_splits)
    then show ?thesis using Suc.IH parse_members_N [of "parse_value n"] N_empty by cases (force simp: N_name)+
  qed
  show ?case using Suc.prems num arr obj by (auto simp: pbind_eq_Parsed N_atoms split: if_splits)
qed simp

end

interpretation ints: parsed_nodes ints_node
  by unfold_locales (simp_all add: node_defs)

text \<open>No node the parser makes is a reference.\<close>

fun plain_node :: "cJsonDap \<Rightarrow> bool" where
  "plain_node (Item t vs vi vd nm cs) \<longleftrightarrow> t div 256 mod 2 = 0 \<and> (\<forall>c\<in>set cs. plain_node c)"

lemma plain_set_name: "plain_node (set_name k n) = plain_node n"
  by (cases n) (simp add: set_name_def)

interpretation plain: parsed_nodes plain_node
  by unfold_locales (simp_all add: plain_set_name node_defs string_item_def cjson_types)

lemma Json_Parse_plain: "Json_Parse s = Ok (Some n) \<Longrightarrow> plain_node n"
  by (auto simp: Json_Parse_def cJSON_Parse_def Let_def split: presult.splits dest: plain.parse_value_N)

lemma Json_Parse_ints: "Json_Parse s = Ok j \<Longrightarrow> ints_json j"
  by (auto simp: Json_Parse_def cJSON_Parse_def Let_def ints_json_def split: presult.splits dest: ints.parse_value_N)

lemma ints_node_find_child: "\<forall>c\<in>set cs. ints_node c \<Longrightarrow> find_child k cs = Some c \<Longrightarrow> ints_node c"
  by (induction cs) (auto split: if_splits)

lemma ints_json_at [ints_intros]: "ints_json j \<Longrightarrow> ints_json (Json_at j k)"
  by (auto simp: ints_json_def Json_at_def split: option.splits dest: ints_nodeD ints_node_find_child [rotated])

lemma ints_json_nth [ints_intros]: "ints_json j \<Longrightarrow> ints_json (Json_nth j i)"
proof (cases j)
  case (Some n)
  assume "ints_json j"
  with Some show ?thesis using ints_nodeD(2) [of n "children n ! i"] by (simp add: ints_json_def Json_nth_eq)
qed (simp add: Json_nth_def ints_json_def GetCount_def)

lemma GetInteger_int32 [ints_intros]: "ints_json j \<Longrightarrow> is_int32 d \<Longrightarrow> is_int32 (GetInteger j d)"
  by (auto simp: ints_json_def GetInteger_def dest: ints_nodeD split: option.splits)

end
