(* ===== verification/Dap_Handles.thy ===== *)
theory Dap_Handles
  imports Dap_Forest Dap_HeapParse Dap_Json
begin

text \<open>
  The ownership of the class \<open>Json\<close> (\<^verbatim>\<open>dap/JSON.cpp\<close>, \<^verbatim>\<open>dap/JSON.hpp\<close>): a handle is a pointer to a node and a pointer to
  a counter, both possibly null.  The state has the memory of the nodes, the counters that are allocated and the
  handles that are alive, by the name of the variable.  Every operation of the class that touches memory is here, on
  the functions of \<^verbatim>\<open>Dap_Heap\<close>; \<open>None\<close> is an access to memory that is not allocated.  The addresses that
  \<^verbatim>\<open>malloc\<close> and \<^verbatim>\<open>new\<close> return are arguments.
\<close>

section \<open>Handles and counters\<close>

record json_handle =
  m_cjson :: "addr option"
  m_refCount :: "addr option"

type_synonym var = nat

record jstate =
  mem :: heap
  counts :: "addr \<rightharpoonup> int"
  vars :: "var \<rightharpoonup> json_handle"

definition null_json :: json_handle where
  "null_json = \<lparr>m_cjson = None, m_refCount = None\<rparr>"

definition h_IsManaged :: "json_handle \<Rightarrow> bool" where
  "h_IsManaged j \<longleftrightarrow> m_refCount j \<noteq> None"

definition h_Json :: "addr option \<Rightarrow> json_handle" where
  "h_Json p = \<lparr>m_cjson = p, m_refCount = None\<rparr>"

definition h_Delete :: "json_handle \<Rightarrow> jstate \<Rightarrow> (json_handle \<times> jstate) option" where
  "h_Delete j s =
     (case m_cjson j of
        None \<Rightarrow> Some (j, s)
      | Some a \<Rightarrow> map_option (\<lambda>h. (j \<lparr>m_cjson := None\<rparr>, s \<lparr>mem := h\<rparr>)) (heap_Delete (Some a) (mem s)))"

definition h_DecRef :: "json_handle \<Rightarrow> jstate \<Rightarrow> (json_handle \<times> jstate) option" where
  "h_DecRef j s =
     (case m_refCount j of
        None \<Rightarrow> Some (j, s)
      | Some c \<Rightarrow>
          Option.bind (counts s c) (\<lambda>n.
            let s = s \<lparr>counts := (counts s)(c \<mapsto> n - 1)\<rparr> in
            if n - 1 = 0 then
              map_option (\<lambda>(j, s). (j \<lparr>m_refCount := None\<rparr>, s \<lparr>counts := (counts s)(c := None)\<rparr>)) (h_Delete j s)
            else Some (j, s)))"

definition h_IncRef :: "json_handle \<Rightarrow> jstate \<Rightarrow> jstate option" where
  "h_IncRef j s =
     (case m_refCount j of
        None \<Rightarrow> Some s
      | Some c \<Rightarrow> map_option (\<lambda>n. s \<lparr>counts := (counts s)(c \<mapsto> n + 1)\<rparr>) (counts s c))"

definition h_Manage :: "addr \<Rightarrow> json_handle \<Rightarrow> jstate \<Rightarrow> json_handle \<times> jstate" where
  "h_Manage c j s =
     (if \<not> h_IsManaged j then (j \<lparr>m_refCount := Some c\<rparr>, s \<lparr>counts := (counts s)(c \<mapsto> 1)\<rparr>) else (j, s))"

definition h_UnManage :: "json_handle \<Rightarrow> jstate \<Rightarrow> (json_handle \<times> jstate) option" where
  "h_UnManage j s =
     (case m_refCount j of
        None \<Rightarrow> Some (j, s)
      | Some c \<Rightarrow>
          (if counts s c = None then None
           else Some (j \<lparr>m_refCount := None\<rparr>, s \<lparr>counts := (counts s)(c := None)\<rparr>)))"

section \<open>Variables\<close>

definition set_var :: "var \<Rightarrow> json_handle \<Rightarrow> jstate \<Rightarrow> jstate" where
  "set_var x j s = s \<lparr>vars := (vars s)(x \<mapsto> j)\<rparr>"

text \<open>\<^verbatim>\<open>operator=\<close>, the copy constructor and the destructor.\<close>

definition h_assign :: "var \<Rightarrow> var \<Rightarrow> jstate \<Rightarrow> jstate option" where
  "h_assign x y s =
     (if x = y then Some s
      else
        Option.bind (vars s x) (\<lambda>this.
        Option.bind (vars s y) (\<lambda>other.
        Option.bind (h_DecRef this s) (\<lambda>(this, s).
        let this = this \<lparr>m_refCount := m_refCount other, m_cjson := m_cjson other\<rparr> in
          h_IncRef this (set_var x this s)))))"

definition h_copy :: "var \<Rightarrow> var \<Rightarrow> jstate \<Rightarrow> jstate option" where
  "h_copy x y s = h_assign x y (set_var x null_json s)"

definition h_destroy :: "var \<Rightarrow> jstate \<Rightarrow> jstate option" where
  "h_destroy x s =
     Option.bind (vars s x) (\<lambda>this.
       map_option (\<lambda>(this, s). s \<lparr>vars := (vars s)(x := None)\<rparr>) (h_DecRef this s))"

section \<open>Creating\<close>

definition h_Create :: "int \<Rightarrow> var \<Rightarrow> addr \<Rightarrow> addr \<Rightarrow> jstate \<Rightarrow> jstate option" where
  "h_Create t x a c s =
     map_option (\<lambda>h. let (j, s) = h_Manage c (h_Json (Some a)) (s \<lparr>mem := h\<rparr>) in set_var x j s) (heap_Create t a (mem s))"

definition h_CreateArray :: "var \<Rightarrow> addr \<Rightarrow> addr \<Rightarrow> jstate \<Rightarrow> jstate option" where
  "h_CreateArray = h_Create cJsonDap_Array"

definition h_CreateObject :: "var \<Rightarrow> addr \<Rightarrow> addr \<Rightarrow> jstate \<Rightarrow> jstate option" where
  "h_CreateObject = h_Create cJsonDap_Object"

text \<open>
  \<^verbatim>\<open>Json::Parse\<close>: the tree that \<^verbatim>\<open>cJSON_Parse\<close> builds is written to memory as a whole, at the addresses that it
  carries; the null pointer is managed too.
\<close>

definition put_chars :: "(addr \<times> string) option \<Rightarrow> heap \<Rightarrow> heap" where
  "put_chars p h = (case p of None \<Rightarrow> h | Some (a, s) \<Rightarrow> malloc a (Chars s) h)"

fun heap_put :: "addr option \<Rightarrow> atree list \<Rightarrow> heap \<Rightarrow> heap" where
  "heap_put p [] h = h"
| "heap_put p (ANode a t vs i d nm ks # ts) h =
     heap_put (Some a) ts (heap_put None ks
       (malloc a (Cell \<lparr>c_next = map_option node_addr (list_head ts), c_prev = p, c_child = map_option node_addr (list_head ks), c_type = t,
            c_valuestring = map_option fst vs, c_valueint = i, c_valuedouble = d, c_string = map_option fst nm\<rparr>)
          (put_chars nm (put_chars vs h))))"

definition h_Parse :: "var \<Rightarrow> atree option \<Rightarrow> addr \<Rightarrow> jstate \<Rightarrow> jstate" where
  "h_Parse x t c s =
     (let h = heap_put None (case t of None \<Rightarrow> [] | Some w \<Rightarrow> [w]) (mem s);
          (j, s) = h_Manage c (h_Json (map_option node_addr t)) (s \<lparr>mem := h\<rparr>)
      in set_var x j s)"

section \<open>Access\<close>

text \<open>The loop of \<^verbatim>\<open>operator[]\<close> compares with \<^verbatim>\<open>strcmp\<close> and skips nodes without a name.\<close>

partial_function (option) h_find_child :: "string \<Rightarrow> addr option \<Rightarrow> heap \<Rightarrow> addr option option" where
  "h_find_child k c h =
     (case c of
        None \<Rightarrow> Some None
      | Some a \<Rightarrow>
          Option.bind (load a h) (\<lambda>n.
          Option.bind (chars (c_string n) h) (\<lambda>s.
            if s = Some (c_str k) then Some (Some a) else h_find_child k (c_next n) h)))"

declare h_find_child.simps [code]

definition h_at :: "json_handle \<Rightarrow> string \<Rightarrow> jstate \<Rightarrow> json_handle option" where
  "h_at j k s =
     (case m_cjson j of
        None \<Rightarrow> Some (h_Json None)
      | Some a \<Rightarrow> Option.bind (load a (mem s)) (\<lambda>n. map_option h_Json (h_find_child k (c_child n) (mem s))))"

partial_function (option) h_count :: "addr option \<Rightarrow> heap \<Rightarrow> nat option" where
  "h_count c h =
     (case c of None \<Rightarrow> Some 0 | Some a \<Rightarrow> Option.bind (load a h) (\<lambda>n. Option.bind (h_count (c_next n) h) (\<lambda>k. Some (Suc k))))"

declare h_count.simps [code]

definition h_GetCount :: "json_handle \<Rightarrow> jstate \<Rightarrow> nat option" where
  "h_GetCount j s =
     (case m_cjson j of None \<Rightarrow> Some 0 | Some a \<Rightarrow> Option.bind (load a (mem s)) (\<lambda>n. h_count (c_child n) (mem s)))"

text \<open>The loop of \<^verbatim>\<open>operator[](size_t)\<close> reads \<^verbatim>\<open>child->next\<close> without a test.\<close>

primrec h_step :: "nat \<Rightarrow> addr option \<Rightarrow> heap \<Rightarrow> addr option option" where
  "h_step 0 c h = Some c"
| "h_step (Suc n) c h = Option.bind c (\<lambda>a. Option.bind (load a h) (\<lambda>x. h_step n (c_next x) h))"

definition h_nth :: "json_handle \<Rightarrow> nat \<Rightarrow> jstate \<Rightarrow> json_handle option" where
  "h_nth j i s =
     Option.bind (h_GetCount j s) (\<lambda>n.
       if i \<ge> n then Some (h_Json None)
       else Option.bind (m_cjson j) (\<lambda>a. Option.bind (load a (mem s)) (\<lambda>x. map_option h_Json (h_step i (c_child x) (mem s)))))"

section \<open>Adding\<close>

definition h_has_type :: "int \<Rightarrow> json_handle \<Rightarrow> jstate \<Rightarrow> bool option" where
  "h_has_type t j s = (case m_cjson j of None \<Rightarrow> Some False | Some a \<Rightarrow> map_option (\<lambda>n. c_type n = t) (load a (mem s)))"

definition on_mem :: "jstate \<Rightarrow> heap option \<Rightarrow> jstate option" where
  "on_mem s r = map_option (\<lambda>h. s \<lparr>mem := h\<rparr>) r"

definition h_AddItem :: "string \<Rightarrow> addr \<Rightarrow> addr \<Rightarrow> json_handle \<Rightarrow> jstate \<Rightarrow> (json_handle \<times> jstate) option" where
  "h_AddItem name sa item j s =
     (case m_cjson j of
        None \<Rightarrow> map_option (\<lambda>s. (h_Json None, s)) (on_mem s (heap_Delete (Some item) (mem s)))
      | Some a \<Rightarrow>
          Option.bind (load a (mem s)) (\<lambda>n.
            if c_type n \<noteq> cJsonDap_Array \<and> c_type n \<noteq> cJsonDap_Object then
              map_option (\<lambda>s. (h_Json None, s)) (on_mem s (heap_Delete (Some item) (mem s)))
            else
              map_option (\<lambda>s. (h_Json (Some item), s))
                (on_mem s (if c_type n = cJsonDap_Array then heap_AddItemToArray a (Some item) (mem s)
                           else heap_AddItemToObject a name sa (Some item) (mem s)))))"

text \<open>\<^verbatim>\<open>AddArray(name)\<close> and \<^verbatim>\<open>AddObject(name)\<close>\<close>

definition h_AddNew :: "int \<Rightarrow> string \<Rightarrow> addr \<Rightarrow> addr \<Rightarrow> json_handle \<Rightarrow> jstate \<Rightarrow> (json_handle \<times> jstate) option" where
  "h_AddNew t name sa a j s =
     Option.bind (on_mem s (heap_Create t a (mem s))) (h_AddItem name sa a j)"

text \<open>
  \<^verbatim>\<open>Add(name, value)\<close> of a string, a number or a truth value: the macro \<^verbatim>\<open>CHECK_IS_CONTAINER\<close>, then the item that
  \<open>mk\<close> creates is added.
\<close>

definition h_Add :: "string \<Rightarrow> addr \<Rightarrow> (heap \<Rightarrow> heap option) \<Rightarrow> addr \<Rightarrow> json_handle \<Rightarrow> jstate \<Rightarrow> (json_handle \<times> jstate) option" where
  "h_Add name sa mk item j s =
     (case m_cjson j of
        None \<Rightarrow> Some (h_Json None, s)
      | Some a \<Rightarrow>
          Option.bind (h_has_type cJsonDap_Array j s) (\<lambda>arr.
          Option.bind (h_has_type cJsonDap_Object j s) (\<lambda>obj.
            if \<not> arr \<and> \<not> obj then Some (h_Json (Some a), s)
            else
              Option.bind (on_mem s (mk (mem s))) (\<lambda>s.
              map_option (\<lambda>s. (h_Json (Some a), s))
                (on_mem s (if obj then heap_AddItemToObject a name sa (Some item) (mem s)
                           else heap_AddItemToArray a (Some item) (mem s)))))))"

text \<open>The values that are added, with the addresses of their blocks.\<close>

datatype scalar = Str string addr | Num double | Bool bool

definition mk_scalar :: "scalar \<Rightarrow> addr \<Rightarrow> heap \<Rightarrow> heap option" where
  "mk_scalar v a h =
     (case v of Str w va \<Rightarrow> heap_CreateString w a va h
      | Num x \<Rightarrow> heap_CreateNumber x a h
      | Bool b \<Rightarrow> heap_Create (if b then cJsonDap_True else cJsonDap_False) a h)"

text \<open>
  \<^verbatim>\<open>AddObject(name, obj)\<close> and \<^verbatim>\<open>Add(name, value)\<close> of a \<open>Json\<close> take ownership of the tree of the variable \<open>z\<close>, whose counter
  they delete; the result is a copy of \<open>z\<close>, in the variable \<open>x\<close>.
\<close>

definition h_take :: "var \<Rightarrow> jstate \<Rightarrow> jstate option" where
  "h_take z s =
     Option.bind (vars s z) (\<lambda>ob.
       if h_IsManaged ob then map_option (\<lambda>(ob, s). set_var z ob s) (h_UnManage ob s) else Some s)"

definition h_AddObject :: "var \<Rightarrow> string \<Rightarrow> addr \<Rightarrow> json_handle \<Rightarrow> var \<Rightarrow> jstate \<Rightarrow> jstate option" where
  "h_AddObject x name sa j z s =
     (case m_cjson j of
        None \<Rightarrow> h_copy x z s
      | Some a \<Rightarrow>
          Option.bind (vars s z) (\<lambda>ob.
          Option.bind (on_mem s (heap_AddItemToObject a name sa (m_cjson ob) (mem s))) (\<lambda>s.
          Option.bind (h_take z s) (h_copy x z))))"

definition h_AddJson :: "var \<Rightarrow> string \<Rightarrow> addr \<Rightarrow> json_handle \<Rightarrow> var \<Rightarrow> jstate \<Rightarrow> jstate option" where
  "h_AddJson x name sa j z s =
     (case m_cjson j of
        None \<Rightarrow> Some (set_var x (h_Json None) s)
      | Some a \<Rightarrow>
          Option.bind (h_has_type cJsonDap_Array j s) (\<lambda>arr.
          Option.bind (h_has_type cJsonDap_Object j s) (\<lambda>obj.
            if \<not> arr \<and> \<not> obj then Some (set_var x (h_Json (Some a)) s)
            else if obj then h_AddObject x name sa j z s
            else
              Option.bind (vars s z) (\<lambda>ob.
              Option.bind (h_take z s) (\<lambda>s.
              Option.bind (on_mem s (heap_AddItemToArray a (m_cjson ob) (mem s))) (h_copy x z))))))"

section \<open>Programs\<close>

text \<open>
  The statements of a client.  Every result is bound to a new variable \<open>x\<close>; the addresses are those of the blocks
  that the statement may allocate.
\<close>

datatype jop =
    Default var
  | CreateArray var addr addr
  | CreateObject var addr addr
  | Parse var string "atree option" addr
  | Copy var var
  | Assign var var
  | Destroy var
  | At var var string
  | Nth var var nat
  | AddNew int var var string addr addr
  | Add var var string scalar addr addr
  | AddObject var var string var addr
  | AddJson var var string var addr

definition with_var :: "var \<Rightarrow> (json_handle \<Rightarrow> jstate \<Rightarrow> 'a option) \<Rightarrow> jstate \<Rightarrow> 'a option" where
  "with_var y f s = Option.bind (vars s y) (\<lambda>j. f j s)"

definition bind_to :: "var \<Rightarrow> (json_handle \<times> jstate) option \<Rightarrow> jstate option" where
  "bind_to x r = map_option (\<lambda>(j, s). set_var x j s) r"

fun exec :: "jop \<Rightarrow> jstate \<Rightarrow> jstate option" where
  "exec (Default x) s = Some (set_var x null_json s)"
| "exec (CreateArray x a c) s = h_CreateArray x a c s"
| "exec (CreateObject x a c) s = h_CreateObject x a c s"
| "exec (Parse x src t c) s = Some (h_Parse x t c s)"
| "exec (Copy x y) s = h_copy x y s"
| "exec (Assign x y) s = h_assign x y s"
| "exec (Destroy x) s = h_destroy x s"
| "exec (At x y k) s = with_var y (\<lambda>j s. map_option (\<lambda>r. set_var x r s) (h_at j k s)) s"
| "exec (Nth x y i) s = with_var y (\<lambda>j s. map_option (\<lambda>r. set_var x r s) (h_nth j i s)) s"
| "exec (AddNew t x y k sa a) s = with_var y (\<lambda>j s. bind_to x (h_AddNew t k sa a j s)) s"
| "exec (Add x y k v sa a) s = with_var y (\<lambda>j s. bind_to x (h_Add k sa (mk_scalar v a) a j s)) s"
| "exec (AddObject x y k z sa) s = with_var y (\<lambda>j. h_AddObject x k sa j z) s"
| "exec (AddJson x y k z sa) s = with_var y (\<lambda>j. h_AddJson x k sa j z) s"

fun exec_all :: "jop list \<Rightarrow> jstate \<Rightarrow> jstate option" where
  "exec_all [] s = Some s"
| "exec_all (p # ps) s = Option.bind (exec p s) (exec_all ps)"

text \<open>
  The discipline of the clients.  A result goes to a new variable; \<^verbatim>\<open>malloc\<close> returns memory that is not in use; a handle
  that is used points to a node that has not been freed; a tree that is handed over has one owner and the receiver is
  not part of it.
\<close>

definition fresh_var :: "var \<Rightarrow> jstate \<Rightarrow> bool" where
  "fresh_var x s \<longleftrightarrow> vars s x = None"

definition fresh :: "addr list \<Rightarrow> jstate \<Rightarrow> bool" where
  "fresh as s \<longleftrightarrow> distinct as \<and> list_all (\<lambda>a. mem s a = None) as"

definition usable :: "var \<Rightarrow> jstate \<Rightarrow> bool" where
  "usable y s =
     (case vars s y of None \<Rightarrow> False
      | Some j \<Rightarrow> (case m_cjson j of None \<Rightarrow> True | Some a \<Rightarrow> load a (mem s) \<noteq> None))"

definition sole_owner :: "var \<Rightarrow> var \<Rightarrow> jstate \<Rightarrow> bool" where
  "sole_owner y z s =
     (case (vars s y, vars s z) of
        (Some j, Some ob) \<Rightarrow>
          (case m_refCount ob of None \<Rightarrow> False | Some c \<Rightarrow> counts s c = Some 1) \<and>
          (case m_cjson j of None \<Rightarrow> True
           | Some a \<Rightarrow> (case heap_nodes (m_cjson ob) (mem s) of None \<Rightarrow> False | Some xs \<Rightarrow> a \<notin> set xs))
      | _ \<Rightarrow> False)"

fun scalar_addrs :: "scalar \<Rightarrow> addr list" where
  "scalar_addrs (Str w va) = [va]"
| "scalar_addrs _ = []"

fun legal :: "jop \<Rightarrow> jstate \<Rightarrow> bool" where
  "legal (Default x) s \<longleftrightarrow> fresh_var x s"
| "legal (CreateArray x a c) s \<longleftrightarrow> fresh_var x s \<and> fresh [a] s \<and> counts s c = None"
| "legal (CreateObject x a c) s \<longleftrightarrow> fresh_var x s \<and> fresh [a] s \<and> counts s c = None"
| "legal (Parse x src t c) s \<longleftrightarrow> fresh_var x s \<and> counts s c = None \<and> (t = None \<or> Json_Parse src = Ok (map_option tree_of t)) \<and>
     fresh (case t of None \<Rightarrow> [] | Some w \<Rightarrow> owned w) s"
| "legal (Copy x y) s \<longleftrightarrow> fresh_var x s \<and> vars s y \<noteq> None"
| "legal (Assign x y) s \<longleftrightarrow> vars s x \<noteq> None \<and> vars s y \<noteq> None"
| "legal (Destroy x) s \<longleftrightarrow> vars s x \<noteq> None"
| "legal (At x y k) s \<longleftrightarrow> fresh_var x s \<and> usable y s"
| "legal (Nth x y i) s \<longleftrightarrow> fresh_var x s \<and> usable y s"
| "legal (AddNew t x y k sa a) s \<longleftrightarrow> t \<in> {cJsonDap_Array, cJsonDap_Object} \<and> fresh_var x s \<and> usable y s \<and> fresh [sa, a] s"
| "legal (Add x y k v sa a) s \<longleftrightarrow> fresh_var x s \<and> usable y s \<and> fresh (sa # a # scalar_addrs v) s"
| "legal (AddObject x y k z sa) s \<longleftrightarrow> fresh_var x s \<and> usable y s \<and> fresh [sa] s \<and> sole_owner y z s"
| "legal (AddJson x y k z sa) s \<longleftrightarrow> fresh_var x s \<and> usable y s \<and> fresh [sa] s \<and> sole_owner y z s"

fun legal_all :: "jop list \<Rightarrow> jstate \<Rightarrow> bool" where
  "legal_all [] s = True"
| "legal_all (p # ps) s \<longleftrightarrow> legal p s \<and> (case exec p s of None \<Rightarrow> True | Some s' \<Rightarrow> legal_all ps s')"

definition init_jstate :: jstate where
  "init_jstate = \<lparr>mem = Map.empty, counts = Map.empty, vars = Map.empty\<rparr>"

section \<open>What the owners hold\<close>

text \<open>The number of handles that use a counter.\<close>

definition refs :: "(var \<rightharpoonup> json_handle) \<Rightarrow> addr \<Rightarrow> nat" where
  "refs V c = card {x. Option.bind (V x) m_refCount = Some c}"

text \<open>
  \<open>own_ok C V R\<close>: the counters \<open>C\<close> count the handles of \<open>V\<close>; \<open>R\<close> has the node that the handles of each counter
  point to.
\<close>

definition own_ok :: "(addr \<rightharpoonup> int) \<Rightarrow> (var \<rightharpoonup> json_handle) \<Rightarrow> (addr \<times> addr option) list \<Rightarrow> bool" where
  "own_ok C V R \<longleftrightarrow> finite (dom V) \<and> distinct (map fst R) \<and>
     (\<forall>c. C c = (if c \<in> fst ` set R then Some (int (refs V c)) else None)) \<and> (\<forall>c\<in>fst ` set R. 0 < refs V c) \<and>
     (\<forall>x j c. V x = Some j \<longrightarrow> m_refCount j = Some c \<longrightarrow> (c, m_cjson j) \<in> set R)"

lemma refs_finite: "finite (dom V) \<Longrightarrow> finite {x. Option.bind (V x) m_refCount = Some c}"
  by (rule finite_subset [of _ "dom V"]) (auto split: bind_splits)

lemma refs_new: "finite (dom V) \<Longrightarrow> V x = None \<Longrightarrow> refs (V(x \<mapsto> j)) c = refs V c + (if m_refCount j = Some c then 1 else 0)"
proof -
  assume a: "finite (dom V)" "V x = None"
  have "{y. Option.bind ((V(x \<mapsto> j)) y) m_refCount = Some c} =
      {y. Option.bind (V y) m_refCount = Some c} \<union> (if m_refCount j = Some c then {x} else {})" using a(2) by (auto split: bind_splits)
  moreover have "x \<notin> {y. Option.bind (V y) m_refCount = Some c}" using a(2) by simp
  ultimately show ?thesis using refs_finite [OF a(1)] by (simp add: refs_def)
qed

lemma refs_old: "finite (dom V) \<Longrightarrow> V x = Some j \<Longrightarrow> refs V c = refs (V(x := None)) c + (if m_refCount j = Some c then 1 else 0)"
  using refs_new [of "V(x := None)" x j c] by (simp add: fun_upd_idem)

lemma own_ok_refs_pos: "own_ok C V R \<Longrightarrow> V x = Some j \<Longrightarrow> m_refCount j = Some c \<Longrightarrow> (c, m_cjson j) \<in> set R \<and> C c = Some (int (refs V c)) \<and> 0 < refs V c"
  by (force simp: own_ok_def)

text \<open>A handle without a counter changes nothing.\<close>

lemma own_ok_alias: "own_ok C V R \<Longrightarrow> V x = None \<Longrightarrow> m_refCount j = None \<Longrightarrow> own_ok C (V(x \<mapsto> j)) R"
  by (auto simp: own_ok_def refs_new)

lemma own_ok_manage:
  assumes "own_ok C V R" "V x = None" "C c = None"
  shows "own_ok (C(c \<mapsto> 1)) (V(x \<mapsto> \<lparr>m_cjson = p, m_refCount = Some c\<rparr>)) ((c, p) # R)"
proof -
  have c: "c \<notin> fst ` set R" using assms(1,3) by (auto simp: own_ok_def split: if_splits)
  have "{y. Option.bind (V y) m_refCount = Some c} = {}"
  proof (intro equals0I, simp)
    fix y assume "Option.bind (V y) m_refCount = Some c"
    then obtain j where "V y = Some j" "m_refCount j = Some c" by (auto split: bind_splits)
    then show False using own_ok_refs_pos [OF assms(1)] c by force
  qed
  then have "refs V c = 0" by (simp add: refs_def)
  then show ?thesis using assms c by (auto simp: own_ok_def refs_new)
qed

lemma own_ok_inc:
  assumes "own_ok C V R" "V x = None" "V y = Some j" "m_refCount j = Some c"
  shows "own_ok (C(c \<mapsto> int (refs V c) + 1)) (V(x \<mapsto> j)) R"
proof -
  have "(c, m_cjson j) \<in> set R" using own_ok_refs_pos [OF assms(1,3,4)] by blast
  then have "c \<in> fst ` set R" by force
  then show ?thesis using assms by (auto simp: own_ok_def refs_new)
qed

text \<open>A handle that goes away, with others left or as the last one.\<close>

lemma own_ok_dec:
  assumes "own_ok C V R" "V x = Some j" "m_refCount j = Some c" "refs V c \<noteq> 1"
  shows "own_ok (C(c \<mapsto> int (refs V c) - 1)) (V(x := None)) R"
proof -
  have f: "finite (dom V)" "(c, m_cjson j) \<in> set R" "0 < refs V c" using assms own_ok_refs_pos [OF assms(1-3)] by (auto simp: own_ok_def)
  then have "c \<in> fst ` set R" by force
  moreover have r: "refs V d = refs (V(x := None)) d + (if d = c then 1 else 0)" for d using refs_old [OF f(1) assms(2), of d] assms(3) by auto
  moreover have "0 < refs (V(x := None)) d" if "d \<in> fst ` set R" for d
  proof -
    have "0 < refs V d" using assms(1) that unfolding own_ok_def by blast
    then show ?thesis using r [of d] assms(4) by (cases "d = c") simp_all
  qed
  ultimately show ?thesis using assms(1) by (simp add: own_ok_def)
qed

lemma own_ok_last:
  assumes "own_ok C V R" "V x = Some j" "m_refCount j = Some c" "refs V c = 1" "R = R1 @ (c, p) # R2"
  shows "own_ok (C(c := None)) (V(x := None)) (R1 @ R2)" "m_cjson j = p"
proof -
  have f: "finite (dom V)" "(c, m_cjson j) \<in> set R" using assms own_ok_refs_pos [OF assms(1-3)] by (auto simp: own_ok_def)
  have c: "c \<notin> fst ` set (R1 @ R2)" using assms(1,5) by (auto simp: own_ok_def)
  then show "m_cjson j = p" using f(2) assms(5) by force
  have r: "refs V d = refs (V(x := None)) d + (if d = c then 1 else 0)" for d using refs_old [OF f(1) assms(2), of d] assms(3) by auto
  have z: "refs (V(x := None)) c = 0" using r [of c] assms(4) by simp
  have n: "m_refCount i \<noteq> Some c" if "(V(x := None)) y = Some i" for y i
  proof
    assume "m_refCount i = Some c"
    then have "y \<in> {y. Option.bind ((V(x := None)) y) m_refCount = Some c}" using that by (simp split: if_splits)
    then show False using z refs_finite [of "V(x := None)" c] f(1) unfolding refs_def by auto
  qed
  have 5: "\<forall>y i d. (V(x := None)) y = Some i \<longrightarrow> m_refCount i = Some d \<longrightarrow> (d, m_cjson i) \<in> set (R1 @ R2)"
  proof (intro allI impI)
    fix y i d assume y: "(V(x := None)) y = Some i" "m_refCount i = Some d"
    then have "(d, m_cjson i) \<in> set R" "d \<noteq> c" using own_ok_refs_pos [OF assms(1), of y i d] n [of y i] by (auto split: if_splits)
    then show "(d, m_cjson i) \<in> set (R1 @ R2)" using assms(5) by auto
  qed
  have "\<forall>d. (C(c := None)) d = (if d \<in> fst ` set (R1 @ R2) then Some (int (refs (V(x := None)) d)) else None)"
    using assms(1,5) r c by (auto simp: own_ok_def)
  moreover have "\<forall>d\<in>fst ` set (R1 @ R2). 0 < refs (V(x := None)) d"
  proof
    fix d assume d: "d \<in> fst ` set (R1 @ R2)"
    then have "d \<in> fst ` set R" using assms(5) by auto
    then have "0 < refs V d" using assms(1) unfolding own_ok_def by blast
    moreover have "d \<noteq> c" using c d by blast
    ultimately show "0 < refs (V(x := None)) d" using r [of d] by simp
  qed
  ultimately show "own_ok (C(c := None)) (V(x := None)) (R1 @ R2)" using assms(1,5) 5 by (auto simp: own_ok_def)
qed

section \<open>The invariant\<close>

text \<open>
  \<open>F\<close> has the tree of every counter.  The memory holds these trees and nothing else, and every counter is the number of
  its handles.
\<close>

type_synonym forest = "(addr \<times> atree option) list"

definition trees :: "forest \<Rightarrow> atree list" where
  "trees F = List.map_filter snd F"

definition roots :: "forest \<Rightarrow> (addr \<times> addr option) list" where
  "roots F = map (\<lambda>(c, t). (c, map_option node_addr t)) F"

definition hinv :: "jstate \<Rightarrow> forest \<Rightarrow> bool" where
  "hinv s F \<longleftrightarrow> mem_ok (mem s) (trees F) \<and> own_ok (counts s) (vars s) (roots F)"

lemma trees_simps [simp]: "trees [] = []" "trees (F @ G) = trees F @ trees G" "trees ((c, Some v) # F) = v # trees F" "trees ((c, None) # F) = trees F"
  by (simp_all add: trees_def map_filter_def)

lemma roots_simps [simp]: "roots [] = []" "roots (F @ G) = roots F @ roots G" "roots ((c, t) # F) = (c, map_option node_addr t) # roots F"
  by (simp_all add: roots_def)

lemma in_roots: "(c, p) \<in> set (roots F) \<Longrightarrow> \<exists>F1 t F2. F = F1 @ (c, t) # F2 \<and> p = map_option node_addr t"
  by (auto simp: roots_def dest!: split_list)

lemma in_trees: "v \<in> set (trees F) \<Longrightarrow> \<exists>F1 c F2. F = F1 @ (c, Some v) # F2"
proof -
  assume "v \<in> set (trees F)"
  then obtain c where "(c, Some v) \<in> set F" by (force simp: trees_def map_filter_def)
  then show ?thesis using split_list [of "(c, Some v)" F] by blast
qed

lemma hinv_empty: "hinv init_jstate []"
  by (simp add: hinv_def init_jstate_def own_ok_def)

lemma hinv_no_vars: "hinv s F \<Longrightarrow> vars s = Map.empty \<Longrightarrow> mem s = Map.empty \<and> counts s = Map.empty"
proof -
  assume h: "hinv s F" "vars s = Map.empty"
  then have "refs (vars s) c = 0" for c by (simp add: refs_def)
  then have "roots F = []" using h(1) by (force simp: hinv_def own_ok_def)
  then have "F = []" by (simp add: roots_def)
  then show ?thesis using h(1) by (auto simp: hinv_def own_ok_def)
qed

section \<open>Handles come and go\<close>

lemma json_eta [simp]: "i \<lparr>m_refCount := m_refCount j, m_cjson := m_cjson j\<rparr> = j" "\<lparr>m_cjson = m_cjson j, m_refCount = m_refCount j\<rparr> = j"
  by (rule json_handle.equality; simp)+

lemma h_DecRef_ok:
  assumes "hinv s F" "vars s x = Some j"
  shows "\<exists>j' s' F'. h_DecRef j s = Some (j', s') \<and> vars s' = vars s \<and> hinv (s' \<lparr>vars := (vars s)(x := None)\<rparr>) F'"
proof (cases "m_refCount j")
  case None
  have "own_ok (counts s) ((vars s)(x := None)) (roots F)"
  proof -
    have f: "finite (dom (vars s))" using assms(1) by (simp add: hinv_def own_ok_def)
    have "refs (vars s) c = refs ((vars s)(x := None)) c" for c using refs_old [OF f assms(2)] None by simp
    then show ?thesis using assms(1) by (auto simp: hinv_def own_ok_def split: if_splits)
  qed
  then show ?thesis using None assms(1) by (auto simp: h_DecRef_def hinv_def)
next
  case (Some c)
  have ow: "own_ok (counts s) (vars s) (roots F)" "mem_ok (mem s) (trees F)" using assms(1) by (simp_all add: hinv_def)
  note r = own_ok_refs_pos [OF ow(1) assms(2) Some]
  show ?thesis
  proof (cases "refs (vars s) c = 1")
    case False
    then show ?thesis using own_ok_dec [OF ow(1) assms(2) Some False] ow(2) r Some by (auto simp: h_DecRef_def hinv_def Let_def)
  next
    case True
    from r in_roots obtain F1 t F2 where F: "F = F1 @ (c, t) # F2" "m_cjson j = map_option node_addr t" by blast
    have o: "own_ok ((counts s)(c := None)) ((vars s)(x := None)) (roots (F1 @ F2))"
      using own_ok_last(1) [OF ow(1) assms(2) Some True, of "roots F1" _ "roots F2"] F(1) by simp
    show ?thesis
    proof (cases t)
      case None
      then show ?thesis using F r Some True o ow(2) by (auto simp: h_DecRef_def h_Delete_def hinv_def Let_def intro!: exI [of _ "F1 @ F2"])
    next
      case (Some w)
      have "mem_ok (mem s) (w # trees (F1 @ F2))" using ow(2) F(1) Some mem_ok_perm [of "trees F" "w # trees (F1 @ F2)"] by simp
      from mem_ok_Delete [OF this] obtain g where "heap_Delete (Some (node_addr w)) (mem s) = Some g" "mem_ok g (trees (F1 @ F2))" by blast
      then show ?thesis using Some F r \<open>m_refCount j = Some c\<close> True o
        by (auto simp: h_DecRef_def h_Delete_def hinv_def Let_def intro!: exI [of _ "F1 @ F2"])
    qed
  qed
qed

lemma h_IncRef_ok:
  assumes "hinv s F" "vars s x = None" "vars s y = Some j"
  shows "\<exists>s'. h_IncRef j (set_var x j s) = Some s' \<and> hinv s' F"
proof (cases "m_refCount j")
  case None
  then show ?thesis using assms own_ok_alias [of "counts s" "vars s" "roots F" x j] by (simp add: h_IncRef_def hinv_def set_var_def)
next
  case (Some c)
  have ow: "own_ok (counts s) (vars s) (roots F)" using assms(1) by (simp add: hinv_def)
  show ?thesis using Some own_ok_inc [OF ow assms(2,3) Some] own_ok_refs_pos [OF ow assms(3) Some] assms(1)
    by (simp add: h_IncRef_def hinv_def set_var_def)
qed

lemma hinv_alias: "hinv s F \<Longrightarrow> vars s x = None \<Longrightarrow> m_refCount j = None \<Longrightarrow> hinv (set_var x j s) F"
  by (simp add: hinv_def set_var_def own_ok_alias)

lemma h_destroy_ok:
  assumes "hinv s F" "vars s x = Some j"
  shows "\<exists>s' F'. h_destroy x s = Some s' \<and> hinv s' F' \<and> vars s' = (vars s)(x := None)"
  using h_DecRef_ok [OF assms] assms(2) by (auto simp: h_destroy_def)

lemma h_assign_ok:
  assumes "hinv s F" "vars s x = Some i" "vars s y = Some j"
  shows "\<exists>s' F'. h_assign x y s = Some s' \<and> hinv s' F'"
proof (cases "x = y")
  case True
  then show ?thesis using assms by (auto simp: h_assign_def)
next
  case False
  from h_DecRef_ok [OF assms(1,2)] obtain i' s' F' where d: "h_DecRef i s = Some (i', s')" "vars s' = vars s"
    "hinv (s' \<lparr>vars := (vars s)(x := None)\<rparr>) F'" by blast
  let ?s = "s' \<lparr>vars := (vars s)(x := None)\<rparr>"
  have "set_var x j ?s = set_var x j s'" using d(2) by (simp add: set_var_def)
  moreover have "\<exists>s''. h_IncRef j (set_var x j ?s) = Some s'' \<and> hinv s'' F'" using h_IncRef_ok [OF d(3), of x y j] False assms(3) by simp
  ultimately show ?thesis using False assms(2,3) d(1) by (auto simp: h_assign_def Let_def)
qed

lemma h_copy_ok:
  assumes "hinv s F" "vars s x = None" "vars s y = Some j"
  shows "\<exists>s'. h_copy x y s = Some s' \<and> hinv s' F"
proof -
  have xy: "x \<noteq> y" using assms by auto
  have "h_copy x y s = h_IncRef j (set_var x j s)"
    using xy assms(3) by (simp add: h_copy_def h_assign_def set_var_def null_json_def h_DecRef_def Let_def)
  then show ?thesis using h_IncRef_ok [OF assms] by simp
qed

section \<open>Reading a tree\<close>

lemma usable_node:
  assumes "hinv s F" "vars s y = Some j" "m_cjson j = Some a" "usable y s"
  shows "\<exists>F1 c v F2 w n. F = F1 @ (c, Some v) # F2 \<and> find_node a [v] = Some w \<and> load a (mem s) = Some n \<and>
     seg (mem s) None (c_child n) (kids w) None \<and> c_type n = type_of (tree_of w)"
proof -
  have l: "load a (mem s) \<noteq> None" and m: "mem_ok (mem s) (trees F)" using assms by (simp_all add: usable_def hinv_def)
  from live_node [OF m l] obtain v w where v: "v \<in> set (trees F)" "find_node a [v] = Some w" by blast
  have "seg (mem s) None (Some (node_addr v)) [v] None" "distinct (owned_list [v])"
    using mem_okD(1) [OF m v(1)] m v(1) in_trees [OF v(1)] by (auto simp: mem_ok_def)
  from seg_context [OF this v(2)] obtain p r where "seg (mem s) p (Some a) [w] r" by blast
  from seg_at_node [OF this] find_node_addr [OF v(2)] show ?thesis using v in_trees by blast
qed

lemma h_find_child_seg:
  "seg h p q ts None \<Longrightarrow> \<exists>r. h_find_child k q h = Some r"
proof (induction ts arbitrary: p q)
  case (Cons t ts)
  from seg_Cons_load [OF Cons.prems] obtain n where n: "q = Some (node_addr t)" "load (node_addr t) h = Some n"
    "seg h (Some (node_addr t)) (c_next n) ts None" "chars (c_string n) h = Some (name_of (tree_of t))" by blast
  then show ?case using Cons.IH [OF n(3)] by (subst h_find_child.simps) simp
qed (subst h_find_child.simps, simp)

lemma h_count_seg: "seg h p q ts None \<Longrightarrow> h_count q h = Some (length ts)"
proof (induction ts arbitrary: p q)
  case (Cons t ts)
  from seg_Cons_load [OF Cons.prems] obtain n where n: "q = Some (node_addr t)" "load (node_addr t) h = Some n"
    "seg h (Some (node_addr t)) (c_next n) ts None" by blast
  then show ?case using Cons.IH [OF n(3)] by (subst h_count.simps) simp
qed (subst h_count.simps, simp)

lemma h_step_seg: "seg h p q ts None \<Longrightarrow> i < length ts \<Longrightarrow> h_step i q h = Some (Some (node_addr (ts ! i)))"
proof (induction i arbitrary: p q ts)
  case 0
  then show ?case by (cases ts) (auto dest: seg_Cons_load)
next
  case (Suc i)
  then obtain t us where ts: "ts = t # us" by (cases ts) auto
  from seg_Cons_load [of h p q t us None] Suc.prems(1) ts obtain n where n: "q = Some (node_addr t)" "load (node_addr t) h = Some n"
    "seg h (Some (node_addr t)) (c_next n) us None" by blast
  then show ?case using Suc.IH [OF n(3)] Suc.prems(2) ts by simp
qed

lemma h_at_ok:
  assumes "hinv s F" "vars s y = Some j" "usable y s"
  shows "\<exists>r. h_at j k s = Some r \<and> m_refCount r = None"
proof (cases "m_cjson j")
  case None
  then show ?thesis by (simp add: h_at_def h_Json_def)
next
  case (Some a)
  from usable_node [OF assms(1,2) Some assms(3)] obtain w n where n: "load a (mem s) = Some n" "seg (mem s) None (c_child n) (kids w) None" by blast
  from h_find_child_seg [OF n(2)] obtain r where "h_find_child k (c_child n) (mem s) = Some r" by blast
  then show ?thesis using Some n(1) by (simp add: h_at_def h_Json_def)
qed

lemma h_nth_ok:
  assumes "hinv s F" "vars s y = Some j" "usable y s"
  shows "\<exists>r. h_nth j i s = Some r \<and> m_refCount r = None"
proof (cases "m_cjson j")
  case None
  then show ?thesis by (simp add: h_nth_def h_GetCount_def h_Json_def)
next
  case (Some a)
  from usable_node [OF assms(1,2) Some assms(3)] obtain w n where n: "load a (mem s) = Some n" "seg (mem s) None (c_child n) (kids w) None" by blast
  then show ?thesis using Some h_count_seg [OF n(2)] h_step_seg [OF n(2), of i] by (simp add: h_nth_def h_GetCount_def h_Json_def)
qed

section \<open>New trees\<close>

lemma hinv_Create:
  assumes "hinv s F" "vars s x = None" "mem s a = None" "counts s c = None" "\<not> is_ref t"
  shows "\<exists>s' F'. h_Create t x a c s = Some s' \<and> hinv s' F'"
proof -
  have o: "mem_ok (mem s) (trees F)" "own_ok (counts s) (vars s) (roots F)" using assms(1) by (simp_all add: hinv_def)
  let ?w = "ANode a t None 0 (Fin 0) None []"
  from mem_ok_Create [OF o(1) assms(3,5)] obtain g where g: "heap_Create t a (mem s) = Some g" "mem_ok g (?w # trees F)" by blast
  have "hinv (set_var x \<lparr>m_cjson = Some a, m_refCount = Some c\<rparr> (s \<lparr>mem := g, counts := (counts s)(c \<mapsto> 1)\<rparr>)) ((c, Some ?w) # F)"
    using g(2) own_ok_manage [OF o(2) assms(2,4)] by (simp add: hinv_def set_var_def)
  then show ?thesis using g(1) by (auto simp: h_Create_def h_Manage_def h_IsManaged_def h_Json_def Let_def)
qed

lemma put_chars_at: "x \<notin> set (ptrs v) \<Longrightarrow> put_chars v h x = h x" "chars_at (put_chars v h) v"
  by (auto simp: put_chars_def ptrs_def chars_at_def malloc_def split: option.splits)

lemma heap_put_seg:
  "distinct (owned_list ts) \<Longrightarrow> \<forall>w\<in>set ts. plain_node (tree_of w) \<Longrightarrow>
     seg (heap_put p ts h) p (map_option node_addr (list_head ts)) ts None \<and> (\<forall>x. x \<notin> set (owned_list ts) \<longrightarrow> heap_put p ts h x = h x)"
proof (induction p ts h rule: heap_put.induct)
  case (2 p a t vs i d nm ks ts h)
  let ?n = "\<lparr>c_next = map_option node_addr (list_head ts), c_prev = p, c_child = map_option node_addr (list_head ks), c_type = t,
     c_valuestring = map_option fst vs, c_valueint = i, c_valuedouble = d, c_string = map_option fst nm\<rparr>"
  let ?h1 = "malloc a (Cell ?n) (put_chars nm (put_chars vs h))"
  let ?h2 = "heap_put None ks ?h1"
  let ?g = "heap_put (Some a) ts ?h2"
  have d: "distinct (owned_list ks)" "distinct (owned_list ts)" "set (owned_list ks) \<inter> set (owned_list ts) = {}" "a \<notin> set (owned_list ks)"
    "a \<notin> set (owned_list ts)" "a \<notin> set (ptrs vs)" "a \<notin> set (ptrs nm)" "set (ptrs vs) \<inter> set (ptrs nm) = {}"
    "set (ptrs vs @ ptrs nm) \<inter> set (owned_list ks @ owned_list ts) = {}" using "2.prems"(1) by auto
  have pl: "\<forall>w\<in>set ks. plain_node (tree_of w)" "\<forall>w\<in>set ts. plain_node (tree_of w)" "\<not> is_ref t" using "2.prems"(2) by (auto simp: is_ref_def)
  have k: "seg ?h2 None (map_option node_addr (list_head ks)) ks None" "\<And>x. x \<notin> set (owned_list ks) \<Longrightarrow> ?h2 x = ?h1 x"
    using "2.IH"(1) [OF d(1) pl(1)] by auto
  have t: "seg ?g (Some a) (map_option node_addr (list_head ts)) ts None" "\<And>x. x \<notin> set (owned_list ts) \<Longrightarrow> ?g x = ?h2 x"
    using "2.IH"(2) [OF d(2) pl(2)] by auto
  have g1: "?g x = ?h1 x" if "x \<notin> set (owned_list ks @ owned_list ts)" for x using k(2) t(2) that by simp
  have "?g a = Some (Cell ?n)" using g1 [of a] d(4,5) by (simp add: malloc_def)
  moreover have "chars_at ?g vs"
  proof -
    have "chars_at ?g vs = chars_at (put_chars vs h) vs" using d(6,8,9)
      by (intro chars_at_cong) (subst g1, auto simp: malloc_def put_chars_at(1) disjoint_iff)
    then show ?thesis using put_chars_at(2) by blast
  qed
  moreover have "chars_at ?g nm"
  proof -
    have "chars_at ?g nm = chars_at (put_chars nm (put_chars vs h)) nm" using d(7,9)
      by (intro chars_at_cong) (subst g1, auto simp: malloc_def disjoint_iff)
    then show ?thesis using put_chars_at(2) by blast
  qed
  moreover have "seg ?g None (map_option node_addr (list_head ks)) ks None"
    using k(1) t(2) d(3) by (subst seg_cong [where h = ?h2]) auto
  moreover have "\<forall>x. x \<notin> set (owned_list (ANode a t vs i d nm ks # ts)) \<longrightarrow> ?g x = h x"
    using g1 by (simp add: malloc_def put_chars_at(1))
  ultimately show ?case using t(1) pl(3) by simp
qed simp

lemma hinv_Parse:
  assumes "hinv s F" "vars s x = None" "counts s c = None" "t = None \<or> Json_Parse src = Ok (map_option tree_of t)"
    "fresh (case t of None \<Rightarrow> [] | Some w \<Rightarrow> owned w) s"
  shows "\<exists>F'. hinv (h_Parse x t c s) F'"
proof -
  have o: "mem_ok (mem s) (trees F)" "own_ok (counts s) (vars s) (roots F)" using assms(1) by (simp_all add: hinv_def)
  note m = own_ok_manage [OF o(2) assms(2,3)]
  show ?thesis
  proof (cases t)
    case None
    then show ?thesis using o(1) m
      by (intro exI [of _ "(c, None) # F"]) (simp add: hinv_def h_Parse_def h_Manage_def h_IsManaged_def h_Json_def set_var_def)
  next
    case (Some w)
    let ?g = "heap_put None [w] (mem s)"
    have "plain_node (tree_of w)" using assms(4) Json_Parse_plain Some by simp
    then have p: "seg ?g None (Some (node_addr w)) [w] None" "\<forall>x. x \<notin> set (owned w) \<longrightarrow> ?g x = mem s x"
      using heap_put_seg [of "[w]" None "mem s"] assms(5) Some by (simp_all add: fresh_def)
    have "mem_ok ?g (w # trees F)"
      using o(1) p assms(5) Some by (intro mem_ok_new [where h = "mem s"]) (auto simp: fresh_def list_all_iff)
    then show ?thesis using Some m
      by (intro exI [of _ "(c, Some w) # F"]) (simp add: hinv_def h_Parse_def h_Manage_def h_IsManaged_def h_Json_def set_var_def)
  qed
qed

section \<open>Adding to a tree\<close>

text \<open>The tree that a node belongs to, when it is not the tree \<open>u\<close>.\<close>

lemma pick_tree:
  assumes "mem_ok h (u # trees F)" "load a h \<noteq> None" "find_node a [u] = None"
  shows "\<exists>F1 c v F2 w. F = F1 @ (c, Some v) # F2 \<and> find_node a [v] = Some w"
proof -
  from live_node [OF assms(1,2)] obtain v w where "v \<in> set (u # trees F)" "find_node a [v] = Some w" by blast
  then have "v \<in> set (trees F)" "find_node a [v] = Some w" using assms(3) by auto
  then show ?thesis using in_trees by blast
qed

lemma add_array_forest:
  assumes "mem_ok h (u # trees F)" "load a h \<noteq> None" "find_node a [u] = None"
  shows "\<exists>g F'. heap_AddItemToArray a (Some (node_addr u)) h = Some g \<and> mem_ok g (trees F') \<and> roots F' = roots F"
proof -
  from pick_tree [OF assms] obtain F1 c v F2 w where F: "F = F1 @ (c, Some v) # F2" "find_node a [v] = Some w" by blast
  have "mem_ok h (u # v # trees (F1 @ F2))" using assms(1) F(1) mem_ok_perm [of "u # trees F" "u # v # trees (F1 @ F2)"] by simp
  from mem_ok_AddItemToArray [OF this F(2)] obtain g v' where g: "heap_AddItemToArray a (Some (node_addr u)) h = Some g"
    "mem_ok g (v' # trees (F1 @ F2))" "node_addr v' = node_addr v" by blast
  have "mem_ok g (trees (F1 @ (c, Some v') # F2))" using g(2) mem_ok_perm [of "v' # trees (F1 @ F2)" "trees (F1 @ (c, Some v') # F2)"] by simp
  then show ?thesis using g(1,3) F(1) by (intro exI [of _ g] exI [of _ "F1 @ (c, Some v') # F2"]) simp
qed

lemma add_object_forest:
  assumes "mem_ok h (u # trees F)" "load a h \<noteq> None" "find_node a [u] = None" "h sa = None"
  shows "\<exists>g F'. heap_AddItemToObject a k sa (Some (node_addr u)) h = Some g \<and> mem_ok g (trees F') \<and> roots F' = roots F"
proof -
  from pick_tree [OF assms(1-3)] obtain F1 c v F2 w where F: "F = F1 @ (c, Some v) # F2" "find_node a [v] = Some w" by blast
  have "mem_ok h (u # v # trees (F1 @ F2))" using assms(1) F(1) mem_ok_perm [of "u # trees F" "u # v # trees (F1 @ F2)"] by simp
  from mem_ok_AddItemToObject [OF this F(2) assms(4)] obtain g v' where g: "heap_AddItemToObject a k sa (Some (node_addr u)) h = Some g"
    "mem_ok g (v' # trees (F1 @ F2))" "node_addr v' = node_addr v" by blast
  have "mem_ok g (trees (F1 @ (c, Some v') # F2))" using g(2) mem_ok_perm [of "v' # trees (F1 @ F2)" "trees (F1 @ (c, Some v') # F2)"] by simp
  then show ?thesis using g(1,3) F(1) by (intro exI [of _ g] exI [of _ "F1 @ (c, Some v') # F2"]) simp
qed

text \<open>A state whose memory holds one more tree, which no handle owns.\<close>

definition pending :: "jstate \<Rightarrow> atree \<Rightarrow> forest \<Rightarrow> bool" where
  "pending s u F \<longleftrightarrow> mem_ok (mem s) (u # trees F) \<and> own_ok (counts s) (vars s) (roots F)"

definition away :: "json_handle \<Rightarrow> atree \<Rightarrow> jstate \<Rightarrow> bool" where
  "away j u s \<longleftrightarrow> (\<forall>a. m_cjson j = Some a \<longrightarrow> load a (mem s) \<noteq> None \<and> find_node a [u] = None)"

lemma h_AddItem_ok:
  assumes "pending s u F" "away j u s" "mem s sa = None"
  shows "\<exists>r s' F'. h_AddItem k sa (node_addr u) j s = Some (r, s') \<and> m_refCount r = None \<and> vars s' = vars s \<and> hinv s' F'"
proof -
  have o: "mem_ok (mem s) (u # trees F)" "own_ok (counts s) (vars s) (roots F)" using assms(1) by (simp_all add: pending_def)
  from mem_ok_Delete [OF o(1)] obtain g where g: "heap_Delete (Some (node_addr u)) (mem s) = Some g" "mem_ok g (trees F)" by blast
  show ?thesis
  proof (cases "m_cjson j")
    case None
    then show ?thesis using g o(2) by (simp add: h_AddItem_def on_mem_def h_Json_def) (auto simp: hinv_def)
  next
    case (Some a)
    then have a: "load a (mem s) \<noteq> None" "find_node a [u] = None" using assms(2) by (simp_all add: away_def)
    then obtain n where n: "load a (mem s) = Some n" by blast
    from add_array_forest [OF o(1) a] obtain g1 F1 where g1: "heap_AddItemToArray a (Some (node_addr u)) (mem s) = Some g1"
      "mem_ok g1 (trees F1)" "roots F1 = roots F" by blast
    from add_object_forest [OF o(1) a assms(3)] obtain g2 F2 where g2: "heap_AddItemToObject a k sa (Some (node_addr u)) (mem s) = Some g2"
      "mem_ok g2 (trees F2)" "roots F2 = roots F" by blast
    have "hinv (s \<lparr>mem := g\<rparr>) F" "hinv (s \<lparr>mem := g1\<rparr>) F1" "hinv (s \<lparr>mem := g2\<rparr>) F2" using g(2) g1(2,3) g2(2,3) o(2) by (simp_all add: hinv_def)
    then show ?thesis using Some n g(1) g1(1) g2(1) by (auto simp: h_AddItem_def on_mem_def h_Json_def)
  qed
qed

lemma usable_after:
  assumes "usable y s" "vars s y = Some j" "\<forall>x\<in>dom (mem s). mem s' x = mem s x" "node_addr u \<notin> dom (mem s)" "kids u = []"
  shows "away j u s'"
proof -
  have "load a (mem s') \<noteq> None \<and> find_node a [u] = None" if a: "m_cjson j = Some a" for a
  proof -
    have l: "load a (mem s) \<noteq> None" using assms(1,2) a by (simp add: usable_def)
    then have d: "a \<in> dom (mem s)" by (auto simp: load_def split: option.splits)
    have "load a (mem s') \<noteq> None" using l d assms(3) by (simp add: load_def)
    moreover have "find_node a [u] = None" using d assms(4,5) by (cases u) auto
    ultimately show ?thesis ..
  qed
  then show ?thesis by (simp add: away_def)
qed

lemma h_AddNew_ok:
  assumes "hinv s F" "vars s y = Some j" "usable y s" "fresh [sa, a] s" "\<not> is_ref t"
  shows "\<exists>r s' F'. h_AddNew t k sa a j s = Some (r, s') \<and> m_refCount r = None \<and> vars s' = vars s \<and> hinv s' F'"
proof -
  let ?w = "ANode a t None 0 (Fin 0) None []"
  have o: "mem_ok (mem s) (trees F)" "own_ok (counts s) (vars s) (roots F)" "mem s a = None" "mem s sa = None" "sa \<noteq> a"
    using assms(1,4) by (simp_all add: hinv_def fresh_def)
  from mem_ok_Create [OF o(1,3) assms(5)] obtain g where g: "heap_Create t a (mem s) = Some g" "mem_ok g (?w # trees F)"
    "\<forall>x. x \<noteq> a \<longrightarrow> g x = mem s x" by blast
  let ?s = "s \<lparr>mem := g\<rparr>"
  have "pending ?s ?w F" using g(2) o(2) by (simp add: pending_def)
  moreover have "\<forall>x\<in>dom (mem s). g x = mem s x" using g(3) o(3) by (metis domIff)
  then have "away j ?w ?s" using assms(2,3) o(3) by (intro usable_after [where s = s and y = y]) auto
  moreover have "mem ?s sa = None" using g(3) o(4,5) by simp
  ultimately show ?thesis using h_AddItem_ok [of ?s ?w F j sa k] g(1) by (simp add: h_AddNew_def on_mem_def)
qed

lemma mk_scalar_ok:
  assumes "mem_ok h ts" "distinct (a # scalar_addrs v)" "\<forall>x\<in>set (a # scalar_addrs v). h x = None"
  shows "\<exists>g u. mk_scalar v a h = Some g \<and> mem_ok g (u # ts) \<and> node_addr u = a \<and> kids u = [] \<and> (\<forall>x. x \<notin> set (a # scalar_addrs v) \<longrightarrow> g x = h x)"
proof (cases v)
  case (Str w va)
  then have "h a = None" "h va = None" "a \<noteq> va" using assms by auto
  from mem_ok_CreateString [OF assms(1) this, of w] Str show ?thesis by (fastforce simp: mk_scalar_def)
next
  case (Num d)
  then show ?thesis using mem_ok_CreateNumber [OF assms(1), of a d] assms(3) by (fastforce simp: mk_scalar_def)
next
  case (Bool b)
  then show ?thesis using mem_ok_Create [OF assms(1), of a "if b then cJsonDap_True else cJsonDap_False"] assms(3)
    by (fastforce simp: mk_scalar_def is_ref_def cjson_types)
qed

lemma h_Add_ok:
  assumes "hinv s F" "vars s y = Some j" "usable y s" "fresh (sa # a # scalar_addrs v) s"
  shows "\<exists>r s' F'. h_Add k sa (mk_scalar v a) a j s = Some (r, s') \<and> m_refCount r = None \<and> vars s' = vars s \<and> hinv s' F'"
proof (cases "m_cjson j")
  case None
  then show ?thesis using assms(1) by (auto simp: h_Add_def h_Json_def)
next
  case (Some b)
  have o: "mem_ok (mem s) (trees F)" "own_ok (counts s) (vars s) (roots F)" using assms(1) by (simp_all add: hinv_def)
  obtain n where n: "load b (mem s) = Some n" using usable_node [OF assms(1,2) Some assms(3)] by blast
  have f: "distinct (a # scalar_addrs v)" "\<forall>x\<in>set (a # scalar_addrs v). mem s x = None" "sa \<notin> set (a # scalar_addrs v)" "mem s sa = None"
    using assms(4) by (auto simp: fresh_def list_all_iff)
  from mk_scalar_ok [OF o(1) f(1,2)] obtain g u where g: "mk_scalar v a (mem s) = Some g" "mem_ok g (u # trees F)" "node_addr u = a" "kids u = []"
    "\<forall>x. x \<notin> set (a # scalar_addrs v) \<longrightarrow> g x = mem s x" by blast
  have "\<forall>x\<in>dom (mem s). g x = mem s x"
  proof
    fix x assume "x \<in> dom (mem s)"
    then have "x \<notin> set (a # scalar_addrs v)" using f(2) by auto
    then show "g x = mem s x" using g(5) by blast
  qed
  then have "away j u (s \<lparr>mem := g\<rparr>)" using assms(2,3) g(3,4) f(2) by (intro usable_after [where s = s and y = y]) auto
  then have aw: "load b g \<noteq> None" "find_node b [u] = None" using Some by (simp_all add: away_def)
  have sa: "g sa = None" using g(5) f(3,4) by simp
  from add_array_forest [OF g(2) aw] obtain g1 F1 where g1: "heap_AddItemToArray b (Some a) g = Some g1"
    "mem_ok g1 (trees F1)" "roots F1 = roots F" unfolding g(3) by blast
  from add_object_forest [OF g(2) aw sa] obtain g2 F2 where g2: "heap_AddItemToObject b k sa (Some a) g = Some g2"
    "mem_ok g2 (trees F2)" "roots F2 = roots F" unfolding g(3) by blast
  have "hinv (s \<lparr>mem := g1\<rparr>) F1" "hinv (s \<lparr>mem := g2\<rparr>) F2" using g1(2,3) g2(2,3) o(2) by (simp_all add: hinv_def)
  then show ?thesis using Some n g(1) g1(1) g2(1) assms(1) by (auto simp: h_Add_def h_has_type_def on_mem_def h_Json_def)
qed

section \<open>Handing a tree over\<close>

lemma sole_ownerD:
  assumes "hinv s F" "vars s y = Some j" "sole_owner y z s" "usable y s"
  shows "\<exists>ob c F1 t F2. vars s z = Some ob \<and> m_refCount ob = Some c \<and> F = F1 @ (c, t) # F2 \<and> m_cjson ob = map_option node_addr t \<and>
     h_take z s = Some (s \<lparr>counts := (counts s)(c := None), vars := (vars s)(z \<mapsto> ob \<lparr>m_refCount := None\<rparr>)\<rparr>) \<and>
     own_ok ((counts s)(c := None)) ((vars s)(z \<mapsto> ob \<lparr>m_refCount := None\<rparr>)) (roots (F1 @ F2)) \<and>
     (case t of None \<Rightarrow> mem_ok (mem s) (trees (F1 @ F2)) | Some u \<Rightarrow> mem_ok (mem s) (u # trees (F1 @ F2)) \<and> away j u s)"
proof -
  have o: "mem_ok (mem s) (trees F)" "own_ok (counts s) (vars s) (roots F)" using assms(1) by (simp_all add: hinv_def)
  from assms(2,3) obtain ob c where z: "vars s z = Some ob" "m_refCount ob = Some c" "counts s c = Some 1"
    by (auto simp: sole_owner_def split: option.splits)
  note r = own_ok_refs_pos [OF o(2) z(1,2)]
  have 1: "refs (vars s) c = 1" using r z(3) by simp
  from r in_roots obtain F1 t F2 where F: "F = F1 @ (c, t) # F2" "m_cjson ob = map_option node_addr t" by blast
  have "own_ok ((counts s)(c := None)) ((vars s)(z := None)) (roots F1 @ roots F2)"
    using own_ok_last(1) [OF o(2) z(1,2) 1, of "roots F1" "map_option node_addr t" "roots F2"] F(1) by simp
  from own_ok_alias [OF this, of z "ob \<lparr>m_refCount := None\<rparr>"]
  have ow: "own_ok ((counts s)(c := None)) ((vars s)(z \<mapsto> ob \<lparr>m_refCount := None\<rparr>)) (roots (F1 @ F2))" by simp
  have tk: "h_take z s = Some (s \<lparr>counts := (counts s)(c := None), vars := (vars s)(z \<mapsto> ob \<lparr>m_refCount := None\<rparr>)\<rparr>)"
    using z by (simp add: h_take_def h_UnManage_def h_IsManaged_def set_var_def)
  have "case t of None \<Rightarrow> mem_ok (mem s) (trees (F1 @ F2)) | Some u \<Rightarrow> mem_ok (mem s) (u # trees (F1 @ F2)) \<and> away j u s"
  proof (cases t)
    case None
    then show ?thesis using o(1) F(1) by simp
  next
    case (Some u)
    have m: "mem_ok (mem s) (u # trees (F1 @ F2))" using o(1) F(1) Some mem_ok_perm [of "trees F" "u # trees (F1 @ F2)"] by simp
    have "seg (mem s) None (Some (node_addr u)) [u] None" using mem_okD(1) [OF m] by simp
    from heap_nodes_seg [OF this] obtain xs where xs: "heap_nodes (m_cjson ob) (mem s) = Some xs" "\<forall>a. find_node a [u] \<noteq> None \<longrightarrow> a \<in> set xs"
      using F(2) Some by auto
    have "away j u s" using assms(2-4) z xs by (auto simp: away_def sole_owner_def usable_def)
    then show ?thesis using m Some by simp
  qed
  then show ?thesis using z(1,2) F ow tk by blast
qed

lemma h_AddObject_ok:
  assumes "hinv s F" "vars s x = None" "vars s y = Some j" "usable y s" "sole_owner y z s" "mem s sa = None"
  shows "\<exists>s' F'. h_AddObject x k sa j z s = Some s' \<and> hinv s' F'"
proof -
  from sole_ownerD [OF assms(1,3,5,4)] obtain ob c F1 t F2 where z: "vars s z = Some ob" "m_cjson ob = map_option node_addr t"
    "h_take z s = Some (s \<lparr>counts := (counts s)(c := None), vars := (vars s)(z \<mapsto> ob \<lparr>m_refCount := None\<rparr>)\<rparr>)"
    "own_ok ((counts s)(c := None)) ((vars s)(z \<mapsto> ob \<lparr>m_refCount := None\<rparr>)) (roots (F1 @ F2))"
    "case t of None \<Rightarrow> mem_ok (mem s) (trees (F1 @ F2)) | Some u \<Rightarrow> mem_ok (mem s) (u # trees (F1 @ F2)) \<and> away j u s"
    "m_refCount ob = Some c" by blast
  let ?V = "(vars s)(z \<mapsto> ob \<lparr>m_refCount := None\<rparr>)" and ?C = "(counts s)(c := None)"
  have xz: "?V x = None" "?V z = Some (ob \<lparr>m_refCount := None\<rparr>)" using assms(2) z(1) by auto
  show ?thesis
  proof (cases "m_cjson j")
    case None
    then show ?thesis using h_copy_ok [OF assms(1,2) z(1)] by (auto simp: h_AddObject_def)
  next
    case (Some a)
    have "\<exists>g F'. heap_AddItemToObject a k sa (m_cjson ob) (mem s) = Some g \<and> mem_ok g (trees F') \<and> roots F' = roots (F1 @ F2)"
    proof (cases t)
      case None
      then show ?thesis using z(2,5) by (intro exI [of _ "mem s"] exI [of _ "F1 @ F2"]) (simp add: heap_AddItemToObject_def)
    next
      case t: (Some u)
      then have "mem_ok (mem s) (u # trees (F1 @ F2))" "load a (mem s) \<noteq> None" "find_node a [u] = None" using z(5) Some by (simp_all add: away_def)
      from add_object_forest [OF this assms(6)] show ?thesis using z(2) t by simp
    qed
    then obtain g F' where g: "heap_AddItemToObject a k sa (m_cjson ob) (mem s) = Some g" "mem_ok g (trees F')" "roots F' = roots (F1 @ F2)" by blast
    let ?s = "s \<lparr>mem := g, counts := ?C, vars := ?V\<rparr>"
    have "hinv ?s F'" using g(2,3) z(4) by (simp add: hinv_def)
    from h_copy_ok [OF this, of x z] xz obtain s' where s': "h_copy x z ?s = Some s'" "hinv s' F'" by auto
    have "counts s c \<noteq> None" using assms(1) z(1,6) own_ok_refs_pos by (fastforce simp: hinv_def)
    then have "h_take z (s \<lparr>mem := g\<rparr>) = Some ?s" using z(1,6) by (simp add: h_take_def h_UnManage_def h_IsManaged_def set_var_def)
    then show ?thesis using Some z(1) g(1) s' by (auto simp: h_AddObject_def on_mem_def)
  qed
qed

lemma h_AddJson_ok:
  assumes "hinv s F" "vars s x = None" "vars s y = Some j" "usable y s" "sole_owner y z s" "mem s sa = None"
  shows "\<exists>s' F'. h_AddJson x k sa j z s = Some s' \<and> hinv s' F'"
proof (cases "m_cjson j")
  case None
  then show ?thesis using hinv_alias [OF assms(1,2), of "h_Json None"] by (auto simp: h_AddJson_def h_Json_def)
next
  case (Some a)
  from sole_ownerD [OF assms(1,3,5,4)] obtain ob c F1 t F2 where z: "vars s z = Some ob" "m_cjson ob = map_option node_addr t"
    "h_take z s = Some (s \<lparr>counts := (counts s)(c := None), vars := (vars s)(z \<mapsto> ob \<lparr>m_refCount := None\<rparr>)\<rparr>)"
    "own_ok ((counts s)(c := None)) ((vars s)(z \<mapsto> ob \<lparr>m_refCount := None\<rparr>)) (roots (F1 @ F2))"
    "case t of None \<Rightarrow> mem_ok (mem s) (trees (F1 @ F2)) | Some u \<Rightarrow> mem_ok (mem s) (u # trees (F1 @ F2)) \<and> away j u s" by blast
  let ?V = "(vars s)(z \<mapsto> ob \<lparr>m_refCount := None\<rparr>)" and ?C = "(counts s)(c := None)"
  have xz: "?V x = None" "?V z = Some (ob \<lparr>m_refCount := None\<rparr>)" using assms(2) z(1) by auto
  obtain n where n: "load a (mem s) = Some n" using usable_node [OF assms(1,3) Some assms(4)] by blast
  have "\<exists>g F'. heap_AddItemToArray a (m_cjson ob) (mem s) = Some g \<and> mem_ok g (trees F') \<and> roots F' = roots (F1 @ F2)"
  proof (cases t)
    case None
    then show ?thesis using z(2,5) n by (intro exI [of _ "mem s"] exI [of _ "F1 @ F2"]) (simp add: heap_AddItemToArray_def)
  next
    case t: (Some u)
    then have "mem_ok (mem s) (u # trees (F1 @ F2))" "load a (mem s) \<noteq> None" "find_node a [u] = None" using z(5) Some by (simp_all add: away_def)
    from add_array_forest [OF this] show ?thesis using z(2) t by simp
  qed
  then obtain g F' where g: "heap_AddItemToArray a (m_cjson ob) (mem s) = Some g" "mem_ok g (trees F')" "roots F' = roots (F1 @ F2)" by blast
  let ?s = "s \<lparr>counts := ?C, vars := ?V, mem := g\<rparr>"
  have "hinv ?s F'" using g(2,3) z(4) by (simp add: hinv_def)
  from h_copy_ok [OF this, of x z] xz obtain s' where s': "h_copy x z ?s = Some s'" "hinv s' F'" by auto
  show ?thesis using Some n z(1,3) g(1) s' h_AddObject_ok [OF assms, of k] hinv_alias [OF assms(1,2), of "h_Json (Some a)"]
    by (auto simp: h_AddJson_def h_has_type_def on_mem_def h_Json_def)
qed

section \<open>Every step keeps the invariant\<close>

lemma exec_ok:
  assumes "hinv s F" "legal p s"
  shows "\<exists>s' F'. exec p s = Some s' \<and> hinv s' F'"
proof -
  have al: "\<exists>s'' F''. bind_to x q = Some s'' \<and> hinv s'' F''" if "\<exists>r s' F'. q = Some (r, s') \<and> m_refCount r = None \<and> vars s' = vars s \<and> hinv s' F'"
    "fresh_var x s" for q x
  proof -
    from that obtain r s' F' where "q = Some (r, s')" "m_refCount r = None" "vars s' x = None" "hinv s' F'" by (auto simp: fresh_var_def)
    then show ?thesis using hinv_alias [of s' F' x r] by (auto simp: bind_to_def)
  qed
  have us: "\<exists>j. vars s y = Some j" if "usable y s" for y using that by (auto simp: usable_def split: option.splits)
  have nr: "\<not> is_ref cJsonDap_Array" "\<not> is_ref cJsonDap_Object" by (simp_all add: is_ref_def cjson_types)
  show ?thesis
  proof (cases p)
    case (Default x)
    then show ?thesis using assms hinv_alias [of s F x null_json] by (auto simp: null_json_def fresh_var_def)
  next
    case (CreateArray x a c)
    then show ?thesis using assms nr hinv_Create [of s F x a c] by (simp add: h_CreateArray_def fresh_var_def fresh_def)
  next
    case (CreateObject x a c)
    then show ?thesis using assms nr hinv_Create [of s F x a c] by (simp add: h_CreateObject_def fresh_var_def fresh_def)
  next
    case (Parse x src t c)
    then show ?thesis using assms hinv_Parse [of s F x c t src] by (simp add: fresh_var_def)
  next
    case (Copy x y)
    then show ?thesis using assms h_copy_ok [of s F x y] by (auto simp: fresh_var_def)
  next
    case (Assign x y)
    then show ?thesis using assms h_assign_ok [of s F x _ y] by auto
  next
    case (Destroy x)
    then show ?thesis using assms h_destroy_ok [of s F x] by auto
  next
    case (At x y k)
    then obtain j where j: "vars s y = Some j" using us [of y] assms(2) by auto
    from h_at_ok [OF assms(1) j, of k] At assms(2) obtain r where "h_at j k s = Some r" "m_refCount r = None" by auto
    then show ?thesis using At j assms hinv_alias [of s F x r] by (auto simp: with_var_def fresh_var_def)
  next
    case (Nth x y i)
    then obtain j where j: "vars s y = Some j" using us [of y] assms(2) by auto
    from h_nth_ok [OF assms(1) j, of i] Nth assms(2) obtain r where "h_nth j i s = Some r" "m_refCount r = None" by auto
    then show ?thesis using Nth j assms hinv_alias [of s F x r] by (auto simp: with_var_def fresh_var_def)
  next
    case (AddNew t x y k sa a)
    then obtain j where j: "vars s y = Some j" using us [of y] assms(2) by auto
    have "\<not> is_ref t" using AddNew assms(2) nr by auto
    from al [OF h_AddNew_ok [OF assms(1) j _ _ this, of sa a k], of x] AddNew assms(2) j show ?thesis by (simp add: with_var_def)
  next
    case (Add x y k v sa a)
    then obtain j where j: "vars s y = Some j" using us [of y] assms(2) by auto
    from al [OF h_Add_ok [OF assms(1) j, of sa a v k], of x] Add assms(2) j show ?thesis by (simp add: with_var_def)
  next
    case (AddObject x y k z sa)
    then obtain j where j: "vars s y = Some j" using us [of y] assms(2) by auto
    from h_AddObject_ok [OF assms(1) _ j, of x z sa k] AddObject assms(2) j show ?thesis by (simp add: with_var_def fresh_var_def fresh_def)
  next
    case (AddJson x y k z sa)
    then obtain j where j: "vars s y = Some j" using us [of y] assms(2) by auto
    from h_AddJson_ok [OF assms(1) _ j, of x z sa k] AddJson assms(2) j show ?thesis by (simp add: with_var_def fresh_var_def fresh_def)
  qed
qed

lemma exec_all_ok: "hinv s F \<Longrightarrow> legal_all ps s \<Longrightarrow> \<exists>s' F'. exec_all ps s = Some s' \<and> hinv s' F'"
proof (induction ps arbitrary: s F)
  case (Cons p ps)
  from exec_ok [OF Cons.prems(1), of p] Cons.prems(2) obtain s' F' where "exec p s = Some s'" "hinv s' F'" by auto
  then show ?case using Cons.IH [of s' F'] Cons.prems(2) by simp
qed auto

text \<open>
  The counter is deleted although copies of the handle share it: when one of them goes away, it touches memory that has
  been freed.
\<close>

lemma AddObject_dangles:
  assumes "h_AddObject x k sa j z s = Some s'" "m_cjson j \<noteq> None" "vars s z = Some ob" "m_refCount ob = Some c"
    "vars s w = Some i" "m_refCount i = Some c" "w \<noteq> z" "w \<noteq> x"
  shows "h_destroy w s' = None"
proof -
  from assms(2) obtain a where a: "m_cjson j = Some a" by blast
  from assms(1,3) a obtain g s1 where g: "h_take z (s \<lparr>mem := g\<rparr>) = Some s1" "h_copy x z s1 = Some s'"
    by (auto simp: h_AddObject_def on_mem_def bind_eq_Some_conv)
  have s1: "s1 = s \<lparr>mem := g, counts := (counts s)(c := None), vars := (vars s)(z \<mapsto> ob \<lparr>m_refCount := None\<rparr>)\<rparr>"
    using g(1) assms(3,4) by (auto simp: h_take_def h_IsManaged_def h_UnManage_def set_var_def split: if_splits)
  have "s' = set_var x (ob \<lparr>m_refCount := None\<rparr>) s1 \<or> x = z \<and> s' = set_var x null_json s1"
    using g(2) s1 by (auto simp: h_copy_def h_assign_def set_var_def null_json_def h_DecRef_def h_IncRef_def Let_def split: if_splits)
  then have "vars s' w = Some i" "counts s' c = None" using s1 assms(5,7,8) by (auto simp: set_var_def)
  then show ?thesis using assms(6) by (simp add: h_destroy_def h_DecRef_def)
qed

text \<open>
  \<open>h_Parse\<close> writes the tree in one step; the parser that allocates and links node by node leaves the same memory and the
  same pointer, with the tree made of the addresses that it got from its allocator.  A parser that ran out of memory leaves what
  a rejected text leaves: a handle with a null pointer.
\<close>

lemma h_Parse_is_mem_cJSON_Parse:
  assumes "allocator alloc" "finite (dom (mem s))" "mem_cJSON_Parse alloc src (mem s) = Ok (Some (p, g))"
  shows "\<exists>t. (t = None \<and> \<not> never_fails alloc \<or> Json_Parse src = Ok (map_option tree_of t)) \<and>
     mem (h_Parse x t c s) = g \<and> vars (h_Parse x t c s) x = Some \<lparr>m_cjson = p, m_refCount = Some c\<rparr> \<and>
     fresh (case t of None \<Rightarrow> [] | Some w \<Rightarrow> owned w) s"
proof (cases p)
  case None
  then have "g = mem s \<and> (\<not> never_fails alloc \<or> Json_Parse src = Ok None)"
    using mem_cJSON_Parse_spec [OF assms(1,2), of src] assms(3) by (auto simp: Json_Parse_def split: presult.splits)
  then show ?thesis using None
    by (intro exI [of _ None]) (auto simp: h_Parse_def h_Manage_def h_IsManaged_def h_Json_def set_var_def fresh_def)
next
  case (Some q)
  with mem_cJSON_Parse_spec [OF assms(1,2), of src] assms(3) obtain n r w where n: "cJSON_Parse src = Parsed n r"
    and w: "p = Some (node_addr w)" "root_at g w" "tree_of w = n"
    "\<forall>y. y \<notin> set (owned w) \<longrightarrow> g y = mem s y" "\<forall>y\<in>set (owned w). mem s y = None" by (auto split: presult.splits)
  have j: "Json_Parse src = Ok (Some (tree_of w))" using n w(3) by (simp add: Json_Parse_def)
  let ?g = "heap_put None [w] (mem s)"
  have p: "seg ?g None (Some (node_addr w)) [w] None" "\<forall>x. x \<notin> set (owned w) \<longrightarrow> ?g x = mem s x"
    using heap_put_seg [of "[w]" None "mem s"] w(2) Json_Parse_plain [OF j] by (simp_all add: root_at_def)
  have "?g y = g y" for y
    using seg_determined [OF _ p(1), of g y] w(2,4) p(2) by (cases "y \<in> set (owned w)") (auto simp: root_at_def)
  then have "?g = g" by (rule ext)
  then show ?thesis using j w(1,2,5)
    by (intro exI [of _ "Some w"]) (simp add: h_Parse_def h_Manage_def h_IsManaged_def h_Json_def set_var_def fresh_def root_at_def list_all_iff)
qed

end
