(* ===== verification/Dap_HeapPrint.thy ===== *)
theory Dap_HeapPrint
  imports Dap_HeapParse Dap_CJson_Roundtrip
begin

text \<open>
  The printer of \<^verbatim>\<open>dap/cJSON.cpp\<close> on a tree in memory: it walks the pointers, allocates a text for each value, arrays of
  pointers to the texts of the children, and the text of the whole, and frees what it does not return.  The allocator gets
  the size and may fail.  The result is related to the printer on values: the text that it writes, or a null pointer; in
  both cases every temporary block has been freed, and nothing else in memory has changed.
\<close>

section \<open>The functions\<close>

text \<open>\<open>Ok None\<close> is an access to memory that is not allocated, or a loop that does not end.\<close>

definition mbind :: "'a option outcome \<Rightarrow> ('a \<Rightarrow> 'b option outcome) \<Rightarrow> 'b option outcome" where
  "mbind r f = obind r (\<lambda>x. case x of None \<Rightarrow> Ok None | Some y \<Rightarrow> f y)"

type_synonym sized_alloc = "nat \<Rightarrow> heap \<Rightarrow> addr option"

text \<open>\<^verbatim>\<open>if((p = malloc(sz))) sprintf(p, ...)\<close>\<close>

definition written :: "sized_alloc \<Rightarrow> nat \<Rightarrow> string \<Rightarrow> heap \<Rightarrow> (addr option \<times> heap) option outcome" where
  "written alloc sz s h =
     (case alloc sz h of
        None \<Rightarrow> Ok (Some (None, h))
      | Some a \<Rightarrow> obind (fill sz s) (\<lambda>s. Ok (Some (Some a, malloc a (Chars s) h))))"

definition mem_strdup :: "sized_alloc \<Rightarrow> string \<Rightarrow> heap \<Rightarrow> (addr option \<times> heap) option outcome" where
  "mem_strdup alloc s h = written alloc (length (c_str s) + 1) (c_str s) h"

definition mem_print_number :: "sized_alloc \<Rightarrow> cell \<Rightarrow> heap \<Rightarrow> (addr option \<times> heap) option outcome" where
  "mem_print_number alloc n h =
     (let d = c_valuedouble n in
      if dle (dabs (dsub (i2d (c_valueint n)) d)) (Fin DBL_EPSILON) \<and> dle d (i2d INT_MAX) \<and> dle (i2d INT_MIN) d
      then written alloc 21 (show_int (c_valueint n)) h
      else if dle (dabs (dsub (dfloor d) d)) (Fin DBL_EPSILON) then written alloc 64 (fmt_f0 d) h
      else if dlt (dabs d) (Fin (1 / 10 ^ 6)) \<or> dlt (Fin (10 ^ 9)) (dabs d) then written alloc 64 (fmt_e d) h
      else written alloc 64 (fmt_f d) h)"

definition mem_print_string_ptr :: "sized_alloc \<Rightarrow> addr option \<Rightarrow> heap \<Rightarrow> (addr option \<times> heap) option outcome" where
  "mem_print_string_ptr alloc str h =
     (case chars str h of
        None \<Rightarrow> Ok None
      | Some None \<Rightarrow> mem_strdup alloc [] h
      | Some (Some s0) \<Rightarrow>
         (let s = c_str s0; len = sum_list (map esc_count s)
          in written alloc (len + 3) ([CHR 0x22] @ concat (map esc_char s) @ [CHR 0x22]) h))"

text \<open>The string that \<^verbatim>\<open>strlen\<close> and \<^verbatim>\<open>strcpy\<close> see.\<close>

definition text_at :: "addr \<Rightarrow> heap \<Rightarrow> string option" where
  "text_at a h = (case h a of Some (Chars s) \<Rightarrow> Some (c_str s) | _ \<Rightarrow> None)"

fun mem_count :: "nat \<Rightarrow> addr option \<Rightarrow> heap \<Rightarrow> nat option" where
  "mem_count 0 child h = None"
| "mem_count (Suc k) child h =
     (case child of None \<Rightarrow> Some 0 | Some c \<Rightarrow> Option.bind (load c h) (\<lambda>n. map_option Suc (mem_count k (c_next n) h)))"

text \<open>
  The arrays of pointers are blocks of their own; the loops carry the pointers in them as lists, without the null pointers of the
  slots that are not reached.
\<close>

fun free_all :: "addr option list \<Rightarrow> heap \<Rightarrow> heap option" where
  "free_all [] h = Some h"
| "free_all (p # ps) h = Option.bind (free_if p h) (free_all ps)"

fun mem_array_loop ::
  "(addr \<Rightarrow> heap \<Rightarrow> (addr option \<times> heap) option outcome) \<Rightarrow> bool \<Rightarrow> nat \<Rightarrow> addr option \<Rightarrow> addr option list \<Rightarrow> nat \<Rightarrow> heap \<Rightarrow>
     (addr option list \<times> nat \<times> bool \<times> heap) option outcome" where
  "mem_array_loop pv fmt 0 child es len h = Ok None"
| "mem_array_loop pv fmt (Suc k) child es len h =
     (case child of
        None \<Rightarrow> Ok (Some (es, len, False, h))
      | Some c \<Rightarrow>
         mbind (pv c h) (\<lambda>(ret, h).
           case load c h of
             None \<Rightarrow> Ok None
           | Some n \<Rightarrow>
              (case ret of
                 None \<Rightarrow> Ok (Some (es @ [None], len, True, h))
               | Some a \<Rightarrow>
                  (case text_at a h of
                     None \<Rightarrow> Ok None
                   | Some s \<Rightarrow> mem_array_loop pv fmt k (c_next n) (es @ [ret]) (len + (length s + 2 + (if fmt then 1 else 0))) h))))"

text \<open>The loop that composes the text of an array and frees the texts of its elements.\<close>

fun mem_join_array :: "bool \<Rightarrow> addr option list \<Rightarrow> heap \<Rightarrow> (string \<times> heap) option" where
  "mem_join_array fmt [] h = Some ([], h)"
| "mem_join_array fmt (p # ps) h =
     Option.bind p (\<lambda>a. Option.bind (text_at a h) (\<lambda>e. Option.bind (free a h) (\<lambda>h.
       Option.bind (mem_join_array fmt ps h) (\<lambda>(t, h).
         Some (e @ (if ps \<noteq> [] then '','' @ (if fmt then '' '' else []) else []) @ t, h)))))"

definition or_fault :: "'a option \<Rightarrow> ('a \<Rightarrow> 'b option outcome) \<Rightarrow> 'b option outcome" where
  "or_fault x f = (case x of None \<Rightarrow> Ok None | Some y \<Rightarrow> f y)"

text \<open>What follows the loop over the elements: the text is composed, or everything is freed.\<close>

definition array_finish :: "sized_alloc \<Rightarrow> addr \<Rightarrow> addr option list \<times> nat \<times> bool \<times> heap \<Rightarrow> bool \<Rightarrow> (addr option \<times> heap) option outcome" where
  "array_finish alloc entries = (\<lambda>(es, len, fail, h) fmt.
     case (if fail then None else alloc len h) of
       None \<Rightarrow> or_fault (free_all es h) (\<lambda>h. or_fault (free entries h) (\<lambda>h. Ok (Some (None, h))))
     | Some out \<Rightarrow>
        or_fault (mem_join_array fmt es (malloc out (Chars []) h)) (\<lambda>(t, h).
        or_fault (free entries h) (\<lambda>h.
          obind (fill len (''['' @ t @ '']'')) (\<lambda>s. Ok (Some (Some out, h(out \<mapsto> Chars s)))))))"

definition mem_print_array ::
  "(addr \<Rightarrow> heap \<Rightarrow> (addr option \<times> heap) option outcome) \<Rightarrow> sized_alloc \<Rightarrow> nat \<Rightarrow> cell \<Rightarrow> bool \<Rightarrow> heap \<Rightarrow>
     (addr option \<times> heap) option outcome" where
  "mem_print_array pv alloc k item fmt h =
     or_fault (mem_count k (c_child item) h) (\<lambda>numentries.
     case alloc (numentries * 8) h of
       None \<Rightarrow> Ok (Some (None, h))
     | Some entries \<Rightarrow>
        mbind (mem_array_loop pv fmt k (c_child item) [] 5 (malloc entries (Chars []) h)) (\<lambda>r. array_finish alloc entries r fmt))"

fun mem_object_loop ::
  "(addr \<Rightarrow> heap \<Rightarrow> (addr option \<times> heap) option outcome) \<Rightarrow> sized_alloc \<Rightarrow> nat \<Rightarrow> bool \<Rightarrow> nat \<Rightarrow> addr option \<Rightarrow>
     (addr option \<times> addr option) list \<Rightarrow> nat \<Rightarrow> bool \<Rightarrow> heap \<Rightarrow>
     ((addr option \<times> addr option) list \<times> nat \<times> bool \<times> heap) option outcome" where
  "mem_object_loop pv alloc depth fmt 0 child es len fail h = Ok None"
| "mem_object_loop pv alloc depth fmt (Suc k) child es len fail h =
     (case child of
        None \<Rightarrow> Ok (Some (es, len, fail, h))
      | Some c \<Rightarrow>
         or_fault (load c h) (\<lambda>n.
         mbind (mem_print_string_ptr alloc (c_string n) h) (\<lambda>(str, h).
         mbind (pv c h) (\<lambda>(ret, h).
         or_fault (load c h) (\<lambda>n.
           case (str, ret) of
             (Some sa, Some ra) \<Rightarrow>
               or_fault (text_at ra h) (\<lambda>r. or_fault (text_at sa h) (\<lambda>s.
                 mem_object_loop pv alloc depth fmt k (c_next n) (es @ [(str, ret)])
                   (len + (length r + length s + 2 + (if fmt then 2 + depth else 0))) fail h))
           | _ \<Rightarrow> mem_object_loop pv alloc depth fmt k (c_next n) (es @ [(str, ret)]) len True h)))))"

definition slots :: "('a \<times> 'a) list \<Rightarrow> 'a list" where
  "slots es = concat (map (\<lambda>(n, e). [n, e]) es)"

fun mem_join_object :: "nat \<Rightarrow> bool \<Rightarrow> (addr option \<times> addr option) list \<Rightarrow> heap \<Rightarrow> (string \<times> heap) option" where
  "mem_join_object depth fmt [] h = Some ([], h)"
| "mem_join_object depth fmt ((p, q) # ps) h =
     Option.bind p (\<lambda>a. Option.bind (text_at a h) (\<lambda>k. Option.bind q (\<lambda>b. Option.bind (text_at b h) (\<lambda>e.
       Option.bind (free a h) (\<lambda>h. Option.bind (free b h) (\<lambda>h.
       Option.bind (mem_join_object depth fmt ps h) (\<lambda>(t, h).
         Some (indent depth fmt @ k @ '':'' @ (if fmt then '' '' else []) @ e @
           (if ps \<noteq> [] then '','' else []) @ (if fmt then [CHR 0x0A] else []) @ t, h))))))))"

text \<open>The argument \<open>depth\<close> is the depth after the increment \<^verbatim>\<open>depth++\<close>.\<close>

definition object_finish ::
  "sized_alloc \<Rightarrow> addr \<Rightarrow> addr \<Rightarrow> (addr option \<times> addr option) list \<times> nat \<times> bool \<times> heap \<Rightarrow> nat \<Rightarrow> bool \<Rightarrow> (addr option \<times> heap) option outcome" where
  "object_finish alloc names entries = (\<lambda>(es, len, fail, h) depth fmt.
     case (if fail then None else alloc len h) of
       None \<Rightarrow> or_fault (free_all (slots es) h) (\<lambda>h. or_fault (free names h) (\<lambda>h. or_fault (free entries h) (\<lambda>h. Ok (Some (None, h)))))
     | Some out \<Rightarrow>
        or_fault (mem_join_object depth fmt es (malloc out (Chars []) h)) (\<lambda>(t, h).
        or_fault (free names h) (\<lambda>h. or_fault (free entries h) (\<lambda>h.
          obind (fill len (''{'' @ (if fmt then [CHR 0x0A] else []) @ t @ indent (depth - 1) fmt @ ''}''))
            (\<lambda>s. Ok (Some (Some out, h(out \<mapsto> Chars s))))))))"

definition mem_print_object ::
  "(addr \<Rightarrow> heap \<Rightarrow> (addr option \<times> heap) option outcome) \<Rightarrow> sized_alloc \<Rightarrow> nat \<Rightarrow> cell \<Rightarrow> nat \<Rightarrow> bool \<Rightarrow> heap \<Rightarrow>
     (addr option \<times> heap) option outcome" where
  "mem_print_object pv alloc k item depth fmt h =
     or_fault (mem_count k (c_child item) h) (\<lambda>numentries.
     case alloc (numentries * 8) h of
       None \<Rightarrow> Ok (Some (None, h))
     | Some entries \<Rightarrow>
        (let h = malloc entries (Chars []) h in
         case alloc (numentries * 8) h of
           None \<Rightarrow> or_fault (free entries h) (\<lambda>h. Ok (Some (None, h)))
         | Some names \<Rightarrow>
            mbind (mem_object_loop pv alloc depth fmt k (c_child item) [] (7 + (if fmt then depth else 0)) False (malloc names (Chars []) h))
              (\<lambda>r. object_finish alloc names entries r depth fmt)))"

fun mem_print_value :: "sized_alloc \<Rightarrow> nat \<Rightarrow> addr \<Rightarrow> nat \<Rightarrow> bool \<Rightarrow> heap \<Rightarrow> (addr option \<times> heap) option outcome" where
  "mem_print_value alloc 0 item depth fmt h = Ok None"
| "mem_print_value alloc (Suc k) item depth fmt h =
     or_fault (load item h) (\<lambda>n.
      let t = c_type n mod 256 in
      if t = cJsonDap_Null then mem_strdup alloc ''null'' h
      else if t = cJsonDap_False then mem_strdup alloc ''false'' h
      else if t = cJsonDap_True then mem_strdup alloc ''true'' h
      else if t = cJsonDap_Number then mem_print_number alloc n h
      else if t = cJsonDap_String then mem_print_string_ptr alloc (c_valuestring n) h
      else if t = cJsonDap_Array then mem_print_array (\<lambda>c. mem_print_value alloc k c (depth + 1) fmt) alloc k n fmt h
      else if t = cJsonDap_Object then mem_print_object (\<lambda>c. mem_print_value alloc k c (depth + 1) fmt) alloc k n (depth + 1) fmt h
      else Ok (Some (None, h)))"

text \<open>\<^verbatim>\<open>cJSON_Print\<close>, \<^verbatim>\<open>cJSON_PrintUnformatted\<close>; the fuel is the number of blocks, and more.\<close>

definition mem_cJSON_Print :: "sized_alloc \<Rightarrow> nat \<Rightarrow> bool \<Rightarrow> addr \<Rightarrow> heap \<Rightarrow> (addr option \<times> heap) option outcome" where
  "mem_cJSON_Print alloc fuel pretty item h = mem_print_value alloc fuel item 0 pretty h"

text \<open>\<^verbatim>\<open>Json::ToString\<close>: a null pointer makes an empty \<^verbatim>\<open>wxString\<close>, and \<^verbatim>\<open>free\<close> of it does nothing.\<close>

definition mem_ToString :: "sized_alloc \<Rightarrow> nat \<Rightarrow> bool \<Rightarrow> addr option \<Rightarrow> heap \<Rightarrow> (string \<times> heap) option outcome" where
  "mem_ToString alloc fuel pretty m_cjson h =
     (case m_cjson of
        None \<Rightarrow> Ok (Some ([], h))
      | Some item \<Rightarrow>
         mbind (mem_cJSON_Print alloc fuel pretty item h) (\<lambda>(c, h).
           or_fault (case c of None \<Rightarrow> Some [] | Some a \<Rightarrow> text_at a h) (\<lambda>str.
           or_fault (free_if c h) (\<lambda>h. Ok (Some (str, h))))))"

section \<open>The allocation functions\<close>

text \<open>The static variables \<^verbatim>\<open>cJSON_malloc\<close> and \<^verbatim>\<open>cJSON_free\<close>; the first argument is those of the C library.\<close>

record ('m, 'f) cJSON_functions =
  cJSON_malloc :: 'm
  cJSON_free :: 'f

record ('m, 'f) cJSONDap_Hooks =
  malloc_fn :: "'m option"
  free_fn :: "'f option"

definition cJSON_InitHooks :: "('m, 'f) cJSON_functions \<Rightarrow> ('m, 'f) cJSONDap_Hooks option \<Rightarrow> ('m, 'f) cJSON_functions" where
  "cJSON_InitHooks lib hooks =
     (case hooks of
        None \<Rightarrow> lib
      | Some k \<Rightarrow> \<lparr>cJSON_malloc = (case malloc_fn k of None \<Rightarrow> cJSON_malloc lib | Some f \<Rightarrow> f),
          cJSON_free = (case free_fn k of None \<Rightarrow> cJSON_free lib | Some f \<Rightarrow> f)\<rparr>)"

text \<open>
  \<^verbatim>\<open>Json::ToString\<close> gives the text that \<^verbatim>\<open>cJSON_malloc\<close> allocated to the \<^verbatim>\<open>free\<close> of the library, which is the function of the
  hooks only as long as these do not name their own.
\<close>

lemma ToString_frees_with_library:
  "cJSON_free (cJSON_InitHooks lib hooks) = cJSON_free lib \<longleftrightarrow> hooks = None \<or> free_fn (the hooks) \<in> {None, Some (cJSON_free lib)}"
  by (auto simp: cJSON_InitHooks_def split: option.splits)

section \<open>Texts without NUL\<close>

lemma no_nul_sign [simp]: "no_nul (sign_str r)"
  by (simp add: sign_str_def NUL_def)

lemma no_nul_pad0 [simp]: "no_nul (pad0 w s) = no_nul s"
  by (auto simp: pad0_def no_nul_def NUL_def)

lemma no_nul_fmt [simp]: "no_nul (fmt_f0 d)" "no_nul (fmt_f d)" "no_nul (fmt_e d)"
  by (cases d; simp add: Let_def NUL_def split: prod.split)+

section \<open>Temporary blocks\<close>

text \<open>The texts that have been allocated so far, with \<open>None\<close> for a null pointer, and the memory with them.\<close>

fun with_blocks :: "heap \<Rightarrow> (addr \<times> string) option list \<Rightarrow> heap" where
  "with_blocks h [] = h"
| "with_blocks h (None # ps) = with_blocks h ps"
| "with_blocks h (Some (a, s) # ps) = with_blocks (h(a \<mapsto> Chars s)) ps"

definition addrs :: "(addr \<times> string) option list \<Rightarrow> addr list" where
  "addrs ps = concat (map ptrs ps)"

definition fresh_blocks :: "heap \<Rightarrow> (addr \<times> string) option list \<Rightarrow> bool" where
  "fresh_blocks h ps \<longleftrightarrow> distinct (addrs ps) \<and> (\<forall>a\<in>set (addrs ps). h a = None) \<and> (\<forall>a s. Some (a, s) \<in> set ps \<longrightarrow> no_nul s)"

lemma addrs_simps [simp]:
  "addrs [] = []" "addrs (None # ps) = addrs ps" "addrs (Some (a, s) # ps) = a # addrs ps" "addrs (ps @ qs) = addrs ps @ addrs qs"
  by (simp_all add: addrs_def ptrs_def)

lemma blocks_induct:
  assumes "\<And>h. P [] h" "\<And>ps h. P ps h \<Longrightarrow> P (None # ps) h" "\<And>a s ps h. P ps (h(a \<mapsto> Chars s)) \<Longrightarrow> P (Some (a, s) # ps) h"
  shows "P ps h"
proof (induction ps arbitrary: h)
  case (Cons p ps)
  then show ?case using assms(2,3) by (cases p) auto
qed (rule assms(1))

lemma fresh_blocks_Nil [simp]: "fresh_blocks h []"
  by (simp add: fresh_blocks_def)

lemma with_blocks_append [simp]: "with_blocks h (ps @ qs) = with_blocks (with_blocks h ps) qs"
  by (rule blocks_induct [where P = "\<lambda>ps h. with_blocks h (ps @ qs) = with_blocks (with_blocks h ps) qs"]) simp_all

lemma with_blocks_upd: "a \<notin> set (addrs ps) \<Longrightarrow> with_blocks (h(a := b)) ps = (with_blocks h ps)(a := b)"
  by (rule blocks_induct [where P = "\<lambda>ps h. a \<notin> set (addrs ps) \<longrightarrow> with_blocks (h(a := b)) ps = (with_blocks h ps)(a := b)", THEN mp])
    (auto simp: fun_upd_twist [of a])

lemma with_blocks_other: "a \<notin> set (addrs ps) \<Longrightarrow> with_blocks h ps a = h a"
  by (rule blocks_induct [where P = "\<lambda>ps h. a \<notin> set (addrs ps) \<longrightarrow> with_blocks h ps a = h a", THEN mp]) simp_all

lemma with_blocks_dom: "dom (with_blocks h ps) = dom h \<union> set (addrs ps)"
  by (rule blocks_induct [where P = "\<lambda>ps h. dom (with_blocks h ps) = dom h \<union> set (addrs ps)"]) simp_all

lemma with_blocks_finite [simp]: "finite (dom (with_blocks h ps)) = finite (dom h)"
  by (simp add: with_blocks_dom)

lemma seg_with_blocks: "seg h p q ts r \<Longrightarrow> fresh_blocks h ps \<Longrightarrow> seg (with_blocks h ps) p q ts r"
proof -
  assume sg: "seg h p q ts r" and f: "fresh_blocks h ps"
  have "with_blocks h ps x = h x" if "x \<in> set (owned_list ts)" for x
    using that seg_dom [OF sg] f by (intro with_blocks_other) (auto simp: fresh_blocks_def)
  then show ?thesis using sg by (subst seg_cong [where h = h]) auto
qed

lemma fresh_blocks_null: "fresh_blocks h ps \<Longrightarrow> fresh_blocks h (ps @ [None])"
  by (simp add: fresh_blocks_def)

lemma fresh_blocks_snoc:
  "fresh_blocks h ps \<Longrightarrow> with_blocks h ps a = None \<Longrightarrow> no_nul s \<Longrightarrow> fresh_blocks h (ps @ [Some (a, s)])"
  using domIff [of a "with_blocks h ps"] by (auto simp: fresh_blocks_def with_blocks_dom)

lemma fresh_blocks_Some:
  assumes "fresh_blocks h (Some (a, s) # ps)"
  shows "h a = None" "a \<notin> set (addrs ps)" "no_nul s" "fresh_blocks h ps" "with_blocks h (Some (a, s) # ps) a = Some (Chars s)"
    "(with_blocks h (Some (a, s) # ps))(a := None) = with_blocks h ps"
proof -
  show f: "h a = None" "a \<notin> set (addrs ps)" "no_nul s" "fresh_blocks h ps" using assms by (auto simp: fresh_blocks_def)
  show "with_blocks h (Some (a, s) # ps) a = Some (Chars s)" "(with_blocks h (Some (a, s) # ps))(a := None) = with_blocks h ps"
    using f by (auto simp: with_blocks_upd with_blocks_other fun_upd_idem)
qed

lemma free_block: "fresh_blocks h (Some (a, s) # ps) \<Longrightarrow> free a (with_blocks h (Some (a, s) # ps)) = Some (with_blocks h ps)"
  using fresh_blocks_Some [of h a s ps] by (simp add: free_def)

lemma text_block: "fresh_blocks h (Some (a, s) # ps) \<Longrightarrow> text_at a (with_blocks h (Some (a, s) # ps)) = Some s"
  using fresh_blocks_Some [of h a s ps] by (simp add: text_at_def)

lemma free_all_blocks: "fresh_blocks h ps \<Longrightarrow> free_all (map (map_option fst) ps) (with_blocks h ps) = Some h"
proof (induction ps)
  case (Cons p ps)
  then show ?case
  proof (cases p)
    case None
    then show ?thesis using Cons by (simp add: free_if_def fresh_blocks_def)
  next
    case (Some b)
    then show ?thesis using Cons fresh_blocks_Some(4) [of h "fst b" "snd b" ps] free_block [of h "fst b" "snd b" ps]
      by (simp add: free_if_def split_pairs)
  qed
qed simp

section \<open>Printing in memory against printing\<close>

locale sized_allocation =
  fixes alloc :: sized_alloc and tot :: bool
  assumes alloc_new: "finite (dom h) \<Longrightarrow> alloc n h = Some a \<Longrightarrow> h a = None"
    and alloc_tot: "tot \<Longrightarrow> alloc n h \<noteq> None"

text \<open>
  What a call may answer for a value that prints as \<open>pr\<close>: the text in a new block, or a null pointer when there is no text or an
  allocation fails.
\<close>

definition prints :: "bool \<Rightarrow> string option outcome \<Rightarrow> heap \<Rightarrow> (addr option \<times> heap) option outcome \<Rightarrow> bool" where
  "prints tot pr h hr \<longleftrightarrow>
     \<not> tot \<and> hr = Ok (Some (None, h)) \<or>
     (case pr of
        Undef u \<Rightarrow> hr = Undef Over_Write
      | Ok None \<Rightarrow> hr = Ok (Some (None, h))
      | Ok (Some s) \<Rightarrow> no_nul s \<and> (\<exists>a. h a = None \<and> hr = Ok (Some (Some a, h(a \<mapsto> Chars s)))))"

lemma prints_null: "prints tot (Ok None) h (Ok (Some (None, h)))"
  by (simp add: prints_def)

lemma prints_no_memory: "\<not> tot \<Longrightarrow> prints tot pr h (Ok (Some (None, h)))"
  by (simp add: prints_def)

lemma prints_text: "no_nul s \<Longrightarrow> h a = None \<Longrightarrow> prints tot (Ok (Some s)) h (Ok (Some (Some a, h(a \<mapsto> Chars s))))"
  by (auto simp: prints_def)

lemma prints_overrun: "prints tot (Undef u) h (Undef Over_Write)"
  by (simp add: prints_def)

lemma prints_cases:
  assumes "prints tot pr h hr"
  obtains "hr = Ok (Some (None, h))" "\<not> tot \<or> pr = Ok None"
  | u where "hr = Undef Over_Write" "pr = Undef u"
  | s a where "hr = Ok (Some (Some a, h(a \<mapsto> Chars s)))" "pr = Ok (Some s)" "no_nul s" "h a = None"
  using assms by (auto simp: prints_def split: outcome.splits option.splits)

lemma mbind_simps [simp]: "mbind (Ok (Some x)) f = f x" "mbind (Ok None) f = Ok None" "mbind (Undef u) f = Undef u"
  by (simp_all add: mbind_def)

lemma or_fault_Some [simp]: "or_fault (Some x) f = f x"
  by (simp add: or_fault_def)

context sized_allocation
begin

lemma written_prints:
  "finite (dom h) \<Longrightarrow> no_nul s \<Longrightarrow> prints tot (omap Some (fill sz s)) h (written alloc sz s h)"
  using alloc_new [of h sz] alloc_tot [of sz h]
  by (cases "alloc sz h") (auto simp: written_def fill_def malloc_def intro: prints_no_memory prints_text prints_overrun)

lemma strdup_prints: "finite (dom h) \<Longrightarrow> no_nul s \<Longrightarrow> prints tot (Ok (Some s)) h (mem_strdup alloc s h)"
  using written_prints [of h s "length s + 1"] by (simp add: mem_strdup_def fill_def)

lemma number_prints:
  assumes "finite (dom h)" "c_valueint n = valueint x" "c_valuedouble n = valuedouble x"
  shows "prints tot (omap Some (print_number x)) h (mem_print_number alloc n h)"
  by (simp add: mem_print_number_def print_number_def assms(2,3) Let_def written_prints [OF assms(1)])

lemma string_prints:
  assumes "finite (dom h)" "chars_at h v"
  shows "prints tot (omap Some (print_string_ptr (map_option snd v))) h (mem_print_string_ptr alloc (map_option fst v) h)"
proof (cases v)
  case None
  then show ?thesis using strdup_prints [OF assms(1), of "[]"] by (simp add: mem_print_string_ptr_def print_string_ptr_def chars_def)
next
  case (Some b)
  have "no_nul (quote (c_str (snd b)))" by (rule no_nul_quote) simp
  then show ?thesis using Some chars_of_at [OF assms(2)] written_prints [OF assms(1), of "quote (c_str (snd b))"]
    by (simp add: mem_print_string_ptr_def print_string_ptr_def quote_def Let_def)
qed

end

lemma count_seg: "seg h p q ts None \<Longrightarrow> length ts < k \<Longrightarrow> mem_count k q h = Some (length ts)"
proof (induction ts arbitrary: p q k)
  case Nil
  then show ?case by (cases k) auto
next
  case (Cons t ts)
  then obtain n j where "q = Some (node_addr t)" "load (node_addr t) h = Some n" "seg h (Some (node_addr t)) (c_next n) ts None" "k = Suc j"
    using seg_Cons_load [OF Cons.prems(1)] by (cases k) auto
  then show ?case using Cons.IH Cons.prems(2) by simp
qed

section \<open>The interface of an element\<close>

text \<open>
  \<open>pr\<close> is what an element prints as, \<open>pv\<close> the call in memory; \<open>ok\<close> are the trees for which the fuel is enough.
\<close>

definition entry_len :: "bool \<Rightarrow> string \<Rightarrow> nat" where
  "entry_len fmt e = length e + 2 + (if fmt then 1 else 0)"

definition member_len :: "nat \<Rightarrow> bool \<Rightarrow> string \<times> string \<Rightarrow> nat" where
  "member_len depth fmt = (\<lambda>(k, e). length e + length k + 2 + (if fmt then 2 + depth else 0))"

lemma slots_simps [simp]:
  "slots [] = []" "slots ((x, y) # es) = x # y # slots es" "slots (es @ ds) = slots es @ slots ds" "slots (map (map_prod f f) es) = map f (slots es)"
  by (auto simp: slots_def map_concat comp_def split_def)

lemma object_entries_key:
  "print_string_ptr k = Ok key \<Longrightarrow> object_entries ((k, x) # xs) = obind x (\<lambda>ret. obind (object_entries xs) (\<lambda>rest.
     Ok (case (ret, rest) of (Some e, Some es) \<Rightarrow> Some ((key, e) # es) | _ \<Rightarrow> None)))"
  by simp

locale printer = sized_allocation alloc tot for alloc tot +
  fixes pr :: "cJsonDap \<Rightarrow> string option outcome" and pv :: "addr \<Rightarrow> heap \<Rightarrow> (addr option \<times> heap) option outcome" and ok :: "atree \<Rightarrow> bool"
  assumes value_prints: "finite (dom h) \<Longrightarrow> seg h p (Some (node_addr w)) [w] r \<Longrightarrow> ok w \<Longrightarrow> prints tot (pr (tree_of w)) h (pv (node_addr w) h)"
begin

text \<open>The first element of a chain, with the temporary blocks of the elements before it.\<close>

lemma first_element:
  assumes "finite (dom h)" "seg h p q (w # ws) None" "ok w"
  obtains n where "q = Some (node_addr w)" "seg h (Some (node_addr w)) (c_next n) ws None" "c_string n = map_option fst (aname w)"
    "\<And>ds. fresh_blocks h ds \<Longrightarrow> load (node_addr w) (with_blocks h ds) = Some n"
    "\<And>ds. fresh_blocks h ds \<Longrightarrow> chars_at (with_blocks h ds) (aname w)"
    "\<And>ds. fresh_blocks h ds \<Longrightarrow> prints tot (pr (tree_of w)) (with_blocks h ds) (pv (node_addr w) (with_blocks h ds))"
proof -
  from seg_Cons_load [OF assms(2)] obtain n where n: "q = Some (node_addr w)" "load (node_addr w) h = Some n"
    "seg h (Some (node_addr w)) (c_next n) ws None" by blast
  from assms(2) obtain m where m: "seg h p q [w] m" using seg_append [of h p q "[w]" ws None] by auto
  have str: "c_string n = map_option fst (aname w)" using m n(2) by (cases w) auto
  have sg: "seg (with_blocks h ds) p q [w] m" if "fresh_blocks h ds" for ds using seg_with_blocks [OF m that] .
  have at: "load (node_addr w) (with_blocks h ds) = Some n" if "fresh_blocks h ds" for ds
  proof -
    have "h (node_addr w) \<noteq> None" using n(2) by (auto simp: load_def split: option.splits)
    then have "with_blocks h ds (node_addr w) = h (node_addr w)" using that by (intro with_blocks_other) (auto simp: fresh_blocks_def)
    then show ?thesis using n(2) by (simp add: load_def)
  qed
  show thesis
  proof (rule that [OF n(1,3) str at])
    show "chars_at (with_blocks h ds) (aname w)" if "fresh_blocks h ds" for ds using sg [OF that] by (cases w) simp
    show "prints tot (pr (tree_of w)) (with_blocks h ds) (pv (node_addr w) (with_blocks h ds))" if "fresh_blocks h ds" for ds
      using value_prints [of "with_blocks h ds" p w m] sg [OF that] assms(1,3) n(1) by simp
  qed
qed

lemma array_loop:
  assumes "finite (dom h)"
  shows "seg h p q ws None \<Longrightarrow> \<forall>w\<in>set ws. ok w \<Longrightarrow> fresh_blocks h es \<Longrightarrow> length ws < k \<Longrightarrow>
    (\<exists>ds. array_entries (map (\<lambda>w. pr (tree_of w)) ws) = Ok (Some (map snd ds)) \<and> fresh_blocks h (es @ map Some ds) \<and>
       mem_array_loop pv fmt k q (map (map_option fst) es) len (with_blocks h es) =
         Ok (Some (map (map_option fst) (es @ map Some ds), len + sum_list (map (entry_len fmt) (map snd ds)),
           False, with_blocks h (es @ map Some ds)))) \<or>
    (\<not> tot \<or> array_entries (map (\<lambda>w. pr (tree_of w)) ws) = Ok None) \<and> (\<exists>ds len'. fresh_blocks h (es @ ds) \<and>
       mem_array_loop pv fmt k q (map (map_option fst) es) len (with_blocks h es) =
         Ok (Some (map (map_option fst) (es @ ds), len', True, with_blocks h (es @ ds)))) \<or>
    (\<exists>u. array_entries (map (\<lambda>w. pr (tree_of w)) ws) = Undef u) \<and>
       mem_array_loop pv fmt k q (map (map_option fst) es) len (with_blocks h es) = Undef Over_Write"
proof (induction ws arbitrary: p q es k len)
  case Nil
  then obtain j where "q = None" "k = Suc j" by (cases k) auto
  then show ?case using Nil by (intro disjI1 exI [of _ "[]"]) simp
next
  case (Cons w ws)
  from Cons.prems(4) obtain j where k: "k = Suc j" "length ws < j" by (cases k) auto
  have okw: "ok w" using Cons.prems(2) by simp
  obtain n where n: "q = Some (node_addr w)"
    "prints tot (pr (tree_of w)) (with_blocks h es) (pv (node_addr w) (with_blocks h es))"
    "\<And>ds. fresh_blocks h ds \<Longrightarrow> load (node_addr w) (with_blocks h ds) = Some n" "seg h (Some (node_addr w)) (c_next n) ws None"
    by (rule first_element [OF assms Cons.prems(1) okw]) (use Cons.prems(3) in auto)
  let ?h = "with_blocks h es"
  from n(2) show ?case
  proof (cases rule: prints_cases)
    case 1
    then show ?thesis using n(1) n(3) [OF Cons.prems(3)] k fresh_blocks_null [OF Cons.prems(3)]
      by (rule_tac disjI2, rule_tac disjI1) (auto intro!: exI [of _ "[None]"])
  next
    case (2 u)
    then show ?thesis using n(1) k by (rule_tac disjI2, rule_tac disjI2) simp
  next
    case (3 s a)
    define es' where "es' = es @ [Some (a, s)]"
    have f: "fresh_blocks h es'" unfolding es'_def using fresh_blocks_snoc [OF Cons.prems(3) 3(4,3)] .
    have t: "text_at a (with_blocks h es') = Some s" using 3(3) by (simp add: es'_def text_at_def)
    have step: "mem_array_loop pv fmt k q (map (map_option fst) es) len ?h =
        mem_array_loop pv fmt j (c_next n) (map (map_option fst) es') (len + entry_len fmt s) (with_blocks h es')"
      using n(1) n(3) [OF f] t 3(1) k(1) by (simp add: es'_def entry_len_def)
    have ae: "array_entries (map (\<lambda>w. pr (tree_of w)) (w # ws)) = omap (map_option ((#) s)) (array_entries (map (\<lambda>w. pr (tree_of w)) ws))"
      using 3(2) by simp
    have oks: "\<forall>w\<in>set ws. ok w" using Cons.prems(2) by simp
    have es': "es' @ ds = es @ Some (a, s) # ds" for ds by (simp add: es'_def)
    from Cons.IH [OF n(4) oks f k(2), of "len + entry_len fmt s"] show ?thesis unfolding step ae es'
    proof (elim disjE exE conjE, goal_cases)
      case (1 ds)
      then show ?case by (rule_tac disjI1, rule_tac exI [of _ "(a, s) # ds"]) (simp add: add.assoc del: with_blocks_append with_blocks.simps)
    next
      case (2 ds len')
      then show ?case by (rule_tac disjI2, rule_tac disjI1) (auto intro!: exI [of _ "Some (a, s) # ds"] exI [of _ len'])
    next
      case (3 ds len')
      then show ?case by (rule_tac disjI2, rule_tac disjI1) (auto intro!: exI [of _ "Some (a, s) # ds"] exI [of _ len'])
    next
      case (4 u)
      then show ?case by (rule_tac disjI2, rule_tac disjI2) simp
    qed
  qed
qed

end

lemma join_array_blocks:
  "fresh_blocks g (map Some ds) \<Longrightarrow>
     mem_join_array fmt (map (map_option fst) (map Some ds)) (with_blocks g (map Some ds)) = Some (join_array fmt (map snd ds), g)"
proof (induction ds)
  case (Cons d ds)
  obtain a s where d: "d = (a, s)" by force
  have f: "fresh_blocks g (Some (a, s) # map Some ds)" using Cons.prems d by simp
  have "mem_join_array fmt (map (map_option fst) (map Some (d # ds))) (with_blocks g (map Some (d # ds))) =
      Some (s @ (if map (map_option fst) (map Some ds) \<noteq> [] then '','' @ (if fmt then '' '' else []) else []) @ join_array fmt (map snd ds), g)"
    by (simp only: d list.map option.map fst_conv mem_join_array.simps text_block [OF f] free_block [OF f] Cons.IH [OF fresh_blocks_Some(4) [OF f]]
        Option.bind.bind_lunit prod.case)
  also have "\<dots> = Some (join_array fmt (map snd (d # ds)), g)" using d by (cases ds) simp_all
  finally show ?case .
qed simp

lemma block_apart:
  assumes "fresh_blocks g bs" "with_blocks g bs a = None"
  shows "malloc a b (with_blocks g bs) = with_blocks (g(a \<mapsto> b)) bs" "fresh_blocks (g(a \<mapsto> b)) bs" "g a = None"
proof -
  have a: "a \<notin> set (addrs bs)" "g a = None" using assms(2) with_blocks_dom [of g bs] by (auto simp: domIff)
  then show "malloc a b (with_blocks g bs) = with_blocks (g(a \<mapsto> b)) bs" "g a = None" by (simp_all add: malloc_def with_blocks_upd)
  show "fresh_blocks (g(a \<mapsto> b)) bs" using assms(1) a(1) by (auto simp: fresh_blocks_def)
qed

lemma fresh_texts: "fresh_blocks g (map Some ds) \<Longrightarrow> list_all no_nul (map snd ds)"
  by (fastforce simp: fresh_blocks_def list_all_iff)

text \<open>The end of \<^verbatim>\<open>print_array\<close>: with the texts \<open>bs\<close>, and the block of the pointers to them, in memory.\<close>

lemma array_finish_null:
  assumes "fresh_blocks g bs" "fail \<or> alloc len (with_blocks g bs) = None" "free entries g = Some h"
  shows "array_finish alloc entries (map (map_option fst) bs, len, fail, with_blocks g bs) fmt = Ok (Some (None, h))"
  using assms(2,3) free_all_blocks [OF assms(1)] by (cases fail) (simp_all add: array_finish_def)

context sized_allocation
begin

lemma array_finish_prints:
  assumes "finite (dom h)" "h entries = None" "fresh_blocks (h(entries \<mapsto> Chars [])) (map Some ds)"
  shows "prints tot (Ok (Some (array_text fmt (map snd ds)))) h
     (array_finish alloc entries (map (map_option fst) (map Some ds), array_len fmt (map snd ds), False,
       with_blocks (h(entries \<mapsto> Chars [])) (map Some ds)) fmt)"
proof -
  let ?g = "h(entries \<mapsto> Chars [])" and ?es = "map snd ds"
  let ?H = "with_blocks ?g (map Some ds)" and ?len = "array_len fmt (map snd ds)"
  have fr: "free entries ?g = Some h" using assms(2) by (simp add: free_def fun_upd_idem)
  show ?thesis
  proof (cases "alloc ?len ?H")
    case None
    then show ?thesis using array_finish_null [OF assms(3) _ fr, of False alloc ?len] alloc_tot [of ?len ?H] by (auto intro: prints_no_memory)
  next
    case (Some out)
    have out: "?H out = None" using alloc_new [OF _ Some] assms(1) by simp
    note b = block_apart(1,2) [OF assms(3) out, of "Chars []"] block_apart(3) [OF assms(3) out]
    have o: "out \<noteq> entries" "h out = None" using b(3) by (auto split: if_splits)
    have fr2: "free entries (?g(out \<mapsto> Chars [])) = Some (h(out \<mapsto> Chars []))"
      using o assms(2) by (auto simp: free_def fun_eq_iff)
    have "array_finish alloc entries (map (map_option fst) (map Some ds), ?len, False, ?H) fmt = Ok (Some (Some out, h(out \<mapsto> Chars (array_text fmt ?es))))"
      by (simp only: array_finish_def prod.case if_False Some option.case b(1) join_array_blocks [OF b(2)] or_fault_Some fr2 obind.simps fun_upd_upd
          array_text_def fill_array [of fmt ?es, unfolded array_text_def])
    moreover have "no_nul (array_text fmt ?es)"
      using no_nul_join_array [OF fresh_texts [OF assms(3)], of fmt] by (simp add: array_text_def NUL_def)
    ultimately show ?thesis using o(2) by (simp add: prints_text)
  qed
qed

end

context printer
begin

lemma array_prints:
  assumes "finite (dom h)" "seg h None (c_child n) ws None" "\<forall>w\<in>set ws. ok w" "length ws < k"
  shows "prints tot (print_array (map (\<lambda>w. pr (tree_of w)) ws) fmt) h (mem_print_array pv alloc k n fmt h)"
proof (cases "alloc (length ws * 8) h")
  case None
  then show ?thesis using alloc_tot [of "length ws * 8" h]
    by (auto simp: mem_print_array_def count_seg [OF assms(2,4)] intro: prints_no_memory)
next
  case (Some ea)
  let ?rets = "map (\<lambda>w. pr (tree_of w)) ws" and ?g = "h(ea \<mapsto> Chars [])"
  have ea: "h ea = None" using alloc_new [OF assms(1) Some] .
  have g: "finite (dom ?g)" "seg ?g None (c_child n) ws None" "free ea ?g = Some h"
    using assms(1) seg_with_blocks [OF assms(2), of "[Some (ea, [])]"] ea by (simp_all add: fresh_blocks_def free_def fun_upd_idem)
  have m: "mem_print_array pv alloc k n fmt h = mbind (mem_array_loop pv fmt k (c_child n) [] 5 ?g) (\<lambda>r. array_finish alloc ea r fmt)"
    by (simp only: mem_print_array_def count_seg [OF assms(2,4)] Some malloc_def or_fault_Some option.case)
  have "(\<exists>ds. array_entries ?rets = Ok (Some (map snd ds)) \<and> fresh_blocks ?g (map Some ds) \<and>
       mem_array_loop pv fmt k (c_child n) [] 5 ?g = Ok (Some (map (map_option fst) (map Some ds),
         5 + sum_list (map (entry_len fmt) (map snd ds)), False, with_blocks ?g (map Some ds)))) \<or>
     (\<not> tot \<or> array_entries ?rets = Ok None) \<and> (\<exists>ds len. fresh_blocks ?g ds \<and>
       mem_array_loop pv fmt k (c_child n) [] 5 ?g = Ok (Some (map (map_option fst) ds, len, True, with_blocks ?g ds))) \<or>
     (\<exists>u. array_entries ?rets = Undef u) \<and> mem_array_loop pv fmt k (c_child n) [] 5 ?g = Undef Over_Write"
    using array_loop [OF g(1,2) assms(3) fresh_blocks_Nil assms(4), of fmt 5] unfolding append_Nil list.map with_blocks.simps(1) .
  then show ?thesis
  proof (elim disjE exE conjE, goal_cases)
    case (1 ds)
    have "5 + sum_list (map (entry_len fmt) (map snd ds)) = array_len fmt (map snd ds)" by (simp only: array_len_def entry_len_def [abs_def])
    then have "mem_print_array pv alloc k n fmt h =
        array_finish alloc ea (map (map_option fst) (map Some ds), array_len fmt (map snd ds), False, with_blocks ?g (map Some ds)) fmt"
      using m 1(3) by simp
    then show ?thesis using array_finish_prints [OF assms(1) ea 1(2), of fmt] 1(1) by (simp add: print_array_def fill_array)
  next
    case (2 ds len)
    then show ?thesis using m array_finish_null [OF 2(2) _ g(3), of True] by (auto intro: prints_no_memory)
  next
    case (3 ds len)
    then show ?thesis using m array_finish_null [OF 3(2) _ g(3), of True] by (auto simp: print_array_def intro: prints_null)
  next
    case (4 u)
    then show ?thesis by (auto simp: m print_array_def intro: prints_overrun)
  qed
qed

end

context printer
begin

lemma member_prints:
  fixes f :: "addr option \<Rightarrow> addr option \<Rightarrow> heap \<Rightarrow> ((addr option \<times> addr option) list \<times> nat \<times> bool \<times> heap) option outcome"
  assumes "finite (dom h)" "fresh_blocks h es" "\<And>ds. fresh_blocks h ds \<Longrightarrow> chars_at (with_blocks h ds) v"
    "\<And>ds. fresh_blocks h ds \<Longrightarrow> prints tot x (with_blocks h ds) (pv c (with_blocks h ds))" "print_string_ptr (map_option snd v) = Ok key"
  defines "run \<equiv> mbind (mem_print_string_ptr alloc (map_option fst v) (with_blocks h es)) (\<lambda>(str, h). mbind (pv c h) (\<lambda>(ret, h). f str ret h))"
  obtains u where "x = Undef u" "run = Undef Over_Write"
  | y z where "fresh_blocks h (es @ [y, z])" "run = f (map_option fst y) (map_option fst z) (with_blocks h (es @ [y, z]))"
      "y = None \<or> z = None" "\<not> tot \<or> x = Ok None"
  | a b t where "fresh_blocks h (es @ [Some (a, key), Some (b, t)])"
      "run = f (Some a) (Some b) (with_blocks h (es @ [Some (a, key), Some (b, t)]))" "x = Ok (Some t)" "no_nul key" "no_nul t"
proof -
  note outs = that
  have step: thesis
    if e: "fresh_blocks h (es @ [y])" and m: "mem_print_string_ptr alloc (map_option fst v) (with_blocks h es) = Ok (Some (map_option fst y, with_blocks h (es @ [y])))"
      and y: "y = None \<and> \<not> tot \<or> (\<exists>a. y = Some (a, key) \<and> no_nul key)" for y
    using assms(4) [OF e]
  proof (cases rule: prints_cases)
    case 1
    then show ?thesis using m y fresh_blocks_null [OF e] by (intro outs(2) [of y None]) (auto simp: run_def)
  next
    case (2 u)
    then show ?thesis using m by (intro outs(1) [of u]) (simp_all add: run_def)
  next
    case (3 t b)
    have e2: "fresh_blocks h (es @ [y, Some (b, t)])" using fresh_blocks_snoc [OF e 3(4,3)] by simp
    have m2: "run = f (map_option fst y) (Some b) (with_blocks h (es @ [y, Some (b, t)]))"
      using m 3(1) with_blocks_append [of h "es @ [y]" "[Some (b, t)]"] by (simp add: run_def del: with_blocks_append)
    from y show ?thesis
    proof (elim disjE exE conjE)
      show ?thesis if "y = None" "\<not> tot" using that e2 m2 by (intro outs(2) [of y "Some (b, t)"]) auto
      show ?thesis if "y = Some (a, key)" "no_nul key" for a using that e2 m2 3(2,3) by (intro outs(3) [of a b t]) auto
    qed
  qed
  have "prints tot (Ok (Some key)) (with_blocks h es) (mem_print_string_ptr alloc (map_option fst v) (with_blocks h es))"
    using string_prints [of "with_blocks h es" v] assms(1,5) assms(3) [OF assms(2)] by simp
  then show thesis
  proof (cases rule: prints_cases)
    case 1
    then show ?thesis using fresh_blocks_null [OF assms(2)] by (intro step [of None]) auto
  next
    case (3 s a)
    then show ?thesis using fresh_blocks_snoc [OF assms(2) 3(4,3)] by (intro step [of "Some (a, s)"]) auto
  qed simp
qed

lemma object_loop:
  assumes "finite (dom h)"
  shows "seg h p q ws None \<Longrightarrow> \<forall>w\<in>set ws. ok w \<Longrightarrow> fresh_blocks h (slots bs) \<Longrightarrow> length ws < k \<Longrightarrow>
    (\<exists>ds. object_entries (map (\<lambda>w. (name_of (tree_of w), pr (tree_of w))) ws) = Ok (Some (map (map_prod snd snd) ds)) \<and>
       fresh_blocks h (slots (bs @ map (map_prod Some Some) ds)) \<and>
       mem_object_loop pv alloc depth fmt k q (map (map_prod (map_option fst) (map_option fst)) bs) len fail (with_blocks h (slots bs)) =
         Ok (Some (map (map_prod (map_option fst) (map_option fst)) (bs @ map (map_prod Some Some) ds),
           len + sum_list (map (member_len depth fmt) (map (map_prod snd snd) ds)), fail,
           with_blocks h (slots (bs @ map (map_prod Some Some) ds))))) \<or>
    (\<not> tot \<or> object_entries (map (\<lambda>w. (name_of (tree_of w), pr (tree_of w))) ws) = Ok None) \<and> (\<exists>ds len'. fresh_blocks h (slots (bs @ ds)) \<and>
       mem_object_loop pv alloc depth fmt k q (map (map_prod (map_option fst) (map_option fst)) bs) len fail (with_blocks h (slots bs)) =
         Ok (Some (map (map_prod (map_option fst) (map_option fst)) (bs @ ds), len', True, with_blocks h (slots (bs @ ds))))) \<or>
    (\<exists>u. object_entries (map (\<lambda>w. (name_of (tree_of w), pr (tree_of w))) ws) = Undef u) \<and>
       mem_object_loop pv alloc depth fmt k q (map (map_prod (map_option fst) (map_option fst)) bs) len fail (with_blocks h (slots bs)) = Undef Over_Write"
proof (induction ws arbitrary: p q bs k len fail)
  case Nil
  then obtain j where "q = None" "k = Suc j" by (cases k) auto
  then show ?case using Nil by (intro disjI1 exI [of _ "[]"]) simp
next
  case (Cons w ws)
  from Cons.prems(4) obtain j where k: "k = Suc j" "length ws < j" by (cases k) auto
  have okw: "ok w" "\<forall>w\<in>set ws. ok w" using Cons.prems(2) by auto
  obtain n where n: "q = Some (node_addr w)" "seg h (Some (node_addr w)) (c_next n) ws None" "c_string n = map_option fst (aname w)"
    "\<And>ds. fresh_blocks h ds \<Longrightarrow> load (node_addr w) (with_blocks h ds) = Some n"
    "\<And>ds. fresh_blocks h ds \<Longrightarrow> chars_at (with_blocks h ds) (aname w)"
    "\<And>ds. fresh_blocks h ds \<Longrightarrow> prints tot (pr (tree_of w)) (with_blocks h ds) (pv (node_addr w) (with_blocks h ds))"
    by (fact first_element [OF assms Cons.prems(1) okw(1)])
  have nm: "name_of (tree_of w) = map_option snd (aname w)" by (cases w) simp
  obtain key where key: "print_string_ptr (map_option snd (aname w)) = Ok key" using print_string_ptr_total [of "map_option snd (aname w)"] by (auto simp: defined_iff)
  let ?ptr = "map (map_prod (map_option fst) (map_option fst))" and ?rets = "map (\<lambda>w. (name_of (tree_of w), pr (tree_of w))) ws"
  define body where "body = (\<lambda>str ret h. or_fault (load (node_addr w) h) (\<lambda>n.
           case (str, ret) of
             (Some sa, Some ra) \<Rightarrow>
               or_fault (text_at ra h) (\<lambda>r. or_fault (text_at sa h) (\<lambda>s.
                 mem_object_loop pv alloc depth fmt j (c_next n) (?ptr bs @ [(str, ret)])
                   (len + (length r + length s + 2 + (if fmt then 2 + depth else 0))) fail h))
           | _ \<Rightarrow> mem_object_loop pv alloc depth fmt j (c_next n) (?ptr bs @ [(str, ret)]) len True h))"
  let ?run = "mem_object_loop pv alloc depth fmt k q (?ptr bs) len fail (with_blocks h (slots bs))"
  have run: "?run = mbind (mem_print_string_ptr alloc (map_option fst (aname w)) (with_blocks h (slots bs))) (\<lambda>(str, h). mbind (pv (node_addr w) h) (\<lambda>(ret, h). body str ret h))"
    by (simp add: k(1) n(1,3) n(4) [OF Cons.prems(3)] body_def)
  have er: "object_entries (map (\<lambda>w. (name_of (tree_of w), pr (tree_of w))) (w # ws)) = obind (pr (tree_of w)) (\<lambda>ret. obind (object_entries ?rets) (\<lambda>rest.
     Ok (case (ret, rest) of (Some e, Some es) \<Rightarrow> Some ((key, e) # es) | _ \<Rightarrow> None)))"
    using object_entries_key [of "name_of (tree_of w)" key] key nm by simp
  show ?case
  proof (rule member_prints [where h = h and es = "slots bs" and v = "aname w" and x = "pr (tree_of w)" and c = "node_addr w" and key = key and f = body], goal_cases)
    case (6 u)
    then show ?case unfolding er run by (rule_tac disjI2, rule_tac disjI2) simp
  next
    case (7 y z)
    let ?bs = "bs @ [(y, z)]"
    have f: "fresh_blocks h (slots ?bs)" using 7(1) by simp
    have step: "?run = mem_object_loop pv alloc depth fmt j (c_next n) (?ptr ?bs) len True (with_blocks h (slots ?bs))"
      unfolding run 7(2) using n(4) [OF f] 7(3) by (cases y) (auto simp: body_def)
    from Cons.IH [OF n(2) okw(2) f k(2), of len True] show ?case unfolding er step
    proof (elim disjE exE conjE, goal_cases)
      case (1 ds)
      then show ?case using 7(4) by (rule_tac disjI2, rule_tac disjI1) (auto intro!: exI [of _ "(y, z) # map (map_prod Some Some) ds"])
    next
      case (2 ds len')
      then show ?case using 7(4) by (rule_tac disjI2, rule_tac disjI1) (auto intro!: exI [of _ "(y, z) # ds"])
    next
      case (3 ds len')
      then show ?case using 7(4) by (rule_tac disjI2, rule_tac disjI1) (auto intro!: exI [of _ "(y, z) # ds"])
    next
      case (4 u)
      then show ?case by (rule_tac disjI2, rule_tac disjI2) (cases "pr (tree_of w)"; simp)
    qed
  next
    case (8 a b t)
    let ?bs = "bs @ [(Some (a, key), Some (b, t))]"
    have f: "fresh_blocks h (slots ?bs)" using 8(1) by simp
    have t: "text_at b (with_blocks h (slots ?bs)) = Some t" "text_at a (with_blocks h (slots ?bs)) = Some key"
      using 8(1,4,5) with_blocks_other [of a "[Some (b, t)]"] by (auto simp: text_at_def fresh_blocks_def)
    have step: "?run = mem_object_loop pv alloc depth fmt j (c_next n) (?ptr ?bs) (len + member_len depth fmt (key, t)) fail (with_blocks h (slots ?bs))"
      unfolding run 8(2) using n(4) [OF f] t by (simp add: body_def member_len_def del: with_blocks_append with_blocks.simps)
    have bs: "?bs @ ds = bs @ (Some (a, key), Some (b, t)) # ds" for ds by simp
    from Cons.IH [OF n(2) okw(2) f k(2), of "len + member_len depth fmt (key, t)" fail] show ?case unfolding er step bs
    proof (elim disjE exE conjE, goal_cases)
      case (1 ds)
      then show ?case using 8(3) by (rule_tac disjI1, rule_tac exI [of _ "((a, key), (b, t)) # ds"]) (simp add: add.assoc del: with_blocks_append with_blocks.simps)
    next
      case (2 ds len')
      then show ?case by (rule_tac disjI2, rule_tac disjI1) (auto intro!: exI [of _ "(Some (a, key), Some (b, t)) # ds"]
          simp del: with_blocks_append with_blocks.simps)
    next
      case (3 ds len')
      then show ?case using 8(3) by (rule_tac disjI2, rule_tac disjI1) (auto intro!: exI [of _ "(Some (a, key), Some (b, t)) # ds"]
          simp del: with_blocks_append with_blocks.simps)
    next
      case (4 u)
      then show ?case using 8(3) by (rule_tac disjI2, rule_tac disjI2) (simp del: with_blocks_append with_blocks.simps)
    qed
  qed (use assms Cons.prems(3) n(5,6) key in auto)
qed

end

lemma join_object_blocks:
  "fresh_blocks g (slots (map (map_prod Some Some) ds)) \<Longrightarrow>
     mem_join_object depth fmt (map (map_prod (map_option fst) (map_option fst)) (map (map_prod Some Some) ds)) (with_blocks g (slots (map (map_prod Some Some) ds))) =
       Some (join_object depth fmt (map (map_prod snd snd) ds), g)"
proof (induction ds)
  case (Cons d ds)
  obtain a k b e where d: "d = ((a, k), (b, e))" by (metis prod.exhaust)
  let ?bs = "slots (map (map_prod Some Some) ds)"
  have f: "fresh_blocks g (Some (a, k) # Some (b, e) # ?bs)" using Cons.prems d by simp
  note f2 = fresh_blocks_Some(4) [OF f]
  have e: "text_at b (with_blocks g (Some (a, k) # Some (b, e) # ?bs)) = Some e"
  proof -
    have "a \<noteq> b" "b \<notin> set (addrs ?bs)" "no_nul e" using f by (auto simp: fresh_blocks_def)
    then show ?thesis by (simp add: text_at_def with_blocks_other)
  qed
  have "mem_join_object depth fmt (map (map_prod (map_option fst) (map_option fst)) (map (map_prod Some Some) (d # ds)))
        (with_blocks g (slots (map (map_prod Some Some) (d # ds)))) =
      Some (indent depth fmt @ k @ '':'' @ (if fmt then '' '' else []) @ e @
        (if map (map_prod (map_option fst) (map_option fst)) (map (map_prod Some Some) ds) \<noteq> [] then '','' else []) @
        (if fmt then [CHR 0x0A] else []) @ join_object depth fmt (map (map_prod snd snd) ds), g)"
    by (simp only: d list.map map_prod_simp option.map fst_conv slots_simps(2) mem_join_object.simps text_block [OF f] e free_block [OF f] free_block [OF f2]
        Cons.IH [OF fresh_blocks_Some(4) [OF f2]] Option.bind.bind_lunit prod.case)
  also have "\<dots> = Some (join_object depth fmt (map (map_prod snd snd) (d # ds)), g)" using d by simp
  finally show ?case .
qed simp

lemma fresh_members: "fresh_blocks g (slots (map (map_prod Some Some) ds)) \<Longrightarrow> list_all (\<lambda>(k, e). no_nul k \<and> no_nul e) (map (map_prod snd snd) ds)"
proof (induction ds)
  case (Cons d ds)
  obtain a k b e where d: "d = ((a, k), (b, e))" by (metis prod.exhaust)
  have f: "fresh_blocks g (Some (a, k) # Some (b, e) # slots (map (map_prod Some Some) ds))" using Cons.prems d by simp
  note f2 = fresh_blocks_Some(4) [OF f]
  show ?case using Cons.IH [OF fresh_blocks_Some(4) [OF f2]] fresh_blocks_Some(3) [OF f] fresh_blocks_Some(3) [OF f2] d by simp
qed simp

text \<open>The end of \<^verbatim>\<open>print_object\<close>.\<close>

lemma object_finish_null:
  assumes "fresh_blocks g (slots bs)" "fail \<or> alloc len (with_blocks g (slots bs)) = None" "free names g = Some g'" "free entries g' = Some h"
  shows "object_finish alloc names entries (map (map_prod (map_option fst) (map_option fst)) bs, len, fail, with_blocks g (slots bs)) depth fmt =
    Ok (Some (None, h))"
  using assms(2-4) free_all_blocks [OF assms(1)] by (cases fail) (simp_all add: object_finish_def)

context sized_allocation
begin

lemma object_finish_prints:
  assumes "finite (dom h)" "h entries = None" "h names = None" "names \<noteq> entries"
    "fresh_blocks (h(entries \<mapsto> Chars [], names \<mapsto> Chars [])) (slots (map (map_prod Some Some) ds))"
  shows "prints tot (Ok (Some (object_text depth fmt (map (map_prod snd snd) ds)))) h
     (object_finish alloc names entries (map (map_prod (map_option fst) (map_option fst)) (map (map_prod Some Some) ds),
       object_len depth fmt (map (map_prod snd snd) ds), False,
       with_blocks (h(entries \<mapsto> Chars [], names \<mapsto> Chars [])) (slots (map (map_prod Some Some) ds))) depth fmt)"
proof -
  let ?g = "h(entries \<mapsto> Chars [], names \<mapsto> Chars [])" and ?es = "map (map_prod snd snd) ds" and ?bs = "map (map_prod Some Some) ds"
  let ?H = "with_blocks ?g (slots ?bs)" and ?len = "object_len depth fmt (map (map_prod snd snd) ds)"
  have fr: "free names ?g = Some (h(entries \<mapsto> Chars []))" "free entries (h(entries \<mapsto> Chars [])) = Some h"
    using assms(2-4) by (auto simp: free_def fun_eq_iff)
  show ?thesis
  proof (cases "alloc ?len ?H")
    case None
    then show ?thesis using object_finish_null [OF assms(5) _ fr, of False alloc ?len] alloc_tot [of ?len ?H] by (auto intro: prints_no_memory)
  next
    case (Some out)
    have out: "?H out = None" using alloc_new [OF _ Some] assms(1) by simp
    note b = block_apart(1,2) [OF assms(5) out, of "Chars []"] block_apart(3) [OF assms(5) out]
    have o: "out \<noteq> entries" "out \<noteq> names" "h out = None" using b(3) by (auto split: if_splits)
    have fr2: "free names (?g(out \<mapsto> Chars [])) = Some (h(entries \<mapsto> Chars [], out \<mapsto> Chars []))"
      "free entries (h(entries \<mapsto> Chars [], out \<mapsto> Chars [])) = Some (h(out \<mapsto> Chars []))"
      using o assms(2-4) by (auto simp: free_def fun_eq_iff)
    have "object_finish alloc names entries (map (map_prod (map_option fst) (map_option fst)) ?bs, ?len, False, ?H) depth fmt =
        Ok (Some (Some out, h(out \<mapsto> Chars (object_text depth fmt ?es))))"
      by (simp only: object_finish_def prod.case if_False Some option.case b(1) join_object_blocks [OF b(2)] or_fault_Some fr2 obind.simps fun_upd_upd
          object_text_def fill_object [of depth fmt ?es, unfolded object_text_def])
    moreover have "no_nul (object_text depth fmt ?es)"
      using no_nul_join_object [OF fresh_members [OF assms(5)], of depth fmt] by (simp add: object_text_def NUL_def)
    ultimately show ?thesis using o(3) by (simp add: prints_text)
  qed
qed

end

context printer
begin

lemma object_prints:
  assumes "finite (dom h)" "seg h None (c_child n) ws None" "\<forall>w\<in>set ws. ok w" "length ws < k"
  shows "prints tot (print_object (map (\<lambda>w. (name_of (tree_of w), pr (tree_of w))) ws) depth fmt) h (mem_print_object pv alloc k n depth fmt h)"
proof -
  let ?n = "length ws * 8" and ?rets = "map (\<lambda>w. (name_of (tree_of w), pr (tree_of w))) ws" and ?start = "7 + (if fmt then depth else 0)"
  let ?ptr = "map (map_prod (map_option fst) (map_option fst))" and ?some = "map (map_prod Some Some)" and ?txt = "map (map_prod snd snd)"
  note cnt = count_seg [OF assms(2,4)]
  consider "alloc ?n h = None" | ea where "alloc ?n h = Some ea" "alloc ?n (h(ea \<mapsto> Chars [])) = None"
    | ea na where "alloc ?n h = Some ea" "alloc ?n (h(ea \<mapsto> Chars [])) = Some na" by (cases "alloc ?n h") auto
  then show ?thesis
  proof cases
    case 1
    then show ?thesis using alloc_tot [of ?n h] by (auto simp: mem_print_object_def cnt intro: prints_no_memory)
  next
    case (2 ea)
    have "h ea = None" using alloc_new [OF assms(1) 2(1)] .
    then show ?thesis using 2 alloc_tot [of ?n "h(ea \<mapsto> Chars [])"]
      by (auto simp: mem_print_object_def cnt malloc_def free_def fun_upd_idem intro: prints_no_memory)
  next
    case (3 ea na)
    let ?g = "h(ea \<mapsto> Chars [], na \<mapsto> Chars [])"
    let ?loop = "mem_object_loop pv alloc depth fmt k (c_child n) [] ?start False ?g"
    have ea: "h ea = None" using alloc_new [OF assms(1) 3(1)] .
    have "(h(ea \<mapsto> Chars [])) na = None" using alloc_new [OF _ 3(2)] assms(1) by simp
    then have na: "h na = None" "na \<noteq> ea" by (auto split: if_splits)
    have g: "finite (dom ?g)" "seg ?g None (c_child n) ws None" "fresh_blocks ?g (slots [])"
      "free na ?g = Some (h(ea \<mapsto> Chars []))" "free ea (h(ea \<mapsto> Chars [])) = Some h"
      using assms(1) seg_with_blocks [OF assms(2), of "[Some (ea, []), Some (na, [])]"] ea na by (simp_all add: fresh_blocks_def free_def fun_upd_idem)
    have m: "mem_print_object pv alloc k n depth fmt h = mbind ?loop (\<lambda>r. object_finish alloc na ea r depth fmt)"
      by (simp only: mem_print_object_def cnt 3 malloc_def or_fault_Some option.case Let_def)
    have "(\<exists>ds. object_entries ?rets = Ok (Some (?txt ds)) \<and> fresh_blocks ?g (slots (?some ds)) \<and>
         ?loop = Ok (Some (?ptr (?some ds), ?start + sum_list (map (member_len depth fmt) (?txt ds)), False, with_blocks ?g (slots (?some ds))))) \<or>
       (\<not> tot \<or> object_entries ?rets = Ok None) \<and>
         (\<exists>ds len'. fresh_blocks ?g (slots ds) \<and> ?loop = Ok (Some (?ptr ds, len', True, with_blocks ?g (slots ds)))) \<or>
       (\<exists>u. object_entries ?rets = Undef u) \<and> ?loop = Undef Over_Write"
      using object_loop [OF g(1,2) assms(3) g(3) assms(4), of depth fmt ?start False]
      unfolding append_Nil list.map slots_simps(1) with_blocks.simps(1) .
    then show ?thesis
    proof (elim disjE exE conjE, goal_cases)
      case (1 ds)
      have "?start + sum_list (map (member_len depth fmt) (?txt ds)) = object_len depth fmt (?txt ds)" by (simp only: object_len_def member_len_def)
      then have "mem_print_object pv alloc k n depth fmt h =
          object_finish alloc na ea (?ptr (?some ds), object_len depth fmt (?txt ds), False, with_blocks ?g (slots (?some ds))) depth fmt"
        using m 1(3) by simp
      then show ?thesis using object_finish_prints [OF assms(1) ea na 1(2)] 1(1) by (simp add: print_object_def fill_object)
    next
      case (2 ds len)
      then show ?thesis using m object_finish_null [OF 2(2) _ g(4,5), of True] by (auto intro: prints_no_memory)
    next
      case (3 ds len)
      then show ?thesis using m object_finish_null [OF 3(2) _ g(4,5), of True] by (auto simp: print_object_def intro: prints_null)
    next
      case (4 u)
      then show ?thesis by (auto simp: m print_object_def intro: prints_overrun)
    qed
  qed
qed

end

section \<open>Printing a tree\<close>

lemma owned_child: "c \<in> set ks \<Longrightarrow> length (owned c) \<le> length (owned_list ks)"
  by (induction ks) auto

lemma owned_length: "length ks \<le> length (owned_list ks)"
proof (induction ks)
  case (Cons c ks)
  then show ?case by (cases c) simp
qed simp

text \<open>Fuel for every block of the tree is enough: a call goes down one level, and a loop takes one step for each child.\<close>

lemma value_printer:
  "sized_allocation alloc tot \<Longrightarrow>
     printer alloc tot (\<lambda>x. print_value x depth fmt) (\<lambda>a. mem_print_value alloc k a depth fmt) (\<lambda>w. length (owned w) < k)"
proof (induction k arbitrary: depth)
  case 0
  then show ?case by (intro printer.intro 0 printer_axioms.intro) simp
next
  case (Suc k)
  note IH = Suc.IH [OF Suc.prems]
  show ?case
  proof (intro printer.intro Suc.prems printer_axioms.intro)
    fix h p w r
    assume f: "finite (dom h)" and sg: "seg h p (Some (node_addr w)) [w] r" and l: "length (owned w) < Suc k"
    obtain a t vs i d nm ks where w: "w = ANode a t vs i d nm ks" by (cases w)
    from sg obtain x where x: "h a = Some (Cell \<lparr>c_next = r, c_prev = p, c_child = x, c_type = t, c_valuestring = map_option fst vs,
        c_valueint = i, c_valuedouble = d, c_string = map_option fst nm\<rparr>)" (is "_ = Some (Cell ?n)")
      "seg h None x ks None" "chars_at h vs" by (auto simp: w)
    have ks: "\<forall>c\<in>set ks. length (owned c) < k" "length ks < k" using l owned_child [of _ ks] owned_length [of ks] by (fastforce simp: w)+
    note A = Suc.prems
    have texts: "prints tot (Ok (Some ''null'')) h (mem_strdup alloc ''null'' h)" "prints tot (Ok (Some ''false'')) h (mem_strdup alloc ''false'' h)"
      "prints tot (Ok (Some ''true'')) h (mem_strdup alloc ''true'' h)"
      using sized_allocation.strdup_prints [OF A f] by (simp_all add: NUL_def)
    have number: "prints tot (omap Some (print_number (tree_of w))) h (mem_print_number alloc ?n h)"
      using sized_allocation.number_prints [OF A f, of ?n "tree_of w"] by (simp add: w)
    have string: "prints tot (omap Some (print_string (tree_of w))) h (mem_print_string_ptr alloc (c_valuestring ?n) h)"
      using sized_allocation.string_prints [OF A f x(3)] by (simp add: w print_string_def)
    have array: "prints tot (print_array (map (\<lambda>c. print_value c (depth + 1) fmt) (map tree_of ks)) fmt) h
        (mem_print_array (\<lambda>c. mem_print_value alloc k c (depth + 1) fmt) alloc k ?n fmt h)"
      using printer.array_prints [OF IH f, of ?n ks] x(2) ks by (simp add: comp_def)
    have object: "prints tot (print_object (map (\<lambda>c. (name_of c, print_value c (depth + 1) fmt)) (map tree_of ks)) (depth + 1) fmt) h
        (mem_print_object (\<lambda>c. mem_print_value alloc k c (depth + 1) fmt) alloc k ?n (depth + 1) fmt h)"
      using printer.object_prints [OF IH f, of ?n ks] x(2) ks by (simp add: comp_def)
    have load: "load a h = Some ?n" using x(1) by (rule load_Cell)
    show "prints tot (print_value (tree_of w) depth fmt) h (mem_print_value alloc (Suc k) (node_addr w) depth fmt h)"
      using texts number string array object prints_null unfolding w tree_of.simps print_value.simps mem_print_value.simps
        atree.sel load or_fault_Some Let_def cell.select_convs by presburger
  qed
qed

definition sized_allocator :: "sized_alloc \<Rightarrow> bool" where
  "sized_allocator alloc \<longleftrightarrow> (\<forall>n. allocator (alloc n))"

definition never_out :: "sized_alloc \<Rightarrow> bool" where
  "never_out alloc \<longleftrightarrow> (\<forall>n. never_fails (alloc n))"

lemma sized_allocation_of: "sized_allocator alloc \<Longrightarrow> sized_allocation alloc (never_out alloc)"
  by unfold_locales (simp_all add: sized_allocator_def never_out_def allocator_def never_fails_def)

lemma mem_cJSON_Print_spec:
  assumes "sized_allocator alloc" "finite (dom h)" "root_at h w" "length (owned w) < fuel"
  shows "prints (never_out alloc) ((if pretty then cJSON_Print else cJSON_PrintUnformatted) (tree_of w)) h (mem_cJSON_Print alloc fuel pretty (node_addr w) h)"
  using printer.value_prints [OF value_printer [OF sized_allocation_of [OF assms(1)]] assms(2), of None w None fuel 0 pretty] assms(3,4)
  by (auto simp: root_at_def mem_cJSON_Print_def cJSON_Print_def cJSON_PrintUnformatted_def)

text \<open>\<^verbatim>\<open>ToString\<close> leaves nothing behind.\<close>

lemma mem_ToString_spec:
  assumes "sized_allocator alloc" "finite (dom h)" "root_at h w" "length (owned w) < fuel"
  shows "mem_ToString alloc fuel pretty (Some (node_addr w)) h =
     (case mem_cJSON_Print alloc fuel pretty (node_addr w) h of
        Undef u \<Rightarrow> Undef Over_Write
      | Ok (Some (Some a, g)) \<Rightarrow> Ok (Some (the (text_at a g), h))
      | Ok _ \<Rightarrow> Ok (Some ([], h)))"
  using mem_cJSON_Print_spec [OF assms, of pretty]
proof (cases rule: prints_cases)
  case (3 s a)
  then show ?thesis by (simp add: mem_ToString_def text_at_def free_if_def free_def fun_upd_idem)
qed (simp_all add: mem_ToString_def free_if_def)

text \<open>
  The size of the array of pointers is 0 for a container without children, and \<^verbatim>\<open>malloc(0)\<close> may be the null pointer: on such a
  system the container is not printed, although memory is not short.
\<close>

lemma empty_container_not_printed:
  assumes "root_at h w" "kids w = []" "type_of (tree_of w) \<in> {cJsonDap_Array, cJsonDap_Object}" "alloc 0 h = None"
  shows "mem_cJSON_Print alloc (Suc (Suc k)) pretty (node_addr w) h = Ok (Some (None, h))"
proof -
  obtain n where n: "load (node_addr w) h = Some n" "seg h None (c_child n) (kids w) None" "c_type n = type_of (tree_of w)"
    using assms(1) seg_at_node [of h None "Some (node_addr w)" w None] by (auto simp: root_at_def)
  then have "c_child n = None" using assms(2) by simp
  then show ?thesis using n(1,3) assms(3,4)
    by (auto simp: mem_cJSON_Print_def mem_print_array_def mem_print_object_def cjson_types)
qed

interpretation unbounded_printer: printer "\<lambda>_. first_free" True "\<lambda>x. print_value x depth fmt" "\<lambda>a. mem_print_value (\<lambda>_. first_free) k a depth fmt"
    "\<lambda>w. length (owned w) < k" for k depth fmt
  by (rule value_printer) (use first_free_allocator in \<open>unfold_locales, auto simp: allocator_def never_fails_def\<close>)

end
