(* ===== verification/Dap_HeapAdd.thy ===== *)
theory Dap_HeapAdd
  imports Dap_HeapPrint
begin

text \<open>
  Adding a string to an object, from \<^verbatim>\<open>Json::Add\<close> down to \<^verbatim>\<open>malloc\<close>, when each of its three allocations may fail: the node, its
  value and its name.  Whatever fails, the tree stays well linked and nothing is lost; but a member may be left without its
  value or without its name, and then the document is printed as a text that is not JSON.
\<close>

section \<open>The functions\<close>

text \<open>\<^verbatim>\<open>cJSON_strdup\<close>: the copy, or the null pointer.\<close>

definition strdup_or_null :: "(heap \<Rightarrow> addr option) \<Rightarrow> string \<Rightarrow> heap \<Rightarrow> addr option \<times> heap" where
  "strdup_or_null alloc s h = (case alloc h of None \<Rightarrow> (None, h) | Some a \<Rightarrow> (Some a, heap_strdup a s h))"

definition mem_CreateString :: "(heap \<Rightarrow> addr option) \<Rightarrow> string \<Rightarrow> heap \<Rightarrow> (addr option \<times> heap) option" where
  "mem_CreateString alloc s h =
     (case alloc h of
        None \<Rightarrow> Some (None, h)
      | Some item \<Rightarrow>
          Option.bind (store item (\<lambda>n. n \<lparr>c_type := cJsonDap_String\<rparr>) (heap_New_Item item h)) (\<lambda>h.
          let (sa, h) = strdup_or_null alloc s h
          in map_option (\<lambda>h. (Some item, h)) (store item (\<lambda>n. n \<lparr>c_valuestring := sa\<rparr>) h)))"

definition mem_AddItemToObject :: "(heap \<Rightarrow> addr option) \<Rightarrow> addr \<Rightarrow> string \<Rightarrow> addr option \<Rightarrow> heap \<Rightarrow> heap option" where
  "mem_AddItemToObject alloc obj s item h =
     (case item of
        None \<Rightarrow> Some h
      | Some i \<Rightarrow>
          Option.bind (load i h) (\<lambda>n.
          Option.bind (free_if (c_string n) h) (\<lambda>h.
          let (sa, h) = strdup_or_null alloc s h
          in Option.bind (store i (\<lambda>n. n \<lparr>c_string := sa\<rparr>) h) (heap_AddItemToArray obj (Some i)))))"

text \<open>\<^verbatim>\<open>Json::Add(const char*, const char*)\<close>, for a handle that is not null.\<close>

definition mem_Json_Add :: "(heap \<Rightarrow> addr option) \<Rightarrow> addr \<Rightarrow> string \<Rightarrow> string \<Rightarrow> heap \<Rightarrow> heap option" where
  "mem_Json_Add alloc m_cjson name cs h =
     Option.bind (load m_cjson h) (\<lambda>n.
       if c_type n \<noteq> cJsonDap_Array \<and> c_type n \<noteq> cJsonDap_Object then Some h
       else
         Option.bind (mem_CreateString alloc cs h) (\<lambda>(item, h).
           if c_type n = cJsonDap_Object then mem_AddItemToObject alloc m_cjson name item h else heap_AddItemToArray m_cjson item h))"

section \<open>What an addition leaves\<close>

text \<open>A string that may be missing, in a block that was not in use.\<close>

lemma strdup_or_null_spec:
  assumes "allocator alloc" "finite (dom h)"
  obtains v where "strdup_or_null alloc s h = (map_option fst v, case v of None \<Rightarrow> h | Some (a, t) \<Rightarrow> h(a \<mapsto> Chars t))"
    "v = None \<and> \<not> never_fails alloc \<or> (\<exists>a. v = Some (a, c_str s) \<and> h a = None)"
proof (cases "alloc h")
  case None
  then show thesis by (intro that [of None]) (auto simp: strdup_or_null_def never_fails_def)
next
  case (Some a)
  then show thesis using assms by (intro that [of "Some (a, c_str s)"]) (auto simp: strdup_or_null_def heap_strdup_def malloc_def allocator_def)
qed

definition string_node :: "addr \<Rightarrow> (addr \<times> string) option \<Rightarrow> (addr \<times> string) option \<Rightarrow> atree" where
  "string_node a v nm = ANode a cJsonDap_String v 0 (Fin 0) nm []"

definition with_chars :: "(addr \<times> string) option \<Rightarrow> heap \<Rightarrow> heap" where
  "with_chars v h = (case v of None \<Rightarrow> h | Some (a, t) \<Rightarrow> h(a \<mapsto> Chars t))"

definition string_cell :: "(addr \<times> string) option \<Rightarrow> (addr \<times> string) option \<Rightarrow> cell" where
  "string_cell v nm = \<lparr>c_next = None, c_prev = None, c_child = None, c_type = cJsonDap_String, c_valuestring = map_option fst v,
     c_valueint = 0, c_valuedouble = Fin 0, c_string = map_option fst nm\<rparr>"

lemma mem_CreateString_spec:
  assumes "allocator alloc" "finite (dom h)"
  obtains "mem_CreateString alloc s h = Some (None, h)" "\<not> never_fails alloc"
  | a v where "mem_CreateString alloc s h = Some (Some a, (with_chars v h)(a \<mapsto> Cell (string_cell v None)))" "h a = None"
      "v = None \<and> \<not> never_fails alloc \<or> (\<exists>sa. v = Some (sa, c_str s) \<and> h sa = None \<and> sa \<noteq> a)"
proof (cases "alloc h")
  case None
  then show thesis by (intro that(1)) (auto simp: mem_CreateString_def never_fails_def)
next
  case (Some a)
  have a: "h a = None" using Some assms by (simp add: allocator_def)
  let ?h = "h(a \<mapsto> Cell (new_cell \<lparr>c_type := cJsonDap_String\<rparr>))"
  obtain v where v: "strdup_or_null alloc s ?h = (map_option fst v, with_chars v ?h)"
    "v = None \<and> \<not> never_fails alloc \<or> (\<exists>sa. v = Some (sa, c_str s) \<and> ?h sa = None)"
    by (rule strdup_or_null_spec [OF assms(1), of ?h s]) (use assms(2) in \<open>auto simp: with_chars_def\<close>)
  have "mem_CreateString alloc s h = Some (Some a, (with_chars v h)(a \<mapsto> Cell (string_cell v None)))"
    using v by (auto simp: mem_CreateString_def Some heap_New_Item_def malloc_def store_def load_def with_chars_def string_cell_def new_cell_def fun_upd_twist)
  then show thesis using a v(2) by (intro that(2) [of a v]) (auto split: if_splits)
qed

text \<open>The node, its value and its name, in memory that was not in use.\<close>

lemma string_node_seg:
  assumes "h a = None" "\<forall>x\<in>set (ptrs v @ ptrs nm). h x = None \<and> x \<noteq> a" "distinct (ptrs v @ ptrs nm)"
    "g = (with_chars nm (with_chars v h))(a \<mapsto> Cell (string_cell v nm))"
  shows "seg g None (Some a) [string_node a v nm] None" "distinct (owned (string_node a v nm))"
    "\<forall>x. x \<notin> set (owned (string_node a v nm)) \<longrightarrow> g x = h x" "\<forall>x\<in>set (owned (string_node a v nm)). h x = None"
  using assms by (auto simp: string_node_def string_cell_def with_chars_def chars_at_def ptrs_def is_ref_def cjson_types split: option.splits)

text \<open>What a new node adds to a tree.\<close>

lemma add_new_node:
  assumes "root_at h w" "seg g None (Some (node_addr u)) [u] None" "distinct (owned u)"
    "\<forall>x. x \<notin> set (owned u) \<longrightarrow> g x = h x" "\<forall>x\<in>set (owned u). h x = None"
  obtains k where "heap_AddItemToArray (node_addr w) (Some (node_addr u)) g = Some k" "root_at k (set_kids (kids w @ [u]) w)"
    "\<forall>x. x \<notin> set (owned (set_kids (kids w @ [u]) w)) \<longrightarrow> k x = h x" "set (owned (set_kids (kids w @ [u]) w)) = set (owned w) \<union> set (owned u)"
proof -
  have w: "seg h None (Some (node_addr w)) [w] None" "distinct (owned w)" using assms(1) by (simp_all add: root_at_def)
  have d: "set (owned w) \<inter> set (owned u) = {}" using seg_dom [OF w(1)] assms(5) by (auto simp: subset_iff disjoint_iff) force?
  have "seg g None (Some (node_addr w)) [w] None" using w(1) assms(4) d by (subst seg_cong [where h = h]) auto
  moreover have "distinct (owned w @ owned u)" using w(2) assms(3) d by simp
  ultimately obtain k where k: "heap_AddItemToArray (node_addr w) (Some (node_addr u)) g = Some k"
    "seg k None (Some (node_addr w)) [set_kids (kids w @ [u]) w] None" "owned (set_kids (kids w @ [u]) w) = owned w @ owned u"
    "\<forall>x. x \<notin> set (owned w @ owned u) \<longrightarrow> k x = g x" using heap_AddItemToArray_refines [OF _ assms(2)] by blast
  show thesis using k assms(3,4) w(2) d by (intro that [OF k(1)]) (auto simp: root_at_def)
qed

lemma mem_AddItemToObject_new:
  assumes "allocator alloc" "finite (dom h)" "g = (with_chars v h)(a \<mapsto> Cell (string_cell v None))"
  obtains nm where "mem_AddItemToObject alloc obj s (Some a) g = heap_AddItemToArray obj (Some a) ((with_chars nm (with_chars v h))(a \<mapsto> Cell (string_cell v nm)))"
    "nm = None \<and> \<not> never_fails alloc \<or> (\<exists>sa. nm = Some (sa, c_str s) \<and> g sa = None)"
proof -
  have "finite (dom g)" using assms(2,3) by (auto simp: with_chars_def split: option.splits)
  then obtain nm where nm: "strdup_or_null alloc s g = (map_option fst nm, with_chars nm g)"
    "nm = None \<and> \<not> never_fails alloc \<or> (\<exists>sa. nm = Some (sa, c_str s) \<and> g sa = None)"
    by (rule strdup_or_null_spec [OF assms(1), of g s]) (auto simp: with_chars_def)
  have a: "load a g = Some (string_cell v None)" by (simp add: assms(3) load_def)
  have ne: "nm = Some (sa, t) \<Longrightarrow> sa \<noteq> a" for sa t using nm(2) assms(3) by auto
  have "store a (\<lambda>n. n \<lparr>c_string := map_option fst nm\<rparr>) (with_chars nm g) = Some ((with_chars nm (with_chars v h))(a \<mapsto> Cell (string_cell v nm)))"
    using ne by (cases nm) (auto simp: assms(3) store_def load_def with_chars_def string_cell_def fun_upd_twist)
  then show thesis using that [of nm] nm a by (simp add: mem_AddItemToObject_def free_if_def string_cell_def)
qed

text \<open>
  The tree after \<^verbatim>\<open>Add\<close>: as before, or with one string more, whose value and whose name are there unless the allocator fails.
\<close>

lemma mem_Json_Add_spec:
  assumes "allocator alloc" "finite (dom h)" "root_at h w" "type_of (tree_of w) = cJsonDap_Object"
  shows "\<exists>g w'. mem_Json_Add alloc (node_addr w) name cs h = Some g \<and> root_at g w' \<and> node_addr w' = node_addr w \<and>
     (\<forall>x. x \<notin> set (owned w') \<longrightarrow> g x = h x) \<and> (\<forall>x\<in>set (owned w') - set (owned w). h x = None) \<and> set (owned w) \<subseteq> set (owned w') \<and>
     (w' = w \<and> \<not> never_fails alloc \<or>
      (\<exists>v k. tree_of w' = set_children (children (tree_of w) @ [Item cJsonDap_String v 0 (Fin 0) k []]) (tree_of w) \<and>
         (v = Some (c_str cs) \<or> v = None \<and> \<not> never_fails alloc) \<and> (k = Some (c_str name) \<or> k = None \<and> \<not> never_fails alloc)))"
proof -
  obtain n where n: "load (node_addr w) h = Some n" "c_type n = cJsonDap_Object"
    using seg_at_node [of h None "Some (node_addr w)" w None] assms(3,4) by (auto simp: root_at_def)
  show ?thesis
  proof (rule mem_CreateString_spec [OF assms(1,2), of cs])
    assume "mem_CreateString alloc cs h = Some (None, h)" "\<not> never_fails alloc"
    then show ?thesis using n assms(3) by (intro exI [of _ h] exI [of _ w]) (simp add: mem_Json_Add_def mem_AddItemToObject_def)
  next
    fix a v
    let ?g = "(with_chars v h)(a \<mapsto> Cell (string_cell v None))"
    assume c: "mem_CreateString alloc cs h = Some (Some a, ?g)" and a: "h a = None"
      and v: "v = None \<and> \<not> never_fails alloc \<or> (\<exists>sa. v = Some (sa, c_str cs) \<and> h sa = None \<and> sa \<noteq> a)"
    obtain nm where nm: "mem_AddItemToObject alloc (node_addr w) name (Some a) ?g =
        heap_AddItemToArray (node_addr w) (Some a) ((with_chars nm (with_chars v h))(a \<mapsto> Cell (string_cell v nm)))"
      "nm = None \<and> \<not> never_fails alloc \<or> (\<exists>sa. nm = Some (sa, c_str name) \<and> ?g sa = None)"
      by (rule mem_AddItemToObject_new [OF assms(1,2) refl]) blast
    let ?u = "string_node a v nm"
    have na: "node_addr ?u = a" by (simp add: string_node_def)
    have nv: "\<forall>x\<in>set (ptrs v @ ptrs nm). h x = None \<and> x \<noteq> a" "distinct (ptrs v @ ptrs nm)"
      using v nm(2) by (auto simp: ptrs_def with_chars_def split: if_splits)
    have u: "seg ((with_chars nm (with_chars v h))(a \<mapsto> Cell (string_cell v nm))) None (Some (node_addr ?u)) [?u] None"
      "distinct (owned ?u)" "\<forall>x. x \<notin> set (owned ?u) \<longrightarrow> ((with_chars nm (with_chars v h))(a \<mapsto> Cell (string_cell v nm))) x = h x"
      "\<forall>x\<in>set (owned ?u). h x = None" unfolding na by (rule string_node_seg [OF a nv refl])+
    from add_new_node [OF assms(3) u] obtain k where k: "heap_AddItemToArray (node_addr w) (Some (node_addr ?u)) ((with_chars nm (with_chars v h))(a \<mapsto> Cell (string_cell v nm))) = Some k"
      "root_at k (set_kids (kids w @ [?u]) w)" "\<forall>x. x \<notin> set (owned (set_kids (kids w @ [?u]) w)) \<longrightarrow> k x = h x"
      "set (owned (set_kids (kids w @ [?u]) w)) = set (owned w) \<union> set (owned ?u)" .
    have t: "tree_of (set_kids (kids w @ [?u]) w) = set_children (children (tree_of w) @ [Item cJsonDap_String (map_option snd v) 0 (Fin 0) (map_option snd nm) []]) (tree_of w)"
      by (simp add: tree_of_set_kids string_node_def)
    have vn: "map_option snd v = Some (c_str cs) \<or> map_option snd v = None \<and> \<not> never_fails alloc"
      "map_option snd nm = Some (c_str name) \<or> map_option snd nm = None \<and> \<not> never_fails alloc" using v nm(2) by auto
    have "mem_Json_Add alloc (node_addr w) name cs h = Some k"
      using n c nm(1) k(1) by (simp add: mem_Json_Add_def string_node_def)
    moreover have "\<exists>x y. tree_of (set_kids (kids w @ [?u]) w) = set_children (children (tree_of w) @ [Item cJsonDap_String x 0 (Fin 0) y []]) (tree_of w) \<and>
         (x = Some (c_str cs) \<or> x = None \<and> \<not> never_fails alloc) \<and> (y = Some (c_str name) \<or> y = None \<and> \<not> never_fails alloc)"
      by (intro exI [of _ "map_option snd v"] exI [of _ "map_option snd nm"] conjI t vn)
    moreover have "\<forall>x\<in>set (owned (set_kids (kids w @ [?u]) w)) - set (owned w). h x = None" "set (owned w) \<subseteq> set (owned (set_kids (kids w @ [?u]) w))"
      using k(4) u(4) by auto
    ultimately show ?thesis using k(2,3) by (intro exI [of _ k] exI [of _ "set_kids (kids w @ [?u]) w"]) simp
  qed
qed

text \<open>
  A member without a name: the printer writes nothing for the name, and the parser does not accept the text.
\<close>

lemma nameless_member:
  "cJSON_PrintUnformatted (Item cJsonDap_Object None 0 (Fin 0) None [Item cJsonDap_String (Some ''v'') 0 (Fin 0) None []]) =
     Ok (Some (''{:'' @ quote ''v'' @ ''}''))"
  "case cJSON_Parse (''{:'' @ quote ''v'' @ ''}'') of Failed _ \<Rightarrow> True | _ \<Rightarrow> False"
  by code_simp+

end
