(* ===== verification/Dap_StringUtils.thy ===== *)
theory Dap_StringUtils
  imports Dap_Prelude
begin

text \<open>
  \<^verbatim>\<open>dap/StringUtils.cpp\<close>: trimming, splitting at a character, the tokeniser behind the header
  parser, the command line splitter \<^verbatim>\<open>BuildArgv\<close> with its state machine, the slash converter and
  the quoting of arguments; and \<^verbatim>\<open>std::atol\<close>, which two callers apply to the results.
  The properties are the identities that the callers rely on, and the round trip of a
  command that \<^verbatim>\<open>WrapWithQuotes\<close> joins and \<^verbatim>\<open>BuildArgv\<close> splits.
\<close>

section \<open>Trimming and splitting\<close>

text \<open>The characters of the literal \<^verbatim>\<open>" \n\r\t"\<close>.\<close>

definition is_blank :: "char \<Rightarrow> bool" where
  "is_blank c \<longleftrightarrow> c = CHR '' '' \<or> c = CHR 0x0A \<or> c = CHR 0x0D \<or> c = CHR 0x09"

definition rdrop :: "(char \<Rightarrow> bool) \<Rightarrow> string \<Rightarrow> string" where
  "rdrop P s = rev (dropWhile P (rev s))"

definition Rtrim :: "string \<Rightarrow> string" where
  "Rtrim str = rdrop is_blank str"

definition Trim :: "string \<Rightarrow> string" where
  "Trim str = rdrop is_blank (dropWhile is_blank str)"

text \<open>The \<^verbatim>\<open>wxString\<close> versions call \<^verbatim>\<open>wxString::Trim\<close>, which removes what \<^verbatim>\<open>isspace\<close> accepts.\<close>

definition wx_isspace :: "char \<Rightarrow> bool" where
  "wx_isspace c \<longleftrightarrow> (let k = (of_char c :: nat) in k = 32 \<or> 9 \<le> k \<and> k \<le> 13)"

definition wxRtrim :: "string \<Rightarrow> string" where
  "wxRtrim str = rdrop wx_isspace str"

definition wxLtrim :: "string \<Rightarrow> string" where
  "wxLtrim str = dropWhile wx_isspace str"

definition wxTrim :: "string \<Rightarrow> string" where
  "wxTrim str = wxLtrim (wxRtrim str)"

definition BeforeFirst :: "string \<Rightarrow> char \<Rightarrow> string" where
  "BeforeFirst str ch = takeWhile (\<lambda>c. c \<noteq> ch) str"

definition AfterFirst :: "string \<Rightarrow> char \<Rightarrow> string" where
  "AfterFirst str ch = tl (dropWhile (\<lambda>c. c \<noteq> ch) str)"

lemma strtok_shrink: "dropWhile d s = c # r \<Longrightarrow> length (dropWhile (\<lambda>x. \<not> d x) (c # r)) < length s"
proof -
  assume s: "dropWhile d s = c # r"
  then have "\<not> d c" by (metis hd_dropWhile list.sel(1) list.simps(3))
  then have "length (dropWhile (\<lambda>x. \<not> d x) (c # r)) \<le> length r" by (simp add: length_dropWhile_le)
  also have "\<dots> < length s" using s length_dropWhile_le [of d s] by simp
  finally show ?thesis .
qed

text \<open>The tokens that \<^verbatim>\<open>strtok_r\<close> delivers: the maximal non-empty runs without a delimiter.\<close>

function strtok :: "(char \<Rightarrow> bool) \<Rightarrow> string \<Rightarrow> string list" where
  "strtok d s =
     (case dropWhile d s of
        [] \<Rightarrow> []
      | c # r \<Rightarrow> takeWhile (\<lambda>x. \<not> d x) (c # r) # strtok d (dropWhile (\<lambda>x. \<not> d x) (c # r)))"
  by pat_completeness auto
termination
  by (relation "measure (\<lambda>(d, s). length s)") (auto dest: strtok_shrink simp del: dropWhile.simps)

declare strtok.simps [simp del]

definition Split :: "string \<Rightarrow> string \<Rightarrow> string list" where
  "Split str delims =
     filter (\<lambda>t. t \<noteq> []) (map Trim (strtok (\<lambda>c. c \<in> set (c_str delims)) (c_str str)))"

definition wxSplit :: "string \<Rightarrow> char \<Rightarrow> string list" where
  "wxSplit str ch = strtok (\<lambda>c. c = ch) str"

section \<open>Command lines\<close>

datatype argv_state = ARGV_STATE_NORMAL | ARGV_STATE_DQUOTE | ARGV_STATE_SQUOTE
  | ARGV_STATE_ESCAPE | ARGV_STATE_BACKTICK

record argv =
  argv_st :: argv_state
  argv_prev :: argv_state
  argv_cur :: string
  argv_A :: "string list"

definition PUSH_CURTOKEN :: "argv \<Rightarrow> argv" where
  "PUSH_CURTOKEN a = (if argv_cur a \<noteq> [] then a \<lparr>argv_A := argv_A a @ [argv_cur a], argv_cur := []\<rparr> else a)"

definition CHANGE_STATE :: "argv_state \<Rightarrow> argv \<Rightarrow> argv" where
  "CHANGE_STATE s a = a \<lparr>argv_prev := argv_st a, argv_st := s\<rparr>"

definition RESTORE_STATE :: "argv \<Rightarrow> argv" where
  "RESTORE_STATE a = a \<lparr>argv_st := argv_prev a, argv_prev := ARGV_STATE_NORMAL\<rparr>"

definition push_str :: "string \<Rightarrow> argv \<Rightarrow> argv" where
  "push_str s a = a \<lparr>argv_cur := argv_cur a @ s\<rparr>"

definition DQ :: char where "DQ = CHR 0x22"
definition SQ :: char where "SQ = CHR 0x27"
definition BT :: char where "BT = CHR 0x60"
definition BS :: char where "BS = CHR 0x5C"
definition TAB :: char where "TAB = CHR 0x09"

lemmas argv_chars = DQ_def SQ_def BT_def BS_def TAB_def

text \<open>The body of a quoted string: a backslash escapes, the closing quote ends it.\<close>

definition quoted_char :: "char \<Rightarrow> char \<Rightarrow> argv \<Rightarrow> argv" where
  "quoted_char q ch a =
     (if ch = BS then CHANGE_STATE ARGV_STATE_ESCAPE a
      else if ch = q then RESTORE_STATE (push_str [ch] a) else push_str [ch] a)"

definition escaped_char :: "char \<Rightarrow> char \<Rightarrow> argv \<Rightarrow> argv" where
  "escaped_char q ch a =
     (if ch = q then RESTORE_STATE (push_str [q] a) else RESTORE_STATE (push_str [BS, ch] a))"

definition argv_step :: "argv \<Rightarrow> char \<Rightarrow> argv" where
  "argv_step a ch =
     (case argv_st a of
        ARGV_STATE_NORMAL \<Rightarrow>
          if ch = CHR '' '' \<or> ch = TAB then PUSH_CURTOKEN a
          else if ch = SQ then push_str [ch] (CHANGE_STATE ARGV_STATE_SQUOTE a)
          else if ch = DQ then push_str [ch] (CHANGE_STATE ARGV_STATE_DQUOTE a)
          else if ch = BT then push_str [ch] (CHANGE_STATE ARGV_STATE_BACKTICK a)
          else push_str [ch] a
      | ARGV_STATE_ESCAPE \<Rightarrow>
          if argv_prev a = ARGV_STATE_DQUOTE then escaped_char DQ ch a
          else if argv_prev a = ARGV_STATE_BACKTICK then escaped_char BT ch a
          else escaped_char SQ ch a
      | ARGV_STATE_DQUOTE \<Rightarrow> quoted_char DQ ch a
      | ARGV_STATE_SQUOTE \<Rightarrow> quoted_char SQ ch a
      | ARGV_STATE_BACKTICK \<Rightarrow> quoted_char BT ch a)"

definition argv_init :: argv where
  "argv_init = \<lparr>argv_st = ARGV_STATE_NORMAL, argv_prev = ARGV_STATE_NORMAL, argv_cur = [], argv_A = []\<rparr>"

text \<open>
  \<^verbatim>\<open>BuildArgv(str, argc)\<close>: the C strings of the tokens, \<open>[]\<close> for the null result.  The result
  of \<^verbatim>\<open>strdup(A[i].c_str())\<close> ends at the first NUL.
\<close>

definition BuildArgv_c :: "string \<Rightarrow> string list" where
  "BuildArgv_c str = map c_str (argv_A (PUSH_CURTOKEN (foldl argv_step argv_init str)))"

definition strip_dquotes :: "string \<Rightarrow> string" where
  "strip_dquotes s = (if 1 < length s \<and> hd s = DQ \<and> last s = DQ then tl (butlast s) else s)"

definition BuildArgv :: "string \<Rightarrow> string list" where
  "BuildArgv str = map strip_dquotes (BuildArgv_c str)"

definition WrapWithQuotes :: "string \<Rightarrow> string" where
  "WrapWithQuotes str = (if str = [] then str else if CHR '' '' \<notin> set str then str else [DQ] @ str @ [DQ])"

section \<open>Paths and prefixes\<close>

fun convert_slashes :: "char \<Rightarrow> char \<Rightarrow> char \<Rightarrow> string \<Rightarrow> string" where
  "convert_slashes source target last_char [] = []"
| "convert_slashes source target last_char (c # cs) =
     (let ch = (if c = source then target else c);
          rest = convert_slashes source target ch cs
      in if ch = target \<and> last_char = target then rest else ch # rest)"

definition ConvertSlashes :: "string \<Rightarrow> char \<Rightarrow> char \<Rightarrow> string" where
  "ConvertSlashes path source target = convert_slashes source target NUL path"

definition ToUnixPath :: "string \<Rightarrow> string" where
  "ToUnixPath path = ConvertSlashes path BS (CHR ''/'')"

text \<open>On a system that is not Windows: \<^verbatim>\<open>PATH_SEP\<close> is the slash.\<close>

definition ToNativePath :: "string \<Rightarrow> string" where
  "ToNativePath path = ConvertSlashes path BS (CHR ''/'')"

fun starts_at :: "string \<Rightarrow> string \<Rightarrow> bool" where
  "starts_at str [] = True"
| "starts_at [] (p # ps) = False"
| "starts_at (c # cs) (p # ps) = (c = p \<and> starts_at cs ps)"

definition StartsWith :: "string \<Rightarrow> string \<Rightarrow> bool" where
  "StartsWith str pre = (if length str < length pre then False else starts_at str pre)"

section \<open>\<^verbatim>\<open>std::atol\<close>\<close>

text \<open>White space, a sign, digits.  A value out of range saturates, as glibc's \<^verbatim>\<open>strtol\<close> does.\<close>

definition clamp_long :: "int \<Rightarrow> int" where
  "clamp_long i = max LONG_MIN (min LONG_MAX i)"

definition atol :: "string \<Rightarrow> int" where
  "atol s =
     (let t = dropWhile wx_isspace (c_str s);
          (neg, u) = (case t of c # r \<Rightarrow> if c = CHR ''-'' then (True, r)
                                         else if c = CHR ''+'' then (False, r) else (False, t)
                      | [] \<Rightarrow> (False, t));
          n = int (digits_val (takeWhile is_digit u))
      in clamp_long (if neg then - n else n))"

section \<open>Properties\<close>

lemma atol_show_nat: "int n \<le> LONG_MAX \<Longrightarrow> atol (show_nat n) = int n"
proof -
  assume n: "int n \<le> LONG_MAX"
  obtain c t where ct: "show_nat n = c # t" by (cases "show_nat n") auto
  then have c: "is_digit c" using show_nat_hd [of n] by simp
  then have "\<not> wx_isspace c" "c \<noteq> CHR ''-''" "c \<noteq> CHR ''+''" by (auto simp: is_digit_def wx_isspace_def Let_def)
  moreover have "takeWhile is_digit (show_nat n) = show_nat n"
    using show_nat_digits by (simp add: takeWhile_eq_all_conv)
  ultimately show ?thesis
    using n ct digits_val_show_nat [of n] no_nul_show_nat [of n] by (simp add: atol_def clamp_long_def int_limits)
qed

lemma rdrop_id: "s \<noteq> [] \<Longrightarrow> \<not> P (last s) \<Longrightarrow> rdrop P s = s"
  by (cases s rule: rev_cases) (auto simp: rdrop_def)

lemma Trim_id: "s \<noteq> [] \<Longrightarrow> \<not> is_blank (hd s) \<Longrightarrow> \<not> is_blank (last s) \<Longrightarrow> Trim s = s"
  by (cases s) (auto simp: Trim_def rdrop_id)

lemma Trim_Trim [simp]: "Trim (Trim s) = Trim s"
proof (cases "Trim s = []")
  case True
  have "Trim [] = []" by (simp add: Trim_def rdrop_def)
  then show ?thesis by (simp only: True)
next
  case False
  let ?d = "dropWhile is_blank s"
  from False have "?d \<noteq> []" by (metis Trim_def dropWhile.simps(1) rdrop_def rev.simps(1))
  obtain b where b: "?d = Trim s @ b"
    by (metis Trim_def append_eq_conv_conj rdrop_def rev_append rev_rev_ident takeWhile_dropWhile_id)
  have "\<not> is_blank (hd (Trim s))"
    using hd_dropWhile [OF \<open>?d \<noteq> []\<close>] b False by simp
  moreover have "\<not> is_blank (last (Trim s))"
    using False hd_dropWhile [of is_blank "rev ?d"] by (auto simp: Trim_def rdrop_def last_rev)
  ultimately show ?thesis using False by (simp add: Trim_id)
qed

lemma Before_After: "ch \<in> set str \<Longrightarrow> str = BeforeFirst str ch @ [ch] @ AfterFirst str ch"
  by (induction str) (auto simp: BeforeFirst_def AfterFirst_def)

lemma Before_After_none: "ch \<notin> set str \<Longrightarrow> BeforeFirst str ch = str \<and> AfterFirst str ch = []"
  by (induction str) (auto simp: BeforeFirst_def AfterFirst_def)

lemma StartsWith_prefix: "StartsWith str pre \<longleftrightarrow> prefix pre str"
proof -
  have "starts_at str pre \<longleftrightarrow> prefix pre str" by (induction str pre rule: starts_at.induct) auto
  moreover have "prefix pre str \<Longrightarrow> length pre \<le> length str" by (rule prefix_length_le)
  ultimately show ?thesis by (auto simp: StartsWith_def)
qed

text \<open>The states that \<^verbatim>\<open>BuildArgv\<close> reaches: an escape remembers the quote it is in.\<close>

definition argv_inv :: "argv \<Rightarrow> bool" where
  "argv_inv a \<longleftrightarrow>
     (if argv_st a = ARGV_STATE_ESCAPE
      then argv_prev a \<in> {ARGV_STATE_DQUOTE, ARGV_STATE_SQUOTE, ARGV_STATE_BACKTICK}
      else argv_prev a = ARGV_STATE_NORMAL) \<and> [] \<notin> set (argv_A a)"

lemmas argv_defs = argv_step_def PUSH_CURTOKEN_def CHANGE_STATE_def RESTORE_STATE_def push_str_def
  quoted_char_def escaped_char_def

lemma argv_step_inv: "argv_inv a \<Longrightarrow> argv_inv (argv_step a ch)"
  by (cases "argv_st a") (auto simp: argv_inv_def argv_defs)

lemma argv_run_inv: "argv_inv a \<Longrightarrow> argv_inv (foldl argv_step a s)"
  by (induction s arbitrary: a) (auto simp: argv_step_inv)

lemma argv_init_inv: "argv_inv argv_init"
  by (simp add: argv_inv_def argv_init_def)

text \<open>
  The command line that \<^verbatim>\<open>StdoutTransport::Execute\<close> composes: every argument quoted if it has a
  space, and followed by a space.  \<^verbatim>\<open>WrapWithQuotes\<close> escapes nothing, so an argument must not
  contain what the splitter treats specially.
\<close>

definition command_line :: "string list \<Rightarrow> string" where
  "command_line cmd = concat (map (\<lambda>c. WrapWithQuotes c @ '' '') cmd)"

definition safe_arg :: "string \<Rightarrow> bool" where
  "safe_arg s \<longleftrightarrow> s \<noteq> [] \<and> no_nul s \<and> DQ \<notin> set s \<and>
     (if CHR '' '' \<in> set s then BS \<notin> set s else TAB \<notin> set s \<and> SQ \<notin> set s \<and> BT \<notin> set s)"

lemma argv_plain:
  "argv_st a = ARGV_STATE_NORMAL \<Longrightarrow> set s \<inter> {CHR '' '', TAB, SQ, DQ, BT} = {} \<Longrightarrow>
     foldl argv_step a s = push_str s a"
  by (induction s arbitrary: a) (auto simp: argv_defs)

lemma argv_dquoted:
  "argv_st a = ARGV_STATE_DQUOTE \<Longrightarrow> set s \<inter> {DQ, BS} = {} \<Longrightarrow> foldl argv_step a s = push_str s a"
  by (induction s arbitrary: a) (auto simp: argv_defs)

lemma argv_wrapped:
  assumes a: "argv_st a = ARGV_STATE_NORMAL" "argv_prev a = ARGV_STATE_NORMAL" "argv_cur a = []" and s: "safe_arg s"
  shows "foldl argv_step a (WrapWithQuotes s @ '' '') = a \<lparr>argv_A := argv_A a @ [WrapWithQuotes s]\<rparr>"
proof (cases "CHR '' '' \<in> set s")
  case True
  let ?b = "push_str [DQ] (CHANGE_STATE ARGV_STATE_DQUOTE a)"
  have "argv_step a DQ = ?b" using a by (simp add: argv_step_def argv_chars)
  moreover have "foldl argv_step ?b s = push_str s ?b"
    using s True by (intro argv_dquoted) (auto simp: safe_arg_def CHANGE_STATE_def push_str_def)
  ultimately show ?thesis using True s a
    by (simp add: WrapWithQuotes_def safe_arg_def) (simp add: argv_defs argv_chars)
next
  case False
  then have "foldl argv_step a s = push_str s a"
    using s a by (intro argv_plain) (auto simp: safe_arg_def)
  with False s a show ?thesis by (simp add: WrapWithQuotes_def safe_arg_def) (simp add: argv_defs)
qed

lemma argv_command_line:
  assumes "argv_st a = ARGV_STATE_NORMAL" "argv_prev a = ARGV_STATE_NORMAL" "argv_cur a = []" "\<forall>s\<in>set cmd. safe_arg s"
  shows "foldl argv_step a (command_line cmd) = a \<lparr>argv_A := argv_A a @ map WrapWithQuotes cmd\<rparr>"
  using assms
proof (induction cmd arbitrary: a)
  case (Cons s cmd)
  let ?a = "a \<lparr>argv_A := argv_A a @ [WrapWithQuotes s]\<rparr>"
  have "foldl argv_step a (WrapWithQuotes s @ '' '') = ?a" using Cons.prems by (intro argv_wrapped) auto
  moreover have "foldl argv_step ?a (command_line cmd) = ?a \<lparr>argv_A := argv_A ?a @ map WrapWithQuotes cmd\<rparr>"
    by (rule Cons.IH) (use Cons.prems in auto)
  ultimately show ?case by (simp add: command_line_def)
qed (simp add: command_line_def)

lemma strip_wrapped: "safe_arg s \<Longrightarrow> strip_dquotes (c_str (WrapWithQuotes s)) = s"
proof -
  assume s: "safe_arg s"
  then have "no_nul (WrapWithQuotes s)" by (auto simp: WrapWithQuotes_def safe_arg_def DQ_def NUL_def)
  moreover have "hd s \<noteq> DQ" using s by (cases s) (auto simp: safe_arg_def)
  ultimately show ?thesis by (auto simp: WrapWithQuotes_def strip_dquotes_def)
qed

lemma BuildArgv_command_line: "\<forall>s\<in>set cmd. safe_arg s \<Longrightarrow> BuildArgv (command_line cmd) = cmd"
proof -
  assume s: "\<forall>s\<in>set cmd. safe_arg s"
  then have "foldl argv_step argv_init (command_line cmd) = argv_init \<lparr>argv_A := map WrapWithQuotes cmd\<rparr>"
    by (subst argv_command_line) (auto simp: argv_init_def)
  with s show ?thesis
    by (simp add: BuildArgv_def BuildArgv_c_def PUSH_CURTOKEN_def argv_init_def strip_wrapped map_idI)
qed

text \<open>The slash converter leaves no source character and no doubled target.\<close>

fun no_double :: "char \<Rightarrow> string \<Rightarrow> bool" where
  "no_double t (a # b # s) \<longleftrightarrow> \<not> (a = t \<and> b = t) \<and> no_double t (b # s)"
| "no_double t s \<longleftrightarrow> True"

lemma convert_slashes_hd:
  "l = t \<Longrightarrow> convert_slashes src t l s = [] \<or> hd (convert_slashes src t l s) \<noteq> t"
  by (induction s arbitrary: l) (auto simp: Let_def)

lemma convert_slashes_no_double: "no_double t (convert_slashes src t l s)"
proof (induction s arbitrary: l)
  case (Cons c s)
  let ?ch = "if c = src then t else c"
  have "no_double t (?ch # convert_slashes src t ?ch s)"
    using Cons.IH [of ?ch] convert_slashes_hd [of ?ch t src s]
    by (cases "convert_slashes src t ?ch s") (auto split: if_splits)
  with Cons.IH show ?case by (auto simp: Let_def)
qed simp

lemma convert_slashes_no_source: "src \<noteq> t \<Longrightarrow> src \<notin> set (convert_slashes src t l s)"
  by (induction s arbitrary: l) (auto simp: Let_def)

lemma convert_slashes_id: "no_double t s \<Longrightarrow> src \<notin> set s \<Longrightarrow> l \<noteq> t \<or> s = [] \<or> hd s \<noteq> t \<Longrightarrow> convert_slashes src t l s = s"
proof (induction s arbitrary: l)
  case (Cons c s)
  then show ?case by (cases s) (auto simp: Let_def)
qed simp

lemma ToUnixPath_idem: "ToUnixPath (ToUnixPath p) = ToUnixPath p"
  unfolding ToUnixPath_def ConvertSlashes_def
  by (rule convert_slashes_id) (auto simp: convert_slashes_no_double convert_slashes_no_source BS_def NUL_def)

end
