(* ===== verification/Dap_JsonRPC.thy ===== *)
theory Dap_JsonRPC
  imports Dap_Json Dap_StringUtils
begin

text \<open>
  \<^verbatim>\<open>dap/JsonRPC.cpp\<close> and \<^verbatim>\<open>dap/JsonRPC.hpp\<close>: the framing of messages on the byte stream.  The
  state of \<^verbatim>\<open>JsonRPC\<close> is its buffer.  \<open>DoProcessBuffer\<close> takes one message off the buffer;
  \<open>ProcessBuffer\<close> calls the callback for every message, with fuel for the loop, and the callback
  may change the buffer itself (the client resets it).  The main result is that a stream of
  frames is reassembled exactly however the transport cuts it into pieces.
\<close>

section \<open>The buffer\<close>

definition SetBuffer :: "string \<Rightarrow> string \<Rightarrow> string" where
  "SetBuffer b m_buffer = b"

definition AppendBuffer :: "string \<Rightarrow> string \<Rightarrow> string" where
  "AppendBuffer b m_buffer = m_buffer @ b"

text \<open>\<^verbatim>\<open>std::string::find\<close>.\<close>

fun find_sub :: "string \<Rightarrow> string \<Rightarrow> nat option" where
  "find_sub p [] = (if p = [] then Some 0 else None)"
| "find_sub p (c # cs) = (if prefix p (c # cs) then Some 0 else map_option Suc (find_sub p cs))"

definition CRLFCRLF :: string where
  "CRLFCRLF = [CHR 0x0D, CHR 0x0A, CHR 0x0D, CHR 0x0A]"

type_synonym headers = "string \<rightharpoonup> string"

definition insert_header :: "headers \<Rightarrow> string \<Rightarrow> headers" where
  "insert_header hs line =
     (let header = Trim line;
          name = Trim (BeforeFirst header (CHR '':''));
          value = Trim (AfterFirst header (CHR '':''))
      in if hs name = None then hs(name \<mapsto> value) else hs)"

text \<open>\<^verbatim>\<open>ReadHeaders\<close>: the headers and the size of the header section, \<open>-1\<close> when it is incomplete.\<close>

definition ReadHeaders :: "string \<Rightarrow> headers \<times> int" where
  "ReadHeaders m_buffer =
     (case find_sub CRLFCRLF m_buffer of
        None \<Rightarrow> (Map.empty, -1)
      | Some wher \<Rightarrow>
         (foldl insert_header Map.empty (Split (take wher m_buffer) [CHR 0x0A]), to_int32 (int (wher + 4))))"

text \<open>
  \<^verbatim>\<open>DoProcessBuffer\<close>: the message, if there is one, and the new buffer.  A header section of more
  than \<^verbatim>\<open>INT_MAX\<close> bytes makes \<^verbatim>\<open>headerSize\<close> negative and the following code reads before the
  buffer.
\<close>

definition DoProcessBuffer :: "string \<Rightarrow> (Json \<times> string) outcome" where
  "DoProcessBuffer m_buffer =
     (if m_buffer = [] then Ok (None, m_buffer)
      else let (headers, headerSize) = ReadHeaders m_buffer in
        if headerSize = -1 then Ok (None, m_buffer)
        else if headerSize < 0 then Undef Over_Read
        else case headers ''Content-Length'' of
            None \<Rightarrow> Ok (None, take (nat headerSize) m_buffer)
          | Some contentLength \<Rightarrow>
             let msglen = atol contentLength in
             if msglen \<le> 0 then Ok (None, m_buffer)
             else if LONG_MAX < headerSize + msglen then Undef Int_Overflow
             else if int (length m_buffer) < headerSize + msglen then Ok (None, m_buffer)
             else omap (\<lambda>json. (json, drop (nat (headerSize + msglen)) m_buffer))
                    (Json_Parse (take (nat msglen) (drop (nat headerSize) m_buffer))))"

text \<open>The loop of \<^verbatim>\<open>ProcessBuffer\<close>; the callback sees and may change the buffer and the state \<open>s\<close>.\<close>

datatype 'a run = Done 'a | Run_Undef ub | Out_Of_Fuel

fun ProcessBuffer :: "nat \<Rightarrow> (Json \<Rightarrow> string \<times> 's \<Rightarrow> string \<times> 's) \<Rightarrow> string \<times> 's \<Rightarrow> (string \<times> 's) run" where
  "ProcessBuffer 0 callback bs = Out_Of_Fuel"
| "ProcessBuffer (Suc n) callback (m_buffer, s) =
     (case DoProcessBuffer m_buffer of
        Undef u \<Rightarrow> Run_Undef u
      | Ok (json, m_buffer') \<Rightarrow>
         if IsOK json then ProcessBuffer n callback (callback json (m_buffer', s))
         else Done (m_buffer', s))"

definition process_fuel :: "string \<Rightarrow> nat" where
  "process_fuel m_buffer = length m_buffer + 1"

lemma process_fuel_less: "length b < process_fuel b"
  by (simp add: process_fuel_def)

text \<open>\<^verbatim>\<open>JsonRPC::Send\<close>: what goes to the transport for the text of a message.\<close>

definition frame :: "string \<Rightarrow> string" where
  "frame payload = ''Content-Length: '' @ show_nat (length payload) @ CRLFCRLF @ payload"

section \<open>One message\<close>

lemma find_sub_append:
  assumes "\<forall>c\<in>set h. c \<noteq> hd p" "p \<noteq> []" shows "find_sub p (h @ p @ r) = Some (length h)"
  using assms
proof (induction h)
  case Nil
  have "prefix p (p @ r)" by simp
  with Nil show ?case by (cases "p @ r") (auto simp del: same_prefix_prefix)
next
  case (Cons c h)
  then have "\<not> prefix p (c # h @ p @ r)" by (cases p) auto
  with Cons show ?case by simp
qed

lemma find_sub_shift: "\<forall>c\<in>set h. c \<noteq> hd p \<Longrightarrow> p \<noteq> [] \<Longrightarrow> find_sub p (h @ q) = map_option ((+) (length h)) (find_sub p q)"
proof (induction h)
  case Nil
  then show ?case by (cases "find_sub p q") auto
next
  case (Cons c h)
  then have "\<not> prefix p (c # h @ q)" by (cases p) auto
  with Cons show ?case by (cases "find_sub p q") auto
qed

lemma find_sub_CRLFCRLF_partial: "strict_prefix q CRLFCRLF \<Longrightarrow> find_sub CRLFCRLF q = None"
proof -
  assume "strict_prefix q CRLFCRLF"
  then have "q = [] \<or> q = [CHR 0x0D] \<or> q = [CHR 0x0D, CHR 0x0A] \<or> q = [CHR 0x0D, CHR 0x0A, CHR 0x0D]"
    by (auto simp: CRLFCRLF_def strict_prefix_def prefix_Cons)
  then show ?thesis by (auto simp: CRLFCRLF_def)
qed

definition header_text :: "string \<Rightarrow> string" where
  "header_text payload = ''Content-Length: '' @ show_nat (length payload)"

lemma frame_header: "frame p = header_text p @ CRLFCRLF @ p"
  by (simp add: frame_def header_text_def)

lemma header_no_cr: "\<forall>c\<in>set (header_text p). c \<noteq> hd CRLFCRLF \<and> c \<noteq> CHR 0x0A \<and> c \<noteq> NUL"
  using show_nat_digits [of _ "length p"]
  by (auto simp: header_text_def CRLFCRLF_def NUL_def is_digit_def dest!: show_nat_digits)

lemma header_ends:
  "hd (header_text p) = CHR ''C''" "is_digit (last (header_text p))" "header_text p \<noteq> []"
  using show_nat_digits [of "last (show_nat (length p))" "length p"] by (auto simp: header_text_def)

lemma Trim_header: "Trim (header_text p) = header_text p"
proof (rule Trim_id)
  show "\<not> is_blank (last (header_text p))"
    using header_ends(2) [of p] by (auto simp: is_blank_def is_digit_def)
qed (simp_all add: header_ends is_blank_def)

lemma strtok_single: "s \<noteq> [] \<Longrightarrow> \<forall>c\<in>set s. \<not> d c \<Longrightarrow> strtok d s = [s]"
proof -
  assume s: "s \<noteq> []" "\<forall>c\<in>set s. \<not> d c"
  then obtain c r where cr: "s = c # r" by (cases s) auto
  have "dropWhile d (c # r) = c # r" "takeWhile (\<lambda>x. \<not> d x) (c # r) = c # r"
    "dropWhile (\<lambda>x. \<not> d x) (c # r) = []" "strtok d [] = []"
    using s(2) by (auto simp: cr takeWhile_eq_all_conv strtok.simps [of d "[]"])
  then show ?thesis unfolding cr by (subst strtok.simps) (simp only: list.case)
qed

lemma Split_header: "Split (header_text p) [CHR 0x0A] = [header_text p]"
proof -
  have "c_str (header_text p) = header_text p"
    using header_no_cr [of p] by (intro c_str_id) (auto simp: no_nul_def)
  moreover have "strtok (\<lambda>c. c \<in> set (c_str [CHR 0x0A])) (header_text p) = [header_text p]"
    using header_no_cr [of p] header_ends(3) by (intro strtok_single) (auto simp: NUL_def)
  ultimately show ?thesis by (simp add: Split_def Trim_header header_ends)
qed

lemma insert_header_text: "insert_header Map.empty (header_text p) = [''Content-Length'' \<mapsto> show_nat (length p)]"
proof -
  let ?n = "show_nat (length p)"
  have "BeforeFirst (header_text p) (CHR '':'') = ''Content-Length''"
    "AfterFirst (header_text p) (CHR '':'') = CHR '' '' # ?n"
    by (simp_all add: BeforeFirst_def AfterFirst_def header_text_def)
  moreover have "Trim ''Content-Length'' = ''Content-Length''"
    by (rule Trim_id) (simp_all add: is_blank_def)
  moreover have "Trim (CHR '' '' # ?n) = ?n"
  proof -
    have "is_digit (hd ?n)" "is_digit (last ?n)"
      using show_nat_hd [of "length p"] show_nat_digits [of "last ?n" "length p"] by simp_all
    then have "\<not> is_blank (hd ?n)" "\<not> is_blank (last ?n)" by (auto simp: is_blank_def is_digit_def)
    then have "Trim ?n = ?n" by (intro Trim_id) auto
    then show ?thesis by (simp add: Trim_def is_blank_def)
  qed
  ultimately show ?thesis by (simp add: insert_header_def Trim_header)
qed

lemma length_header: "length p < 10 ^ 18 \<Longrightarrow> length (header_text p) \<le> 34"
  using length_show_nat_le [of "length p" 18] by (simp add: header_text_def)

lemma ReadHeaders_frame:
  assumes "length p < 10 ^ 18"
  shows "ReadHeaders (header_text p @ CRLFCRLF @ r) =
           ([''Content-Length'' \<mapsto> show_nat (length p)], int (length (header_text p) + 4))"
proof -
  have "find_sub CRLFCRLF (header_text p @ CRLFCRLF @ r) = Some (length (header_text p))"
    using header_no_cr by (intro find_sub_append) (auto simp: CRLFCRLF_def)
  moreover have "is_int32 (int (length (header_text p) + 4))"
    using length_header [OF assms] by (simp add: is_int32_def int_limits)
  ultimately show ?thesis
    by (simp add: ReadHeaders_def Split_header insert_header_text)
qed

lemma DoProcessBuffer_sized:
  assumes "ReadHeaders b = (hs, int k)" "hs ''Content-Length'' = Some v" "atol v = int m" "0 < m"
    "int (k + m) \<le> LONG_MAX" "b \<noteq> []"
  shows "DoProcessBuffer b =
     (if length b < k + m then Ok (None, b)
      else omap (\<lambda>json. (json, drop (k + m) b)) (Json_Parse (take m (drop k b))))"
  using assms by (auto simp: DoProcessBuffer_def nat_add_distrib)

text \<open>A complete frame at the front of the buffer is taken off and parsed.\<close>

lemma frame_size:
  "length p < 10 ^ 18 \<Longrightarrow>
     atol (show_nat (length p)) = int (length p) \<and> int ((length (header_text p) + 4) + length p) \<le> LONG_MAX"
  using length_header [of p] by (auto intro: atol_show_nat simp: int_limits)

lemma DoProcessBuffer_frame:
  assumes "p \<noteq> []" "length p < 10 ^ 18"
  shows "DoProcessBuffer (frame p @ r) = omap (\<lambda>json. (json, r)) (Json_Parse p)"
proof -
  let ?h = "header_text p @ CRLFCRLF" and ?k = "length (header_text p) + 4"
  have k: "?k = length ?h" by (simp add: CRLFCRLF_def)
  have b: "frame p @ r = ?h @ p @ r" by (simp add: frame_header)
  have "DoProcessBuffer (frame p @ r) =
     (if length (frame p @ r) < ?k + length p then Ok (None, frame p @ r)
      else omap (\<lambda>json. (json, drop (?k + length p) (frame p @ r)))
             (Json_Parse (take (length p) (drop ?k (frame p @ r)))))"
  proof (rule DoProcessBuffer_sized)
    show "ReadHeaders (frame p @ r) = ([''Content-Length'' \<mapsto> show_nat (length p)], int ?k)"
      using ReadHeaders_frame [OF assms(2), of "p @ r"] by (simp add: b)
  qed (use frame_size [OF assms(2)] assms(1) in \<open>auto simp: frame_def\<close>)
  then show ?thesis unfolding b k by simp
qed

text \<open>A frame that has not arrived completely is left in the buffer.\<close>

lemma DoProcessBuffer_partial:
  assumes b: "strict_prefix b (frame p)" and p: "p \<noteq> []" "length p < 10 ^ 18"
  shows "DoProcessBuffer b = Ok (None, b)"
proof (cases "prefix (header_text p @ CRLFCRLF) b")
  case True
  let ?k = "length (header_text p) + 4"
  obtain q where q: "b = header_text p @ CRLFCRLF @ q" using True by (auto simp: prefix_def)
  have "length b < ?k + length p"
    using prefix_length_less [OF b] by (simp add: frame_header CRLFCRLF_def)
  moreover have "DoProcessBuffer b =
     (if length b < ?k + length p then Ok (None, b)
      else omap (\<lambda>json. (json, drop (?k + length p) b)) (Json_Parse (take (length p) (drop ?k b))))"
  proof (rule DoProcessBuffer_sized)
    show "ReadHeaders b = ([''Content-Length'' \<mapsto> show_nat (length p)], int ?k)"
      using ReadHeaders_frame [OF p(2), of q] by (simp add: q)
  qed (use frame_size [OF p(2)] p(1) q in \<open>auto simp: header_text_def\<close>)
  ultimately show ?thesis by simp
next
  case False
  have "find_sub CRLFCRLF b = None"
  proof (cases "prefix (header_text p) b")
    case True
    then obtain q where q: "b = header_text p @ q" by (auto simp: prefix_def)
    have "prefix q (CRLFCRLF @ p)" "\<not> prefix CRLFCRLF q" using b False q by (auto simp: frame_header strict_prefix_def)
    then have "strict_prefix q CRLFCRLF"
      by (auto simp: prefix_append strict_prefix_def)
    then show ?thesis
      using find_sub_shift [of "header_text p" CRLFCRLF q] header_no_cr [of p] find_sub_CRLFCRLF_partial
      by (simp add: q CRLFCRLF_def)
  next
    case False
    with b have "prefix b (header_text p)"
      by (auto simp: frame_header prefix_append strict_prefix_def)
    then have "set b \<subseteq> set (header_text p)" by (rule set_mono_prefix)
    then have "\<forall>c\<in>set b. c \<noteq> hd CRLFCRLF" using header_no_cr [of p] by auto
    then show ?thesis using find_sub_shift [of b CRLFCRLF "[]"] by (simp add: CRLFCRLF_def)
  qed
  then show ?thesis by (simp add: DoProcessBuffer_def ReadHeaders_def)
qed

section \<open>The loop ends\<close>

text \<open>A message takes at least five bytes off the buffer.\<close>

lemma DoProcessBuffer_shrinks:
  assumes "DoProcessBuffer b = Ok (Some n, b')" shows "length b' < length b"
  using assms
  by (auto simp: DoProcessBuffer_def Let_def omap_eq_Ok split: if_splits prod.splits option.splits)

lemma DoProcessBuffer_ints: "DoProcessBuffer b = Ok (j, b') \<Longrightarrow> ints_json j"
  by (auto simp: DoProcessBuffer_def Let_def omap_eq_Ok ints_json_def split: if_splits prod.splits option.splits
      dest!: Json_Parse_ints)

text \<open>
  The contract of a callback: in the states \<open>I\<close> it does not make the buffer longer, and it stays
  in these states.
\<close>

locale rpc_callback =
  fixes cb :: "Json \<Rightarrow> string \<times> 's \<Rightarrow> string \<times> 's" and I :: "'s \<Rightarrow> bool"
  assumes cb_buffer: "I s \<Longrightarrow> ints_json j \<Longrightarrow> length (fst (cb j (b, s))) \<le> length b"
    and cb_state: "I s \<Longrightarrow> ints_json j \<Longrightarrow> I (snd (cb j (b, s)))"
begin

lemma enough_fuel: "length b < n \<Longrightarrow> I s \<Longrightarrow> ProcessBuffer n cb (b, s) \<noteq> Out_Of_Fuel"
proof (induction n arbitrary: b s)
  case (Suc n)
  have "ProcessBuffer n cb (cb (Some x) (b', s)) \<noteq> Out_Of_Fuel" if d: "DoProcessBuffer b = Ok (Some x, b')" for x b'
  proof -
    obtain b1 s1 where 1: "cb (Some x) (b', s) = (b1, s1)" by force
    then have "length b1 < n" "I s1"
      using cb_buffer [of s "Some x" b'] cb_state [of s "Some x" b'] DoProcessBuffer_ints [OF d]
        DoProcessBuffer_shrinks [OF d] Suc.prems by auto
    then show ?thesis using Suc.IH by (simp add: 1)
  qed
  then show ?case by (auto simp: IsOK_def split: outcome.splits)
qed simp

lemma fuel_irrelevant:
  "length b < n \<Longrightarrow> length b < m \<Longrightarrow> I s \<Longrightarrow> ProcessBuffer n cb (b, s) = ProcessBuffer m cb (b, s)"
proof (induction n arbitrary: m b s)
  case (Suc n)
  then obtain m' where m: "m = Suc m'" by (cases m) auto
  have "ProcessBuffer n cb (cb (Some x) (b', s)) = ProcessBuffer m' cb (cb (Some x) (b', s))"
    if d: "DoProcessBuffer b = Ok (Some x, b')" for x b'
  proof -
    obtain b1 s1 where 1: "cb (Some x) (b', s) = (b1, s1)" by force
    then have "length b1 < length b" "I s1"
      using cb_buffer [of s "Some x" b'] cb_state [of s "Some x" b'] DoProcessBuffer_ints [OF d]
        DoProcessBuffer_shrinks [OF d] Suc.prems by auto
    then show ?thesis using Suc.IH [of b1 m' s1] Suc.prems m 1 by simp
  qed
  then show ?case by (auto simp: m IsOK_def split: outcome.splits)
qed simp

lemma final_state: "ProcessBuffer n cb (b, s) = Done (b', s') \<Longrightarrow> I s \<Longrightarrow> I s' \<and> length b' \<le> length b"
proof (induction n arbitrary: b s)
  case (Suc n)
  obtain j b1 where d: "DoProcessBuffer b = Ok (j, b1)" using Suc.prems(1) by (auto split: outcome.splits)
  have l: "length b1 \<le> length b" using d
    by (auto simp: DoProcessBuffer_def Let_def omap_eq_Ok split: if_splits prod.splits option.splits)
  show ?case
  proof (cases "IsOK j")
    case True
    obtain b2 s2 where 2: "cb j (b1, s) = (b2, s2)" by force
    then have "length b2 \<le> length b1" "I s2"
      using cb_buffer [of s j b1] cb_state [of s j b1] DoProcessBuffer_ints [OF d] Suc.prems(2) by auto
    then show ?thesis using Suc.IH [of b2 s2] Suc.prems(1) True d 2 l by simp
  qed (use Suc.prems d l in simp)
qed simp

end

section \<open>Reassembly of a stream\<close>

text \<open>A payload that the sender can produce and the receiver can parse to the message \<open>j\<close>.\<close>

definition carries :: "string \<Rightarrow> Json \<Rightarrow> bool" where
  "carries p j \<longleftrightarrow> p \<noteq> [] \<and> length p < 10 ^ 18 \<and> Json_Parse p = Ok j \<and> IsOK j"

definition stream :: "(string \<times> Json) list \<Rightarrow> string" where
  "stream ms = concat (map (\<lambda>(p, j). frame p) ms)"

lemma frame_not_Nil [simp]: "frame p \<noteq> []"
  by (simp add: frame_def)

text \<open>
  A callback that leaves the buffer alone and acts on the state only.  One piece from the
  transport is \<^verbatim>\<open>AppendBuffer\<close>, then \<^verbatim>\<open>ProcessBuffer\<close>.
\<close>

definition receive_with ::
  "(Json \<Rightarrow> string \<times> 's \<Rightarrow> string \<times> 's) \<Rightarrow> string \<Rightarrow> string \<times> 's \<Rightarrow> (string \<times> 's) run" where
  "receive_with cb chunk bs = (let b = AppendBuffer chunk (fst bs) in ProcessBuffer (process_fuel b) cb (b, snd bs))"

fun receive_all_with ::
  "(Json \<Rightarrow> string \<times> 's \<Rightarrow> string \<times> 's) \<Rightarrow> string list \<Rightarrow> string \<times> 's \<Rightarrow> (string \<times> 's) run" where
  "receive_all_with cb [] bs = Done bs"
| "receive_all_with cb (c # cs) bs =
     (case receive_with cb c bs of
        Done bs' \<Rightarrow> receive_all_with cb cs bs' | Run_Undef u \<Rightarrow> Run_Undef u | Out_Of_Fuel \<Rightarrow> Out_Of_Fuel)"

locale rpc_consumer = rpc_callback +
  fixes act :: "Json \<Rightarrow> 's \<Rightarrow> 's"
  assumes cb_act: "I s \<Longrightarrow> ints_json j \<Longrightarrow> cb j (b, s) = (b, act j s)"
begin

text \<open>The buffer is a prefix of the frames still to come: the complete ones are delivered.\<close>

lemma process_stream:
  assumes "\<forall>(p, j)\<in>set ms. carries p j" "prefix b (stream ms)" "length b < n" "I s"
  shows "\<exists>done rest b'. ms = done @ rest \<and> b = stream done @ b' \<and>
           (b' = [] \<or> rest \<noteq> [] \<and> strict_prefix b' (frame (fst (hd rest)))) \<and>
           ProcessBuffer n cb (b, s) = Done (b', fold act (map snd done) s) \<and> I (fold act (map snd done) s)"
  using assms
proof (induction ms arbitrary: b n s)
  case Nil
  then have "b = []" by (simp add: stream_def)
  moreover have "ProcessBuffer n cb ([], s) = Done ([], s)"
    using Nil by (cases n) (auto simp: DoProcessBuffer_def IsOK_def)
  ultimately show ?case using Nil by (auto simp: stream_def)
next
  case (Cons m ms)
  obtain p j where m: "m = (p, j)" by force
  then have c: "carries p j" and st: "stream (m # ms) = frame p @ stream ms"
    using Cons.prems by (auto simp: stream_def)
  obtain n' where n: "n = Suc n'" using Cons.prems by (cases n) auto
  show ?case
  proof (cases "prefix (frame p) b")
    case True
    then obtain q where q: "b = frame p @ q" by (auto simp: prefix_def)
    have j: "ints_json j" using c Json_Parse_ints by (auto simp: carries_def)
    have "prefix q (stream ms)" using Cons.prems(2) st q by simp
    moreover have "length q < n'" using Cons.prems(3) q n by (simp add: frame_def)
    moreover have "I (act j s)" using cb_state [OF Cons.prems(4) j, of q] cb_act [OF Cons.prems(4) j, of q] by simp
    ultimately obtain dn rest b' where h: "ms = dn @ rest" "q = stream dn @ b'"
      "b' = [] \<or> rest \<noteq> [] \<and> strict_prefix b' (frame (fst (hd rest)))"
      "ProcessBuffer n' cb (q, act j s) = Done (b', fold act (map snd dn) (act j s))"
      "I (fold act (map snd dn) (act j s))"
      using Cons.IH [of q n' "act j s"] Cons.prems(1) by auto
    have "DoProcessBuffer b = Ok (j, q)"
      using DoProcessBuffer_frame [of p q] c by (simp add: q carries_def)
    then have "ProcessBuffer n cb (b, s) = Done (b', fold act (map snd (m # dn)) s)"
      using c h(4) cb_act [OF Cons.prems(4) j] by (simp add: n carries_def m)
    then show ?thesis
      using h(1-3,5) m q by (intro exI [of _ "m # dn"] exI [of _ rest] exI [of _ b']) (simp add: stream_def)
  next
    case False
    have b: "strict_prefix b (frame p)"
      using Cons.prems(2) False st by (auto simp: prefix_append strict_prefix_def)
    then have "DoProcessBuffer b = Ok (None, b)" using c DoProcessBuffer_partial by (simp add: carries_def)
    then have "ProcessBuffer n cb (b, s) = Done (b, s)" by (simp add: n IsOK_def)
    then show ?thesis using b m Cons.prems(4)
      by (intro exI [of _ "[]"] exI [of _ "m # ms"] exI [of _ b]) (simp add: stream_def)
  qed
qed

text \<open>
  However the stream is cut, the receiver has delivered exactly the messages whose frames have
  arrived completely, in order, and holds the bytes of the next one.
\<close>

lemma receive_stream:
  assumes "\<forall>(p, j)\<in>set ms. carries p j" "prefix (b @ concat chunks) (stream ms)"
    "b = [] \<or> ms \<noteq> [] \<and> strict_prefix b (frame (fst (hd ms)))" "I s"
  shows "\<exists>done rest b'. ms = done @ rest \<and> b @ concat chunks = stream done @ b' \<and>
           (b' = [] \<or> rest \<noteq> [] \<and> strict_prefix b' (frame (fst (hd rest)))) \<and>
           receive_all_with cb chunks (b, s) = Done (b', fold act (map snd done) s)"
  using assms
proof (induction chunks arbitrary: ms b s)
  case Nil
  then show ?case by (intro exI [of _ "[]"] exI [of _ ms] exI [of _ b]) (auto simp: stream_def)
next
  case (Cons c chunks)
  have "prefix (b @ c) (stream ms)" using Cons.prems(2) append_prefixD [of "b @ c"] by simp
  then obtain dn rest b' where h: "ms = dn @ rest" "b @ c = stream dn @ b'"
    "b' = [] \<or> rest \<noteq> [] \<and> strict_prefix b' (frame (fst (hd rest)))"
    "ProcessBuffer (process_fuel (b @ c)) cb (b @ c, s) = Done (b', fold act (map snd dn) s)"
    "I (fold act (map snd dn) s)"
    using process_stream [OF Cons.prems(1) _ process_fuel_less Cons.prems(4), of "b @ c"] by blast
  have "b @ concat (c # chunks) = (b @ c) @ concat chunks" by simp
  then have e: "b @ concat (c # chunks) = stream dn @ b' @ concat chunks" unfolding h(2) by simp
  have "stream ms = stream dn @ stream rest" using h(1) by (simp add: stream_def)
  with Cons.prems(2) have "prefix (b' @ concat chunks) (stream rest)" unfolding e by simp
  then obtain dn' rest' b'' where h': "rest = dn' @ rest'" "b' @ concat chunks = stream dn' @ b''"
    "b'' = [] \<or> rest' \<noteq> [] \<and> strict_prefix b'' (frame (fst (hd rest')))"
    "receive_all_with cb chunks (b', fold act (map snd dn) s) = Done (b'', fold act (map snd dn') (fold act (map snd dn) s))"
    using Cons.IH [of rest b' "fold act (map snd dn) s"] Cons.prems(1) h(1,3,5) by auto
  have "receive_all_with cb (c # chunks) (b, s) = Done (b'', fold act (map snd (dn @ dn')) s)"
    using h(4) h'(4) by (simp add: receive_with_def AppendBuffer_def)
  moreover have "b @ concat (c # chunks) = stream (dn @ dn') @ b''"
    using e h'(2) by (simp add: stream_def)
  ultimately show ?case using h(1) h'(1,3)
    by (intro exI [of _ "dn @ dn'"] exI [of _ rest'] exI [of _ b'']) simp
qed

text \<open>A stream that arrives completely is delivered completely.\<close>

lemma receive_whole_stream:
  assumes "\<forall>(p, j)\<in>set ms. carries p j" "concat chunks = stream ms" "I s"
  shows "receive_all_with cb chunks ([], s) = Done ([], fold act (map snd ms) s)"
proof -
  obtain dn rest b' where h: "ms = dn @ rest" "concat chunks = stream dn @ b'"
    "b' = [] \<or> rest \<noteq> [] \<and> strict_prefix b' (frame (fst (hd rest)))"
    "receive_all_with cb chunks ([], s) = Done (b', fold act (map snd dn) s)"
    using receive_stream [OF assms(1), of "[]" chunks s] assms(2,3) by auto
  have "stream rest = b'" using assms(2) h(2) unfolding h(1) by (simp add: stream_def)
  then have "rest = []" "b' = []"
    using h(3) by (cases rest; auto simp: stream_def strict_prefix_def prefix_def)+
  with h(1,4) show ?thesis by simp
qed

end

text \<open>The callback that collects what it is given.\<close>

definition collect :: "Json \<Rightarrow> string \<times> Json list \<Rightarrow> string \<times> Json list" where
  "collect json bs = (fst bs, snd bs @ [json])"

interpretation collector: rpc_consumer collect "\<lambda>_. True" "\<lambda>j js. js @ [j]"
  by unfold_locales (simp_all add: collect_def)

definition receive :: "string \<Rightarrow> string \<times> Json list \<Rightarrow> (string \<times> Json list) run" where
  "receive = receive_with collect"

definition receive_all :: "string list \<Rightarrow> string \<times> Json list \<Rightarrow> (string \<times> Json list) run" where
  "receive_all = receive_all_with collect"

lemma receive_all_simps [simp]:
  "receive_all [] bs = Done bs"
  "receive_all (c # cs) bs =
     (case receive c bs of Done bs' \<Rightarrow> receive_all cs bs' | Run_Undef u \<Rightarrow> Run_Undef u | Out_Of_Fuel \<Rightarrow> Out_Of_Fuel)"
  by (simp_all add: receive_all_def receive_def split: run.split)

lemma fold_snoc: "fold (\<lambda>j js. js @ [j]) xs js = js @ xs"
  by (induction xs arbitrary: js) simp_all

lemmas receive_all_stream = collector.receive_stream [unfolded fold_snoc, folded receive_all_def, simplified]
lemmas receive_all_whole = collector.receive_whole_stream [unfolded fold_snoc, folded receive_all_def, simplified]

section \<open>Header sections that stop the receiver\<close>

text \<open>The first end of a header section is found again in every buffer that keeps it.\<close>

lemma find_sub_bound: "find_sub p s = Some n \<Longrightarrow> n + length p \<le> length s"
proof (induction s arbitrary: n)
  case (Cons c s)
  then show ?case by (auto split: if_splits dest: prefix_length_le)
qed (auto split: if_splits)

lemma prefix_iff_take: "prefix p s \<longleftrightarrow> take (length p) s = p"
  by (auto simp: prefix_def) (metis append_take_drop_id)

lemma find_sub_stable: "find_sub p s = Some n \<Longrightarrow> n + length p \<le> k \<Longrightarrow> p \<noteq> [] \<Longrightarrow> find_sub p (take k s @ t) = Some n"
proof (induction s arbitrary: n k)
  case (Cons c s)
  obtain k' where k: "k = Suc k'" using Cons.prems by (cases k) auto
  have "length p \<le> length (c # s)" "length p \<le> k" using find_sub_bound [OF Cons.prems(1)] Cons.prems(2) by simp_all
  then have "prefix p (take k (c # s) @ t) \<longleftrightarrow> prefix p (c # s)" by (simp add: prefix_iff_take)
  then have "prefix p (c # take k' s @ t) \<longleftrightarrow> prefix p (c # s)" by (simp add: k)
  then show ?case using Cons.prems Cons.IH [of _ k'] by (auto simp: k split: if_splits)
qed (auto split: if_splits)

text \<open>
  A buffer whose header section is complete, with the headers \<open>hs\<close> and the size \<open>k\<close>: cut
  behind the section and continued, it reads the same.
\<close>

lemma ReadHeaders_stable:
  assumes "ReadHeaders b = (hs, int k)" "int (length b) \<le> INT_MAX" "k \<le> j"
  shows "ReadHeaders (take j b @ t) = (hs, int k)"
proof -
  obtain w where w: "find_sub CRLFCRLF b = Some w" using assms(1) by (auto simp: ReadHeaders_def split: option.splits)
  have l: "w + 4 \<le> length b" using find_sub_bound [OF w] by (simp add: CRLFCRLF_def)
  then have "is_int32 (int (w + 4))" using assms(2) by (simp add: is_int32_def int_limits)
  then have k: "k = w + 4" using assms(1) w by (simp add: ReadHeaders_def del: of_nat_add)
  then have "find_sub CRLFCRLF (take j b @ t) = Some w"
    using find_sub_stable [OF w, of j] assms(3) by (simp add: CRLFCRLF_def)
  moreover have "take w (take j b @ t) = take w b" using k assms(3) l by simp
  ultimately show ?thesis using assms(1) w by (simp add: ReadHeaders_def)
qed

lemma ReadHeaders_within:
  assumes "ReadHeaders b = (hs, int k)" "int (length b) \<le> INT_MAX" shows "k \<le> length b"
proof -
  obtain w where w: "find_sub CRLFCRLF b = Some w" using assms(1) by (auto simp: ReadHeaders_def split: option.splits)
  have "w + 4 \<le> length b" using find_sub_bound [OF w] by (simp add: CRLFCRLF_def)
  moreover from this have "is_int32 (int (w + 4))" using assms(2) by (simp add: is_int32_def int_limits)
  ultimately show ?thesis using assms(1) w by (simp add: ReadHeaders_def del: of_nat_add)
qed

text \<open>No \<^verbatim>\<open>Content-Length\<close>: what follows the header section is lost, and all that comes after.\<close>

lemma no_length_deaf:
  assumes "ReadHeaders b = (hs, int k)" "hs ''Content-Length'' = None" "int (length b) \<le> INT_MAX"
  shows "DoProcessBuffer b = Ok (None, take k b)" "DoProcessBuffer (take k b @ t) = Ok (None, take k b)"
proof -
  have take: "DoProcessBuffer c = Ok (None, take k c)" if "ReadHeaders c = (hs, int k)" for c
  proof -
    have "c \<noteq> []" using that by (auto simp: ReadHeaders_def CRLFCRLF_def)
    with that assms(2) show ?thesis by (simp add: DoProcessBuffer_def)
  qed
  from take [OF assms(1)] show "DoProcessBuffer b = Ok (None, take k b)" .
  show "DoProcessBuffer (take k b @ t) = Ok (None, take k b)"
    using take [OF ReadHeaders_stable [OF assms(1,3), of k t]] ReadHeaders_within [OF assms(1,3)] by simp
qed

text \<open>A length that is not positive: the frame stays at the front of the buffer for ever.\<close>

lemma no_payload_stuck:
  assumes "ReadHeaders b = (hs, int k)" "hs ''Content-Length'' = Some v" "atol v \<le> 0" "int (length b) \<le> INT_MAX"
  shows "DoProcessBuffer (b @ t) = Ok (None, b @ t)"
proof -
  have "ReadHeaders (b @ t) = (hs, int k)"
    using ReadHeaders_stable [OF assms(1,4) ReadHeaders_within [OF assms(1,4)], of t] by simp
  moreover have "b @ t \<noteq> []" using assms(1) by (auto simp: ReadHeaders_def CRLFCRLF_def)
  ultimately show ?thesis using assms(2,3) by (simp add: DoProcessBuffer_def)
qed

end
