(* ===== verification/Dap_Messages.thy ===== *)
theory Dap_Messages
  imports Dap_JsonRPC
begin

text \<open>
  The base classes of \<^verbatim>\<open>dap/dap.hpp\<close> and their \<^verbatim>\<open>To\<close> and \<^verbatim>\<open>From\<close> in \<^verbatim>\<open>dap/dap.cpp\<close>, and what the
  message theories share.  A class is a record, a derived class an extension of the record of
  its base; a field is called after its class and its member.  For every class \<open>X\<close>:
  \<open>new_X\<close> is the object that the constructor makes, \<open>X_To\<close> and \<open>X_From\<close> are the two methods
  (\<open>X_From json m\<close> is \<open>m\<close> after the call), \<open>ints_X\<close> says that the \<^verbatim>\<open>int\<close> members are in range,
  which C++ guarantees, and \<open>wire_X\<close> is the condition under which an object survives the
  trip through JSON: its strings hold no NUL, and its members have no value that \<^verbatim>\<open>From\<close> loses.
  The lemmas of a class are: \<open>X_From\<close> reads integers in range from a parsed tree; \<open>X_To\<close> makes an object, a document; \<open>X_From\<close> does not see whether
  its argument was parsed or built; and the round trip.
\<close>

named_theorems msg_defs \<open>definitions of the methods of base classes\<close>
named_theorems msg_simps \<open>evaluation of keys and arrays in the messages\<close>
named_theorems msg_roundtrip \<open>the round trips of the classes\<close>

section \<open>Arrays of objects\<close>

text \<open>The loop of the \<^verbatim>\<open>From\<close> methods over the elements of an array.\<close>

definition read_array :: "(Json \<Rightarrow> 'a) \<Rightarrow> Json \<Rightarrow> 'a list" where
  "read_array f arr = map (\<lambda>i. f (Json_nth arr i)) [0..<GetCount arr]"

lemma c_str_Cons [msg_simps]: "c_str (c # s) = (if c = NUL then [] else c # c_str s)" "c_str [] = []"
  by (simp_all add: c_str_def)

declare NUL_def [msg_simps]

lemma IsOK_object [simp]: "IsObject j \<Longrightarrow> IsOK j"
  by (auto simp: IsObject_def has_type_def IsOK_def split: option.splits)

lemma read_array_reparsed [simp]: "(\<And>j. f (reparsed j) = f j) \<Longrightarrow> read_array f (reparsed j) = read_array f j"
  by (simp add: read_array_def)

lemma read_array_None [json_simps]: "read_array f None = []"
  by (simp add: read_array_def GetCount_def)

lemma read_array_built [json_simps]:
  assumes "\<And>x. IsOK (g x)"
  shows "read_array f (foldl (\<lambda>a x. Json_Add_json nm (g x) a) (Some (set_name k cJSON_CreateArray)) xs) =
         map (\<lambda>x. f (g x)) xs"
proof -
  have g: "g x = Some (the (g x))" for x using assms [of x] by (auto simp: IsOK_def)
  have "foldl (\<lambda>a x. Json_Add_json nm (g x) a) (Some (set_name k cJSON_CreateArray)) xs =
        Some (set_children (map (\<lambda>x. the (g x)) xs) (set_name k cJSON_CreateArray))"
    by (subst g, subst foldl_Add_json) simp_all
  then show ?thesis
    by (simp add: read_array_def map_Json_nth comp_def g [symmetric])
qed

lemma map_idI_all [msg_simps]: "(\<And>x. x \<in> set xs \<Longrightarrow> f x = x) \<Longrightarrow> map f xs = xs"
  by (rule map_idI)

lemma at_named [simp]: "Json_at (map_option (set_name nm) j) k = Json_at j k"
  by (cases j) (simp_all add: Json_at_def)

declare list_all_iff [msg_simps]

lemma read_array_ints [ints_intros]:
  "ints_json arr \<Longrightarrow> (\<And>j. ints_json j \<Longrightarrow> P (f j)) \<Longrightarrow> list_all P (read_array f arr)"
  by (auto simp: read_array_def list_all_iff intro: ints_json_nth)

lemma map_c_str [msg_simps]: "\<forall>s\<in>set xs. no_nul s \<Longrightarrow> map c_str xs = xs"
  by (rule map_idI) simp

section \<open>Base classes\<close>

record ProtocolMessage =
  ProtocolMessage_seq :: int
  ProtocolMessage_type :: string

definition ProtocolMessage_To :: "'a ProtocolMessage_scheme \<Rightarrow> Json" where
  "ProtocolMessage_To m =
     (let
         json = Json_CreateObject;
         json = Json_Add_int ''seq'' (ProtocolMessage_seq m) json;
         json = Json_Add_string ''type'' (ProtocolMessage_type m) json
      in json)"

definition ProtocolMessage_From :: "Json \<Rightarrow> 'a ProtocolMessage_scheme \<Rightarrow> 'a ProtocolMessage_scheme" where
  "ProtocolMessage_From json m =
     m \<lparr>ProtocolMessage_seq := d2i (GetNumber (Json_at json ''seq'') (i2d (-1))),
           ProtocolMessage_type := GetString (Json_at json ''type'') []\<rparr>"

definition ints_ProtocolMessage :: "'a ProtocolMessage_scheme \<Rightarrow> bool" where
  "ints_ProtocolMessage m \<longleftrightarrow> is_int32 (ProtocolMessage_seq m)"

definition wire_ProtocolMessage :: "'a ProtocolMessage_scheme \<Rightarrow> bool" where
  "wire_ProtocolMessage m \<longleftrightarrow> ints_ProtocolMessage m \<and>
     no_nul (ProtocolMessage_type m)"

declare ProtocolMessage_To_def [msg_defs] ProtocolMessage_From_def [msg_defs] wire_ProtocolMessage_def [msg_defs] ints_ProtocolMessage_def [msg_defs]

lemma ProtocolMessage_To_object [simp]: "IsObject (ProtocolMessage_To m)"
  by (simp add: ProtocolMessage_To_def Let_def)

lemma ProtocolMessage_To_doc [doc_intros]: "ints_ProtocolMessage m \<Longrightarrow> doc None (ProtocolMessage_To m)"
  by (auto simp: ints_ProtocolMessage_def ProtocolMessage_To_def Let_def list_all_iff intro!: doc_intros)

lemma ProtocolMessage_From_ints [ints_intros]: "ints_json j \<Longrightarrow> ints_ProtocolMessage m \<Longrightarrow> ints_ProtocolMessage (ProtocolMessage_From j m)"
  by (auto simp: ints_ProtocolMessage_def ProtocolMessage_From_def Let_def msg_defs intro!: ints_intros)

lemma ProtocolMessage_From_view [simp]:
  "ProtocolMessage_From (reparsed j) m = ProtocolMessage_From j m"
  "ProtocolMessage_From (map_option (set_name nm) j) m = ProtocolMessage_From j m"
  by (simp_all add: ProtocolMessage_From_def Let_def)

record Request = ProtocolMessage +
  Request_command :: string

definition Request_To :: "'a Request_scheme \<Rightarrow> Json" where
  "Request_To m =
     (let
         json = ProtocolMessage_To m;
         json = Json_Add_string ''command'' (Request_command m) json
      in json)"

definition Request_From :: "Json \<Rightarrow> 'a Request_scheme \<Rightarrow> 'a Request_scheme" where
  "Request_From json m =
     (let m = ProtocolMessage_From json m
      in m \<lparr>Request_command := GetString (Json_at json ''command'') []\<rparr>)"

definition ints_Request :: "'a Request_scheme \<Rightarrow> bool" where
  "ints_Request m \<longleftrightarrow> ints_ProtocolMessage m"

definition wire_Request :: "'a Request_scheme \<Rightarrow> bool" where
  "wire_Request m \<longleftrightarrow> ints_Request m \<and>
     wire_ProtocolMessage m \<and>
     no_nul (Request_command m)"

declare Request_To_def [msg_defs] Request_From_def [msg_defs] wire_Request_def [msg_defs] ints_Request_def [msg_defs]

lemma Request_To_object [simp]: "IsObject (Request_To m)"
  by (simp add: Request_To_def Let_def)

lemma Request_To_doc [doc_intros]: "ints_Request m \<Longrightarrow> doc None (Request_To m)"
  by (auto simp: ints_Request_def Request_To_def Let_def list_all_iff intro!: doc_intros)

lemma Request_From_ints [ints_intros]: "ints_json j \<Longrightarrow> ints_Request m \<Longrightarrow> ints_Request (Request_From j m)"
  by (auto simp: ints_Request_def Request_From_def Let_def msg_defs intro!: ints_intros)

lemma Request_From_view [simp]:
  "Request_From (reparsed j) m = Request_From j m"
  "Request_From (map_option (set_name nm) j) m = Request_From j m"
  by (simp_all add: Request_From_def Let_def)

record Event = ProtocolMessage +
  Event_event :: string

definition Event_To :: "'a Event_scheme \<Rightarrow> Json" where
  "Event_To m =
     (let
         json = ProtocolMessage_To m;
         json = Json_Add_string ''event'' (Event_event m) json
      in json)"

definition Event_From :: "Json \<Rightarrow> 'a Event_scheme \<Rightarrow> 'a Event_scheme" where
  "Event_From json m =
     (let m = ProtocolMessage_From json m
      in m \<lparr>Event_event := GetString (Json_at json ''event'') []\<rparr>)"

definition ints_Event :: "'a Event_scheme \<Rightarrow> bool" where
  "ints_Event m \<longleftrightarrow> ints_ProtocolMessage m"

definition wire_Event :: "'a Event_scheme \<Rightarrow> bool" where
  "wire_Event m \<longleftrightarrow> ints_Event m \<and>
     wire_ProtocolMessage m \<and>
     no_nul (Event_event m)"

declare Event_To_def [msg_defs] Event_From_def [msg_defs] wire_Event_def [msg_defs] ints_Event_def [msg_defs]

lemma Event_To_object [simp]: "IsObject (Event_To m)"
  by (simp add: Event_To_def Let_def)

lemma Event_To_doc [doc_intros]: "ints_Event m \<Longrightarrow> doc None (Event_To m)"
  by (auto simp: ints_Event_def Event_To_def Let_def list_all_iff intro!: doc_intros)

lemma Event_From_ints [ints_intros]: "ints_json j \<Longrightarrow> ints_Event m \<Longrightarrow> ints_Event (Event_From j m)"
  by (auto simp: ints_Event_def Event_From_def Let_def msg_defs intro!: ints_intros)

lemma Event_From_view [simp]:
  "Event_From (reparsed j) m = Event_From j m"
  "Event_From (map_option (set_name nm) j) m = Event_From j m"
  by (simp_all add: Event_From_def Let_def)

record Response = ProtocolMessage +
  Response_request_seq :: int
  Response_success :: bool
  Response_command :: string
  Response_message :: string

definition Response_To :: "'a Response_scheme \<Rightarrow> Json" where
  "Response_To m =
     (let
         json = ProtocolMessage_To m;
         json = Json_Add_int ''request_seq'' (Response_request_seq m) json;
         json = Json_Add_bool ''success'' (Response_success m) json;
         json = Json_Add_string ''message'' (Response_message m) json;
         json = Json_Add_string ''command'' (Response_command m) json
      in json)"

definition Response_From :: "Json \<Rightarrow> 'a Response_scheme \<Rightarrow> 'a Response_scheme" where
  "Response_From json m =
     (let m = ProtocolMessage_From json m
      in m \<lparr>Response_request_seq := GetInteger (Json_at json ''request_seq'') (-1),
           Response_success := GetBool (Json_at json ''success'') False,
           Response_message := GetString (Json_at json ''message'') [],
           Response_command := GetString (Json_at json ''command'') []\<rparr>)"

definition ints_Response :: "'a Response_scheme \<Rightarrow> bool" where
  "ints_Response m \<longleftrightarrow> ints_ProtocolMessage m \<and>
     is_int32 (Response_request_seq m)"

definition wire_Response :: "'a Response_scheme \<Rightarrow> bool" where
  "wire_Response m \<longleftrightarrow> ints_Response m \<and>
     wire_ProtocolMessage m \<and>
     no_nul (Response_command m) \<and>
     no_nul (Response_message m)"

declare Response_To_def [msg_defs] Response_From_def [msg_defs] wire_Response_def [msg_defs] ints_Response_def [msg_defs]

lemma Response_To_object [simp]: "IsObject (Response_To m)"
  by (simp add: Response_To_def Let_def)

lemma Response_To_doc [doc_intros]: "ints_Response m \<Longrightarrow> doc None (Response_To m)"
  by (auto simp: ints_Response_def Response_To_def Let_def list_all_iff intro!: doc_intros)

lemma Response_From_ints [ints_intros]: "ints_json j \<Longrightarrow> ints_Response m \<Longrightarrow> ints_Response (Response_From j m)"
  by (auto simp: ints_Response_def Response_From_def Let_def msg_defs intro!: ints_intros)

lemma Response_From_view [simp]:
  "Response_From (reparsed j) m = Response_From j m"
  "Response_From (map_option (set_name nm) j) m = Response_From j m"
  by (simp_all add: Response_From_def Let_def)

end
