(* ===== verification/Dap_Data.thy ===== *)
theory Dap_Data
  imports Dap_Messages
begin

text \<open>
  The structures inside the messages (\<^verbatim>\<open>Source\<close>, \<^verbatim>\<open>Breakpoint\<close>, \<^verbatim>\<open>StackFrame\<close>, \<^verbatim>\<open>Variable\<close>, the argument
  structures, \<dots>) of \<^verbatim>\<open>dap/dap.hpp\<close> with their \<^verbatim>\<open>To\<close> and \<^verbatim>\<open>From\<close>.  Where \<^verbatim>\<open>From\<close> does not read
  what \<^verbatim>\<open>To\<close> writes, the condition \<open>wire_X\<close> says which values survive.
\<close>

record Source =
  Source_name :: string
  Source_path :: string
  Source_sourceReference :: int

definition new_Source :: Source where
  "new_Source = \<lparr>Source_name = [],
     Source_path = [],
     Source_sourceReference = 0\<rparr>"

definition Source_To :: "Source \<Rightarrow> Json" where
  "Source_To m =
     (let
         json = Json_CreateObject;
         json = Json_Add_string ''name'' (Source_name m) json;
         json = (if Source_path m \<noteq> [] then Json_Add_string ''path'' (Source_path m) json else json);
         json = (if 0 < Source_sourceReference m then Json_Add_int ''sourceReference'' (Source_sourceReference m) json else json)
      in json)"

definition Source_From :: "Json \<Rightarrow> Source \<Rightarrow> Source" where
  "Source_From json m =
     m \<lparr>Source_name := GetString (Json_at json ''name'') [],
           Source_path := GetString (Json_at json ''path'') [],
           Source_sourceReference := d2i (GetNumber (Json_at json ''sourceReference'') (i2d 0))\<rparr>"

definition ints_Source :: "Source \<Rightarrow> bool" where
  "ints_Source m \<longleftrightarrow> is_int32 (Source_sourceReference m)"

definition wire_Source :: "Source \<Rightarrow> bool" where
  "wire_Source m \<longleftrightarrow> ints_Source m \<and>
     no_nul (Source_name m) \<and>
     no_nul (Source_path m) \<and>
     0 \<le> Source_sourceReference m"

lemma Source_To_object [simp]: "IsObject (Source_To m)"
  by (simp add: Source_To_def Let_def)

lemma Source_To_doc [doc_intros]: "ints_Source m \<Longrightarrow> doc None (Source_To m)"
  by (auto simp: ints_Source_def Source_To_def Let_def list_all_iff intro!: doc_intros)

lemma new_Source_ints [simp]: "ints_Source new_Source"
  by (simp add: ints_Source_def new_Source_def msg_defs)

lemma Source_From_ints [ints_intros]: "ints_json j \<Longrightarrow> ints_Source m \<Longrightarrow> ints_Source (Source_From j m)"
  by (auto simp: ints_Source_def Source_From_def Let_def msg_defs intro!: ints_intros)

lemma Source_From_view [simp]:
  "Source_From (reparsed j) m = Source_From j m"
  "Source_From (map_option (set_name nm) j) m = Source_From j m"
  by (simp_all add: Source_From_def Let_def)

lemma Source_roundtrip [msg_roundtrip]: "wire_Source m \<Longrightarrow> Source_From (Source_To m) new_Source = m"
  by (cases m) (auto simp: wire_Source_def ints_Source_def new_Source_def Source_To_def Source_From_def Let_def msg_defs json_simps msg_simps msg_roundtrip)

record StackFrame =
  StackFrame_id :: int
  StackFrame_name :: string
  StackFrame_source :: Source
  StackFrame_line :: int

definition new_StackFrame :: StackFrame where
  "new_StackFrame = \<lparr>StackFrame_id = -1,
     StackFrame_name = [],
     StackFrame_source = new_Source,
     StackFrame_line = 0\<rparr>"

definition StackFrame_To :: "StackFrame \<Rightarrow> Json" where
  "StackFrame_To m =
     (let
         json = Json_CreateObject;
         json = Json_Add_string ''name'' (StackFrame_name m) json;
         json = Json_Add_int ''id'' (StackFrame_id m) json;
         json = Json_Add_int ''line'' (StackFrame_line m) json;
         json = Json_AddObject ''source'' (Source_To (StackFrame_source m)) json
      in json)"

definition StackFrame_From :: "Json \<Rightarrow> StackFrame \<Rightarrow> StackFrame" where
  "StackFrame_From json m =
     m \<lparr>StackFrame_name := GetString (Json_at json ''name'') [],
           StackFrame_id := GetInteger (Json_at json ''id'') (-1),
           StackFrame_line := GetInteger (Json_at json ''line'') (-1),
           StackFrame_source := Source_From (Json_at json ''source'') (StackFrame_source m)\<rparr>"

definition ints_StackFrame :: "StackFrame \<Rightarrow> bool" where
  "ints_StackFrame m \<longleftrightarrow> is_int32 (StackFrame_id m) \<and>
     ints_Source (StackFrame_source m) \<and>
     is_int32 (StackFrame_line m)"

definition wire_StackFrame :: "StackFrame \<Rightarrow> bool" where
  "wire_StackFrame m \<longleftrightarrow> ints_StackFrame m \<and>
     no_nul (StackFrame_name m) \<and>
     wire_Source (StackFrame_source m)"

lemma StackFrame_To_object [simp]: "IsObject (StackFrame_To m)"
  by (simp add: StackFrame_To_def Let_def)

lemma StackFrame_To_doc [doc_intros]: "ints_StackFrame m \<Longrightarrow> doc None (StackFrame_To m)"
  by (auto simp: ints_StackFrame_def StackFrame_To_def Let_def list_all_iff intro!: doc_intros)

lemma new_StackFrame_ints [simp]: "ints_StackFrame new_StackFrame"
  by (simp add: ints_StackFrame_def new_StackFrame_def msg_defs)

lemma StackFrame_From_ints [ints_intros]: "ints_json j \<Longrightarrow> ints_StackFrame m \<Longrightarrow> ints_StackFrame (StackFrame_From j m)"
  by (auto simp: ints_StackFrame_def StackFrame_From_def Let_def msg_defs intro!: ints_intros)

lemma StackFrame_From_view [simp]:
  "StackFrame_From (reparsed j) m = StackFrame_From j m"
  "StackFrame_From (map_option (set_name nm) j) m = StackFrame_From j m"
  by (simp_all add: StackFrame_From_def Let_def)

lemma StackFrame_roundtrip [msg_roundtrip]: "wire_StackFrame m \<Longrightarrow> StackFrame_From (StackFrame_To m) new_StackFrame = m"
  by (cases m) (simp add: wire_StackFrame_def ints_StackFrame_def new_StackFrame_def StackFrame_To_def StackFrame_From_def Let_def msg_defs json_simps msg_simps msg_roundtrip)

record Breakpoint =
  Breakpoint_id :: int
  Breakpoint_verified :: bool
  Breakpoint_message :: string
  Breakpoint_source :: Source
  Breakpoint_line :: int
  Breakpoint_column :: int
  Breakpoint_endLine :: int
  Breakpoint_endColumn :: int

definition new_Breakpoint :: Breakpoint where
  "new_Breakpoint = \<lparr>Breakpoint_id = -1,
     Breakpoint_verified = False,
     Breakpoint_message = [],
     Breakpoint_source = new_Source,
     Breakpoint_line = -1,
     Breakpoint_column = -1,
     Breakpoint_endLine = -1,
     Breakpoint_endColumn = -1\<rparr>"

definition Breakpoint_To :: "Breakpoint \<Rightarrow> Json" where
  "Breakpoint_To m =
     (let
         json = Json_CreateObject;
         json = Json_Add_int ''id'' (Breakpoint_id m) json;
         json = Json_Add_bool ''verified'' (Breakpoint_verified m) json;
         json = Json_Add_string ''message'' (Breakpoint_message m) json;
         json = Json_Add_int ''line'' (Breakpoint_line m) json;
         json = Json_Add_int ''column'' (Breakpoint_column m) json;
         json = Json_Add_int ''endLine'' (Breakpoint_endLine m) json;
         json = Json_Add_int ''endColumn'' (Breakpoint_endColumn m) json;
         json = Json_AddObject ''source'' (Source_To (Breakpoint_source m)) json
      in json)"

definition Breakpoint_From :: "Json \<Rightarrow> Breakpoint \<Rightarrow> Breakpoint" where
  "Breakpoint_From json m =
     m \<lparr>Breakpoint_id := GetInteger (Json_at json ''id'') (-1),
           Breakpoint_verified := GetBool (Json_at json ''verified'') False,
           Breakpoint_message := GetString (Json_at json ''message'') [],
           Breakpoint_line := GetInteger (Json_at json ''line'') (-1),
           Breakpoint_column := GetInteger (Json_at json ''column'') (-1),
           Breakpoint_endLine := GetInteger (Json_at json ''endLine'') (-1),
           Breakpoint_endColumn := GetInteger (Json_at json ''endColumn'') (-1),
           Breakpoint_source := Source_From (Json_at json ''source'') (Breakpoint_source m)\<rparr>"

definition ints_Breakpoint :: "Breakpoint \<Rightarrow> bool" where
  "ints_Breakpoint m \<longleftrightarrow> is_int32 (Breakpoint_id m) \<and>
     ints_Source (Breakpoint_source m) \<and>
     is_int32 (Breakpoint_line m) \<and>
     is_int32 (Breakpoint_column m) \<and>
     is_int32 (Breakpoint_endLine m) \<and>
     is_int32 (Breakpoint_endColumn m)"

definition wire_Breakpoint :: "Breakpoint \<Rightarrow> bool" where
  "wire_Breakpoint m \<longleftrightarrow> ints_Breakpoint m \<and>
     no_nul (Breakpoint_message m) \<and>
     wire_Source (Breakpoint_source m)"

lemma Breakpoint_To_object [simp]: "IsObject (Breakpoint_To m)"
  by (simp add: Breakpoint_To_def Let_def)

lemma Breakpoint_To_doc [doc_intros]: "ints_Breakpoint m \<Longrightarrow> doc None (Breakpoint_To m)"
  by (auto simp: ints_Breakpoint_def Breakpoint_To_def Let_def list_all_iff intro!: doc_intros)

lemma new_Breakpoint_ints [simp]: "ints_Breakpoint new_Breakpoint"
  by (simp add: ints_Breakpoint_def new_Breakpoint_def msg_defs)

lemma Breakpoint_From_ints [ints_intros]: "ints_json j \<Longrightarrow> ints_Breakpoint m \<Longrightarrow> ints_Breakpoint (Breakpoint_From j m)"
  by (auto simp: ints_Breakpoint_def Breakpoint_From_def Let_def msg_defs intro!: ints_intros)

lemma Breakpoint_From_view [simp]:
  "Breakpoint_From (reparsed j) m = Breakpoint_From j m"
  "Breakpoint_From (map_option (set_name nm) j) m = Breakpoint_From j m"
  by (simp_all add: Breakpoint_From_def Let_def)

lemma Breakpoint_roundtrip [msg_roundtrip]: "wire_Breakpoint m \<Longrightarrow> Breakpoint_From (Breakpoint_To m) new_Breakpoint = m"
  by (cases m) (simp add: wire_Breakpoint_def ints_Breakpoint_def new_Breakpoint_def Breakpoint_To_def Breakpoint_From_def Let_def msg_defs json_simps msg_simps msg_roundtrip)

text \<open>\<^verbatim>\<open>Breakpoint::operator==\<close>.\<close>

definition Breakpoint_eq :: "Breakpoint \<Rightarrow> Breakpoint \<Rightarrow> bool" where
  "Breakpoint_eq m other \<longleftrightarrow>
     (Source_path (Breakpoint_source m) \<noteq> [] \<and>
      Source_path (Breakpoint_source m) = Source_path (Breakpoint_source other) \<and>
      Breakpoint_line m = Breakpoint_line other) \<or>
     (Source_name (Breakpoint_source m) \<noteq> [] \<and>
      Source_name (Breakpoint_source m) = Source_name (Breakpoint_source other)) \<or>
     Source_sourceReference (Breakpoint_source m) = Source_sourceReference (Breakpoint_source other)"

record Module =
  Module_id :: string
  Module_name :: string
  Module_path :: string
  Module_isOptimized :: bool
  Module_isUserCode :: bool
  Module_version :: string
  Module_symbolStatus :: string
  Module_symbolFilePath :: string
  Module_dateTimeStamp :: string
  Module_addressRange :: string

definition new_Module :: Module where
  "new_Module = \<lparr>Module_id = [],
     Module_name = [],
     Module_path = [],
     Module_isOptimized = False,
     Module_isUserCode = False,
     Module_version = [],
     Module_symbolStatus = [],
     Module_symbolFilePath = [],
     Module_dateTimeStamp = [],
     Module_addressRange = []\<rparr>"

definition Module_To :: "Module \<Rightarrow> Json" where
  "Module_To m =
     (let
         json = Json_CreateObject;
         json = Json_Add_string ''id'' (Module_id m) json;
         json = Json_Add_string ''name'' (Module_name m) json;
         json = Json_Add_string ''path'' (Module_path m) json;
         json = Json_Add_string ''version'' (Module_version m) json;
         json = Json_Add_string ''symbolStatus'' (Module_symbolStatus m) json;
         json = Json_Add_string ''symbolFilePath'' (Module_symbolFilePath m) json;
         json = Json_Add_string ''dateTimeStamp'' (Module_dateTimeStamp m) json;
         json = Json_Add_string ''addressRange'' (Module_addressRange m) json;
         json = Json_Add_bool ''isOptimized'' (Module_isOptimized m) json;
         json = Json_Add_bool ''isUserCode'' (Module_isUserCode m) json
      in json)"

definition Module_From :: "Json \<Rightarrow> Module \<Rightarrow> Module" where
  "Module_From json m =
     m \<lparr>Module_id := (let nId = d2i (GetNumber (Json_at json ''id'') (i2d wxNOT_FOUND))
             in if nId = wxNOT_FOUND then GetString (Json_at json ''id'') [] else Module_id m @ show_int nId),
           Module_name := GetString (Json_at json ''name'') [],
           Module_path := GetString (Json_at json ''path'') [],
           Module_version := GetString (Json_at json ''version'') [],
           Module_symbolStatus := GetString (Json_at json ''symbolStatus'') [],
           Module_symbolFilePath := GetString (Json_at json ''symbolFilePath'') [],
           Module_dateTimeStamp := GetString (Json_at json ''dateTimeStamp'') [],
           Module_addressRange := GetString (Json_at json ''addressRange'') [],
           Module_isOptimized := GetBool (Json_at json ''isOptimized'') False,
           Module_isUserCode := GetBool (Json_at json ''isUserCode'') False\<rparr>"

definition ints_Module :: "Module \<Rightarrow> bool" where
  "ints_Module m \<longleftrightarrow> True"

definition wire_Module :: "Module \<Rightarrow> bool" where
  "wire_Module m \<longleftrightarrow> ints_Module m \<and>
     no_nul (Module_id m) \<and>
     no_nul (Module_name m) \<and>
     no_nul (Module_path m) \<and>
     no_nul (Module_version m) \<and>
     no_nul (Module_symbolStatus m) \<and>
     no_nul (Module_symbolFilePath m) \<and>
     no_nul (Module_dateTimeStamp m) \<and>
     no_nul (Module_addressRange m)"

lemma Module_To_object [simp]: "IsObject (Module_To m)"
  by (simp add: Module_To_def Let_def)

lemma Module_To_doc [doc_intros]: "ints_Module m \<Longrightarrow> doc None (Module_To m)"
  by (auto simp: ints_Module_def Module_To_def Let_def list_all_iff intro!: doc_intros)

lemma new_Module_ints [simp]: "ints_Module new_Module"
  by (simp add: ints_Module_def new_Module_def msg_defs)

lemma Module_From_ints [ints_intros]: "ints_json j \<Longrightarrow> ints_Module m \<Longrightarrow> ints_Module (Module_From j m)"
  by (auto simp: ints_Module_def Module_From_def Let_def msg_defs intro!: ints_intros)

lemma Module_From_view [simp]:
  "Module_From (reparsed j) m = Module_From j m"
  "Module_From (map_option (set_name nm) j) m = Module_From j m"
  by (simp_all add: Module_From_def Let_def)

lemma Module_roundtrip [msg_roundtrip]: "wire_Module m \<Longrightarrow> Module_From (Module_To m) new_Module = m"
  by (cases m) (simp add: wire_Module_def ints_Module_def new_Module_def Module_To_def Module_From_def Let_def msg_defs json_simps msg_simps msg_roundtrip)

record InitializeRequestArguments =
  InitializeRequestArguments_clientID :: string
  InitializeRequestArguments_clientName :: string
  InitializeRequestArguments_adapterID :: string
  InitializeRequestArguments_locale :: string
  InitializeRequestArguments_linesStartAt1 :: bool
  InitializeRequestArguments_columnsStartAt1 :: bool
  InitializeRequestArguments_supportsInvalidatedEvent :: bool
  InitializeRequestArguments_pathFormat :: string

definition new_InitializeRequestArguments :: InitializeRequestArguments where
  "new_InitializeRequestArguments = \<lparr>InitializeRequestArguments_clientID = [],
     InitializeRequestArguments_clientName = [],
     InitializeRequestArguments_adapterID = [],
     InitializeRequestArguments_locale = ''en-US'',
     InitializeRequestArguments_linesStartAt1 = False,
     InitializeRequestArguments_columnsStartAt1 = False,
     InitializeRequestArguments_supportsInvalidatedEvent = False,
     InitializeRequestArguments_pathFormat = ''path''\<rparr>"

definition InitializeRequestArguments_To :: "InitializeRequestArguments \<Rightarrow> Json" where
  "InitializeRequestArguments_To m =
     (let
         json = Json_CreateObject;
         json = Json_Add_string ''clientID'' (InitializeRequestArguments_clientID m) json;
         json = Json_Add_string ''clientName'' (InitializeRequestArguments_clientName m) json;
         json = Json_Add_string ''adapterID'' (InitializeRequestArguments_adapterID m) json;
         json = Json_Add_string ''locale'' (InitializeRequestArguments_locale m) json;
         json = Json_Add_bool ''linesStartAt1'' (InitializeRequestArguments_linesStartAt1 m) json;
         json = Json_Add_bool ''columnsStartAt1'' (InitializeRequestArguments_columnsStartAt1 m) json;
         json = Json_Add_string ''pathFormat'' (InitializeRequestArguments_pathFormat m) json;
         json = Json_Add_bool ''supportsInvalidatedEvent'' (InitializeRequestArguments_supportsInvalidatedEvent m) json
      in json)"

definition InitializeRequestArguments_From :: "Json \<Rightarrow> InitializeRequestArguments \<Rightarrow> InitializeRequestArguments" where
  "InitializeRequestArguments_From json m =
     m \<lparr>InitializeRequestArguments_clientID := GetString (Json_at json ''clientID'') [],
           InitializeRequestArguments_clientName := GetString (Json_at json ''clientName'') [],
           InitializeRequestArguments_adapterID := GetString (Json_at json ''adapterID'') [],
           InitializeRequestArguments_locale := GetString (Json_at json ''locale'') [],
           InitializeRequestArguments_linesStartAt1 := GetBool (Json_at json ''linesStartAt1'') False,
           InitializeRequestArguments_columnsStartAt1 := GetBool (Json_at json ''columnsStartAt1'') False,
           InitializeRequestArguments_pathFormat := GetString (Json_at json ''pathFormat'') [],
           InitializeRequestArguments_supportsInvalidatedEvent := GetBool (Json_at json ''supportsInvalidatedEvent'') False\<rparr>"

definition ints_InitializeRequestArguments :: "InitializeRequestArguments \<Rightarrow> bool" where
  "ints_InitializeRequestArguments m \<longleftrightarrow> True"

definition wire_InitializeRequestArguments :: "InitializeRequestArguments \<Rightarrow> bool" where
  "wire_InitializeRequestArguments m \<longleftrightarrow> ints_InitializeRequestArguments m \<and>
     no_nul (InitializeRequestArguments_clientID m) \<and>
     no_nul (InitializeRequestArguments_clientName m) \<and>
     no_nul (InitializeRequestArguments_adapterID m) \<and>
     no_nul (InitializeRequestArguments_locale m) \<and>
     no_nul (InitializeRequestArguments_pathFormat m)"

lemma InitializeRequestArguments_To_object [simp]: "IsObject (InitializeRequestArguments_To m)"
  by (simp add: InitializeRequestArguments_To_def Let_def)

lemma InitializeRequestArguments_To_doc [doc_intros]: "ints_InitializeRequestArguments m \<Longrightarrow> doc None (InitializeRequestArguments_To m)"
  by (auto simp: ints_InitializeRequestArguments_def InitializeRequestArguments_To_def Let_def list_all_iff intro!: doc_intros)

lemma new_InitializeRequestArguments_ints [simp]: "ints_InitializeRequestArguments new_InitializeRequestArguments"
  by (simp add: ints_InitializeRequestArguments_def new_InitializeRequestArguments_def msg_defs)

lemma InitializeRequestArguments_From_ints [ints_intros]: "ints_json j \<Longrightarrow> ints_InitializeRequestArguments m \<Longrightarrow> ints_InitializeRequestArguments (InitializeRequestArguments_From j m)"
  by (auto simp: ints_InitializeRequestArguments_def InitializeRequestArguments_From_def Let_def msg_defs intro!: ints_intros)

lemma InitializeRequestArguments_From_view [simp]:
  "InitializeRequestArguments_From (reparsed j) m = InitializeRequestArguments_From j m"
  "InitializeRequestArguments_From (map_option (set_name nm) j) m = InitializeRequestArguments_From j m"
  by (simp_all add: InitializeRequestArguments_From_def Let_def)

lemma InitializeRequestArguments_roundtrip [msg_roundtrip]: "wire_InitializeRequestArguments m \<Longrightarrow> InitializeRequestArguments_From (InitializeRequestArguments_To m) new_InitializeRequestArguments = m"
  by (cases m) (simp add: wire_InitializeRequestArguments_def ints_InitializeRequestArguments_def new_InitializeRequestArguments_def InitializeRequestArguments_To_def InitializeRequestArguments_From_def Let_def msg_defs json_simps msg_simps msg_roundtrip)

text \<open>
  \<^verbatim>\<open>Environment\<close>: the variables in the iteration order of the \<^verbatim>\<open>unordered_map\<close>.  \<^verbatim>\<open>From\<close> accepts
  only the list format, and never changes \<^verbatim>\<open>format\<close>.
\<close>

datatype EnvFormat = DICTIONARY | ENV_LIST | ENV_NONE

record Environment =
  Environment_format :: EnvFormat
  Environment_vars :: "(string \<times> string) list"

definition new_Environment :: Environment where
  "new_Environment = \<lparr>Environment_format = DICTIONARY, Environment_vars = []\<rparr>"

definition Environment_To :: "Environment \<Rightarrow> Json" where
  "Environment_To m =
     (case Environment_format m of
        DICTIONARY \<Rightarrow> foldl (\<lambda>d (k, v). Json_Add_string k v d) Json_CreateObject (Environment_vars m)
      | ENV_LIST \<Rightarrow> foldl (\<lambda>a (k, v). Json_Add_string [] (k @ ''='' @ v) a) Json_CreateArray (Environment_vars m)
      | ENV_NONE \<Rightarrow> None)"

definition insert_var :: "(string \<times> string) list \<Rightarrow> string \<Rightarrow> (string \<times> string) list" where
  "insert_var vars str =
     (if CHR ''='' \<notin> set str then vars
      else let key = BeforeFirst str (CHR ''=''); value = AfterFirst str (CHR ''='')
           in if key \<in> fst ` set vars then vars else vars @ [(key, value)])"

definition Environment_From :: "Json \<Rightarrow> Environment \<Rightarrow> Environment" where
  "Environment_From json m =
     (if \<not> IsOK json \<or> \<not> IsArray json then m \<lparr>Environment_vars := []\<rparr>
      else m \<lparr>Environment_vars := foldl insert_var [] (read_array (\<lambda>j. GetString j []) json)\<rparr>)"

definition wire_Environment :: "Environment \<Rightarrow> bool" where
  "wire_Environment m \<longleftrightarrow> Environment_format m = DICTIONARY \<and> Environment_vars m = []"

lemma Environment_To_doc [doc_intros]: "IsOK (Environment_To m) \<Longrightarrow> doc None (Environment_To m)"
  by (auto simp: Environment_To_def IsOK_def split: EnvFormat.splits intro!: doc_intros)

lemma Environment_From_view [simp]:
  "Environment_From (reparsed j) m = Environment_From j m"
  "Environment_From (map_option (set_name nm) j) m = Environment_From j m"
proof -
  have "IsOK (map_option (set_name nm) j) = IsOK j" "IsArray (map_option (set_name nm) j) = IsArray j"
    "read_array f (map_option (set_name nm) j) = read_array f j" for f :: "Json \<Rightarrow> string"
    by (cases j; simp add: IsOK_def IsArray_def has_type_def read_array_def GetCount_def Json_nth_def)+
  then show "Environment_From (map_option (set_name nm) j) m = Environment_From j m"
    by (simp add: Environment_From_def)
qed (simp add: Environment_From_def)

lemma Environment_roundtrip [msg_roundtrip]:
  "wire_Environment m \<Longrightarrow> Environment_From (Environment_To m) new_Environment = m"
  by (cases m) (simp add: wire_Environment_def new_Environment_def Environment_From_def Environment_To_def
    IsArray_def has_type_def Json_CreateObject_def)

lemma wire_Environment_OK [msg_simps]: "wire_Environment m \<Longrightarrow> IsOK (Environment_To m)"
  by (simp add: wire_Environment_def Environment_To_def IsOK_def Json_CreateObject_def)

text \<open>The variables survive in the list format when the names are distinct and hold no equals sign.\<close>

lemma insert_var_text:
  "CHR ''='' \<notin> set k \<Longrightarrow> k \<notin> fst ` set vars \<Longrightarrow> insert_var vars (k @ ''='' @ v) = vars @ [(k, v)]"
proof -
  assume k: "CHR ''='' \<notin> set k" "k \<notin> fst ` set vars"
  have "takeWhile (\<lambda>c. c \<noteq> CHR ''='') (k @ ''='' @ v) = k" "dropWhile (\<lambda>c. c \<noteq> CHR ''='') (k @ ''='' @ v) = ''='' @ v"
    using k by (auto intro: takeWhile_append_stop dropWhile_append_stop)
  with k(2) show ?thesis by (simp add: insert_var_def BeforeFirst_def AfterFirst_def)
qed

lemma foldl_insert_var:
  "distinct (map fst (vars @ xs)) \<Longrightarrow> \<forall>(k, v)\<in>set xs. CHR ''='' \<notin> set k \<Longrightarrow>
     foldl insert_var vars (map (\<lambda>(k, v). k @ ''='' @ v) xs) = vars @ xs"
proof (induction xs arbitrary: vars)
  case (Cons x xs)
  obtain k v where x: "x = (k, v)" by force
  then have "insert_var vars (k @ ''='' @ v) = vars @ [(k, v)]"
    using Cons.prems by (intro insert_var_text) auto
  with Cons x show ?case by simp
qed simp

lemma Environment_list_roundtrip:
  assumes "Environment_format e = ENV_LIST" "distinct (map fst (Environment_vars e))"
    "\<forall>(k, v)\<in>set (Environment_vars e). CHR ''='' \<notin> set k \<and> no_nul k \<and> no_nul v"
  shows "Environment_vars (Environment_From (Environment_To e) m) = Environment_vars e"
proof -
  let ?vs = "Environment_vars e"
  let ?text = "\<lambda>(k, v). k @ ''='' @ v"
  have "foldl (\<lambda>a s. Json_Add_string [] s a) Json_CreateArray (map ?text ?vs) = Environment_To e"
    using assms(1) by (simp add: Environment_To_def foldl_map case_prod_unfold)
  then have to: "Environment_To e = Some (set_children (map cJSON_CreateString (map ?text ?vs)) cJSON_CreateArray)"
    using foldl_Add_string [of cJSON_CreateArray "[]" "map ?text ?vs"] by (simp add: Json_CreateArray_def)
  have nn: "no_nul (?text x)" if "x \<in> set ?vs" for x using assms(3) that by (auto simp: NUL_def)
  have "read_array (\<lambda>j. GetString j []) (Environment_To e) = map ?text ?vs"
    using nn unfolding to read_array_def map_Json_nth [where f = "\<lambda>j. GetString j []"]
    by (auto simp: GetString_def cJSON_CreateString_def)
  moreover have "IsOK (Environment_To e)" "IsArray (Environment_To e)"
    by (simp_all add: to IsOK_def IsArray_def has_type_def)
  moreover have "foldl insert_var [] (map ?text ?vs) = ?vs"
    using assms by (subst foldl_insert_var) auto
  ultimately show ?thesis by (simp add: Environment_From_def)
qed

record LaunchRequestArguments =
  LaunchRequestArguments_noDebug :: bool
  LaunchRequestArguments_program :: string
  LaunchRequestArguments_args :: "string list"
  LaunchRequestArguments_cwd :: string
  LaunchRequestArguments_env :: Environment
  LaunchRequestArguments_stopAtBeginningOfMainSubprogram :: bool

definition new_LaunchRequestArguments :: LaunchRequestArguments where
  "new_LaunchRequestArguments = \<lparr>LaunchRequestArguments_noDebug = False,
     LaunchRequestArguments_program = [],
     LaunchRequestArguments_args = [],
     LaunchRequestArguments_cwd = [],
     LaunchRequestArguments_env = new_Environment,
     LaunchRequestArguments_stopAtBeginningOfMainSubprogram = True\<rparr>"

definition LaunchRequestArguments_To :: "LaunchRequestArguments \<Rightarrow> Json" where
  "LaunchRequestArguments_To m =
     (let
         json = Json_CreateObject;
         json = Json_Add_bool ''noDebug'' (LaunchRequestArguments_noDebug m) json;
         json = Json_Add_string ''program'' (LaunchRequestArguments_program m) json;
         json = Json_Add_strings ''args'' (LaunchRequestArguments_args m) json;
         json = Json_Add_string ''cwd'' (LaunchRequestArguments_cwd m) json;
         json = Json_Add_bool ''stopAtBeginningOfMainSubprogram'' (LaunchRequestArguments_stopAtBeginningOfMainSubprogram m) json;
         env_obj = Environment_To (LaunchRequestArguments_env m);
         json = (if IsOK env_obj then Json_Add_json ''env'' (Environment_To (LaunchRequestArguments_env m)) json else json)
      in json)"

definition LaunchRequestArguments_From :: "Json \<Rightarrow> LaunchRequestArguments \<Rightarrow> LaunchRequestArguments" where
  "LaunchRequestArguments_From json m =
     m \<lparr>LaunchRequestArguments_noDebug := GetBool (Json_at json ''noDebug'') False,
           LaunchRequestArguments_program := GetString (Json_at json ''program'') [],
           LaunchRequestArguments_args := GetStringArray (Json_at json ''args''),
           LaunchRequestArguments_cwd := GetString (Json_at json ''cwd'') [],
           LaunchRequestArguments_stopAtBeginningOfMainSubprogram := GetBool (Json_at json ''stopAtBeginningOfMainSubprogram'') False,
           LaunchRequestArguments_env := Environment_From (Json_at json ''env'') (LaunchRequestArguments_env m)\<rparr>"

definition ints_LaunchRequestArguments :: "LaunchRequestArguments \<Rightarrow> bool" where
  "ints_LaunchRequestArguments m \<longleftrightarrow> True"

definition wire_LaunchRequestArguments :: "LaunchRequestArguments \<Rightarrow> bool" where
  "wire_LaunchRequestArguments m \<longleftrightarrow> ints_LaunchRequestArguments m \<and>
     no_nul (LaunchRequestArguments_program m) \<and>
     list_all no_nul (LaunchRequestArguments_args m) \<and>
     no_nul (LaunchRequestArguments_cwd m) \<and>
     wire_Environment (LaunchRequestArguments_env m)"

lemma LaunchRequestArguments_To_object [simp]: "IsObject (LaunchRequestArguments_To m)"
  by (simp add: LaunchRequestArguments_To_def Let_def)

lemma LaunchRequestArguments_To_doc [doc_intros]: "ints_LaunchRequestArguments m \<Longrightarrow> doc None (LaunchRequestArguments_To m)"
  by (auto simp: ints_LaunchRequestArguments_def LaunchRequestArguments_To_def Let_def list_all_iff intro!: doc_intros)

lemma new_LaunchRequestArguments_ints [simp]: "ints_LaunchRequestArguments new_LaunchRequestArguments"
  by (simp add: ints_LaunchRequestArguments_def new_LaunchRequestArguments_def msg_defs)

lemma LaunchRequestArguments_From_ints [ints_intros]: "ints_json j \<Longrightarrow> ints_LaunchRequestArguments m \<Longrightarrow> ints_LaunchRequestArguments (LaunchRequestArguments_From j m)"
  by (auto simp: ints_LaunchRequestArguments_def LaunchRequestArguments_From_def Let_def msg_defs intro!: ints_intros)

lemma LaunchRequestArguments_From_view [simp]:
  "LaunchRequestArguments_From (reparsed j) m = LaunchRequestArguments_From j m"
  "LaunchRequestArguments_From (map_option (set_name nm) j) m = LaunchRequestArguments_From j m"
  by (simp_all add: LaunchRequestArguments_From_def Let_def)

lemma LaunchRequestArguments_roundtrip [msg_roundtrip]: "wire_LaunchRequestArguments m \<Longrightarrow> LaunchRequestArguments_From (LaunchRequestArguments_To m) new_LaunchRequestArguments = m"
  by (cases m) (simp add: wire_LaunchRequestArguments_def ints_LaunchRequestArguments_def new_LaunchRequestArguments_def LaunchRequestArguments_To_def LaunchRequestArguments_From_def Let_def msg_defs json_simps msg_simps msg_roundtrip)

record AttachRequestArguments =
  AttachRequestArguments_pid :: int
  AttachRequestArguments_arguments :: "string list"

definition new_AttachRequestArguments :: AttachRequestArguments where
  "new_AttachRequestArguments = \<lparr>AttachRequestArguments_pid = wxNOT_FOUND,
     AttachRequestArguments_arguments = []\<rparr>"

definition AttachRequestArguments_To :: "AttachRequestArguments \<Rightarrow> Json" where
  "AttachRequestArguments_To m =
     (let
         json = Json_CreateObject;
         json = Json_Add_strings ''arguments'' (AttachRequestArguments_arguments m) json;
         json = Json_Add_int ''pid'' (AttachRequestArguments_pid m) json;
         json = Json_Add_bool ''redirectOutput'' True json;
         json = Json_AddArray ''debugOptions''
           (\<lambda>a. Json_Add_string [] ''ShowReturnValue'' (Json_Add_string [] ''RedirectOutput'' a)) json
      in json)"

definition AttachRequestArguments_From :: "Json \<Rightarrow> AttachRequestArguments \<Rightarrow> AttachRequestArguments" where
  "AttachRequestArguments_From json m =
     m \<lparr>AttachRequestArguments_arguments := GetStringArray (Json_at json ''arguments''),
           AttachRequestArguments_pid := GetInteger (Json_at json ''pid'') (-1)\<rparr>"

definition ints_AttachRequestArguments :: "AttachRequestArguments \<Rightarrow> bool" where
  "ints_AttachRequestArguments m \<longleftrightarrow> is_int32 (AttachRequestArguments_pid m)"

definition wire_AttachRequestArguments :: "AttachRequestArguments \<Rightarrow> bool" where
  "wire_AttachRequestArguments m \<longleftrightarrow> ints_AttachRequestArguments m \<and>
     list_all no_nul (AttachRequestArguments_arguments m)"

lemma AttachRequestArguments_To_object [simp]: "IsObject (AttachRequestArguments_To m)"
  by (simp add: AttachRequestArguments_To_def Let_def)

lemma AttachRequestArguments_To_doc [doc_intros]: "ints_AttachRequestArguments m \<Longrightarrow> doc None (AttachRequestArguments_To m)"
  by (auto simp: ints_AttachRequestArguments_def AttachRequestArguments_To_def Let_def list_all_iff intro!: doc_intros)

lemma new_AttachRequestArguments_ints [simp]: "ints_AttachRequestArguments new_AttachRequestArguments"
  by (simp add: ints_AttachRequestArguments_def new_AttachRequestArguments_def msg_defs)

lemma AttachRequestArguments_From_ints [ints_intros]: "ints_json j \<Longrightarrow> ints_AttachRequestArguments m \<Longrightarrow> ints_AttachRequestArguments (AttachRequestArguments_From j m)"
  by (auto simp: ints_AttachRequestArguments_def AttachRequestArguments_From_def Let_def msg_defs intro!: ints_intros)

lemma AttachRequestArguments_From_view [simp]:
  "AttachRequestArguments_From (reparsed j) m = AttachRequestArguments_From j m"
  "AttachRequestArguments_From (map_option (set_name nm) j) m = AttachRequestArguments_From j m"
  by (simp_all add: AttachRequestArguments_From_def Let_def)

lemma AttachRequestArguments_roundtrip [msg_roundtrip]: "wire_AttachRequestArguments m \<Longrightarrow> AttachRequestArguments_From (AttachRequestArguments_To m) new_AttachRequestArguments = m"
  by (cases m) (simp add: wire_AttachRequestArguments_def ints_AttachRequestArguments_def new_AttachRequestArguments_def AttachRequestArguments_To_def AttachRequestArguments_From_def Let_def msg_defs json_simps msg_simps msg_roundtrip)

record BreakpointLocationsArguments =
  BreakpointLocationsArguments_source :: Source
  BreakpointLocationsArguments_line :: int
  BreakpointLocationsArguments_column :: int
  BreakpointLocationsArguments_endLine :: int
  BreakpointLocationsArguments_endColumn :: int

definition new_BreakpointLocationsArguments :: BreakpointLocationsArguments where
  "new_BreakpointLocationsArguments = \<lparr>BreakpointLocationsArguments_source = new_Source,
     BreakpointLocationsArguments_line = -1,
     BreakpointLocationsArguments_column = -1,
     BreakpointLocationsArguments_endLine = -1,
     BreakpointLocationsArguments_endColumn = -1\<rparr>"

definition BreakpointLocationsArguments_To :: "BreakpointLocationsArguments \<Rightarrow> Json" where
  "BreakpointLocationsArguments_To m =
     (let
         json = Json_CreateObject;
         json = Json_Add_json ''source'' (Source_To (BreakpointLocationsArguments_source m)) json;
         json = Json_Add_int ''line'' (BreakpointLocationsArguments_line m) json;
         json = Json_Add_int ''column'' (BreakpointLocationsArguments_column m) json;
         json = Json_Add_int ''endLine'' (BreakpointLocationsArguments_endLine m) json;
         json = Json_Add_int ''endColumn'' (BreakpointLocationsArguments_endColumn m) json
      in json)"

definition BreakpointLocationsArguments_From :: "Json \<Rightarrow> BreakpointLocationsArguments \<Rightarrow> BreakpointLocationsArguments" where
  "BreakpointLocationsArguments_From json m =
     m \<lparr>BreakpointLocationsArguments_source := Source_From (Json_at json ''source'') (BreakpointLocationsArguments_source m),
           BreakpointLocationsArguments_line := GetInteger (Json_at json ''restart'') (BreakpointLocationsArguments_line m),
           BreakpointLocationsArguments_column := GetInteger (Json_at json ''column'') (BreakpointLocationsArguments_column m),
           BreakpointLocationsArguments_endColumn := GetInteger (Json_at json ''endColumn'') (BreakpointLocationsArguments_endColumn m)\<rparr>"

definition ints_BreakpointLocationsArguments :: "BreakpointLocationsArguments \<Rightarrow> bool" where
  "ints_BreakpointLocationsArguments m \<longleftrightarrow> ints_Source (BreakpointLocationsArguments_source m) \<and>
     is_int32 (BreakpointLocationsArguments_line m) \<and>
     is_int32 (BreakpointLocationsArguments_column m) \<and>
     is_int32 (BreakpointLocationsArguments_endLine m) \<and>
     is_int32 (BreakpointLocationsArguments_endColumn m)"

definition wire_BreakpointLocationsArguments :: "BreakpointLocationsArguments \<Rightarrow> bool" where
  "wire_BreakpointLocationsArguments m \<longleftrightarrow> ints_BreakpointLocationsArguments m \<and>
     wire_Source (BreakpointLocationsArguments_source m) \<and>
     BreakpointLocationsArguments_line m = -1 \<and>
     BreakpointLocationsArguments_endLine m = -1"

lemma BreakpointLocationsArguments_To_object [simp]: "IsObject (BreakpointLocationsArguments_To m)"
  by (simp add: BreakpointLocationsArguments_To_def Let_def)

lemma BreakpointLocationsArguments_To_doc [doc_intros]: "ints_BreakpointLocationsArguments m \<Longrightarrow> doc None (BreakpointLocationsArguments_To m)"
  by (auto simp: ints_BreakpointLocationsArguments_def BreakpointLocationsArguments_To_def Let_def list_all_iff intro!: doc_intros)

lemma new_BreakpointLocationsArguments_ints [simp]: "ints_BreakpointLocationsArguments new_BreakpointLocationsArguments"
  by (simp add: ints_BreakpointLocationsArguments_def new_BreakpointLocationsArguments_def msg_defs)

lemma BreakpointLocationsArguments_From_ints [ints_intros]: "ints_json j \<Longrightarrow> ints_BreakpointLocationsArguments m \<Longrightarrow> ints_BreakpointLocationsArguments (BreakpointLocationsArguments_From j m)"
  by (auto simp: ints_BreakpointLocationsArguments_def BreakpointLocationsArguments_From_def Let_def msg_defs intro!: ints_intros)

lemma BreakpointLocationsArguments_From_view [simp]:
  "BreakpointLocationsArguments_From (reparsed j) m = BreakpointLocationsArguments_From j m"
  "BreakpointLocationsArguments_From (map_option (set_name nm) j) m = BreakpointLocationsArguments_From j m"
  by (simp_all add: BreakpointLocationsArguments_From_def Let_def)

lemma BreakpointLocationsArguments_roundtrip [msg_roundtrip]: "wire_BreakpointLocationsArguments m \<Longrightarrow> BreakpointLocationsArguments_From (BreakpointLocationsArguments_To m) new_BreakpointLocationsArguments = m"
  by (cases m) (simp add: wire_BreakpointLocationsArguments_def ints_BreakpointLocationsArguments_def new_BreakpointLocationsArguments_def BreakpointLocationsArguments_To_def BreakpointLocationsArguments_From_def Let_def msg_defs json_simps msg_simps msg_roundtrip)

record StepArguments =
  StepArguments_threadId :: int
  StepArguments_singleThread :: bool
  StepArguments_granularity :: string

definition new_StepArguments :: StepArguments where
  "new_StepArguments = \<lparr>StepArguments_threadId = wxNOT_FOUND,
     StepArguments_singleThread = True,
     StepArguments_granularity = ''line''\<rparr>"

definition StepArguments_To :: "StepArguments \<Rightarrow> Json" where
  "StepArguments_To m =
     (let
         json = Json_CreateObject;
         json = Json_Add_int ''threadId'' (StepArguments_threadId m) json;
         json = Json_Add_bool ''singleThread'' (StepArguments_singleThread m) json;
         json = Json_Add_string ''granularity'' (StepArguments_granularity m) json
      in json)"

definition StepArguments_From :: "Json \<Rightarrow> StepArguments \<Rightarrow> StepArguments" where
  "StepArguments_From json m =
     m \<lparr>StepArguments_threadId := GetInteger (Json_at json ''threadId'') wxNOT_FOUND,
           StepArguments_singleThread := GetBool (Json_at json ''singleThread'') (StepArguments_singleThread m),
           StepArguments_granularity := GetString (Json_at json ''granularity'') (StepArguments_granularity m)\<rparr>"

definition ints_StepArguments :: "StepArguments \<Rightarrow> bool" where
  "ints_StepArguments m \<longleftrightarrow> is_int32 (StepArguments_threadId m)"

definition wire_StepArguments :: "StepArguments \<Rightarrow> bool" where
  "wire_StepArguments m \<longleftrightarrow> ints_StepArguments m \<and>
     no_nul (StepArguments_granularity m) \<and>
     StepArguments_singleThread m"

lemma StepArguments_To_object [simp]: "IsObject (StepArguments_To m)"
  by (simp add: StepArguments_To_def Let_def)

lemma StepArguments_To_doc [doc_intros]: "ints_StepArguments m \<Longrightarrow> doc None (StepArguments_To m)"
  by (auto simp: ints_StepArguments_def StepArguments_To_def Let_def list_all_iff intro!: doc_intros)

lemma new_StepArguments_ints [simp]: "ints_StepArguments new_StepArguments"
  by (simp add: ints_StepArguments_def new_StepArguments_def msg_defs)

lemma StepArguments_From_ints [ints_intros]: "ints_json j \<Longrightarrow> ints_StepArguments m \<Longrightarrow> ints_StepArguments (StepArguments_From j m)"
  by (auto simp: ints_StepArguments_def StepArguments_From_def Let_def msg_defs intro!: ints_intros)

lemma StepArguments_From_view [simp]:
  "StepArguments_From (reparsed j) m = StepArguments_From j m"
  "StepArguments_From (map_option (set_name nm) j) m = StepArguments_From j m"
  by (simp_all add: StepArguments_From_def Let_def)

lemma StepArguments_roundtrip [msg_roundtrip]: "wire_StepArguments m \<Longrightarrow> StepArguments_From (StepArguments_To m) new_StepArguments = m"
  by (cases m) (simp add: wire_StepArguments_def ints_StepArguments_def new_StepArguments_def StepArguments_To_def StepArguments_From_def Let_def msg_defs json_simps msg_simps msg_roundtrip)

record BreakpointLocation =
  BreakpointLocation_line :: int
  BreakpointLocation_column :: int
  BreakpointLocation_endLine :: int
  BreakpointLocation_endColumn :: int

definition new_BreakpointLocation :: BreakpointLocation where
  "new_BreakpointLocation = \<lparr>BreakpointLocation_line = -1,
     BreakpointLocation_column = -1,
     BreakpointLocation_endLine = -1,
     BreakpointLocation_endColumn = -1\<rparr>"

definition BreakpointLocation_To :: "BreakpointLocation \<Rightarrow> Json" where
  "BreakpointLocation_To m =
     (let
         json = Json_CreateObject;
         json = Json_Add_int ''line'' (BreakpointLocation_line m) json;
         json = Json_Add_int ''column'' (BreakpointLocation_column m) json;
         json = Json_Add_int ''endLine'' (BreakpointLocation_endLine m) json;
         json = Json_Add_int ''endColumn'' (BreakpointLocation_endColumn m) json
      in json)"

definition BreakpointLocation_From :: "Json \<Rightarrow> BreakpointLocation \<Rightarrow> BreakpointLocation" where
  "BreakpointLocation_From json m =
     m \<lparr>BreakpointLocation_line := GetInteger (Json_at json ''restart'') (BreakpointLocation_line m),
           BreakpointLocation_column := GetInteger (Json_at json ''column'') (BreakpointLocation_column m),
           BreakpointLocation_endColumn := GetInteger (Json_at json ''endColumn'') (BreakpointLocation_endColumn m)\<rparr>"

definition ints_BreakpointLocation :: "BreakpointLocation \<Rightarrow> bool" where
  "ints_BreakpointLocation m \<longleftrightarrow> is_int32 (BreakpointLocation_line m) \<and>
     is_int32 (BreakpointLocation_column m) \<and>
     is_int32 (BreakpointLocation_endLine m) \<and>
     is_int32 (BreakpointLocation_endColumn m)"

definition wire_BreakpointLocation :: "BreakpointLocation \<Rightarrow> bool" where
  "wire_BreakpointLocation m \<longleftrightarrow> ints_BreakpointLocation m \<and>
     BreakpointLocation_line m = -1 \<and>
     BreakpointLocation_endLine m = -1"

lemma BreakpointLocation_To_object [simp]: "IsObject (BreakpointLocation_To m)"
  by (simp add: BreakpointLocation_To_def Let_def)

lemma BreakpointLocation_To_doc [doc_intros]: "ints_BreakpointLocation m \<Longrightarrow> doc None (BreakpointLocation_To m)"
  by (auto simp: ints_BreakpointLocation_def BreakpointLocation_To_def Let_def list_all_iff intro!: doc_intros)

lemma new_BreakpointLocation_ints [simp]: "ints_BreakpointLocation new_BreakpointLocation"
  by (simp add: ints_BreakpointLocation_def new_BreakpointLocation_def msg_defs)

lemma BreakpointLocation_From_ints [ints_intros]: "ints_json j \<Longrightarrow> ints_BreakpointLocation m \<Longrightarrow> ints_BreakpointLocation (BreakpointLocation_From j m)"
  by (auto simp: ints_BreakpointLocation_def BreakpointLocation_From_def Let_def msg_defs intro!: ints_intros)

lemma BreakpointLocation_From_view [simp]:
  "BreakpointLocation_From (reparsed j) m = BreakpointLocation_From j m"
  "BreakpointLocation_From (map_option (set_name nm) j) m = BreakpointLocation_From j m"
  by (simp_all add: BreakpointLocation_From_def Let_def)

lemma BreakpointLocation_roundtrip [msg_roundtrip]: "wire_BreakpointLocation m \<Longrightarrow> BreakpointLocation_From (BreakpointLocation_To m) new_BreakpointLocation = m"
  by (cases m) (simp add: wire_BreakpointLocation_def ints_BreakpointLocation_def new_BreakpointLocation_def BreakpointLocation_To_def BreakpointLocation_From_def Let_def msg_defs json_simps msg_simps msg_roundtrip)

record Thread =
  Thread_id :: int
  Thread_name :: string

definition new_Thread :: Thread where
  "new_Thread = \<lparr>Thread_id = -1,
     Thread_name = []\<rparr>"

definition Thread_To :: "Thread \<Rightarrow> Json" where
  "Thread_To m =
     (let
         json = Json_CreateObject;
         json = Json_Add_int ''id'' (Thread_id m) json;
         json = Json_Add_string ''name'' (Thread_name m) json
      in json)"

definition Thread_From :: "Json \<Rightarrow> Thread \<Rightarrow> Thread" where
  "Thread_From json m =
     m \<lparr>Thread_id := GetInteger (Json_at json ''id'') (Thread_id m),
           Thread_name := GetString (Json_at json ''name'') []\<rparr>"

definition ints_Thread :: "Thread \<Rightarrow> bool" where
  "ints_Thread m \<longleftrightarrow> is_int32 (Thread_id m)"

definition wire_Thread :: "Thread \<Rightarrow> bool" where
  "wire_Thread m \<longleftrightarrow> ints_Thread m \<and>
     no_nul (Thread_name m)"

lemma Thread_To_object [simp]: "IsObject (Thread_To m)"
  by (simp add: Thread_To_def Let_def)

lemma Thread_To_doc [doc_intros]: "ints_Thread m \<Longrightarrow> doc None (Thread_To m)"
  by (auto simp: ints_Thread_def Thread_To_def Let_def list_all_iff intro!: doc_intros)

lemma new_Thread_ints [simp]: "ints_Thread new_Thread"
  by (simp add: ints_Thread_def new_Thread_def msg_defs)

lemma Thread_From_ints [ints_intros]: "ints_json j \<Longrightarrow> ints_Thread m \<Longrightarrow> ints_Thread (Thread_From j m)"
  by (auto simp: ints_Thread_def Thread_From_def Let_def msg_defs intro!: ints_intros)

lemma Thread_From_view [simp]:
  "Thread_From (reparsed j) m = Thread_From j m"
  "Thread_From (map_option (set_name nm) j) m = Thread_From j m"
  by (simp_all add: Thread_From_def Let_def)

lemma Thread_roundtrip [msg_roundtrip]: "wire_Thread m \<Longrightarrow> Thread_From (Thread_To m) new_Thread = m"
  by (cases m) (simp add: wire_Thread_def ints_Thread_def new_Thread_def Thread_To_def Thread_From_def Let_def msg_defs json_simps msg_simps msg_roundtrip)

record SourceBreakpoint =
  SourceBreakpoint_line :: int
  SourceBreakpoint_condition :: string

definition new_SourceBreakpoint :: SourceBreakpoint where
  "new_SourceBreakpoint = \<lparr>SourceBreakpoint_line = -1,
     SourceBreakpoint_condition = []\<rparr>"

definition SourceBreakpoint_To :: "SourceBreakpoint \<Rightarrow> Json" where
  "SourceBreakpoint_To m =
     (let
         json = Json_CreateObject;
         json = Json_Add_int ''line'' (SourceBreakpoint_line m) json;
         json = Json_Add_string ''condition'' (SourceBreakpoint_condition m) json
      in json)"

definition SourceBreakpoint_From :: "Json \<Rightarrow> SourceBreakpoint \<Rightarrow> SourceBreakpoint" where
  "SourceBreakpoint_From json m =
     m \<lparr>SourceBreakpoint_line := GetInteger (Json_at json ''line'') (SourceBreakpoint_line m),
           SourceBreakpoint_condition := GetString (Json_at json ''condition'') (SourceBreakpoint_condition m)\<rparr>"

definition ints_SourceBreakpoint :: "SourceBreakpoint \<Rightarrow> bool" where
  "ints_SourceBreakpoint m \<longleftrightarrow> is_int32 (SourceBreakpoint_line m)"

definition wire_SourceBreakpoint :: "SourceBreakpoint \<Rightarrow> bool" where
  "wire_SourceBreakpoint m \<longleftrightarrow> ints_SourceBreakpoint m \<and>
     no_nul (SourceBreakpoint_condition m)"

lemma SourceBreakpoint_To_object [simp]: "IsObject (SourceBreakpoint_To m)"
  by (simp add: SourceBreakpoint_To_def Let_def)

lemma SourceBreakpoint_To_doc [doc_intros]: "ints_SourceBreakpoint m \<Longrightarrow> doc None (SourceBreakpoint_To m)"
  by (auto simp: ints_SourceBreakpoint_def SourceBreakpoint_To_def Let_def list_all_iff intro!: doc_intros)

lemma new_SourceBreakpoint_ints [simp]: "ints_SourceBreakpoint new_SourceBreakpoint"
  by (simp add: ints_SourceBreakpoint_def new_SourceBreakpoint_def msg_defs)

lemma SourceBreakpoint_From_ints [ints_intros]: "ints_json j \<Longrightarrow> ints_SourceBreakpoint m \<Longrightarrow> ints_SourceBreakpoint (SourceBreakpoint_From j m)"
  by (auto simp: ints_SourceBreakpoint_def SourceBreakpoint_From_def Let_def msg_defs intro!: ints_intros)

lemma SourceBreakpoint_From_view [simp]:
  "SourceBreakpoint_From (reparsed j) m = SourceBreakpoint_From j m"
  "SourceBreakpoint_From (map_option (set_name nm) j) m = SourceBreakpoint_From j m"
  by (simp_all add: SourceBreakpoint_From_def Let_def)

lemma SourceBreakpoint_roundtrip [msg_roundtrip]: "wire_SourceBreakpoint m \<Longrightarrow> SourceBreakpoint_From (SourceBreakpoint_To m) new_SourceBreakpoint = m"
  by (cases m) (simp add: wire_SourceBreakpoint_def ints_SourceBreakpoint_def new_SourceBreakpoint_def SourceBreakpoint_To_def SourceBreakpoint_From_def Let_def msg_defs json_simps msg_simps msg_roundtrip)

record FunctionBreakpoint =
  FunctionBreakpoint_name :: string
  FunctionBreakpoint_condition :: string

definition new_FunctionBreakpoint :: FunctionBreakpoint where
  "new_FunctionBreakpoint = \<lparr>FunctionBreakpoint_name = [],
     FunctionBreakpoint_condition = []\<rparr>"

definition FunctionBreakpoint_To :: "FunctionBreakpoint \<Rightarrow> Json" where
  "FunctionBreakpoint_To m =
     (let
         json = Json_CreateObject;
         json = Json_Add_string ''name'' (FunctionBreakpoint_name m) json;
         json = Json_Add_string ''condition'' (FunctionBreakpoint_condition m) json
      in json)"

definition FunctionBreakpoint_From :: "Json \<Rightarrow> FunctionBreakpoint \<Rightarrow> FunctionBreakpoint" where
  "FunctionBreakpoint_From json m =
     m \<lparr>FunctionBreakpoint_name := GetString (Json_at json ''name'') (FunctionBreakpoint_name m),
           FunctionBreakpoint_condition := GetString (Json_at json ''condition'') (FunctionBreakpoint_condition m)\<rparr>"

definition ints_FunctionBreakpoint :: "FunctionBreakpoint \<Rightarrow> bool" where
  "ints_FunctionBreakpoint m \<longleftrightarrow> True"

definition wire_FunctionBreakpoint :: "FunctionBreakpoint \<Rightarrow> bool" where
  "wire_FunctionBreakpoint m \<longleftrightarrow> ints_FunctionBreakpoint m \<and>
     no_nul (FunctionBreakpoint_name m) \<and>
     no_nul (FunctionBreakpoint_condition m)"

lemma FunctionBreakpoint_To_object [simp]: "IsObject (FunctionBreakpoint_To m)"
  by (simp add: FunctionBreakpoint_To_def Let_def)

lemma FunctionBreakpoint_To_doc [doc_intros]: "ints_FunctionBreakpoint m \<Longrightarrow> doc None (FunctionBreakpoint_To m)"
  by (auto simp: ints_FunctionBreakpoint_def FunctionBreakpoint_To_def Let_def list_all_iff intro!: doc_intros)

lemma new_FunctionBreakpoint_ints [simp]: "ints_FunctionBreakpoint new_FunctionBreakpoint"
  by (simp add: ints_FunctionBreakpoint_def new_FunctionBreakpoint_def msg_defs)

lemma FunctionBreakpoint_From_ints [ints_intros]: "ints_json j \<Longrightarrow> ints_FunctionBreakpoint m \<Longrightarrow> ints_FunctionBreakpoint (FunctionBreakpoint_From j m)"
  by (auto simp: ints_FunctionBreakpoint_def FunctionBreakpoint_From_def Let_def msg_defs intro!: ints_intros)

lemma FunctionBreakpoint_From_view [simp]:
  "FunctionBreakpoint_From (reparsed j) m = FunctionBreakpoint_From j m"
  "FunctionBreakpoint_From (map_option (set_name nm) j) m = FunctionBreakpoint_From j m"
  by (simp_all add: FunctionBreakpoint_From_def Let_def)

lemma FunctionBreakpoint_roundtrip [msg_roundtrip]: "wire_FunctionBreakpoint m \<Longrightarrow> FunctionBreakpoint_From (FunctionBreakpoint_To m) new_FunctionBreakpoint = m"
  by (cases m) (simp add: wire_FunctionBreakpoint_def ints_FunctionBreakpoint_def new_FunctionBreakpoint_def FunctionBreakpoint_To_def FunctionBreakpoint_From_def Let_def msg_defs json_simps msg_simps msg_roundtrip)

record SetBreakpointsArguments =
  SetBreakpointsArguments_source :: Source
  SetBreakpointsArguments_breakpoints :: "SourceBreakpoint list"

definition new_SetBreakpointsArguments :: SetBreakpointsArguments where
  "new_SetBreakpointsArguments = \<lparr>SetBreakpointsArguments_source = new_Source,
     SetBreakpointsArguments_breakpoints = []\<rparr>"

definition SetBreakpointsArguments_To :: "SetBreakpointsArguments \<Rightarrow> Json" where
  "SetBreakpointsArguments_To m =
     (let
         json = Json_CreateObject;
         json = Json_Add_json ''source'' (Source_To (SetBreakpointsArguments_source m)) json;
         json = Json_AddArray ''breakpoints'' (\<lambda>arr. foldl (\<lambda>arr x. Json_Add_json [] (SourceBreakpoint_To x) arr) arr (SetBreakpointsArguments_breakpoints m)) json
      in json)"

definition SetBreakpointsArguments_From :: "Json \<Rightarrow> SetBreakpointsArguments \<Rightarrow> SetBreakpointsArguments" where
  "SetBreakpointsArguments_From json m =
     m \<lparr>SetBreakpointsArguments_source := Source_From (Json_at json ''source'') (SetBreakpointsArguments_source m),
           SetBreakpointsArguments_breakpoints := read_array (\<lambda>j. SourceBreakpoint_From j new_SourceBreakpoint) (Json_at json ''breakpoints'')\<rparr>"

definition ints_SetBreakpointsArguments :: "SetBreakpointsArguments \<Rightarrow> bool" where
  "ints_SetBreakpointsArguments m \<longleftrightarrow> ints_Source (SetBreakpointsArguments_source m) \<and>
     list_all ints_SourceBreakpoint (SetBreakpointsArguments_breakpoints m)"

definition wire_SetBreakpointsArguments :: "SetBreakpointsArguments \<Rightarrow> bool" where
  "wire_SetBreakpointsArguments m \<longleftrightarrow> ints_SetBreakpointsArguments m \<and>
     wire_Source (SetBreakpointsArguments_source m) \<and>
     list_all wire_SourceBreakpoint (SetBreakpointsArguments_breakpoints m)"

lemma SetBreakpointsArguments_To_object [simp]: "IsObject (SetBreakpointsArguments_To m)"
  by (simp add: SetBreakpointsArguments_To_def Let_def)

lemma SetBreakpointsArguments_To_doc [doc_intros]: "ints_SetBreakpointsArguments m \<Longrightarrow> doc None (SetBreakpointsArguments_To m)"
  by (auto simp: ints_SetBreakpointsArguments_def SetBreakpointsArguments_To_def Let_def list_all_iff intro!: doc_intros)

lemma new_SetBreakpointsArguments_ints [simp]: "ints_SetBreakpointsArguments new_SetBreakpointsArguments"
  by (simp add: ints_SetBreakpointsArguments_def new_SetBreakpointsArguments_def msg_defs)

lemma SetBreakpointsArguments_From_ints [ints_intros]: "ints_json j \<Longrightarrow> ints_SetBreakpointsArguments m \<Longrightarrow> ints_SetBreakpointsArguments (SetBreakpointsArguments_From j m)"
  by (auto simp: ints_SetBreakpointsArguments_def SetBreakpointsArguments_From_def Let_def msg_defs intro!: ints_intros)

lemma SetBreakpointsArguments_From_view [simp]:
  "SetBreakpointsArguments_From (reparsed j) m = SetBreakpointsArguments_From j m"
  "SetBreakpointsArguments_From (map_option (set_name nm) j) m = SetBreakpointsArguments_From j m"
  by (simp_all add: SetBreakpointsArguments_From_def Let_def)

lemma SetBreakpointsArguments_roundtrip [msg_roundtrip]: "wire_SetBreakpointsArguments m \<Longrightarrow> SetBreakpointsArguments_From (SetBreakpointsArguments_To m) new_SetBreakpointsArguments = m"
  by (cases m) (simp add: wire_SetBreakpointsArguments_def ints_SetBreakpointsArguments_def new_SetBreakpointsArguments_def SetBreakpointsArguments_To_def SetBreakpointsArguments_From_def Let_def msg_defs json_simps msg_simps msg_roundtrip)

record SetFunctionBreakpointsArguments =
  SetFunctionBreakpointsArguments_breakpoints :: "FunctionBreakpoint list"

definition new_SetFunctionBreakpointsArguments :: SetFunctionBreakpointsArguments where
  "new_SetFunctionBreakpointsArguments = \<lparr>SetFunctionBreakpointsArguments_breakpoints = []\<rparr>"

definition SetFunctionBreakpointsArguments_To :: "SetFunctionBreakpointsArguments \<Rightarrow> Json" where
  "SetFunctionBreakpointsArguments_To m =
     (let
         json = Json_CreateObject;
         json = Json_AddArray ''breakpoints'' (\<lambda>arr. foldl (\<lambda>arr x. Json_Add_json [] (FunctionBreakpoint_To x) arr) arr (SetFunctionBreakpointsArguments_breakpoints m)) json
      in json)"

definition SetFunctionBreakpointsArguments_From :: "Json \<Rightarrow> SetFunctionBreakpointsArguments \<Rightarrow> SetFunctionBreakpointsArguments" where
  "SetFunctionBreakpointsArguments_From json m =
     m \<lparr>SetFunctionBreakpointsArguments_breakpoints := read_array (\<lambda>j. FunctionBreakpoint_From j new_FunctionBreakpoint) (Json_at json ''breakpoints'')\<rparr>"

definition ints_SetFunctionBreakpointsArguments :: "SetFunctionBreakpointsArguments \<Rightarrow> bool" where
  "ints_SetFunctionBreakpointsArguments m \<longleftrightarrow> list_all ints_FunctionBreakpoint (SetFunctionBreakpointsArguments_breakpoints m)"

definition wire_SetFunctionBreakpointsArguments :: "SetFunctionBreakpointsArguments \<Rightarrow> bool" where
  "wire_SetFunctionBreakpointsArguments m \<longleftrightarrow> ints_SetFunctionBreakpointsArguments m \<and>
     list_all wire_FunctionBreakpoint (SetFunctionBreakpointsArguments_breakpoints m)"

lemma SetFunctionBreakpointsArguments_To_object [simp]: "IsObject (SetFunctionBreakpointsArguments_To m)"
  by (simp add: SetFunctionBreakpointsArguments_To_def Let_def)

lemma SetFunctionBreakpointsArguments_To_doc [doc_intros]: "ints_SetFunctionBreakpointsArguments m \<Longrightarrow> doc None (SetFunctionBreakpointsArguments_To m)"
  by (auto simp: ints_SetFunctionBreakpointsArguments_def SetFunctionBreakpointsArguments_To_def Let_def list_all_iff intro!: doc_intros)

lemma new_SetFunctionBreakpointsArguments_ints [simp]: "ints_SetFunctionBreakpointsArguments new_SetFunctionBreakpointsArguments"
  by (simp add: ints_SetFunctionBreakpointsArguments_def new_SetFunctionBreakpointsArguments_def msg_defs)

lemma SetFunctionBreakpointsArguments_From_ints [ints_intros]: "ints_json j \<Longrightarrow> ints_SetFunctionBreakpointsArguments m \<Longrightarrow> ints_SetFunctionBreakpointsArguments (SetFunctionBreakpointsArguments_From j m)"
  by (auto simp: ints_SetFunctionBreakpointsArguments_def SetFunctionBreakpointsArguments_From_def Let_def msg_defs intro!: ints_intros)

lemma SetFunctionBreakpointsArguments_From_view [simp]:
  "SetFunctionBreakpointsArguments_From (reparsed j) m = SetFunctionBreakpointsArguments_From j m"
  "SetFunctionBreakpointsArguments_From (map_option (set_name nm) j) m = SetFunctionBreakpointsArguments_From j m"
  by (simp_all add: SetFunctionBreakpointsArguments_From_def Let_def)

lemma SetFunctionBreakpointsArguments_roundtrip [msg_roundtrip]: "wire_SetFunctionBreakpointsArguments m \<Longrightarrow> SetFunctionBreakpointsArguments_From (SetFunctionBreakpointsArguments_To m) new_SetFunctionBreakpointsArguments = m"
  by (cases m) (simp add: wire_SetFunctionBreakpointsArguments_def ints_SetFunctionBreakpointsArguments_def new_SetFunctionBreakpointsArguments_def SetFunctionBreakpointsArguments_To_def SetFunctionBreakpointsArguments_From_def Let_def msg_defs json_simps msg_simps msg_roundtrip)

record ContinueArguments =
  ContinueArguments_threadId :: int
  ContinueArguments_singleThread :: bool

definition new_ContinueArguments :: ContinueArguments where
  "new_ContinueArguments = \<lparr>ContinueArguments_threadId = -1,
     ContinueArguments_singleThread = False\<rparr>"

definition ContinueArguments_To :: "ContinueArguments \<Rightarrow> Json" where
  "ContinueArguments_To m =
     (let
         json = Json_CreateObject;
         json = Json_Add_int ''threadId'' (ContinueArguments_threadId m) json;
         json = Json_Add_bool ''singleThread'' (ContinueArguments_singleThread m) json
      in json)"

definition ContinueArguments_From :: "Json \<Rightarrow> ContinueArguments \<Rightarrow> ContinueArguments" where
  "ContinueArguments_From json m =
     m \<lparr>ContinueArguments_threadId := GetInteger (Json_at json ''threadId'') (-1),
           ContinueArguments_singleThread := GetBool (Json_at json ''singleThread'') False\<rparr>"

definition ints_ContinueArguments :: "ContinueArguments \<Rightarrow> bool" where
  "ints_ContinueArguments m \<longleftrightarrow> is_int32 (ContinueArguments_threadId m)"

definition wire_ContinueArguments :: "ContinueArguments \<Rightarrow> bool" where
  "wire_ContinueArguments m \<longleftrightarrow> ints_ContinueArguments m"

lemma ContinueArguments_To_object [simp]: "IsObject (ContinueArguments_To m)"
  by (simp add: ContinueArguments_To_def Let_def)

lemma ContinueArguments_To_doc [doc_intros]: "ints_ContinueArguments m \<Longrightarrow> doc None (ContinueArguments_To m)"
  by (auto simp: ints_ContinueArguments_def ContinueArguments_To_def Let_def list_all_iff intro!: doc_intros)

lemma new_ContinueArguments_ints [simp]: "ints_ContinueArguments new_ContinueArguments"
  by (simp add: ints_ContinueArguments_def new_ContinueArguments_def msg_defs)

lemma ContinueArguments_From_ints [ints_intros]: "ints_json j \<Longrightarrow> ints_ContinueArguments m \<Longrightarrow> ints_ContinueArguments (ContinueArguments_From j m)"
  by (auto simp: ints_ContinueArguments_def ContinueArguments_From_def Let_def msg_defs intro!: ints_intros)

lemma ContinueArguments_From_view [simp]:
  "ContinueArguments_From (reparsed j) m = ContinueArguments_From j m"
  "ContinueArguments_From (map_option (set_name nm) j) m = ContinueArguments_From j m"
  by (simp_all add: ContinueArguments_From_def Let_def)

lemma ContinueArguments_roundtrip [msg_roundtrip]: "wire_ContinueArguments m \<Longrightarrow> ContinueArguments_From (ContinueArguments_To m) new_ContinueArguments = m"
  by (cases m) (simp add: wire_ContinueArguments_def ints_ContinueArguments_def new_ContinueArguments_def ContinueArguments_To_def ContinueArguments_From_def Let_def msg_defs json_simps msg_simps msg_roundtrip)

record NextArguments =
  NextArguments_threadId :: int
  NextArguments_granularity :: string
  NextArguments_singleThread :: bool

definition new_NextArguments :: NextArguments where
  "new_NextArguments = \<lparr>NextArguments_threadId = -1,
     NextArguments_granularity = ''line'',
     NextArguments_singleThread = True\<rparr>"

definition NextArguments_To :: "NextArguments \<Rightarrow> Json" where
  "NextArguments_To m =
     (let
         json = Json_CreateObject;
         json = Json_Add_int ''threadId'' (NextArguments_threadId m) json;
         json = Json_Add_string ''granularity'' (NextArguments_granularity m) json;
         json = Json_Add_bool ''singleThread'' (NextArguments_singleThread m) json
      in json)"

definition NextArguments_From :: "Json \<Rightarrow> NextArguments \<Rightarrow> NextArguments" where
  "NextArguments_From json m =
     m \<lparr>NextArguments_threadId := GetInteger (Json_at json ''threadId'') (-1),
           NextArguments_granularity := GetString (Json_at json ''granularity'') [],
           NextArguments_singleThread := GetBool (Json_at json ''singleThread'') False\<rparr>"

definition ints_NextArguments :: "NextArguments \<Rightarrow> bool" where
  "ints_NextArguments m \<longleftrightarrow> is_int32 (NextArguments_threadId m)"

definition wire_NextArguments :: "NextArguments \<Rightarrow> bool" where
  "wire_NextArguments m \<longleftrightarrow> ints_NextArguments m \<and>
     no_nul (NextArguments_granularity m)"

lemma NextArguments_To_object [simp]: "IsObject (NextArguments_To m)"
  by (simp add: NextArguments_To_def Let_def)

lemma NextArguments_To_doc [doc_intros]: "ints_NextArguments m \<Longrightarrow> doc None (NextArguments_To m)"
  by (auto simp: ints_NextArguments_def NextArguments_To_def Let_def list_all_iff intro!: doc_intros)

lemma new_NextArguments_ints [simp]: "ints_NextArguments new_NextArguments"
  by (simp add: ints_NextArguments_def new_NextArguments_def msg_defs)

lemma NextArguments_From_ints [ints_intros]: "ints_json j \<Longrightarrow> ints_NextArguments m \<Longrightarrow> ints_NextArguments (NextArguments_From j m)"
  by (auto simp: ints_NextArguments_def NextArguments_From_def Let_def msg_defs intro!: ints_intros)

lemma NextArguments_From_view [simp]:
  "NextArguments_From (reparsed j) m = NextArguments_From j m"
  "NextArguments_From (map_option (set_name nm) j) m = NextArguments_From j m"
  by (simp_all add: NextArguments_From_def Let_def)

lemma NextArguments_roundtrip [msg_roundtrip]: "wire_NextArguments m \<Longrightarrow> NextArguments_From (NextArguments_To m) new_NextArguments = m"
  by (cases m) (simp add: wire_NextArguments_def ints_NextArguments_def new_NextArguments_def NextArguments_To_def NextArguments_From_def Let_def msg_defs json_simps msg_simps msg_roundtrip)

record VariablePresentationHint =
  VariablePresentationHint_kind :: string
  VariablePresentationHint_attributes :: "string list"
  VariablePresentationHint_visibility :: string

definition new_VariablePresentationHint :: VariablePresentationHint where
  "new_VariablePresentationHint = \<lparr>VariablePresentationHint_kind = [],
     VariablePresentationHint_attributes = [],
     VariablePresentationHint_visibility = []\<rparr>"

definition VariablePresentationHint_To :: "VariablePresentationHint \<Rightarrow> Json" where
  "VariablePresentationHint_To m =
     (let
         json = Json_CreateObject;
         json = Json_Add_string ''kind'' (VariablePresentationHint_kind m) json;
         json = Json_Add_string ''visibility'' (VariablePresentationHint_visibility m) json;
         json = Json_Add_strings ''attributes'' (VariablePresentationHint_attributes m) json
      in json)"

definition VariablePresentationHint_From :: "Json \<Rightarrow> VariablePresentationHint \<Rightarrow> VariablePresentationHint" where
  "VariablePresentationHint_From json m =
     m \<lparr>VariablePresentationHint_kind := GetString (Json_at json ''kind'') [],
           VariablePresentationHint_visibility := GetString (Json_at json ''visibility'') [],
           VariablePresentationHint_attributes := GetStringArray (Json_at json ''attributes'')\<rparr>"

definition ints_VariablePresentationHint :: "VariablePresentationHint \<Rightarrow> bool" where
  "ints_VariablePresentationHint m \<longleftrightarrow> True"

definition wire_VariablePresentationHint :: "VariablePresentationHint \<Rightarrow> bool" where
  "wire_VariablePresentationHint m \<longleftrightarrow> ints_VariablePresentationHint m \<and>
     no_nul (VariablePresentationHint_kind m) \<and>
     list_all no_nul (VariablePresentationHint_attributes m) \<and>
     no_nul (VariablePresentationHint_visibility m)"

lemma VariablePresentationHint_To_object [simp]: "IsObject (VariablePresentationHint_To m)"
  by (simp add: VariablePresentationHint_To_def Let_def)

lemma VariablePresentationHint_To_doc [doc_intros]: "ints_VariablePresentationHint m \<Longrightarrow> doc None (VariablePresentationHint_To m)"
  by (auto simp: ints_VariablePresentationHint_def VariablePresentationHint_To_def Let_def list_all_iff intro!: doc_intros)

lemma new_VariablePresentationHint_ints [simp]: "ints_VariablePresentationHint new_VariablePresentationHint"
  by (simp add: ints_VariablePresentationHint_def new_VariablePresentationHint_def msg_defs)

lemma VariablePresentationHint_From_ints [ints_intros]: "ints_json j \<Longrightarrow> ints_VariablePresentationHint m \<Longrightarrow> ints_VariablePresentationHint (VariablePresentationHint_From j m)"
  by (auto simp: ints_VariablePresentationHint_def VariablePresentationHint_From_def Let_def msg_defs intro!: ints_intros)

lemma VariablePresentationHint_From_view [simp]:
  "VariablePresentationHint_From (reparsed j) m = VariablePresentationHint_From j m"
  "VariablePresentationHint_From (map_option (set_name nm) j) m = VariablePresentationHint_From j m"
  by (simp_all add: VariablePresentationHint_From_def Let_def)

lemma VariablePresentationHint_roundtrip [msg_roundtrip]: "wire_VariablePresentationHint m \<Longrightarrow> VariablePresentationHint_From (VariablePresentationHint_To m) new_VariablePresentationHint = m"
  by (cases m) (simp add: wire_VariablePresentationHint_def ints_VariablePresentationHint_def new_VariablePresentationHint_def VariablePresentationHint_To_def VariablePresentationHint_From_def Let_def msg_defs json_simps msg_simps msg_roundtrip)

record Variable =
  Variable_name :: string
  Variable_value :: string
  Variable_type :: string
  Variable_variablesReference :: int
  Variable_presentationHint :: VariablePresentationHint

definition new_Variable :: Variable where
  "new_Variable = \<lparr>Variable_name = [],
     Variable_value = [],
     Variable_type = [],
     Variable_variablesReference = 0,
     Variable_presentationHint = new_VariablePresentationHint\<rparr>"

definition Variable_To :: "Variable \<Rightarrow> Json" where
  "Variable_To m =
     (let
         json = Json_CreateObject;
         json = Json_Add_string ''name'' (Variable_name m) json;
         json = Json_Add_string ''value'' (Variable_value m) json;
         json = Json_Add_string ''type'' (Variable_type m) json;
         json = Json_Add_int ''variablesReference'' (Variable_variablesReference m) json;
         json = Json_Add_json ''presentationHint'' (VariablePresentationHint_To (Variable_presentationHint m)) json
      in json)"

definition Variable_From :: "Json \<Rightarrow> Variable \<Rightarrow> Variable" where
  "Variable_From json m =
     m \<lparr>Variable_name := GetString (Json_at json ''name'') [],
           Variable_value := GetString (Json_at json ''value'') [],
           Variable_type := GetString (Json_at json ''type'') [],
           Variable_variablesReference := GetInteger (Json_at json ''variablesReference'') (-1),
           Variable_presentationHint := VariablePresentationHint_From (Json_at json ''presentationHint'') (Variable_presentationHint m)\<rparr>"

definition ints_Variable :: "Variable \<Rightarrow> bool" where
  "ints_Variable m \<longleftrightarrow> is_int32 (Variable_variablesReference m) \<and>
     ints_VariablePresentationHint (Variable_presentationHint m)"

definition wire_Variable :: "Variable \<Rightarrow> bool" where
  "wire_Variable m \<longleftrightarrow> ints_Variable m \<and>
     no_nul (Variable_name m) \<and>
     no_nul (Variable_value m) \<and>
     no_nul (Variable_type m) \<and>
     wire_VariablePresentationHint (Variable_presentationHint m)"

lemma Variable_To_object [simp]: "IsObject (Variable_To m)"
  by (simp add: Variable_To_def Let_def)

lemma Variable_To_doc [doc_intros]: "ints_Variable m \<Longrightarrow> doc None (Variable_To m)"
  by (auto simp: ints_Variable_def Variable_To_def Let_def list_all_iff intro!: doc_intros)

lemma new_Variable_ints [simp]: "ints_Variable new_Variable"
  by (simp add: ints_Variable_def new_Variable_def msg_defs)

lemma Variable_From_ints [ints_intros]: "ints_json j \<Longrightarrow> ints_Variable m \<Longrightarrow> ints_Variable (Variable_From j m)"
  by (auto simp: ints_Variable_def Variable_From_def Let_def msg_defs intro!: ints_intros)

lemma Variable_From_view [simp]:
  "Variable_From (reparsed j) m = Variable_From j m"
  "Variable_From (map_option (set_name nm) j) m = Variable_From j m"
  by (simp_all add: Variable_From_def Let_def)

lemma Variable_roundtrip [msg_roundtrip]: "wire_Variable m \<Longrightarrow> Variable_From (Variable_To m) new_Variable = m"
  by (cases m) (simp add: wire_Variable_def ints_Variable_def new_Variable_def Variable_To_def Variable_From_def Let_def msg_defs json_simps msg_simps msg_roundtrip)

record ScopesArguments =
  ScopesArguments_frameId :: int

definition new_ScopesArguments :: ScopesArguments where
  "new_ScopesArguments = \<lparr>ScopesArguments_frameId = 0\<rparr>"

definition ScopesArguments_To :: "ScopesArguments \<Rightarrow> Json" where
  "ScopesArguments_To m =
     (let
         json = Json_CreateObject;
         json = Json_Add_int ''frameId'' (ScopesArguments_frameId m) json
      in json)"

definition ScopesArguments_From :: "Json \<Rightarrow> ScopesArguments \<Rightarrow> ScopesArguments" where
  "ScopesArguments_From json m =
     m \<lparr>ScopesArguments_frameId := d2i (GetNumber (Json_at json ''frameId'') (i2d (-1)))\<rparr>"

definition ints_ScopesArguments :: "ScopesArguments \<Rightarrow> bool" where
  "ints_ScopesArguments m \<longleftrightarrow> is_int32 (ScopesArguments_frameId m)"

definition wire_ScopesArguments :: "ScopesArguments \<Rightarrow> bool" where
  "wire_ScopesArguments m \<longleftrightarrow> ints_ScopesArguments m"

lemma ScopesArguments_To_object [simp]: "IsObject (ScopesArguments_To m)"
  by (simp add: ScopesArguments_To_def Let_def)

lemma ScopesArguments_To_doc [doc_intros]: "ints_ScopesArguments m \<Longrightarrow> doc None (ScopesArguments_To m)"
  by (auto simp: ints_ScopesArguments_def ScopesArguments_To_def Let_def list_all_iff intro!: doc_intros)

lemma new_ScopesArguments_ints [simp]: "ints_ScopesArguments new_ScopesArguments"
  by (simp add: ints_ScopesArguments_def new_ScopesArguments_def msg_defs)

lemma ScopesArguments_From_ints [ints_intros]: "ints_json j \<Longrightarrow> ints_ScopesArguments m \<Longrightarrow> ints_ScopesArguments (ScopesArguments_From j m)"
  by (auto simp: ints_ScopesArguments_def ScopesArguments_From_def Let_def msg_defs intro!: ints_intros)

lemma ScopesArguments_From_view [simp]:
  "ScopesArguments_From (reparsed j) m = ScopesArguments_From j m"
  "ScopesArguments_From (map_option (set_name nm) j) m = ScopesArguments_From j m"
  by (simp_all add: ScopesArguments_From_def Let_def)

lemma ScopesArguments_roundtrip [msg_roundtrip]: "wire_ScopesArguments m \<Longrightarrow> ScopesArguments_From (ScopesArguments_To m) new_ScopesArguments = m"
  by (cases m) (simp add: wire_ScopesArguments_def ints_ScopesArguments_def new_ScopesArguments_def ScopesArguments_To_def ScopesArguments_From_def Let_def msg_defs json_simps msg_simps msg_roundtrip)

record Scope =
  Scope_name :: string
  Scope_variablesReference :: int
  Scope_expensive :: bool

definition new_Scope :: Scope where
  "new_Scope = \<lparr>Scope_name = [],
     Scope_variablesReference = 0,
     Scope_expensive = False\<rparr>"

definition Scope_To :: "Scope \<Rightarrow> Json" where
  "Scope_To m =
     (let
         json = Json_CreateObject;
         json = Json_Add_string ''name'' (Scope_name m) json;
         json = Json_Add_int ''variablesReference'' (Scope_variablesReference m) json;
         json = Json_Add_bool ''expensive'' (Scope_expensive m) json
      in json)"

definition Scope_From :: "Json \<Rightarrow> Scope \<Rightarrow> Scope" where
  "Scope_From json m =
     m \<lparr>Scope_name := GetString (Json_at json ''name'') [],
           Scope_variablesReference := GetInteger (Json_at json ''variablesReference'') (-1),
           Scope_expensive := GetBool (Json_at json ''expensive'') False\<rparr>"

definition ints_Scope :: "Scope \<Rightarrow> bool" where
  "ints_Scope m \<longleftrightarrow> is_int32 (Scope_variablesReference m)"

definition wire_Scope :: "Scope \<Rightarrow> bool" where
  "wire_Scope m \<longleftrightarrow> ints_Scope m \<and>
     no_nul (Scope_name m)"

lemma Scope_To_object [simp]: "IsObject (Scope_To m)"
  by (simp add: Scope_To_def Let_def)

lemma Scope_To_doc [doc_intros]: "ints_Scope m \<Longrightarrow> doc None (Scope_To m)"
  by (auto simp: ints_Scope_def Scope_To_def Let_def list_all_iff intro!: doc_intros)

lemma new_Scope_ints [simp]: "ints_Scope new_Scope"
  by (simp add: ints_Scope_def new_Scope_def msg_defs)

lemma Scope_From_ints [ints_intros]: "ints_json j \<Longrightarrow> ints_Scope m \<Longrightarrow> ints_Scope (Scope_From j m)"
  by (auto simp: ints_Scope_def Scope_From_def Let_def msg_defs intro!: ints_intros)

lemma Scope_From_view [simp]:
  "Scope_From (reparsed j) m = Scope_From j m"
  "Scope_From (map_option (set_name nm) j) m = Scope_From j m"
  by (simp_all add: Scope_From_def Let_def)

lemma Scope_roundtrip [msg_roundtrip]: "wire_Scope m \<Longrightarrow> Scope_From (Scope_To m) new_Scope = m"
  by (cases m) (simp add: wire_Scope_def ints_Scope_def new_Scope_def Scope_To_def Scope_From_def Let_def msg_defs json_simps msg_simps msg_roundtrip)

record StackTraceArguments =
  StackTraceArguments_threadId :: int
  StackTraceArguments_startFrame :: int
  StackTraceArguments_levels :: int

definition new_StackTraceArguments :: StackTraceArguments where
  "new_StackTraceArguments = \<lparr>StackTraceArguments_threadId = 0,
     StackTraceArguments_startFrame = 0,
     StackTraceArguments_levels = 0\<rparr>"

definition StackTraceArguments_To :: "StackTraceArguments \<Rightarrow> Json" where
  "StackTraceArguments_To m =
     (let
         json = Json_CreateObject;
         json = Json_Add_int ''threadId'' (StackTraceArguments_threadId m) json
      in json)"

definition StackTraceArguments_From :: "Json \<Rightarrow> StackTraceArguments \<Rightarrow> StackTraceArguments" where
  "StackTraceArguments_From json m =
     m \<lparr>StackTraceArguments_threadId := GetInteger (Json_at json ''threadId'') (-1)\<rparr>"

definition ints_StackTraceArguments :: "StackTraceArguments \<Rightarrow> bool" where
  "ints_StackTraceArguments m \<longleftrightarrow> is_int32 (StackTraceArguments_threadId m) \<and>
     is_int32 (StackTraceArguments_startFrame m) \<and>
     is_int32 (StackTraceArguments_levels m)"

definition wire_StackTraceArguments :: "StackTraceArguments \<Rightarrow> bool" where
  "wire_StackTraceArguments m \<longleftrightarrow> ints_StackTraceArguments m \<and>
     StackTraceArguments_startFrame m = 0 \<and>
     StackTraceArguments_levels m = 0"

lemma StackTraceArguments_To_object [simp]: "IsObject (StackTraceArguments_To m)"
  by (simp add: StackTraceArguments_To_def Let_def)

lemma StackTraceArguments_To_doc [doc_intros]: "ints_StackTraceArguments m \<Longrightarrow> doc None (StackTraceArguments_To m)"
  by (auto simp: ints_StackTraceArguments_def StackTraceArguments_To_def Let_def list_all_iff intro!: doc_intros)

lemma new_StackTraceArguments_ints [simp]: "ints_StackTraceArguments new_StackTraceArguments"
  by (simp add: ints_StackTraceArguments_def new_StackTraceArguments_def msg_defs)

lemma StackTraceArguments_From_ints [ints_intros]: "ints_json j \<Longrightarrow> ints_StackTraceArguments m \<Longrightarrow> ints_StackTraceArguments (StackTraceArguments_From j m)"
  by (auto simp: ints_StackTraceArguments_def StackTraceArguments_From_def Let_def msg_defs intro!: ints_intros)

lemma StackTraceArguments_From_view [simp]:
  "StackTraceArguments_From (reparsed j) m = StackTraceArguments_From j m"
  "StackTraceArguments_From (map_option (set_name nm) j) m = StackTraceArguments_From j m"
  by (simp_all add: StackTraceArguments_From_def Let_def)

lemma StackTraceArguments_roundtrip [msg_roundtrip]: "wire_StackTraceArguments m \<Longrightarrow> StackTraceArguments_From (StackTraceArguments_To m) new_StackTraceArguments = m"
  by (cases m) (simp add: wire_StackTraceArguments_def ints_StackTraceArguments_def new_StackTraceArguments_def StackTraceArguments_To_def StackTraceArguments_From_def Let_def msg_defs json_simps msg_simps msg_roundtrip)

record ValueFormat =
  ValueFormat_hex :: bool

definition new_ValueFormat :: ValueFormat where
  "new_ValueFormat = \<lparr>ValueFormat_hex = False\<rparr>"

definition ValueFormat_To :: "ValueFormat \<Rightarrow> Json" where
  "ValueFormat_To m =
     (let
         json = Json_CreateObject;
         json = Json_Add_bool ''hex'' (ValueFormat_hex m) json
      in json)"

definition ValueFormat_From :: "Json \<Rightarrow> ValueFormat \<Rightarrow> ValueFormat" where
  "ValueFormat_From json m =
     m \<lparr>ValueFormat_hex := GetBool (Json_at json ''hex'') False\<rparr>"

definition ints_ValueFormat :: "ValueFormat \<Rightarrow> bool" where
  "ints_ValueFormat m \<longleftrightarrow> True"

definition wire_ValueFormat :: "ValueFormat \<Rightarrow> bool" where
  "wire_ValueFormat m \<longleftrightarrow> ints_ValueFormat m"

lemma ValueFormat_To_object [simp]: "IsObject (ValueFormat_To m)"
  by (simp add: ValueFormat_To_def Let_def)

lemma ValueFormat_To_doc [doc_intros]: "ints_ValueFormat m \<Longrightarrow> doc None (ValueFormat_To m)"
  by (auto simp: ints_ValueFormat_def ValueFormat_To_def Let_def list_all_iff intro!: doc_intros)

lemma new_ValueFormat_ints [simp]: "ints_ValueFormat new_ValueFormat"
  by (simp add: ints_ValueFormat_def new_ValueFormat_def msg_defs)

lemma ValueFormat_From_ints [ints_intros]: "ints_json j \<Longrightarrow> ints_ValueFormat m \<Longrightarrow> ints_ValueFormat (ValueFormat_From j m)"
  by (auto simp: ints_ValueFormat_def ValueFormat_From_def Let_def msg_defs intro!: ints_intros)

lemma ValueFormat_From_view [simp]:
  "ValueFormat_From (reparsed j) m = ValueFormat_From j m"
  "ValueFormat_From (map_option (set_name nm) j) m = ValueFormat_From j m"
  by (simp_all add: ValueFormat_From_def Let_def)

lemma ValueFormat_roundtrip [msg_roundtrip]: "wire_ValueFormat m \<Longrightarrow> ValueFormat_From (ValueFormat_To m) new_ValueFormat = m"
  by (cases m) (simp add: wire_ValueFormat_def ints_ValueFormat_def new_ValueFormat_def ValueFormat_To_def ValueFormat_From_def Let_def msg_defs json_simps msg_simps msg_roundtrip)

record VariablesArguments =
  VariablesArguments_variablesReference :: int
  VariablesArguments_format :: ValueFormat
  VariablesArguments_count :: int

definition new_VariablesArguments :: VariablesArguments where
  "new_VariablesArguments = \<lparr>VariablesArguments_variablesReference = 0,
     VariablesArguments_format = new_ValueFormat,
     VariablesArguments_count = 0\<rparr>"

definition VariablesArguments_To :: "VariablesArguments \<Rightarrow> Json" where
  "VariablesArguments_To m =
     (let
         json = Json_CreateObject;
         json = Json_Add_int ''variablesReference'' (VariablesArguments_variablesReference m) json;
         json = Json_Add_int ''count'' (VariablesArguments_count m) json;
         json = Json_Add_json ''format'' (ValueFormat_To (VariablesArguments_format m)) json
      in json)"

definition VariablesArguments_From :: "Json \<Rightarrow> VariablesArguments \<Rightarrow> VariablesArguments" where
  "VariablesArguments_From json m =
     m \<lparr>VariablesArguments_variablesReference := GetInteger (Json_at json ''variablesReference'') (-1),
           VariablesArguments_count := GetInteger (Json_at json ''count'') 0,
           VariablesArguments_format := ValueFormat_From (Json_at json ''format'') (VariablesArguments_format m)\<rparr>"

definition ints_VariablesArguments :: "VariablesArguments \<Rightarrow> bool" where
  "ints_VariablesArguments m \<longleftrightarrow> is_int32 (VariablesArguments_variablesReference m) \<and>
     ints_ValueFormat (VariablesArguments_format m) \<and>
     is_int32 (VariablesArguments_count m)"

definition wire_VariablesArguments :: "VariablesArguments \<Rightarrow> bool" where
  "wire_VariablesArguments m \<longleftrightarrow> ints_VariablesArguments m \<and>
     wire_ValueFormat (VariablesArguments_format m)"

lemma VariablesArguments_To_object [simp]: "IsObject (VariablesArguments_To m)"
  by (simp add: VariablesArguments_To_def Let_def)

lemma VariablesArguments_To_doc [doc_intros]: "ints_VariablesArguments m \<Longrightarrow> doc None (VariablesArguments_To m)"
  by (auto simp: ints_VariablesArguments_def VariablesArguments_To_def Let_def list_all_iff intro!: doc_intros)

lemma new_VariablesArguments_ints [simp]: "ints_VariablesArguments new_VariablesArguments"
  by (simp add: ints_VariablesArguments_def new_VariablesArguments_def msg_defs)

lemma VariablesArguments_From_ints [ints_intros]: "ints_json j \<Longrightarrow> ints_VariablesArguments m \<Longrightarrow> ints_VariablesArguments (VariablesArguments_From j m)"
  by (auto simp: ints_VariablesArguments_def VariablesArguments_From_def Let_def msg_defs intro!: ints_intros)

lemma VariablesArguments_From_view [simp]:
  "VariablesArguments_From (reparsed j) m = VariablesArguments_From j m"
  "VariablesArguments_From (map_option (set_name nm) j) m = VariablesArguments_From j m"
  by (simp_all add: VariablesArguments_From_def Let_def)

lemma VariablesArguments_roundtrip [msg_roundtrip]: "wire_VariablesArguments m \<Longrightarrow> VariablesArguments_From (VariablesArguments_To m) new_VariablesArguments = m"
  by (cases m) (simp add: wire_VariablesArguments_def ints_VariablesArguments_def new_VariablesArguments_def VariablesArguments_To_def VariablesArguments_From_def Let_def msg_defs json_simps msg_simps msg_roundtrip)

record PauseArguments =
  PauseArguments_threadId :: int

definition new_PauseArguments :: PauseArguments where
  "new_PauseArguments = \<lparr>PauseArguments_threadId = 0\<rparr>"

definition PauseArguments_To :: "PauseArguments \<Rightarrow> Json" where
  "PauseArguments_To m =
     (let
         json = Json_CreateObject;
         json = Json_Add_int ''threadId'' (PauseArguments_threadId m) json
      in json)"

definition PauseArguments_From :: "Json \<Rightarrow> PauseArguments \<Rightarrow> PauseArguments" where
  "PauseArguments_From json m =
     m \<lparr>PauseArguments_threadId := GetInteger (Json_at json ''threadId'') (PauseArguments_threadId m)\<rparr>"

definition ints_PauseArguments :: "PauseArguments \<Rightarrow> bool" where
  "ints_PauseArguments m \<longleftrightarrow> is_int32 (PauseArguments_threadId m)"

definition wire_PauseArguments :: "PauseArguments \<Rightarrow> bool" where
  "wire_PauseArguments m \<longleftrightarrow> ints_PauseArguments m"

lemma PauseArguments_To_object [simp]: "IsObject (PauseArguments_To m)"
  by (simp add: PauseArguments_To_def Let_def)

lemma PauseArguments_To_doc [doc_intros]: "ints_PauseArguments m \<Longrightarrow> doc None (PauseArguments_To m)"
  by (auto simp: ints_PauseArguments_def PauseArguments_To_def Let_def list_all_iff intro!: doc_intros)

lemma new_PauseArguments_ints [simp]: "ints_PauseArguments new_PauseArguments"
  by (simp add: ints_PauseArguments_def new_PauseArguments_def msg_defs)

lemma PauseArguments_From_ints [ints_intros]: "ints_json j \<Longrightarrow> ints_PauseArguments m \<Longrightarrow> ints_PauseArguments (PauseArguments_From j m)"
  by (auto simp: ints_PauseArguments_def PauseArguments_From_def Let_def msg_defs intro!: ints_intros)

lemma PauseArguments_From_view [simp]:
  "PauseArguments_From (reparsed j) m = PauseArguments_From j m"
  "PauseArguments_From (map_option (set_name nm) j) m = PauseArguments_From j m"
  by (simp_all add: PauseArguments_From_def Let_def)

lemma PauseArguments_roundtrip [msg_roundtrip]: "wire_PauseArguments m \<Longrightarrow> PauseArguments_From (PauseArguments_To m) new_PauseArguments = m"
  by (cases m) (simp add: wire_PauseArguments_def ints_PauseArguments_def new_PauseArguments_def PauseArguments_To_def PauseArguments_From_def Let_def msg_defs json_simps msg_simps msg_roundtrip)

record RunInTerminalRequestArguments =
  RunInTerminalRequestArguments_kind :: string
  RunInTerminalRequestArguments_title :: string
  RunInTerminalRequestArguments_args :: "string list"

definition new_RunInTerminalRequestArguments :: RunInTerminalRequestArguments where
  "new_RunInTerminalRequestArguments = \<lparr>RunInTerminalRequestArguments_kind = [],
     RunInTerminalRequestArguments_title = [],
     RunInTerminalRequestArguments_args = []\<rparr>"

definition RunInTerminalRequestArguments_To :: "RunInTerminalRequestArguments \<Rightarrow> Json" where
  "RunInTerminalRequestArguments_To m =
     (let
         json = Json_CreateObject;
         json = Json_Add_string ''kind'' (RunInTerminalRequestArguments_kind m) json;
         json = Json_Add_string ''title'' (RunInTerminalRequestArguments_title m) json;
         json = Json_Add_strings ''args'' (RunInTerminalRequestArguments_args m) json
      in json)"

definition RunInTerminalRequestArguments_From :: "Json \<Rightarrow> RunInTerminalRequestArguments \<Rightarrow> RunInTerminalRequestArguments" where
  "RunInTerminalRequestArguments_From json m =
     m \<lparr>RunInTerminalRequestArguments_kind := GetString (Json_at json ''kind'') (RunInTerminalRequestArguments_kind m),
           RunInTerminalRequestArguments_title := GetString (Json_at json ''title'') (RunInTerminalRequestArguments_title m),
           RunInTerminalRequestArguments_args := GetStringArray (Json_at json ''args'')\<rparr>"

definition ints_RunInTerminalRequestArguments :: "RunInTerminalRequestArguments \<Rightarrow> bool" where
  "ints_RunInTerminalRequestArguments m \<longleftrightarrow> True"

definition wire_RunInTerminalRequestArguments :: "RunInTerminalRequestArguments \<Rightarrow> bool" where
  "wire_RunInTerminalRequestArguments m \<longleftrightarrow> ints_RunInTerminalRequestArguments m \<and>
     no_nul (RunInTerminalRequestArguments_kind m) \<and>
     no_nul (RunInTerminalRequestArguments_title m) \<and>
     list_all no_nul (RunInTerminalRequestArguments_args m)"

lemma RunInTerminalRequestArguments_To_object [simp]: "IsObject (RunInTerminalRequestArguments_To m)"
  by (simp add: RunInTerminalRequestArguments_To_def Let_def)

lemma RunInTerminalRequestArguments_To_doc [doc_intros]: "ints_RunInTerminalRequestArguments m \<Longrightarrow> doc None (RunInTerminalRequestArguments_To m)"
  by (auto simp: ints_RunInTerminalRequestArguments_def RunInTerminalRequestArguments_To_def Let_def list_all_iff intro!: doc_intros)

lemma new_RunInTerminalRequestArguments_ints [simp]: "ints_RunInTerminalRequestArguments new_RunInTerminalRequestArguments"
  by (simp add: ints_RunInTerminalRequestArguments_def new_RunInTerminalRequestArguments_def msg_defs)

lemma RunInTerminalRequestArguments_From_ints [ints_intros]: "ints_json j \<Longrightarrow> ints_RunInTerminalRequestArguments m \<Longrightarrow> ints_RunInTerminalRequestArguments (RunInTerminalRequestArguments_From j m)"
  by (auto simp: ints_RunInTerminalRequestArguments_def RunInTerminalRequestArguments_From_def Let_def msg_defs intro!: ints_intros)

lemma RunInTerminalRequestArguments_From_view [simp]:
  "RunInTerminalRequestArguments_From (reparsed j) m = RunInTerminalRequestArguments_From j m"
  "RunInTerminalRequestArguments_From (map_option (set_name nm) j) m = RunInTerminalRequestArguments_From j m"
  by (simp_all add: RunInTerminalRequestArguments_From_def Let_def)

lemma RunInTerminalRequestArguments_roundtrip [msg_roundtrip]: "wire_RunInTerminalRequestArguments m \<Longrightarrow> RunInTerminalRequestArguments_From (RunInTerminalRequestArguments_To m) new_RunInTerminalRequestArguments = m"
  by (cases m) (simp add: wire_RunInTerminalRequestArguments_def ints_RunInTerminalRequestArguments_def new_RunInTerminalRequestArguments_def RunInTerminalRequestArguments_To_def RunInTerminalRequestArguments_From_def Let_def msg_defs json_simps msg_simps msg_roundtrip)

record SourceArguments =
  SourceArguments_source :: Source
  SourceArguments_sourceReference :: int

definition new_SourceArguments :: SourceArguments where
  "new_SourceArguments = \<lparr>SourceArguments_source = new_Source,
     SourceArguments_sourceReference = 0\<rparr>"

definition SourceArguments_To :: "SourceArguments \<Rightarrow> Json" where
  "SourceArguments_To m =
     (let
         json = Json_CreateObject;
         json = Json_Add_json ''source'' (Source_To (SourceArguments_source m)) json;
         json = (if 0 < SourceArguments_sourceReference m then Json_Add_int ''sourceReference'' (SourceArguments_sourceReference m) json else json)
      in json)"

definition SourceArguments_From :: "Json \<Rightarrow> SourceArguments \<Rightarrow> SourceArguments" where
  "SourceArguments_From json m =
     m \<lparr>SourceArguments_source := Source_From (Json_at json ''source'') (SourceArguments_source m),
           SourceArguments_sourceReference := GetInteger (Json_at json ''sourceReference'') 0\<rparr>"

definition ints_SourceArguments :: "SourceArguments \<Rightarrow> bool" where
  "ints_SourceArguments m \<longleftrightarrow> ints_Source (SourceArguments_source m) \<and>
     is_int32 (SourceArguments_sourceReference m)"

definition wire_SourceArguments :: "SourceArguments \<Rightarrow> bool" where
  "wire_SourceArguments m \<longleftrightarrow> ints_SourceArguments m \<and>
     wire_Source (SourceArguments_source m) \<and>
     0 \<le> SourceArguments_sourceReference m"

lemma SourceArguments_To_object [simp]: "IsObject (SourceArguments_To m)"
  by (simp add: SourceArguments_To_def Let_def)

lemma SourceArguments_To_doc [doc_intros]: "ints_SourceArguments m \<Longrightarrow> doc None (SourceArguments_To m)"
  by (auto simp: ints_SourceArguments_def SourceArguments_To_def Let_def list_all_iff intro!: doc_intros)

lemma new_SourceArguments_ints [simp]: "ints_SourceArguments new_SourceArguments"
  by (simp add: ints_SourceArguments_def new_SourceArguments_def msg_defs)

lemma SourceArguments_From_ints [ints_intros]: "ints_json j \<Longrightarrow> ints_SourceArguments m \<Longrightarrow> ints_SourceArguments (SourceArguments_From j m)"
  by (auto simp: ints_SourceArguments_def SourceArguments_From_def Let_def msg_defs intro!: ints_intros)

lemma SourceArguments_From_view [simp]:
  "SourceArguments_From (reparsed j) m = SourceArguments_From j m"
  "SourceArguments_From (map_option (set_name nm) j) m = SourceArguments_From j m"
  by (simp_all add: SourceArguments_From_def Let_def)

lemma SourceArguments_roundtrip [msg_roundtrip]: "wire_SourceArguments m \<Longrightarrow> SourceArguments_From (SourceArguments_To m) new_SourceArguments = m"
  by (cases m) (auto simp: wire_SourceArguments_def ints_SourceArguments_def new_SourceArguments_def SourceArguments_To_def SourceArguments_From_def Let_def msg_defs json_simps msg_simps msg_roundtrip)

record EvaluateArguments =
  EvaluateArguments_expression :: string
  EvaluateArguments_frameId :: int
  EvaluateArguments_context :: string
  EvaluateArguments_format :: ValueFormat

definition new_EvaluateArguments :: EvaluateArguments where
  "new_EvaluateArguments = \<lparr>EvaluateArguments_expression = [],
     EvaluateArguments_frameId = wxNOT_FOUND,
     EvaluateArguments_context = ''hover'',
     EvaluateArguments_format = new_ValueFormat\<rparr>"

definition EvaluateArguments_To :: "EvaluateArguments \<Rightarrow> Json" where
  "EvaluateArguments_To m =
     (let
         json = Json_CreateObject;
         json = Json_Add_string ''expression'' (EvaluateArguments_expression m) json;
         json = (if 0 < EvaluateArguments_frameId m then Json_Add_int ''frameId'' (EvaluateArguments_frameId m) json else json);
         json = Json_Add_string ''context'' (EvaluateArguments_context m) json;
         json = Json_Add_json ''format'' (ValueFormat_To (EvaluateArguments_format m)) json
      in json)"

definition EvaluateArguments_From :: "Json \<Rightarrow> EvaluateArguments \<Rightarrow> EvaluateArguments" where
  "EvaluateArguments_From json m =
     m \<lparr>EvaluateArguments_expression := GetString (Json_at json ''expression'') (EvaluateArguments_expression m),
           EvaluateArguments_frameId := GetInteger (Json_at json ''frameId'') wxNOT_FOUND,
           EvaluateArguments_context := GetString (Json_at json ''context'') (EvaluateArguments_context m),
           EvaluateArguments_format := ValueFormat_From (Json_at json ''format'') (EvaluateArguments_format m)\<rparr>"

definition ints_EvaluateArguments :: "EvaluateArguments \<Rightarrow> bool" where
  "ints_EvaluateArguments m \<longleftrightarrow> is_int32 (EvaluateArguments_frameId m) \<and>
     ints_ValueFormat (EvaluateArguments_format m)"

definition wire_EvaluateArguments :: "EvaluateArguments \<Rightarrow> bool" where
  "wire_EvaluateArguments m \<longleftrightarrow> ints_EvaluateArguments m \<and>
     no_nul (EvaluateArguments_expression m) \<and>
     no_nul (EvaluateArguments_context m) \<and>
     wire_ValueFormat (EvaluateArguments_format m) \<and>
     (0 < EvaluateArguments_frameId m \<or> EvaluateArguments_frameId m = wxNOT_FOUND)"

lemma EvaluateArguments_To_object [simp]: "IsObject (EvaluateArguments_To m)"
  by (simp add: EvaluateArguments_To_def Let_def)

lemma EvaluateArguments_To_doc [doc_intros]: "ints_EvaluateArguments m \<Longrightarrow> doc None (EvaluateArguments_To m)"
  by (auto simp: ints_EvaluateArguments_def EvaluateArguments_To_def Let_def list_all_iff intro!: doc_intros)

lemma new_EvaluateArguments_ints [simp]: "ints_EvaluateArguments new_EvaluateArguments"
  by (simp add: ints_EvaluateArguments_def new_EvaluateArguments_def msg_defs)

lemma EvaluateArguments_From_ints [ints_intros]: "ints_json j \<Longrightarrow> ints_EvaluateArguments m \<Longrightarrow> ints_EvaluateArguments (EvaluateArguments_From j m)"
  by (auto simp: ints_EvaluateArguments_def EvaluateArguments_From_def Let_def msg_defs intro!: ints_intros)

lemma EvaluateArguments_From_view [simp]:
  "EvaluateArguments_From (reparsed j) m = EvaluateArguments_From j m"
  "EvaluateArguments_From (map_option (set_name nm) j) m = EvaluateArguments_From j m"
  by (simp_all add: EvaluateArguments_From_def Let_def)

lemma EvaluateArguments_roundtrip [msg_roundtrip]: "wire_EvaluateArguments m \<Longrightarrow> EvaluateArguments_From (EvaluateArguments_To m) new_EvaluateArguments = m"
  by (cases m) (auto simp: wire_EvaluateArguments_def ints_EvaluateArguments_def new_EvaluateArguments_def EvaluateArguments_To_def EvaluateArguments_From_def Let_def msg_defs json_simps msg_simps msg_roundtrip)

end
