(* ===== verification/Dap_Events.thy ===== *)
theory Dap_Events
  imports Dap_Data
begin

text \<open>
  The events that the server sends: \<^verbatim>\<open>StoppedEvent\<close>, \<^verbatim>\<open>ContinuedEvent\<close>, \<^verbatim>\<open>OutputEvent\<close>, \<dots> of
  \<^verbatim>\<open>dap/dap.hpp\<close>.  The member \<^verbatim>\<open>port\<close> of \<^verbatim>\<open>DebugpyWaitingForServerEvent\<close> has no initialiser;
  \<^verbatim>\<open>From\<close> always sets it.
\<close>

definition PTR_SIZE :: int where "PTR_SIZE = 8"

lemma PTR_SIZE_int32 [simp]: "is_int32 PTR_SIZE"
  by (simp add: PTR_SIZE_def is_int32_def int_limits)

type_synonym InitializedEvent = Event

definition new_InitializedEvent :: InitializedEvent where
  "new_InitializedEvent = \<lparr>ProtocolMessage_seq = -1,
     ProtocolMessage_type = ''event'',
     Event_event = ''initialized''\<rparr>"

definition InitializedEvent_To :: "InitializedEvent \<Rightarrow> Json" where
  "InitializedEvent_To m = Event_To m"

definition InitializedEvent_From :: "Json \<Rightarrow> InitializedEvent \<Rightarrow> InitializedEvent" where
  "InitializedEvent_From json m = Event_From json m"

definition ints_InitializedEvent :: "InitializedEvent \<Rightarrow> bool" where
  "ints_InitializedEvent m \<longleftrightarrow> ints_Event m"

definition wire_InitializedEvent :: "InitializedEvent \<Rightarrow> bool" where
  "wire_InitializedEvent m \<longleftrightarrow> ints_InitializedEvent m \<and>
     wire_Event m"

lemma InitializedEvent_To_object [simp]: "IsObject (InitializedEvent_To m)"
  by (simp add: InitializedEvent_To_def Let_def)

lemma InitializedEvent_To_doc [doc_intros]: "ints_InitializedEvent m \<Longrightarrow> doc None (InitializedEvent_To m)"
  by (auto simp: ints_InitializedEvent_def InitializedEvent_To_def Let_def list_all_iff intro!: doc_intros)

lemma new_InitializedEvent_ints [simp]: "ints_InitializedEvent new_InitializedEvent"
  by (simp add: ints_InitializedEvent_def new_InitializedEvent_def msg_defs)

lemma InitializedEvent_From_ints [ints_intros]: "ints_json j \<Longrightarrow> ints_InitializedEvent m \<Longrightarrow> ints_InitializedEvent (InitializedEvent_From j m)"
  by (auto simp: ints_InitializedEvent_def InitializedEvent_From_def Let_def msg_defs intro!: ints_intros)

lemma InitializedEvent_From_view [simp]:
  "InitializedEvent_From (reparsed j) m = InitializedEvent_From j m"
  "InitializedEvent_From (map_option (set_name nm) j) m = InitializedEvent_From j m"
  by (simp_all add: InitializedEvent_From_def Let_def)

lemma InitializedEvent_roundtrip [msg_roundtrip]: "wire_InitializedEvent m \<Longrightarrow> InitializedEvent_From (InitializedEvent_To m) new_InitializedEvent = m"
  by (cases m) (simp add: wire_InitializedEvent_def ints_InitializedEvent_def new_InitializedEvent_def InitializedEvent_To_def InitializedEvent_From_def Let_def msg_defs json_simps msg_simps msg_roundtrip)

record StoppedEvent = Event +
  StoppedEvent_reason :: string
  StoppedEvent_text :: string
  StoppedEvent_description :: string
  StoppedEvent_allThreadsStopped :: bool
  StoppedEvent_threadId :: int

definition new_StoppedEvent :: StoppedEvent where
  "new_StoppedEvent = \<lparr>ProtocolMessage_seq = -1,
     ProtocolMessage_type = ''event'',
     Event_event = ''stopped'',
     StoppedEvent_reason = [],
     StoppedEvent_text = [],
     StoppedEvent_description = [],
     StoppedEvent_allThreadsStopped = False,
     StoppedEvent_threadId = wxNOT_FOUND\<rparr>"

definition StoppedEvent_To :: "StoppedEvent \<Rightarrow> Json" where
  "StoppedEvent_To m =
     (let
         json = Event_To m;
         json = Json_AddNewObject ''body'' (\<lambda>body. let
                   body = Json_Add_string ''reason'' (StoppedEvent_reason m) body;
                   body = Json_Add_string ''text'' (StoppedEvent_text m) body;
                   body = Json_Add_string ''description'' (StoppedEvent_description m) body;
                   body = Json_Add_bool ''allThreadsStopped'' (StoppedEvent_allThreadsStopped m) body;
                   body = Json_Add_int ''threadId'' (StoppedEvent_threadId m) body
                 in body) json
      in json)"

definition StoppedEvent_From :: "Json \<Rightarrow> StoppedEvent \<Rightarrow> StoppedEvent" where
  "StoppedEvent_From json m =
     (let m = Event_From json m;
          body = Json_at json ''body''
      in m \<lparr>StoppedEvent_reason := GetString (Json_at body ''reason'') [],
           StoppedEvent_text := GetString (Json_at body ''text'') [],
           StoppedEvent_description := GetString (Json_at body ''description'') [],
           StoppedEvent_allThreadsStopped := GetBool (Json_at body ''allThreadsStopped'') False,
           StoppedEvent_threadId := GetInteger (Json_at body ''threadId'') wxNOT_FOUND\<rparr>)"

definition ints_StoppedEvent :: "StoppedEvent \<Rightarrow> bool" where
  "ints_StoppedEvent m \<longleftrightarrow> ints_Event m \<and>
     is_int32 (StoppedEvent_threadId m)"

definition wire_StoppedEvent :: "StoppedEvent \<Rightarrow> bool" where
  "wire_StoppedEvent m \<longleftrightarrow> ints_StoppedEvent m \<and>
     wire_Event m \<and>
     no_nul (StoppedEvent_reason m) \<and>
     no_nul (StoppedEvent_text m) \<and>
     no_nul (StoppedEvent_description m)"

lemma StoppedEvent_To_object [simp]: "IsObject (StoppedEvent_To m)"
  by (simp add: StoppedEvent_To_def Let_def)

lemma StoppedEvent_To_doc [doc_intros]: "ints_StoppedEvent m \<Longrightarrow> doc None (StoppedEvent_To m)"
  by (auto simp: ints_StoppedEvent_def StoppedEvent_To_def Let_def list_all_iff intro!: doc_intros)

lemma new_StoppedEvent_ints [simp]: "ints_StoppedEvent new_StoppedEvent"
  by (simp add: ints_StoppedEvent_def new_StoppedEvent_def msg_defs)

lemma StoppedEvent_From_ints [ints_intros]: "ints_json j \<Longrightarrow> ints_StoppedEvent m \<Longrightarrow> ints_StoppedEvent (StoppedEvent_From j m)"
  by (auto simp: ints_StoppedEvent_def StoppedEvent_From_def Let_def msg_defs intro!: ints_intros)

lemma StoppedEvent_From_view [simp]:
  "StoppedEvent_From (reparsed j) m = StoppedEvent_From j m"
  "StoppedEvent_From (map_option (set_name nm) j) m = StoppedEvent_From j m"
  by (simp_all add: StoppedEvent_From_def Let_def)

lemma StoppedEvent_roundtrip [msg_roundtrip]: "wire_StoppedEvent m \<Longrightarrow> StoppedEvent_From (StoppedEvent_To m) new_StoppedEvent = m"
  by (cases m) (simp add: wire_StoppedEvent_def ints_StoppedEvent_def new_StoppedEvent_def StoppedEvent_To_def StoppedEvent_From_def Let_def msg_defs json_simps msg_simps msg_roundtrip)

record ContinuedEvent = Event +
  ContinuedEvent_threadId :: int
  ContinuedEvent_allThreadsContinued :: bool

definition new_ContinuedEvent :: ContinuedEvent where
  "new_ContinuedEvent = \<lparr>ProtocolMessage_seq = -1,
     ProtocolMessage_type = ''event'',
     Event_event = ''continued'',
     ContinuedEvent_threadId = -1,
     ContinuedEvent_allThreadsContinued = True\<rparr>"

definition ContinuedEvent_To :: "ContinuedEvent \<Rightarrow> Json" where
  "ContinuedEvent_To m =
     (let
         json = Event_To m;
         json = Json_AddNewObject ''body'' (\<lambda>body. let
                   body = Json_Add_int ''threadId'' (ContinuedEvent_threadId m) body;
                   body = Json_Add_bool ''allThreadsContinued'' (ContinuedEvent_allThreadsContinued m) body
                 in body) json
      in json)"

definition ContinuedEvent_From :: "Json \<Rightarrow> ContinuedEvent \<Rightarrow> ContinuedEvent" where
  "ContinuedEvent_From json m =
     (let m = Event_From json m;
          body = Json_at json ''body''
      in m \<lparr>ContinuedEvent_threadId := GetInteger (Json_at body ''threadId'') (-1),
           ContinuedEvent_allThreadsContinued := GetBool (Json_at body ''allThreadsContinued'') False\<rparr>)"

definition ints_ContinuedEvent :: "ContinuedEvent \<Rightarrow> bool" where
  "ints_ContinuedEvent m \<longleftrightarrow> ints_Event m \<and>
     is_int32 (ContinuedEvent_threadId m)"

definition wire_ContinuedEvent :: "ContinuedEvent \<Rightarrow> bool" where
  "wire_ContinuedEvent m \<longleftrightarrow> ints_ContinuedEvent m \<and>
     wire_Event m"

lemma ContinuedEvent_To_object [simp]: "IsObject (ContinuedEvent_To m)"
  by (simp add: ContinuedEvent_To_def Let_def)

lemma ContinuedEvent_To_doc [doc_intros]: "ints_ContinuedEvent m \<Longrightarrow> doc None (ContinuedEvent_To m)"
  by (auto simp: ints_ContinuedEvent_def ContinuedEvent_To_def Let_def list_all_iff intro!: doc_intros)

lemma new_ContinuedEvent_ints [simp]: "ints_ContinuedEvent new_ContinuedEvent"
  by (simp add: ints_ContinuedEvent_def new_ContinuedEvent_def msg_defs)

lemma ContinuedEvent_From_ints [ints_intros]: "ints_json j \<Longrightarrow> ints_ContinuedEvent m \<Longrightarrow> ints_ContinuedEvent (ContinuedEvent_From j m)"
  by (auto simp: ints_ContinuedEvent_def ContinuedEvent_From_def Let_def msg_defs intro!: ints_intros)

lemma ContinuedEvent_From_view [simp]:
  "ContinuedEvent_From (reparsed j) m = ContinuedEvent_From j m"
  "ContinuedEvent_From (map_option (set_name nm) j) m = ContinuedEvent_From j m"
  by (simp_all add: ContinuedEvent_From_def Let_def)

lemma ContinuedEvent_roundtrip [msg_roundtrip]: "wire_ContinuedEvent m \<Longrightarrow> ContinuedEvent_From (ContinuedEvent_To m) new_ContinuedEvent = m"
  by (cases m) (simp add: wire_ContinuedEvent_def ints_ContinuedEvent_def new_ContinuedEvent_def ContinuedEvent_To_def ContinuedEvent_From_def Let_def msg_defs json_simps msg_simps msg_roundtrip)

record ExitedEvent = Event +
  ExitedEvent_exitCode :: int

definition new_ExitedEvent :: ExitedEvent where
  "new_ExitedEvent = \<lparr>ProtocolMessage_seq = -1,
     ProtocolMessage_type = ''event'',
     Event_event = ''exited'',
     ExitedEvent_exitCode = 0\<rparr>"

definition ExitedEvent_To :: "ExitedEvent \<Rightarrow> Json" where
  "ExitedEvent_To m =
     (let
         json = Event_To m;
         json = Json_AddNewObject ''body'' (\<lambda>body. let
                   body = Json_Add_int ''exitCode'' (ExitedEvent_exitCode m) body
                 in body) json
      in json)"

definition ExitedEvent_From :: "Json \<Rightarrow> ExitedEvent \<Rightarrow> ExitedEvent" where
  "ExitedEvent_From json m =
     (let m = Event_From json m;
          body = Json_at json ''body''
      in m \<lparr>ExitedEvent_exitCode := GetInteger (Json_at body ''exitCode'') (-1)\<rparr>)"

definition ints_ExitedEvent :: "ExitedEvent \<Rightarrow> bool" where
  "ints_ExitedEvent m \<longleftrightarrow> ints_Event m \<and>
     is_int32 (ExitedEvent_exitCode m)"

definition wire_ExitedEvent :: "ExitedEvent \<Rightarrow> bool" where
  "wire_ExitedEvent m \<longleftrightarrow> ints_ExitedEvent m \<and>
     wire_Event m"

lemma ExitedEvent_To_object [simp]: "IsObject (ExitedEvent_To m)"
  by (simp add: ExitedEvent_To_def Let_def)

lemma ExitedEvent_To_doc [doc_intros]: "ints_ExitedEvent m \<Longrightarrow> doc None (ExitedEvent_To m)"
  by (auto simp: ints_ExitedEvent_def ExitedEvent_To_def Let_def list_all_iff intro!: doc_intros)

lemma new_ExitedEvent_ints [simp]: "ints_ExitedEvent new_ExitedEvent"
  by (simp add: ints_ExitedEvent_def new_ExitedEvent_def msg_defs)

lemma ExitedEvent_From_ints [ints_intros]: "ints_json j \<Longrightarrow> ints_ExitedEvent m \<Longrightarrow> ints_ExitedEvent (ExitedEvent_From j m)"
  by (auto simp: ints_ExitedEvent_def ExitedEvent_From_def Let_def msg_defs intro!: ints_intros)

lemma ExitedEvent_From_view [simp]:
  "ExitedEvent_From (reparsed j) m = ExitedEvent_From j m"
  "ExitedEvent_From (map_option (set_name nm) j) m = ExitedEvent_From j m"
  by (simp_all add: ExitedEvent_From_def Let_def)

lemma ExitedEvent_roundtrip [msg_roundtrip]: "wire_ExitedEvent m \<Longrightarrow> ExitedEvent_From (ExitedEvent_To m) new_ExitedEvent = m"
  by (cases m) (simp add: wire_ExitedEvent_def ints_ExitedEvent_def new_ExitedEvent_def ExitedEvent_To_def ExitedEvent_From_def Let_def msg_defs json_simps msg_simps msg_roundtrip)

type_synonym TerminatedEvent = Event

definition new_TerminatedEvent :: TerminatedEvent where
  "new_TerminatedEvent = \<lparr>ProtocolMessage_seq = -1,
     ProtocolMessage_type = ''event'',
     Event_event = ''terminated''\<rparr>"

definition TerminatedEvent_To :: "TerminatedEvent \<Rightarrow> Json" where
  "TerminatedEvent_To m = Event_To m"

definition TerminatedEvent_From :: "Json \<Rightarrow> TerminatedEvent \<Rightarrow> TerminatedEvent" where
  "TerminatedEvent_From json m = Event_From json m"

definition ints_TerminatedEvent :: "TerminatedEvent \<Rightarrow> bool" where
  "ints_TerminatedEvent m \<longleftrightarrow> ints_Event m"

definition wire_TerminatedEvent :: "TerminatedEvent \<Rightarrow> bool" where
  "wire_TerminatedEvent m \<longleftrightarrow> ints_TerminatedEvent m \<and>
     wire_Event m"

lemma TerminatedEvent_To_object [simp]: "IsObject (TerminatedEvent_To m)"
  by (simp add: TerminatedEvent_To_def Let_def)

lemma TerminatedEvent_To_doc [doc_intros]: "ints_TerminatedEvent m \<Longrightarrow> doc None (TerminatedEvent_To m)"
  by (auto simp: ints_TerminatedEvent_def TerminatedEvent_To_def Let_def list_all_iff intro!: doc_intros)

lemma new_TerminatedEvent_ints [simp]: "ints_TerminatedEvent new_TerminatedEvent"
  by (simp add: ints_TerminatedEvent_def new_TerminatedEvent_def msg_defs)

lemma TerminatedEvent_From_ints [ints_intros]: "ints_json j \<Longrightarrow> ints_TerminatedEvent m \<Longrightarrow> ints_TerminatedEvent (TerminatedEvent_From j m)"
  by (auto simp: ints_TerminatedEvent_def TerminatedEvent_From_def Let_def msg_defs intro!: ints_intros)

lemma TerminatedEvent_From_view [simp]:
  "TerminatedEvent_From (reparsed j) m = TerminatedEvent_From j m"
  "TerminatedEvent_From (map_option (set_name nm) j) m = TerminatedEvent_From j m"
  by (simp_all add: TerminatedEvent_From_def Let_def)

lemma TerminatedEvent_roundtrip [msg_roundtrip]: "wire_TerminatedEvent m \<Longrightarrow> TerminatedEvent_From (TerminatedEvent_To m) new_TerminatedEvent = m"
  by (cases m) (simp add: wire_TerminatedEvent_def ints_TerminatedEvent_def new_TerminatedEvent_def TerminatedEvent_To_def TerminatedEvent_From_def Let_def msg_defs json_simps msg_simps msg_roundtrip)

record ThreadEvent = Event +
  ThreadEvent_reason :: string
  ThreadEvent_threadId :: int

definition new_ThreadEvent :: ThreadEvent where
  "new_ThreadEvent = \<lparr>ProtocolMessage_seq = -1,
     ProtocolMessage_type = ''event'',
     Event_event = ''thread'',
     ThreadEvent_reason = [],
     ThreadEvent_threadId = 0\<rparr>"

definition ThreadEvent_To :: "ThreadEvent \<Rightarrow> Json" where
  "ThreadEvent_To m =
     (let
         json = Event_To m;
         json = Json_AddNewObject ''body'' (\<lambda>body. let
                   body = Json_Add_string ''reason'' (ThreadEvent_reason m) body;
                   body = Json_Add_int ''threadId'' (ThreadEvent_threadId m) body
                 in body) json
      in json)"

definition ThreadEvent_From :: "Json \<Rightarrow> ThreadEvent \<Rightarrow> ThreadEvent" where
  "ThreadEvent_From json m =
     (let m = Event_From json m;
          body = Json_at json ''body''
      in m \<lparr>ThreadEvent_reason := GetString (Json_at body ''reason'') [],
           ThreadEvent_threadId := GetInteger (Json_at body ''threadId'') (-1)\<rparr>)"

definition ints_ThreadEvent :: "ThreadEvent \<Rightarrow> bool" where
  "ints_ThreadEvent m \<longleftrightarrow> ints_Event m \<and>
     is_int32 (ThreadEvent_threadId m)"

definition wire_ThreadEvent :: "ThreadEvent \<Rightarrow> bool" where
  "wire_ThreadEvent m \<longleftrightarrow> ints_ThreadEvent m \<and>
     wire_Event m \<and>
     no_nul (ThreadEvent_reason m)"

lemma ThreadEvent_To_object [simp]: "IsObject (ThreadEvent_To m)"
  by (simp add: ThreadEvent_To_def Let_def)

lemma ThreadEvent_To_doc [doc_intros]: "ints_ThreadEvent m \<Longrightarrow> doc None (ThreadEvent_To m)"
  by (auto simp: ints_ThreadEvent_def ThreadEvent_To_def Let_def list_all_iff intro!: doc_intros)

lemma new_ThreadEvent_ints [simp]: "ints_ThreadEvent new_ThreadEvent"
  by (simp add: ints_ThreadEvent_def new_ThreadEvent_def msg_defs)

lemma ThreadEvent_From_ints [ints_intros]: "ints_json j \<Longrightarrow> ints_ThreadEvent m \<Longrightarrow> ints_ThreadEvent (ThreadEvent_From j m)"
  by (auto simp: ints_ThreadEvent_def ThreadEvent_From_def Let_def msg_defs intro!: ints_intros)

lemma ThreadEvent_From_view [simp]:
  "ThreadEvent_From (reparsed j) m = ThreadEvent_From j m"
  "ThreadEvent_From (map_option (set_name nm) j) m = ThreadEvent_From j m"
  by (simp_all add: ThreadEvent_From_def Let_def)

lemma ThreadEvent_roundtrip [msg_roundtrip]: "wire_ThreadEvent m \<Longrightarrow> ThreadEvent_From (ThreadEvent_To m) new_ThreadEvent = m"
  by (cases m) (simp add: wire_ThreadEvent_def ints_ThreadEvent_def new_ThreadEvent_def ThreadEvent_To_def ThreadEvent_From_def Let_def msg_defs json_simps msg_simps msg_roundtrip)

record OutputEvent = Event +
  OutputEvent_category :: string
  OutputEvent_output :: string

definition new_OutputEvent :: OutputEvent where
  "new_OutputEvent = \<lparr>ProtocolMessage_seq = -1,
     ProtocolMessage_type = ''event'',
     Event_event = ''output'',
     OutputEvent_category = [],
     OutputEvent_output = []\<rparr>"

definition OutputEvent_To :: "OutputEvent \<Rightarrow> Json" where
  "OutputEvent_To m =
     (let
         json = Event_To m;
         json = Json_AddNewObject ''body'' (\<lambda>body. let
                   body = Json_Add_string ''category'' (OutputEvent_category m) body;
                   body = Json_Add_string ''output'' (OutputEvent_output m) body
                 in body) json
      in json)"

definition OutputEvent_From :: "Json \<Rightarrow> OutputEvent \<Rightarrow> OutputEvent" where
  "OutputEvent_From json m =
     (let m = Event_From json m;
          body = Json_at json ''body''
      in m \<lparr>OutputEvent_category := GetString (Json_at body ''category'') [],
           OutputEvent_output := GetString (Json_at body ''output'') []\<rparr>)"

definition ints_OutputEvent :: "OutputEvent \<Rightarrow> bool" where
  "ints_OutputEvent m \<longleftrightarrow> ints_Event m"

definition wire_OutputEvent :: "OutputEvent \<Rightarrow> bool" where
  "wire_OutputEvent m \<longleftrightarrow> ints_OutputEvent m \<and>
     wire_Event m \<and>
     no_nul (OutputEvent_category m) \<and>
     no_nul (OutputEvent_output m)"

lemma OutputEvent_To_object [simp]: "IsObject (OutputEvent_To m)"
  by (simp add: OutputEvent_To_def Let_def)

lemma OutputEvent_To_doc [doc_intros]: "ints_OutputEvent m \<Longrightarrow> doc None (OutputEvent_To m)"
  by (auto simp: ints_OutputEvent_def OutputEvent_To_def Let_def list_all_iff intro!: doc_intros)

lemma new_OutputEvent_ints [simp]: "ints_OutputEvent new_OutputEvent"
  by (simp add: ints_OutputEvent_def new_OutputEvent_def msg_defs)

lemma OutputEvent_From_ints [ints_intros]: "ints_json j \<Longrightarrow> ints_OutputEvent m \<Longrightarrow> ints_OutputEvent (OutputEvent_From j m)"
  by (auto simp: ints_OutputEvent_def OutputEvent_From_def Let_def msg_defs intro!: ints_intros)

lemma OutputEvent_From_view [simp]:
  "OutputEvent_From (reparsed j) m = OutputEvent_From j m"
  "OutputEvent_From (map_option (set_name nm) j) m = OutputEvent_From j m"
  by (simp_all add: OutputEvent_From_def Let_def)

lemma OutputEvent_roundtrip [msg_roundtrip]: "wire_OutputEvent m \<Longrightarrow> OutputEvent_From (OutputEvent_To m) new_OutputEvent = m"
  by (cases m) (simp add: wire_OutputEvent_def ints_OutputEvent_def new_OutputEvent_def OutputEvent_To_def OutputEvent_From_def Let_def msg_defs json_simps msg_simps msg_roundtrip)

record BreakpointEvent = Event +
  BreakpointEvent_reason :: string
  BreakpointEvent_breakpoint :: Breakpoint

definition new_BreakpointEvent :: BreakpointEvent where
  "new_BreakpointEvent = \<lparr>ProtocolMessage_seq = -1,
     ProtocolMessage_type = ''event'',
     Event_event = ''breakpoint'',
     BreakpointEvent_reason = [],
     BreakpointEvent_breakpoint = new_Breakpoint\<rparr>"

definition BreakpointEvent_To :: "BreakpointEvent \<Rightarrow> Json" where
  "BreakpointEvent_To m =
     (let
         json = Event_To m;
         json = Json_AddNewObject ''body'' (\<lambda>body. let
                   body = Json_Add_string ''reason'' (BreakpointEvent_reason m) body;
                   body = Json_AddObject ''breakpoint'' (Breakpoint_To (BreakpointEvent_breakpoint m)) body
                 in body) json
      in json)"

definition BreakpointEvent_From :: "Json \<Rightarrow> BreakpointEvent \<Rightarrow> BreakpointEvent" where
  "BreakpointEvent_From json m =
     (let m = Event_From json m;
          body = Json_at json ''body''
      in m \<lparr>BreakpointEvent_reason := GetString (Json_at body ''reason'') [],
           BreakpointEvent_breakpoint := Breakpoint_From (Json_at body ''breakpoint'') (BreakpointEvent_breakpoint m)\<rparr>)"

definition ints_BreakpointEvent :: "BreakpointEvent \<Rightarrow> bool" where
  "ints_BreakpointEvent m \<longleftrightarrow> ints_Event m \<and>
     ints_Breakpoint (BreakpointEvent_breakpoint m)"

definition wire_BreakpointEvent :: "BreakpointEvent \<Rightarrow> bool" where
  "wire_BreakpointEvent m \<longleftrightarrow> ints_BreakpointEvent m \<and>
     wire_Event m \<and>
     no_nul (BreakpointEvent_reason m) \<and>
     wire_Breakpoint (BreakpointEvent_breakpoint m)"

lemma BreakpointEvent_To_object [simp]: "IsObject (BreakpointEvent_To m)"
  by (simp add: BreakpointEvent_To_def Let_def)

lemma BreakpointEvent_To_doc [doc_intros]: "ints_BreakpointEvent m \<Longrightarrow> doc None (BreakpointEvent_To m)"
  by (auto simp: ints_BreakpointEvent_def BreakpointEvent_To_def Let_def list_all_iff intro!: doc_intros)

lemma new_BreakpointEvent_ints [simp]: "ints_BreakpointEvent new_BreakpointEvent"
  by (simp add: ints_BreakpointEvent_def new_BreakpointEvent_def msg_defs)

lemma BreakpointEvent_From_ints [ints_intros]: "ints_json j \<Longrightarrow> ints_BreakpointEvent m \<Longrightarrow> ints_BreakpointEvent (BreakpointEvent_From j m)"
  by (auto simp: ints_BreakpointEvent_def BreakpointEvent_From_def Let_def msg_defs intro!: ints_intros)

lemma BreakpointEvent_From_view [simp]:
  "BreakpointEvent_From (reparsed j) m = BreakpointEvent_From j m"
  "BreakpointEvent_From (map_option (set_name nm) j) m = BreakpointEvent_From j m"
  by (simp_all add: BreakpointEvent_From_def Let_def)

lemma BreakpointEvent_roundtrip [msg_roundtrip]: "wire_BreakpointEvent m \<Longrightarrow> BreakpointEvent_From (BreakpointEvent_To m) new_BreakpointEvent = m"
  by (cases m) (simp add: wire_BreakpointEvent_def ints_BreakpointEvent_def new_BreakpointEvent_def BreakpointEvent_To_def BreakpointEvent_From_def Let_def msg_defs json_simps msg_simps msg_roundtrip)

record ProcessEvent = Event +
  ProcessEvent_name :: string
  ProcessEvent_systemProcessId :: int
  ProcessEvent_isLocalProcess :: bool
  ProcessEvent_startMethod :: string
  ProcessEvent_pointerSize :: int

definition new_ProcessEvent :: ProcessEvent where
  "new_ProcessEvent = \<lparr>ProtocolMessage_seq = -1,
     ProtocolMessage_type = ''event'',
     Event_event = ''process'',
     ProcessEvent_name = [],
     ProcessEvent_systemProcessId = -1,
     ProcessEvent_isLocalProcess = True,
     ProcessEvent_startMethod = [],
     ProcessEvent_pointerSize = PTR_SIZE\<rparr>"

definition ProcessEvent_To :: "ProcessEvent \<Rightarrow> Json" where
  "ProcessEvent_To m =
     (let
         json = Event_To m;
         json = Json_AddNewObject ''body'' (\<lambda>body. let
                   body = Json_Add_string ''name'' (ProcessEvent_name m) body;
                   body = Json_Add_int ''systemProcessId'' (ProcessEvent_systemProcessId m) body;
                   body = Json_Add_bool ''isLocalProcess'' (ProcessEvent_isLocalProcess m) body;
                   body = Json_Add_string ''startMethod'' (ProcessEvent_startMethod m) body;
                   body = Json_Add_int ''pointerSize'' (ProcessEvent_pointerSize m) body
                 in body) json
      in json)"

definition ProcessEvent_From :: "Json \<Rightarrow> ProcessEvent \<Rightarrow> ProcessEvent" where
  "ProcessEvent_From json m =
     (let m = Event_From json m;
          body = Json_at json ''body''
      in m \<lparr>ProcessEvent_name := GetString (Json_at body ''name'') [],
           ProcessEvent_systemProcessId := GetInteger (Json_at body ''systemProcessId'') (-1),
           ProcessEvent_isLocalProcess := GetBool (Json_at body ''isLocalProcess'') True,
           ProcessEvent_startMethod := GetString (Json_at body ''startMethod'') [],
           ProcessEvent_pointerSize := GetInteger (Json_at body ''pointerSize'') (-1)\<rparr>)"

definition ints_ProcessEvent :: "ProcessEvent \<Rightarrow> bool" where
  "ints_ProcessEvent m \<longleftrightarrow> ints_Event m \<and>
     is_int32 (ProcessEvent_systemProcessId m) \<and>
     is_int32 (ProcessEvent_pointerSize m)"

definition wire_ProcessEvent :: "ProcessEvent \<Rightarrow> bool" where
  "wire_ProcessEvent m \<longleftrightarrow> ints_ProcessEvent m \<and>
     wire_Event m \<and>
     no_nul (ProcessEvent_name m) \<and>
     no_nul (ProcessEvent_startMethod m) \<and>
     ProcessEvent_isLocalProcess m"

lemma ProcessEvent_To_object [simp]: "IsObject (ProcessEvent_To m)"
  by (simp add: ProcessEvent_To_def Let_def)

lemma ProcessEvent_To_doc [doc_intros]: "ints_ProcessEvent m \<Longrightarrow> doc None (ProcessEvent_To m)"
  by (auto simp: ints_ProcessEvent_def ProcessEvent_To_def Let_def list_all_iff intro!: doc_intros)

lemma new_ProcessEvent_ints [simp]: "ints_ProcessEvent new_ProcessEvent"
  by (simp add: ints_ProcessEvent_def new_ProcessEvent_def msg_defs)

lemma ProcessEvent_From_ints [ints_intros]: "ints_json j \<Longrightarrow> ints_ProcessEvent m \<Longrightarrow> ints_ProcessEvent (ProcessEvent_From j m)"
  by (auto simp: ints_ProcessEvent_def ProcessEvent_From_def Let_def msg_defs intro!: ints_intros)

lemma ProcessEvent_From_view [simp]:
  "ProcessEvent_From (reparsed j) m = ProcessEvent_From j m"
  "ProcessEvent_From (map_option (set_name nm) j) m = ProcessEvent_From j m"
  by (simp_all add: ProcessEvent_From_def Let_def)

lemma ProcessEvent_roundtrip [msg_roundtrip]: "wire_ProcessEvent m \<Longrightarrow> ProcessEvent_From (ProcessEvent_To m) new_ProcessEvent = m"
  by (cases m) (simp add: wire_ProcessEvent_def ints_ProcessEvent_def new_ProcessEvent_def ProcessEvent_To_def ProcessEvent_From_def Let_def msg_defs json_simps msg_simps msg_roundtrip)

record ModuleEvent = Event +
  ModuleEvent_reason :: string
  ModuleEvent_module :: Module

definition new_ModuleEvent :: ModuleEvent where
  "new_ModuleEvent = \<lparr>ProtocolMessage_seq = -1,
     ProtocolMessage_type = ''event'',
     Event_event = ''module'',
     ModuleEvent_reason = [],
     ModuleEvent_module = new_Module\<rparr>"

definition ModuleEvent_To :: "ModuleEvent \<Rightarrow> Json" where
  "ModuleEvent_To m =
     (let
         json = Event_To m;
         json = Json_AddNewObject ''body'' (\<lambda>body. let
                   body = Json_Add_string ''reason'' (ModuleEvent_reason m) body;
                   body = Json_AddObject ''module'' (Module_To (ModuleEvent_module m)) body
                 in body) json
      in json)"

definition ModuleEvent_From :: "Json \<Rightarrow> ModuleEvent \<Rightarrow> ModuleEvent" where
  "ModuleEvent_From json m =
     (let m = Event_From json m;
          body = Json_at json ''body''
      in m \<lparr>ModuleEvent_reason := GetString (Json_at body ''reason'') [],
           ModuleEvent_module := Module_From (Json_at body ''module'') (ModuleEvent_module m)\<rparr>)"

definition ints_ModuleEvent :: "ModuleEvent \<Rightarrow> bool" where
  "ints_ModuleEvent m \<longleftrightarrow> ints_Event m \<and>
     ints_Module (ModuleEvent_module m)"

definition wire_ModuleEvent :: "ModuleEvent \<Rightarrow> bool" where
  "wire_ModuleEvent m \<longleftrightarrow> ints_ModuleEvent m \<and>
     wire_Event m \<and>
     no_nul (ModuleEvent_reason m) \<and>
     wire_Module (ModuleEvent_module m)"

lemma ModuleEvent_To_object [simp]: "IsObject (ModuleEvent_To m)"
  by (simp add: ModuleEvent_To_def Let_def)

lemma ModuleEvent_To_doc [doc_intros]: "ints_ModuleEvent m \<Longrightarrow> doc None (ModuleEvent_To m)"
  by (auto simp: ints_ModuleEvent_def ModuleEvent_To_def Let_def list_all_iff intro!: doc_intros)

lemma new_ModuleEvent_ints [simp]: "ints_ModuleEvent new_ModuleEvent"
  by (simp add: ints_ModuleEvent_def new_ModuleEvent_def msg_defs)

lemma ModuleEvent_From_ints [ints_intros]: "ints_json j \<Longrightarrow> ints_ModuleEvent m \<Longrightarrow> ints_ModuleEvent (ModuleEvent_From j m)"
  by (auto simp: ints_ModuleEvent_def ModuleEvent_From_def Let_def msg_defs intro!: ints_intros)

lemma ModuleEvent_From_view [simp]:
  "ModuleEvent_From (reparsed j) m = ModuleEvent_From j m"
  "ModuleEvent_From (map_option (set_name nm) j) m = ModuleEvent_From j m"
  by (simp_all add: ModuleEvent_From_def Let_def)

lemma ModuleEvent_roundtrip [msg_roundtrip]: "wire_ModuleEvent m \<Longrightarrow> ModuleEvent_From (ModuleEvent_To m) new_ModuleEvent = m"
  by (cases m) (simp add: wire_ModuleEvent_def ints_ModuleEvent_def new_ModuleEvent_def ModuleEvent_To_def ModuleEvent_From_def Let_def msg_defs json_simps msg_simps msg_roundtrip)

record DebugpyWaitingForServerEvent = Event +
  DebugpyWaitingForServerEvent_host :: string
  DebugpyWaitingForServerEvent_port :: int

definition new_DebugpyWaitingForServerEvent :: DebugpyWaitingForServerEvent where
  "new_DebugpyWaitingForServerEvent = \<lparr>ProtocolMessage_seq = -1,
     ProtocolMessage_type = ''event'',
     Event_event = [],
     DebugpyWaitingForServerEvent_host = [],
     DebugpyWaitingForServerEvent_port = 0\<rparr>"

definition DebugpyWaitingForServerEvent_To :: "DebugpyWaitingForServerEvent \<Rightarrow> Json" where
  "DebugpyWaitingForServerEvent_To m =
     (let
         json = Event_To m;
         json = Json_AddNewObject ''body'' (\<lambda>body. let
                   body = Json_Add_string ''host'' (DebugpyWaitingForServerEvent_host m) body;
                   body = Json_Add_int ''port'' (DebugpyWaitingForServerEvent_port m) body
                 in body) json
      in json)"

definition DebugpyWaitingForServerEvent_From :: "Json \<Rightarrow> DebugpyWaitingForServerEvent \<Rightarrow> DebugpyWaitingForServerEvent" where
  "DebugpyWaitingForServerEvent_From json m =
     (let m = Event_From json m;
          body = Json_at json ''body''
      in m \<lparr>DebugpyWaitingForServerEvent_host := GetString (Json_at body ''host'') [],
           DebugpyWaitingForServerEvent_port := GetInteger (Json_at body ''port'') (-1)\<rparr>)"

definition ints_DebugpyWaitingForServerEvent :: "DebugpyWaitingForServerEvent \<Rightarrow> bool" where
  "ints_DebugpyWaitingForServerEvent m \<longleftrightarrow> ints_Event m \<and>
     is_int32 (DebugpyWaitingForServerEvent_port m)"

definition wire_DebugpyWaitingForServerEvent :: "DebugpyWaitingForServerEvent \<Rightarrow> bool" where
  "wire_DebugpyWaitingForServerEvent m \<longleftrightarrow> ints_DebugpyWaitingForServerEvent m \<and>
     wire_Event m \<and>
     no_nul (DebugpyWaitingForServerEvent_host m)"

lemma DebugpyWaitingForServerEvent_To_object [simp]: "IsObject (DebugpyWaitingForServerEvent_To m)"
  by (simp add: DebugpyWaitingForServerEvent_To_def Let_def)

lemma DebugpyWaitingForServerEvent_To_doc [doc_intros]: "ints_DebugpyWaitingForServerEvent m \<Longrightarrow> doc None (DebugpyWaitingForServerEvent_To m)"
  by (auto simp: ints_DebugpyWaitingForServerEvent_def DebugpyWaitingForServerEvent_To_def Let_def list_all_iff intro!: doc_intros)

lemma new_DebugpyWaitingForServerEvent_ints [simp]: "ints_DebugpyWaitingForServerEvent new_DebugpyWaitingForServerEvent"
  by (simp add: ints_DebugpyWaitingForServerEvent_def new_DebugpyWaitingForServerEvent_def msg_defs)

lemma DebugpyWaitingForServerEvent_From_ints [ints_intros]: "ints_json j \<Longrightarrow> ints_DebugpyWaitingForServerEvent m \<Longrightarrow> ints_DebugpyWaitingForServerEvent (DebugpyWaitingForServerEvent_From j m)"
  by (auto simp: ints_DebugpyWaitingForServerEvent_def DebugpyWaitingForServerEvent_From_def Let_def msg_defs intro!: ints_intros)

lemma DebugpyWaitingForServerEvent_From_view [simp]:
  "DebugpyWaitingForServerEvent_From (reparsed j) m = DebugpyWaitingForServerEvent_From j m"
  "DebugpyWaitingForServerEvent_From (map_option (set_name nm) j) m = DebugpyWaitingForServerEvent_From j m"
  by (simp_all add: DebugpyWaitingForServerEvent_From_def Let_def)

lemma DebugpyWaitingForServerEvent_roundtrip [msg_roundtrip]: "wire_DebugpyWaitingForServerEvent m \<Longrightarrow> DebugpyWaitingForServerEvent_From (DebugpyWaitingForServerEvent_To m) new_DebugpyWaitingForServerEvent = m"
  by (cases m) (simp add: wire_DebugpyWaitingForServerEvent_def ints_DebugpyWaitingForServerEvent_def new_DebugpyWaitingForServerEvent_def DebugpyWaitingForServerEvent_To_def DebugpyWaitingForServerEvent_From_def Let_def msg_defs json_simps msg_simps msg_roundtrip)

end
