(* ===== verification/Dap_Requests.thy ===== *)
theory Dap_Requests
  imports Dap_Data
begin

text \<open>The requests of \<^verbatim>\<open>dap/dap.hpp\<close>.\<close>

record CancelRequest = Request +
  CancelRequest_requestId :: int

definition new_CancelRequest :: CancelRequest where
  "new_CancelRequest = \<lparr>ProtocolMessage_seq = -1,
     ProtocolMessage_type = ''request'',
     Request_command = ''cancel'',
     CancelRequest_requestId = -1\<rparr>"

definition CancelRequest_To :: "CancelRequest \<Rightarrow> Json" where
  "CancelRequest_To m =
     (let
         json = Request_To m;
         json = Json_AddNewObject ''arguments'' (\<lambda>arguments. let
                   arguments = Json_Add_int ''requestId'' (CancelRequest_requestId m) arguments
                 in arguments) json
      in json)"

definition CancelRequest_From :: "Json \<Rightarrow> CancelRequest \<Rightarrow> CancelRequest" where
  "CancelRequest_From json m =
     (let m = Request_From json m
      in m \<lparr>CancelRequest_requestId := (if IsOK (Json_at json ''arguments'') then GetInteger (Json_at json ''arguments'') (-1) else CancelRequest_requestId m)\<rparr>)"

definition ints_CancelRequest :: "CancelRequest \<Rightarrow> bool" where
  "ints_CancelRequest m \<longleftrightarrow> ints_Request m \<and>
     is_int32 (CancelRequest_requestId m)"

definition wire_CancelRequest :: "CancelRequest \<Rightarrow> bool" where
  "wire_CancelRequest m \<longleftrightarrow> ints_CancelRequest m \<and>
     wire_Request m \<and>
     CancelRequest_requestId m = -1"

lemma CancelRequest_To_object [simp]: "IsObject (CancelRequest_To m)"
  by (simp add: CancelRequest_To_def Let_def)

lemma CancelRequest_To_doc [doc_intros]: "ints_CancelRequest m \<Longrightarrow> doc None (CancelRequest_To m)"
  by (auto simp: ints_CancelRequest_def CancelRequest_To_def Let_def list_all_iff intro!: doc_intros)

lemma new_CancelRequest_ints [simp]: "ints_CancelRequest new_CancelRequest"
  by (simp add: ints_CancelRequest_def new_CancelRequest_def msg_defs)

lemma CancelRequest_From_ints [ints_intros]: "ints_json j \<Longrightarrow> ints_CancelRequest m \<Longrightarrow> ints_CancelRequest (CancelRequest_From j m)"
  by (auto simp: ints_CancelRequest_def CancelRequest_From_def Let_def msg_defs intro!: ints_intros)

lemma CancelRequest_From_view [simp]:
  "CancelRequest_From (reparsed j) m = CancelRequest_From j m"
  "CancelRequest_From (map_option (set_name nm) j) m = CancelRequest_From j m"
  by (simp_all add: CancelRequest_From_def Let_def)

lemma CancelRequest_roundtrip [msg_roundtrip]: "wire_CancelRequest m \<Longrightarrow> CancelRequest_From (CancelRequest_To m) new_CancelRequest = m"
  by (cases m) (simp add: wire_CancelRequest_def ints_CancelRequest_def new_CancelRequest_def CancelRequest_To_def CancelRequest_From_def Let_def msg_defs json_simps msg_simps msg_roundtrip)

record InitializeRequest = Request +
  InitializeRequest_arguments :: InitializeRequestArguments

definition new_InitializeRequest :: InitializeRequest where
  "new_InitializeRequest = \<lparr>ProtocolMessage_seq = -1,
     ProtocolMessage_type = ''request'',
     Request_command = ''initialize'',
     InitializeRequest_arguments = new_InitializeRequestArguments\<rparr>"

definition InitializeRequest_To :: "InitializeRequest \<Rightarrow> Json" where
  "InitializeRequest_To m =
     (let
         json = Request_To m;
         json = Json_AddObject ''arguments'' (InitializeRequestArguments_To (InitializeRequest_arguments m)) json
      in json)"

definition InitializeRequest_From :: "Json \<Rightarrow> InitializeRequest \<Rightarrow> InitializeRequest" where
  "InitializeRequest_From json m =
     (let m = Request_From json m
      in m \<lparr>InitializeRequest_arguments := InitializeRequestArguments_From (Json_at json ''arguments'') (InitializeRequest_arguments m)\<rparr>)"

definition ints_InitializeRequest :: "InitializeRequest \<Rightarrow> bool" where
  "ints_InitializeRequest m \<longleftrightarrow> ints_Request m \<and>
     ints_InitializeRequestArguments (InitializeRequest_arguments m)"

definition wire_InitializeRequest :: "InitializeRequest \<Rightarrow> bool" where
  "wire_InitializeRequest m \<longleftrightarrow> ints_InitializeRequest m \<and>
     wire_Request m \<and>
     wire_InitializeRequestArguments (InitializeRequest_arguments m)"

lemma InitializeRequest_To_object [simp]: "IsObject (InitializeRequest_To m)"
  by (simp add: InitializeRequest_To_def Let_def)

lemma InitializeRequest_To_doc [doc_intros]: "ints_InitializeRequest m \<Longrightarrow> doc None (InitializeRequest_To m)"
  by (auto simp: ints_InitializeRequest_def InitializeRequest_To_def Let_def list_all_iff intro!: doc_intros)

lemma new_InitializeRequest_ints [simp]: "ints_InitializeRequest new_InitializeRequest"
  by (simp add: ints_InitializeRequest_def new_InitializeRequest_def msg_defs)

lemma InitializeRequest_From_ints [ints_intros]: "ints_json j \<Longrightarrow> ints_InitializeRequest m \<Longrightarrow> ints_InitializeRequest (InitializeRequest_From j m)"
  by (auto simp: ints_InitializeRequest_def InitializeRequest_From_def Let_def msg_defs intro!: ints_intros)

lemma InitializeRequest_From_view [simp]:
  "InitializeRequest_From (reparsed j) m = InitializeRequest_From j m"
  "InitializeRequest_From (map_option (set_name nm) j) m = InitializeRequest_From j m"
  by (simp_all add: InitializeRequest_From_def Let_def)

lemma InitializeRequest_roundtrip [msg_roundtrip]: "wire_InitializeRequest m \<Longrightarrow> InitializeRequest_From (InitializeRequest_To m) new_InitializeRequest = m"
  by (cases m) (simp add: wire_InitializeRequest_def ints_InitializeRequest_def new_InitializeRequest_def InitializeRequest_To_def InitializeRequest_From_def Let_def msg_defs json_simps msg_simps msg_roundtrip)

type_synonym ConfigurationDoneRequest = Request

definition new_ConfigurationDoneRequest :: ConfigurationDoneRequest where
  "new_ConfigurationDoneRequest = \<lparr>ProtocolMessage_seq = -1,
     ProtocolMessage_type = ''request'',
     Request_command = ''configurationDone''\<rparr>"

definition ConfigurationDoneRequest_To :: "ConfigurationDoneRequest \<Rightarrow> Json" where
  "ConfigurationDoneRequest_To m = Request_To m"

definition ConfigurationDoneRequest_From :: "Json \<Rightarrow> ConfigurationDoneRequest \<Rightarrow> ConfigurationDoneRequest" where
  "ConfigurationDoneRequest_From json m = Request_From json m"

definition ints_ConfigurationDoneRequest :: "ConfigurationDoneRequest \<Rightarrow> bool" where
  "ints_ConfigurationDoneRequest m \<longleftrightarrow> ints_Request m"

definition wire_ConfigurationDoneRequest :: "ConfigurationDoneRequest \<Rightarrow> bool" where
  "wire_ConfigurationDoneRequest m \<longleftrightarrow> ints_ConfigurationDoneRequest m \<and>
     wire_Request m"

lemma ConfigurationDoneRequest_To_object [simp]: "IsObject (ConfigurationDoneRequest_To m)"
  by (simp add: ConfigurationDoneRequest_To_def Let_def)

lemma ConfigurationDoneRequest_To_doc [doc_intros]: "ints_ConfigurationDoneRequest m \<Longrightarrow> doc None (ConfigurationDoneRequest_To m)"
  by (auto simp: ints_ConfigurationDoneRequest_def ConfigurationDoneRequest_To_def Let_def list_all_iff intro!: doc_intros)

lemma new_ConfigurationDoneRequest_ints [simp]: "ints_ConfigurationDoneRequest new_ConfigurationDoneRequest"
  by (simp add: ints_ConfigurationDoneRequest_def new_ConfigurationDoneRequest_def msg_defs)

lemma ConfigurationDoneRequest_From_ints [ints_intros]: "ints_json j \<Longrightarrow> ints_ConfigurationDoneRequest m \<Longrightarrow> ints_ConfigurationDoneRequest (ConfigurationDoneRequest_From j m)"
  by (auto simp: ints_ConfigurationDoneRequest_def ConfigurationDoneRequest_From_def Let_def msg_defs intro!: ints_intros)

lemma ConfigurationDoneRequest_From_view [simp]:
  "ConfigurationDoneRequest_From (reparsed j) m = ConfigurationDoneRequest_From j m"
  "ConfigurationDoneRequest_From (map_option (set_name nm) j) m = ConfigurationDoneRequest_From j m"
  by (simp_all add: ConfigurationDoneRequest_From_def Let_def)

lemma ConfigurationDoneRequest_roundtrip [msg_roundtrip]: "wire_ConfigurationDoneRequest m \<Longrightarrow> ConfigurationDoneRequest_From (ConfigurationDoneRequest_To m) new_ConfigurationDoneRequest = m"
  by (cases m) (simp add: wire_ConfigurationDoneRequest_def ints_ConfigurationDoneRequest_def new_ConfigurationDoneRequest_def ConfigurationDoneRequest_To_def ConfigurationDoneRequest_From_def Let_def msg_defs json_simps msg_simps msg_roundtrip)

record LaunchRequest = Request +
  LaunchRequest_arguments :: LaunchRequestArguments

definition new_LaunchRequest :: LaunchRequest where
  "new_LaunchRequest = \<lparr>ProtocolMessage_seq = -1,
     ProtocolMessage_type = ''request'',
     Request_command = ''launch'',
     LaunchRequest_arguments = new_LaunchRequestArguments\<rparr>"

definition LaunchRequest_To :: "LaunchRequest \<Rightarrow> Json" where
  "LaunchRequest_To m =
     (let
         json = Request_To m;
         json = Json_AddObject ''arguments'' (LaunchRequestArguments_To (LaunchRequest_arguments m)) json
      in json)"

definition LaunchRequest_From :: "Json \<Rightarrow> LaunchRequest \<Rightarrow> LaunchRequest" where
  "LaunchRequest_From json m =
     (let m = Request_From json m
      in m \<lparr>LaunchRequest_arguments := LaunchRequestArguments_From (Json_at json ''arguments'') (LaunchRequest_arguments m)\<rparr>)"

definition ints_LaunchRequest :: "LaunchRequest \<Rightarrow> bool" where
  "ints_LaunchRequest m \<longleftrightarrow> ints_Request m \<and>
     ints_LaunchRequestArguments (LaunchRequest_arguments m)"

definition wire_LaunchRequest :: "LaunchRequest \<Rightarrow> bool" where
  "wire_LaunchRequest m \<longleftrightarrow> ints_LaunchRequest m \<and>
     wire_Request m \<and>
     wire_LaunchRequestArguments (LaunchRequest_arguments m)"

lemma LaunchRequest_To_object [simp]: "IsObject (LaunchRequest_To m)"
  by (simp add: LaunchRequest_To_def Let_def)

lemma LaunchRequest_To_doc [doc_intros]: "ints_LaunchRequest m \<Longrightarrow> doc None (LaunchRequest_To m)"
  by (auto simp: ints_LaunchRequest_def LaunchRequest_To_def Let_def list_all_iff intro!: doc_intros)

lemma new_LaunchRequest_ints [simp]: "ints_LaunchRequest new_LaunchRequest"
  by (simp add: ints_LaunchRequest_def new_LaunchRequest_def msg_defs)

lemma LaunchRequest_From_ints [ints_intros]: "ints_json j \<Longrightarrow> ints_LaunchRequest m \<Longrightarrow> ints_LaunchRequest (LaunchRequest_From j m)"
  by (auto simp: ints_LaunchRequest_def LaunchRequest_From_def Let_def msg_defs intro!: ints_intros)

lemma LaunchRequest_From_view [simp]:
  "LaunchRequest_From (reparsed j) m = LaunchRequest_From j m"
  "LaunchRequest_From (map_option (set_name nm) j) m = LaunchRequest_From j m"
  by (simp_all add: LaunchRequest_From_def Let_def)

lemma LaunchRequest_roundtrip [msg_roundtrip]: "wire_LaunchRequest m \<Longrightarrow> LaunchRequest_From (LaunchRequest_To m) new_LaunchRequest = m"
  by (cases m) (simp add: wire_LaunchRequest_def ints_LaunchRequest_def new_LaunchRequest_def LaunchRequest_To_def LaunchRequest_From_def Let_def msg_defs json_simps msg_simps msg_roundtrip)

record AttachRequest = Request +
  AttachRequest_arguments :: AttachRequestArguments

definition new_AttachRequest :: AttachRequest where
  "new_AttachRequest = \<lparr>ProtocolMessage_seq = -1,
     ProtocolMessage_type = ''request'',
     Request_command = ''attach'',
     AttachRequest_arguments = new_AttachRequestArguments\<rparr>"

definition AttachRequest_To :: "AttachRequest \<Rightarrow> Json" where
  "AttachRequest_To m =
     (let
         json = Request_To m;
         json = Json_AddObject ''arguments'' (AttachRequestArguments_To (AttachRequest_arguments m)) json
      in json)"

definition AttachRequest_From :: "Json \<Rightarrow> AttachRequest \<Rightarrow> AttachRequest" where
  "AttachRequest_From json m =
     (let m = Request_From json m
      in m \<lparr>AttachRequest_arguments := AttachRequestArguments_From (Json_at json ''arguments'') (AttachRequest_arguments m)\<rparr>)"

definition ints_AttachRequest :: "AttachRequest \<Rightarrow> bool" where
  "ints_AttachRequest m \<longleftrightarrow> ints_Request m \<and>
     ints_AttachRequestArguments (AttachRequest_arguments m)"

definition wire_AttachRequest :: "AttachRequest \<Rightarrow> bool" where
  "wire_AttachRequest m \<longleftrightarrow> ints_AttachRequest m \<and>
     wire_Request m \<and>
     wire_AttachRequestArguments (AttachRequest_arguments m)"

lemma AttachRequest_To_object [simp]: "IsObject (AttachRequest_To m)"
  by (simp add: AttachRequest_To_def Let_def)

lemma AttachRequest_To_doc [doc_intros]: "ints_AttachRequest m \<Longrightarrow> doc None (AttachRequest_To m)"
  by (auto simp: ints_AttachRequest_def AttachRequest_To_def Let_def list_all_iff intro!: doc_intros)

lemma new_AttachRequest_ints [simp]: "ints_AttachRequest new_AttachRequest"
  by (simp add: ints_AttachRequest_def new_AttachRequest_def msg_defs)

lemma AttachRequest_From_ints [ints_intros]: "ints_json j \<Longrightarrow> ints_AttachRequest m \<Longrightarrow> ints_AttachRequest (AttachRequest_From j m)"
  by (auto simp: ints_AttachRequest_def AttachRequest_From_def Let_def msg_defs intro!: ints_intros)

lemma AttachRequest_From_view [simp]:
  "AttachRequest_From (reparsed j) m = AttachRequest_From j m"
  "AttachRequest_From (map_option (set_name nm) j) m = AttachRequest_From j m"
  by (simp_all add: AttachRequest_From_def Let_def)

lemma AttachRequest_roundtrip [msg_roundtrip]: "wire_AttachRequest m \<Longrightarrow> AttachRequest_From (AttachRequest_To m) new_AttachRequest = m"
  by (cases m) (simp add: wire_AttachRequest_def ints_AttachRequest_def new_AttachRequest_def AttachRequest_To_def AttachRequest_From_def Let_def msg_defs json_simps msg_simps msg_roundtrip)

record DisconnectRequest = Request +
  DisconnectRequest_restart :: bool
  DisconnectRequest_terminateDebuggee :: bool

definition new_DisconnectRequest :: DisconnectRequest where
  "new_DisconnectRequest = \<lparr>ProtocolMessage_seq = -1,
     ProtocolMessage_type = ''request'',
     Request_command = ''disconnect'',
     DisconnectRequest_restart = False,
     DisconnectRequest_terminateDebuggee = True\<rparr>"

definition DisconnectRequest_To :: "DisconnectRequest \<Rightarrow> Json" where
  "DisconnectRequest_To m =
     (let
         json = Request_To m;
         json = Json_AddNewObject ''arguments'' (\<lambda>arguments. let
                   arguments = Json_Add_bool ''restart'' (DisconnectRequest_restart m) arguments;
                   arguments = Json_Add_bool ''terminateDebuggee'' (DisconnectRequest_terminateDebuggee m) arguments
                 in arguments) json
      in json)"

definition DisconnectRequest_From :: "Json \<Rightarrow> DisconnectRequest \<Rightarrow> DisconnectRequest" where
  "DisconnectRequest_From json m =
     (let m = Request_From json m;
          arguments = Json_at json ''arguments''
      in m \<lparr>DisconnectRequest_restart := GetBool (Json_at arguments ''restart'') False,
           DisconnectRequest_terminateDebuggee := GetBool (Json_at arguments ''terminateDebuggee'') (DisconnectRequest_terminateDebuggee m)\<rparr>)"

definition ints_DisconnectRequest :: "DisconnectRequest \<Rightarrow> bool" where
  "ints_DisconnectRequest m \<longleftrightarrow> ints_Request m"

definition wire_DisconnectRequest :: "DisconnectRequest \<Rightarrow> bool" where
  "wire_DisconnectRequest m \<longleftrightarrow> ints_DisconnectRequest m \<and>
     wire_Request m \<and>
     DisconnectRequest_terminateDebuggee m"

lemma DisconnectRequest_To_object [simp]: "IsObject (DisconnectRequest_To m)"
  by (simp add: DisconnectRequest_To_def Let_def)

lemma DisconnectRequest_To_doc [doc_intros]: "ints_DisconnectRequest m \<Longrightarrow> doc None (DisconnectRequest_To m)"
  by (auto simp: ints_DisconnectRequest_def DisconnectRequest_To_def Let_def list_all_iff intro!: doc_intros)

lemma new_DisconnectRequest_ints [simp]: "ints_DisconnectRequest new_DisconnectRequest"
  by (simp add: ints_DisconnectRequest_def new_DisconnectRequest_def msg_defs)

lemma DisconnectRequest_From_ints [ints_intros]: "ints_json j \<Longrightarrow> ints_DisconnectRequest m \<Longrightarrow> ints_DisconnectRequest (DisconnectRequest_From j m)"
  by (auto simp: ints_DisconnectRequest_def DisconnectRequest_From_def Let_def msg_defs intro!: ints_intros)

lemma DisconnectRequest_From_view [simp]:
  "DisconnectRequest_From (reparsed j) m = DisconnectRequest_From j m"
  "DisconnectRequest_From (map_option (set_name nm) j) m = DisconnectRequest_From j m"
  by (simp_all add: DisconnectRequest_From_def Let_def)

lemma DisconnectRequest_roundtrip [msg_roundtrip]: "wire_DisconnectRequest m \<Longrightarrow> DisconnectRequest_From (DisconnectRequest_To m) new_DisconnectRequest = m"
  by (cases m) (simp add: wire_DisconnectRequest_def ints_DisconnectRequest_def new_DisconnectRequest_def DisconnectRequest_To_def DisconnectRequest_From_def Let_def msg_defs json_simps msg_simps msg_roundtrip)

record BreakpointLocationsRequest = Request +
  BreakpointLocationsRequest_arguments :: BreakpointLocationsArguments

definition new_BreakpointLocationsRequest :: BreakpointLocationsRequest where
  "new_BreakpointLocationsRequest = \<lparr>ProtocolMessage_seq = -1,
     ProtocolMessage_type = ''request'',
     Request_command = ''breakpointLocations'',
     BreakpointLocationsRequest_arguments = new_BreakpointLocationsArguments\<rparr>"

definition BreakpointLocationsRequest_To :: "BreakpointLocationsRequest \<Rightarrow> Json" where
  "BreakpointLocationsRequest_To m =
     (let
         json = Request_To m;
         json = Json_AddObject ''arguments'' (BreakpointLocationsArguments_To (BreakpointLocationsRequest_arguments m)) json
      in json)"

definition BreakpointLocationsRequest_From :: "Json \<Rightarrow> BreakpointLocationsRequest \<Rightarrow> BreakpointLocationsRequest" where
  "BreakpointLocationsRequest_From json m =
     (let m = Request_From json m
      in m \<lparr>BreakpointLocationsRequest_arguments := BreakpointLocationsArguments_From (Json_at json ''arguments'') (BreakpointLocationsRequest_arguments m)\<rparr>)"

definition ints_BreakpointLocationsRequest :: "BreakpointLocationsRequest \<Rightarrow> bool" where
  "ints_BreakpointLocationsRequest m \<longleftrightarrow> ints_Request m \<and>
     ints_BreakpointLocationsArguments (BreakpointLocationsRequest_arguments m)"

definition wire_BreakpointLocationsRequest :: "BreakpointLocationsRequest \<Rightarrow> bool" where
  "wire_BreakpointLocationsRequest m \<longleftrightarrow> ints_BreakpointLocationsRequest m \<and>
     wire_Request m \<and>
     wire_BreakpointLocationsArguments (BreakpointLocationsRequest_arguments m)"

lemma BreakpointLocationsRequest_To_object [simp]: "IsObject (BreakpointLocationsRequest_To m)"
  by (simp add: BreakpointLocationsRequest_To_def Let_def)

lemma BreakpointLocationsRequest_To_doc [doc_intros]: "ints_BreakpointLocationsRequest m \<Longrightarrow> doc None (BreakpointLocationsRequest_To m)"
  by (auto simp: ints_BreakpointLocationsRequest_def BreakpointLocationsRequest_To_def Let_def list_all_iff intro!: doc_intros)

lemma new_BreakpointLocationsRequest_ints [simp]: "ints_BreakpointLocationsRequest new_BreakpointLocationsRequest"
  by (simp add: ints_BreakpointLocationsRequest_def new_BreakpointLocationsRequest_def msg_defs)

lemma BreakpointLocationsRequest_From_ints [ints_intros]: "ints_json j \<Longrightarrow> ints_BreakpointLocationsRequest m \<Longrightarrow> ints_BreakpointLocationsRequest (BreakpointLocationsRequest_From j m)"
  by (auto simp: ints_BreakpointLocationsRequest_def BreakpointLocationsRequest_From_def Let_def msg_defs intro!: ints_intros)

lemma BreakpointLocationsRequest_From_view [simp]:
  "BreakpointLocationsRequest_From (reparsed j) m = BreakpointLocationsRequest_From j m"
  "BreakpointLocationsRequest_From (map_option (set_name nm) j) m = BreakpointLocationsRequest_From j m"
  by (simp_all add: BreakpointLocationsRequest_From_def Let_def)

lemma BreakpointLocationsRequest_roundtrip [msg_roundtrip]: "wire_BreakpointLocationsRequest m \<Longrightarrow> BreakpointLocationsRequest_From (BreakpointLocationsRequest_To m) new_BreakpointLocationsRequest = m"
  by (cases m) (simp add: wire_BreakpointLocationsRequest_def ints_BreakpointLocationsRequest_def new_BreakpointLocationsRequest_def BreakpointLocationsRequest_To_def BreakpointLocationsRequest_From_def Let_def msg_defs json_simps msg_simps msg_roundtrip)

record SetBreakpointsRequest = Request +
  SetBreakpointsRequest_arguments :: SetBreakpointsArguments

definition new_SetBreakpointsRequest :: SetBreakpointsRequest where
  "new_SetBreakpointsRequest = \<lparr>ProtocolMessage_seq = -1,
     ProtocolMessage_type = ''request'',
     Request_command = ''setBreakpoints'',
     SetBreakpointsRequest_arguments = new_SetBreakpointsArguments\<rparr>"

definition SetBreakpointsRequest_To :: "SetBreakpointsRequest \<Rightarrow> Json" where
  "SetBreakpointsRequest_To m =
     (let
         json = Request_To m;
         json = Json_AddObject ''arguments'' (SetBreakpointsArguments_To (SetBreakpointsRequest_arguments m)) json
      in json)"

definition SetBreakpointsRequest_From :: "Json \<Rightarrow> SetBreakpointsRequest \<Rightarrow> SetBreakpointsRequest" where
  "SetBreakpointsRequest_From json m =
     (let m = Request_From json m
      in m \<lparr>SetBreakpointsRequest_arguments := SetBreakpointsArguments_From (Json_at json ''arguments'') (SetBreakpointsRequest_arguments m)\<rparr>)"

definition ints_SetBreakpointsRequest :: "SetBreakpointsRequest \<Rightarrow> bool" where
  "ints_SetBreakpointsRequest m \<longleftrightarrow> ints_Request m \<and>
     ints_SetBreakpointsArguments (SetBreakpointsRequest_arguments m)"

definition wire_SetBreakpointsRequest :: "SetBreakpointsRequest \<Rightarrow> bool" where
  "wire_SetBreakpointsRequest m \<longleftrightarrow> ints_SetBreakpointsRequest m \<and>
     wire_Request m \<and>
     wire_SetBreakpointsArguments (SetBreakpointsRequest_arguments m)"

lemma SetBreakpointsRequest_To_object [simp]: "IsObject (SetBreakpointsRequest_To m)"
  by (simp add: SetBreakpointsRequest_To_def Let_def)

lemma SetBreakpointsRequest_To_doc [doc_intros]: "ints_SetBreakpointsRequest m \<Longrightarrow> doc None (SetBreakpointsRequest_To m)"
  by (auto simp: ints_SetBreakpointsRequest_def SetBreakpointsRequest_To_def Let_def list_all_iff intro!: doc_intros)

lemma new_SetBreakpointsRequest_ints [simp]: "ints_SetBreakpointsRequest new_SetBreakpointsRequest"
  by (simp add: ints_SetBreakpointsRequest_def new_SetBreakpointsRequest_def msg_defs)

lemma SetBreakpointsRequest_From_ints [ints_intros]: "ints_json j \<Longrightarrow> ints_SetBreakpointsRequest m \<Longrightarrow> ints_SetBreakpointsRequest (SetBreakpointsRequest_From j m)"
  by (auto simp: ints_SetBreakpointsRequest_def SetBreakpointsRequest_From_def Let_def msg_defs intro!: ints_intros)

lemma SetBreakpointsRequest_From_view [simp]:
  "SetBreakpointsRequest_From (reparsed j) m = SetBreakpointsRequest_From j m"
  "SetBreakpointsRequest_From (map_option (set_name nm) j) m = SetBreakpointsRequest_From j m"
  by (simp_all add: SetBreakpointsRequest_From_def Let_def)

lemma SetBreakpointsRequest_roundtrip [msg_roundtrip]: "wire_SetBreakpointsRequest m \<Longrightarrow> SetBreakpointsRequest_From (SetBreakpointsRequest_To m) new_SetBreakpointsRequest = m"
  by (cases m) (simp add: wire_SetBreakpointsRequest_def ints_SetBreakpointsRequest_def new_SetBreakpointsRequest_def SetBreakpointsRequest_To_def SetBreakpointsRequest_From_def Let_def msg_defs json_simps msg_simps msg_roundtrip)

record SetFunctionBreakpointsRequest = Request +
  SetFunctionBreakpointsRequest_arguments :: SetFunctionBreakpointsArguments

definition new_SetFunctionBreakpointsRequest :: SetFunctionBreakpointsRequest where
  "new_SetFunctionBreakpointsRequest = \<lparr>ProtocolMessage_seq = -1,
     ProtocolMessage_type = ''request'',
     Request_command = ''setFunctionBreakpoints'',
     SetFunctionBreakpointsRequest_arguments = new_SetFunctionBreakpointsArguments\<rparr>"

definition SetFunctionBreakpointsRequest_To :: "SetFunctionBreakpointsRequest \<Rightarrow> Json" where
  "SetFunctionBreakpointsRequest_To m =
     (let
         json = Request_To m;
         json = Json_AddObject ''arguments'' (SetFunctionBreakpointsArguments_To (SetFunctionBreakpointsRequest_arguments m)) json
      in json)"

definition SetFunctionBreakpointsRequest_From :: "Json \<Rightarrow> SetFunctionBreakpointsRequest \<Rightarrow> SetFunctionBreakpointsRequest" where
  "SetFunctionBreakpointsRequest_From json m =
     (let m = Request_From json m
      in m \<lparr>SetFunctionBreakpointsRequest_arguments := SetFunctionBreakpointsArguments_From (Json_at json ''arguments'') (SetFunctionBreakpointsRequest_arguments m)\<rparr>)"

definition ints_SetFunctionBreakpointsRequest :: "SetFunctionBreakpointsRequest \<Rightarrow> bool" where
  "ints_SetFunctionBreakpointsRequest m \<longleftrightarrow> ints_Request m \<and>
     ints_SetFunctionBreakpointsArguments (SetFunctionBreakpointsRequest_arguments m)"

definition wire_SetFunctionBreakpointsRequest :: "SetFunctionBreakpointsRequest \<Rightarrow> bool" where
  "wire_SetFunctionBreakpointsRequest m \<longleftrightarrow> ints_SetFunctionBreakpointsRequest m \<and>
     wire_Request m \<and>
     wire_SetFunctionBreakpointsArguments (SetFunctionBreakpointsRequest_arguments m)"

lemma SetFunctionBreakpointsRequest_To_object [simp]: "IsObject (SetFunctionBreakpointsRequest_To m)"
  by (simp add: SetFunctionBreakpointsRequest_To_def Let_def)

lemma SetFunctionBreakpointsRequest_To_doc [doc_intros]: "ints_SetFunctionBreakpointsRequest m \<Longrightarrow> doc None (SetFunctionBreakpointsRequest_To m)"
  by (auto simp: ints_SetFunctionBreakpointsRequest_def SetFunctionBreakpointsRequest_To_def Let_def list_all_iff intro!: doc_intros)

lemma new_SetFunctionBreakpointsRequest_ints [simp]: "ints_SetFunctionBreakpointsRequest new_SetFunctionBreakpointsRequest"
  by (simp add: ints_SetFunctionBreakpointsRequest_def new_SetFunctionBreakpointsRequest_def msg_defs)

lemma SetFunctionBreakpointsRequest_From_ints [ints_intros]: "ints_json j \<Longrightarrow> ints_SetFunctionBreakpointsRequest m \<Longrightarrow> ints_SetFunctionBreakpointsRequest (SetFunctionBreakpointsRequest_From j m)"
  by (auto simp: ints_SetFunctionBreakpointsRequest_def SetFunctionBreakpointsRequest_From_def Let_def msg_defs intro!: ints_intros)

lemma SetFunctionBreakpointsRequest_From_view [simp]:
  "SetFunctionBreakpointsRequest_From (reparsed j) m = SetFunctionBreakpointsRequest_From j m"
  "SetFunctionBreakpointsRequest_From (map_option (set_name nm) j) m = SetFunctionBreakpointsRequest_From j m"
  by (simp_all add: SetFunctionBreakpointsRequest_From_def Let_def)

lemma SetFunctionBreakpointsRequest_roundtrip [msg_roundtrip]: "wire_SetFunctionBreakpointsRequest m \<Longrightarrow> SetFunctionBreakpointsRequest_From (SetFunctionBreakpointsRequest_To m) new_SetFunctionBreakpointsRequest = m"
  by (cases m) (simp add: wire_SetFunctionBreakpointsRequest_def ints_SetFunctionBreakpointsRequest_def new_SetFunctionBreakpointsRequest_def SetFunctionBreakpointsRequest_To_def SetFunctionBreakpointsRequest_From_def Let_def msg_defs json_simps msg_simps msg_roundtrip)

record ContinueRequest = Request +
  ContinueRequest_arguments :: ContinueArguments

definition new_ContinueRequest :: ContinueRequest where
  "new_ContinueRequest = \<lparr>ProtocolMessage_seq = -1,
     ProtocolMessage_type = ''request'',
     Request_command = ''continue'',
     ContinueRequest_arguments = new_ContinueArguments\<rparr>"

definition ContinueRequest_To :: "ContinueRequest \<Rightarrow> Json" where
  "ContinueRequest_To m =
     (let
         json = Request_To m;
         json = Json_AddObject ''arguments'' (ContinueArguments_To (ContinueRequest_arguments m)) json
      in json)"

definition ContinueRequest_From :: "Json \<Rightarrow> ContinueRequest \<Rightarrow> ContinueRequest" where
  "ContinueRequest_From json m =
     (let m = Request_From json m
      in m \<lparr>ContinueRequest_arguments := ContinueArguments_From (Json_at json ''arguments'') (ContinueRequest_arguments m)\<rparr>)"

definition ints_ContinueRequest :: "ContinueRequest \<Rightarrow> bool" where
  "ints_ContinueRequest m \<longleftrightarrow> ints_Request m \<and>
     ints_ContinueArguments (ContinueRequest_arguments m)"

definition wire_ContinueRequest :: "ContinueRequest \<Rightarrow> bool" where
  "wire_ContinueRequest m \<longleftrightarrow> ints_ContinueRequest m \<and>
     wire_Request m \<and>
     wire_ContinueArguments (ContinueRequest_arguments m)"

lemma ContinueRequest_To_object [simp]: "IsObject (ContinueRequest_To m)"
  by (simp add: ContinueRequest_To_def Let_def)

lemma ContinueRequest_To_doc [doc_intros]: "ints_ContinueRequest m \<Longrightarrow> doc None (ContinueRequest_To m)"
  by (auto simp: ints_ContinueRequest_def ContinueRequest_To_def Let_def list_all_iff intro!: doc_intros)

lemma new_ContinueRequest_ints [simp]: "ints_ContinueRequest new_ContinueRequest"
  by (simp add: ints_ContinueRequest_def new_ContinueRequest_def msg_defs)

lemma ContinueRequest_From_ints [ints_intros]: "ints_json j \<Longrightarrow> ints_ContinueRequest m \<Longrightarrow> ints_ContinueRequest (ContinueRequest_From j m)"
  by (auto simp: ints_ContinueRequest_def ContinueRequest_From_def Let_def msg_defs intro!: ints_intros)

lemma ContinueRequest_From_view [simp]:
  "ContinueRequest_From (reparsed j) m = ContinueRequest_From j m"
  "ContinueRequest_From (map_option (set_name nm) j) m = ContinueRequest_From j m"
  by (simp_all add: ContinueRequest_From_def Let_def)

lemma ContinueRequest_roundtrip [msg_roundtrip]: "wire_ContinueRequest m \<Longrightarrow> ContinueRequest_From (ContinueRequest_To m) new_ContinueRequest = m"
  by (cases m) (simp add: wire_ContinueRequest_def ints_ContinueRequest_def new_ContinueRequest_def ContinueRequest_To_def ContinueRequest_From_def Let_def msg_defs json_simps msg_simps msg_roundtrip)

record StepRequest = Request +
  StepRequest_arguments :: StepArguments

definition new_StepRequest :: StepRequest where
  "new_StepRequest = \<lparr>ProtocolMessage_seq = -1,
     ProtocolMessage_type = ''request'',
     Request_command = ''step'',
     StepRequest_arguments = new_StepArguments\<rparr>"

definition StepRequest_To :: "StepRequest \<Rightarrow> Json" where
  "StepRequest_To m =
     (let
         json = Request_To m;
         json = Json_AddObject ''arguments'' (StepArguments_To (StepRequest_arguments m)) json
      in json)"

definition StepRequest_From :: "Json \<Rightarrow> StepRequest \<Rightarrow> StepRequest" where
  "StepRequest_From json m =
     (let m = Request_From json m
      in m \<lparr>StepRequest_arguments := StepArguments_From (Json_at json ''arguments'') (StepRequest_arguments m)\<rparr>)"

definition ints_StepRequest :: "StepRequest \<Rightarrow> bool" where
  "ints_StepRequest m \<longleftrightarrow> ints_Request m \<and>
     ints_StepArguments (StepRequest_arguments m)"

definition wire_StepRequest :: "StepRequest \<Rightarrow> bool" where
  "wire_StepRequest m \<longleftrightarrow> ints_StepRequest m \<and>
     wire_Request m \<and>
     wire_StepArguments (StepRequest_arguments m)"

declare StepRequest_To_def [msg_defs] StepRequest_From_def [msg_defs] wire_StepRequest_def [msg_defs] ints_StepRequest_def [msg_defs]

lemma StepRequest_To_object [simp]: "IsObject (StepRequest_To m)"
  by (simp add: StepRequest_To_def Let_def)

lemma StepRequest_To_doc [doc_intros]: "ints_StepRequest m \<Longrightarrow> doc None (StepRequest_To m)"
  by (auto simp: ints_StepRequest_def StepRequest_To_def Let_def list_all_iff intro!: doc_intros)

lemma new_StepRequest_ints [simp]: "ints_StepRequest new_StepRequest"
  by (simp add: ints_StepRequest_def new_StepRequest_def msg_defs)

lemma StepRequest_From_ints [ints_intros]: "ints_json j \<Longrightarrow> ints_StepRequest m \<Longrightarrow> ints_StepRequest (StepRequest_From j m)"
  by (auto simp: ints_StepRequest_def StepRequest_From_def Let_def msg_defs intro!: ints_intros)

lemma StepRequest_From_view [simp]:
  "StepRequest_From (reparsed j) m = StepRequest_From j m"
  "StepRequest_From (map_option (set_name nm) j) m = StepRequest_From j m"
  by (simp_all add: StepRequest_From_def Let_def)

lemma StepRequest_roundtrip [msg_roundtrip]: "wire_StepRequest m \<Longrightarrow> StepRequest_From (StepRequest_To m) new_StepRequest = m"
  by (cases m) (simp add: wire_StepRequest_def ints_StepRequest_def new_StepRequest_def StepRequest_To_def StepRequest_From_def Let_def msg_defs json_simps msg_simps msg_roundtrip)

type_synonym StepInRequest = StepRequest

definition new_StepInRequest :: StepInRequest where
  "new_StepInRequest = \<lparr>ProtocolMessage_seq = -1,
     ProtocolMessage_type = ''request'',
     Request_command = ''stepIn'',
     StepRequest_arguments = new_StepArguments\<rparr>"

definition StepInRequest_To :: "StepInRequest \<Rightarrow> Json" where
  "StepInRequest_To m = StepRequest_To m"

definition StepInRequest_From :: "Json \<Rightarrow> StepInRequest \<Rightarrow> StepInRequest" where
  "StepInRequest_From json m = StepRequest_From json m"

definition ints_StepInRequest :: "StepInRequest \<Rightarrow> bool" where
  "ints_StepInRequest m \<longleftrightarrow> ints_StepRequest m"

definition wire_StepInRequest :: "StepInRequest \<Rightarrow> bool" where
  "wire_StepInRequest m \<longleftrightarrow> ints_StepInRequest m \<and>
     wire_StepRequest m"

lemma StepInRequest_To_object [simp]: "IsObject (StepInRequest_To m)"
  by (simp add: StepInRequest_To_def Let_def)

lemma StepInRequest_To_doc [doc_intros]: "ints_StepInRequest m \<Longrightarrow> doc None (StepInRequest_To m)"
  by (auto simp: ints_StepInRequest_def StepInRequest_To_def Let_def list_all_iff intro!: doc_intros)

lemma new_StepInRequest_ints [simp]: "ints_StepInRequest new_StepInRequest"
  by (simp add: ints_StepInRequest_def new_StepInRequest_def msg_defs)

lemma StepInRequest_From_ints [ints_intros]: "ints_json j \<Longrightarrow> ints_StepInRequest m \<Longrightarrow> ints_StepInRequest (StepInRequest_From j m)"
  by (auto simp: ints_StepInRequest_def StepInRequest_From_def Let_def msg_defs intro!: ints_intros)

lemma StepInRequest_From_view [simp]:
  "StepInRequest_From (reparsed j) m = StepInRequest_From j m"
  "StepInRequest_From (map_option (set_name nm) j) m = StepInRequest_From j m"
  by (simp_all add: StepInRequest_From_def Let_def)

lemma StepInRequest_roundtrip [msg_roundtrip]: "wire_StepInRequest m \<Longrightarrow> StepInRequest_From (StepInRequest_To m) new_StepInRequest = m"
  by (cases m) (simp add: wire_StepInRequest_def ints_StepInRequest_def new_StepInRequest_def StepInRequest_To_def StepInRequest_From_def Let_def msg_defs json_simps msg_simps msg_roundtrip)

type_synonym StepOutRequest = StepRequest

definition new_StepOutRequest :: StepOutRequest where
  "new_StepOutRequest = \<lparr>ProtocolMessage_seq = -1,
     ProtocolMessage_type = ''request'',
     Request_command = ''stepOut'',
     StepRequest_arguments = new_StepArguments\<rparr>"

definition StepOutRequest_To :: "StepOutRequest \<Rightarrow> Json" where
  "StepOutRequest_To m = StepRequest_To m"

definition StepOutRequest_From :: "Json \<Rightarrow> StepOutRequest \<Rightarrow> StepOutRequest" where
  "StepOutRequest_From json m = StepRequest_From json m"

definition ints_StepOutRequest :: "StepOutRequest \<Rightarrow> bool" where
  "ints_StepOutRequest m \<longleftrightarrow> ints_StepRequest m"

definition wire_StepOutRequest :: "StepOutRequest \<Rightarrow> bool" where
  "wire_StepOutRequest m \<longleftrightarrow> ints_StepOutRequest m \<and>
     wire_StepRequest m"

lemma StepOutRequest_To_object [simp]: "IsObject (StepOutRequest_To m)"
  by (simp add: StepOutRequest_To_def Let_def)

lemma StepOutRequest_To_doc [doc_intros]: "ints_StepOutRequest m \<Longrightarrow> doc None (StepOutRequest_To m)"
  by (auto simp: ints_StepOutRequest_def StepOutRequest_To_def Let_def list_all_iff intro!: doc_intros)

lemma new_StepOutRequest_ints [simp]: "ints_StepOutRequest new_StepOutRequest"
  by (simp add: ints_StepOutRequest_def new_StepOutRequest_def msg_defs)

lemma StepOutRequest_From_ints [ints_intros]: "ints_json j \<Longrightarrow> ints_StepOutRequest m \<Longrightarrow> ints_StepOutRequest (StepOutRequest_From j m)"
  by (auto simp: ints_StepOutRequest_def StepOutRequest_From_def Let_def msg_defs intro!: ints_intros)

lemma StepOutRequest_From_view [simp]:
  "StepOutRequest_From (reparsed j) m = StepOutRequest_From j m"
  "StepOutRequest_From (map_option (set_name nm) j) m = StepOutRequest_From j m"
  by (simp_all add: StepOutRequest_From_def Let_def)

lemma StepOutRequest_roundtrip [msg_roundtrip]: "wire_StepOutRequest m \<Longrightarrow> StepOutRequest_From (StepOutRequest_To m) new_StepOutRequest = m"
  by (cases m) (simp add: wire_StepOutRequest_def ints_StepOutRequest_def new_StepOutRequest_def StepOutRequest_To_def StepOutRequest_From_def Let_def msg_defs json_simps msg_simps msg_roundtrip)

record NextRequest = Request +
  NextRequest_arguments :: NextArguments

definition new_NextRequest :: NextRequest where
  "new_NextRequest = \<lparr>ProtocolMessage_seq = -1,
     ProtocolMessage_type = ''request'',
     Request_command = ''next'',
     NextRequest_arguments = new_NextArguments\<rparr>"

definition NextRequest_To :: "NextRequest \<Rightarrow> Json" where
  "NextRequest_To m =
     (let
         json = Request_To m;
         json = Json_AddObject ''arguments'' (NextArguments_To (NextRequest_arguments m)) json
      in json)"

definition NextRequest_From :: "Json \<Rightarrow> NextRequest \<Rightarrow> NextRequest" where
  "NextRequest_From json m =
     (let m = Request_From json m
      in m \<lparr>NextRequest_arguments := NextArguments_From (Json_at json ''arguments'') (NextRequest_arguments m)\<rparr>)"

definition ints_NextRequest :: "NextRequest \<Rightarrow> bool" where
  "ints_NextRequest m \<longleftrightarrow> ints_Request m \<and>
     ints_NextArguments (NextRequest_arguments m)"

definition wire_NextRequest :: "NextRequest \<Rightarrow> bool" where
  "wire_NextRequest m \<longleftrightarrow> ints_NextRequest m \<and>
     wire_Request m \<and>
     wire_NextArguments (NextRequest_arguments m)"

lemma NextRequest_To_object [simp]: "IsObject (NextRequest_To m)"
  by (simp add: NextRequest_To_def Let_def)

lemma NextRequest_To_doc [doc_intros]: "ints_NextRequest m \<Longrightarrow> doc None (NextRequest_To m)"
  by (auto simp: ints_NextRequest_def NextRequest_To_def Let_def list_all_iff intro!: doc_intros)

lemma new_NextRequest_ints [simp]: "ints_NextRequest new_NextRequest"
  by (simp add: ints_NextRequest_def new_NextRequest_def msg_defs)

lemma NextRequest_From_ints [ints_intros]: "ints_json j \<Longrightarrow> ints_NextRequest m \<Longrightarrow> ints_NextRequest (NextRequest_From j m)"
  by (auto simp: ints_NextRequest_def NextRequest_From_def Let_def msg_defs intro!: ints_intros)

lemma NextRequest_From_view [simp]:
  "NextRequest_From (reparsed j) m = NextRequest_From j m"
  "NextRequest_From (map_option (set_name nm) j) m = NextRequest_From j m"
  by (simp_all add: NextRequest_From_def Let_def)

lemma NextRequest_roundtrip [msg_roundtrip]: "wire_NextRequest m \<Longrightarrow> NextRequest_From (NextRequest_To m) new_NextRequest = m"
  by (cases m) (simp add: wire_NextRequest_def ints_NextRequest_def new_NextRequest_def NextRequest_To_def NextRequest_From_def Let_def msg_defs json_simps msg_simps msg_roundtrip)

type_synonym ThreadsRequest = Request

definition new_ThreadsRequest :: ThreadsRequest where
  "new_ThreadsRequest = \<lparr>ProtocolMessage_seq = -1,
     ProtocolMessage_type = ''request'',
     Request_command = ''threads''\<rparr>"

definition ThreadsRequest_To :: "ThreadsRequest \<Rightarrow> Json" where
  "ThreadsRequest_To m = Request_To m"

definition ThreadsRequest_From :: "Json \<Rightarrow> ThreadsRequest \<Rightarrow> ThreadsRequest" where
  "ThreadsRequest_From json m = Request_From json m"

definition ints_ThreadsRequest :: "ThreadsRequest \<Rightarrow> bool" where
  "ints_ThreadsRequest m \<longleftrightarrow> ints_Request m"

definition wire_ThreadsRequest :: "ThreadsRequest \<Rightarrow> bool" where
  "wire_ThreadsRequest m \<longleftrightarrow> ints_ThreadsRequest m \<and>
     wire_Request m"

lemma ThreadsRequest_To_object [simp]: "IsObject (ThreadsRequest_To m)"
  by (simp add: ThreadsRequest_To_def Let_def)

lemma ThreadsRequest_To_doc [doc_intros]: "ints_ThreadsRequest m \<Longrightarrow> doc None (ThreadsRequest_To m)"
  by (auto simp: ints_ThreadsRequest_def ThreadsRequest_To_def Let_def list_all_iff intro!: doc_intros)

lemma new_ThreadsRequest_ints [simp]: "ints_ThreadsRequest new_ThreadsRequest"
  by (simp add: ints_ThreadsRequest_def new_ThreadsRequest_def msg_defs)

lemma ThreadsRequest_From_ints [ints_intros]: "ints_json j \<Longrightarrow> ints_ThreadsRequest m \<Longrightarrow> ints_ThreadsRequest (ThreadsRequest_From j m)"
  by (auto simp: ints_ThreadsRequest_def ThreadsRequest_From_def Let_def msg_defs intro!: ints_intros)

lemma ThreadsRequest_From_view [simp]:
  "ThreadsRequest_From (reparsed j) m = ThreadsRequest_From j m"
  "ThreadsRequest_From (map_option (set_name nm) j) m = ThreadsRequest_From j m"
  by (simp_all add: ThreadsRequest_From_def Let_def)

lemma ThreadsRequest_roundtrip [msg_roundtrip]: "wire_ThreadsRequest m \<Longrightarrow> ThreadsRequest_From (ThreadsRequest_To m) new_ThreadsRequest = m"
  by (cases m) (simp add: wire_ThreadsRequest_def ints_ThreadsRequest_def new_ThreadsRequest_def ThreadsRequest_To_def ThreadsRequest_From_def Let_def msg_defs json_simps msg_simps msg_roundtrip)

record ScopesRequest = Request +
  ScopesRequest_arguments :: ScopesArguments

definition new_ScopesRequest :: ScopesRequest where
  "new_ScopesRequest = \<lparr>ProtocolMessage_seq = -1,
     ProtocolMessage_type = ''request'',
     Request_command = ''scopes'',
     ScopesRequest_arguments = new_ScopesArguments\<rparr>"

definition ScopesRequest_To :: "ScopesRequest \<Rightarrow> Json" where
  "ScopesRequest_To m =
     (let
         json = Request_To m;
         json = Json_Add_json ''arguments'' (ScopesArguments_To (ScopesRequest_arguments m)) json
      in json)"

definition ScopesRequest_From :: "Json \<Rightarrow> ScopesRequest \<Rightarrow> ScopesRequest" where
  "ScopesRequest_From json m =
     (let m = Request_From json m
      in m \<lparr>ScopesRequest_arguments := ScopesArguments_From (Json_at json ''arguments'') (ScopesRequest_arguments m)\<rparr>)"

definition ints_ScopesRequest :: "ScopesRequest \<Rightarrow> bool" where
  "ints_ScopesRequest m \<longleftrightarrow> ints_Request m \<and>
     ints_ScopesArguments (ScopesRequest_arguments m)"

definition wire_ScopesRequest :: "ScopesRequest \<Rightarrow> bool" where
  "wire_ScopesRequest m \<longleftrightarrow> ints_ScopesRequest m \<and>
     wire_Request m \<and>
     wire_ScopesArguments (ScopesRequest_arguments m)"

lemma ScopesRequest_To_object [simp]: "IsObject (ScopesRequest_To m)"
  by (simp add: ScopesRequest_To_def Let_def)

lemma ScopesRequest_To_doc [doc_intros]: "ints_ScopesRequest m \<Longrightarrow> doc None (ScopesRequest_To m)"
  by (auto simp: ints_ScopesRequest_def ScopesRequest_To_def Let_def list_all_iff intro!: doc_intros)

lemma new_ScopesRequest_ints [simp]: "ints_ScopesRequest new_ScopesRequest"
  by (simp add: ints_ScopesRequest_def new_ScopesRequest_def msg_defs)

lemma ScopesRequest_From_ints [ints_intros]: "ints_json j \<Longrightarrow> ints_ScopesRequest m \<Longrightarrow> ints_ScopesRequest (ScopesRequest_From j m)"
  by (auto simp: ints_ScopesRequest_def ScopesRequest_From_def Let_def msg_defs intro!: ints_intros)

lemma ScopesRequest_From_view [simp]:
  "ScopesRequest_From (reparsed j) m = ScopesRequest_From j m"
  "ScopesRequest_From (map_option (set_name nm) j) m = ScopesRequest_From j m"
  by (simp_all add: ScopesRequest_From_def Let_def)

lemma ScopesRequest_roundtrip [msg_roundtrip]: "wire_ScopesRequest m \<Longrightarrow> ScopesRequest_From (ScopesRequest_To m) new_ScopesRequest = m"
  by (cases m) (simp add: wire_ScopesRequest_def ints_ScopesRequest_def new_ScopesRequest_def ScopesRequest_To_def ScopesRequest_From_def Let_def msg_defs json_simps msg_simps msg_roundtrip)

record StackTraceRequest = Request +
  StackTraceRequest_arguments :: StackTraceArguments

definition new_StackTraceRequest :: StackTraceRequest where
  "new_StackTraceRequest = \<lparr>ProtocolMessage_seq = -1,
     ProtocolMessage_type = ''request'',
     Request_command = ''stackTrace'',
     StackTraceRequest_arguments = new_StackTraceArguments\<rparr>"

definition StackTraceRequest_To :: "StackTraceRequest \<Rightarrow> Json" where
  "StackTraceRequest_To m =
     (let
         json = Request_To m;
         json = Json_Add_json ''arguments'' (StackTraceArguments_To (StackTraceRequest_arguments m)) json
      in json)"

definition StackTraceRequest_From :: "Json \<Rightarrow> StackTraceRequest \<Rightarrow> StackTraceRequest" where
  "StackTraceRequest_From json m =
     (let m = Request_From json m
      in m \<lparr>StackTraceRequest_arguments := StackTraceArguments_From (Json_at json ''arguments'') (StackTraceRequest_arguments m)\<rparr>)"

definition ints_StackTraceRequest :: "StackTraceRequest \<Rightarrow> bool" where
  "ints_StackTraceRequest m \<longleftrightarrow> ints_Request m \<and>
     ints_StackTraceArguments (StackTraceRequest_arguments m)"

definition wire_StackTraceRequest :: "StackTraceRequest \<Rightarrow> bool" where
  "wire_StackTraceRequest m \<longleftrightarrow> ints_StackTraceRequest m \<and>
     wire_Request m \<and>
     wire_StackTraceArguments (StackTraceRequest_arguments m)"

lemma StackTraceRequest_To_object [simp]: "IsObject (StackTraceRequest_To m)"
  by (simp add: StackTraceRequest_To_def Let_def)

lemma StackTraceRequest_To_doc [doc_intros]: "ints_StackTraceRequest m \<Longrightarrow> doc None (StackTraceRequest_To m)"
  by (auto simp: ints_StackTraceRequest_def StackTraceRequest_To_def Let_def list_all_iff intro!: doc_intros)

lemma new_StackTraceRequest_ints [simp]: "ints_StackTraceRequest new_StackTraceRequest"
  by (simp add: ints_StackTraceRequest_def new_StackTraceRequest_def msg_defs)

lemma StackTraceRequest_From_ints [ints_intros]: "ints_json j \<Longrightarrow> ints_StackTraceRequest m \<Longrightarrow> ints_StackTraceRequest (StackTraceRequest_From j m)"
  by (auto simp: ints_StackTraceRequest_def StackTraceRequest_From_def Let_def msg_defs intro!: ints_intros)

lemma StackTraceRequest_From_view [simp]:
  "StackTraceRequest_From (reparsed j) m = StackTraceRequest_From j m"
  "StackTraceRequest_From (map_option (set_name nm) j) m = StackTraceRequest_From j m"
  by (simp_all add: StackTraceRequest_From_def Let_def)

lemma StackTraceRequest_roundtrip [msg_roundtrip]: "wire_StackTraceRequest m \<Longrightarrow> StackTraceRequest_From (StackTraceRequest_To m) new_StackTraceRequest = m"
  by (cases m) (simp add: wire_StackTraceRequest_def ints_StackTraceRequest_def new_StackTraceRequest_def StackTraceRequest_To_def StackTraceRequest_From_def Let_def msg_defs json_simps msg_simps msg_roundtrip)

record VariablesRequest = Request +
  VariablesRequest_arguments :: VariablesArguments

definition new_VariablesRequest :: VariablesRequest where
  "new_VariablesRequest = \<lparr>ProtocolMessage_seq = -1,
     ProtocolMessage_type = ''request'',
     Request_command = ''variables'',
     VariablesRequest_arguments = new_VariablesArguments\<rparr>"

definition VariablesRequest_To :: "VariablesRequest \<Rightarrow> Json" where
  "VariablesRequest_To m =
     (let
         json = Request_To m;
         json = Json_Add_json ''arguments'' (VariablesArguments_To (VariablesRequest_arguments m)) json
      in json)"

definition VariablesRequest_From :: "Json \<Rightarrow> VariablesRequest \<Rightarrow> VariablesRequest" where
  "VariablesRequest_From json m =
     (let m = Request_From json m
      in m \<lparr>VariablesRequest_arguments := VariablesArguments_From (Json_at json ''arguments'') (VariablesRequest_arguments m)\<rparr>)"

definition ints_VariablesRequest :: "VariablesRequest \<Rightarrow> bool" where
  "ints_VariablesRequest m \<longleftrightarrow> ints_Request m \<and>
     ints_VariablesArguments (VariablesRequest_arguments m)"

definition wire_VariablesRequest :: "VariablesRequest \<Rightarrow> bool" where
  "wire_VariablesRequest m \<longleftrightarrow> ints_VariablesRequest m \<and>
     wire_Request m \<and>
     wire_VariablesArguments (VariablesRequest_arguments m)"

lemma VariablesRequest_To_object [simp]: "IsObject (VariablesRequest_To m)"
  by (simp add: VariablesRequest_To_def Let_def)

lemma VariablesRequest_To_doc [doc_intros]: "ints_VariablesRequest m \<Longrightarrow> doc None (VariablesRequest_To m)"
  by (auto simp: ints_VariablesRequest_def VariablesRequest_To_def Let_def list_all_iff intro!: doc_intros)

lemma new_VariablesRequest_ints [simp]: "ints_VariablesRequest new_VariablesRequest"
  by (simp add: ints_VariablesRequest_def new_VariablesRequest_def msg_defs)

lemma VariablesRequest_From_ints [ints_intros]: "ints_json j \<Longrightarrow> ints_VariablesRequest m \<Longrightarrow> ints_VariablesRequest (VariablesRequest_From j m)"
  by (auto simp: ints_VariablesRequest_def VariablesRequest_From_def Let_def msg_defs intro!: ints_intros)

lemma VariablesRequest_From_view [simp]:
  "VariablesRequest_From (reparsed j) m = VariablesRequest_From j m"
  "VariablesRequest_From (map_option (set_name nm) j) m = VariablesRequest_From j m"
  by (simp_all add: VariablesRequest_From_def Let_def)

lemma VariablesRequest_roundtrip [msg_roundtrip]: "wire_VariablesRequest m \<Longrightarrow> VariablesRequest_From (VariablesRequest_To m) new_VariablesRequest = m"
  by (cases m) (simp add: wire_VariablesRequest_def ints_VariablesRequest_def new_VariablesRequest_def VariablesRequest_To_def VariablesRequest_From_def Let_def msg_defs json_simps msg_simps msg_roundtrip)

record PauseRequest = Request +
  PauseRequest_arguments :: PauseArguments

definition new_PauseRequest :: PauseRequest where
  "new_PauseRequest = \<lparr>ProtocolMessage_seq = -1,
     ProtocolMessage_type = ''request'',
     Request_command = ''pause'',
     PauseRequest_arguments = new_PauseArguments\<rparr>"

definition PauseRequest_To :: "PauseRequest \<Rightarrow> Json" where
  "PauseRequest_To m =
     (let
         json = Request_To m;
         json = Json_Add_json ''arguments'' (PauseArguments_To (PauseRequest_arguments m)) json
      in json)"

definition PauseRequest_From :: "Json \<Rightarrow> PauseRequest \<Rightarrow> PauseRequest" where
  "PauseRequest_From json m =
     (let m = Request_From json m
      in m \<lparr>PauseRequest_arguments := PauseArguments_From (Json_at json ''arguments'') (PauseRequest_arguments m)\<rparr>)"

definition ints_PauseRequest :: "PauseRequest \<Rightarrow> bool" where
  "ints_PauseRequest m \<longleftrightarrow> ints_Request m \<and>
     ints_PauseArguments (PauseRequest_arguments m)"

definition wire_PauseRequest :: "PauseRequest \<Rightarrow> bool" where
  "wire_PauseRequest m \<longleftrightarrow> ints_PauseRequest m \<and>
     wire_Request m \<and>
     wire_PauseArguments (PauseRequest_arguments m)"

lemma PauseRequest_To_object [simp]: "IsObject (PauseRequest_To m)"
  by (simp add: PauseRequest_To_def Let_def)

lemma PauseRequest_To_doc [doc_intros]: "ints_PauseRequest m \<Longrightarrow> doc None (PauseRequest_To m)"
  by (auto simp: ints_PauseRequest_def PauseRequest_To_def Let_def list_all_iff intro!: doc_intros)

lemma new_PauseRequest_ints [simp]: "ints_PauseRequest new_PauseRequest"
  by (simp add: ints_PauseRequest_def new_PauseRequest_def msg_defs)

lemma PauseRequest_From_ints [ints_intros]: "ints_json j \<Longrightarrow> ints_PauseRequest m \<Longrightarrow> ints_PauseRequest (PauseRequest_From j m)"
  by (auto simp: ints_PauseRequest_def PauseRequest_From_def Let_def msg_defs intro!: ints_intros)

lemma PauseRequest_From_view [simp]:
  "PauseRequest_From (reparsed j) m = PauseRequest_From j m"
  "PauseRequest_From (map_option (set_name nm) j) m = PauseRequest_From j m"
  by (simp_all add: PauseRequest_From_def Let_def)

lemma PauseRequest_roundtrip [msg_roundtrip]: "wire_PauseRequest m \<Longrightarrow> PauseRequest_From (PauseRequest_To m) new_PauseRequest = m"
  by (cases m) (simp add: wire_PauseRequest_def ints_PauseRequest_def new_PauseRequest_def PauseRequest_To_def PauseRequest_From_def Let_def msg_defs json_simps msg_simps msg_roundtrip)

record RunInTerminalRequest = Request +
  RunInTerminalRequest_arguments :: RunInTerminalRequestArguments

definition new_RunInTerminalRequest :: RunInTerminalRequest where
  "new_RunInTerminalRequest = \<lparr>ProtocolMessage_seq = -1,
     ProtocolMessage_type = ''request'',
     Request_command = ''runInTerminal'',
     RunInTerminalRequest_arguments = new_RunInTerminalRequestArguments\<rparr>"

definition RunInTerminalRequest_To :: "RunInTerminalRequest \<Rightarrow> Json" where
  "RunInTerminalRequest_To m =
     (let
         json = Request_To m;
         json = Json_Add_json ''arguments'' (RunInTerminalRequestArguments_To (RunInTerminalRequest_arguments m)) json
      in json)"

definition RunInTerminalRequest_From :: "Json \<Rightarrow> RunInTerminalRequest \<Rightarrow> RunInTerminalRequest" where
  "RunInTerminalRequest_From json m =
     (let m = Request_From json m
      in m \<lparr>RunInTerminalRequest_arguments := RunInTerminalRequestArguments_From (Json_at json ''arguments'') (RunInTerminalRequest_arguments m)\<rparr>)"

definition ints_RunInTerminalRequest :: "RunInTerminalRequest \<Rightarrow> bool" where
  "ints_RunInTerminalRequest m \<longleftrightarrow> ints_Request m \<and>
     ints_RunInTerminalRequestArguments (RunInTerminalRequest_arguments m)"

definition wire_RunInTerminalRequest :: "RunInTerminalRequest \<Rightarrow> bool" where
  "wire_RunInTerminalRequest m \<longleftrightarrow> ints_RunInTerminalRequest m \<and>
     wire_Request m \<and>
     wire_RunInTerminalRequestArguments (RunInTerminalRequest_arguments m)"

lemma RunInTerminalRequest_To_object [simp]: "IsObject (RunInTerminalRequest_To m)"
  by (simp add: RunInTerminalRequest_To_def Let_def)

lemma RunInTerminalRequest_To_doc [doc_intros]: "ints_RunInTerminalRequest m \<Longrightarrow> doc None (RunInTerminalRequest_To m)"
  by (auto simp: ints_RunInTerminalRequest_def RunInTerminalRequest_To_def Let_def list_all_iff intro!: doc_intros)

lemma new_RunInTerminalRequest_ints [simp]: "ints_RunInTerminalRequest new_RunInTerminalRequest"
  by (simp add: ints_RunInTerminalRequest_def new_RunInTerminalRequest_def msg_defs)

lemma RunInTerminalRequest_From_ints [ints_intros]: "ints_json j \<Longrightarrow> ints_RunInTerminalRequest m \<Longrightarrow> ints_RunInTerminalRequest (RunInTerminalRequest_From j m)"
  by (auto simp: ints_RunInTerminalRequest_def RunInTerminalRequest_From_def Let_def msg_defs intro!: ints_intros)

lemma RunInTerminalRequest_From_view [simp]:
  "RunInTerminalRequest_From (reparsed j) m = RunInTerminalRequest_From j m"
  "RunInTerminalRequest_From (map_option (set_name nm) j) m = RunInTerminalRequest_From j m"
  by (simp_all add: RunInTerminalRequest_From_def Let_def)

lemma RunInTerminalRequest_roundtrip [msg_roundtrip]: "wire_RunInTerminalRequest m \<Longrightarrow> RunInTerminalRequest_From (RunInTerminalRequest_To m) new_RunInTerminalRequest = m"
  by (cases m) (simp add: wire_RunInTerminalRequest_def ints_RunInTerminalRequest_def new_RunInTerminalRequest_def RunInTerminalRequest_To_def RunInTerminalRequest_From_def Let_def msg_defs json_simps msg_simps msg_roundtrip)

record SourceRequest = Request +
  SourceRequest_arguments :: SourceArguments

definition new_SourceRequest :: SourceRequest where
  "new_SourceRequest = \<lparr>ProtocolMessage_seq = -1,
     ProtocolMessage_type = ''request'',
     Request_command = ''source'',
     SourceRequest_arguments = new_SourceArguments\<rparr>"

definition SourceRequest_To :: "SourceRequest \<Rightarrow> Json" where
  "SourceRequest_To m =
     (let
         json = Request_To m;
         json = Json_AddObject ''arguments'' (SourceArguments_To (SourceRequest_arguments m)) json
      in json)"

definition SourceRequest_From :: "Json \<Rightarrow> SourceRequest \<Rightarrow> SourceRequest" where
  "SourceRequest_From json m =
     (let m = Request_From json m
      in m \<lparr>SourceRequest_arguments := SourceArguments_From (Json_at json ''arguments'') (SourceRequest_arguments m)\<rparr>)"

definition ints_SourceRequest :: "SourceRequest \<Rightarrow> bool" where
  "ints_SourceRequest m \<longleftrightarrow> ints_Request m \<and>
     ints_SourceArguments (SourceRequest_arguments m)"

definition wire_SourceRequest :: "SourceRequest \<Rightarrow> bool" where
  "wire_SourceRequest m \<longleftrightarrow> ints_SourceRequest m \<and>
     wire_Request m \<and>
     wire_SourceArguments (SourceRequest_arguments m)"

lemma SourceRequest_To_object [simp]: "IsObject (SourceRequest_To m)"
  by (simp add: SourceRequest_To_def Let_def)

lemma SourceRequest_To_doc [doc_intros]: "ints_SourceRequest m \<Longrightarrow> doc None (SourceRequest_To m)"
  by (auto simp: ints_SourceRequest_def SourceRequest_To_def Let_def list_all_iff intro!: doc_intros)

lemma new_SourceRequest_ints [simp]: "ints_SourceRequest new_SourceRequest"
  by (simp add: ints_SourceRequest_def new_SourceRequest_def msg_defs)

lemma SourceRequest_From_ints [ints_intros]: "ints_json j \<Longrightarrow> ints_SourceRequest m \<Longrightarrow> ints_SourceRequest (SourceRequest_From j m)"
  by (auto simp: ints_SourceRequest_def SourceRequest_From_def Let_def msg_defs intro!: ints_intros)

lemma SourceRequest_From_view [simp]:
  "SourceRequest_From (reparsed j) m = SourceRequest_From j m"
  "SourceRequest_From (map_option (set_name nm) j) m = SourceRequest_From j m"
  by (simp_all add: SourceRequest_From_def Let_def)

lemma SourceRequest_roundtrip [msg_roundtrip]: "wire_SourceRequest m \<Longrightarrow> SourceRequest_From (SourceRequest_To m) new_SourceRequest = m"
  by (cases m) (simp add: wire_SourceRequest_def ints_SourceRequest_def new_SourceRequest_def SourceRequest_To_def SourceRequest_From_def Let_def msg_defs json_simps msg_simps msg_roundtrip)

record EvaluateRequest = Request +
  EvaluateRequest_arguments :: EvaluateArguments

definition new_EvaluateRequest :: EvaluateRequest where
  "new_EvaluateRequest = \<lparr>ProtocolMessage_seq = -1,
     ProtocolMessage_type = ''request'',
     Request_command = ''evaluate'',
     EvaluateRequest_arguments = new_EvaluateArguments\<rparr>"

definition EvaluateRequest_To :: "EvaluateRequest \<Rightarrow> Json" where
  "EvaluateRequest_To m =
     (let
         json = Request_To m;
         json = Json_AddObject ''arguments'' (EvaluateArguments_To (EvaluateRequest_arguments m)) json
      in json)"

definition EvaluateRequest_From :: "Json \<Rightarrow> EvaluateRequest \<Rightarrow> EvaluateRequest" where
  "EvaluateRequest_From json m =
     (let m = Request_From json m
      in m \<lparr>EvaluateRequest_arguments := EvaluateArguments_From (Json_at json ''arguments'') (EvaluateRequest_arguments m)\<rparr>)"

definition ints_EvaluateRequest :: "EvaluateRequest \<Rightarrow> bool" where
  "ints_EvaluateRequest m \<longleftrightarrow> ints_Request m \<and>
     ints_EvaluateArguments (EvaluateRequest_arguments m)"

definition wire_EvaluateRequest :: "EvaluateRequest \<Rightarrow> bool" where
  "wire_EvaluateRequest m \<longleftrightarrow> ints_EvaluateRequest m \<and>
     wire_Request m \<and>
     wire_EvaluateArguments (EvaluateRequest_arguments m)"

lemma EvaluateRequest_To_object [simp]: "IsObject (EvaluateRequest_To m)"
  by (simp add: EvaluateRequest_To_def Let_def)

lemma EvaluateRequest_To_doc [doc_intros]: "ints_EvaluateRequest m \<Longrightarrow> doc None (EvaluateRequest_To m)"
  by (auto simp: ints_EvaluateRequest_def EvaluateRequest_To_def Let_def list_all_iff intro!: doc_intros)

lemma new_EvaluateRequest_ints [simp]: "ints_EvaluateRequest new_EvaluateRequest"
  by (simp add: ints_EvaluateRequest_def new_EvaluateRequest_def msg_defs)

lemma EvaluateRequest_From_ints [ints_intros]: "ints_json j \<Longrightarrow> ints_EvaluateRequest m \<Longrightarrow> ints_EvaluateRequest (EvaluateRequest_From j m)"
  by (auto simp: ints_EvaluateRequest_def EvaluateRequest_From_def Let_def msg_defs intro!: ints_intros)

lemma EvaluateRequest_From_view [simp]:
  "EvaluateRequest_From (reparsed j) m = EvaluateRequest_From j m"
  "EvaluateRequest_From (map_option (set_name nm) j) m = EvaluateRequest_From j m"
  by (simp_all add: EvaluateRequest_From_def Let_def)

lemma EvaluateRequest_roundtrip [msg_roundtrip]: "wire_EvaluateRequest m \<Longrightarrow> EvaluateRequest_From (EvaluateRequest_To m) new_EvaluateRequest = m"
  by (cases m) (simp add: wire_EvaluateRequest_def ints_EvaluateRequest_def new_EvaluateRequest_def EvaluateRequest_To_def EvaluateRequest_From_def Let_def msg_defs json_simps msg_simps msg_roundtrip)

end
