(* ===== verification/Dap_Responses.thy ===== *)
theory Dap_Responses
  imports Dap_Data
begin

text \<open>
  The responses of \<^verbatim>\<open>dap/dap.hpp\<close>.  The members \<^verbatim>\<open>refId\<close>, \<^verbatim>\<open>context\<close>, \<^verbatim>\<open>filepath\<close> and
  \<^verbatim>\<open>originSource\<close> are set by the client and never sent.
\<close>

datatype EvaluateContext = VARIABLES | WATCH | REPL | HOVER | CLIPBOARD

type_synonym CancelResponse = Response

definition new_CancelResponse :: CancelResponse where
  "new_CancelResponse = \<lparr>ProtocolMessage_seq = -1,
     ProtocolMessage_type = ''response'',
     Response_request_seq = -1,
     Response_success = True,
     Response_command = ''cancel'',
     Response_message = []\<rparr>"

definition CancelResponse_To :: "CancelResponse \<Rightarrow> Json" where
  "CancelResponse_To m = Response_To m"

definition CancelResponse_From :: "Json \<Rightarrow> CancelResponse \<Rightarrow> CancelResponse" where
  "CancelResponse_From json m = Response_From json m"

definition ints_CancelResponse :: "CancelResponse \<Rightarrow> bool" where
  "ints_CancelResponse m \<longleftrightarrow> ints_Response m"

definition wire_CancelResponse :: "CancelResponse \<Rightarrow> bool" where
  "wire_CancelResponse m \<longleftrightarrow> ints_CancelResponse m \<and>
     wire_Response m"

lemma CancelResponse_To_object [simp]: "IsObject (CancelResponse_To m)"
  by (simp add: CancelResponse_To_def Let_def)

lemma CancelResponse_To_doc [doc_intros]: "ints_CancelResponse m \<Longrightarrow> doc None (CancelResponse_To m)"
  by (auto simp: ints_CancelResponse_def CancelResponse_To_def Let_def list_all_iff intro!: doc_intros)

lemma new_CancelResponse_ints [simp]: "ints_CancelResponse new_CancelResponse"
  by (simp add: ints_CancelResponse_def new_CancelResponse_def msg_defs)

lemma CancelResponse_From_ints [ints_intros]: "ints_json j \<Longrightarrow> ints_CancelResponse m \<Longrightarrow> ints_CancelResponse (CancelResponse_From j m)"
  by (auto simp: ints_CancelResponse_def CancelResponse_From_def Let_def msg_defs intro!: ints_intros)

lemma CancelResponse_From_view [simp]:
  "CancelResponse_From (reparsed j) m = CancelResponse_From j m"
  "CancelResponse_From (map_option (set_name nm) j) m = CancelResponse_From j m"
  by (simp_all add: CancelResponse_From_def Let_def)

lemma CancelResponse_roundtrip [msg_roundtrip]: "wire_CancelResponse m \<Longrightarrow> CancelResponse_From (CancelResponse_To m) new_CancelResponse = m"
  by (cases m) (simp add: wire_CancelResponse_def ints_CancelResponse_def new_CancelResponse_def CancelResponse_To_def CancelResponse_From_def Let_def msg_defs json_simps msg_simps msg_roundtrip)

type_synonym InitializeResponse = Response

definition new_InitializeResponse :: InitializeResponse where
  "new_InitializeResponse = \<lparr>ProtocolMessage_seq = -1,
     ProtocolMessage_type = ''response'',
     Response_request_seq = -1,
     Response_success = True,
     Response_command = ''initialize'',
     Response_message = []\<rparr>"

definition InitializeResponse_To :: "InitializeResponse \<Rightarrow> Json" where
  "InitializeResponse_To m =
     (let
         json = Response_To m;
         json = Json_AddNewObject ''body'' (\<lambda>body. body) json
      in json)"

definition InitializeResponse_From :: "Json \<Rightarrow> InitializeResponse \<Rightarrow> InitializeResponse" where
  "InitializeResponse_From json m = Response_From json m"

definition ints_InitializeResponse :: "InitializeResponse \<Rightarrow> bool" where
  "ints_InitializeResponse m \<longleftrightarrow> ints_Response m"

definition wire_InitializeResponse :: "InitializeResponse \<Rightarrow> bool" where
  "wire_InitializeResponse m \<longleftrightarrow> ints_InitializeResponse m \<and>
     wire_Response m"

lemma InitializeResponse_To_object [simp]: "IsObject (InitializeResponse_To m)"
  by (simp add: InitializeResponse_To_def Let_def)

lemma InitializeResponse_To_doc [doc_intros]: "ints_InitializeResponse m \<Longrightarrow> doc None (InitializeResponse_To m)"
  by (auto simp: ints_InitializeResponse_def InitializeResponse_To_def Let_def list_all_iff intro!: doc_intros)

lemma new_InitializeResponse_ints [simp]: "ints_InitializeResponse new_InitializeResponse"
  by (simp add: ints_InitializeResponse_def new_InitializeResponse_def msg_defs)

lemma InitializeResponse_From_ints [ints_intros]: "ints_json j \<Longrightarrow> ints_InitializeResponse m \<Longrightarrow> ints_InitializeResponse (InitializeResponse_From j m)"
  by (auto simp: ints_InitializeResponse_def InitializeResponse_From_def Let_def msg_defs intro!: ints_intros)

lemma InitializeResponse_From_view [simp]:
  "InitializeResponse_From (reparsed j) m = InitializeResponse_From j m"
  "InitializeResponse_From (map_option (set_name nm) j) m = InitializeResponse_From j m"
  by (simp_all add: InitializeResponse_From_def Let_def)

lemma InitializeResponse_roundtrip [msg_roundtrip]: "wire_InitializeResponse m \<Longrightarrow> InitializeResponse_From (InitializeResponse_To m) new_InitializeResponse = m"
  by (cases m) (simp add: wire_InitializeResponse_def ints_InitializeResponse_def new_InitializeResponse_def InitializeResponse_To_def InitializeResponse_From_def Let_def msg_defs json_simps msg_simps msg_roundtrip)

type_synonym EmptyAckResponse = Response

definition new_EmptyAckResponse :: EmptyAckResponse where
  "new_EmptyAckResponse = \<lparr>ProtocolMessage_seq = -1,
     ProtocolMessage_type = ''response'',
     Response_request_seq = -1,
     Response_success = True,
     Response_command = [],
     Response_message = []\<rparr>"

definition EmptyAckResponse_To :: "EmptyAckResponse \<Rightarrow> Json" where
  "EmptyAckResponse_To m = Response_To m"

definition EmptyAckResponse_From :: "Json \<Rightarrow> EmptyAckResponse \<Rightarrow> EmptyAckResponse" where
  "EmptyAckResponse_From json m = Response_From json m"

definition ints_EmptyAckResponse :: "EmptyAckResponse \<Rightarrow> bool" where
  "ints_EmptyAckResponse m \<longleftrightarrow> ints_Response m"

definition wire_EmptyAckResponse :: "EmptyAckResponse \<Rightarrow> bool" where
  "wire_EmptyAckResponse m \<longleftrightarrow> ints_EmptyAckResponse m \<and>
     wire_Response m"

declare EmptyAckResponse_To_def [msg_defs] EmptyAckResponse_From_def [msg_defs] wire_EmptyAckResponse_def [msg_defs] ints_EmptyAckResponse_def [msg_defs]

lemma EmptyAckResponse_To_object [simp]: "IsObject (EmptyAckResponse_To m)"
  by (simp add: EmptyAckResponse_To_def Let_def)

lemma EmptyAckResponse_To_doc [doc_intros]: "ints_EmptyAckResponse m \<Longrightarrow> doc None (EmptyAckResponse_To m)"
  by (auto simp: ints_EmptyAckResponse_def EmptyAckResponse_To_def Let_def list_all_iff intro!: doc_intros)

lemma new_EmptyAckResponse_ints [simp]: "ints_EmptyAckResponse new_EmptyAckResponse"
  by (simp add: ints_EmptyAckResponse_def new_EmptyAckResponse_def msg_defs)

lemma EmptyAckResponse_From_ints [ints_intros]: "ints_json j \<Longrightarrow> ints_EmptyAckResponse m \<Longrightarrow> ints_EmptyAckResponse (EmptyAckResponse_From j m)"
  by (auto simp: ints_EmptyAckResponse_def EmptyAckResponse_From_def Let_def msg_defs intro!: ints_intros)

lemma EmptyAckResponse_From_view [simp]:
  "EmptyAckResponse_From (reparsed j) m = EmptyAckResponse_From j m"
  "EmptyAckResponse_From (map_option (set_name nm) j) m = EmptyAckResponse_From j m"
  by (simp_all add: EmptyAckResponse_From_def Let_def)

lemma EmptyAckResponse_roundtrip [msg_roundtrip]: "wire_EmptyAckResponse m \<Longrightarrow> EmptyAckResponse_From (EmptyAckResponse_To m) new_EmptyAckResponse = m"
  by (cases m) (simp add: wire_EmptyAckResponse_def ints_EmptyAckResponse_def new_EmptyAckResponse_def EmptyAckResponse_To_def EmptyAckResponse_From_def Let_def msg_defs json_simps msg_simps msg_roundtrip)

type_synonym ConfigurationDoneResponse = EmptyAckResponse

definition new_ConfigurationDoneResponse :: ConfigurationDoneResponse where
  "new_ConfigurationDoneResponse = \<lparr>ProtocolMessage_seq = -1,
     ProtocolMessage_type = ''response'',
     Response_request_seq = -1,
     Response_success = True,
     Response_command = ''configurationDone'',
     Response_message = []\<rparr>"

definition ConfigurationDoneResponse_To :: "ConfigurationDoneResponse \<Rightarrow> Json" where
  "ConfigurationDoneResponse_To m = EmptyAckResponse_To m"

definition ConfigurationDoneResponse_From :: "Json \<Rightarrow> ConfigurationDoneResponse \<Rightarrow> ConfigurationDoneResponse" where
  "ConfigurationDoneResponse_From json m = EmptyAckResponse_From json m"

definition ints_ConfigurationDoneResponse :: "ConfigurationDoneResponse \<Rightarrow> bool" where
  "ints_ConfigurationDoneResponse m \<longleftrightarrow> ints_EmptyAckResponse m"

definition wire_ConfigurationDoneResponse :: "ConfigurationDoneResponse \<Rightarrow> bool" where
  "wire_ConfigurationDoneResponse m \<longleftrightarrow> ints_ConfigurationDoneResponse m \<and>
     wire_EmptyAckResponse m"

lemma ConfigurationDoneResponse_To_object [simp]: "IsObject (ConfigurationDoneResponse_To m)"
  by (simp add: ConfigurationDoneResponse_To_def Let_def)

lemma ConfigurationDoneResponse_To_doc [doc_intros]: "ints_ConfigurationDoneResponse m \<Longrightarrow> doc None (ConfigurationDoneResponse_To m)"
  by (auto simp: ints_ConfigurationDoneResponse_def ConfigurationDoneResponse_To_def Let_def list_all_iff intro!: doc_intros)

lemma new_ConfigurationDoneResponse_ints [simp]: "ints_ConfigurationDoneResponse new_ConfigurationDoneResponse"
  by (simp add: ints_ConfigurationDoneResponse_def new_ConfigurationDoneResponse_def msg_defs)

lemma ConfigurationDoneResponse_From_ints [ints_intros]: "ints_json j \<Longrightarrow> ints_ConfigurationDoneResponse m \<Longrightarrow> ints_ConfigurationDoneResponse (ConfigurationDoneResponse_From j m)"
  by (auto simp: ints_ConfigurationDoneResponse_def ConfigurationDoneResponse_From_def Let_def msg_defs intro!: ints_intros)

lemma ConfigurationDoneResponse_From_view [simp]:
  "ConfigurationDoneResponse_From (reparsed j) m = ConfigurationDoneResponse_From j m"
  "ConfigurationDoneResponse_From (map_option (set_name nm) j) m = ConfigurationDoneResponse_From j m"
  by (simp_all add: ConfigurationDoneResponse_From_def Let_def)

lemma ConfigurationDoneResponse_roundtrip [msg_roundtrip]: "wire_ConfigurationDoneResponse m \<Longrightarrow> ConfigurationDoneResponse_From (ConfigurationDoneResponse_To m) new_ConfigurationDoneResponse = m"
  by (cases m) (simp add: wire_ConfigurationDoneResponse_def ints_ConfigurationDoneResponse_def new_ConfigurationDoneResponse_def ConfigurationDoneResponse_To_def ConfigurationDoneResponse_From_def Let_def msg_defs json_simps msg_simps msg_roundtrip)

type_synonym LaunchResponse = EmptyAckResponse

definition new_LaunchResponse :: LaunchResponse where
  "new_LaunchResponse = \<lparr>ProtocolMessage_seq = -1,
     ProtocolMessage_type = ''response'',
     Response_request_seq = -1,
     Response_success = True,
     Response_command = ''launch'',
     Response_message = []\<rparr>"

definition LaunchResponse_To :: "LaunchResponse \<Rightarrow> Json" where
  "LaunchResponse_To m = EmptyAckResponse_To m"

definition LaunchResponse_From :: "Json \<Rightarrow> LaunchResponse \<Rightarrow> LaunchResponse" where
  "LaunchResponse_From json m = EmptyAckResponse_From json m"

definition ints_LaunchResponse :: "LaunchResponse \<Rightarrow> bool" where
  "ints_LaunchResponse m \<longleftrightarrow> ints_EmptyAckResponse m"

definition wire_LaunchResponse :: "LaunchResponse \<Rightarrow> bool" where
  "wire_LaunchResponse m \<longleftrightarrow> ints_LaunchResponse m \<and>
     wire_EmptyAckResponse m"

lemma LaunchResponse_To_object [simp]: "IsObject (LaunchResponse_To m)"
  by (simp add: LaunchResponse_To_def Let_def)

lemma LaunchResponse_To_doc [doc_intros]: "ints_LaunchResponse m \<Longrightarrow> doc None (LaunchResponse_To m)"
  by (auto simp: ints_LaunchResponse_def LaunchResponse_To_def Let_def list_all_iff intro!: doc_intros)

lemma new_LaunchResponse_ints [simp]: "ints_LaunchResponse new_LaunchResponse"
  by (simp add: ints_LaunchResponse_def new_LaunchResponse_def msg_defs)

lemma LaunchResponse_From_ints [ints_intros]: "ints_json j \<Longrightarrow> ints_LaunchResponse m \<Longrightarrow> ints_LaunchResponse (LaunchResponse_From j m)"
  by (auto simp: ints_LaunchResponse_def LaunchResponse_From_def Let_def msg_defs intro!: ints_intros)

lemma LaunchResponse_From_view [simp]:
  "LaunchResponse_From (reparsed j) m = LaunchResponse_From j m"
  "LaunchResponse_From (map_option (set_name nm) j) m = LaunchResponse_From j m"
  by (simp_all add: LaunchResponse_From_def Let_def)

lemma LaunchResponse_roundtrip [msg_roundtrip]: "wire_LaunchResponse m \<Longrightarrow> LaunchResponse_From (LaunchResponse_To m) new_LaunchResponse = m"
  by (cases m) (simp add: wire_LaunchResponse_def ints_LaunchResponse_def new_LaunchResponse_def LaunchResponse_To_def LaunchResponse_From_def Let_def msg_defs json_simps msg_simps msg_roundtrip)

type_synonym AttachResponse = EmptyAckResponse

definition new_AttachResponse :: AttachResponse where
  "new_AttachResponse = \<lparr>ProtocolMessage_seq = -1,
     ProtocolMessage_type = ''response'',
     Response_request_seq = -1,
     Response_success = True,
     Response_command = ''attach'',
     Response_message = []\<rparr>"

definition AttachResponse_To :: "AttachResponse \<Rightarrow> Json" where
  "AttachResponse_To m = EmptyAckResponse_To m"

definition AttachResponse_From :: "Json \<Rightarrow> AttachResponse \<Rightarrow> AttachResponse" where
  "AttachResponse_From json m = EmptyAckResponse_From json m"

definition ints_AttachResponse :: "AttachResponse \<Rightarrow> bool" where
  "ints_AttachResponse m \<longleftrightarrow> ints_EmptyAckResponse m"

definition wire_AttachResponse :: "AttachResponse \<Rightarrow> bool" where
  "wire_AttachResponse m \<longleftrightarrow> ints_AttachResponse m \<and>
     wire_EmptyAckResponse m"

lemma AttachResponse_To_object [simp]: "IsObject (AttachResponse_To m)"
  by (simp add: AttachResponse_To_def Let_def)

lemma AttachResponse_To_doc [doc_intros]: "ints_AttachResponse m \<Longrightarrow> doc None (AttachResponse_To m)"
  by (auto simp: ints_AttachResponse_def AttachResponse_To_def Let_def list_all_iff intro!: doc_intros)

lemma new_AttachResponse_ints [simp]: "ints_AttachResponse new_AttachResponse"
  by (simp add: ints_AttachResponse_def new_AttachResponse_def msg_defs)

lemma AttachResponse_From_ints [ints_intros]: "ints_json j \<Longrightarrow> ints_AttachResponse m \<Longrightarrow> ints_AttachResponse (AttachResponse_From j m)"
  by (auto simp: ints_AttachResponse_def AttachResponse_From_def Let_def msg_defs intro!: ints_intros)

lemma AttachResponse_From_view [simp]:
  "AttachResponse_From (reparsed j) m = AttachResponse_From j m"
  "AttachResponse_From (map_option (set_name nm) j) m = AttachResponse_From j m"
  by (simp_all add: AttachResponse_From_def Let_def)

lemma AttachResponse_roundtrip [msg_roundtrip]: "wire_AttachResponse m \<Longrightarrow> AttachResponse_From (AttachResponse_To m) new_AttachResponse = m"
  by (cases m) (simp add: wire_AttachResponse_def ints_AttachResponse_def new_AttachResponse_def AttachResponse_To_def AttachResponse_From_def Let_def msg_defs json_simps msg_simps msg_roundtrip)

type_synonym DisconnectResponse = EmptyAckResponse

definition new_DisconnectResponse :: DisconnectResponse where
  "new_DisconnectResponse = \<lparr>ProtocolMessage_seq = -1,
     ProtocolMessage_type = ''response'',
     Response_request_seq = -1,
     Response_success = True,
     Response_command = ''disconnect'',
     Response_message = []\<rparr>"

definition DisconnectResponse_To :: "DisconnectResponse \<Rightarrow> Json" where
  "DisconnectResponse_To m = EmptyAckResponse_To m"

definition DisconnectResponse_From :: "Json \<Rightarrow> DisconnectResponse \<Rightarrow> DisconnectResponse" where
  "DisconnectResponse_From json m = EmptyAckResponse_From json m"

definition ints_DisconnectResponse :: "DisconnectResponse \<Rightarrow> bool" where
  "ints_DisconnectResponse m \<longleftrightarrow> ints_EmptyAckResponse m"

definition wire_DisconnectResponse :: "DisconnectResponse \<Rightarrow> bool" where
  "wire_DisconnectResponse m \<longleftrightarrow> ints_DisconnectResponse m \<and>
     wire_EmptyAckResponse m"

lemma DisconnectResponse_To_object [simp]: "IsObject (DisconnectResponse_To m)"
  by (simp add: DisconnectResponse_To_def Let_def)

lemma DisconnectResponse_To_doc [doc_intros]: "ints_DisconnectResponse m \<Longrightarrow> doc None (DisconnectResponse_To m)"
  by (auto simp: ints_DisconnectResponse_def DisconnectResponse_To_def Let_def list_all_iff intro!: doc_intros)

lemma new_DisconnectResponse_ints [simp]: "ints_DisconnectResponse new_DisconnectResponse"
  by (simp add: ints_DisconnectResponse_def new_DisconnectResponse_def msg_defs)

lemma DisconnectResponse_From_ints [ints_intros]: "ints_json j \<Longrightarrow> ints_DisconnectResponse m \<Longrightarrow> ints_DisconnectResponse (DisconnectResponse_From j m)"
  by (auto simp: ints_DisconnectResponse_def DisconnectResponse_From_def Let_def msg_defs intro!: ints_intros)

lemma DisconnectResponse_From_view [simp]:
  "DisconnectResponse_From (reparsed j) m = DisconnectResponse_From j m"
  "DisconnectResponse_From (map_option (set_name nm) j) m = DisconnectResponse_From j m"
  by (simp_all add: DisconnectResponse_From_def Let_def)

lemma DisconnectResponse_roundtrip [msg_roundtrip]: "wire_DisconnectResponse m \<Longrightarrow> DisconnectResponse_From (DisconnectResponse_To m) new_DisconnectResponse = m"
  by (cases m) (simp add: wire_DisconnectResponse_def ints_DisconnectResponse_def new_DisconnectResponse_def DisconnectResponse_To_def DisconnectResponse_From_def Let_def msg_defs json_simps msg_simps msg_roundtrip)

type_synonym NextResponse = EmptyAckResponse

definition new_NextResponse :: NextResponse where
  "new_NextResponse = \<lparr>ProtocolMessage_seq = -1,
     ProtocolMessage_type = ''response'',
     Response_request_seq = -1,
     Response_success = True,
     Response_command = ''next'',
     Response_message = []\<rparr>"

definition NextResponse_To :: "NextResponse \<Rightarrow> Json" where
  "NextResponse_To m = EmptyAckResponse_To m"

definition NextResponse_From :: "Json \<Rightarrow> NextResponse \<Rightarrow> NextResponse" where
  "NextResponse_From json m = EmptyAckResponse_From json m"

definition ints_NextResponse :: "NextResponse \<Rightarrow> bool" where
  "ints_NextResponse m \<longleftrightarrow> ints_EmptyAckResponse m"

definition wire_NextResponse :: "NextResponse \<Rightarrow> bool" where
  "wire_NextResponse m \<longleftrightarrow> ints_NextResponse m \<and>
     wire_EmptyAckResponse m"

lemma NextResponse_To_object [simp]: "IsObject (NextResponse_To m)"
  by (simp add: NextResponse_To_def Let_def)

lemma NextResponse_To_doc [doc_intros]: "ints_NextResponse m \<Longrightarrow> doc None (NextResponse_To m)"
  by (auto simp: ints_NextResponse_def NextResponse_To_def Let_def list_all_iff intro!: doc_intros)

lemma new_NextResponse_ints [simp]: "ints_NextResponse new_NextResponse"
  by (simp add: ints_NextResponse_def new_NextResponse_def msg_defs)

lemma NextResponse_From_ints [ints_intros]: "ints_json j \<Longrightarrow> ints_NextResponse m \<Longrightarrow> ints_NextResponse (NextResponse_From j m)"
  by (auto simp: ints_NextResponse_def NextResponse_From_def Let_def msg_defs intro!: ints_intros)

lemma NextResponse_From_view [simp]:
  "NextResponse_From (reparsed j) m = NextResponse_From j m"
  "NextResponse_From (map_option (set_name nm) j) m = NextResponse_From j m"
  by (simp_all add: NextResponse_From_def Let_def)

lemma NextResponse_roundtrip [msg_roundtrip]: "wire_NextResponse m \<Longrightarrow> NextResponse_From (NextResponse_To m) new_NextResponse = m"
  by (cases m) (simp add: wire_NextResponse_def ints_NextResponse_def new_NextResponse_def NextResponse_To_def NextResponse_From_def Let_def msg_defs json_simps msg_simps msg_roundtrip)

type_synonym PauseResponse = EmptyAckResponse

definition new_PauseResponse :: PauseResponse where
  "new_PauseResponse = \<lparr>ProtocolMessage_seq = -1,
     ProtocolMessage_type = ''response'',
     Response_request_seq = -1,
     Response_success = True,
     Response_command = ''pause'',
     Response_message = []\<rparr>"

definition PauseResponse_To :: "PauseResponse \<Rightarrow> Json" where
  "PauseResponse_To m = EmptyAckResponse_To m"

definition PauseResponse_From :: "Json \<Rightarrow> PauseResponse \<Rightarrow> PauseResponse" where
  "PauseResponse_From json m = EmptyAckResponse_From json m"

definition ints_PauseResponse :: "PauseResponse \<Rightarrow> bool" where
  "ints_PauseResponse m \<longleftrightarrow> ints_EmptyAckResponse m"

definition wire_PauseResponse :: "PauseResponse \<Rightarrow> bool" where
  "wire_PauseResponse m \<longleftrightarrow> ints_PauseResponse m \<and>
     wire_EmptyAckResponse m"

lemma PauseResponse_To_object [simp]: "IsObject (PauseResponse_To m)"
  by (simp add: PauseResponse_To_def Let_def)

lemma PauseResponse_To_doc [doc_intros]: "ints_PauseResponse m \<Longrightarrow> doc None (PauseResponse_To m)"
  by (auto simp: ints_PauseResponse_def PauseResponse_To_def Let_def list_all_iff intro!: doc_intros)

lemma new_PauseResponse_ints [simp]: "ints_PauseResponse new_PauseResponse"
  by (simp add: ints_PauseResponse_def new_PauseResponse_def msg_defs)

lemma PauseResponse_From_ints [ints_intros]: "ints_json j \<Longrightarrow> ints_PauseResponse m \<Longrightarrow> ints_PauseResponse (PauseResponse_From j m)"
  by (auto simp: ints_PauseResponse_def PauseResponse_From_def Let_def msg_defs intro!: ints_intros)

lemma PauseResponse_From_view [simp]:
  "PauseResponse_From (reparsed j) m = PauseResponse_From j m"
  "PauseResponse_From (map_option (set_name nm) j) m = PauseResponse_From j m"
  by (simp_all add: PauseResponse_From_def Let_def)

lemma PauseResponse_roundtrip [msg_roundtrip]: "wire_PauseResponse m \<Longrightarrow> PauseResponse_From (PauseResponse_To m) new_PauseResponse = m"
  by (cases m) (simp add: wire_PauseResponse_def ints_PauseResponse_def new_PauseResponse_def PauseResponse_To_def PauseResponse_From_def Let_def msg_defs json_simps msg_simps msg_roundtrip)

type_synonym StepInResponse = Response

definition new_StepInResponse :: StepInResponse where
  "new_StepInResponse = \<lparr>ProtocolMessage_seq = -1,
     ProtocolMessage_type = ''response'',
     Response_request_seq = -1,
     Response_success = True,
     Response_command = ''stepIn'',
     Response_message = []\<rparr>"

definition StepInResponse_To :: "StepInResponse \<Rightarrow> Json" where
  "StepInResponse_To m = Response_To m"

definition StepInResponse_From :: "Json \<Rightarrow> StepInResponse \<Rightarrow> StepInResponse" where
  "StepInResponse_From json m = Response_From json m"

definition ints_StepInResponse :: "StepInResponse \<Rightarrow> bool" where
  "ints_StepInResponse m \<longleftrightarrow> ints_Response m"

definition wire_StepInResponse :: "StepInResponse \<Rightarrow> bool" where
  "wire_StepInResponse m \<longleftrightarrow> ints_StepInResponse m \<and>
     wire_Response m"

lemma StepInResponse_To_object [simp]: "IsObject (StepInResponse_To m)"
  by (simp add: StepInResponse_To_def Let_def)

lemma StepInResponse_To_doc [doc_intros]: "ints_StepInResponse m \<Longrightarrow> doc None (StepInResponse_To m)"
  by (auto simp: ints_StepInResponse_def StepInResponse_To_def Let_def list_all_iff intro!: doc_intros)

lemma new_StepInResponse_ints [simp]: "ints_StepInResponse new_StepInResponse"
  by (simp add: ints_StepInResponse_def new_StepInResponse_def msg_defs)

lemma StepInResponse_From_ints [ints_intros]: "ints_json j \<Longrightarrow> ints_StepInResponse m \<Longrightarrow> ints_StepInResponse (StepInResponse_From j m)"
  by (auto simp: ints_StepInResponse_def StepInResponse_From_def Let_def msg_defs intro!: ints_intros)

lemma StepInResponse_From_view [simp]:
  "StepInResponse_From (reparsed j) m = StepInResponse_From j m"
  "StepInResponse_From (map_option (set_name nm) j) m = StepInResponse_From j m"
  by (simp_all add: StepInResponse_From_def Let_def)

lemma StepInResponse_roundtrip [msg_roundtrip]: "wire_StepInResponse m \<Longrightarrow> StepInResponse_From (StepInResponse_To m) new_StepInResponse = m"
  by (cases m) (simp add: wire_StepInResponse_def ints_StepInResponse_def new_StepInResponse_def StepInResponse_To_def StepInResponse_From_def Let_def msg_defs json_simps msg_simps msg_roundtrip)

type_synonym StepOutResponse = Response

definition new_StepOutResponse :: StepOutResponse where
  "new_StepOutResponse = \<lparr>ProtocolMessage_seq = -1,
     ProtocolMessage_type = ''response'',
     Response_request_seq = -1,
     Response_success = True,
     Response_command = ''stepOut'',
     Response_message = []\<rparr>"

definition StepOutResponse_To :: "StepOutResponse \<Rightarrow> Json" where
  "StepOutResponse_To m = Response_To m"

definition StepOutResponse_From :: "Json \<Rightarrow> StepOutResponse \<Rightarrow> StepOutResponse" where
  "StepOutResponse_From json m = Response_From json m"

definition ints_StepOutResponse :: "StepOutResponse \<Rightarrow> bool" where
  "ints_StepOutResponse m \<longleftrightarrow> ints_Response m"

definition wire_StepOutResponse :: "StepOutResponse \<Rightarrow> bool" where
  "wire_StepOutResponse m \<longleftrightarrow> ints_StepOutResponse m \<and>
     wire_Response m"

lemma StepOutResponse_To_object [simp]: "IsObject (StepOutResponse_To m)"
  by (simp add: StepOutResponse_To_def Let_def)

lemma StepOutResponse_To_doc [doc_intros]: "ints_StepOutResponse m \<Longrightarrow> doc None (StepOutResponse_To m)"
  by (auto simp: ints_StepOutResponse_def StepOutResponse_To_def Let_def list_all_iff intro!: doc_intros)

lemma new_StepOutResponse_ints [simp]: "ints_StepOutResponse new_StepOutResponse"
  by (simp add: ints_StepOutResponse_def new_StepOutResponse_def msg_defs)

lemma StepOutResponse_From_ints [ints_intros]: "ints_json j \<Longrightarrow> ints_StepOutResponse m \<Longrightarrow> ints_StepOutResponse (StepOutResponse_From j m)"
  by (auto simp: ints_StepOutResponse_def StepOutResponse_From_def Let_def msg_defs intro!: ints_intros)

lemma StepOutResponse_From_view [simp]:
  "StepOutResponse_From (reparsed j) m = StepOutResponse_From j m"
  "StepOutResponse_From (map_option (set_name nm) j) m = StepOutResponse_From j m"
  by (simp_all add: StepOutResponse_From_def Let_def)

lemma StepOutResponse_roundtrip [msg_roundtrip]: "wire_StepOutResponse m \<Longrightarrow> StepOutResponse_From (StepOutResponse_To m) new_StepOutResponse = m"
  by (cases m) (simp add: wire_StepOutResponse_def ints_StepOutResponse_def new_StepOutResponse_def StepOutResponse_To_def StepOutResponse_From_def Let_def msg_defs json_simps msg_simps msg_roundtrip)

record BreakpointLocationsResponse = Response +
  BreakpointLocationsResponse_filepath :: string
  BreakpointLocationsResponse_breakpoints :: "BreakpointLocation list"

definition new_BreakpointLocationsResponse :: BreakpointLocationsResponse where
  "new_BreakpointLocationsResponse = \<lparr>ProtocolMessage_seq = -1,
     ProtocolMessage_type = ''response'',
     Response_request_seq = -1,
     Response_success = True,
     Response_command = ''breakpointLocations'',
     Response_message = [],
     BreakpointLocationsResponse_filepath = [],
     BreakpointLocationsResponse_breakpoints = []\<rparr>"

definition BreakpointLocationsResponse_To :: "BreakpointLocationsResponse \<Rightarrow> Json" where
  "BreakpointLocationsResponse_To m =
     (let
         json = Response_To m;
         json = Json_AddNewObject ''body'' (\<lambda>body. let
                   body = Json_AddArray ''breakpoints'' (\<lambda>arr. foldl (\<lambda>arr x. Json_Add_json [] (BreakpointLocation_To x) arr) arr (BreakpointLocationsResponse_breakpoints m)) body
                 in body) json
      in json)"

definition BreakpointLocationsResponse_From :: "Json \<Rightarrow> BreakpointLocationsResponse \<Rightarrow> BreakpointLocationsResponse" where
  "BreakpointLocationsResponse_From json m =
     (let m = Response_From json m;
          body = Json_at json ''body''
      in m \<lparr>BreakpointLocationsResponse_breakpoints := read_array (\<lambda>j. BreakpointLocation_From j new_BreakpointLocation) (Json_at body ''breakpoints'')\<rparr>)"

definition ints_BreakpointLocationsResponse :: "BreakpointLocationsResponse \<Rightarrow> bool" where
  "ints_BreakpointLocationsResponse m \<longleftrightarrow> ints_Response m \<and>
     list_all ints_BreakpointLocation (BreakpointLocationsResponse_breakpoints m)"

definition wire_BreakpointLocationsResponse :: "BreakpointLocationsResponse \<Rightarrow> bool" where
  "wire_BreakpointLocationsResponse m \<longleftrightarrow> ints_BreakpointLocationsResponse m \<and>
     wire_Response m \<and>
     no_nul (BreakpointLocationsResponse_filepath m) \<and>
     list_all wire_BreakpointLocation (BreakpointLocationsResponse_breakpoints m) \<and>
     BreakpointLocationsResponse_filepath m = []"

lemma BreakpointLocationsResponse_To_object [simp]: "IsObject (BreakpointLocationsResponse_To m)"
  by (simp add: BreakpointLocationsResponse_To_def Let_def)

lemma BreakpointLocationsResponse_To_doc [doc_intros]: "ints_BreakpointLocationsResponse m \<Longrightarrow> doc None (BreakpointLocationsResponse_To m)"
  by (auto simp: ints_BreakpointLocationsResponse_def BreakpointLocationsResponse_To_def Let_def list_all_iff intro!: doc_intros)

lemma new_BreakpointLocationsResponse_ints [simp]: "ints_BreakpointLocationsResponse new_BreakpointLocationsResponse"
  by (simp add: ints_BreakpointLocationsResponse_def new_BreakpointLocationsResponse_def msg_defs)

lemma BreakpointLocationsResponse_From_ints [ints_intros]: "ints_json j \<Longrightarrow> ints_BreakpointLocationsResponse m \<Longrightarrow> ints_BreakpointLocationsResponse (BreakpointLocationsResponse_From j m)"
  by (auto simp: ints_BreakpointLocationsResponse_def BreakpointLocationsResponse_From_def Let_def msg_defs intro!: ints_intros)

lemma BreakpointLocationsResponse_From_view [simp]:
  "BreakpointLocationsResponse_From (reparsed j) m = BreakpointLocationsResponse_From j m"
  "BreakpointLocationsResponse_From (map_option (set_name nm) j) m = BreakpointLocationsResponse_From j m"
  by (simp_all add: BreakpointLocationsResponse_From_def Let_def)

lemma BreakpointLocationsResponse_roundtrip [msg_roundtrip]: "wire_BreakpointLocationsResponse m \<Longrightarrow> BreakpointLocationsResponse_From (BreakpointLocationsResponse_To m) new_BreakpointLocationsResponse = m"
  by (cases m) (simp add: wire_BreakpointLocationsResponse_def ints_BreakpointLocationsResponse_def new_BreakpointLocationsResponse_def BreakpointLocationsResponse_To_def BreakpointLocationsResponse_From_def Let_def msg_defs json_simps msg_simps msg_roundtrip)

record SetBreakpointsResponse = Response +
  SetBreakpointsResponse_breakpoints :: "Breakpoint list"
  SetBreakpointsResponse_originSource :: string

definition new_SetBreakpointsResponse :: SetBreakpointsResponse where
  "new_SetBreakpointsResponse = \<lparr>ProtocolMessage_seq = -1,
     ProtocolMessage_type = ''response'',
     Response_request_seq = -1,
     Response_success = True,
     Response_command = ''setBreakpoints'',
     Response_message = [],
     SetBreakpointsResponse_breakpoints = [],
     SetBreakpointsResponse_originSource = []\<rparr>"

definition SetBreakpointsResponse_To :: "SetBreakpointsResponse \<Rightarrow> Json" where
  "SetBreakpointsResponse_To m =
     (let
         json = Response_To m;
         json = Json_AddNewObject ''body'' (\<lambda>body. let
                   body = Json_AddArray ''breakpoints'' (\<lambda>arr. foldl (\<lambda>arr x. Json_Add_json [] (Breakpoint_To x) arr) arr (SetBreakpointsResponse_breakpoints m)) body
                 in body) json
      in json)"

definition SetBreakpointsResponse_From :: "Json \<Rightarrow> SetBreakpointsResponse \<Rightarrow> SetBreakpointsResponse" where
  "SetBreakpointsResponse_From json m =
     (let m = Response_From json m;
          body = Json_at json ''body''
      in m \<lparr>SetBreakpointsResponse_breakpoints := read_array (\<lambda>j. Breakpoint_From j new_Breakpoint) (Json_at body ''breakpoints'')\<rparr>)"

definition ints_SetBreakpointsResponse :: "SetBreakpointsResponse \<Rightarrow> bool" where
  "ints_SetBreakpointsResponse m \<longleftrightarrow> ints_Response m \<and>
     list_all ints_Breakpoint (SetBreakpointsResponse_breakpoints m)"

definition wire_SetBreakpointsResponse :: "SetBreakpointsResponse \<Rightarrow> bool" where
  "wire_SetBreakpointsResponse m \<longleftrightarrow> ints_SetBreakpointsResponse m \<and>
     wire_Response m \<and>
     list_all wire_Breakpoint (SetBreakpointsResponse_breakpoints m) \<and>
     no_nul (SetBreakpointsResponse_originSource m) \<and>
     SetBreakpointsResponse_originSource m = []"

declare SetBreakpointsResponse_To_def [msg_defs] SetBreakpointsResponse_From_def [msg_defs] wire_SetBreakpointsResponse_def [msg_defs] ints_SetBreakpointsResponse_def [msg_defs]

lemma SetBreakpointsResponse_To_object [simp]: "IsObject (SetBreakpointsResponse_To m)"
  by (simp add: SetBreakpointsResponse_To_def Let_def)

lemma SetBreakpointsResponse_To_doc [doc_intros]: "ints_SetBreakpointsResponse m \<Longrightarrow> doc None (SetBreakpointsResponse_To m)"
  by (auto simp: ints_SetBreakpointsResponse_def SetBreakpointsResponse_To_def Let_def list_all_iff intro!: doc_intros)

lemma new_SetBreakpointsResponse_ints [simp]: "ints_SetBreakpointsResponse new_SetBreakpointsResponse"
  by (simp add: ints_SetBreakpointsResponse_def new_SetBreakpointsResponse_def msg_defs)

lemma SetBreakpointsResponse_From_ints [ints_intros]: "ints_json j \<Longrightarrow> ints_SetBreakpointsResponse m \<Longrightarrow> ints_SetBreakpointsResponse (SetBreakpointsResponse_From j m)"
  by (auto simp: ints_SetBreakpointsResponse_def SetBreakpointsResponse_From_def Let_def msg_defs intro!: ints_intros)

lemma SetBreakpointsResponse_From_view [simp]:
  "SetBreakpointsResponse_From (reparsed j) m = SetBreakpointsResponse_From j m"
  "SetBreakpointsResponse_From (map_option (set_name nm) j) m = SetBreakpointsResponse_From j m"
  by (simp_all add: SetBreakpointsResponse_From_def Let_def)

lemma SetBreakpointsResponse_roundtrip [msg_roundtrip]: "wire_SetBreakpointsResponse m \<Longrightarrow> SetBreakpointsResponse_From (SetBreakpointsResponse_To m) new_SetBreakpointsResponse = m"
  by (cases m) (simp add: wire_SetBreakpointsResponse_def ints_SetBreakpointsResponse_def new_SetBreakpointsResponse_def SetBreakpointsResponse_To_def SetBreakpointsResponse_From_def Let_def msg_defs json_simps msg_simps msg_roundtrip)

type_synonym SetFunctionBreakpointsResponse = SetBreakpointsResponse

definition new_SetFunctionBreakpointsResponse :: SetFunctionBreakpointsResponse where
  "new_SetFunctionBreakpointsResponse = \<lparr>ProtocolMessage_seq = -1,
     ProtocolMessage_type = ''response'',
     Response_request_seq = -1,
     Response_success = True,
     Response_command = ''setFunctionBreakpoints'',
     Response_message = [],
     SetBreakpointsResponse_breakpoints = [],
     SetBreakpointsResponse_originSource = []\<rparr>"

definition SetFunctionBreakpointsResponse_To :: "SetFunctionBreakpointsResponse \<Rightarrow> Json" where
  "SetFunctionBreakpointsResponse_To m = SetBreakpointsResponse_To m"

definition SetFunctionBreakpointsResponse_From :: "Json \<Rightarrow> SetFunctionBreakpointsResponse \<Rightarrow> SetFunctionBreakpointsResponse" where
  "SetFunctionBreakpointsResponse_From json m = SetBreakpointsResponse_From json m"

definition ints_SetFunctionBreakpointsResponse :: "SetFunctionBreakpointsResponse \<Rightarrow> bool" where
  "ints_SetFunctionBreakpointsResponse m \<longleftrightarrow> ints_SetBreakpointsResponse m"

definition wire_SetFunctionBreakpointsResponse :: "SetFunctionBreakpointsResponse \<Rightarrow> bool" where
  "wire_SetFunctionBreakpointsResponse m \<longleftrightarrow> ints_SetFunctionBreakpointsResponse m \<and>
     wire_SetBreakpointsResponse m"

lemma SetFunctionBreakpointsResponse_To_object [simp]: "IsObject (SetFunctionBreakpointsResponse_To m)"
  by (simp add: SetFunctionBreakpointsResponse_To_def Let_def)

lemma SetFunctionBreakpointsResponse_To_doc [doc_intros]: "ints_SetFunctionBreakpointsResponse m \<Longrightarrow> doc None (SetFunctionBreakpointsResponse_To m)"
  by (auto simp: ints_SetFunctionBreakpointsResponse_def SetFunctionBreakpointsResponse_To_def Let_def list_all_iff intro!: doc_intros)

lemma new_SetFunctionBreakpointsResponse_ints [simp]: "ints_SetFunctionBreakpointsResponse new_SetFunctionBreakpointsResponse"
  by (simp add: ints_SetFunctionBreakpointsResponse_def new_SetFunctionBreakpointsResponse_def msg_defs)

lemma SetFunctionBreakpointsResponse_From_ints [ints_intros]: "ints_json j \<Longrightarrow> ints_SetFunctionBreakpointsResponse m \<Longrightarrow> ints_SetFunctionBreakpointsResponse (SetFunctionBreakpointsResponse_From j m)"
  by (auto simp: ints_SetFunctionBreakpointsResponse_def SetFunctionBreakpointsResponse_From_def Let_def msg_defs intro!: ints_intros)

lemma SetFunctionBreakpointsResponse_From_view [simp]:
  "SetFunctionBreakpointsResponse_From (reparsed j) m = SetFunctionBreakpointsResponse_From j m"
  "SetFunctionBreakpointsResponse_From (map_option (set_name nm) j) m = SetFunctionBreakpointsResponse_From j m"
  by (simp_all add: SetFunctionBreakpointsResponse_From_def Let_def)

lemma SetFunctionBreakpointsResponse_roundtrip [msg_roundtrip]: "wire_SetFunctionBreakpointsResponse m \<Longrightarrow> SetFunctionBreakpointsResponse_From (SetFunctionBreakpointsResponse_To m) new_SetFunctionBreakpointsResponse = m"
  by (cases m) (simp add: wire_SetFunctionBreakpointsResponse_def ints_SetFunctionBreakpointsResponse_def new_SetFunctionBreakpointsResponse_def SetFunctionBreakpointsResponse_To_def SetFunctionBreakpointsResponse_From_def Let_def msg_defs json_simps msg_simps msg_roundtrip)

record ContinueResponse = Response +
  ContinueResponse_allThreadsContinued :: bool

definition new_ContinueResponse :: ContinueResponse where
  "new_ContinueResponse = \<lparr>ProtocolMessage_seq = -1,
     ProtocolMessage_type = ''response'',
     Response_request_seq = -1,
     Response_success = True,
     Response_command = ''continue'',
     Response_message = [],
     ContinueResponse_allThreadsContinued = True\<rparr>"

definition ContinueResponse_To :: "ContinueResponse \<Rightarrow> Json" where
  "ContinueResponse_To m =
     (let
         json = Response_To m;
         json = Json_AddNewObject ''body'' (\<lambda>body. let
                   body = Json_Add_bool ''allThreadsContinued'' (ContinueResponse_allThreadsContinued m) body
                 in body) json
      in json)"

definition ContinueResponse_From :: "Json \<Rightarrow> ContinueResponse \<Rightarrow> ContinueResponse" where
  "ContinueResponse_From json m =
     (let m = Response_From json m;
          body = Json_at json ''body''
      in m \<lparr>ContinueResponse_allThreadsContinued := d2b (GetNumber (Json_at body ''allThreadsContinued'') (i2d (-1)))\<rparr>)"

definition ints_ContinueResponse :: "ContinueResponse \<Rightarrow> bool" where
  "ints_ContinueResponse m \<longleftrightarrow> ints_Response m"

definition wire_ContinueResponse :: "ContinueResponse \<Rightarrow> bool" where
  "wire_ContinueResponse m \<longleftrightarrow> ints_ContinueResponse m \<and>
     wire_Response m \<and>
     ContinueResponse_allThreadsContinued m"

lemma ContinueResponse_To_object [simp]: "IsObject (ContinueResponse_To m)"
  by (simp add: ContinueResponse_To_def Let_def)

lemma ContinueResponse_To_doc [doc_intros]: "ints_ContinueResponse m \<Longrightarrow> doc None (ContinueResponse_To m)"
  by (auto simp: ints_ContinueResponse_def ContinueResponse_To_def Let_def list_all_iff intro!: doc_intros)

lemma new_ContinueResponse_ints [simp]: "ints_ContinueResponse new_ContinueResponse"
  by (simp add: ints_ContinueResponse_def new_ContinueResponse_def msg_defs)

lemma ContinueResponse_From_ints [ints_intros]: "ints_json j \<Longrightarrow> ints_ContinueResponse m \<Longrightarrow> ints_ContinueResponse (ContinueResponse_From j m)"
  by (auto simp: ints_ContinueResponse_def ContinueResponse_From_def Let_def msg_defs intro!: ints_intros)

lemma ContinueResponse_From_view [simp]:
  "ContinueResponse_From (reparsed j) m = ContinueResponse_From j m"
  "ContinueResponse_From (map_option (set_name nm) j) m = ContinueResponse_From j m"
  by (simp_all add: ContinueResponse_From_def Let_def)

lemma ContinueResponse_roundtrip [msg_roundtrip]: "wire_ContinueResponse m \<Longrightarrow> ContinueResponse_From (ContinueResponse_To m) new_ContinueResponse = m"
  by (cases m) (simp add: wire_ContinueResponse_def ints_ContinueResponse_def new_ContinueResponse_def ContinueResponse_To_def ContinueResponse_From_def Let_def msg_defs json_simps msg_simps msg_roundtrip)

record ThreadsResponse = Response +
  ThreadsResponse_threads :: "Thread list"

definition new_ThreadsResponse :: ThreadsResponse where
  "new_ThreadsResponse = \<lparr>ProtocolMessage_seq = -1,
     ProtocolMessage_type = ''response'',
     Response_request_seq = -1,
     Response_success = True,
     Response_command = ''threads'',
     Response_message = [],
     ThreadsResponse_threads = []\<rparr>"

definition ThreadsResponse_To :: "ThreadsResponse \<Rightarrow> Json" where
  "ThreadsResponse_To m =
     (let
         json = Response_To m;
         json = Json_AddNewObject ''body'' (\<lambda>body. let
                   body = Json_AddArray ''threads'' (\<lambda>arr. foldl (\<lambda>arr x. Json_Add_json [] (Thread_To x) arr) arr (ThreadsResponse_threads m)) body
                 in body) json
      in json)"

definition ThreadsResponse_From :: "Json \<Rightarrow> ThreadsResponse \<Rightarrow> ThreadsResponse" where
  "ThreadsResponse_From json m =
     (let m = Response_From json m;
          body = Json_at json ''body''
      in m \<lparr>ThreadsResponse_threads := read_array (\<lambda>j. Thread_From j new_Thread) (Json_at body ''threads'')\<rparr>)"

definition ints_ThreadsResponse :: "ThreadsResponse \<Rightarrow> bool" where
  "ints_ThreadsResponse m \<longleftrightarrow> ints_Response m \<and>
     list_all ints_Thread (ThreadsResponse_threads m)"

definition wire_ThreadsResponse :: "ThreadsResponse \<Rightarrow> bool" where
  "wire_ThreadsResponse m \<longleftrightarrow> ints_ThreadsResponse m \<and>
     wire_Response m \<and>
     list_all wire_Thread (ThreadsResponse_threads m)"

lemma ThreadsResponse_To_object [simp]: "IsObject (ThreadsResponse_To m)"
  by (simp add: ThreadsResponse_To_def Let_def)

lemma ThreadsResponse_To_doc [doc_intros]: "ints_ThreadsResponse m \<Longrightarrow> doc None (ThreadsResponse_To m)"
  by (auto simp: ints_ThreadsResponse_def ThreadsResponse_To_def Let_def list_all_iff intro!: doc_intros)

lemma new_ThreadsResponse_ints [simp]: "ints_ThreadsResponse new_ThreadsResponse"
  by (simp add: ints_ThreadsResponse_def new_ThreadsResponse_def msg_defs)

lemma ThreadsResponse_From_ints [ints_intros]: "ints_json j \<Longrightarrow> ints_ThreadsResponse m \<Longrightarrow> ints_ThreadsResponse (ThreadsResponse_From j m)"
  by (auto simp: ints_ThreadsResponse_def ThreadsResponse_From_def Let_def msg_defs intro!: ints_intros)

lemma ThreadsResponse_From_view [simp]:
  "ThreadsResponse_From (reparsed j) m = ThreadsResponse_From j m"
  "ThreadsResponse_From (map_option (set_name nm) j) m = ThreadsResponse_From j m"
  by (simp_all add: ThreadsResponse_From_def Let_def)

lemma ThreadsResponse_roundtrip [msg_roundtrip]: "wire_ThreadsResponse m \<Longrightarrow> ThreadsResponse_From (ThreadsResponse_To m) new_ThreadsResponse = m"
  by (cases m) (simp add: wire_ThreadsResponse_def ints_ThreadsResponse_def new_ThreadsResponse_def ThreadsResponse_To_def ThreadsResponse_From_def Let_def msg_defs json_simps msg_simps msg_roundtrip)

record ScopesResponse = Response +
  ScopesResponse_scopes :: "Scope list"
  ScopesResponse_refId :: int

definition new_ScopesResponse :: ScopesResponse where
  "new_ScopesResponse = \<lparr>ProtocolMessage_seq = -1,
     ProtocolMessage_type = ''response'',
     Response_request_seq = -1,
     Response_success = True,
     Response_command = ''scopes'',
     Response_message = [],
     ScopesResponse_scopes = [],
     ScopesResponse_refId = wxNOT_FOUND\<rparr>"

definition ScopesResponse_To :: "ScopesResponse \<Rightarrow> Json" where
  "ScopesResponse_To m =
     (let
         json = Response_To m;
         json = Json_AddNewObject ''body'' (\<lambda>body. let
                   body = Json_AddArray ''scopes'' (\<lambda>arr. foldl (\<lambda>arr x. Json_Add_json [] (Scope_To x) arr) arr (ScopesResponse_scopes m)) body
                 in body) json
      in json)"

definition ScopesResponse_From :: "Json \<Rightarrow> ScopesResponse \<Rightarrow> ScopesResponse" where
  "ScopesResponse_From json m =
     (let m = Response_From json m;
          body = Json_at json ''body''
      in m \<lparr>ScopesResponse_scopes := (ScopesResponse_scopes m) @ read_array (\<lambda>j. Scope_From j new_Scope) (Json_at body ''scopes'')\<rparr>)"

definition ints_ScopesResponse :: "ScopesResponse \<Rightarrow> bool" where
  "ints_ScopesResponse m \<longleftrightarrow> ints_Response m \<and>
     list_all ints_Scope (ScopesResponse_scopes m) \<and>
     is_int32 (ScopesResponse_refId m)"

definition wire_ScopesResponse :: "ScopesResponse \<Rightarrow> bool" where
  "wire_ScopesResponse m \<longleftrightarrow> ints_ScopesResponse m \<and>
     wire_Response m \<and>
     list_all wire_Scope (ScopesResponse_scopes m) \<and>
     ScopesResponse_refId m = wxNOT_FOUND"

lemma ScopesResponse_To_object [simp]: "IsObject (ScopesResponse_To m)"
  by (simp add: ScopesResponse_To_def Let_def)

lemma ScopesResponse_To_doc [doc_intros]: "ints_ScopesResponse m \<Longrightarrow> doc None (ScopesResponse_To m)"
  by (auto simp: ints_ScopesResponse_def ScopesResponse_To_def Let_def list_all_iff intro!: doc_intros)

lemma new_ScopesResponse_ints [simp]: "ints_ScopesResponse new_ScopesResponse"
  by (simp add: ints_ScopesResponse_def new_ScopesResponse_def msg_defs)

lemma ScopesResponse_From_ints [ints_intros]: "ints_json j \<Longrightarrow> ints_ScopesResponse m \<Longrightarrow> ints_ScopesResponse (ScopesResponse_From j m)"
  by (auto simp: ints_ScopesResponse_def ScopesResponse_From_def Let_def msg_defs intro!: ints_intros)

lemma ScopesResponse_From_view [simp]:
  "ScopesResponse_From (reparsed j) m = ScopesResponse_From j m"
  "ScopesResponse_From (map_option (set_name nm) j) m = ScopesResponse_From j m"
  by (simp_all add: ScopesResponse_From_def Let_def)

lemma ScopesResponse_roundtrip [msg_roundtrip]: "wire_ScopesResponse m \<Longrightarrow> ScopesResponse_From (ScopesResponse_To m) new_ScopesResponse = m"
  by (cases m) (simp add: wire_ScopesResponse_def ints_ScopesResponse_def new_ScopesResponse_def ScopesResponse_To_def ScopesResponse_From_def Let_def msg_defs json_simps msg_simps msg_roundtrip)

record StackTraceResponse = Response +
  StackTraceResponse_stackFrames :: "StackFrame list"
  StackTraceResponse_refId :: int

definition new_StackTraceResponse :: StackTraceResponse where
  "new_StackTraceResponse = \<lparr>ProtocolMessage_seq = -1,
     ProtocolMessage_type = ''response'',
     Response_request_seq = -1,
     Response_success = True,
     Response_command = ''stackTrace'',
     Response_message = [],
     StackTraceResponse_stackFrames = [],
     StackTraceResponse_refId = wxNOT_FOUND\<rparr>"

definition StackTraceResponse_To :: "StackTraceResponse \<Rightarrow> Json" where
  "StackTraceResponse_To m =
     (let
         json = Response_To m;
         json = Json_AddNewObject ''body'' (\<lambda>body. let
                   body = Json_AddArray ''stackFrames'' (\<lambda>arr. foldl (\<lambda>arr x. Json_Add_json [] (StackFrame_To x) arr) arr (StackTraceResponse_stackFrames m)) body
                 in body) json
      in json)"

definition StackTraceResponse_From :: "Json \<Rightarrow> StackTraceResponse \<Rightarrow> StackTraceResponse" where
  "StackTraceResponse_From json m =
     (let m = Response_From json m;
          body = Json_at json ''body''
      in m \<lparr>StackTraceResponse_stackFrames := read_array (\<lambda>j. StackFrame_From j new_StackFrame) (Json_at body ''stackFrames'')\<rparr>)"

definition ints_StackTraceResponse :: "StackTraceResponse \<Rightarrow> bool" where
  "ints_StackTraceResponse m \<longleftrightarrow> ints_Response m \<and>
     list_all ints_StackFrame (StackTraceResponse_stackFrames m) \<and>
     is_int32 (StackTraceResponse_refId m)"

definition wire_StackTraceResponse :: "StackTraceResponse \<Rightarrow> bool" where
  "wire_StackTraceResponse m \<longleftrightarrow> ints_StackTraceResponse m \<and>
     wire_Response m \<and>
     list_all wire_StackFrame (StackTraceResponse_stackFrames m) \<and>
     StackTraceResponse_refId m = wxNOT_FOUND"

lemma StackTraceResponse_To_object [simp]: "IsObject (StackTraceResponse_To m)"
  by (simp add: StackTraceResponse_To_def Let_def)

lemma StackTraceResponse_To_doc [doc_intros]: "ints_StackTraceResponse m \<Longrightarrow> doc None (StackTraceResponse_To m)"
  by (auto simp: ints_StackTraceResponse_def StackTraceResponse_To_def Let_def list_all_iff intro!: doc_intros)

lemma new_StackTraceResponse_ints [simp]: "ints_StackTraceResponse new_StackTraceResponse"
  by (simp add: ints_StackTraceResponse_def new_StackTraceResponse_def msg_defs)

lemma StackTraceResponse_From_ints [ints_intros]: "ints_json j \<Longrightarrow> ints_StackTraceResponse m \<Longrightarrow> ints_StackTraceResponse (StackTraceResponse_From j m)"
  by (auto simp: ints_StackTraceResponse_def StackTraceResponse_From_def Let_def msg_defs intro!: ints_intros)

lemma StackTraceResponse_From_view [simp]:
  "StackTraceResponse_From (reparsed j) m = StackTraceResponse_From j m"
  "StackTraceResponse_From (map_option (set_name nm) j) m = StackTraceResponse_From j m"
  by (simp_all add: StackTraceResponse_From_def Let_def)

lemma StackTraceResponse_roundtrip [msg_roundtrip]: "wire_StackTraceResponse m \<Longrightarrow> StackTraceResponse_From (StackTraceResponse_To m) new_StackTraceResponse = m"
  by (cases m) (simp add: wire_StackTraceResponse_def ints_StackTraceResponse_def new_StackTraceResponse_def StackTraceResponse_To_def StackTraceResponse_From_def Let_def msg_defs json_simps msg_simps msg_roundtrip)

record VariablesResponse = Response +
  VariablesResponse_variables :: "Variable list"
  VariablesResponse_refId :: int
  VariablesResponse_context :: EvaluateContext

definition new_VariablesResponse :: VariablesResponse where
  "new_VariablesResponse = \<lparr>ProtocolMessage_seq = -1,
     ProtocolMessage_type = ''response'',
     Response_request_seq = -1,
     Response_success = True,
     Response_command = ''variables'',
     Response_message = [],
     VariablesResponse_variables = [],
     VariablesResponse_refId = wxNOT_FOUND,
     VariablesResponse_context = VARIABLES\<rparr>"

definition VariablesResponse_To :: "VariablesResponse \<Rightarrow> Json" where
  "VariablesResponse_To m =
     (let
         json = Response_To m;
         json = Json_AddNewObject ''body'' (\<lambda>body. let
                   body = Json_AddArray ''variables'' (\<lambda>arr. foldl (\<lambda>arr x. Json_Add_json [] (Variable_To x) arr) arr (VariablesResponse_variables m)) body
                 in body) json
      in json)"

definition VariablesResponse_From :: "Json \<Rightarrow> VariablesResponse \<Rightarrow> VariablesResponse" where
  "VariablesResponse_From json m =
     (let m = Response_From json m;
          body = Json_at json ''body''
      in m \<lparr>VariablesResponse_variables := (VariablesResponse_variables m) @ read_array (\<lambda>j. Variable_From j new_Variable) (Json_at body ''variables'')\<rparr>)"

definition ints_VariablesResponse :: "VariablesResponse \<Rightarrow> bool" where
  "ints_VariablesResponse m \<longleftrightarrow> ints_Response m \<and>
     list_all ints_Variable (VariablesResponse_variables m) \<and>
     is_int32 (VariablesResponse_refId m)"

definition wire_VariablesResponse :: "VariablesResponse \<Rightarrow> bool" where
  "wire_VariablesResponse m \<longleftrightarrow> ints_VariablesResponse m \<and>
     wire_Response m \<and>
     list_all wire_Variable (VariablesResponse_variables m) \<and>
     VariablesResponse_refId m = wxNOT_FOUND \<and>
     VariablesResponse_context m = VARIABLES"

lemma VariablesResponse_To_object [simp]: "IsObject (VariablesResponse_To m)"
  by (simp add: VariablesResponse_To_def Let_def)

lemma VariablesResponse_To_doc [doc_intros]: "ints_VariablesResponse m \<Longrightarrow> doc None (VariablesResponse_To m)"
  by (auto simp: ints_VariablesResponse_def VariablesResponse_To_def Let_def list_all_iff intro!: doc_intros)

lemma new_VariablesResponse_ints [simp]: "ints_VariablesResponse new_VariablesResponse"
  by (simp add: ints_VariablesResponse_def new_VariablesResponse_def msg_defs)

lemma VariablesResponse_From_ints [ints_intros]: "ints_json j \<Longrightarrow> ints_VariablesResponse m \<Longrightarrow> ints_VariablesResponse (VariablesResponse_From j m)"
  by (auto simp: ints_VariablesResponse_def VariablesResponse_From_def Let_def msg_defs intro!: ints_intros)

lemma VariablesResponse_From_view [simp]:
  "VariablesResponse_From (reparsed j) m = VariablesResponse_From j m"
  "VariablesResponse_From (map_option (set_name nm) j) m = VariablesResponse_From j m"
  by (simp_all add: VariablesResponse_From_def Let_def)

lemma VariablesResponse_roundtrip [msg_roundtrip]: "wire_VariablesResponse m \<Longrightarrow> VariablesResponse_From (VariablesResponse_To m) new_VariablesResponse = m"
  by (cases m) (simp add: wire_VariablesResponse_def ints_VariablesResponse_def new_VariablesResponse_def VariablesResponse_To_def VariablesResponse_From_def Let_def msg_defs json_simps msg_simps msg_roundtrip)

record RunInTerminalResponse = Response +
  RunInTerminalResponse_processId :: int

definition new_RunInTerminalResponse :: RunInTerminalResponse where
  "new_RunInTerminalResponse = \<lparr>ProtocolMessage_seq = -1,
     ProtocolMessage_type = ''response'',
     Response_request_seq = -1,
     Response_success = True,
     Response_command = ''runInTerminal'',
     Response_message = [],
     RunInTerminalResponse_processId = wxNOT_FOUND\<rparr>"

definition RunInTerminalResponse_To :: "RunInTerminalResponse \<Rightarrow> Json" where
  "RunInTerminalResponse_To m =
     (let
         json = Response_To m;
         json = Json_AddNewObject ''body'' (\<lambda>body. let
                   body = Json_Add_int ''processId'' (RunInTerminalResponse_processId m) body
                 in body) json
      in json)"

definition RunInTerminalResponse_From :: "Json \<Rightarrow> RunInTerminalResponse \<Rightarrow> RunInTerminalResponse" where
  "RunInTerminalResponse_From json m =
     (let m = Response_From json m;
          body = Json_at json ''body''
      in m \<lparr>RunInTerminalResponse_processId := d2i (GetNumber (Json_at body ''processId'') (i2d (-1)))\<rparr>)"

definition ints_RunInTerminalResponse :: "RunInTerminalResponse \<Rightarrow> bool" where
  "ints_RunInTerminalResponse m \<longleftrightarrow> ints_Response m \<and>
     is_int32 (RunInTerminalResponse_processId m)"

definition wire_RunInTerminalResponse :: "RunInTerminalResponse \<Rightarrow> bool" where
  "wire_RunInTerminalResponse m \<longleftrightarrow> ints_RunInTerminalResponse m \<and>
     wire_Response m"

lemma RunInTerminalResponse_To_object [simp]: "IsObject (RunInTerminalResponse_To m)"
  by (simp add: RunInTerminalResponse_To_def Let_def)

lemma RunInTerminalResponse_To_doc [doc_intros]: "ints_RunInTerminalResponse m \<Longrightarrow> doc None (RunInTerminalResponse_To m)"
  by (auto simp: ints_RunInTerminalResponse_def RunInTerminalResponse_To_def Let_def list_all_iff intro!: doc_intros)

lemma new_RunInTerminalResponse_ints [simp]: "ints_RunInTerminalResponse new_RunInTerminalResponse"
  by (simp add: ints_RunInTerminalResponse_def new_RunInTerminalResponse_def msg_defs)

lemma RunInTerminalResponse_From_ints [ints_intros]: "ints_json j \<Longrightarrow> ints_RunInTerminalResponse m \<Longrightarrow> ints_RunInTerminalResponse (RunInTerminalResponse_From j m)"
  by (auto simp: ints_RunInTerminalResponse_def RunInTerminalResponse_From_def Let_def msg_defs intro!: ints_intros)

lemma RunInTerminalResponse_From_view [simp]:
  "RunInTerminalResponse_From (reparsed j) m = RunInTerminalResponse_From j m"
  "RunInTerminalResponse_From (map_option (set_name nm) j) m = RunInTerminalResponse_From j m"
  by (simp_all add: RunInTerminalResponse_From_def Let_def)

lemma RunInTerminalResponse_roundtrip [msg_roundtrip]: "wire_RunInTerminalResponse m \<Longrightarrow> RunInTerminalResponse_From (RunInTerminalResponse_To m) new_RunInTerminalResponse = m"
  by (cases m) (simp add: wire_RunInTerminalResponse_def ints_RunInTerminalResponse_def new_RunInTerminalResponse_def RunInTerminalResponse_To_def RunInTerminalResponse_From_def Let_def msg_defs json_simps msg_simps msg_roundtrip)

record SourceResponse = Response +
  SourceResponse_content :: string
  SourceResponse_mimeType :: string

definition new_SourceResponse :: SourceResponse where
  "new_SourceResponse = \<lparr>ProtocolMessage_seq = -1,
     ProtocolMessage_type = ''response'',
     Response_request_seq = -1,
     Response_success = True,
     Response_command = ''source'',
     Response_message = [],
     SourceResponse_content = [],
     SourceResponse_mimeType = []\<rparr>"

definition SourceResponse_To :: "SourceResponse \<Rightarrow> Json" where
  "SourceResponse_To m =
     (let
         json = Response_To m;
         json = Json_AddNewObject ''body'' (\<lambda>body. let
                   body = Json_Add_string ''content'' (SourceResponse_content m) body;
                   body = Json_Add_string ''mimeType'' (SourceResponse_mimeType m) body
                 in body) json
      in json)"

definition SourceResponse_From :: "Json \<Rightarrow> SourceResponse \<Rightarrow> SourceResponse" where
  "SourceResponse_From json m =
     (let m = Response_From json m;
          body = Json_at json ''body''
      in m \<lparr>SourceResponse_content := GetString (Json_at body ''content'') [],
           SourceResponse_mimeType := GetString (Json_at body ''mimeType'') []\<rparr>)"

definition ints_SourceResponse :: "SourceResponse \<Rightarrow> bool" where
  "ints_SourceResponse m \<longleftrightarrow> ints_Response m"

definition wire_SourceResponse :: "SourceResponse \<Rightarrow> bool" where
  "wire_SourceResponse m \<longleftrightarrow> ints_SourceResponse m \<and>
     wire_Response m \<and>
     no_nul (SourceResponse_content m) \<and>
     no_nul (SourceResponse_mimeType m)"

lemma SourceResponse_To_object [simp]: "IsObject (SourceResponse_To m)"
  by (simp add: SourceResponse_To_def Let_def)

lemma SourceResponse_To_doc [doc_intros]: "ints_SourceResponse m \<Longrightarrow> doc None (SourceResponse_To m)"
  by (auto simp: ints_SourceResponse_def SourceResponse_To_def Let_def list_all_iff intro!: doc_intros)

lemma new_SourceResponse_ints [simp]: "ints_SourceResponse new_SourceResponse"
  by (simp add: ints_SourceResponse_def new_SourceResponse_def msg_defs)

lemma SourceResponse_From_ints [ints_intros]: "ints_json j \<Longrightarrow> ints_SourceResponse m \<Longrightarrow> ints_SourceResponse (SourceResponse_From j m)"
  by (auto simp: ints_SourceResponse_def SourceResponse_From_def Let_def msg_defs intro!: ints_intros)

lemma SourceResponse_From_view [simp]:
  "SourceResponse_From (reparsed j) m = SourceResponse_From j m"
  "SourceResponse_From (map_option (set_name nm) j) m = SourceResponse_From j m"
  by (simp_all add: SourceResponse_From_def Let_def)

lemma SourceResponse_roundtrip [msg_roundtrip]: "wire_SourceResponse m \<Longrightarrow> SourceResponse_From (SourceResponse_To m) new_SourceResponse = m"
  by (cases m) (simp add: wire_SourceResponse_def ints_SourceResponse_def new_SourceResponse_def SourceResponse_To_def SourceResponse_From_def Let_def msg_defs json_simps msg_simps msg_roundtrip)

record EvaluateResponse = Response +
  EvaluateResponse_result :: string
  EvaluateResponse_type :: string
  EvaluateResponse_variablesReference :: int

definition new_EvaluateResponse :: EvaluateResponse where
  "new_EvaluateResponse = \<lparr>ProtocolMessage_seq = -1,
     ProtocolMessage_type = ''response'',
     Response_request_seq = -1,
     Response_success = True,
     Response_command = ''evaluate'',
     Response_message = [],
     EvaluateResponse_result = [],
     EvaluateResponse_type = [],
     EvaluateResponse_variablesReference = 0\<rparr>"

definition EvaluateResponse_To :: "EvaluateResponse \<Rightarrow> Json" where
  "EvaluateResponse_To m =
     (let
         json = Response_To m;
         json = Json_AddNewObject ''body'' (\<lambda>body. let
                   body = Json_Add_string ''result'' (EvaluateResponse_result m) body;
                   body = Json_Add_string ''type'' (EvaluateResponse_type m) body;
                   body = Json_Add_int ''variablesReference'' (EvaluateResponse_variablesReference m) body
                 in body) json
      in json)"

definition EvaluateResponse_From :: "Json \<Rightarrow> EvaluateResponse \<Rightarrow> EvaluateResponse" where
  "EvaluateResponse_From json m =
     (let m = Response_From json m;
          body = Json_at json ''body''
      in m \<lparr>EvaluateResponse_result := GetString (Json_at body ''result'') [],
           EvaluateResponse_type := GetString (Json_at body ''type'') [],
           EvaluateResponse_variablesReference := d2i (GetNumber (Json_at body ''variablesReference'') (i2d (-1)))\<rparr>)"

definition ints_EvaluateResponse :: "EvaluateResponse \<Rightarrow> bool" where
  "ints_EvaluateResponse m \<longleftrightarrow> ints_Response m \<and>
     is_int32 (EvaluateResponse_variablesReference m)"

definition wire_EvaluateResponse :: "EvaluateResponse \<Rightarrow> bool" where
  "wire_EvaluateResponse m \<longleftrightarrow> ints_EvaluateResponse m \<and>
     wire_Response m \<and>
     no_nul (EvaluateResponse_result m) \<and>
     no_nul (EvaluateResponse_type m)"

lemma EvaluateResponse_To_object [simp]: "IsObject (EvaluateResponse_To m)"
  by (simp add: EvaluateResponse_To_def Let_def)

lemma EvaluateResponse_To_doc [doc_intros]: "ints_EvaluateResponse m \<Longrightarrow> doc None (EvaluateResponse_To m)"
  by (auto simp: ints_EvaluateResponse_def EvaluateResponse_To_def Let_def list_all_iff intro!: doc_intros)

lemma new_EvaluateResponse_ints [simp]: "ints_EvaluateResponse new_EvaluateResponse"
  by (simp add: ints_EvaluateResponse_def new_EvaluateResponse_def msg_defs)

lemma EvaluateResponse_From_ints [ints_intros]: "ints_json j \<Longrightarrow> ints_EvaluateResponse m \<Longrightarrow> ints_EvaluateResponse (EvaluateResponse_From j m)"
  by (auto simp: ints_EvaluateResponse_def EvaluateResponse_From_def Let_def msg_defs intro!: ints_intros)

lemma EvaluateResponse_From_view [simp]:
  "EvaluateResponse_From (reparsed j) m = EvaluateResponse_From j m"
  "EvaluateResponse_From (map_option (set_name nm) j) m = EvaluateResponse_From j m"
  by (simp_all add: EvaluateResponse_From_def Let_def)

lemma EvaluateResponse_roundtrip [msg_roundtrip]: "wire_EvaluateResponse m \<Longrightarrow> EvaluateResponse_From (EvaluateResponse_To m) new_EvaluateResponse = m"
  by (cases m) (simp add: wire_EvaluateResponse_def ints_EvaluateResponse_def new_EvaluateResponse_def EvaluateResponse_To_def EvaluateResponse_From_def Let_def msg_defs json_simps msg_simps msg_roundtrip)

end
