(* ===== verification/Dap_ObjGenerator.thy ===== *)
theory Dap_ObjGenerator
  imports Dap_Events Dap_Requests Dap_Responses
begin

text \<open>
  \<^verbatim>\<open>ObjGenerator\<close> of \<^verbatim>\<open>dap/dap.cpp\<close>.  A \<^verbatim>\<open>ProtocolMessage::Ptr_t\<close> is a value of \<open>Message\<close>: one
  constructor per concrete class, grouped by the base class that \<^verbatim>\<open>dynamic_cast\<close> finds.  A pool
  maps a name to the object that its factory makes.  \<open>registered\<close> is the state after
  \<^verbatim>\<open>dap::Initialize\<close>, which constructs one object of every class; a constructor registers its
  base class first, and the first registration of a name stays.
\<close>

section \<open>Messages\<close>

datatype RequestMsg =
    MCancelRequest CancelRequest
  | MInitializeRequest InitializeRequest
  | MConfigurationDoneRequest ConfigurationDoneRequest
  | MLaunchRequest LaunchRequest
  | MAttachRequest AttachRequest
  | MDisconnectRequest DisconnectRequest
  | MBreakpointLocationsRequest BreakpointLocationsRequest
  | MSetBreakpointsRequest SetBreakpointsRequest
  | MSetFunctionBreakpointsRequest SetFunctionBreakpointsRequest
  | MContinueRequest ContinueRequest
  | MStepRequest StepRequest
  | MStepInRequest StepInRequest
  | MStepOutRequest StepOutRequest
  | MNextRequest NextRequest
  | MThreadsRequest ThreadsRequest
  | MScopesRequest ScopesRequest
  | MStackTraceRequest StackTraceRequest
  | MVariablesRequest VariablesRequest
  | MPauseRequest PauseRequest
  | MRunInTerminalRequest RunInTerminalRequest
  | MSourceRequest SourceRequest
  | MEvaluateRequest EvaluateRequest

datatype EventMsg =
    MInitializedEvent InitializedEvent
  | MStoppedEvent StoppedEvent
  | MContinuedEvent ContinuedEvent
  | MExitedEvent ExitedEvent
  | MTerminatedEvent TerminatedEvent
  | MThreadEvent ThreadEvent
  | MOutputEvent OutputEvent
  | MBreakpointEvent BreakpointEvent
  | MProcessEvent ProcessEvent
  | MModuleEvent ModuleEvent
  | MDebugpyWaitingForServerEvent DebugpyWaitingForServerEvent

datatype ResponseMsg =
    MCancelResponse CancelResponse
  | MInitializeResponse InitializeResponse
  | MEmptyAckResponse EmptyAckResponse
  | MConfigurationDoneResponse ConfigurationDoneResponse
  | MLaunchResponse LaunchResponse
  | MAttachResponse AttachResponse
  | MDisconnectResponse DisconnectResponse
  | MNextResponse NextResponse
  | MPauseResponse PauseResponse
  | MStepInResponse StepInResponse
  | MStepOutResponse StepOutResponse
  | MBreakpointLocationsResponse BreakpointLocationsResponse
  | MSetBreakpointsResponse SetBreakpointsResponse
  | MSetFunctionBreakpointsResponse SetFunctionBreakpointsResponse
  | MContinueResponse ContinueResponse
  | MThreadsResponse ThreadsResponse
  | MScopesResponse ScopesResponse
  | MStackTraceResponse StackTraceResponse
  | MVariablesResponse VariablesResponse
  | MRunInTerminalResponse RunInTerminalResponse
  | MSourceResponse SourceResponse
  | MEvaluateResponse EvaluateResponse

datatype Message = MRequest RequestMsg | MEvent EventMsg | MResponse ResponseMsg

fun RequestMsg_To :: "RequestMsg \<Rightarrow> Json" where
  "RequestMsg_To (MCancelRequest m) = CancelRequest_To m"
| "RequestMsg_To (MInitializeRequest m) = InitializeRequest_To m"
| "RequestMsg_To (MConfigurationDoneRequest m) = ConfigurationDoneRequest_To m"
| "RequestMsg_To (MLaunchRequest m) = LaunchRequest_To m"
| "RequestMsg_To (MAttachRequest m) = AttachRequest_To m"
| "RequestMsg_To (MDisconnectRequest m) = DisconnectRequest_To m"
| "RequestMsg_To (MBreakpointLocationsRequest m) = BreakpointLocationsRequest_To m"
| "RequestMsg_To (MSetBreakpointsRequest m) = SetBreakpointsRequest_To m"
| "RequestMsg_To (MSetFunctionBreakpointsRequest m) = SetFunctionBreakpointsRequest_To m"
| "RequestMsg_To (MContinueRequest m) = ContinueRequest_To m"
| "RequestMsg_To (MStepRequest m) = StepRequest_To m"
| "RequestMsg_To (MStepInRequest m) = StepInRequest_To m"
| "RequestMsg_To (MStepOutRequest m) = StepOutRequest_To m"
| "RequestMsg_To (MNextRequest m) = NextRequest_To m"
| "RequestMsg_To (MThreadsRequest m) = ThreadsRequest_To m"
| "RequestMsg_To (MScopesRequest m) = ScopesRequest_To m"
| "RequestMsg_To (MStackTraceRequest m) = StackTraceRequest_To m"
| "RequestMsg_To (MVariablesRequest m) = VariablesRequest_To m"
| "RequestMsg_To (MPauseRequest m) = PauseRequest_To m"
| "RequestMsg_To (MRunInTerminalRequest m) = RunInTerminalRequest_To m"
| "RequestMsg_To (MSourceRequest m) = SourceRequest_To m"
| "RequestMsg_To (MEvaluateRequest m) = EvaluateRequest_To m"

fun RequestMsg_From :: "Json \<Rightarrow> RequestMsg \<Rightarrow> RequestMsg" where
  "RequestMsg_From json (MCancelRequest m) = MCancelRequest (CancelRequest_From json m)"
| "RequestMsg_From json (MInitializeRequest m) = MInitializeRequest (InitializeRequest_From json m)"
| "RequestMsg_From json (MConfigurationDoneRequest m) = MConfigurationDoneRequest (ConfigurationDoneRequest_From json m)"
| "RequestMsg_From json (MLaunchRequest m) = MLaunchRequest (LaunchRequest_From json m)"
| "RequestMsg_From json (MAttachRequest m) = MAttachRequest (AttachRequest_From json m)"
| "RequestMsg_From json (MDisconnectRequest m) = MDisconnectRequest (DisconnectRequest_From json m)"
| "RequestMsg_From json (MBreakpointLocationsRequest m) = MBreakpointLocationsRequest (BreakpointLocationsRequest_From json m)"
| "RequestMsg_From json (MSetBreakpointsRequest m) = MSetBreakpointsRequest (SetBreakpointsRequest_From json m)"
| "RequestMsg_From json (MSetFunctionBreakpointsRequest m) = MSetFunctionBreakpointsRequest (SetFunctionBreakpointsRequest_From json m)"
| "RequestMsg_From json (MContinueRequest m) = MContinueRequest (ContinueRequest_From json m)"
| "RequestMsg_From json (MStepRequest m) = MStepRequest (StepRequest_From json m)"
| "RequestMsg_From json (MStepInRequest m) = MStepInRequest (StepInRequest_From json m)"
| "RequestMsg_From json (MStepOutRequest m) = MStepOutRequest (StepOutRequest_From json m)"
| "RequestMsg_From json (MNextRequest m) = MNextRequest (NextRequest_From json m)"
| "RequestMsg_From json (MThreadsRequest m) = MThreadsRequest (ThreadsRequest_From json m)"
| "RequestMsg_From json (MScopesRequest m) = MScopesRequest (ScopesRequest_From json m)"
| "RequestMsg_From json (MStackTraceRequest m) = MStackTraceRequest (StackTraceRequest_From json m)"
| "RequestMsg_From json (MVariablesRequest m) = MVariablesRequest (VariablesRequest_From json m)"
| "RequestMsg_From json (MPauseRequest m) = MPauseRequest (PauseRequest_From json m)"
| "RequestMsg_From json (MRunInTerminalRequest m) = MRunInTerminalRequest (RunInTerminalRequest_From json m)"
| "RequestMsg_From json (MSourceRequest m) = MSourceRequest (SourceRequest_From json m)"
| "RequestMsg_From json (MEvaluateRequest m) = MEvaluateRequest (EvaluateRequest_From json m)"

text \<open>The object seen as its base class \<^verbatim>\<open>Request\<close>.\<close>

fun as_Request :: "RequestMsg \<Rightarrow> Request" where
  "as_Request (MCancelRequest m) = Request.truncate m"
| "as_Request (MInitializeRequest m) = Request.truncate m"
| "as_Request (MConfigurationDoneRequest m) = Request.truncate m"
| "as_Request (MLaunchRequest m) = Request.truncate m"
| "as_Request (MAttachRequest m) = Request.truncate m"
| "as_Request (MDisconnectRequest m) = Request.truncate m"
| "as_Request (MBreakpointLocationsRequest m) = Request.truncate m"
| "as_Request (MSetBreakpointsRequest m) = Request.truncate m"
| "as_Request (MSetFunctionBreakpointsRequest m) = Request.truncate m"
| "as_Request (MContinueRequest m) = Request.truncate m"
| "as_Request (MStepRequest m) = Request.truncate m"
| "as_Request (MStepInRequest m) = Request.truncate m"
| "as_Request (MStepOutRequest m) = Request.truncate m"
| "as_Request (MNextRequest m) = Request.truncate m"
| "as_Request (MThreadsRequest m) = Request.truncate m"
| "as_Request (MScopesRequest m) = Request.truncate m"
| "as_Request (MStackTraceRequest m) = Request.truncate m"
| "as_Request (MVariablesRequest m) = Request.truncate m"
| "as_Request (MPauseRequest m) = Request.truncate m"
| "as_Request (MRunInTerminalRequest m) = Request.truncate m"
| "as_Request (MSourceRequest m) = Request.truncate m"
| "as_Request (MEvaluateRequest m) = Request.truncate m"

fun ints_RequestMsg :: "RequestMsg \<Rightarrow> bool" where
  "ints_RequestMsg (MCancelRequest m) = ints_CancelRequest m"
| "ints_RequestMsg (MInitializeRequest m) = ints_InitializeRequest m"
| "ints_RequestMsg (MConfigurationDoneRequest m) = ints_ConfigurationDoneRequest m"
| "ints_RequestMsg (MLaunchRequest m) = ints_LaunchRequest m"
| "ints_RequestMsg (MAttachRequest m) = ints_AttachRequest m"
| "ints_RequestMsg (MDisconnectRequest m) = ints_DisconnectRequest m"
| "ints_RequestMsg (MBreakpointLocationsRequest m) = ints_BreakpointLocationsRequest m"
| "ints_RequestMsg (MSetBreakpointsRequest m) = ints_SetBreakpointsRequest m"
| "ints_RequestMsg (MSetFunctionBreakpointsRequest m) = ints_SetFunctionBreakpointsRequest m"
| "ints_RequestMsg (MContinueRequest m) = ints_ContinueRequest m"
| "ints_RequestMsg (MStepRequest m) = ints_StepRequest m"
| "ints_RequestMsg (MStepInRequest m) = ints_StepInRequest m"
| "ints_RequestMsg (MStepOutRequest m) = ints_StepOutRequest m"
| "ints_RequestMsg (MNextRequest m) = ints_NextRequest m"
| "ints_RequestMsg (MThreadsRequest m) = ints_ThreadsRequest m"
| "ints_RequestMsg (MScopesRequest m) = ints_ScopesRequest m"
| "ints_RequestMsg (MStackTraceRequest m) = ints_StackTraceRequest m"
| "ints_RequestMsg (MVariablesRequest m) = ints_VariablesRequest m"
| "ints_RequestMsg (MPauseRequest m) = ints_PauseRequest m"
| "ints_RequestMsg (MRunInTerminalRequest m) = ints_RunInTerminalRequest m"
| "ints_RequestMsg (MSourceRequest m) = ints_SourceRequest m"
| "ints_RequestMsg (MEvaluateRequest m) = ints_EvaluateRequest m"

fun wire_RequestMsg :: "RequestMsg \<Rightarrow> bool" where
  "wire_RequestMsg (MCancelRequest m) = wire_CancelRequest m"
| "wire_RequestMsg (MInitializeRequest m) = wire_InitializeRequest m"
| "wire_RequestMsg (MConfigurationDoneRequest m) = wire_ConfigurationDoneRequest m"
| "wire_RequestMsg (MLaunchRequest m) = wire_LaunchRequest m"
| "wire_RequestMsg (MAttachRequest m) = wire_AttachRequest m"
| "wire_RequestMsg (MDisconnectRequest m) = wire_DisconnectRequest m"
| "wire_RequestMsg (MBreakpointLocationsRequest m) = wire_BreakpointLocationsRequest m"
| "wire_RequestMsg (MSetBreakpointsRequest m) = wire_SetBreakpointsRequest m"
| "wire_RequestMsg (MSetFunctionBreakpointsRequest m) = wire_SetFunctionBreakpointsRequest m"
| "wire_RequestMsg (MContinueRequest m) = wire_ContinueRequest m"
| "wire_RequestMsg (MStepRequest m) = wire_StepRequest m"
| "wire_RequestMsg (MStepInRequest m) = wire_StepInRequest m"
| "wire_RequestMsg (MStepOutRequest m) = wire_StepOutRequest m"
| "wire_RequestMsg (MNextRequest m) = wire_NextRequest m"
| "wire_RequestMsg (MThreadsRequest m) = wire_ThreadsRequest m"
| "wire_RequestMsg (MScopesRequest m) = wire_ScopesRequest m"
| "wire_RequestMsg (MStackTraceRequest m) = wire_StackTraceRequest m"
| "wire_RequestMsg (MVariablesRequest m) = wire_VariablesRequest m"
| "wire_RequestMsg (MPauseRequest m) = wire_PauseRequest m"
| "wire_RequestMsg (MRunInTerminalRequest m) = wire_RunInTerminalRequest m"
| "wire_RequestMsg (MSourceRequest m) = wire_SourceRequest m"
| "wire_RequestMsg (MEvaluateRequest m) = wire_EvaluateRequest m"

text \<open>The object that a constructor makes.\<close>

fun fresh_RequestMsg :: "RequestMsg \<Rightarrow> RequestMsg" where
  "fresh_RequestMsg (MCancelRequest m) = MCancelRequest new_CancelRequest"
| "fresh_RequestMsg (MInitializeRequest m) = MInitializeRequest new_InitializeRequest"
| "fresh_RequestMsg (MConfigurationDoneRequest m) = MConfigurationDoneRequest new_ConfigurationDoneRequest"
| "fresh_RequestMsg (MLaunchRequest m) = MLaunchRequest new_LaunchRequest"
| "fresh_RequestMsg (MAttachRequest m) = MAttachRequest new_AttachRequest"
| "fresh_RequestMsg (MDisconnectRequest m) = MDisconnectRequest new_DisconnectRequest"
| "fresh_RequestMsg (MBreakpointLocationsRequest m) = MBreakpointLocationsRequest new_BreakpointLocationsRequest"
| "fresh_RequestMsg (MSetBreakpointsRequest m) = MSetBreakpointsRequest new_SetBreakpointsRequest"
| "fresh_RequestMsg (MSetFunctionBreakpointsRequest m) = MSetFunctionBreakpointsRequest new_SetFunctionBreakpointsRequest"
| "fresh_RequestMsg (MContinueRequest m) = MContinueRequest new_ContinueRequest"
| "fresh_RequestMsg (MStepRequest m) = MStepRequest new_StepRequest"
| "fresh_RequestMsg (MStepInRequest m) = MStepInRequest new_StepInRequest"
| "fresh_RequestMsg (MStepOutRequest m) = MStepOutRequest new_StepOutRequest"
| "fresh_RequestMsg (MNextRequest m) = MNextRequest new_NextRequest"
| "fresh_RequestMsg (MThreadsRequest m) = MThreadsRequest new_ThreadsRequest"
| "fresh_RequestMsg (MScopesRequest m) = MScopesRequest new_ScopesRequest"
| "fresh_RequestMsg (MStackTraceRequest m) = MStackTraceRequest new_StackTraceRequest"
| "fresh_RequestMsg (MVariablesRequest m) = MVariablesRequest new_VariablesRequest"
| "fresh_RequestMsg (MPauseRequest m) = MPauseRequest new_PauseRequest"
| "fresh_RequestMsg (MRunInTerminalRequest m) = MRunInTerminalRequest new_RunInTerminalRequest"
| "fresh_RequestMsg (MSourceRequest m) = MSourceRequest new_SourceRequest"
| "fresh_RequestMsg (MEvaluateRequest m) = MEvaluateRequest new_EvaluateRequest"

fun EventMsg_To :: "EventMsg \<Rightarrow> Json" where
  "EventMsg_To (MInitializedEvent m) = InitializedEvent_To m"
| "EventMsg_To (MStoppedEvent m) = StoppedEvent_To m"
| "EventMsg_To (MContinuedEvent m) = ContinuedEvent_To m"
| "EventMsg_To (MExitedEvent m) = ExitedEvent_To m"
| "EventMsg_To (MTerminatedEvent m) = TerminatedEvent_To m"
| "EventMsg_To (MThreadEvent m) = ThreadEvent_To m"
| "EventMsg_To (MOutputEvent m) = OutputEvent_To m"
| "EventMsg_To (MBreakpointEvent m) = BreakpointEvent_To m"
| "EventMsg_To (MProcessEvent m) = ProcessEvent_To m"
| "EventMsg_To (MModuleEvent m) = ModuleEvent_To m"
| "EventMsg_To (MDebugpyWaitingForServerEvent m) = DebugpyWaitingForServerEvent_To m"

fun EventMsg_From :: "Json \<Rightarrow> EventMsg \<Rightarrow> EventMsg" where
  "EventMsg_From json (MInitializedEvent m) = MInitializedEvent (InitializedEvent_From json m)"
| "EventMsg_From json (MStoppedEvent m) = MStoppedEvent (StoppedEvent_From json m)"
| "EventMsg_From json (MContinuedEvent m) = MContinuedEvent (ContinuedEvent_From json m)"
| "EventMsg_From json (MExitedEvent m) = MExitedEvent (ExitedEvent_From json m)"
| "EventMsg_From json (MTerminatedEvent m) = MTerminatedEvent (TerminatedEvent_From json m)"
| "EventMsg_From json (MThreadEvent m) = MThreadEvent (ThreadEvent_From json m)"
| "EventMsg_From json (MOutputEvent m) = MOutputEvent (OutputEvent_From json m)"
| "EventMsg_From json (MBreakpointEvent m) = MBreakpointEvent (BreakpointEvent_From json m)"
| "EventMsg_From json (MProcessEvent m) = MProcessEvent (ProcessEvent_From json m)"
| "EventMsg_From json (MModuleEvent m) = MModuleEvent (ModuleEvent_From json m)"
| "EventMsg_From json (MDebugpyWaitingForServerEvent m) = MDebugpyWaitingForServerEvent (DebugpyWaitingForServerEvent_From json m)"

text \<open>The object seen as its base class \<^verbatim>\<open>Event\<close>.\<close>

fun as_Event :: "EventMsg \<Rightarrow> Event" where
  "as_Event (MInitializedEvent m) = Event.truncate m"
| "as_Event (MStoppedEvent m) = Event.truncate m"
| "as_Event (MContinuedEvent m) = Event.truncate m"
| "as_Event (MExitedEvent m) = Event.truncate m"
| "as_Event (MTerminatedEvent m) = Event.truncate m"
| "as_Event (MThreadEvent m) = Event.truncate m"
| "as_Event (MOutputEvent m) = Event.truncate m"
| "as_Event (MBreakpointEvent m) = Event.truncate m"
| "as_Event (MProcessEvent m) = Event.truncate m"
| "as_Event (MModuleEvent m) = Event.truncate m"
| "as_Event (MDebugpyWaitingForServerEvent m) = Event.truncate m"

fun ints_EventMsg :: "EventMsg \<Rightarrow> bool" where
  "ints_EventMsg (MInitializedEvent m) = ints_InitializedEvent m"
| "ints_EventMsg (MStoppedEvent m) = ints_StoppedEvent m"
| "ints_EventMsg (MContinuedEvent m) = ints_ContinuedEvent m"
| "ints_EventMsg (MExitedEvent m) = ints_ExitedEvent m"
| "ints_EventMsg (MTerminatedEvent m) = ints_TerminatedEvent m"
| "ints_EventMsg (MThreadEvent m) = ints_ThreadEvent m"
| "ints_EventMsg (MOutputEvent m) = ints_OutputEvent m"
| "ints_EventMsg (MBreakpointEvent m) = ints_BreakpointEvent m"
| "ints_EventMsg (MProcessEvent m) = ints_ProcessEvent m"
| "ints_EventMsg (MModuleEvent m) = ints_ModuleEvent m"
| "ints_EventMsg (MDebugpyWaitingForServerEvent m) = ints_DebugpyWaitingForServerEvent m"

fun wire_EventMsg :: "EventMsg \<Rightarrow> bool" where
  "wire_EventMsg (MInitializedEvent m) = wire_InitializedEvent m"
| "wire_EventMsg (MStoppedEvent m) = wire_StoppedEvent m"
| "wire_EventMsg (MContinuedEvent m) = wire_ContinuedEvent m"
| "wire_EventMsg (MExitedEvent m) = wire_ExitedEvent m"
| "wire_EventMsg (MTerminatedEvent m) = wire_TerminatedEvent m"
| "wire_EventMsg (MThreadEvent m) = wire_ThreadEvent m"
| "wire_EventMsg (MOutputEvent m) = wire_OutputEvent m"
| "wire_EventMsg (MBreakpointEvent m) = wire_BreakpointEvent m"
| "wire_EventMsg (MProcessEvent m) = wire_ProcessEvent m"
| "wire_EventMsg (MModuleEvent m) = wire_ModuleEvent m"
| "wire_EventMsg (MDebugpyWaitingForServerEvent m) = wire_DebugpyWaitingForServerEvent m"

text \<open>The object that a constructor makes.\<close>

fun fresh_EventMsg :: "EventMsg \<Rightarrow> EventMsg" where
  "fresh_EventMsg (MInitializedEvent m) = MInitializedEvent new_InitializedEvent"
| "fresh_EventMsg (MStoppedEvent m) = MStoppedEvent new_StoppedEvent"
| "fresh_EventMsg (MContinuedEvent m) = MContinuedEvent new_ContinuedEvent"
| "fresh_EventMsg (MExitedEvent m) = MExitedEvent new_ExitedEvent"
| "fresh_EventMsg (MTerminatedEvent m) = MTerminatedEvent new_TerminatedEvent"
| "fresh_EventMsg (MThreadEvent m) = MThreadEvent new_ThreadEvent"
| "fresh_EventMsg (MOutputEvent m) = MOutputEvent new_OutputEvent"
| "fresh_EventMsg (MBreakpointEvent m) = MBreakpointEvent new_BreakpointEvent"
| "fresh_EventMsg (MProcessEvent m) = MProcessEvent new_ProcessEvent"
| "fresh_EventMsg (MModuleEvent m) = MModuleEvent new_ModuleEvent"
| "fresh_EventMsg (MDebugpyWaitingForServerEvent m) = MDebugpyWaitingForServerEvent new_DebugpyWaitingForServerEvent"

fun ResponseMsg_To :: "ResponseMsg \<Rightarrow> Json" where
  "ResponseMsg_To (MCancelResponse m) = CancelResponse_To m"
| "ResponseMsg_To (MInitializeResponse m) = InitializeResponse_To m"
| "ResponseMsg_To (MEmptyAckResponse m) = EmptyAckResponse_To m"
| "ResponseMsg_To (MConfigurationDoneResponse m) = ConfigurationDoneResponse_To m"
| "ResponseMsg_To (MLaunchResponse m) = LaunchResponse_To m"
| "ResponseMsg_To (MAttachResponse m) = AttachResponse_To m"
| "ResponseMsg_To (MDisconnectResponse m) = DisconnectResponse_To m"
| "ResponseMsg_To (MNextResponse m) = NextResponse_To m"
| "ResponseMsg_To (MPauseResponse m) = PauseResponse_To m"
| "ResponseMsg_To (MStepInResponse m) = StepInResponse_To m"
| "ResponseMsg_To (MStepOutResponse m) = StepOutResponse_To m"
| "ResponseMsg_To (MBreakpointLocationsResponse m) = BreakpointLocationsResponse_To m"
| "ResponseMsg_To (MSetBreakpointsResponse m) = SetBreakpointsResponse_To m"
| "ResponseMsg_To (MSetFunctionBreakpointsResponse m) = SetFunctionBreakpointsResponse_To m"
| "ResponseMsg_To (MContinueResponse m) = ContinueResponse_To m"
| "ResponseMsg_To (MThreadsResponse m) = ThreadsResponse_To m"
| "ResponseMsg_To (MScopesResponse m) = ScopesResponse_To m"
| "ResponseMsg_To (MStackTraceResponse m) = StackTraceResponse_To m"
| "ResponseMsg_To (MVariablesResponse m) = VariablesResponse_To m"
| "ResponseMsg_To (MRunInTerminalResponse m) = RunInTerminalResponse_To m"
| "ResponseMsg_To (MSourceResponse m) = SourceResponse_To m"
| "ResponseMsg_To (MEvaluateResponse m) = EvaluateResponse_To m"

fun ResponseMsg_From :: "Json \<Rightarrow> ResponseMsg \<Rightarrow> ResponseMsg" where
  "ResponseMsg_From json (MCancelResponse m) = MCancelResponse (CancelResponse_From json m)"
| "ResponseMsg_From json (MInitializeResponse m) = MInitializeResponse (InitializeResponse_From json m)"
| "ResponseMsg_From json (MEmptyAckResponse m) = MEmptyAckResponse (EmptyAckResponse_From json m)"
| "ResponseMsg_From json (MConfigurationDoneResponse m) = MConfigurationDoneResponse (ConfigurationDoneResponse_From json m)"
| "ResponseMsg_From json (MLaunchResponse m) = MLaunchResponse (LaunchResponse_From json m)"
| "ResponseMsg_From json (MAttachResponse m) = MAttachResponse (AttachResponse_From json m)"
| "ResponseMsg_From json (MDisconnectResponse m) = MDisconnectResponse (DisconnectResponse_From json m)"
| "ResponseMsg_From json (MNextResponse m) = MNextResponse (NextResponse_From json m)"
| "ResponseMsg_From json (MPauseResponse m) = MPauseResponse (PauseResponse_From json m)"
| "ResponseMsg_From json (MStepInResponse m) = MStepInResponse (StepInResponse_From json m)"
| "ResponseMsg_From json (MStepOutResponse m) = MStepOutResponse (StepOutResponse_From json m)"
| "ResponseMsg_From json (MBreakpointLocationsResponse m) = MBreakpointLocationsResponse (BreakpointLocationsResponse_From json m)"
| "ResponseMsg_From json (MSetBreakpointsResponse m) = MSetBreakpointsResponse (SetBreakpointsResponse_From json m)"
| "ResponseMsg_From json (MSetFunctionBreakpointsResponse m) = MSetFunctionBreakpointsResponse (SetFunctionBreakpointsResponse_From json m)"
| "ResponseMsg_From json (MContinueResponse m) = MContinueResponse (ContinueResponse_From json m)"
| "ResponseMsg_From json (MThreadsResponse m) = MThreadsResponse (ThreadsResponse_From json m)"
| "ResponseMsg_From json (MScopesResponse m) = MScopesResponse (ScopesResponse_From json m)"
| "ResponseMsg_From json (MStackTraceResponse m) = MStackTraceResponse (StackTraceResponse_From json m)"
| "ResponseMsg_From json (MVariablesResponse m) = MVariablesResponse (VariablesResponse_From json m)"
| "ResponseMsg_From json (MRunInTerminalResponse m) = MRunInTerminalResponse (RunInTerminalResponse_From json m)"
| "ResponseMsg_From json (MSourceResponse m) = MSourceResponse (SourceResponse_From json m)"
| "ResponseMsg_From json (MEvaluateResponse m) = MEvaluateResponse (EvaluateResponse_From json m)"

text \<open>The object seen as its base class \<^verbatim>\<open>Response\<close>.\<close>

fun as_Response :: "ResponseMsg \<Rightarrow> Response" where
  "as_Response (MCancelResponse m) = Response.truncate m"
| "as_Response (MInitializeResponse m) = Response.truncate m"
| "as_Response (MEmptyAckResponse m) = Response.truncate m"
| "as_Response (MConfigurationDoneResponse m) = Response.truncate m"
| "as_Response (MLaunchResponse m) = Response.truncate m"
| "as_Response (MAttachResponse m) = Response.truncate m"
| "as_Response (MDisconnectResponse m) = Response.truncate m"
| "as_Response (MNextResponse m) = Response.truncate m"
| "as_Response (MPauseResponse m) = Response.truncate m"
| "as_Response (MStepInResponse m) = Response.truncate m"
| "as_Response (MStepOutResponse m) = Response.truncate m"
| "as_Response (MBreakpointLocationsResponse m) = Response.truncate m"
| "as_Response (MSetBreakpointsResponse m) = Response.truncate m"
| "as_Response (MSetFunctionBreakpointsResponse m) = Response.truncate m"
| "as_Response (MContinueResponse m) = Response.truncate m"
| "as_Response (MThreadsResponse m) = Response.truncate m"
| "as_Response (MScopesResponse m) = Response.truncate m"
| "as_Response (MStackTraceResponse m) = Response.truncate m"
| "as_Response (MVariablesResponse m) = Response.truncate m"
| "as_Response (MRunInTerminalResponse m) = Response.truncate m"
| "as_Response (MSourceResponse m) = Response.truncate m"
| "as_Response (MEvaluateResponse m) = Response.truncate m"

fun ints_ResponseMsg :: "ResponseMsg \<Rightarrow> bool" where
  "ints_ResponseMsg (MCancelResponse m) = ints_CancelResponse m"
| "ints_ResponseMsg (MInitializeResponse m) = ints_InitializeResponse m"
| "ints_ResponseMsg (MEmptyAckResponse m) = ints_EmptyAckResponse m"
| "ints_ResponseMsg (MConfigurationDoneResponse m) = ints_ConfigurationDoneResponse m"
| "ints_ResponseMsg (MLaunchResponse m) = ints_LaunchResponse m"
| "ints_ResponseMsg (MAttachResponse m) = ints_AttachResponse m"
| "ints_ResponseMsg (MDisconnectResponse m) = ints_DisconnectResponse m"
| "ints_ResponseMsg (MNextResponse m) = ints_NextResponse m"
| "ints_ResponseMsg (MPauseResponse m) = ints_PauseResponse m"
| "ints_ResponseMsg (MStepInResponse m) = ints_StepInResponse m"
| "ints_ResponseMsg (MStepOutResponse m) = ints_StepOutResponse m"
| "ints_ResponseMsg (MBreakpointLocationsResponse m) = ints_BreakpointLocationsResponse m"
| "ints_ResponseMsg (MSetBreakpointsResponse m) = ints_SetBreakpointsResponse m"
| "ints_ResponseMsg (MSetFunctionBreakpointsResponse m) = ints_SetFunctionBreakpointsResponse m"
| "ints_ResponseMsg (MContinueResponse m) = ints_ContinueResponse m"
| "ints_ResponseMsg (MThreadsResponse m) = ints_ThreadsResponse m"
| "ints_ResponseMsg (MScopesResponse m) = ints_ScopesResponse m"
| "ints_ResponseMsg (MStackTraceResponse m) = ints_StackTraceResponse m"
| "ints_ResponseMsg (MVariablesResponse m) = ints_VariablesResponse m"
| "ints_ResponseMsg (MRunInTerminalResponse m) = ints_RunInTerminalResponse m"
| "ints_ResponseMsg (MSourceResponse m) = ints_SourceResponse m"
| "ints_ResponseMsg (MEvaluateResponse m) = ints_EvaluateResponse m"

fun wire_ResponseMsg :: "ResponseMsg \<Rightarrow> bool" where
  "wire_ResponseMsg (MCancelResponse m) = wire_CancelResponse m"
| "wire_ResponseMsg (MInitializeResponse m) = wire_InitializeResponse m"
| "wire_ResponseMsg (MEmptyAckResponse m) = wire_EmptyAckResponse m"
| "wire_ResponseMsg (MConfigurationDoneResponse m) = wire_ConfigurationDoneResponse m"
| "wire_ResponseMsg (MLaunchResponse m) = wire_LaunchResponse m"
| "wire_ResponseMsg (MAttachResponse m) = wire_AttachResponse m"
| "wire_ResponseMsg (MDisconnectResponse m) = wire_DisconnectResponse m"
| "wire_ResponseMsg (MNextResponse m) = wire_NextResponse m"
| "wire_ResponseMsg (MPauseResponse m) = wire_PauseResponse m"
| "wire_ResponseMsg (MStepInResponse m) = wire_StepInResponse m"
| "wire_ResponseMsg (MStepOutResponse m) = wire_StepOutResponse m"
| "wire_ResponseMsg (MBreakpointLocationsResponse m) = wire_BreakpointLocationsResponse m"
| "wire_ResponseMsg (MSetBreakpointsResponse m) = wire_SetBreakpointsResponse m"
| "wire_ResponseMsg (MSetFunctionBreakpointsResponse m) = wire_SetFunctionBreakpointsResponse m"
| "wire_ResponseMsg (MContinueResponse m) = wire_ContinueResponse m"
| "wire_ResponseMsg (MThreadsResponse m) = wire_ThreadsResponse m"
| "wire_ResponseMsg (MScopesResponse m) = wire_ScopesResponse m"
| "wire_ResponseMsg (MStackTraceResponse m) = wire_StackTraceResponse m"
| "wire_ResponseMsg (MVariablesResponse m) = wire_VariablesResponse m"
| "wire_ResponseMsg (MRunInTerminalResponse m) = wire_RunInTerminalResponse m"
| "wire_ResponseMsg (MSourceResponse m) = wire_SourceResponse m"
| "wire_ResponseMsg (MEvaluateResponse m) = wire_EvaluateResponse m"

text \<open>The object that a constructor makes.\<close>

fun fresh_ResponseMsg :: "ResponseMsg \<Rightarrow> ResponseMsg" where
  "fresh_ResponseMsg (MCancelResponse m) = MCancelResponse new_CancelResponse"
| "fresh_ResponseMsg (MInitializeResponse m) = MInitializeResponse new_InitializeResponse"
| "fresh_ResponseMsg (MEmptyAckResponse m) = MEmptyAckResponse new_EmptyAckResponse"
| "fresh_ResponseMsg (MConfigurationDoneResponse m) = MConfigurationDoneResponse new_ConfigurationDoneResponse"
| "fresh_ResponseMsg (MLaunchResponse m) = MLaunchResponse new_LaunchResponse"
| "fresh_ResponseMsg (MAttachResponse m) = MAttachResponse new_AttachResponse"
| "fresh_ResponseMsg (MDisconnectResponse m) = MDisconnectResponse new_DisconnectResponse"
| "fresh_ResponseMsg (MNextResponse m) = MNextResponse new_NextResponse"
| "fresh_ResponseMsg (MPauseResponse m) = MPauseResponse new_PauseResponse"
| "fresh_ResponseMsg (MStepInResponse m) = MStepInResponse new_StepInResponse"
| "fresh_ResponseMsg (MStepOutResponse m) = MStepOutResponse new_StepOutResponse"
| "fresh_ResponseMsg (MBreakpointLocationsResponse m) = MBreakpointLocationsResponse new_BreakpointLocationsResponse"
| "fresh_ResponseMsg (MSetBreakpointsResponse m) = MSetBreakpointsResponse new_SetBreakpointsResponse"
| "fresh_ResponseMsg (MSetFunctionBreakpointsResponse m) = MSetFunctionBreakpointsResponse new_SetFunctionBreakpointsResponse"
| "fresh_ResponseMsg (MContinueResponse m) = MContinueResponse new_ContinueResponse"
| "fresh_ResponseMsg (MThreadsResponse m) = MThreadsResponse new_ThreadsResponse"
| "fresh_ResponseMsg (MScopesResponse m) = MScopesResponse new_ScopesResponse"
| "fresh_ResponseMsg (MStackTraceResponse m) = MStackTraceResponse new_StackTraceResponse"
| "fresh_ResponseMsg (MVariablesResponse m) = MVariablesResponse new_VariablesResponse"
| "fresh_ResponseMsg (MRunInTerminalResponse m) = MRunInTerminalResponse new_RunInTerminalResponse"
| "fresh_ResponseMsg (MSourceResponse m) = MSourceResponse new_SourceResponse"
| "fresh_ResponseMsg (MEvaluateResponse m) = MEvaluateResponse new_EvaluateResponse"

fun Message_To :: "Message \<Rightarrow> Json" where
  "Message_To (MRequest m) = RequestMsg_To m"
| "Message_To (MEvent m) = EventMsg_To m"
| "Message_To (MResponse m) = ResponseMsg_To m"

fun Message_From :: "Json \<Rightarrow> Message \<Rightarrow> Message" where
  "Message_From json (MRequest m) = MRequest (RequestMsg_From json m)"
| "Message_From json (MEvent m) = MEvent (EventMsg_From json m)"
| "Message_From json (MResponse m) = MResponse (ResponseMsg_From json m)"

text \<open>The member \<^verbatim>\<open>type\<close> of the base class \<^verbatim>\<open>ProtocolMessage\<close>.\<close>

fun Message_type :: "Message \<Rightarrow> string" where
  "Message_type (MRequest m) = ProtocolMessage_type (as_Request m)"
| "Message_type (MEvent m) = ProtocolMessage_type (as_Event m)"
| "Message_type (MResponse m) = ProtocolMessage_type (as_Response m)"

definition AsEvent :: "Message \<Rightarrow> EventMsg option" where
  "AsEvent m = (if Message_type m \<noteq> ''event'' then None else case m of MEvent e \<Rightarrow> Some e | _ \<Rightarrow> None)"

definition AsRequest :: "Message \<Rightarrow> RequestMsg option" where
  "AsRequest m = (if Message_type m \<noteq> ''request'' then None else case m of MRequest e \<Rightarrow> Some e | _ \<Rightarrow> None)"

definition AsResponse :: "Message \<Rightarrow> ResponseMsg option" where
  "AsResponse m = (if Message_type m \<noteq> ''response'' then None else case m of MResponse e \<Rightarrow> Some e | _ \<Rightarrow> None)"

definition Message_ToString :: "Message \<Rightarrow> string outcome" where
  "Message_ToString m = Json_ToString False (Message_To m)"

section \<open>The pools\<close>

type_synonym pool = "string \<rightharpoonup> Message"

record ObjGenerator =
  m_responses :: pool
  m_events :: pool
  m_requests :: pool

definition pool_insert :: "string \<Rightarrow> Message \<Rightarrow> pool \<Rightarrow> pool" where
  "pool_insert name func p = (if p name = None then p(name \<mapsto> func) else p)"

definition RegisterResponse :: "string \<Rightarrow> Message \<Rightarrow> ObjGenerator \<Rightarrow> ObjGenerator" where
  "RegisterResponse name func g = g \<lparr>m_responses := pool_insert name func (m_responses g)\<rparr>"

definition RegisterEvent :: "string \<Rightarrow> Message \<Rightarrow> ObjGenerator \<Rightarrow> ObjGenerator" where
  "RegisterEvent name func g = g \<lparr>m_events := pool_insert name func (m_events g)\<rparr>"

definition RegisterRequest :: "string \<Rightarrow> Message \<Rightarrow> ObjGenerator \<Rightarrow> ObjGenerator" where
  "RegisterRequest name func g = g \<lparr>m_requests := pool_insert name func (m_requests g)\<rparr>"

definition empty_generator :: ObjGenerator where
  "empty_generator = \<lparr>m_responses = Map.empty, m_events = Map.empty, m_requests = Map.empty\<rparr>"

definition New_from_pool :: "string \<Rightarrow> pool \<Rightarrow> Message option" where
  "New_from_pool name p = p name"

definition ObjGenerator_New :: "string \<Rightarrow> string \<Rightarrow> ObjGenerator \<Rightarrow> Message option" where
  "ObjGenerator_New type name g =
     (if type = ''response'' then New_from_pool name (m_responses g)
      else if type = ''request'' then New_from_pool name (m_requests g)
      else if type = ''event'' then New_from_pool name (m_events g)
      else None)"

definition FromJSON :: "ObjGenerator \<Rightarrow> Json \<Rightarrow> Message option" where
  "FromJSON g json =
     (if \<not> IsOK json then None
      else let type = GetString (Json_at json ''type'') [];
               command = (if type = ''event'' then GetString (Json_at json ''event'') []
                          else GetString (Json_at json ''command'') [])
           in case ObjGenerator_New type command g of
                None \<Rightarrow> None
              | Some msg \<Rightarrow> Some (Message_From json msg))"

section \<open>\<^verbatim>\<open>dap::Initialize\<close>\<close>

text \<open>What the constructors of the dummies register, in order.\<close>

definition request_registrations :: "(string \<times> Message) list" where
  "request_registrations =
    [(''cancel'', MRequest (MCancelRequest new_CancelRequest)),
     (''initialize'', MRequest (MInitializeRequest new_InitializeRequest)),
     (''breakpointLocations'', MRequest (MBreakpointLocationsRequest new_BreakpointLocationsRequest)),
     (''configurationDone'', MRequest (MConfigurationDoneRequest new_ConfigurationDoneRequest)),
     (''launch'', MRequest (MLaunchRequest new_LaunchRequest)),
     (''disconnect'', MRequest (MDisconnectRequest new_DisconnectRequest)),
     (''setBreakpoints'', MRequest (MSetBreakpointsRequest new_SetBreakpointsRequest)),
     (''setFunctionBreakpoints'', MRequest (MSetFunctionBreakpointsRequest new_SetFunctionBreakpointsRequest)),
     (''continue'', MRequest (MContinueRequest new_ContinueRequest)),
     (''next'', MRequest (MNextRequest new_NextRequest)),
     (''step'', MRequest (MStepRequest new_StepRequest)),
     (''stepIn'', MRequest (MStepInRequest new_StepInRequest)),
     (''step'', MRequest (MStepRequest new_StepRequest)),
     (''stepOut'', MRequest (MStepOutRequest new_StepOutRequest)),
     (''threads'', MRequest (MThreadsRequest new_ThreadsRequest)),
     (''scopes'', MRequest (MScopesRequest new_ScopesRequest)),
     (''stackTrace'', MRequest (MStackTraceRequest new_StackTraceRequest)),
     (''pause'', MRequest (MPauseRequest new_PauseRequest)),
     (''runInTerminal'', MRequest (MRunInTerminalRequest new_RunInTerminalRequest)),
     (''source'', MRequest (MSourceRequest new_SourceRequest)),
     (''evaluate'', MRequest (MEvaluateRequest new_EvaluateRequest)),
     (''attach'', MRequest (MAttachRequest new_AttachRequest))]"

definition event_registrations :: "(string \<times> Message) list" where
  "event_registrations =
    [(''initialized'', MEvent (MInitializedEvent new_InitializedEvent)),
     (''stopped'', MEvent (MStoppedEvent new_StoppedEvent)),
     (''continued'', MEvent (MContinuedEvent new_ContinuedEvent)),
     (''exited'', MEvent (MExitedEvent new_ExitedEvent)),
     (''terminated'', MEvent (MTerminatedEvent new_TerminatedEvent)),
     (''thread'', MEvent (MThreadEvent new_ThreadEvent)),
     (''output'', MEvent (MOutputEvent new_OutputEvent)),
     (''breakpoint'', MEvent (MBreakpointEvent new_BreakpointEvent)),
     (''process'', MEvent (MProcessEvent new_ProcessEvent)),
     (''module'', MEvent (MModuleEvent new_ModuleEvent)),
     ([], MEvent (MDebugpyWaitingForServerEvent new_DebugpyWaitingForServerEvent))]"

definition response_registrations :: "(string \<times> Message) list" where
  "response_registrations =
    [(''initialize'', MResponse (MInitializeResponse new_InitializeResponse)),
     (''cancel'', MResponse (MCancelResponse new_CancelResponse)),
     ([], MResponse (MEmptyAckResponse new_EmptyAckResponse)),
     (''configurationDone'', MResponse (MConfigurationDoneResponse new_ConfigurationDoneResponse)),
     ([], MResponse (MEmptyAckResponse new_EmptyAckResponse)),
     (''launch'', MResponse (MLaunchResponse new_LaunchResponse)),
     ([], MResponse (MEmptyAckResponse new_EmptyAckResponse)),
     (''disconnect'', MResponse (MDisconnectResponse new_DisconnectResponse)),
     (''breakpointLocations'', MResponse (MBreakpointLocationsResponse new_BreakpointLocationsResponse)),
     (''setBreakpoints'', MResponse (MSetBreakpointsResponse new_SetBreakpointsResponse)),
     (''setBreakpoints'', MResponse (MSetBreakpointsResponse new_SetBreakpointsResponse)),
     (''setFunctionBreakpoints'', MResponse (MSetFunctionBreakpointsResponse new_SetFunctionBreakpointsResponse)),
     (''continue'', MResponse (MContinueResponse new_ContinueResponse)),
     ([], MResponse (MEmptyAckResponse new_EmptyAckResponse)),
     (''next'', MResponse (MNextResponse new_NextResponse)),
     (''stepIn'', MResponse (MStepInResponse new_StepInResponse)),
     (''stepOut'', MResponse (MStepOutResponse new_StepOutResponse)),
     (''threads'', MResponse (MThreadsResponse new_ThreadsResponse)),
     (''scopes'', MResponse (MScopesResponse new_ScopesResponse)),
     (''stackTrace'', MResponse (MStackTraceResponse new_StackTraceResponse)),
     (''variables'', MResponse (MVariablesResponse new_VariablesResponse)),
     ([], MResponse (MEmptyAckResponse new_EmptyAckResponse)),
     (''pause'', MResponse (MPauseResponse new_PauseResponse)),
     (''runInTerminal'', MResponse (MRunInTerminalResponse new_RunInTerminalResponse)),
     (''source'', MResponse (MSourceResponse new_SourceResponse)),
     (''evaluate'', MResponse (MEvaluateResponse new_EvaluateResponse)),
     ([], MResponse (MEmptyAckResponse new_EmptyAckResponse)),
     (''attach'', MResponse (MAttachResponse new_AttachResponse))]"

definition Initialize_dap :: "ObjGenerator \<Rightarrow> ObjGenerator" where
  "Initialize_dap g =
     (let g = foldl (\<lambda>g (k, f). RegisterRequest k f g) g request_registrations;
          g = foldl (\<lambda>g (k, f). RegisterEvent k f g) g event_registrations;
          g = foldl (\<lambda>g (k, f). RegisterResponse k f g) g response_registrations
      in g)"

definition registered :: ObjGenerator where
  "registered = Initialize_dap empty_generator"

section \<open>Look-up in the pools\<close>

lemma foldl_pool_insert: "foldl (\<lambda>p (k, f). pool_insert k f p) p xs = map_of xs ++ p"
proof (induction xs arbitrary: p)
  case (Cons x xs)
  show ?case
  proof
    fix n
    show "foldl (\<lambda>p (k, f). pool_insert k f p) p (x # xs) n = (map_of (x # xs) ++ p) n"
      using Cons by (cases x) (auto simp: pool_insert_def map_add_def split: option.splits)
  qed
qed simp

lemma foldl_Register:
  "foldl (\<lambda>g (k, f). RegisterRequest k f g) g xs = g \<lparr>m_requests := map_of xs ++ m_requests g\<rparr>"
  "foldl (\<lambda>g (k, f). RegisterEvent k f g) g xs = g \<lparr>m_events := map_of xs ++ m_events g\<rparr>"
  "foldl (\<lambda>g (k, f). RegisterResponse k f g) g xs = g \<lparr>m_responses := map_of xs ++ m_responses g\<rparr>"
proof -
  have "foldl (\<lambda>g (k, f). RegisterRequest k f g) g xs =
        g \<lparr>m_requests := foldl (\<lambda>p (k, f). pool_insert k f p) (m_requests g) xs\<rparr>"
    "foldl (\<lambda>g (k, f). RegisterEvent k f g) g xs =
        g \<lparr>m_events := foldl (\<lambda>p (k, f). pool_insert k f p) (m_events g) xs\<rparr>"
    "foldl (\<lambda>g (k, f). RegisterResponse k f g) g xs =
        g \<lparr>m_responses := foldl (\<lambda>p (k, f). pool_insert k f p) (m_responses g) xs\<rparr>"
    by (induction xs arbitrary: g; auto simp: RegisterRequest_def RegisterEvent_def RegisterResponse_def)+
  then show "foldl (\<lambda>g (k, f). RegisterRequest k f g) g xs = g \<lparr>m_requests := map_of xs ++ m_requests g\<rparr>"
    "foldl (\<lambda>g (k, f). RegisterEvent k f g) g xs = g \<lparr>m_events := map_of xs ++ m_events g\<rparr>"
    "foldl (\<lambda>g (k, f). RegisterResponse k f g) g xs = g \<lparr>m_responses := map_of xs ++ m_responses g\<rparr>"
    by (simp_all only: foldl_pool_insert)
qed

lemma registered_pools:
  "m_requests registered = map_of request_registrations"
  "m_events registered = map_of event_registrations"
  "m_responses registered = map_of response_registrations"
  by (simp_all add: registered_def Initialize_dap_def empty_generator_def foldl_Register)

section \<open>What the dispatch reads\<close>

named_theorems msg_head \<open>the members type, event and command in the JSON of a message\<close>

lemma CancelRequest_head [msg_head]:
  "GetString (Json_at (CancelRequest_To m) ''type'') d = c_str (ProtocolMessage_type m)"
  "GetString (Json_at (CancelRequest_To m) ''command'') d = c_str (Request_command m)"
  by (simp_all add: CancelRequest_To_def msg_defs Let_def json_simps msg_simps)

lemma InitializeRequest_head [msg_head]:
  "GetString (Json_at (InitializeRequest_To m) ''type'') d = c_str (ProtocolMessage_type m)"
  "GetString (Json_at (InitializeRequest_To m) ''command'') d = c_str (Request_command m)"
  by (simp_all add: InitializeRequest_To_def msg_defs Let_def json_simps msg_simps)

lemma ConfigurationDoneRequest_head [msg_head]:
  "GetString (Json_at (ConfigurationDoneRequest_To m) ''type'') d = c_str (ProtocolMessage_type m)"
  "GetString (Json_at (ConfigurationDoneRequest_To m) ''command'') d = c_str (Request_command m)"
  by (simp_all add: ConfigurationDoneRequest_To_def msg_defs Let_def json_simps msg_simps)

lemma LaunchRequest_head [msg_head]:
  "GetString (Json_at (LaunchRequest_To m) ''type'') d = c_str (ProtocolMessage_type m)"
  "GetString (Json_at (LaunchRequest_To m) ''command'') d = c_str (Request_command m)"
  by (simp_all add: LaunchRequest_To_def msg_defs Let_def json_simps msg_simps)

lemma AttachRequest_head [msg_head]:
  "GetString (Json_at (AttachRequest_To m) ''type'') d = c_str (ProtocolMessage_type m)"
  "GetString (Json_at (AttachRequest_To m) ''command'') d = c_str (Request_command m)"
  by (simp_all add: AttachRequest_To_def msg_defs Let_def json_simps msg_simps)

lemma DisconnectRequest_head [msg_head]:
  "GetString (Json_at (DisconnectRequest_To m) ''type'') d = c_str (ProtocolMessage_type m)"
  "GetString (Json_at (DisconnectRequest_To m) ''command'') d = c_str (Request_command m)"
  by (simp_all add: DisconnectRequest_To_def msg_defs Let_def json_simps msg_simps)

lemma BreakpointLocationsRequest_head [msg_head]:
  "GetString (Json_at (BreakpointLocationsRequest_To m) ''type'') d = c_str (ProtocolMessage_type m)"
  "GetString (Json_at (BreakpointLocationsRequest_To m) ''command'') d = c_str (Request_command m)"
  by (simp_all add: BreakpointLocationsRequest_To_def msg_defs Let_def json_simps msg_simps)

lemma SetBreakpointsRequest_head [msg_head]:
  "GetString (Json_at (SetBreakpointsRequest_To m) ''type'') d = c_str (ProtocolMessage_type m)"
  "GetString (Json_at (SetBreakpointsRequest_To m) ''command'') d = c_str (Request_command m)"
  by (simp_all add: SetBreakpointsRequest_To_def msg_defs Let_def json_simps msg_simps)

lemma SetFunctionBreakpointsRequest_head [msg_head]:
  "GetString (Json_at (SetFunctionBreakpointsRequest_To m) ''type'') d = c_str (ProtocolMessage_type m)"
  "GetString (Json_at (SetFunctionBreakpointsRequest_To m) ''command'') d = c_str (Request_command m)"
  by (simp_all add: SetFunctionBreakpointsRequest_To_def msg_defs Let_def json_simps msg_simps)

lemma ContinueRequest_head [msg_head]:
  "GetString (Json_at (ContinueRequest_To m) ''type'') d = c_str (ProtocolMessage_type m)"
  "GetString (Json_at (ContinueRequest_To m) ''command'') d = c_str (Request_command m)"
  by (simp_all add: ContinueRequest_To_def msg_defs Let_def json_simps msg_simps)

lemma StepRequest_head [msg_head]:
  "GetString (Json_at (StepRequest_To m) ''type'') d = c_str (ProtocolMessage_type m)"
  "GetString (Json_at (StepRequest_To m) ''command'') d = c_str (Request_command m)"
  by (simp_all add: StepRequest_To_def msg_defs Let_def json_simps msg_simps)

lemma StepInRequest_head [msg_head]:
  "GetString (Json_at (StepInRequest_To m) ''type'') d = c_str (ProtocolMessage_type m)"
  "GetString (Json_at (StepInRequest_To m) ''command'') d = c_str (Request_command m)"
  by (simp_all add: StepInRequest_To_def msg_defs Let_def json_simps msg_simps)

lemma StepOutRequest_head [msg_head]:
  "GetString (Json_at (StepOutRequest_To m) ''type'') d = c_str (ProtocolMessage_type m)"
  "GetString (Json_at (StepOutRequest_To m) ''command'') d = c_str (Request_command m)"
  by (simp_all add: StepOutRequest_To_def msg_defs Let_def json_simps msg_simps)

lemma NextRequest_head [msg_head]:
  "GetString (Json_at (NextRequest_To m) ''type'') d = c_str (ProtocolMessage_type m)"
  "GetString (Json_at (NextRequest_To m) ''command'') d = c_str (Request_command m)"
  by (simp_all add: NextRequest_To_def msg_defs Let_def json_simps msg_simps)

lemma ThreadsRequest_head [msg_head]:
  "GetString (Json_at (ThreadsRequest_To m) ''type'') d = c_str (ProtocolMessage_type m)"
  "GetString (Json_at (ThreadsRequest_To m) ''command'') d = c_str (Request_command m)"
  by (simp_all add: ThreadsRequest_To_def msg_defs Let_def json_simps msg_simps)

lemma ScopesRequest_head [msg_head]:
  "GetString (Json_at (ScopesRequest_To m) ''type'') d = c_str (ProtocolMessage_type m)"
  "GetString (Json_at (ScopesRequest_To m) ''command'') d = c_str (Request_command m)"
  by (simp_all add: ScopesRequest_To_def msg_defs Let_def json_simps msg_simps)

lemma StackTraceRequest_head [msg_head]:
  "GetString (Json_at (StackTraceRequest_To m) ''type'') d = c_str (ProtocolMessage_type m)"
  "GetString (Json_at (StackTraceRequest_To m) ''command'') d = c_str (Request_command m)"
  by (simp_all add: StackTraceRequest_To_def msg_defs Let_def json_simps msg_simps)

lemma VariablesRequest_head [msg_head]:
  "GetString (Json_at (VariablesRequest_To m) ''type'') d = c_str (ProtocolMessage_type m)"
  "GetString (Json_at (VariablesRequest_To m) ''command'') d = c_str (Request_command m)"
  by (simp_all add: VariablesRequest_To_def msg_defs Let_def json_simps msg_simps)

lemma PauseRequest_head [msg_head]:
  "GetString (Json_at (PauseRequest_To m) ''type'') d = c_str (ProtocolMessage_type m)"
  "GetString (Json_at (PauseRequest_To m) ''command'') d = c_str (Request_command m)"
  by (simp_all add: PauseRequest_To_def msg_defs Let_def json_simps msg_simps)

lemma RunInTerminalRequest_head [msg_head]:
  "GetString (Json_at (RunInTerminalRequest_To m) ''type'') d = c_str (ProtocolMessage_type m)"
  "GetString (Json_at (RunInTerminalRequest_To m) ''command'') d = c_str (Request_command m)"
  by (simp_all add: RunInTerminalRequest_To_def msg_defs Let_def json_simps msg_simps)

lemma SourceRequest_head [msg_head]:
  "GetString (Json_at (SourceRequest_To m) ''type'') d = c_str (ProtocolMessage_type m)"
  "GetString (Json_at (SourceRequest_To m) ''command'') d = c_str (Request_command m)"
  by (simp_all add: SourceRequest_To_def msg_defs Let_def json_simps msg_simps)

lemma EvaluateRequest_head [msg_head]:
  "GetString (Json_at (EvaluateRequest_To m) ''type'') d = c_str (ProtocolMessage_type m)"
  "GetString (Json_at (EvaluateRequest_To m) ''command'') d = c_str (Request_command m)"
  by (simp_all add: EvaluateRequest_To_def msg_defs Let_def json_simps msg_simps)

lemma InitializedEvent_head [msg_head]:
  "GetString (Json_at (InitializedEvent_To m) ''type'') d = c_str (ProtocolMessage_type m)"
  "GetString (Json_at (InitializedEvent_To m) ''event'') d = c_str (Event_event m)"
  by (simp_all add: InitializedEvent_To_def msg_defs Let_def json_simps msg_simps)

lemma StoppedEvent_head [msg_head]:
  "GetString (Json_at (StoppedEvent_To m) ''type'') d = c_str (ProtocolMessage_type m)"
  "GetString (Json_at (StoppedEvent_To m) ''event'') d = c_str (Event_event m)"
  by (simp_all add: StoppedEvent_To_def msg_defs Let_def json_simps msg_simps)

lemma ContinuedEvent_head [msg_head]:
  "GetString (Json_at (ContinuedEvent_To m) ''type'') d = c_str (ProtocolMessage_type m)"
  "GetString (Json_at (ContinuedEvent_To m) ''event'') d = c_str (Event_event m)"
  by (simp_all add: ContinuedEvent_To_def msg_defs Let_def json_simps msg_simps)

lemma ExitedEvent_head [msg_head]:
  "GetString (Json_at (ExitedEvent_To m) ''type'') d = c_str (ProtocolMessage_type m)"
  "GetString (Json_at (ExitedEvent_To m) ''event'') d = c_str (Event_event m)"
  by (simp_all add: ExitedEvent_To_def msg_defs Let_def json_simps msg_simps)

lemma TerminatedEvent_head [msg_head]:
  "GetString (Json_at (TerminatedEvent_To m) ''type'') d = c_str (ProtocolMessage_type m)"
  "GetString (Json_at (TerminatedEvent_To m) ''event'') d = c_str (Event_event m)"
  by (simp_all add: TerminatedEvent_To_def msg_defs Let_def json_simps msg_simps)

lemma ThreadEvent_head [msg_head]:
  "GetString (Json_at (ThreadEvent_To m) ''type'') d = c_str (ProtocolMessage_type m)"
  "GetString (Json_at (ThreadEvent_To m) ''event'') d = c_str (Event_event m)"
  by (simp_all add: ThreadEvent_To_def msg_defs Let_def json_simps msg_simps)

lemma OutputEvent_head [msg_head]:
  "GetString (Json_at (OutputEvent_To m) ''type'') d = c_str (ProtocolMessage_type m)"
  "GetString (Json_at (OutputEvent_To m) ''event'') d = c_str (Event_event m)"
  by (simp_all add: OutputEvent_To_def msg_defs Let_def json_simps msg_simps)

lemma BreakpointEvent_head [msg_head]:
  "GetString (Json_at (BreakpointEvent_To m) ''type'') d = c_str (ProtocolMessage_type m)"
  "GetString (Json_at (BreakpointEvent_To m) ''event'') d = c_str (Event_event m)"
  by (simp_all add: BreakpointEvent_To_def msg_defs Let_def json_simps msg_simps)

lemma ProcessEvent_head [msg_head]:
  "GetString (Json_at (ProcessEvent_To m) ''type'') d = c_str (ProtocolMessage_type m)"
  "GetString (Json_at (ProcessEvent_To m) ''event'') d = c_str (Event_event m)"
  by (simp_all add: ProcessEvent_To_def msg_defs Let_def json_simps msg_simps)

lemma ModuleEvent_head [msg_head]:
  "GetString (Json_at (ModuleEvent_To m) ''type'') d = c_str (ProtocolMessage_type m)"
  "GetString (Json_at (ModuleEvent_To m) ''event'') d = c_str (Event_event m)"
  by (simp_all add: ModuleEvent_To_def msg_defs Let_def json_simps msg_simps)

lemma DebugpyWaitingForServerEvent_head [msg_head]:
  "GetString (Json_at (DebugpyWaitingForServerEvent_To m) ''type'') d = c_str (ProtocolMessage_type m)"
  "GetString (Json_at (DebugpyWaitingForServerEvent_To m) ''event'') d = c_str (Event_event m)"
  by (simp_all add: DebugpyWaitingForServerEvent_To_def msg_defs Let_def json_simps msg_simps)

lemma CancelResponse_head [msg_head]:
  "GetString (Json_at (CancelResponse_To m) ''type'') d = c_str (ProtocolMessage_type m)"
  "GetString (Json_at (CancelResponse_To m) ''command'') d = c_str (Response_command m)"
  by (simp_all add: CancelResponse_To_def msg_defs Let_def json_simps msg_simps)

lemma InitializeResponse_head [msg_head]:
  "GetString (Json_at (InitializeResponse_To m) ''type'') d = c_str (ProtocolMessage_type m)"
  "GetString (Json_at (InitializeResponse_To m) ''command'') d = c_str (Response_command m)"
  by (simp_all add: InitializeResponse_To_def msg_defs Let_def json_simps msg_simps)

lemma EmptyAckResponse_head [msg_head]:
  "GetString (Json_at (EmptyAckResponse_To m) ''type'') d = c_str (ProtocolMessage_type m)"
  "GetString (Json_at (EmptyAckResponse_To m) ''command'') d = c_str (Response_command m)"
  by (simp_all add: EmptyAckResponse_To_def msg_defs Let_def json_simps msg_simps)

lemma ConfigurationDoneResponse_head [msg_head]:
  "GetString (Json_at (ConfigurationDoneResponse_To m) ''type'') d = c_str (ProtocolMessage_type m)"
  "GetString (Json_at (ConfigurationDoneResponse_To m) ''command'') d = c_str (Response_command m)"
  by (simp_all add: ConfigurationDoneResponse_To_def msg_defs Let_def json_simps msg_simps)

lemma LaunchResponse_head [msg_head]:
  "GetString (Json_at (LaunchResponse_To m) ''type'') d = c_str (ProtocolMessage_type m)"
  "GetString (Json_at (LaunchResponse_To m) ''command'') d = c_str (Response_command m)"
  by (simp_all add: LaunchResponse_To_def msg_defs Let_def json_simps msg_simps)

lemma AttachResponse_head [msg_head]:
  "GetString (Json_at (AttachResponse_To m) ''type'') d = c_str (ProtocolMessage_type m)"
  "GetString (Json_at (AttachResponse_To m) ''command'') d = c_str (Response_command m)"
  by (simp_all add: AttachResponse_To_def msg_defs Let_def json_simps msg_simps)

lemma DisconnectResponse_head [msg_head]:
  "GetString (Json_at (DisconnectResponse_To m) ''type'') d = c_str (ProtocolMessage_type m)"
  "GetString (Json_at (DisconnectResponse_To m) ''command'') d = c_str (Response_command m)"
  by (simp_all add: DisconnectResponse_To_def msg_defs Let_def json_simps msg_simps)

lemma NextResponse_head [msg_head]:
  "GetString (Json_at (NextResponse_To m) ''type'') d = c_str (ProtocolMessage_type m)"
  "GetString (Json_at (NextResponse_To m) ''command'') d = c_str (Response_command m)"
  by (simp_all add: NextResponse_To_def msg_defs Let_def json_simps msg_simps)

lemma PauseResponse_head [msg_head]:
  "GetString (Json_at (PauseResponse_To m) ''type'') d = c_str (ProtocolMessage_type m)"
  "GetString (Json_at (PauseResponse_To m) ''command'') d = c_str (Response_command m)"
  by (simp_all add: PauseResponse_To_def msg_defs Let_def json_simps msg_simps)

lemma StepInResponse_head [msg_head]:
  "GetString (Json_at (StepInResponse_To m) ''type'') d = c_str (ProtocolMessage_type m)"
  "GetString (Json_at (StepInResponse_To m) ''command'') d = c_str (Response_command m)"
  by (simp_all add: StepInResponse_To_def msg_defs Let_def json_simps msg_simps)

lemma StepOutResponse_head [msg_head]:
  "GetString (Json_at (StepOutResponse_To m) ''type'') d = c_str (ProtocolMessage_type m)"
  "GetString (Json_at (StepOutResponse_To m) ''command'') d = c_str (Response_command m)"
  by (simp_all add: StepOutResponse_To_def msg_defs Let_def json_simps msg_simps)

lemma BreakpointLocationsResponse_head [msg_head]:
  "GetString (Json_at (BreakpointLocationsResponse_To m) ''type'') d = c_str (ProtocolMessage_type m)"
  "GetString (Json_at (BreakpointLocationsResponse_To m) ''command'') d = c_str (Response_command m)"
  by (simp_all add: BreakpointLocationsResponse_To_def msg_defs Let_def json_simps msg_simps)

lemma SetBreakpointsResponse_head [msg_head]:
  "GetString (Json_at (SetBreakpointsResponse_To m) ''type'') d = c_str (ProtocolMessage_type m)"
  "GetString (Json_at (SetBreakpointsResponse_To m) ''command'') d = c_str (Response_command m)"
  by (simp_all add: SetBreakpointsResponse_To_def msg_defs Let_def json_simps msg_simps)

lemma SetFunctionBreakpointsResponse_head [msg_head]:
  "GetString (Json_at (SetFunctionBreakpointsResponse_To m) ''type'') d = c_str (ProtocolMessage_type m)"
  "GetString (Json_at (SetFunctionBreakpointsResponse_To m) ''command'') d = c_str (Response_command m)"
  by (simp_all add: SetFunctionBreakpointsResponse_To_def msg_defs Let_def json_simps msg_simps)

lemma ContinueResponse_head [msg_head]:
  "GetString (Json_at (ContinueResponse_To m) ''type'') d = c_str (ProtocolMessage_type m)"
  "GetString (Json_at (ContinueResponse_To m) ''command'') d = c_str (Response_command m)"
  by (simp_all add: ContinueResponse_To_def msg_defs Let_def json_simps msg_simps)

lemma ThreadsResponse_head [msg_head]:
  "GetString (Json_at (ThreadsResponse_To m) ''type'') d = c_str (ProtocolMessage_type m)"
  "GetString (Json_at (ThreadsResponse_To m) ''command'') d = c_str (Response_command m)"
  by (simp_all add: ThreadsResponse_To_def msg_defs Let_def json_simps msg_simps)

lemma ScopesResponse_head [msg_head]:
  "GetString (Json_at (ScopesResponse_To m) ''type'') d = c_str (ProtocolMessage_type m)"
  "GetString (Json_at (ScopesResponse_To m) ''command'') d = c_str (Response_command m)"
  by (simp_all add: ScopesResponse_To_def msg_defs Let_def json_simps msg_simps)

lemma StackTraceResponse_head [msg_head]:
  "GetString (Json_at (StackTraceResponse_To m) ''type'') d = c_str (ProtocolMessage_type m)"
  "GetString (Json_at (StackTraceResponse_To m) ''command'') d = c_str (Response_command m)"
  by (simp_all add: StackTraceResponse_To_def msg_defs Let_def json_simps msg_simps)

lemma VariablesResponse_head [msg_head]:
  "GetString (Json_at (VariablesResponse_To m) ''type'') d = c_str (ProtocolMessage_type m)"
  "GetString (Json_at (VariablesResponse_To m) ''command'') d = c_str (Response_command m)"
  by (simp_all add: VariablesResponse_To_def msg_defs Let_def json_simps msg_simps)

lemma RunInTerminalResponse_head [msg_head]:
  "GetString (Json_at (RunInTerminalResponse_To m) ''type'') d = c_str (ProtocolMessage_type m)"
  "GetString (Json_at (RunInTerminalResponse_To m) ''command'') d = c_str (Response_command m)"
  by (simp_all add: RunInTerminalResponse_To_def msg_defs Let_def json_simps msg_simps)

lemma SourceResponse_head [msg_head]:
  "GetString (Json_at (SourceResponse_To m) ''type'') d = c_str (ProtocolMessage_type m)"
  "GetString (Json_at (SourceResponse_To m) ''command'') d = c_str (Response_command m)"
  by (simp_all add: SourceResponse_To_def msg_defs Let_def json_simps msg_simps)

lemma EvaluateResponse_head [msg_head]:
  "GetString (Json_at (EvaluateResponse_To m) ''type'') d = c_str (ProtocolMessage_type m)"
  "GetString (Json_at (EvaluateResponse_To m) ''command'') d = c_str (Response_command m)"
  by (simp_all add: EvaluateResponse_To_def msg_defs Let_def json_simps msg_simps)

section \<open>Dispatch\<close>

lemmas request_new_defs =
  new_CancelRequest_def new_InitializeRequest_def new_ConfigurationDoneRequest_def new_LaunchRequest_def
  new_AttachRequest_def new_DisconnectRequest_def new_BreakpointLocationsRequest_def
  new_SetBreakpointsRequest_def new_SetFunctionBreakpointsRequest_def new_ContinueRequest_def
  new_StepRequest_def new_StepInRequest_def new_StepOutRequest_def new_NextRequest_def new_ThreadsRequest_def
  new_ScopesRequest_def new_StackTraceRequest_def new_VariablesRequest_def new_PauseRequest_def
  new_RunInTerminalRequest_def new_SourceRequest_def new_EvaluateRequest_def

lemmas event_new_defs =
  new_InitializedEvent_def new_StoppedEvent_def new_ContinuedEvent_def new_ExitedEvent_def
  new_TerminatedEvent_def new_ThreadEvent_def new_OutputEvent_def new_BreakpointEvent_def new_ProcessEvent_def
  new_ModuleEvent_def new_DebugpyWaitingForServerEvent_def

lemmas response_new_defs =
  new_CancelResponse_def new_InitializeResponse_def new_EmptyAckResponse_def new_ConfigurationDoneResponse_def
  new_LaunchResponse_def new_AttachResponse_def new_DisconnectResponse_def new_NextResponse_def
  new_PauseResponse_def new_StepInResponse_def new_StepOutResponse_def new_BreakpointLocationsResponse_def
  new_SetBreakpointsResponse_def new_SetFunctionBreakpointsResponse_def new_ContinueResponse_def
  new_ThreadsResponse_def new_ScopesResponse_def new_StackTraceResponse_def new_VariablesResponse_def
  new_RunInTerminalResponse_def new_SourceResponse_def new_EvaluateResponse_def

lemmas wire_defs =
  wire_CancelRequest_def wire_InitializeRequest_def wire_ConfigurationDoneRequest_def wire_LaunchRequest_def
  wire_AttachRequest_def wire_DisconnectRequest_def wire_BreakpointLocationsRequest_def
  wire_SetBreakpointsRequest_def wire_SetFunctionBreakpointsRequest_def wire_ContinueRequest_def
  wire_StepRequest_def wire_StepInRequest_def wire_StepOutRequest_def wire_NextRequest_def
  wire_ThreadsRequest_def wire_ScopesRequest_def wire_StackTraceRequest_def wire_VariablesRequest_def
  wire_PauseRequest_def wire_RunInTerminalRequest_def wire_SourceRequest_def wire_EvaluateRequest_def
  wire_InitializedEvent_def wire_StoppedEvent_def wire_ContinuedEvent_def wire_ExitedEvent_def
  wire_TerminatedEvent_def wire_ThreadEvent_def wire_OutputEvent_def wire_BreakpointEvent_def
  wire_ProcessEvent_def wire_ModuleEvent_def wire_DebugpyWaitingForServerEvent_def wire_CancelResponse_def
  wire_InitializeResponse_def wire_EmptyAckResponse_def wire_ConfigurationDoneResponse_def
  wire_LaunchResponse_def wire_AttachResponse_def wire_DisconnectResponse_def wire_NextResponse_def
  wire_PauseResponse_def wire_StepInResponse_def wire_StepOutResponse_def wire_BreakpointLocationsResponse_def
  wire_SetBreakpointsResponse_def wire_SetFunctionBreakpointsResponse_def wire_ContinueResponse_def
  wire_ThreadsResponse_def wire_ScopesResponse_def wire_StackTraceResponse_def wire_VariablesResponse_def
  wire_RunInTerminalResponse_def wire_SourceResponse_def wire_EvaluateResponse_def

lemmas request_from_defs =
  CancelRequest_From_def InitializeRequest_From_def ConfigurationDoneRequest_From_def LaunchRequest_From_def
  AttachRequest_From_def DisconnectRequest_From_def BreakpointLocationsRequest_From_def
  SetBreakpointsRequest_From_def SetFunctionBreakpointsRequest_From_def ContinueRequest_From_def
  StepRequest_From_def StepInRequest_From_def StepOutRequest_From_def NextRequest_From_def
  ThreadsRequest_From_def ScopesRequest_From_def StackTraceRequest_From_def VariablesRequest_From_def
  PauseRequest_From_def RunInTerminalRequest_From_def SourceRequest_From_def EvaluateRequest_From_def

lemmas event_from_defs =
  InitializedEvent_From_def StoppedEvent_From_def ContinuedEvent_From_def ExitedEvent_From_def
  TerminatedEvent_From_def ThreadEvent_From_def OutputEvent_From_def BreakpointEvent_From_def
  ProcessEvent_From_def ModuleEvent_From_def DebugpyWaitingForServerEvent_From_def

lemmas response_from_defs =
  CancelResponse_From_def InitializeResponse_From_def EmptyAckResponse_From_def
  ConfigurationDoneResponse_From_def LaunchResponse_From_def AttachResponse_From_def
  DisconnectResponse_From_def NextResponse_From_def PauseResponse_From_def StepInResponse_From_def
  StepOutResponse_From_def BreakpointLocationsResponse_From_def SetBreakpointsResponse_From_def
  SetFunctionBreakpointsResponse_From_def ContinueResponse_From_def ThreadsResponse_From_def
  ScopesResponse_From_def StackTraceResponse_From_def VariablesResponse_From_def
  RunInTerminalResponse_From_def SourceResponse_From_def EvaluateResponse_From_def

lemma From_reparsed [simp]:
  "RequestMsg_From (reparsed j) r = RequestMsg_From j r"
  "EventMsg_From (reparsed j) e = EventMsg_From j e"
  "ResponseMsg_From (reparsed j) s = ResponseMsg_From j s"
  "Message_From (reparsed j) m = Message_From j m"
proof -
  show a: "RequestMsg_From (reparsed j) r = RequestMsg_From j r" for r by (cases r) simp_all
  show b: "EventMsg_From (reparsed j) e = EventMsg_From j e" for e by (cases e) simp_all
  show c: "ResponseMsg_From (reparsed j) s = ResponseMsg_From j s" for s by (cases s) simp_all
  show "Message_From (reparsed j) m = Message_From j m" by (cases m) (simp_all add: a b c)
qed

lemma FromJSON_reparsed [simp]: "FromJSON g (reparsed j) = FromJSON g j"
  by (simp add: FromJSON_def Let_def split: option.split)

lemma msg_object [simp]: "IsObject (RequestMsg_To r)" "IsObject (EventMsg_To e)" "IsObject (ResponseMsg_To s)"
proof -
  show "IsObject (RequestMsg_To r)" by (cases r) simp_all
  show "IsObject (EventMsg_To e)" by (cases e) simp_all
  show "IsObject (ResponseMsg_To s)" by (cases s) simp_all
qed

lemma msg_doc:
  "ints_RequestMsg r \<Longrightarrow> doc None (RequestMsg_To r)"
  "ints_EventMsg e \<Longrightarrow> doc None (EventMsg_To e)"
  "ints_ResponseMsg s \<Longrightarrow> doc None (ResponseMsg_To s)"
proof -
  show "ints_RequestMsg r \<Longrightarrow> doc None (RequestMsg_To r)" by (cases r) (simp_all add: doc_intros)
  show "ints_EventMsg e \<Longrightarrow> doc None (EventMsg_To e)" by (cases e) (simp_all add: doc_intros)
  show "ints_ResponseMsg s \<Longrightarrow> doc None (ResponseMsg_To s)" by (cases s) (simp_all add: doc_intros)
qed

lemma wire_ints:
  "wire_RequestMsg r \<Longrightarrow> ints_RequestMsg r" "wire_EventMsg e \<Longrightarrow> ints_EventMsg e"
  "wire_ResponseMsg s \<Longrightarrow> ints_ResponseMsg s"
proof -
  show "wire_RequestMsg r \<Longrightarrow> ints_RequestMsg r"
    by (cases r) (simp_all add: wire_defs)
  show "wire_EventMsg e \<Longrightarrow> ints_EventMsg e"
    by (cases e) (simp_all add: wire_defs)
  show "wire_ResponseMsg s \<Longrightarrow> ints_ResponseMsg s"
    by (cases s) (simp_all add: wire_defs)
qed

lemma msg_back:
  "wire_RequestMsg r \<Longrightarrow> RequestMsg_From (RequestMsg_To r) (fresh_RequestMsg r) = r"
  "wire_EventMsg e \<Longrightarrow> EventMsg_From (EventMsg_To e) (fresh_EventMsg e) = e"
  "wire_ResponseMsg s \<Longrightarrow> ResponseMsg_From (ResponseMsg_To s) (fresh_ResponseMsg s) = s"
proof -
  show "wire_RequestMsg r \<Longrightarrow> RequestMsg_From (RequestMsg_To r) (fresh_RequestMsg r) = r"
    by (cases r) (simp_all add: msg_roundtrip)
  show "wire_EventMsg e \<Longrightarrow> EventMsg_From (EventMsg_To e) (fresh_EventMsg e) = e"
    by (cases e) (simp_all add: msg_roundtrip)
  show "wire_ResponseMsg s \<Longrightarrow> ResponseMsg_From (ResponseMsg_To s) (fresh_ResponseMsg s) = s"
    by (cases s) (simp_all add: msg_roundtrip)
qed

lemma Request_heads:
  "GetString (Json_at (RequestMsg_To r) ''type'') d = c_str (ProtocolMessage_type (as_Request r))"
  "GetString (Json_at (RequestMsg_To r) ''command'') d = c_str (Request_command (as_Request r))"
  by (cases r; simp add: msg_head Request.defs)+

lemma Event_heads:
  "GetString (Json_at (EventMsg_To e) ''type'') d = c_str (ProtocolMessage_type (as_Event e))"
  "GetString (Json_at (EventMsg_To e) ''event'') d = c_str (Event_event (as_Event e))"
  by (cases e; simp add: msg_head Event.defs)+

lemma Response_heads:
  "GetString (Json_at (ResponseMsg_To s) ''type'') d = c_str (ProtocolMessage_type (as_Response s))"
  "GetString (Json_at (ResponseMsg_To s) ''command'') d = c_str (Response_command (as_Response s))"
  by (cases s; simp add: msg_head Response.defs)+

text \<open>Every class that \<^verbatim>\<open>Initialize\<close> constructs is found under the name it puts into its messages.\<close>

definition Request_name :: "RequestMsg \<Rightarrow> string" where
  "Request_name r = Request_command (as_Request (fresh_RequestMsg r))"

definition Event_name :: "EventMsg \<Rightarrow> string" where
  "Event_name e = Event_event (as_Event (fresh_EventMsg e))"

definition Response_name :: "ResponseMsg \<Rightarrow> string" where
  "Response_name s = Response_command (as_Response (fresh_ResponseMsg s))"

fun is_VariablesRequest :: "RequestMsg \<Rightarrow> bool" where
  "is_VariablesRequest (MVariablesRequest m) = True"
| "is_VariablesRequest _ = False"

lemma Request_names [simp]:
  "Request_name (MCancelRequest m1) = ''cancel''"
  "Request_name (MInitializeRequest m2) = ''initialize''"
  "Request_name (MConfigurationDoneRequest m3) = ''configurationDone''"
  "Request_name (MLaunchRequest m4) = ''launch''"
  "Request_name (MAttachRequest m5) = ''attach''"
  "Request_name (MDisconnectRequest m6) = ''disconnect''"
  "Request_name (MBreakpointLocationsRequest m7) = ''breakpointLocations''"
  "Request_name (MSetBreakpointsRequest m8) = ''setBreakpoints''"
  "Request_name (MSetFunctionBreakpointsRequest m9) = ''setFunctionBreakpoints''"
  "Request_name (MContinueRequest m10) = ''continue''"
  "Request_name (MStepRequest m11) = ''step''"
  "Request_name (MStepInRequest m12) = ''stepIn''"
  "Request_name (MStepOutRequest m13) = ''stepOut''"
  "Request_name (MNextRequest m14) = ''next''"
  "Request_name (MThreadsRequest m15) = ''threads''"
  "Request_name (MScopesRequest m16) = ''scopes''"
  "Request_name (MStackTraceRequest m17) = ''stackTrace''"
  "Request_name (MVariablesRequest m18) = ''variables''"
  "Request_name (MPauseRequest m19) = ''pause''"
  "Request_name (MRunInTerminalRequest m20) = ''runInTerminal''"
  "Request_name (MSourceRequest m21) = ''source''"
  "Request_name (MEvaluateRequest m22) = ''evaluate''"
  by (simp_all add: Request_name_def Request.defs request_new_defs)

lemma Event_names [simp]:
  "Event_name (MInitializedEvent m1) = ''initialized''"
  "Event_name (MStoppedEvent m2) = ''stopped''"
  "Event_name (MContinuedEvent m3) = ''continued''"
  "Event_name (MExitedEvent m4) = ''exited''"
  "Event_name (MTerminatedEvent m5) = ''terminated''"
  "Event_name (MThreadEvent m6) = ''thread''"
  "Event_name (MOutputEvent m7) = ''output''"
  "Event_name (MBreakpointEvent m8) = ''breakpoint''"
  "Event_name (MProcessEvent m9) = ''process''"
  "Event_name (MModuleEvent m10) = ''module''"
  "Event_name (MDebugpyWaitingForServerEvent m11) = []"
  by (simp_all add: Event_name_def Event.defs event_new_defs)

lemma Response_names [simp]:
  "Response_name (MCancelResponse m1) = ''cancel''"
  "Response_name (MInitializeResponse m2) = ''initialize''"
  "Response_name (MEmptyAckResponse m3) = []"
  "Response_name (MConfigurationDoneResponse m4) = ''configurationDone''"
  "Response_name (MLaunchResponse m5) = ''launch''"
  "Response_name (MAttachResponse m6) = ''attach''"
  "Response_name (MDisconnectResponse m7) = ''disconnect''"
  "Response_name (MNextResponse m8) = ''next''"
  "Response_name (MPauseResponse m9) = ''pause''"
  "Response_name (MStepInResponse m10) = ''stepIn''"
  "Response_name (MStepOutResponse m11) = ''stepOut''"
  "Response_name (MBreakpointLocationsResponse m12) = ''breakpointLocations''"
  "Response_name (MSetBreakpointsResponse m13) = ''setBreakpoints''"
  "Response_name (MSetFunctionBreakpointsResponse m14) = ''setFunctionBreakpoints''"
  "Response_name (MContinueResponse m15) = ''continue''"
  "Response_name (MThreadsResponse m16) = ''threads''"
  "Response_name (MScopesResponse m17) = ''scopes''"
  "Response_name (MStackTraceResponse m18) = ''stackTrace''"
  "Response_name (MVariablesResponse m19) = ''variables''"
  "Response_name (MRunInTerminalResponse m20) = ''runInTerminal''"
  "Response_name (MSourceResponse m21) = ''source''"
  "Response_name (MEvaluateResponse m22) = ''evaluate''"
  by (simp_all add: Response_name_def Response.defs response_new_defs)

lemma request_pool:
  "\<not> is_VariablesRequest r \<Longrightarrow> m_requests registered (Request_name r) = Some (MRequest (fresh_RequestMsg r))"
  by (cases r) (simp_all add: registered_pools request_registrations_def)

lemma event_pool: "m_events registered (Event_name e) = Some (MEvent (fresh_EventMsg e))"
  by (cases e) (simp_all add: registered_pools event_registrations_def)

lemma response_pool: "m_responses registered (Response_name s) = Some (MResponse (fresh_ResponseMsg s))"
  by (cases s) (simp_all add: registered_pools response_registrations_def)

lemma names_no_nul [simp]: "no_nul (Request_name r)" "no_nul (Event_name e)" "no_nul (Response_name s)"
proof -
  show "no_nul (Request_name r)"
    by (cases r) (simp_all add: NUL_def)
  show "no_nul (Event_name e)"
    by (cases e) (simp_all add: NUL_def)
  show "no_nul (Response_name s)"
    by (cases s) (simp_all add: NUL_def)
qed

text \<open>
  A message as its class makes it: type and name as the constructor set them, the other members
  such that they survive the trip, and a class that is registered.
\<close>

fun wire_ok :: "Message \<Rightarrow> bool" where
  "wire_ok (MRequest r) \<longleftrightarrow> wire_RequestMsg r \<and> \<not> is_VariablesRequest r \<and>
     ProtocolMessage_type (as_Request r) = ''request'' \<and> Request_command (as_Request r) = Request_name r"
| "wire_ok (MEvent e) \<longleftrightarrow> wire_EventMsg e \<and>
     ProtocolMessage_type (as_Event e) = ''event'' \<and> Event_event (as_Event e) = Event_name e"
| "wire_ok (MResponse s) \<longleftrightarrow> wire_ResponseMsg s \<and>
     ProtocolMessage_type (as_Response s) = ''response'' \<and> Response_command (as_Response s) = Response_name s"

lemma wire_ok_doc: "wire_ok m \<Longrightarrow> doc None (Message_To m)"
  by (cases m) (simp_all add: msg_doc wire_ints)

lemma wire_ok_FromJSON: "wire_ok m \<Longrightarrow> FromJSON registered (Message_To m) = Some m"
proof (cases m)
  case (MRequest r)
  assume "wire_ok m"
  with MRequest show ?thesis
    by (simp add: FromJSON_def Let_def Request_heads ObjGenerator_New_def New_from_pool_def request_pool msg_back
        msg_simps)
next
  case (MEvent e)
  assume "wire_ok m"
  with MEvent show ?thesis
    by (simp add: FromJSON_def Let_def Event_heads ObjGenerator_New_def New_from_pool_def event_pool msg_back
        msg_simps)
next
  case (MResponse s)
  assume "wire_ok m"
  with MResponse show ?thesis
    by (simp add: FromJSON_def Let_def Response_heads ObjGenerator_New_def New_from_pool_def response_pool msg_back
        msg_simps)
qed

section \<open>What the dispatch makes of a received tree\<close>

fun ints_Message :: "Message \<Rightarrow> bool" where
  "ints_Message (MRequest r) = ints_RequestMsg r"
| "ints_Message (MEvent e) = ints_EventMsg e"
| "ints_Message (MResponse s) = ints_ResponseMsg s"

lemma Message_From_ints: "ints_json j \<Longrightarrow> ints_Message m \<Longrightarrow> ints_Message (Message_From j m)"
proof -
  assume j: "ints_json j" and m: "ints_Message m"
  have "ints_RequestMsg r \<Longrightarrow> ints_RequestMsg (RequestMsg_From j r)" for r by (cases r) (simp_all add: ints_intros j)
  moreover have "ints_EventMsg e \<Longrightarrow> ints_EventMsg (EventMsg_From j e)" for e by (cases e) (simp_all add: ints_intros j)
  moreover have "ints_ResponseMsg s \<Longrightarrow> ints_ResponseMsg (ResponseMsg_From j s)" for s
    by (cases s) (simp_all add: ints_intros j)
  ultimately show ?thesis using m by (cases m) simp_all
qed

lemma Message_ToString_defined: "ints_Message m \<Longrightarrow> \<exists>p. Message_ToString m = Ok p"
  using ToString_doc [of "Message_To m" False] by (cases m) (auto simp: Message_ToString_def msg_doc)

lemma From_heads_request:
  "ProtocolMessage_type (as_Request (RequestMsg_From j r)) = GetString (Json_at j ''type'') []"
  "Request_command (as_Request (RequestMsg_From j r)) = GetString (Json_at j ''command'') []"
  by (cases r; simp add: request_from_defs msg_defs Request.defs Let_def)+

lemma From_heads_event:
  "ProtocolMessage_type (as_Event (EventMsg_From j e)) = GetString (Json_at j ''type'') []"
  "Event_event (as_Event (EventMsg_From j e)) = GetString (Json_at j ''event'') []"
  by (cases e; simp add: event_from_defs msg_defs Event.defs Let_def)+

lemma From_heads_response:
  "ProtocolMessage_type (as_Response (ResponseMsg_From j s)) = GetString (Json_at j ''type'') []"
  "Response_command (as_Response (ResponseMsg_From j s)) = GetString (Json_at j ''command'') []"
  "Response_request_seq (as_Response (ResponseMsg_From j s)) = GetInteger (Json_at j ''request_seq'') (-1)"
  "Response_success (as_Response (ResponseMsg_From j s)) = GetBool (Json_at j ''success'') False"
  by (cases s; simp add: response_from_defs msg_defs Response.defs Let_def)+

lemmas From_heads = From_heads_request From_heads_event From_heads_response

text \<open>A pool holds only messages of its kind, with members in range.\<close>

lemma pool_kinds:
  "m_requests registered k = Some m \<Longrightarrow> \<exists>r. m = MRequest r \<and> ints_RequestMsg r"
  "m_events registered k = Some m \<Longrightarrow> \<exists>e. m = MEvent e \<and> ints_EventMsg e"
  "m_responses registered k = Some m \<Longrightarrow> \<exists>s. m = MResponse s \<and> ints_ResponseMsg s"
proof -
  have "\<forall>(k, m)\<in>set request_registrations. \<exists>r. m = MRequest r \<and> ints_RequestMsg r"
    by (simp add: request_registrations_def)
  then show "m_requests registered k = Some m \<Longrightarrow> \<exists>r. m = MRequest r \<and> ints_RequestMsg r"
    by (auto simp: registered_pools dest: map_of_SomeD)
  have "\<forall>(k, m)\<in>set event_registrations. \<exists>e. m = MEvent e \<and> ints_EventMsg e"
    by (simp add: event_registrations_def)
  then show "m_events registered k = Some m \<Longrightarrow> \<exists>e. m = MEvent e \<and> ints_EventMsg e"
    by (auto simp: registered_pools dest: map_of_SomeD)
  have "\<forall>(k, m)\<in>set response_registrations. \<exists>s. m = MResponse s \<and> ints_ResponseMsg s"
    by (simp add: response_registrations_def)
  then show "m_responses registered k = Some m \<Longrightarrow> \<exists>s. m = MResponse s \<and> ints_ResponseMsg s"
    by (auto simp: registered_pools dest: map_of_SomeD)
qed

text \<open>What \<^verbatim>\<open>FromJSON\<close> answers, by the members of the tree.\<close>

lemma FromJSON_cases:
  assumes "FromJSON registered j = Some m"
  obtains (Request) r where "m = MRequest (RequestMsg_From j r)" "ints_RequestMsg r"
      "GetString (Json_at j ''type'') [] = ''request''" "m_requests registered (GetString (Json_at j ''command'') []) = Some (MRequest r)"
    | (Event) e where "m = MEvent (EventMsg_From j e)" "ints_EventMsg e"
      "GetString (Json_at j ''type'') [] = ''event''" "m_events registered (GetString (Json_at j ''event'') []) = Some (MEvent e)"
    | (Response) s where "m = MResponse (ResponseMsg_From j s)" "ints_ResponseMsg s"
      "GetString (Json_at j ''type'') [] = ''response''" "m_responses registered (GetString (Json_at j ''command'') []) = Some (MResponse s)"
  using assms
  by (auto simp: FromJSON_def ObjGenerator_New_def New_from_pool_def Let_def split: if_splits option.splits dest: pool_kinds)

lemma FromJSON_ints: "FromJSON registered j = Some m \<Longrightarrow> ints_json j \<Longrightarrow> ints_Message m"
proof (elim FromJSON_cases)
  fix r assume "m = MRequest (RequestMsg_From j r)" "ints_RequestMsg r" "ints_json j"
  then show ?thesis using Message_From_ints [of j "MRequest r"] by simp
next
  fix e assume "m = MEvent (EventMsg_From j e)" "ints_EventMsg e" "ints_json j"
  then show ?thesis using Message_From_ints [of j "MEvent e"] by simp
next
  fix s assume "m = MResponse (ResponseMsg_From j s)" "ints_ResponseMsg s" "ints_json j"
  then show ?thesis using Message_From_ints [of j "MResponse s"] by simp
qed

end
