(* ===== verification/Dap_Objects.thy ===== *)
theory Dap_Objects
  imports Dap_ObjGenerator
begin

text \<open>
  Objects of the classes of \<^verbatim>\<open>dap/dap.hpp\<close>: what their constructors do to the generator, and their equality and
  hashes.
\<close>

section \<open>Constructors\<close>

text \<open>
  The macros \<^verbatim>\<open>REQUEST_CLASS\<close>, \<^verbatim>\<open>EVENT_CLASS\<close> and \<^verbatim>\<open>RESPONSE_CLASS\<close>: every constructor registers its class, after the
  constructor of its base class has registered that one.
\<close>

fun request_bases :: "RequestMsg \<Rightarrow> (string \<times> Message) list" where
  "request_bases (MStepInRequest m) = [(''step'', MRequest (MStepRequest new_StepRequest))]"
| "request_bases (MStepOutRequest m) = [(''step'', MRequest (MStepRequest new_StepRequest))]"
| "request_bases _ = []"

fun response_bases :: "ResponseMsg \<Rightarrow> (string \<times> Message) list" where
  "response_bases (MConfigurationDoneResponse m) = [([], MResponse (MEmptyAckResponse new_EmptyAckResponse))]"
| "response_bases (MLaunchResponse m) = [([], MResponse (MEmptyAckResponse new_EmptyAckResponse))]"
| "response_bases (MAttachResponse m) = [([], MResponse (MEmptyAckResponse new_EmptyAckResponse))]"
| "response_bases (MDisconnectResponse m) = [([], MResponse (MEmptyAckResponse new_EmptyAckResponse))]"
| "response_bases (MNextResponse m) = [([], MResponse (MEmptyAckResponse new_EmptyAckResponse))]"
| "response_bases (MPauseResponse m) = [([], MResponse (MEmptyAckResponse new_EmptyAckResponse))]"
| "response_bases (MSetFunctionBreakpointsResponse m) = [(''setBreakpoints'', MResponse (MSetBreakpointsResponse new_SetBreakpointsResponse))]"
| "response_bases _ = []"

definition REQUEST_CLASS :: "RequestMsg \<Rightarrow> ObjGenerator \<Rightarrow> ObjGenerator" where
  "REQUEST_CLASS r g = foldl (\<lambda>g (k, f). RegisterRequest k f g) g (request_bases r @ [(Request_name r, MRequest (fresh_RequestMsg r))])"

definition EVENT_CLASS :: "EventMsg \<Rightarrow> ObjGenerator \<Rightarrow> ObjGenerator" where
  "EVENT_CLASS e g = RegisterEvent (Event_name e) (MEvent (fresh_EventMsg e)) g"

definition RESPONSE_CLASS :: "ResponseMsg \<Rightarrow> ObjGenerator \<Rightarrow> ObjGenerator" where
  "RESPONSE_CLASS s g = foldl (\<lambda>g (k, f). RegisterResponse k f g) g (response_bases s @ [(Response_name s, MResponse (fresh_ResponseMsg s))])"

fun construct :: "Message \<Rightarrow> ObjGenerator \<Rightarrow> ObjGenerator" where
  "construct (MRequest r) g = REQUEST_CLASS r g"
| "construct (MEvent e) g = EVENT_CLASS e g"
| "construct (MResponse s) g = RESPONSE_CLASS s g"

text \<open>The generator once it has met the one class that \<^verbatim>\<open>dap::Initialize\<close> leaves out.\<close>

definition with_variables :: ObjGenerator where
  "with_variables = RegisterRequest ''variables'' (MRequest (MVariablesRequest new_VariablesRequest)) registered"

fun is_variables :: "Message \<Rightarrow> bool" where
  "is_variables (MRequest r) = is_VariablesRequest r"
| "is_variables _ = False"

lemma Register_known:
  "m_requests g k \<noteq> None \<Longrightarrow> RegisterRequest k f g = g"
  "m_events g k \<noteq> None \<Longrightarrow> RegisterEvent k f g = g"
  "m_responses g k \<noteq> None \<Longrightarrow> RegisterResponse k f g = g"
  by (auto simp: RegisterRequest_def RegisterEvent_def RegisterResponse_def pool_insert_def)

lemma request_known: "\<not> is_VariablesRequest r \<Longrightarrow> m_requests registered (Request_name r) \<noteq> None"
  by (cases r) (simp_all add: registered_pools request_registrations_def)

lemma event_known: "m_events registered (Event_name e) \<noteq> None"
  by (cases e) (simp_all add: registered_pools event_registrations_def)

lemma response_known: "m_responses registered (Response_name s) \<noteq> None"
  by (cases s) (simp_all add: registered_pools response_registrations_def)

lemma base_known: "m_requests registered ''step'' \<noteq> None" "m_responses registered [] \<noteq> None" "m_responses registered ''setBreakpoints'' \<noteq> None"
  by (simp_all add: registered_pools request_registrations_def response_registrations_def)

text \<open>After \<^verbatim>\<open>Initialize\<close>, only an object of the class \<^verbatim>\<open>VariablesRequest\<close> changes the generator: from then on it knows that class too.\<close>

lemma construct_registered: "construct m registered = (if is_variables m then with_variables else registered)"
proof (cases m)
  case (MRequest r)
  then show ?thesis using request_known [of r] base_known(1)
    by (cases r) (simp_all add: REQUEST_CLASS_def Register_known with_variables_def)
next
  case (MEvent e)
  then show ?thesis using event_known [of e] by (simp add: EVENT_CLASS_def Register_known)
next
  case (MResponse s)
  then show ?thesis using response_known [of s] base_known(2,3) by (cases s) (simp_all add: RESPONSE_CLASS_def Register_known)
qed

lemma with_variables_pools:
  "m_requests with_variables = (m_requests registered)(''variables'' \<mapsto> MRequest (MVariablesRequest new_VariablesRequest))"
  "m_events with_variables = m_events registered" "m_responses with_variables = m_responses registered"
  by (simp_all add: with_variables_def RegisterRequest_def pool_insert_def registered_pools request_registrations_def)

lemma construct_with_variables: "construct m with_variables = with_variables"
proof (cases m)
  case (MRequest r)
  have "m_requests with_variables (Request_name r) \<noteq> None" "m_requests with_variables ''step'' \<noteq> None"
    using request_known [of r] base_known(1) by (cases r; simp add: with_variables_pools)+
  then show ?thesis using MRequest by (cases r) (simp_all add: REQUEST_CLASS_def Register_known)
next
  case (MEvent e)
  then show ?thesis using event_known [of e] by (simp add: EVENT_CLASS_def Register_known with_variables_pools)
next
  case (MResponse s)
  then show ?thesis using response_known [of s] base_known(2,3) by (cases s) (simp_all add: RESPONSE_CLASS_def Register_known with_variables_pools)
qed

text \<open>The generator after any objects have been made.\<close>

lemma constructed: "fold construct ms registered = (if list_ex is_variables ms then with_variables else registered)"
proof -
  have "fold construct ms with_variables = with_variables" for ms by (induction ms) (simp_all add: construct_with_variables)
  then show ?thesis by (induction ms) (simp_all add: construct_registered)
qed

text \<open>What it reads, it reads as before; in addition it reads \<^verbatim>\<open>variables\<close>.\<close>

lemma FromJSON_with_variables:
  "FromJSON with_variables json =
     (if IsOK json \<and> GetString (Json_at json ''type'') [] = ''request'' \<and> GetString (Json_at json ''command'') [] = ''variables''
      then Some (MRequest (MVariablesRequest (VariablesRequest_From json new_VariablesRequest))) else FromJSON registered json)"
  by (simp add: FromJSON_def ObjGenerator_New_def New_from_pool_def with_variables_pools Let_def)

lemma with_variables_reads:
  assumes "wire_RequestMsg r" "ProtocolMessage_type (as_Request r) = ''request''" "Request_command (as_Request r) = Request_name r"
  shows "FromJSON with_variables (RequestMsg_To r) = Some (MRequest r)"
proof (cases r)
  case (MVariablesRequest m)
  then show ?thesis using assms Request_heads [of r] msg_back(1) [of r]
    by (simp add: FromJSON_with_variables NUL_def)
qed (use assms wire_ok_FromJSON [of "MRequest r"] Request_heads [of r] in \<open>simp add: FromJSON_with_variables NUL_def\<close>)+

section \<open>Equality and hashes\<close>

definition Source_eq :: "Source \<Rightarrow> Source \<Rightarrow> bool" where
  "Source_eq m other \<longleftrightarrow> Source_name m = Source_name other \<and> Source_path m = Source_path other \<and>
     Source_sourceReference m = Source_sourceReference other"

definition SourceBreakpoint_eq :: "SourceBreakpoint \<Rightarrow> SourceBreakpoint \<Rightarrow> bool" where
  "SourceBreakpoint_eq m other \<longleftrightarrow> SourceBreakpoint_line m = SourceBreakpoint_line other"

definition FunctionBreakpoint_eq :: "FunctionBreakpoint \<Rightarrow> FunctionBreakpoint \<Rightarrow> bool" where
  "FunctionBreakpoint_eq m other \<longleftrightarrow> FunctionBreakpoint_name m = FunctionBreakpoint_name other"

text \<open>The specialisations of \<^verbatim>\<open>std::hash\<close>; those of numbers and strings are the library's.\<close>

definition Breakpoint_hash :: "(string \<Rightarrow> nat) \<Rightarrow> Breakpoint \<Rightarrow> nat" where
  "Breakpoint_hash hash b = hash (Source_path (Breakpoint_source b) @ Source_name (Breakpoint_source b) @ show_int (Breakpoint_line b))"

definition SourceBreakpoint_hash :: "(64 word \<Rightarrow> nat) \<Rightarrow> SourceBreakpoint \<Rightarrow> nat" where
  "SourceBreakpoint_hash hash b = hash (word_of_int (SourceBreakpoint_line b))"

definition FunctionBreakpoint_hash :: "(string \<Rightarrow> nat) \<Rightarrow> FunctionBreakpoint \<Rightarrow> nat" where
  "FunctionBreakpoint_hash hash b = hash (FunctionBreakpoint_name b)"

text \<open>The contract of an unordered container: an equivalence, with equal hashes for equal objects.\<close>

locale hashed =
  fixes eq :: "'a \<Rightarrow> 'a \<Rightarrow> bool" and hash :: "'a \<Rightarrow> nat"
  assumes eq_refl: "eq x x" and eq_sym: "eq x y \<Longrightarrow> eq y x" and eq_trans: "eq x y \<Longrightarrow> eq y z \<Longrightarrow> eq x z"
    and eq_hash: "eq x y \<Longrightarrow> hash x = hash y"
begin

text \<open>Looking in the bucket of its hash finds an object exactly when an equal one is in the container.\<close>

lemma find_in_bucket: "(\<exists>y\<in>set (filter (\<lambda>y. hash y = hash x) xs). eq x y) \<longleftrightarrow> (\<exists>y\<in>set xs. eq x y)"
  using eq_hash by fastforce

end

interpretation source_breakpoint: hashed SourceBreakpoint_eq "SourceBreakpoint_hash hash" for hash
  by unfold_locales (simp_all add: SourceBreakpoint_eq_def SourceBreakpoint_hash_def)

interpretation function_breakpoint: hashed FunctionBreakpoint_eq "FunctionBreakpoint_hash hash" for hash
  by unfold_locales (simp_all add: FunctionBreakpoint_eq_def FunctionBreakpoint_hash_def)

text \<open>
  \<^verbatim>\<open>Breakpoint\<close> does not keep the contract: equal breakpoints are hashed by different texts, and equality is not transitive.
\<close>

definition at_line :: "string \<Rightarrow> int \<Rightarrow> int \<Rightarrow> Breakpoint" where
  "at_line p l r = new_Breakpoint \<lparr>Breakpoint_line := l, Breakpoint_source := new_Source \<lparr>Source_path := p, Source_sourceReference := r\<rparr>\<rparr>"

lemma Breakpoint_not_hashed:
  "Breakpoint_eq (at_line ''a'' 1 0) (at_line ''b'' 2 0) \<and>
   (Breakpoint_hash hash (at_line ''a'' 1 0) = Breakpoint_hash hash (at_line ''b'' 2 0) \<longleftrightarrow> hash ''a1'' = hash ''b2'')"
  "Breakpoint_eq (at_line ''a'' 1 5) (at_line ''a'' 1 0) \<and> Breakpoint_eq (at_line ''a'' 1 0) (at_line ''b'' 2 0) \<and>
   \<not> Breakpoint_eq (at_line ''a'' 1 5) (at_line ''b'' 2 0)"
proof -
  have "show_int 1 = ''1''" "show_int 2 = ''2''" by code_simp+
  then show "Breakpoint_eq (at_line ''a'' 1 0) (at_line ''b'' 2 0) \<and>
   (Breakpoint_hash hash (at_line ''a'' 1 0) = Breakpoint_hash hash (at_line ''b'' 2 0) \<longleftrightarrow> hash ''a1'' = hash ''b2'')"
    by (simp add: Breakpoint_eq_def Breakpoint_hash_def at_line_def new_Breakpoint_def new_Source_def)
qed (simp add: Breakpoint_eq_def at_line_def new_Breakpoint_def new_Source_def)

end
