(* ===== verification/Dap_Log.thy ===== *)
theory Dap_Log
  imports Dap_StringUtils
begin

text \<open>
  The logger of \<^verbatim>\<open>dap/Log.cpp\<close> and \<^verbatim>\<open>dap/Log.hpp\<close>: the static settings, the object that a log statement creates, and the
  texts it writes.  The text of the clock (\<^verbatim>\<open>ctime\<close>) and which files can be opened are arguments; what is written to
  the standard output and to the files is the state of the outside.
\<close>

section \<open>Settings\<close>

definition Log_System :: int where "Log_System = -1"
definition Log_Error :: int where "Log_Error = 0"
definition Log_Warning :: int where "Log_Warning = 1"
definition Log_Info :: int where "Log_Info = 2"
definition Log_Dbg :: int where "Log_Dbg = 3"
definition Log_Developer :: int where "Log_Developer = 4"

lemmas log_levels = Log_System_def Log_Error_def Log_Warning_def Log_Info_def Log_Dbg_def Log_Developer_def

record log_settings =
  m_verbosity :: int
  m_logfile :: string
  m_useStdout :: bool

definition log_settings_init :: log_settings where
  "log_settings_init = \<lparr>m_verbosity = Log_Error, m_logfile = [], m_useStdout = False\<rparr>"

record log_sinks =
  to_stdout :: string
  to_file :: "string \<Rightarrow> string"

definition OpenLog :: "string \<Rightarrow> int \<Rightarrow> log_settings \<Rightarrow> log_settings" where
  "OpenLog fullpath verbosity g = g \<lparr>m_logfile := fullpath, m_verbosity := verbosity, m_useStdout := False\<rparr>"

definition OpenStdout :: "int \<Rightarrow> log_settings \<Rightarrow> log_settings" where
  "OpenStdout verbosity g = g \<lparr>m_logfile := [], m_useStdout := True, m_verbosity := verbosity\<rparr>"

definition GetVerbosityAsNumber :: "string \<Rightarrow> int" where
  "GetVerbosityAsNumber verbosity =
     (if verbosity = ''Debug'' then Log_Dbg
      else if verbosity = ''Error'' then Log_Error
      else if verbosity = ''Warning'' then Log_Warning
      else if verbosity = ''System'' then Log_System
      else if verbosity = ''Developer'' then Log_Developer
      else if verbosity = ''Info'' then Log_Info
      else Log_Error)"

definition GetVerbosityAsString :: "int \<Rightarrow> string" where
  "GetVerbosityAsString verbosity =
     (if verbosity = Log_Dbg then ''Debug''
      else if verbosity = Log_Error then ''Error''
      else if verbosity = Log_Warning then ''Warning''
      else if verbosity = Log_Developer then ''Developer''
      else if verbosity = Log_Info then ''Info''
      else ''Error'')"

section \<open>Prefix\<close>

definition colour :: "string \<Rightarrow> string" where
  "colour code = CHR 0x1B # ''['' @ code @ ''m''"

definition GetColour :: "log_settings \<Rightarrow> int \<Rightarrow> string" where
  "GetColour g verbo =
     (if \<not> m_useStdout g then []
      else if verbo = Log_Info then colour ''32''
      else if verbo = Log_System then colour ''96''
      else if verbo = Log_Error then colour ''31''
      else if verbo = Log_Warning then colour ''93''
      else if verbo = Log_Dbg then colour ''96''
      else colour ''37'')"

definition GetColourEnd :: "log_settings \<Rightarrow> string" where
  "GetColourEnd g = (if \<not> m_useStdout g then [] else colour ''0'')"

definition level_tag :: "int \<Rightarrow> string option" where
  "level_tag verbosity =
     (if verbosity = Log_Info then Some '' [ INFO ]''
      else if verbosity = Log_System then Some '' [ SYSTEM ]''
      else if verbosity = Log_Error then Some '' [ ERROR ]''
      else if verbosity = Log_Warning then Some '' [ WARNING ]''
      else if verbosity = Log_Dbg then Some '' [ DEBUG ]''
      else if verbosity = Log_Developer then Some '' [ TRACE ]''
      else None)"

definition Prefix :: "string \<Rightarrow> log_settings \<Rightarrow> int \<Rightarrow> string" where
  "Prefix ctime g verbosity =
     (if verbosity \<le> m_verbosity g then
        (case level_tag verbosity of
           None \<Rightarrow> []
         | Some tag \<Rightarrow> ''['' @ wxTrim ctime @ ''] '' @ GetColour g verbosity @ tag @ GetColourEnd g) @ '' ''
      else [])"

section \<open>A log object\<close>

record Log =
  m_requestedLogLevel :: int
  log_buffer :: string

definition new_Log :: "int \<Rightarrow> Log" where
  "new_Log requestedVerbo = \<lparr>m_requestedLogLevel = requestedVerbo, log_buffer = []\<rparr>"

text \<open>\<^verbatim>\<open>Append(elem, level)\<close>, also \<^verbatim>\<open>operator<<\<close> of a string with the level that was requested.\<close>

definition Log_Append :: "log_settings \<Rightarrow> string \<Rightarrow> int \<Rightarrow> Log \<Rightarrow> Log" where
  "Log_Append g elem level l =
     (if level > m_verbosity g then l
      else l \<lparr>log_buffer := (if log_buffer l \<noteq> [] then log_buffer l @ '' '' else log_buffer l) @ elem\<rparr>)"

definition Log_put :: "log_settings \<Rightarrow> string \<Rightarrow> Log \<Rightarrow> Log" where
  "Log_put g str l = Log_Append g str (m_requestedLogLevel l) l"

text \<open>The elements of a vector, each followed by a comma and a blank; the last two characters are removed.\<close>

definition vector_text :: "string list \<Rightarrow> string" where
  "vector_text arr = (let str = ''['' @ concat (map (\<lambda>s. s @ '', '') arr) in butlast (butlast str) @ '']'')"

definition Log_Append_vector :: "log_settings \<Rightarrow> string list \<Rightarrow> int \<Rightarrow> Log \<Rightarrow> Log" where
  "Log_Append_vector g arr level l =
     (if arr = [] then l else Log_Append g (vector_text arr) (m_requestedLogLevel l) l)"

definition AddLogLine :: "string \<Rightarrow> log_settings \<Rightarrow> string \<Rightarrow> int \<Rightarrow> Log \<Rightarrow> Log" where
  "AddLogLine ctime g msg verbosity l =
     (if msg = [] then l
      else if m_verbosity g \<ge> verbosity then
        l \<lparr>log_buffer := log_buffer l @ Prefix ctime g verbosity @ '' '' @ msg @ [CHR 0x0A]\<rparr>
      else l)"

text \<open>\<^verbatim>\<open>Flush\<close>: the file is opened for each flush and closed again; if it cannot be opened, the text is lost.\<close>

definition Flush :: "(string \<Rightarrow> bool) \<Rightarrow> log_settings \<Rightarrow> Log \<times> log_sinks \<Rightarrow> Log \<times> log_sinks" where
  "Flush can_open g lw =
     (case lw of (l, w) \<Rightarrow>
        if log_buffer l = [] then (l, w)
        else
          let text = log_buffer l @ [CHR 0x0A];
              w = (if m_useStdout g then w \<lparr>to_stdout := to_stdout w @ text\<rparr>
                   else if can_open (m_logfile g) then w \<lparr>to_file := (to_file w)(m_logfile g := to_file w (m_logfile g) @ text)\<rparr>
                   else w)
          in (l \<lparr>log_buffer := []\<rparr>, w))"

section \<open>A log statement\<close>

text \<open>\<^verbatim>\<open>LOG_ERROR() << x << y << endl\<close> and the like: the object is made, filled and destroyed.\<close>

datatype log_item = Text string | Vec "string list" | Endl

fun put_item :: "(string \<Rightarrow> bool) \<Rightarrow> log_settings \<Rightarrow> log_item \<Rightarrow> Log \<times> log_sinks \<Rightarrow> Log \<times> log_sinks" where
  "put_item can_open g (Text s) (l, w) = (Log_put g s l, w)"
| "put_item can_open g (Vec arr) (l, w) = (Log_Append_vector g arr (m_requestedLogLevel l) l, w)"
| "put_item can_open g Endl (l, w) = Flush can_open g (l, w)"

definition destroy_Log :: "(string \<Rightarrow> bool) \<Rightarrow> log_settings \<Rightarrow> Log \<times> log_sinks \<Rightarrow> log_sinks" where
  "destroy_Log can_open g lw = snd (Flush can_open g lw)"

definition log_statement :: "string \<Rightarrow> (string \<Rightarrow> bool) \<Rightarrow> log_settings \<Rightarrow> int \<Rightarrow> log_item list \<Rightarrow> log_sinks \<Rightarrow> log_sinks" where
  "log_statement ctime can_open g level items w =
     destroy_Log can_open g (fold (put_item can_open g) items (Log_put g (Prefix ctime g level) (new_Log level), w))"

text \<open>\<^verbatim>\<open>SetVerbosity\<close> announces a level above warnings, with the level that is in force before.\<close>

definition SetVerbosity :: "string \<Rightarrow> (string \<Rightarrow> bool) \<Rightarrow> int \<Rightarrow> log_settings \<Rightarrow> log_sinks \<Rightarrow> log_settings \<times> log_sinks" where
  "SetVerbosity ctime can_open level g w =
     (let w = (if level > Log_Warning then log_statement ctime can_open g Log_System [Text (GetVerbosityAsString level), Text []] w else w)
      in (g \<lparr>m_verbosity := level\<rparr>, w))"

definition SetVerbosity_string :: "string \<Rightarrow> (string \<Rightarrow> bool) \<Rightarrow> string \<Rightarrow> log_settings \<Rightarrow> log_sinks \<Rightarrow> log_settings \<times> log_sinks" where
  "SetVerbosity_string ctime can_open verbosity = SetVerbosity ctime can_open (GetVerbosityAsNumber verbosity)"

section \<open>What a statement writes\<close>

text \<open>The text of an item; \<open>None\<close> where nothing is appended.\<close>

fun item_text :: "log_item \<Rightarrow> string option" where
  "item_text (Text s) = Some s"
| "item_text (Vec arr) = (if arr = [] then None else Some (vector_text arr))"
| "item_text Endl = None"

definition write_text :: "(string \<Rightarrow> bool) \<Rightarrow> log_settings \<Rightarrow> string \<Rightarrow> log_sinks \<Rightarrow> log_sinks" where
  "write_text can_open g text w =
     (if m_useStdout g then w \<lparr>to_stdout := to_stdout w @ text\<rparr>
      else if can_open (m_logfile g) then w \<lparr>to_file := (to_file w)(m_logfile g := to_file w (m_logfile g) @ text)\<rparr> else w)"

lemma Flush_write: "Flush can_open g (l, w) = (if log_buffer l = [] then (l, w) else (l \<lparr>log_buffer := []\<rparr>, write_text can_open g (log_buffer l @ [CHR 0x0A]) w))"
  by (simp add: Flush_def write_text_def Let_def)

text \<open>Above the verbosity, the buffer stays empty.\<close>

lemma put_item_silent:
  assumes "m_requestedLogLevel l > m_verbosity g" "log_buffer l = []"
  shows "put_item can_open g i (l, w) = (l, w)"
  using assms by (cases i) (auto simp: Log_put_def Log_Append_def Log_Append_vector_def Flush_def)

lemma log_silent: "level > m_verbosity g \<Longrightarrow> log_statement ctime can_open g level items w = w"
proof -
  assume a: "level > m_verbosity g"
  have "fold (put_item can_open g) items (l, w) = (l, w)" if "m_requestedLogLevel l > m_verbosity g" "log_buffer l = []" for l
    using that by (induction items) (simp_all add: put_item_silent)
  from this [of "new_Log level"] show ?thesis using a
    by (simp add: log_statement_def destroy_Log_def Log_put_def Log_Append_def new_Log_def Flush_def)
qed

lemma Prefix_nonempty: "level \<le> m_verbosity g \<Longrightarrow> Prefix ctime g level \<noteq> []"
  by (simp add: Prefix_def split: option.split)

text \<open>At or below it, one line: the prefix and the texts with blanks between them.\<close>

lemma put_items_text:
  assumes "m_requestedLogLevel l \<le> m_verbosity g" "log_buffer l \<noteq> []" "Endl \<notin> set items"
  shows "fold (put_item can_open g) items (l, w) =
     (l \<lparr>log_buffer := log_buffer l @ concat (map (\<lambda>s. '' '' @ s) (List.map_filter item_text items))\<rparr>, w)"
  using assms
proof (induction items arbitrary: l)
  case (Cons i items)
  then show ?case
    by (cases i) (auto simp: Log_put_def Log_Append_def Log_Append_vector_def map_filter_simps)
qed (simp add: map_filter_simps)

lemma log_one_line:
  assumes "level \<le> m_verbosity g" "Endl \<notin> set items"
  shows "log_statement ctime can_open g level items w =
     write_text can_open g (Prefix ctime g level @ concat (map (\<lambda>s. '' '' @ s) (List.map_filter item_text items)) @ [CHR 0x0A]) w"
proof -
  let ?l = "\<lparr>m_requestedLogLevel = level, log_buffer = Prefix ctime g level\<rparr>"
  have "Log_put g (Prefix ctime g level) (new_Log level) = ?l" using assms(1) by (simp add: Log_put_def Log_Append_def new_Log_def)
  moreover have "fold (put_item can_open g) items (?l, w) =
      (?l \<lparr>log_buffer := log_buffer ?l @ concat (map (\<lambda>s. '' '' @ s) (List.map_filter item_text items))\<rparr>, w)"
    using assms Prefix_nonempty [OF assms(1)] by (intro put_items_text) simp_all
  ultimately show ?thesis using Prefix_nonempty [OF assms(1)] by (simp add: log_statement_def destroy_Log_def Flush_write)
qed

text \<open>Every statement writes to the sink that is selected, and only at its end.\<close>

lemma write_text_other:
  "m_useStdout g \<Longrightarrow> to_file (write_text can_open g t w) = to_file w"
  "\<not> m_useStdout g \<Longrightarrow> to_stdout (write_text can_open g t w) = to_stdout w"
  "\<not> m_useStdout g \<Longrightarrow> f \<noteq> m_logfile g \<Longrightarrow> to_file (write_text can_open g t w) f = to_file w f"
  by (simp_all add: write_text_def)

lemma vector_text_simps: "vector_text [s] = ''['' @ s @ '']''" "vector_text (s # t # ts) = ''['' @ s @ '', '' @ tl (vector_text (t # ts))"
proof -
  let ?c = "\<lambda>xs. concat (map (\<lambda>s. s @ '', '') xs)"
  have b: "butlast (butlast (x @ '', '')) = x" for x by (simp add: butlast_append)
  show "vector_text [s] = ''['' @ s @ '']''" using b [of "''['' @ s"] by (simp add: vector_text_def)
  obtain xs x where x: "t # ts = xs @ [x]" by (cases "t # ts" rule: rev_cases) auto
  have "?c (t # ts) = (?c xs @ x) @ '', ''" unfolding x by simp
  then obtain z where z: "?c (t # ts) = z @ '', ''" by blast
  have "vector_text (t # ts) = ''['' @ z @ '']''" unfolding vector_text_def Let_def z using b [of "''['' @ z"] by simp
  moreover have "?c (s # t # ts) = s @ '', '' @ ?c (t # ts)" by simp
  then have "vector_text (s # t # ts) = ''['' @ s @ '', '' @ z @ '']''"
    unfolding vector_text_def Let_def z using b [of "''['' @ s @ '', '' @ z"] by simp
  ultimately show "vector_text (s # t # ts) = ''['' @ s @ '', '' @ tl (vector_text (t # ts))" by simp
qed

text \<open>The names of the levels; \<^verbatim>\<open>System\<close> has none.\<close>

lemma verbosity_roundtrip: "Log_Error \<le> v \<Longrightarrow> v \<le> Log_Developer \<Longrightarrow> GetVerbosityAsNumber (GetVerbosityAsString v) = v"
proof -
  assume "Log_Error \<le> v" "v \<le> Log_Developer"
  then have "v \<in> {0, 1, 2, 3, 4}" by (auto simp: log_levels)
  then show ?thesis by (auto simp: GetVerbosityAsNumber_def GetVerbosityAsString_def log_levels)
qed

lemma verbosity_system: "GetVerbosityAsNumber (GetVerbosityAsString Log_System) = Log_Error"
  by (simp add: GetVerbosityAsNumber_def GetVerbosityAsString_def log_levels)

end
