(* ===== verification/Dap_Child.thy ===== *)
theory Dap_Child
  imports Dap_Prelude
begin

text \<open>
  The life of a child process on Unix (\<^verbatim>\<open>dap/UnixProcess.cpp\<close>, \<^verbatim>\<open>dap/UnixProcess.hpp\<close>, \<^verbatim>\<open>dap/Process.cpp\<close>): the pipes and the
  descriptors, what the program that is started finds open, and the threads that watch it until the object is destroyed.
\<close>

section \<open>Descriptors\<close>

text \<open>What a descriptor refers to: the two ends of the pipe \<open>n\<close>, or something else.\<close>

datatype stream = Read_end nat | Write_end nat | File nat

type_synonym fd_table = "int \<rightharpoonup> stream"

record CPipe =
  m_readFd :: int
  m_writeFd :: int

definition new_CPipe :: CPipe where
  "new_CPipe = \<lparr>m_readFd = -1, m_writeFd = -1\<rparr>"

text \<open>The macro \<^verbatim>\<open>CLOSE_FD\<close>; \<open>None\<close> is a \<^verbatim>\<open>close\<close> of a descriptor that is not open.\<close>

definition CLOSE_FD :: "int \<Rightarrow> fd_table \<Rightarrow> (int \<times> fd_table) option" where
  "CLOSE_FD fd t =
     (if fd \<noteq> -1 then if t fd = None then None else Some (-1, t(fd := None)) else Some (fd, t))"

text \<open>\<^verbatim>\<open>Open\<close>: \<open>answer\<close> is the pair of descriptors of \<^verbatim>\<open>pipe\<close>, or its failure; \<open>n\<close> is the number of the pipe.\<close>

definition CPipe_Open :: "nat \<Rightarrow> (int \<times> int) option \<Rightarrow> CPipe \<Rightarrow> fd_table \<Rightarrow> bool \<times> CPipe \<times> fd_table" where
  "CPipe_Open n answer p t =
     (case answer of
        Some (r, w) \<Rightarrow> (True, \<lparr>m_readFd = r, m_writeFd = w\<rparr>, t(r \<mapsto> Read_end n, w \<mapsto> Write_end n))
      | None \<Rightarrow> (False, p, t))"

definition CPipe_CloseReadFd :: "CPipe \<Rightarrow> fd_table \<Rightarrow> (CPipe \<times> fd_table) option" where
  "CPipe_CloseReadFd p t = map_option (\<lambda>(fd, t). (p \<lparr>m_readFd := fd\<rparr>, t)) (CLOSE_FD (m_readFd p) t)"

definition CPipe_CloseWriteFd :: "CPipe \<Rightarrow> fd_table \<Rightarrow> (CPipe \<times> fd_table) option" where
  "CPipe_CloseWriteFd p t = map_option (\<lambda>(fd, t). (p \<lparr>m_writeFd := fd\<rparr>, t)) (CLOSE_FD (m_writeFd p) t)"

definition CPipe_Close :: "CPipe \<Rightarrow> fd_table \<Rightarrow> (CPipe \<times> fd_table) option" where
  "CPipe_Close p t = Option.bind (CPipe_CloseReadFd p t) (\<lambda>(p, t). CPipe_CloseWriteFd p t)"

section \<open>The constructor and the destructor\<close>

record ChildProcess =
  m_childStdin :: CPipe
  m_childStdout :: CPipe
  m_childStderr :: CPipe
  cp_pid :: int

definition new_ChildProcess :: ChildProcess where
  "new_ChildProcess = \<lparr>m_childStdin = new_CPipe, m_childStdout = new_CPipe, m_childStderr = new_CPipe, cp_pid = -1\<rparr>"

text \<open>The condition \<^verbatim>\<open>!m_childStdin.Open() || !m_childStderr.Open() || !m_childStdout.Open()\<close>, in its order.\<close>

definition open_pipes ::
  "(int \<times> int) option \<Rightarrow> (int \<times> int) option \<Rightarrow> (int \<times> int) option \<Rightarrow> fd_table \<Rightarrow> bool \<times> ChildProcess \<times> fd_table" where
  "open_pipes a_in a_err a_out t =
     (let p = new_ChildProcess; (ok, i, t) = CPipe_Open 0 a_in (m_childStdin p) t; p = p \<lparr>m_childStdin := i\<rparr>
      in if \<not> ok then (False, p, t)
         else let (ok, e, t) = CPipe_Open 2 a_err (m_childStderr p) t; p = p \<lparr>m_childStderr := e\<rparr>
              in if \<not> ok then (False, p, t)
                 else let (ok, out, t) = CPipe_Open 1 a_out (m_childStdout p) t; p = p \<lparr>m_childStdout := out\<rparr>
                      in (ok, p, t))"

text \<open>The constructor in the parent; \<open>pid\<close> is the answer of \<^verbatim>\<open>fork\<close>, -1 when it fails.\<close>

definition UnixProcess_new ::
  "(int \<times> int) option \<Rightarrow> (int \<times> int) option \<Rightarrow> (int \<times> int) option \<Rightarrow> int \<Rightarrow> fd_table \<Rightarrow> (ChildProcess \<times> fd_table) option" where
  "UnixProcess_new a_in a_err a_out pid t =
     (let (ok, p, t) = open_pipes a_in a_err a_out t
      in if \<not> ok then Some (p, t)
         else
           let p = p \<lparr>cp_pid := pid\<rparr>
           in Option.bind (CPipe_CloseReadFd (m_childStdin p) t) (\<lambda>(i, t).
              Option.bind (CPipe_CloseWriteFd (m_childStdout p) t) (\<lambda>(out, t).
              Option.bind (CPipe_CloseWriteFd (m_childStderr p) t) (\<lambda>(e, t).
                Some (p \<lparr>m_childStdin := i, m_childStdout := out, m_childStderr := e\<rparr>, t)))))"

text \<open>The members are destroyed in the reverse order of their declaration.\<close>

definition UnixProcess_close :: "ChildProcess \<Rightarrow> fd_table \<Rightarrow> fd_table option" where
  "UnixProcess_close p t =
     Option.bind (CPipe_Close (m_childStderr p) t) (\<lambda>(_, t).
     Option.bind (CPipe_Close (m_childStdout p) t) (\<lambda>(_, t).
       map_option snd (CPipe_Close (m_childStdin p) t)))"

text \<open>The constructor in the child, up to \<^verbatim>\<open>execvp\<close>: the table that the new program finds, and its arguments.\<close>

definition dup2 :: "int \<Rightarrow> int \<Rightarrow> fd_table \<Rightarrow> fd_table" where
  "dup2 old new t = (case t old of None \<Rightarrow> t | Some s \<Rightarrow> t(new \<mapsto> s))"

definition close_from :: "int \<Rightarrow> int \<Rightarrow> fd_table \<Rightarrow> fd_table" where
  "close_from first fd_max t = foldl (\<lambda>t fd. t(fd := None)) t [first..fd_max - 1]"

definition child_setup :: "int \<Rightarrow> ChildProcess \<Rightarrow> fd_table \<Rightarrow> fd_table option" where
  "child_setup fd_max p t =
     (let t = dup2 (m_readFd (m_childStdin p)) 0 t;
          t = dup2 (m_writeFd (m_childStdout p)) 1 t;
          t = dup2 (m_writeFd (m_childStderr p)) 2 t
      in Option.bind (CPipe_Close (m_childStdin p) t) (\<lambda>(_, t).
         Option.bind (CPipe_Close (m_childStdout p) t) (\<lambda>(_, t).
         Option.bind (CPipe_Close (m_childStderr p) t) (\<lambda>(_, t).
           Some (close_from 3 fd_max t)))))"

definition child_argv :: "string list \<Rightarrow> string list" where
  "child_argv args = map c_str args"

section \<open>Every descriptor is closed once\<close>

text \<open>The answers of \<^verbatim>\<open>pipe\<close>: descriptors that were not open.\<close>

definition new_fds :: "(int \<times> int) option list \<Rightarrow> fd_table \<Rightarrow> bool" where
  "new_fds as t \<longleftrightarrow> (let fds = concat (map (\<lambda>a. case a of None \<Rightarrow> [] | Some (r, w) \<Rightarrow> [r, w]) as)
     in distinct fds \<and> list_all (\<lambda>fd. 0 \<le> fd \<and> t fd = None) fds)"

lemmas pipe_defs = CPipe_Open_def CPipe_CloseReadFd_def CPipe_CloseWriteFd_def CPipe_Close_def CLOSE_FD_def
  open_pipes_def new_ChildProcess_def new_CPipe_def

lemma CPipe_Close_both:
  assumes "r \<noteq> w" "r \<noteq> -1" "w \<noteq> -1" "t r \<noteq> None" "t w \<noteq> None"
  shows "CPipe_Close \<lparr>m_readFd = r, m_writeFd = w\<rparr> t = Some (new_CPipe, t(r := None, w := None))"
  using assms by (simp add: pipe_defs)

lemma CPipe_Close_none: "CPipe_Close new_CPipe t = Some (new_CPipe, t)"
  by (simp add: pipe_defs)

lemma new_fdsD:
  "new_fds (Some (r, w) # as) t \<Longrightarrow> r \<noteq> w \<and> r \<noteq> -1 \<and> w \<noteq> -1 \<and> t r = None \<and> t w = None \<and> new_fds as (t(r \<mapsto> Read_end n, w \<mapsto> Write_end n))"
  by (auto simp: new_fds_def list_all_iff split: option.splits)

text \<open>A pipe that is opened and closed leaves the table as it was.\<close>

lemma open_close:
  assumes "r \<noteq> w" "t r = None" "t w = None"
  shows "(t(r \<mapsto> x, w \<mapsto> y))(r := None, w := None) = t"
  using assms by (intro ext) simp

lemma UnixProcess_descriptors:
  assumes "new_fds [a_in, a_err, a_out] t"
  shows "\<exists>p t'. UnixProcess_new a_in a_err a_out pid t = Some (p, t') \<and> UnixProcess_close p t' = Some t"
proof -
  consider "a_in = None" | ri wi where "a_in = Some (ri, wi)" "a_err = None"
    | ri wi re we where "a_in = Some (ri, wi)" "a_err = Some (re, we)" "a_out = None"
    | ri wi re we ro wo where "a_in = Some (ri, wi)" "a_err = Some (re, we)" "a_out = Some (ro, wo)"
    by (cases a_in; cases a_err; cases a_out) auto
  then show ?thesis
  proof cases
    case 1
    then show ?thesis by (simp add: UnixProcess_new_def UnixProcess_close_def pipe_defs)
  next
    case 2
    let ?t1 = "t(ri \<mapsto> Read_end 0, wi \<mapsto> Write_end 0)" and ?i = "\<lparr>m_readFd = ri, m_writeFd = wi\<rparr>"
    have f: "ri \<noteq> wi" "ri \<noteq> -1" "wi \<noteq> -1" "t ri = None" "t wi = None" using new_fdsD [of ri wi _ t 0] assms 2 by auto
    have "UnixProcess_new a_in a_err a_out pid t = Some (new_ChildProcess \<lparr>m_childStdin := ?i\<rparr>, ?t1)"
      using 2 by (simp add: UnixProcess_new_def open_pipes_def CPipe_Open_def new_ChildProcess_def)
    moreover have "CPipe_Close ?i ?t1 = Some (new_CPipe, ?t1(ri := None, wi := None))" using f by (intro CPipe_Close_both) simp_all
    then have "CPipe_Close ?i ?t1 = Some (new_CPipe, t)" unfolding open_close [OF f(1,4,5)] .
    ultimately show ?thesis by (simp add: UnixProcess_close_def new_ChildProcess_def CPipe_Close_none)
  next
    case 3
    let ?t1 = "t(ri \<mapsto> Read_end 0, wi \<mapsto> Write_end 0)" and ?i = "\<lparr>m_readFd = ri, m_writeFd = wi\<rparr>"
    let ?t2 = "?t1(re \<mapsto> Read_end 2, we \<mapsto> Write_end 2)" and ?e = "\<lparr>m_readFd = re, m_writeFd = we\<rparr>"
    have f: "ri \<noteq> wi" "ri \<noteq> -1" "wi \<noteq> -1" "t ri = None" "t wi = None" and n: "new_fds [Some (re, we), None] ?t1"
      using new_fdsD [of ri wi _ t 0] assms 3 by auto
    have h: "re \<noteq> we" "re \<noteq> -1" "we \<noteq> -1" "?t1 re = None" "?t1 we = None" using new_fdsD [OF n] by auto
    have "UnixProcess_new a_in a_err a_out pid t = Some (new_ChildProcess \<lparr>m_childStdin := ?i, m_childStderr := ?e\<rparr>, ?t2)"
      using 3 by (simp add: UnixProcess_new_def open_pipes_def CPipe_Open_def new_ChildProcess_def)
    moreover have "CPipe_Close ?e ?t2 = Some (new_CPipe, ?t2(re := None, we := None))" using h by (intro CPipe_Close_both) simp_all
    then have "CPipe_Close ?e ?t2 = Some (new_CPipe, ?t1)" unfolding open_close [OF h(1,4,5)] .
    moreover have "CPipe_Close ?i ?t1 = Some (new_CPipe, ?t1(ri := None, wi := None))" using f by (intro CPipe_Close_both) simp_all
    then have "CPipe_Close ?i ?t1 = Some (new_CPipe, t)" unfolding open_close [OF f(1,4,5)] .
    ultimately show ?thesis by (simp add: UnixProcess_close_def new_ChildProcess_def CPipe_Close_none)
  next
    case 4
    have d: "distinct [ri, wi, re, we, ro, wo]" "distinct [wo, ro, we, re, wi, ri]" "\<forall>x\<in>{ri, wi, re, we, ro, wo}. x \<noteq> -1 \<and> t x = None" using assms 4 by (auto simp: new_fds_def)
    let ?t3 = "t(ri \<mapsto> Read_end 0, wi \<mapsto> Write_end 0, re \<mapsto> Read_end 2, we \<mapsto> Write_end 2, ro \<mapsto> Read_end 1, wo \<mapsto> Write_end 1)"
    let ?t = "?t3(ri := None, wo := None, we := None)"
    let ?p = "\<lparr>m_childStdin = \<lparr>m_readFd = -1, m_writeFd = wi\<rparr>, m_childStdout = \<lparr>m_readFd = ro, m_writeFd = -1\<rparr>,
       m_childStderr = \<lparr>m_readFd = re, m_writeFd = -1\<rparr>, cp_pid = pid\<rparr>"
    have "UnixProcess_new a_in a_err a_out pid t = Some (?p, ?t)"
      using 4 d by (simp add: UnixProcess_new_def pipe_defs Let_def)
    moreover have "UnixProcess_close ?p ?t = Some (?t(re := None, ro := None, wi := None))" using d by (auto simp: UnixProcess_close_def pipe_defs)
    moreover have "?t(re := None, ro := None, wi := None) = t" using d(3) by (intro ext) simp
    ultimately show ?thesis by auto
  qed
qed

lemma close_from_spec: "close_from a b t x = (if a \<le> x \<and> x < b then None else t x)"
proof -
  have "foldl (\<lambda>t fd. t(fd := None)) t xs x = (if x \<in> set xs then None else t x)" for xs :: "int list"
    by (induction xs arbitrary: t) auto
  then show ?thesis by (simp add: close_from_def)
qed

text \<open>What the program that is started has open.\<close>

lemma child_setup_streams:
  assumes "new_fds [Some (ri, wi), Some (re, we), Some (ro, wo)] t" "\<forall>fd\<in>{ri, wi, re, we, ro, wo}. 3 \<le> fd"
    "\<forall>fd\<in>dom t. 0 \<le> fd \<and> fd < fd_max" "open_pipes (Some (ri, wi)) (Some (re, we)) (Some (ro, wo)) t = (True, p, t')"
  shows "child_setup fd_max p t' = Some [0 \<mapsto> Read_end 0, 1 \<mapsto> Write_end 1, 2 \<mapsto> Write_end 2]"
proof -
  have d: "distinct [ri, wi, re, we, ro, wo]" "distinct [wo, ro, we, re, wi, ri]" and n: "\<forall>x\<in>{ri, wi, re, we, ro, wo}. t x = None"
    using assms(1) by (auto simp: new_fds_def)
  have g: "3 \<le> ri" "3 \<le> wi" "3 \<le> re" "3 \<le> we" "3 \<le> ro" "3 \<le> wo" using assms(2) by auto
  have t': "t' = t(ri \<mapsto> Read_end 0, wi \<mapsto> Write_end 0, re \<mapsto> Read_end 2, we \<mapsto> Write_end 2, ro \<mapsto> Read_end 1, wo \<mapsto> Write_end 1)"
    and p: "m_childStdin p = \<lparr>m_readFd = ri, m_writeFd = wi\<rparr>" "m_childStdout p = \<lparr>m_readFd = ro, m_writeFd = wo\<rparr>"
      "m_childStderr p = \<lparr>m_readFd = re, m_writeFd = we\<rparr>"
    using assms(4) by (auto simp: open_pipes_def CPipe_Open_def Let_def)
  let ?t1 = "t'(0 \<mapsto> Read_end 0, 1 \<mapsto> Write_end 1, 2 \<mapsto> Write_end 2)"
  let ?t2 = "?t1(ri := None, wi := None)"
  let ?t3 = "?t2(ro := None, wo := None)"
  let ?t4 = "?t3(re := None, we := None)"
  have 1: "dup2 we 2 (dup2 wo 1 (dup2 ri 0 t')) = ?t1" using d g by (simp add: t' dup2_def)
  have 2: "CPipe_Close (m_childStdin p) ?t1 = Some (new_CPipe, ?t2)" unfolding p using d g by (intro CPipe_Close_both) (simp_all add: t')
  have 3: "CPipe_Close (m_childStdout p) ?t2 = Some (new_CPipe, ?t3)" unfolding p using d g by (intro CPipe_Close_both) (simp_all add: t')
  have 4: "CPipe_Close (m_childStderr p) ?t3 = Some (new_CPipe, ?t4)" unfolding p using d g by (intro CPipe_Close_both) (simp_all add: t')
  have 6: "child_setup fd_max p t' = Some (close_from 3 fd_max ?t4)" using 1 2 3 4 unfolding child_setup_def Let_def p by (simp only: bind.bind_lunit prod.case CPipe.simps)
  have 5: "?t4 x = (t(0 \<mapsto> Read_end 0, 1 \<mapsto> Write_end 1, 2 \<mapsto> Write_end 2)) x" for x
  proof (cases "x \<in> {ri, wi, re, we, ro, wo}")
    case True
    then have "x \<noteq> 0" "x \<noteq> 1" "x \<noteq> 2" "t x = None" using g n by auto
    then show ?thesis using True by auto
  next
    case False
    then show ?thesis by (simp add: t')
  qed
  have 7: "close_from 3 fd_max ?t4 x = [0 \<mapsto> Read_end 0, 1 \<mapsto> Write_end 1, 2 \<mapsto> Write_end 2] x" for x
  proof -
    have o: "x < 0 \<or> x \<ge> fd_max \<Longrightarrow> t x = None" using assms(3) by (metis domIff linorder_not_le)
    have e: "close_from 3 fd_max ?t4 x = (if 3 \<le> x \<and> x < fd_max then None else (t(0 \<mapsto> Read_end 0, 1 \<mapsto> Write_end 1, 2 \<mapsto> Write_end 2)) x)"
      unfolding close_from_spec 5 ..
    consider "x < 0" | "x = 0" | "x = 1" | "x = 2" | "3 \<le> x" by linarith
    then show ?thesis unfolding e by cases (use o in auto)
  qed
  have "close_from 3 fd_max ?t4 = [0 \<mapsto> Read_end 0, 1 \<mapsto> Write_end 1, 2 \<mapsto> Write_end 2]" by (rule ext) (rule 7)
  then show ?thesis unfolding 6 by (simp only:)
qed

section \<open>The threads and the child\<close>

text \<open>
  A child that has exited stays in the process table until its parent waits for it; \<^verbatim>\<open>kill(pid, 0)\<close> succeeds as long as
  it is there.
\<close>

datatype child_state = Running | Exited int | Reaped

datatype main_pc = Working | Join_reader | Join_watcher | Gone

record process_system =
  child :: child_state
  shutdown_flag :: bool
  reader_runs :: bool
  watcher_runs :: bool
  main :: main_pc
  signals :: "(int \<times> int) list"

definition SIGTERM :: int where
  "SIGTERM = 15"

definition kill_0 :: "child_state \<Rightarrow> bool" where
  "kill_0 c \<longleftrightarrow> c \<noteq> Reaped"

definition WEXITSTATUS :: "int \<Rightarrow> int" where
  "WEXITSTATUS status = status div 256 mod 256"

text \<open>\<^verbatim>\<open>Wait\<close> does not wait: \<^verbatim>\<open>waitpid\<close> is called with \<^verbatim>\<open>WNOHANG\<close>, and leaves \<^verbatim>\<open>status\<close> as it was when the child runs.\<close>

definition UnixProcess_Wait :: "int \<Rightarrow> process_system \<Rightarrow> int \<times> process_system" where
  "UnixProcess_Wait pid s =
     (if pid \<noteq> -1
      then (case child s of Exited status \<Rightarrow> (WEXITSTATUS status, s \<lparr>child := Reaped\<rparr>) | _ \<Rightarrow> (WEXITSTATUS 0, s))
      else (0, s))"

text \<open>
  \<^verbatim>\<open>Stop\<close> sends a signal (\<open>signals\<close> has the calls of \<^verbatim>\<open>kill\<close>); whether and when the child exits is its own affair
  (\<open>child_exits\<close>).
\<close>

definition UnixProcess_Stop :: "int \<Rightarrow> process_system \<Rightarrow> process_system" where
  "UnixProcess_Stop pid s = (if pid \<noteq> -1 then s \<lparr>signals := signals s @ [(pid, SIGTERM)]\<rparr> else s)"

definition UnixProcess_Terminate :: "int \<Rightarrow> process_system \<Rightarrow> process_system" where
  "UnixProcess_Terminate pid s = snd (UnixProcess_Wait pid (UnixProcess_Stop pid s))"

definition StartThreads :: "child_state \<Rightarrow> process_system" where
  "StartThreads c = \<lparr>child = c, shutdown_flag = False, reader_runs = True, watcher_runs = True, main = Working, signals = []\<rparr>"

text \<open>
  The turns of the two loops, the exit of the child, and the destructor: \<^verbatim>\<open>Terminate\<close>, then \<^verbatim>\<open>Cleanup\<close> with its two joins.
\<close>

inductive process_step :: "int \<Rightarrow> process_system \<Rightarrow> process_system \<Rightarrow> bool" for pid :: int where
  child_exits: "child s = Running \<Longrightarrow> process_step pid s (s \<lparr>child := Exited status\<rparr>)"
| reader_turn: "reader_runs s \<Longrightarrow> \<not> shutdown_flag s \<Longrightarrow> process_step pid s s"
| reader_ends: "reader_runs s \<Longrightarrow> shutdown_flag s \<Longrightarrow> process_step pid s (s \<lparr>reader_runs := False\<rparr>)"
| watcher_turn: "watcher_runs s \<Longrightarrow> kill_0 (child s) \<Longrightarrow> \<not> shutdown_flag s \<Longrightarrow> process_step pid s s"
| watcher_ends: "watcher_runs s \<Longrightarrow> \<not> (kill_0 (child s) \<and> \<not> shutdown_flag s) \<Longrightarrow>
    process_step pid s (s \<lparr>shutdown_flag := True, watcher_runs := False\<rparr>)"
| destroy: "main s = Working \<Longrightarrow>
    process_step pid s (UnixProcess_Terminate pid s \<lparr>shutdown_flag := True, main := Join_reader\<rparr>)"
| join_reader: "main s = Join_reader \<Longrightarrow> \<not> reader_runs s \<Longrightarrow> process_step pid s (s \<lparr>main := Join_watcher\<rparr>)"
| join_watcher: "main s = Join_watcher \<Longrightarrow> \<not> watcher_runs s \<Longrightarrow> process_step pid s (s \<lparr>main := Gone, shutdown_flag := False\<rparr>)"

inductive_cases process_stepE: "process_step pid s s'"

abbreviation process_steps :: "int \<Rightarrow> process_system \<Rightarrow> process_system \<Rightarrow> bool" where
  "process_steps pid \<equiv> (process_step pid)\<^sup>*\<^sup>*"

text \<open>
  Until the object is destroyed nothing waits for the child, so it looks alive whether it has exited or not: neither
  thread ends and the flag is not set.
\<close>

lemma undetected:
  assumes "process_steps pid (StartThreads Running) s" "main s = Working"
  shows "kill_0 (child s) \<and> \<not> shutdown_flag s \<and> reader_runs s \<and> watcher_runs s"
  using assms
proof (induction rule: rtranclp_induct)
  case base
  then show ?case by (simp add: StartThreads_def kill_0_def)
next
  case (step s s')
  then show ?case by (auto simp: kill_0_def elim!: process_stepE)
qed

text \<open>
  The destructor asks the child to terminate and does not wait for it: a child that runs then is never waited for.
\<close>

lemma not_waited_for:
  assumes "process_steps pid s s'" "main s \<noteq> Working" "child s \<noteq> Reaped"
  shows "main s' \<noteq> Working \<and> child s' \<noteq> Reaped"
  using assms by (induction rule: rtranclp_induct) (auto elim!: process_stepE)

lemma destroyed_running_child:
  assumes "main s = Working" "child s = Running"
  shows "process_step pid s (UnixProcess_Stop pid s \<lparr>shutdown_flag := True, main := Join_reader\<rparr>)"
  using process_step.destroy [OF assms(1), of pid] assms(2)
  by (auto simp: UnixProcess_Terminate_def UnixProcess_Wait_def UnixProcess_Stop_def split: if_splits)

text \<open>The states of the destructor: the flag stays set until both threads have been joined.\<close>

definition cleaning :: "process_system \<Rightarrow> bool" where
  "cleaning s \<longleftrightarrow> shutdown_flag s \<and> (main s = Join_reader \<or> main s = Join_watcher \<and> \<not> reader_runs s)"

definition work_left :: "process_system \<Rightarrow> nat" where
  "work_left s =
     (if child s = Running then 1 else 0) + (if reader_runs s then 1 else 0) + (if watcher_runs s then 1 else 0) +
     (case main s of Working \<Rightarrow> 3 | Join_reader \<Rightarrow> 2 | Join_watcher \<Rightarrow> 1 | Gone \<Rightarrow> 0)"

definition ended :: "process_system \<Rightarrow> bool" where
  "ended s \<longleftrightarrow> main s = Gone \<and> \<not> reader_runs s \<and> \<not> watcher_runs s"

lemma cleaning_step:
  assumes "process_step pid s s'" "cleaning s \<or> ended s"
  shows "work_left s' < work_left s \<and> (cleaning s' \<or> ended s')"
  using assms(1)
proof cases
  case (child_exits status)
  then show ?thesis using assms(2) by (auto simp: cleaning_def ended_def work_left_def)
next
  case reader_ends
  then show ?thesis using assms(2) by (auto simp: cleaning_def ended_def work_left_def)
next
  case watcher_ends
  then show ?thesis using assms(2) by (auto simp: cleaning_def ended_def work_left_def)
next
  case join_reader
  then show ?thesis using assms(2) by (auto simp: cleaning_def ended_def work_left_def)
next
  case join_watcher
  then show ?thesis using assms(2) by (auto simp: cleaning_def ended_def work_left_def)
qed (use assms(2) in \<open>simp_all add: cleaning_def ended_def\<close>)

lemma cleaning_progress: "cleaning s \<Longrightarrow> \<exists>s'. process_step pid s s'"
proof -
  assume c: "cleaning s"
  consider "reader_runs s" | "\<not> reader_runs s" "main s = Join_reader" | "main s = Join_watcher" "watcher_runs s"
    | "main s = Join_watcher" "\<not> watcher_runs s" using c by (auto simp: cleaning_def)
  then show ?thesis
  proof cases
    case 1
    then show ?thesis using c process_step.reader_ends [of s pid] by (auto simp: cleaning_def)
  next
    case 2
    then show ?thesis using process_step.join_reader [of s pid] by auto
  next
    case 3
    then show ?thesis using c process_step.watcher_ends [of s pid] by (auto simp: cleaning_def)
  next
    case 4
    then show ?thesis using process_step.join_watcher [of s pid] by auto
  qed
qed

text \<open>From the first statement of the destructor at most \<open>work_left\<close> steps are left.\<close>

lemma cleanup_bounded:
  assumes "(process_step pid ^^ n) s s'" "cleaning s"
  shows "n + work_left s' \<le> work_left s \<and> (cleaning s' \<or> ended s')"
  using assms
proof (induction n arbitrary: s')
  case (Suc n)
  then obtain u where u: "(process_step pid ^^ n) s u" "process_step pid u s'" by auto
  then show ?case using Suc.IH [OF u(1) Suc.prems(2)] cleaning_step [OF u(2)] by auto
qed simp

end
