(* ===== verification/Dap_Msw.thy ===== *)
theory Dap_Msw
  imports Dap_StringUtils
begin

text \<open>
  The child process on Windows (\<^verbatim>\<open>dap/msw.cpp\<close>).  As for the other system calls, the list \<open>w_script\<close> holds what the system
  answers, in the order of the calls, and \<open>None\<close> is a call that has not returned.  The bytes that the pipe accepted, the
  handles that were closed and the processes that were terminated are recorded.
\<close>

section \<open>System calls\<close>

record winret =
  w_ok :: bool
  w_value :: int
  w_count :: nat
  w_data :: string
  w_handles :: "int \<times> int"

record win =
  w_script :: "winret list"
  w_out :: string
  w_closed :: "int list"
  w_terminated :: "int list"

definition win_call :: "win \<Rightarrow> (winret \<times> win) option" where
  "win_call w = (case w_script w of [] \<Rightarrow> None | r # rs \<Rightarrow> Some (r, w \<lparr>w_script := rs\<rparr>))"

definition INVALID_HANDLE_VALUE :: int where "INVALID_HANDLE_VALUE = -1"
definition STILL_ACTIVE :: int where "STILL_ACTIVE = 259"

text \<open>The pseudo handle of the calling process, the constant that \<^verbatim>\<open>GetCurrentProcess\<close> returns.\<close>

definition GetCurrentProcess :: int where "GetCurrentProcess = -1"

definition CheckIsAlive :: "win \<Rightarrow> (bool \<times> win) option" where
  "CheckIsAlive w = map_option (\<lambda>(r, w). (w_ok r \<and> w_value r = STILL_ACTIVE, w)) (win_call w)"

section \<open>Writing\<close>

text \<open>The loop of \<^verbatim>\<open>WriteStdin\<close>: the first argument is what is left of the hundred turns.\<close>

fun write_stdin :: "nat \<Rightarrow> string \<Rightarrow> win \<Rightarrow> (bool \<times> win) option" where
  "write_stdin 0 rest w = Some (True, w)"
| "write_stdin (Suc n) rest w =
     (if rest = [] then Some (True, w)
      else
        Option.bind (win_call w) (\<lambda>(r, w).
          if \<not> w_ok r then Some (False, w)
          else
            let k = min (w_count r) (length rest); w = w \<lparr>w_out := w_out w @ take k rest\<rparr>
            in Option.bind (CheckIsAlive w) (\<lambda>(alive, w).
                 if \<not> alive then Some (False, w) else write_stdin n (drop k rest) w)))"

text \<open>\<^verbatim>\<open>DWORD bytesLeft = buffer.length()\<close>\<close>

definition WriteStdin :: "string \<Rightarrow> win \<Rightarrow> (bool \<times> win) option" where
  "WriteStdin buffer w = write_stdin 100 (take (length buffer mod 2 ^ 32) buffer) w"

definition MSW_DoWrite :: "string \<Rightarrow> bool \<Rightarrow> win \<Rightarrow> (bool \<times> win) option" where
  "MSW_DoWrite buff appendLf w =
     (let tmpCmd = Rtrim buff; tmpCmd = (if appendLf then tmpCmd @ [CHR 0x0A] else tmpCmd) in WriteStdin tmpCmd w)"

definition MSW_Write :: "string \<Rightarrow> win \<Rightarrow> (bool \<times> win) option" where
  "MSW_Write buff w = MSW_DoWrite buff False w"

definition MSW_WriteLn :: "string \<Rightarrow> win \<Rightarrow> (bool \<times> win) option" where
  "MSW_WriteLn buff w = MSW_DoWrite buff True w"

section \<open>Reading\<close>

text \<open>\<^verbatim>\<open>DoReadFromPipe\<close>: at most 65536 bytes a turn; what follows a NUL in the buffer is lost.\<close>

function read_pipe :: "bool \<Rightarrow> string \<Rightarrow> win \<Rightarrow> (bool \<times> string \<times> win) option" where
  "read_pipe read_something buff w =
     (case w_script w of
        [] \<Rightarrow> None
      | r # rs \<Rightarrow>
         let w = w \<lparr>w_script := rs\<rparr>
         in if w_ok r then read_pipe True (buff @ c_str (take (min (w_count r) 65536) (w_data r))) w
            else Some (read_something, buff, w))"
  by pat_completeness auto
termination
  by (relation "measure (\<lambda>(_, _, w). length (w_script w))") auto

declare read_pipe.simps [simp del]

definition DoReadFromPipe :: "string \<Rightarrow> win \<Rightarrow> (bool \<times> string \<times> win) option" where
  "DoReadFromPipe buff w = read_pipe False buff w"

definition MSW_DoRead :: "win \<Rightarrow> (bool \<times> string \<times> string \<times> win) option" where
  "MSW_DoRead w =
     Option.bind (CheckIsAlive w) (\<lambda>(alive, w).
       if \<not> alive then Some (False, [], [], w)
       else Option.bind (DoReadFromPipe [] w) (\<lambda>(_, ostrout, w).
            Option.bind (DoReadFromPipe [] w) (\<lambda>(_, ostrerr, w).
              Some (ostrerr \<noteq> [] \<or> ostrout \<noteq> [], ostrout, ostrerr, w))))"

section \<open>The process object\<close>

record ProcessMSW =
  hProcess :: int
  hThread :: int
  m_stdinRead :: int
  m_stdinWrite :: int
  m_stdoutWrite :: int
  m_stdoutRead :: int
  m_stderrWrite :: int
  m_stderrRead :: int
  m_dwProcessId :: int

text \<open>The macro \<^verbatim>\<open>CLOSE_HANDLE\<close>; the variable is set to the invalid handle by its caller.\<close>

definition CLOSE_HANDLE :: "int \<Rightarrow> win \<Rightarrow> win" where
  "CLOSE_HANDLE h w = (if h \<noteq> INVALID_HANDLE_VALUE then w \<lparr>w_closed := w_closed w @ [h]\<rparr> else w)"

definition handles :: "ProcessMSW \<Rightarrow> int list" where
  "handles p = [hProcess p, hThread p, m_stdinRead p, m_stdinWrite p, m_stdoutWrite p, m_stdoutRead p, m_stderrWrite p, m_stderrRead p]"

definition all_invalid :: "ProcessMSW \<Rightarrow> ProcessMSW" where
  "all_invalid p = p \<lparr>hProcess := INVALID_HANDLE_VALUE, hThread := INVALID_HANDLE_VALUE, m_stdinRead := INVALID_HANDLE_VALUE,
     m_stdinWrite := INVALID_HANDLE_VALUE, m_stdoutWrite := INVALID_HANDLE_VALUE, m_stdoutRead := INVALID_HANDLE_VALUE,
     m_stderrWrite := INVALID_HANDLE_VALUE, m_stderrRead := INVALID_HANDLE_VALUE\<rparr>"

text \<open>\<^verbatim>\<open>Cleanup\<close>, after the threads have been joined.\<close>

definition MSW_Cleanup :: "ProcessMSW \<Rightarrow> win \<Rightarrow> (ProcessMSW \<times> win) option" where
  "MSW_Cleanup p w =
     Option.bind (CheckIsAlive w) (\<lambda>(alive, w).
       let w = (if alive then w \<lparr>w_terminated := w_terminated w @ [hProcess p]\<rparr> else w)
       in Some (all_invalid p, fold CLOSE_HANDLE (handles p) w))"

definition MSW_Terminate :: "ProcessMSW \<Rightarrow> win \<Rightarrow> (ProcessMSW \<times> win) option" where
  "MSW_Terminate p w = MSW_Cleanup p w"

definition MSW_destroy :: "ProcessMSW \<Rightarrow> win \<Rightarrow> win option" where
  "MSW_destroy p w = map_option snd (MSW_Cleanup p w)"

text \<open>
  \<^verbatim>\<open>ExecuteProcess\<close>: the structure with the handles of the process is not initialised before the pipes have been created;
  \<open>garbage\<close> is what it holds until then.
\<close>

definition new_ProcessMSW :: "int \<times> int \<Rightarrow> ProcessMSW" where
  "new_ProcessMSW garbage = all_invalid \<lparr>hProcess = 0, hThread = 0, m_stdinRead = 0, m_stdinWrite = 0, m_stdoutWrite = 0,
     m_stdoutRead = 0, m_stderrWrite = 0, m_stderrRead = 0, m_dwProcessId = 2 ^ 32 - 1\<rparr> \<lparr>hProcess := fst garbage, hThread := snd garbage\<rparr>"

definition MSW_ExecuteProcess :: "int \<times> int \<Rightarrow> win \<Rightarrow> (ProcessMSW option \<times> win) option" where
  "MSW_ExecuteProcess garbage w =
     (let prc = new_ProcessMSW garbage; fail = (\<lambda>prc w. map_option (\<lambda>w. (None, w)) (MSW_destroy prc w))
      in Option.bind (win_call w) (\<lambda>(r, w).
         if \<not> w_ok r then fail prc w
         else let prc = prc \<lparr>m_stdoutRead := fst (w_handles r), m_stdoutWrite := snd (w_handles r)\<rparr>
         in Option.bind (win_call w) (\<lambda>(r, w).
         if \<not> w_ok r then fail prc w
         else let prc = prc \<lparr>m_stderrRead := fst (w_handles r), m_stderrWrite := snd (w_handles r)\<rparr>
         in Option.bind (win_call w) (\<lambda>(r, w).
         if \<not> w_ok r then fail prc w
         else let prc = prc \<lparr>m_stdinRead := fst (w_handles r), m_stdinWrite := snd (w_handles r), hProcess := 0, hThread := 0\<rparr>
         in Option.bind (win_call w) (\<lambda>(r, w).
         if \<not> w_ok r then fail prc w
         else Some (Some (prc \<lparr>hProcess := fst (w_handles r), hThread := snd (w_handles r), m_dwProcessId := w_value r\<rparr>), w))))))"

section \<open>What is written\<close>

lemma CheckIsAlive_out: "CheckIsAlive w = Some (b, w') \<Longrightarrow> w_out w' = w_out w"
  by (auto simp: CheckIsAlive_def win_call_def split: list.splits)

lemma prefix_take_drop: "prefix q (drop k xs) \<Longrightarrow> prefix (take k xs @ q) xs"
  by (metis append_take_drop_id same_prefix_prefix)

lemma write_stdin_prefix:
  "write_stdin n rest w = Some (ok, w') \<Longrightarrow> \<exists>q. prefix q rest \<and> w_out w' = w_out w @ q \<and> (ok \<longrightarrow> q = rest \<or> length (w_script w) = length (w_script w') + 2 * n)"
proof (induction n arbitrary: rest w)
  case (Suc n)
  show ?case
  proof (cases "rest = []")
    case False
    from Suc.prems False obtain r w1 where r: "win_call w = Some (r, w1)" by (auto simp: bind_eq_Some_conv)
    then have w1: "w_out w1 = w_out w" "length (w_script w) = Suc (length (w_script w1))" by (auto simp: win_call_def split: list.splits)
    show ?thesis
    proof (cases "w_ok r")
      case True
      let ?k = "min (w_count r) (length rest)"
      let ?w = "w1 \<lparr>w_out := w_out w1 @ take ?k rest\<rparr>"
      from Suc.prems False r True obtain alive w2 where a: "CheckIsAlive ?w = Some (alive, w2)" by (auto simp: Let_def bind_eq_Some_conv)
      have w2: "w_out w2 = w_out w @ take ?k rest" "length (w_script w1) = Suc (length (w_script w2))"
        using CheckIsAlive_out [OF a] w1 a by (auto simp: CheckIsAlive_def win_call_def split: list.splits)
      show ?thesis
      proof (cases alive)
        case True
        then have "write_stdin n (drop ?k rest) w2 = Some (ok, w')" using Suc.prems False r \<open>w_ok r\<close> a by (simp add: Let_def)
        from Suc.IH [OF this] obtain q where "prefix q (drop ?k rest)" "w_out w' = w_out w2 @ q"
          "ok \<longrightarrow> q = drop ?k rest \<or> length (w_script w2) = length (w_script w') + 2 * n" by blast
        then show ?thesis using w1 w2 prefix_take_drop [of q ?k rest] by (intro exI [of _ "take ?k rest @ q"]) auto
      next
        case False
        then have "ok = False" "w' = w2" using Suc.prems \<open>rest \<noteq> []\<close> r \<open>w_ok r\<close> a by (auto simp: Let_def)
        then show ?thesis using w2(1) by (intro exI [of _ "take ?k rest"]) (simp add: take_is_prefix)
      qed
    next
      case False
      then show ?thesis using Suc.prems \<open>rest \<noteq> []\<close> r w1 by auto
    qed
  qed (use Suc.prems in auto)
qed auto

text \<open>A pipe that stays full for a hundred turns: the call answers true and nothing has been written.\<close>

definition full_pipe :: "winret list" where
  "full_pipe = [\<lparr>w_ok = True, w_value = 0, w_count = 0, w_data = [], w_handles = (0, 0)\<rparr>,
     \<lparr>w_ok = True, w_value = STILL_ACTIVE, w_count = 0, w_data = [], w_handles = (0, 0)\<rparr>]"

lemma write_stdin_full:
  "write_stdin n rest (w \<lparr>w_script := concat (replicate n full_pipe) @ rs\<rparr>) =
     Some (True, if rest = [] then w \<lparr>w_script := concat (replicate n full_pipe) @ rs\<rparr> else w \<lparr>w_script := rs\<rparr>)"
  by (induction n) (auto simp: full_pipe_def win_call_def CheckIsAlive_def)

section \<open>Handles\<close>

lemma fold_CLOSE_HANDLE:
  "fold CLOSE_HANDLE hs w = w \<lparr>w_closed := w_closed w @ filter (\<lambda>h. h \<noteq> INVALID_HANDLE_VALUE) hs\<rparr>"
  by (induction hs arbitrary: w) (simp_all add: CLOSE_HANDLE_def)

lemma MSW_Cleanup_spec:
  assumes "MSW_Cleanup p w = Some (p', w')"
  shows "p' = all_invalid p" "w_closed w' = w_closed w @ filter (\<lambda>h. h \<noteq> INVALID_HANDLE_VALUE) (handles p)"
    "w_terminated w' = w_terminated w \<or> w_terminated w' = w_terminated w @ [hProcess p]"
  using assms by (auto simp: MSW_Cleanup_def CheckIsAlive_def win_call_def fold_CLOSE_HANDLE Let_def split: list.splits if_splits)

lemma handles_all_invalid: "filter (\<lambda>h. h \<noteq> INVALID_HANDLE_VALUE) (handles (all_invalid p)) = []"
  by (simp add: handles_def all_invalid_def)

text \<open>
  The second time, the process handle is the pseudo handle of the calling process, which is alive.
\<close>

lemma MSW_Cleanup_twice:
  assumes "MSW_Terminate p w = Some (p', w')" "w_script w' = r # rs" "w_ok r" "w_value r = STILL_ACTIVE"
  shows "\<exists>w''. MSW_destroy p' w' = Some w'' \<and> w_terminated w'' = w_terminated w' @ [GetCurrentProcess] \<and> w_closed w'' = w_closed w'"
proof -
  have p': "p' = all_invalid p" using MSW_Cleanup_spec(1) assms(1) by (simp add: MSW_Terminate_def)
  have "hProcess p' = GetCurrentProcess" by (simp add: p' all_invalid_def INVALID_HANDLE_VALUE_def GetCurrentProcess_def)
  then show ?thesis using assms(2-4) handles_all_invalid [of p] p'
    by (simp add: MSW_destroy_def MSW_Cleanup_def CheckIsAlive_def win_call_def fold_CLOSE_HANDLE Let_def)
qed

text \<open>When the first pipe cannot be created, the handles that are closed were never set.\<close>

lemma ExecuteProcess_garbage:
  assumes "w_script w = r # r2 # rs" "\<not> w_ok r" "w_ok r2" "w_value r2 = STILL_ACTIVE"
  shows "\<exists>w'. MSW_ExecuteProcess (h, t) w = Some (None, w') \<and> w_terminated w' = w_terminated w @ [h]"
  using assms by (simp add: MSW_ExecuteProcess_def MSW_destroy_def MSW_Cleanup_def CheckIsAlive_def win_call_def fold_CLOSE_HANDLE
      new_ProcessMSW_def Let_def)

end
