(* ===== verification/Dap_Transport.thy ===== *)
theory Dap_Transport
  imports Dap_StringUtils "HOL-Library.Multiset" "HOL-Library.Word"
begin

text \<open>
  The transports of \<^verbatim>\<open>dap/Client.cpp\<close> and what they stand on: \<^verbatim>\<open>ConnectionString\<close>, \<^verbatim>\<open>Socket\<close>,
  \<^verbatim>\<open>SocketClient\<close>, \<^verbatim>\<open>Queue\<close>, \<^verbatim>\<open>Process\<close> and \<^verbatim>\<open>UnixProcess\<close>.

  The operating system is an argument: the list \<open>script\<close> holds what it answers to the system
  calls of the program, in the order of the calls.  A call that finds the list empty has not
  returned (\<open>Blocked\<close>).  The bytes that the system accepted and delivered, and the descriptors
  that it opened and closed, are recorded in the state.
\<close>

section \<open>Connection strings\<close>

datatype eProtocol = kTcp | kUnixLocalSocket

record ConnectionString =
  cs_protocol :: "eProtocol option"
  cs_host :: string
  cs_port :: int
  cs_path :: string
  cs_isOK :: bool

definition new_ConnectionString :: ConnectionString where
  "new_ConnectionString = \<lparr>cs_protocol = None, cs_host = [], cs_port = -1, cs_path = [], cs_isOK = False\<rparr>"

text \<open>\<^verbatim>\<open>DoParse\<close>: \<open>None\<close> is the exception that \<^verbatim>\<open>substr(2)\<close> throws on a shorter string.\<close>

definition DoParse :: "string \<Rightarrow> ConnectionString option" where
  "DoParse connectionString =
     (let cs = new_ConnectionString;
          protocol = BeforeFirst connectionString (CHR '':'')
      in if protocol \<noteq> ''tcp'' \<and> protocol \<noteq> ''unix'' then Some cs
         else
           let cs = cs \<lparr>cs_protocol := Some (if protocol = ''tcp'' then kTcp else kUnixLocalSocket)\<rparr>;
               address = AfterFirst connectionString (CHR '':'')
           in if length address < 2 then None
              else
                let address = drop 2 address
                in if cs_protocol cs = Some kUnixLocalSocket
                   then Some (cs \<lparr>cs_path := address, cs_isOK := (address \<noteq> [])\<rparr>)
                   else
                     let host = BeforeFirst address (CHR '':'');
                         port = AfterFirst address (CHR '':'');
                         n = (if port \<noteq> [] then atol port else -1)
                     in Some (cs \<lparr>cs_host := host, cs_port := n, cs_isOK := (host \<noteq> [] \<and> n \<noteq> -1)\<rparr>))"

lemma BeforeFirst_append: "ch \<notin> set a \<Longrightarrow> BeforeFirst (a @ ch # b) ch = a"
  by (induction a) (auto simp: BeforeFirst_def)

lemma AfterFirst_append: "ch \<notin> set a \<Longrightarrow> AfterFirst (a @ ch # b) ch = b"
  by (induction a) (auto simp: AfterFirst_def)

lemma colon_not_digit: "CHR '':'' \<notin> set (show_nat n)"
  by (auto simp: is_digit_def dest!: show_nat_digits)

lemma DoParse_tcp:
  assumes "CHR '':'' \<notin> set host" "host \<noteq> []" "int port \<le> LONG_MAX"
  shows "DoParse (''tcp://'' @ host @ '':'' @ show_nat port) =
     Some \<lparr>cs_protocol = Some kTcp, cs_host = host, cs_port = int port, cs_path = [], cs_isOK = True\<rparr>"
proof -
  have "BeforeFirst (''tcp'' @ CHR '':'' # ''//'' @ host @ '':'' @ show_nat port) (CHR '':'') = ''tcp''"
    by (rule BeforeFirst_append) simp
  moreover have "AfterFirst (''tcp'' @ CHR '':'' # ''//'' @ host @ '':'' @ show_nat port) (CHR '':'') =
      ''//'' @ host @ '':'' @ show_nat port"
    by (rule AfterFirst_append) simp
  moreover have "show_nat port \<noteq> []" by (rule show_nat_not_Nil)
  ultimately show ?thesis
    using BeforeFirst_append [OF assms(1), of "show_nat port"] AfterFirst_append [OF assms(1), of "show_nat port"]
      atol_show_nat [OF assms(3)] assms(2)
    by (simp add: DoParse_def Let_def new_ConnectionString_def)
qed

text \<open>The two characters after the colon are skipped, whatever they are; if they are missing, the parser throws.\<close>

lemma DoParse_short:
  "DoParse ''tcp'' = None" "DoParse ''tcp:'' = None" "DoParse ''unix:/'' = None"
  by (simp_all add: DoParse_def Let_def BeforeFirst_def AfterFirst_def)

section \<open>System calls\<close>

record sysret =
  ret :: int
  errno :: int
  data :: string

record os =
  script :: "sysret list"
  os_out :: string
  os_in :: string
  opened :: "int list"
  closed :: "int list"
  peer :: "(string \<times> 16 word) option"

text \<open>A computation returns, throws, has not returned, or is undefined.\<close>

datatype 'a io = Return 'a os | Throw os | Blocked | Fault

fun io_bind :: "'a io \<Rightarrow> ('a \<Rightarrow> os \<Rightarrow> 'b io) \<Rightarrow> 'b io" where
  "io_bind (Return x w) f = f x w"
| "io_bind (Throw w) f = Throw w"
| "io_bind Blocked f = Blocked"
| "io_bind Fault f = Fault"

text \<open>\<^verbatim>\<open>try { ... } catch (Exception&) { ... }\<close>\<close>

fun io_catch :: "'a io \<Rightarrow> (os \<Rightarrow> 'a io) \<Rightarrow> 'a io" where
  "io_catch (Throw w) f = f w"
| "io_catch x f = x"

definition sys_call :: "os \<Rightarrow> sysret io" where
  "sys_call w = (case script w of [] \<Rightarrow> Blocked | r # rs \<Rightarrow> Return r (w \<lparr>script := rs\<rparr>))"

definition EWOULDBLOCK :: int where "EWOULDBLOCK = 11"
definition EAGAIN :: int where "EAGAIN = 11"
definition EINTR :: int where "EINTR = 4"
definition INVALID_SOCKET :: int where "INVALID_SOCKET = -1"

datatype sock_rc = kSuccess | kTimeout

section \<open>Sockets\<close>

text \<open>\<^verbatim>\<open>SelectReadMS\<close> and \<^verbatim>\<open>SelectWriteMS\<close> differ in the set that they give to \<^verbatim>\<open>select\<close>.\<close>

definition SelectMS :: "int \<Rightarrow> int \<Rightarrow> os \<Rightarrow> sock_rc io" where
  "SelectMS sock milliSeconds w =
     (if milliSeconds < 0 then Throw w
      else if sock = INVALID_SOCKET then Throw w
      else io_bind (sys_call w) (\<lambda>r w.
        if ret r = 0 then Return kTimeout w else if ret r < 0 then Throw w else Return kSuccess w))"

definition SelectWriteMS :: "int \<Rightarrow> int \<Rightarrow> os \<Rightarrow> sock_rc io" where
  "SelectWriteMS sock milliSeconds w = SelectMS sock milliSeconds w"

definition SelectReadMS :: "int \<Rightarrow> int \<Rightarrow> os \<Rightarrow> sock_rc io" where
  "SelectReadMS sock milliSeconds w = SelectMS sock milliSeconds w"

text \<open>\<^verbatim>\<open>Socket::Read\<close>: at most 16 KB; \<open>data\<close> is what \<^verbatim>\<open>recv\<close> put into the buffer.\<close>

definition Socket_Read :: "int \<Rightarrow> os \<Rightarrow> (sock_rc \<times> string) io" where
  "Socket_Read sock w =
     io_bind (sys_call w) (\<lambda>r w.
       if ret r < 0 then if errno r = EWOULDBLOCK then Return (kTimeout, []) w else Throw w
       else if ret r = 0 then Throw w
       else let content = take (min (nat (ret r)) 16384) (data r)
            in Return (kSuccess, content) (w \<lparr>os_in := os_in w @ content\<rparr>))"

text \<open>
  The loop of \<^verbatim>\<open>Socket::Send\<close>; the system accepts at most what it is given.  Every turn makes a
  system call, so the recursion is bounded by the script.
\<close>

lemma SelectMS_script: "SelectMS sock ms w = Return k w' \<Longrightarrow> length (script w') < length (script w)"
  by (auto simp: SelectMS_def sys_call_def split: if_splits list.splits)

function send_loop :: "int \<Rightarrow> string \<Rightarrow> os \<Rightarrow> unit io" where
  "send_loop sock pdata w =
     (if pdata = [] then Return () w
      else case SelectWriteMS sock 1000 w of
             Return k w \<Rightarrow>
               if k = kTimeout then send_loop sock pdata w
               else (case script w of
                       [] \<Rightarrow> Blocked
                     | r # rs \<Rightarrow>
                         let w = w \<lparr>script := rs\<rparr>
                         in if ret r \<le> 0 then Throw w
                            else let n = min (nat (ret r)) (length pdata)
                                 in send_loop sock (drop n pdata) (w \<lparr>os_out := os_out w @ take n pdata\<rparr>))
           | Throw w \<Rightarrow> Throw w | Blocked \<Rightarrow> Blocked | Fault \<Rightarrow> Fault)"
  by pat_completeness auto
termination
  by (relation "measure (\<lambda>(s, p, w). length (script w))")
    (auto simp: SelectWriteMS_def dest!: SelectMS_script)

declare send_loop.simps [simp del]

text \<open>\<^verbatim>\<open>int bytesLeft = msg.length()\<close>: a length beyond \<^verbatim>\<open>int\<close> makes the loop read past the message.\<close>

definition Socket_Send :: "int \<Rightarrow> string \<Rightarrow> os \<Rightarrow> unit io" where
  "Socket_Send sock msg w =
     (if sock = INVALID_SOCKET then Throw w
      else if msg = [] then Return () w
      else if int (length msg) > INT_MAX then Fault
      else send_loop sock msg w)"

text \<open>
  What the system accepted: the whole of \<open>p\<close> when the call returned, a proper prefix when it
  threw.  A write that is cut in two accepts the concatenation.
\<close>

fun accepted :: "string \<Rightarrow> os \<Rightarrow> 'a io \<Rightarrow> bool" where
  "accepted p w (Return x w') \<longleftrightarrow> os_out w' = os_out w @ p"
| "accepted p w (Throw w') \<longleftrightarrow> (\<exists>q. strict_prefix q p \<and> os_out w' = os_out w @ q)"
| "accepted p w Blocked \<longleftrightarrow> True"
| "accepted p w Fault \<longleftrightarrow> False"

lemma accepted_append:
  assumes "accepted b w1 x" "os_out w1 = os_out w @ a" shows "accepted (a @ b) w x"
proof (cases x)
  case (Throw w')
  then obtain q where "strict_prefix q b" "os_out w' = os_out w1 @ q" using assms(1) by auto
  then show ?thesis using Throw assms(2)
    by (auto simp: strict_prefix_def intro!: exI [of _ "a @ q"])
qed (use assms in auto)

lemma SelectMS_cases:
  obtains k w' where "SelectMS sock ms w = Return k w'" "os_out w' = os_out w" "os_in w' = os_in w"
  | w' where "SelectMS sock ms w = Throw w'" "os_out w' = os_out w" "os_in w' = os_in w"
  | "SelectMS sock ms w = Blocked"
proof -
  have "(\<exists>k w'. SelectMS sock ms w = Return k w' \<and> os_out w' = os_out w \<and> os_in w' = os_in w) \<or>
    (\<exists>w'. SelectMS sock ms w = Throw w' \<and> os_out w' = os_out w \<and> os_in w' = os_in w) \<or> SelectMS sock ms w = Blocked"
    by (cases "script w") (auto simp: SelectMS_def sys_call_def)
  with that show ?thesis by blast
qed

lemma send_loop_accepted: "accepted p w (send_loop sock p w)"
proof (induction sock p w rule: send_loop.induct)
  case (1 sock p w)
  consider (empty) "p = []" | (select) "p \<noteq> []" by blast
  then show ?case
  proof cases
    case empty
    then show ?thesis by (simp add: send_loop.simps)
  next
    case select
    note IH = "1.IH" [OF select]
    show ?thesis
    proof (cases rule: SelectMS_cases [of sock 1000 w])
      case (1 k w1)
      have sel: "SelectWriteMS sock 1000 w = Return k w1" using 1(1) by (simp add: SelectWriteMS_def)
      show ?thesis
      proof (cases "k = kTimeout")
        case True
        then have "accepted p w1 (send_loop sock p w1)" using IH(1) [OF sel] by simp
        from accepted_append [OF this, of w "[]"] have "accepted p w (send_loop sock p w1)" using 1(2) by simp
        then show ?thesis using select True by (subst send_loop.simps) (simp add: sel)
      next
        case False
        show ?thesis
        proof (cases "script w1")
          case Nil
          then show ?thesis using select False by (subst send_loop.simps) (simp add: sel)
        next
          case (Cons r rs)
          let ?n = "min (nat (ret r)) (length p)"
          let ?w = "w1 \<lparr>script := rs, os_out := os_out w1 @ take ?n p\<rparr>"
          show ?thesis
          proof (cases "ret r \<le> 0")
            case True
            then show ?thesis using select False Cons 1(2) by (subst send_loop.simps) (simp add: sel strict_prefix_def)
          next
            case pos: False
            have "accepted (drop ?n p) ?w (send_loop sock (drop ?n p) ?w)"
              using IH(2) [OF sel False Cons refl pos refl] by simp
            from accepted_append [OF this, of w "take ?n p"] 1(2)
            have "accepted p w (send_loop sock (drop ?n p) ?w)" by simp
            then show ?thesis using select False Cons pos by (subst send_loop.simps) (simp add: sel Let_def)
          qed
        qed
      qed
    next
      case (2 w1)
      then show ?thesis using select by (subst send_loop.simps) (simp add: SelectWriteMS_def strict_prefix_def)
    next
      case 3
      then show ?thesis using select by (subst send_loop.simps) (simp add: SelectWriteMS_def)
    qed
  qed
qed

text \<open>A system that always becomes ready and accepts something takes the whole message.\<close>

definition ready_to_write :: "nat \<Rightarrow> nat \<Rightarrow> sysret list" where
  "ready_to_write waits n =
     replicate waits \<lparr>ret = 0, errno = 0, data = []\<rparr> @
     [\<lparr>ret = 1, errno = 0, data = []\<rparr>, \<lparr>ret = int n, errno = 0, data = []\<rparr>]"

lemma send_loop_wait:
  assumes "sock \<noteq> INVALID_SOCKET" "p \<noteq> []"
  shows "send_loop sock p (w \<lparr>script := replicate k \<lparr>ret = 0, errno = 0, data = []\<rparr> @ rs\<rparr>) =
     send_loop sock p (w \<lparr>script := rs\<rparr>)"
  using assms
  by (induction k) (simp_all, subst send_loop.simps, simp add: SelectWriteMS_def SelectMS_def sys_call_def)

lemma send_loop_ready:
  assumes "sock \<noteq> INVALID_SOCKET" "p \<noteq> []" "0 < n"
  shows "send_loop sock p (w \<lparr>script := ready_to_write k n @ rs\<rparr>) =
     send_loop sock (drop n p) (w \<lparr>script := rs, os_out := os_out w @ take n p\<rparr>)"
proof -
  have "send_loop sock p (w \<lparr>script := [\<lparr>ret = 1, errno = 0, data = []\<rparr>, \<lparr>ret = int n, errno = 0, data = []\<rparr>] @ rs\<rparr>) =
     send_loop sock (drop n p) (w \<lparr>script := rs, os_out := os_out w @ take n p\<rparr>)"
    using assms by (subst send_loop.simps) (simp add: SelectWriteMS_def SelectMS_def sys_call_def Let_def min_def)
  then show ?thesis using send_loop_wait [OF assms(1,2)] by (simp add: ready_to_write_def)
qed

definition writable :: "(nat \<times> nat) list \<Rightarrow> sysret list" where
  "writable ts = concat (map (\<lambda>(k, n). ready_to_write k n) ts)"

lemma send_loop_returns:
  assumes "sock \<noteq> INVALID_SOCKET" "\<forall>(k, n)\<in>set ts. 0 < n" "length p \<le> length ts"
  shows "\<exists>m\<le>length p. send_loop sock p (w \<lparr>script := writable ts\<rparr>) =
     Return () (w \<lparr>script := writable (drop m ts), os_out := os_out w @ p\<rparr>)"
  using assms(2,3)
proof (induction ts arbitrary: p w)
  case Nil
  then show ?case by (simp add: send_loop.simps)
next
  case (Cons t ts)
  obtain k n where t: "t = (k, n)" by force
  show ?case
  proof (cases "p = []")
    case True
    then show ?thesis by (simp add: send_loop.simps)
  next
    case False
    let ?w = "w \<lparr>os_out := os_out w @ take n p\<rparr>"
    have n: "0 < n" "length (drop n p) \<le> length ts" using Cons.prems t False by (auto simp: neq_Nil_conv)
    then obtain m where m: "m \<le> length (drop n p)" "send_loop sock (drop n p) (?w \<lparr>script := writable ts\<rparr>) =
        Return () (?w \<lparr>script := writable (drop m ts), os_out := os_out ?w @ drop n p\<rparr>)"
      using Cons.IH [of "drop n p" ?w] Cons.prems(1) by auto
    have e: "?w \<lparr>script := rs\<rparr> = w \<lparr>script := rs, os_out := os_out w @ take n p\<rparr>" for rs by simp
    have "send_loop sock p (w \<lparr>script := writable (t # ts)\<rparr>) = send_loop sock (drop n p) (?w \<lparr>script := writable ts\<rparr>)"
      using send_loop_ready [OF assms(1) False n(1), where w = w and k = k and rs = "writable ts"]
      unfolding e by (simp add: t writable_def)
    also have "\<dots> = Return () (w \<lparr>script := writable (drop (Suc m) (t # ts)), os_out := os_out w @ p\<rparr>)"
      unfolding m(2) by simp
    finally show ?thesis using m(1) n(1) False by (intro exI [of _ "Suc m"]) (cases p; simp)
  qed
qed

lemma Socket_Send_returns:
  assumes "sock \<noteq> INVALID_SOCKET" "\<forall>(k, n)\<in>set ts. 0 < n" "length p \<le> length ts" "int (length p) \<le> INT_MAX"
  shows "\<exists>m\<le>length p. Socket_Send sock p (w \<lparr>script := writable ts\<rparr>) =
     Return () (w \<lparr>script := writable (drop m ts), os_out := os_out w @ p\<rparr>)"
  using send_loop_returns [OF assms(1-3), of w] assms(1,4) by (auto simp: Socket_Send_def)

section \<open>The socket of a client\<close>

record Socket =
  sock_fd :: int
  sock_closeOnExit :: bool

definition new_Socket :: Socket where
  "new_Socket = \<lparr>sock_fd = INVALID_SOCKET, sock_closeOnExit = True\<rparr>"

definition DestroySocket :: "Socket \<Rightarrow> os \<Rightarrow> Socket \<times> os" where
  "DestroySocket s w =
     (s \<lparr>sock_fd := INVALID_SOCKET\<rparr>,
      if sock_closeOnExit s \<and> sock_fd s \<noteq> INVALID_SOCKET then w \<lparr>closed := closed w @ [sock_fd s]\<rparr> else w)"

text \<open>
  \<^verbatim>\<open>ConnectRemote\<close>: the answers of \<^verbatim>\<open>socket\<close>, \<^verbatim>\<open>inet_pton\<close> and \<^verbatim>\<open>connect\<close>; \<^verbatim>\<open>htons\<close> takes the low 16 bits of
  the port.
\<close>

definition ConnectRemote :: "string \<Rightarrow> int \<Rightarrow> Socket \<Rightarrow> os \<Rightarrow> (bool \<times> Socket) io" where
  "ConnectRemote address port s w =
     (let (s, w) = DestroySocket s w
      in io_bind (sys_call w) (\<lambda>r w.
           let s = s \<lparr>sock_fd := ret r\<rparr>;
               w = (if ret r = INVALID_SOCKET then w else w \<lparr>opened := opened w @ [ret r]\<rparr>)
           in io_bind (sys_call w) (\<lambda>r w.
                if ret r \<le> 0 then Return (False, s) w
                else io_bind (sys_call w) (\<lambda>r w.
                       if ret r = 0 then Return (True, s) (w \<lparr>peer := Some (address, word_of_int port)\<rparr>)
                       else Return (False, s) w))))"

definition SocketClient_Connect :: "string \<Rightarrow> Socket \<Rightarrow> os \<Rightarrow> (bool \<times> Socket) io" where
  "SocketClient_Connect connectionString s w =
     (case DoParse connectionString of
        None \<Rightarrow> Throw w
      | Some cs \<Rightarrow>
         if \<not> cs_isOK cs then Return (False, s) w
         else if cs_protocol cs = Some kUnixLocalSocket then Throw w
         else ConnectRemote (cs_host cs) (to_int32 (cs_port cs)) s w)"

text \<open>\<^verbatim>\<open>SocketTransport::Connect\<close>: a try per millisecond.  A negative time-out would count down to the smallest \<^verbatim>\<open>long\<close>.\<close>

primrec connect_loop :: "nat \<Rightarrow> string \<Rightarrow> Socket \<Rightarrow> os \<Rightarrow> (bool \<times> Socket) io" where
  "connect_loop 0 str s w = Return (False, s) w"
| "connect_loop (Suc loops) str s w =
     io_bind (SocketClient_Connect str s w) (\<lambda>(ok, s) w.
       if ok then Return (True, s) w else connect_loop loops str s w)"

definition SocketTransport_Connect :: "string \<Rightarrow> int \<Rightarrow> Socket \<Rightarrow> os \<Rightarrow> (bool \<times> Socket) io" where
  "SocketTransport_Connect str timeoutSeconds s w =
     (if timeoutSeconds < 0 then Fault else connect_loop (nat (timeoutSeconds * 1000)) str s w)"

definition SocketTransport_Read :: "Socket \<Rightarrow> int \<Rightarrow> os \<Rightarrow> (bool \<times> string) io" where
  "SocketTransport_Read s msTimeout w =
     io_catch
       (io_bind (SelectReadMS (sock_fd s) msTimeout w) (\<lambda>k w.
          if k = kTimeout then Return (True, []) w
          else io_bind (Socket_Read (sock_fd s) w) (\<lambda>(k, buffer) w.
                 if k \<noteq> kSuccess then Return (False, []) w else Return (True, buffer) w)))
       (\<lambda>w. Return (False, []) w)"

definition SocketTransport_Send :: "Socket \<Rightarrow> string \<Rightarrow> os \<Rightarrow> nat io" where
  "SocketTransport_Send s buffer w =
     io_catch (io_bind (Socket_Send (sock_fd s) buffer w) (\<lambda>_ w. Return (length buffer) w)) (\<lambda>w. Return 0 w)"

text \<open>Every descriptor that was opened is the one of the socket or has been closed, once.\<close>

definition owns :: "Socket \<Rightarrow> os \<Rightarrow> bool" where
  "owns s w \<longleftrightarrow> sock_closeOnExit s \<and>
     mset (opened w) = mset (closed w) + (if sock_fd s = INVALID_SOCKET then {#} else {#sock_fd s#})"

lemma DestroySocket_owns:
  "owns s w \<Longrightarrow> DestroySocket s w = (s', w') \<Longrightarrow> owns s' w' \<and> sock_fd s' = INVALID_SOCKET \<and> mset (opened w') = mset (closed w')"
  by (auto simp: owns_def DestroySocket_def)

lemma ConnectRemote_owns:
  assumes "owns s w" "ConnectRemote address port s w = Return (ok, s') w'" shows "owns s' w'"
proof -
  obtain s1 w1 where d: "DestroySocket s w = (s1, w1)" by force
  have "owns s1 w1" "sock_fd s1 = INVALID_SOCKET" "mset (opened w1) = mset (closed w1)"
    using DestroySocket_owns [OF assms(1) d] by simp_all
  with assms(2) show ?thesis
    unfolding ConnectRemote_def d
    by (auto simp: owns_def sys_call_def Let_def split: list.splits if_splits)
qed

lemma connect_loop_owns: "owns s w \<Longrightarrow> connect_loop n str s w = Return (ok, s') w' \<Longrightarrow> owns s' w'"
proof (induction n arbitrary: s w)
  case (Suc n)
  obtain ok1 s1 w1 where c: "SocketClient_Connect str s w = Return (ok1, s1) w1"
    using Suc.prems(2) by (cases "SocketClient_Connect str s w") auto
  have "owns s1 w1"
    using c Suc.prems(1) ConnectRemote_owns by (auto simp: SocketClient_Connect_def split: option.splits if_splits)
  then show ?case using Suc.IH [of s1 w1] Suc.prems(2) c by (auto split: if_splits)
qed simp

lemma SocketTransport_Send_spec:
  assumes "SocketTransport_Send s buffer w = Return n w'"
  shows "n = length buffer \<and> os_out w' = os_out w @ buffer \<or> n = 0 \<and> (\<exists>q. prefix q buffer \<and> os_out w' = os_out w @ q)"
proof (cases "Socket_Send (sock_fd s) buffer w")
  case (Return u w1)
  then show ?thesis
    using assms send_loop_accepted [of buffer w "sock_fd s"]
    by (auto simp: SocketTransport_Send_def Socket_Send_def split: if_splits)
next
  case (Throw w1)
  then show ?thesis
    using assms send_loop_accepted [of buffer w "sock_fd s"]
    by (auto simp: SocketTransport_Send_def Socket_Send_def strict_prefix_def split: if_splits)
qed (use assms in \<open>simp_all add: SocketTransport_Send_def\<close>)

lemma SocketTransport_Read_spec:
  assumes "SocketTransport_Read s ms w = Return (ok, buffer) w'"
  shows "os_in w' = os_in w @ buffer" "os_out w' = os_out w"
  using assms
  by (auto simp: SocketTransport_Read_def SelectReadMS_def SelectMS_def Socket_Read_def sys_call_def Let_def
      split: list.splits if_splits)

end
