(* ===== verification/Dap_SocketServer.thy ===== *)
theory Dap_SocketServer
  imports Dap_Transport
begin

text \<open>
  \<^verbatim>\<open>SocketServer\<close>, and the operations of \<^verbatim>\<open>Socket\<close> and \<^verbatim>\<open>ConnectionString\<close> that the client does not use.  An exception leaves
  the socket object as it is, so these functions return it in every case; \<open>None\<close> is the exception.
\<close>

section \<open>Sockets and connection strings\<close>

definition Socket_Release :: "Socket \<Rightarrow> int \<times> Socket" where
  "Socket_Release s = (sock_fd s, s \<lparr>sock_fd := INVALID_SOCKET\<rparr>)"

definition SetCloseOnExit :: "bool \<Rightarrow> Socket \<Rightarrow> Socket" where
  "SetCloseOnExit b s = s \<lparr>sock_closeOnExit := b\<rparr>"

text \<open>\<^verbatim>\<open>MakeSocketBlocking\<close>: the flags that it gives to \<^verbatim>\<open>fcntl(F_SETFL)\<close>; \<^verbatim>\<open>O_NONBLOCK\<close> is 04000.\<close>

unbundle bit_operations_syntax

definition O_NONBLOCK :: "32 word" where "O_NONBLOCK = 0x800"

definition MakeSocketBlocking :: "bool \<Rightarrow> 32 word \<Rightarrow> 32 word" where
  "MakeSocketBlocking blocking flags = (if blocking then flags AND NOT O_NONBLOCK else flags OR O_NONBLOCK)"

definition SetHost :: "string \<Rightarrow> ConnectionString \<Rightarrow> ConnectionString" where "SetHost host cs = cs \<lparr>cs_host := host\<rparr>"
definition SetIsOK :: "bool \<Rightarrow> ConnectionString \<Rightarrow> ConnectionString" where "SetIsOK isOK cs = cs \<lparr>cs_isOK := isOK\<rparr>"
definition SetPath :: "string \<Rightarrow> ConnectionString \<Rightarrow> ConnectionString" where "SetPath path cs = cs \<lparr>cs_path := path\<rparr>"
definition SetPort :: "int \<Rightarrow> ConnectionString \<Rightarrow> ConnectionString" where "SetPort port cs = cs \<lparr>cs_port := port\<rparr>"
definition SetProtocol :: "eProtocol \<Rightarrow> ConnectionString \<Rightarrow> ConnectionString" where
  "SetProtocol protocol cs = cs \<lparr>cs_protocol := Some protocol\<rparr>"

section \<open>The server\<close>

text \<open>\<^verbatim>\<open>ntohs(socket_name.sin_port)\<close>: the two bytes that \<^verbatim>\<open>getsockname\<close> stores.\<close>

definition ntohs :: "string \<Rightarrow> int" where
  "ntohs bytes = (case bytes of hi # lo # _ \<Rightarrow> 256 * int (of_char hi) + int (of_char lo) | _ \<Rightarrow> 0)"

text \<open>
  \<^verbatim>\<open>CreateServer\<close>: \<^verbatim>\<open>socket\<close>, \<^verbatim>\<open>setsockopt\<close>, \<^verbatim>\<open>inet_pton\<close>, \<^verbatim>\<open>bind\<close>, \<^verbatim>\<open>getsockname\<close> for port 0, \<^verbatim>\<open>listen\<close>.  The answers of the second
  and third are not looked at, and a socket that the object holds already is not closed.
\<close>

definition CreateServer :: "string \<Rightarrow> int \<Rightarrow> Socket \<Rightarrow> os \<Rightarrow> (int option \<times> Socket) io" where
  "CreateServer address port s w =
     io_bind (sys_call w) (\<lambda>r w.
       let s = s \<lparr>sock_fd := ret r\<rparr>
       in if ret r = INVALID_SOCKET then Return (None, s) w
          else
            let w = w \<lparr>opened := opened w @ [ret r]\<rparr>
            in io_bind (sys_call w) (\<lambda>_ w.
               io_bind (sys_call w) (\<lambda>_ w.
               io_bind (sys_call w) (\<lambda>r w.
                 if ret r \<noteq> 0 then Return (None, s) w
                 else
                   let w = w \<lparr>peer := Some (address, word_of_int port)\<rparr>
                   in io_bind
                        (if port = 0 then
                           io_bind (sys_call w) (\<lambda>r w.
                             if ret r \<noteq> 0 then Return None w else Return (Some (ntohs (data r))) w)
                         else Return (Some port) w) (\<lambda>port w.
                        case port of
                          None \<Rightarrow> Return (None, s) w
                        | Some port \<Rightarrow>
                           io_bind (sys_call w) (\<lambda>r w.
                             if ret r \<noteq> 0 then Return (None, s) w else Return (Some port, s) w))))))"

text \<open>\<^verbatim>\<open>Start\<close>; the exception of the parser of connection strings (\<open>Throw\<close>) passes through.\<close>

definition SocketServer_Start :: "string \<Rightarrow> Socket \<Rightarrow> os \<Rightarrow> (int option \<times> Socket) io" where
  "SocketServer_Start connectionString s w =
     (case DoParse connectionString of
        None \<Rightarrow> Throw w
      | Some cs \<Rightarrow>
         if \<not> cs_isOK cs then Return (None, s) w
         else if cs_protocol cs = Some kTcp then CreateServer (cs_host cs) (to_int32 (cs_port cs)) s w
         else Return (None, s) w)"

text \<open>\<^verbatim>\<open>WaitForNewConnectionRaw\<close>: the time-out is in seconds; \<open>None\<close> is the null pointer.\<close>

definition WaitForNewConnection :: "int \<Rightarrow> Socket \<Rightarrow> os \<Rightarrow> Socket option io" where
  "WaitForNewConnection timeout s w =
     (if timeout < 0 then Return None w
      else io_bind (SelectReadMS (sock_fd s) (timeout * 1000) w) (\<lambda>k w.
             if k = kTimeout then Return None w
             else io_bind (sys_call w) (\<lambda>r w.
                    if ret r < 0 then Throw w
                    else Return (Some \<lparr>sock_fd = ret r, sock_closeOnExit = True\<rparr>) (w \<lparr>opened := opened w @ [ret r]\<rparr>))))"

section \<open>Descriptors and ports\<close>

lemma CreateServer_owns:
  assumes "owns s w" "sock_fd s = INVALID_SOCKET" "CreateServer address port s w = Return (r, s') w'"
  shows "owns s' w'"
  using assms by (auto simp: CreateServer_def owns_def sys_call_def Let_def split: list.splits if_splits option.splits)

text \<open>On success the object holds a listening socket, and the port is the one asked for or the one the system chose.\<close>

lemma CreateServer_port:
  assumes "CreateServer address port s w = Return (Some n, s') w'"
  shows "sock_fd s' \<noteq> INVALID_SOCKET" "peer w' = Some (address, word_of_int port)" "port \<noteq> 0 \<Longrightarrow> n = port" "port = 0 \<Longrightarrow> 0 \<le> n \<and> n < 2 ^ 16"
proof -
  have "0 \<le> ntohs b \<and> ntohs b < 2 ^ 16" for b
  proof (cases "\<exists>hi lo r. b = hi # lo # r")
    case True
    then obtain hi lo r where b: "b = hi # lo # r" by blast
    have "(of_char hi :: nat) < 256" "(of_char lo :: nat) < 256" by simp_all
    moreover have "n < 256 \<Longrightarrow> m < 256 \<Longrightarrow> 0 \<le> 256 * int n + int m \<and> 256 * int n + int m < 2 ^ 16" for n m by simp
    ultimately show ?thesis unfolding b ntohs_def list.case by blast
  qed (auto simp: ntohs_def split: list.splits)
  then show "sock_fd s' \<noteq> INVALID_SOCKET" "peer w' = Some (address, word_of_int port)" "port \<noteq> 0 \<Longrightarrow> n = port" "port = 0 \<Longrightarrow> 0 \<le> n \<and> n < 2 ^ 16"
    using assms by (auto simp: CreateServer_def sys_call_def Let_def split: list.splits if_splits option.splits)
qed

lemma WaitForNewConnection_owns:
  assumes "WaitForNewConnection timeout s w = Return r w'"
  shows "closed w' = closed w \<and> opened w' = opened w @ (case r of None \<Rightarrow> [] | Some c \<Rightarrow> [sock_fd c])"
  using assms by (auto simp: WaitForNewConnection_def SelectReadMS_def SelectMS_def sys_call_def split: list.splits if_splits)

text \<open>A second start forgets the first socket.\<close>

lemma second_start_leaks:
  assumes "owns s w" "sock_fd s \<noteq> INVALID_SOCKET" "CreateServer address port s w = Return (r, s') w'" "sock_fd s' \<noteq> INVALID_SOCKET"
  shows "mset (opened w') = add_mset (sock_fd s) (mset (closed w') + {#sock_fd s'#})"
  using assms by (auto simp: CreateServer_def owns_def sys_call_def Let_def split: list.splits if_splits option.splits)

lemma MakeSocketBlocking_bit:
  "bit (MakeSocketBlocking blocking flags) n = (if n = 11 then \<not> blocking else bit flags n)"
proof -
  have o: "O_NONBLOCK = push_bit 11 1" by (simp add: O_NONBLOCK_def)
  have "bit O_NONBLOCK n \<longleftrightarrow> n = 11" unfolding o bit_push_bit_iff bit_1_iff by auto
  then show ?thesis by (auto simp: MakeSocketBlocking_def bit_and_iff bit_or_iff bit_not_iff dest: bit_imp_le_length)
qed

end
