(* ===== verification/Dap_Client.thy ===== *)
theory Dap_Client
  imports Dap_ObjGenerator
begin

text \<open>
  \<^verbatim>\<open>dap::Client\<close> of \<^verbatim>\<open>dap/Client.cpp\<close>: the state of a debug session, the handlers of incoming
  messages and the requests of the API.  A method is a function of the client state; its
  result is an \<open>outcome\<close>, since printing a received number may overflow a buffer.  Pointers that
  the client only tests (\<^verbatim>\<open>m_transport\<close>, \<^verbatim>\<open>m_readerThread\<close>) are booleans.  What the client does to
  its environment is recorded in the field \<open>trace\<close>: the bytes given to \<^verbatim>\<open>Transport::Send\<close>, the
  events given to the application, the callbacks called.

  The application is the parameter \<open>app\<close>: its event handlers and callbacks, which may call the
  API of the client and so change its state, and \<^verbatim>\<open>wxFileName::GetFullName\<close>.  A callback that
  the application passes to the client is a number.
\<close>

named_theorems client_defs \<open>the methods of the client\<close>

section \<open>State\<close>

datatype wxEventType =
    wxEVT_DAP_LOG_EVENT | wxEVT_DAP_LOST_CONNECTION | wxEVT_DAP_INITIALIZE_RESPONSE
  | wxEVT_DAP_STACKTRACE_RESPONSE | wxEVT_DAP_SCOPES_RESPONSE | wxEVT_DAP_VARIABLES_RESPONSE
  | wxEVT_DAP_SET_SOURCE_BREAKPOINT_RESPONSE | wxEVT_DAP_SET_FUNCTION_BREAKPOINT_RESPONSE
  | wxEVT_DAP_BREAKPOINT_LOCATIONS_RESPONSE | wxEVT_DAP_CONFIGURARIONE_DONE_RESPONSE
  | wxEVT_DAP_LAUNCH_RESPONSE | wxEVT_DAP_THREADS_RESPONSE | wxEVT_DAP_RUN_IN_TERMINAL_REQUEST
  | wxEVT_DAP_STOPPED_EVENT | wxEVT_DAP_STOPPED_ON_ENTRY_EVENT | wxEVT_DAP_PROCESS_EVENT
  | wxEVT_DAP_EXITED_EVENT | wxEVT_DAP_TERMINATED_EVENT | wxEVT_DAP_INITIALIZED_EVENT
  | wxEVT_DAP_OUTPUT_EVENT | wxEVT_DAP_BREAKPOINT_EVENT | wxEVT_DAP_CONTINUED_EVENT
  | wxEVT_DAP_MODULE_EVENT | wxEVT_DAP_DEBUGPYWAITINGFORSERVER_EVENT

record DAPEvent =
  event_type :: wxEventType
  event_object :: "Message option"
  event_string :: string
  event_request :: "RequestMsg option"

datatype eHandshakeState = kNotPerformed | kInProgress | kCompleted

datatype SteppingGranularity = LINE | STATEMENT | INSTRUCTION

datatype ValueDisplayFormat = NATIVE | HEX

datatype action =
    Sent string
  | Posted DAPEvent
  | Called_source nat bool string string
  | Called_evaluate nat bool string string int

record Client =
  m_transport :: bool
  m_rpc :: string
  m_shutdown :: bool
  m_terminated :: bool
  m_readerThread :: bool
  m_requestSeuqnce :: "64 word"
  m_handshake_state :: eHandshakeState
  m_active_thread_id :: int
  m_can_interact :: bool
  m_requestIdToFilepath :: "64 word \<rightharpoonup> string"
  m_features :: "64 word"
  m_wants_log_events :: bool
  m_get_frames_queue :: "int list"
  m_get_scopes_queue :: "int list"
  m_get_variables_queue :: "(int \<times> EvaluateContext) list"
  m_load_sources_queue :: "nat list"
  m_evaluate_queue :: "nat list"
  m_source_breakpoints_queue :: "string list"
  m_in_flight_requests :: "int \<rightharpoonup> RequestMsg"
  trace :: "action list"

record 'c App =
  on_event :: "DAPEvent \<Rightarrow> 'c Client_scheme \<Rightarrow> 'c Client_scheme outcome"
  on_source :: "nat \<Rightarrow> bool \<Rightarrow> string \<Rightarrow> string \<Rightarrow> 'c Client_scheme \<Rightarrow> 'c Client_scheme outcome"
  on_evaluate :: "nat \<Rightarrow> bool \<Rightarrow> string \<Rightarrow> string \<Rightarrow> int \<Rightarrow> 'c Client_scheme \<Rightarrow> 'c Client_scheme outcome"
  GetFullName :: "string \<Rightarrow> string"

definition new_Client :: Client where
  "new_Client = \<lparr>m_transport = False, m_rpc = [], m_shutdown = False, m_terminated = False,
     m_readerThread = False, m_requestSeuqnce = 0, m_handshake_state = kNotPerformed,
     m_active_thread_id = wxNOT_FOUND, m_can_interact = False, m_requestIdToFilepath = Map.empty,
     m_features = 0, m_wants_log_events = False, m_get_frames_queue = [], m_get_scopes_queue = [],
     m_get_variables_queue = [], m_load_sources_queue = [], m_evaluate_queue = [],
     m_source_breakpoints_queue = [], m_in_flight_requests = Map.empty, trace = []\<rparr>"

definition SetWantsLogEvents :: "bool \<Rightarrow> 'c Client_scheme \<Rightarrow> 'c Client_scheme" where
  "SetWantsLogEvents b c = c \<lparr>m_wants_log_events := b\<rparr>"

definition IsConnected :: "'c Client_scheme \<Rightarrow> bool" where
  "IsConnected c \<longleftrightarrow> m_readerThread c \<and> \<not> m_terminated c"

section \<open>The reader thread and the reset\<close>

definition StopReaderThread :: "'c Client_scheme \<Rightarrow> 'c Client_scheme" where
  "StopReaderThread c = (if \<not> m_readerThread c then c else c \<lparr>m_shutdown := True, m_readerThread := False\<rparr>)"

definition StartReaderThread :: "'c Client_scheme \<Rightarrow> 'c Client_scheme" where
  "StartReaderThread c = (if m_readerThread c \<or> \<not> m_transport c then c else c \<lparr>m_readerThread := True\<rparr>)"

definition Reset :: "'c Client_scheme \<Rightarrow> 'c Client_scheme" where
  "Reset c =
     (let c = StopReaderThread c
      in c \<lparr>m_transport := False, m_shutdown := False, m_terminated := False, m_rpc := [],
            m_requestSeuqnce := 0, m_handshake_state := kNotPerformed, m_active_thread_id := wxNOT_FOUND,
            m_can_interact := False, m_requestIdToFilepath := Map.empty, m_features := 0,
            m_load_sources_queue := [], m_get_frames_queue := [], m_get_scopes_queue := [],
            m_get_variables_queue := [], m_source_breakpoints_queue := [], m_evaluate_queue := [],
            m_in_flight_requests := Map.empty\<rparr>)"

definition SetTransport :: "bool \<Rightarrow> 'c Client_scheme \<Rightarrow> 'c Client_scheme" where
  "SetTransport transport c =
     (let c = Reset c; c = c \<lparr>m_transport := transport\<rparr> in StartReaderThread c)"

section \<open>Events\<close>

text \<open>\<^verbatim>\<open>wxEvtHandler::ProcessEvent\<close>: the application handles the event at once.\<close>

definition fire_event :: "'c App \<Rightarrow> DAPEvent \<Rightarrow> 'c Client_scheme \<Rightarrow> 'c Client_scheme outcome" where
  "fire_event app e c = on_event app e (c \<lparr>trace := trace c @ [Posted e]\<rparr>)"

definition plain_event :: "wxEventType \<Rightarrow> DAPEvent" where
  "plain_event t = \<lparr>event_type = t, event_object = None, event_string = [], event_request = None\<rparr>"

definition log_event :: "string \<Rightarrow> DAPEvent" where
  "log_event s = (plain_event wxEVT_DAP_LOG_EVENT) \<lparr>event_string := s\<rparr>"

definition OnConnectionError :: "'c App \<Rightarrow> 'c Client_scheme \<Rightarrow> 'c Client_scheme outcome" where
  "OnConnectionError app c = omap Reset (fire_event app (plain_event wxEVT_DAP_LOST_CONNECTION) c)"

definition SendDAPEvent ::
  "'c App \<Rightarrow> wxEventType \<Rightarrow> Message \<Rightarrow> Json \<Rightarrow> RequestMsg option \<Rightarrow> 'c Client_scheme \<Rightarrow> 'c Client_scheme outcome" where
  "SendDAPEvent app type dap_message json req c =
     (let ptr = Message_From json dap_message;
          c = (if type = wxEVT_DAP_STOPPED_EVENT
               then (case ptr of MEvent (MStoppedEvent e) \<Rightarrow> c \<lparr>m_active_thread_id := StoppedEvent_threadId e\<rparr> | _ \<Rightarrow> c)
               else c)
      in fire_event app \<lparr>event_type = type, event_object = Some ptr, event_string = [], event_request = req\<rparr> c)"

definition GetOriginatingRequest :: "Response \<Rightarrow> 'c Client_scheme \<Rightarrow> RequestMsg option \<times> 'c Client_scheme" where
  "GetOriginatingRequest response c =
     (case m_in_flight_requests c (Response_request_seq response) of
        None \<Rightarrow> (None, c)
      | Some req \<Rightarrow>
         (Some req, c \<lparr>m_in_flight_requests := (m_in_flight_requests c)(Response_request_seq response := None)\<rparr>))"

section \<open>Features\<close>

text \<open>The names of \<^verbatim>\<open>enum eFeatures\<close> in the order of their bits.\<close>

definition feature_names :: "string list" where
  "feature_names =
     [''supportsConfigurationDoneRequest'', ''supportsFunctionBreakpoints'', ''supportsConditionalBreakpoints'',
      ''supportsHitConditionalBreakpoints'', ''supportsEvaluateForHovers'', ''supportsStepBack'',
      ''supportsSetVariable'', ''supportsRestartFrame'', ''supportsGotoTargetsRequest'',
      ''supportsStepInTargetsRequest'', ''supportsCompletionsRequest'', ''supportsModulesRequest'',
      ''supportsRestartRequest'', ''supportsExceptionOptions'', ''supportsValueFormattingOptions'',
      ''supportsExceptionInfoRequest'', ''supportTerminateDebuggee'', ''supportsDelayedStackTraceLoading'',
      ''supportsLoadedSourcesRequest'', ''supportsProgressReporting'', ''supportsRunInTerminalRequest'',
      ''supportsBreakpointLocationsRequest'']"

definition supportsBreakpointLocationsRequest :: nat where
  "supportsBreakpointLocationsRequest = 21"

definition ENABLE_FEATURE :: "Json \<Rightarrow> 64 word \<Rightarrow> nat \<Rightarrow> 64 word" where
  "ENABLE_FEATURE body f i =
     (if GetBool (Json_at body (feature_names ! i)) False then f OR push_bit i 1 else f)"

definition IsSupported :: "nat \<Rightarrow> 'c Client_scheme \<Rightarrow> bool" where
  "IsSupported i c \<longleftrightarrow> m_features c AND push_bit i 1 \<noteq> 0"

section \<open>Incoming messages\<close>

text \<open>\<^verbatim>\<open>HandleEvaluateResponse\<close> and \<^verbatim>\<open>HandleSourceResponse\<close>: the oldest callback gets the answer.\<close>

definition HandleEvaluateResponse :: "'c App \<Rightarrow> Json \<Rightarrow> 'c Client_scheme \<Rightarrow> 'c Client_scheme outcome" where
  "HandleEvaluateResponse app json c =
     (case m_evaluate_queue c of
        [] \<Rightarrow> Ok c
      | cb # q \<Rightarrow>
         let response = EvaluateResponse_From json new_EvaluateResponse;
             c = c \<lparr>m_evaluate_queue := q\<rparr>;
             c = c \<lparr>trace := trace c @ [Called_evaluate cb (Response_success response)
                    (EvaluateResponse_result response) (EvaluateResponse_type response)
                    (EvaluateResponse_variablesReference response)]\<rparr>
         in on_evaluate app cb (Response_success response) (EvaluateResponse_result response)
              (EvaluateResponse_type response) (EvaluateResponse_variablesReference response) c)"

definition HandleSourceResponse :: "'c App \<Rightarrow> Json \<Rightarrow> 'c Client_scheme \<Rightarrow> 'c Client_scheme outcome" where
  "HandleSourceResponse app json c =
     (case m_load_sources_queue c of
        [] \<Rightarrow> Ok c
      | cb # q \<Rightarrow>
         let response = SourceResponse_From json new_SourceResponse;
             c = c \<lparr>m_load_sources_queue := q\<rparr>;
             c = c \<lparr>trace := trace c @ [Called_source cb (Response_success response)
                    (SourceResponse_content response) (SourceResponse_mimeType response)]\<rparr>
         in on_source app cb (Response_success response) (SourceResponse_content response)
              (SourceResponse_mimeType response) c)"

text \<open>The branch \<^verbatim>\<open>if (as_event)\<close> of \<^verbatim>\<open>OnMessage\<close>.\<close>

definition OnEvent :: "'c App \<Rightarrow> string \<Rightarrow> Json \<Rightarrow> 'c Client_scheme \<Rightarrow> 'c Client_scheme outcome" where
  "OnEvent app event json c =
     (if event = ''stopped'' then
        SendDAPEvent app wxEVT_DAP_STOPPED_EVENT (MEvent (MStoppedEvent new_StoppedEvent)) json None
          (c \<lparr>m_can_interact := True\<rparr>)
      else if event = ''process'' then
        SendDAPEvent app wxEVT_DAP_PROCESS_EVENT (MEvent (MProcessEvent new_ProcessEvent)) json None c
      else if event = ''exited'' then
        SendDAPEvent app wxEVT_DAP_EXITED_EVENT (MEvent (MExitedEvent new_ExitedEvent)) json None c
      else if event = ''terminated'' then
        SendDAPEvent app wxEVT_DAP_TERMINATED_EVENT (MEvent (MTerminatedEvent new_TerminatedEvent)) json None c
      else if event = ''initialized'' then
        SendDAPEvent app wxEVT_DAP_INITIALIZED_EVENT (MEvent (MInitializedEvent new_InitializedEvent)) json None c
      else if event = ''output'' then
        SendDAPEvent app wxEVT_DAP_OUTPUT_EVENT (MEvent (MOutputEvent new_OutputEvent)) json None c
      else if event = ''breakpoint'' then
        SendDAPEvent app wxEVT_DAP_BREAKPOINT_EVENT (MEvent (MBreakpointEvent new_BreakpointEvent)) json None c
      else if event = ''continued'' then
        SendDAPEvent app wxEVT_DAP_CONTINUED_EVENT (MEvent (MContinuedEvent new_ContinuedEvent)) json None
          (c \<lparr>m_can_interact := False\<rparr>)
      else if event = ''module'' then
        SendDAPEvent app wxEVT_DAP_MODULE_EVENT (MEvent (MModuleEvent new_ModuleEvent)) json None c
      else Ok c)"

text \<open>
  The arguments of \<^verbatim>\<open>SendDAPEvent\<close> for a response: the new object with what the client remembered
  of the request, and the originating request.
\<close>

definition answer :: "'c App \<Rightarrow> wxEventType \<Rightarrow> ResponseMsg \<Rightarrow> Json \<Rightarrow> Response \<Rightarrow> 'c Client_scheme \<Rightarrow> 'c Client_scheme outcome" where
  "answer app type response json as_response c =
     (let (req, c) = GetOriginatingRequest as_response c
      in SendDAPEvent app type (MResponse response) json req c)"

definition pop_frames :: "'c Client_scheme \<Rightarrow> StackTraceResponse \<times> 'c Client_scheme" where
  "pop_frames c =
     (case m_get_frames_queue c of
        [] \<Rightarrow> (new_StackTraceResponse, c)
      | t # q \<Rightarrow> (new_StackTraceResponse \<lparr>StackTraceResponse_refId := t\<rparr>, c \<lparr>m_get_frames_queue := q\<rparr>))"

definition pop_scopes :: "'c Client_scheme \<Rightarrow> ScopesResponse \<times> 'c Client_scheme" where
  "pop_scopes c =
     (case m_get_scopes_queue c of
        [] \<Rightarrow> (new_ScopesResponse, c)
      | f # q \<Rightarrow> (new_ScopesResponse \<lparr>ScopesResponse_refId := f\<rparr>, c \<lparr>m_get_scopes_queue := q\<rparr>))"

definition pop_variables :: "'c Client_scheme \<Rightarrow> VariablesResponse \<times> 'c Client_scheme" where
  "pop_variables c =
     (case m_get_variables_queue c of
        [] \<Rightarrow> (new_VariablesResponse, c)
      | v # q \<Rightarrow> (new_VariablesResponse \<lparr>VariablesResponse_refId := fst v, VariablesResponse_context := snd v\<rparr>,
                    c \<lparr>m_get_variables_queue := q\<rparr>))"

definition pop_breakpoints :: "'c Client_scheme \<Rightarrow> SetBreakpointsResponse \<times> 'c Client_scheme" where
  "pop_breakpoints c =
     (case m_source_breakpoints_queue c of
        [] \<Rightarrow> (new_SetBreakpointsResponse, c)
      | f # q \<Rightarrow> (new_SetBreakpointsResponse \<lparr>SetBreakpointsResponse_originSource := f\<rparr>,
                    c \<lparr>m_source_breakpoints_queue := q\<rparr>))"

definition pop_filepath :: "int \<Rightarrow> 'c Client_scheme \<Rightarrow> BreakpointLocationsResponse \<times> 'c Client_scheme" where
  "pop_filepath request_seq c =
     (case m_requestIdToFilepath c (word_of_int request_seq) of
        None \<Rightarrow> (new_BreakpointLocationsResponse, c)
      | Some f \<Rightarrow> (new_BreakpointLocationsResponse \<lparr>BreakpointLocationsResponse_filepath := f\<rparr>,
                    c \<lparr>m_requestIdToFilepath := (m_requestIdToFilepath c)(word_of_int request_seq := None)\<rparr>))"

text \<open>The branch \<^verbatim>\<open>else if (as_response)\<close> of \<^verbatim>\<open>OnMessage\<close>.\<close>

definition OnResponse :: "'c App \<Rightarrow> Response \<Rightarrow> Json \<Rightarrow> 'c Client_scheme \<Rightarrow> 'c Client_scheme outcome" where
  "OnResponse app r json c =
     (let command = Response_command r in
      if command = ''stackTrace'' then
        (let (response, c) = pop_frames c
         in answer app wxEVT_DAP_STACKTRACE_RESPONSE (MStackTraceResponse response) json r c)
      else if command = ''scopes'' then
        (let (response, c) = pop_scopes c
         in answer app wxEVT_DAP_SCOPES_RESPONSE (MScopesResponse response) json r c)
      else if command = ''variables'' then
        (let (response, c) = pop_variables c
         in answer app wxEVT_DAP_VARIABLES_RESPONSE (MVariablesResponse response) json r c)
      else if command = ''stepIn'' \<or> command = ''stepOut'' \<or> command = ''next'' \<or> command = ''continue'' then
        Ok (c \<lparr>m_can_interact := False\<rparr>)
      else if command = ''breakpointLocations'' then
        (let (response, c) = pop_filepath (Response_request_seq r) c
         in answer app wxEVT_DAP_BREAKPOINT_LOCATIONS_RESPONSE (MBreakpointLocationsResponse response) json r c)
      else if command = ''setFunctionBreakpoints'' then
        answer app wxEVT_DAP_SET_FUNCTION_BREAKPOINT_RESPONSE
          (MSetFunctionBreakpointsResponse new_SetFunctionBreakpointsResponse) json r c
      else if command = ''setBreakpoints'' then
        (let (response, c) = pop_breakpoints c
         in answer app wxEVT_DAP_SET_SOURCE_BREAKPOINT_RESPONSE (MSetBreakpointsResponse response) json r c)
      else if command = ''configurationDone'' then
        answer app wxEVT_DAP_CONFIGURARIONE_DONE_RESPONSE
          (MConfigurationDoneResponse new_ConfigurationDoneResponse) json r c
      else if command = ''launch'' then
        answer app wxEVT_DAP_LAUNCH_RESPONSE (MLaunchResponse new_LaunchResponse) json r c
      else if command = ''threads'' then
        answer app wxEVT_DAP_THREADS_RESPONSE (MThreadsResponse new_ThreadsResponse) json r c
      else if command = ''source'' then HandleSourceResponse app json c
      else if command = ''evaluate'' then HandleEvaluateResponse app json c
      else Ok c)"

definition OnReverseRequest :: "'c App \<Rightarrow> string \<Rightarrow> Json \<Rightarrow> 'c Client_scheme \<Rightarrow> 'c Client_scheme outcome" where
  "OnReverseRequest app command json c =
     (if command = ''runInTerminal'' then
        SendDAPEvent app wxEVT_DAP_RUN_IN_TERMINAL_REQUEST
          (MRequest (MRunInTerminalRequest new_RunInTerminalRequest)) json None c
      else Ok c)"

text \<open>
  The handshake branch.  In the test \<^verbatim>\<open>msg->As<Response>()->command == "initialize"\<close> the cast
  succeeds, since the pool of responses holds only responses.
\<close>

definition is_initialize_response :: "Message option \<Rightarrow> bool" where
  "is_initialize_response msg =
     (case msg of
        Some m \<Rightarrow> (case AsResponse m of Some r \<Rightarrow> Response_command (as_Response r) = ''initialize'' | None \<Rightarrow> False)
      | None \<Rightarrow> False)"

definition OnHandshake :: "'c App \<Rightarrow> Json \<Rightarrow> 'c Client_scheme \<Rightarrow> 'c Client_scheme outcome" where
  "OnHandshake app json c =
     (if is_initialize_response (FromJSON registered json) then
        let body = Json_at json ''body'';
            c = c \<lparr>m_handshake_state := kCompleted\<rparr>;
            c = c \<lparr>m_features := foldl (ENABLE_FEATURE body) (m_features c) [0..<length feature_names]\<rparr>
        in SendDAPEvent app wxEVT_DAP_INITIALIZE_RESPONSE (MResponse (MInitializeResponse new_InitializeResponse)) json None c
      else Ok c)"

definition OnSessionMessage :: "'c App \<Rightarrow> Json \<Rightarrow> 'c Client_scheme \<Rightarrow> 'c Client_scheme outcome" where
  "OnSessionMessage app json c =
     (case FromJSON registered json of
        None \<Rightarrow> Ok c
      | Some msg \<Rightarrow>
         (case AsEvent msg of
            Some e \<Rightarrow> OnEvent app (Event_event (as_Event e)) json c
          | None \<Rightarrow>
             (case AsResponse msg of
                Some r \<Rightarrow> OnResponse app (as_Response r) json c
              | None \<Rightarrow>
                 (case AsRequest msg of
                    Some q \<Rightarrow> OnReverseRequest app (Request_command (as_Request q)) json c
                  | None \<Rightarrow> Ok c))))"

definition log_received :: "'c App \<Rightarrow> Json \<Rightarrow> 'c Client_scheme \<Rightarrow> 'c Client_scheme outcome" where
  "log_received app json c =
     (if m_wants_log_events c
      then obind (Json_ToString False json) (\<lambda>s. fire_event app (log_event (''<-- '' @ s)) c)
      else Ok c)"

definition OnMessage :: "'c App \<Rightarrow> Json \<Rightarrow> 'c Client_scheme \<Rightarrow> 'c Client_scheme outcome" where
  "OnMessage app json c =
     obind (log_received app json c) (\<lambda>c.
       if m_handshake_state c \<noteq> kCompleted then OnHandshake app json c else OnSessionMessage app json c)"

text \<open>
  \<^verbatim>\<open>OnDataRead\<close>: the loop of \<^verbatim>\<open>ProcessBuffer\<close> with \<^verbatim>\<open>OnMessage\<close> as its callback.  The state of
  the loop is the client; its member \<^verbatim>\<open>m_rpc\<close>, the buffer, is kept beside it while the loop runs.
\<close>

definition rpc_callback_of :: "'c App \<Rightarrow> Json \<Rightarrow> string \<times> 'c Client_scheme outcome \<Rightarrow> string \<times> 'c Client_scheme outcome" where
  "rpc_callback_of app json bs =
     (case obind (snd bs) (\<lambda>c. OnMessage app json (c \<lparr>m_rpc := fst bs\<rparr>)) of
        Ok c \<Rightarrow> (m_rpc c, Ok (c \<lparr>m_rpc := []\<rparr>))
      | Undef u \<Rightarrow> ([], Undef u))"

definition OnDataRead :: "'c App \<Rightarrow> string \<Rightarrow> 'c Client_scheme \<Rightarrow> 'c Client_scheme run" where
  "OnDataRead app buffer c =
     (if buffer = [] then Done c
      else let b = AppendBuffer buffer (m_rpc c)
           in case ProcessBuffer (process_fuel b) (rpc_callback_of app) (b, Ok (c \<lparr>m_rpc := []\<rparr>)) of
                Done (b', Ok c') \<Rightarrow> Done (c' \<lparr>m_rpc := b'\<rparr>)
              | Done (b', Undef u) \<Rightarrow> Run_Undef u
              | Run_Undef u \<Rightarrow> Run_Undef u
              | Out_Of_Fuel \<Rightarrow> Out_Of_Fuel)"

section \<open>Sending\<close>

definition GetNextSequence :: "'c Client_scheme \<Rightarrow> 64 word \<times> 'c Client_scheme" where
  "GetNextSequence c = (let s = m_requestSeuqnce c + 1 in (s, c \<lparr>m_requestSeuqnce := s\<rparr>))"

text \<open>\<^verbatim>\<open>MakeRequest\<close>: the constructor, then \<^verbatim>\<open>req->seq = GetNextSequence()\<close>, a \<^verbatim>\<open>size_t\<close> to \<^verbatim>\<open>int\<close> conversion.\<close>

definition seq_of :: "64 word \<Rightarrow> int" where
  "seq_of s = to_int32 (uint s)"

definition MakeRequest ::
  "'a ProtocolMessage_scheme \<Rightarrow> 'c Client_scheme \<Rightarrow> 'a ProtocolMessage_scheme \<times> 'c Client_scheme" where
  "MakeRequest req c = (let (s, c) = GetNextSequence c in (req \<lparr>ProtocolMessage_seq := seq_of s\<rparr>, c))"

text \<open>\<^verbatim>\<open>JsonRPC::Send\<close>: the frame goes to the transport, whose answer is ignored; \<open>None\<close> is the exception.\<close>

definition rpc_Send :: "Message \<Rightarrow> 'c Client_scheme \<Rightarrow> 'c Client_scheme option outcome" where
  "rpc_Send msg c =
     (if \<not> m_transport c then Ok None
      else omap (\<lambda>payload. Some (c \<lparr>trace := trace c @ [Sent (frame payload)]\<rparr>)) (Message_ToString msg))"

definition log_sent :: "'c App \<Rightarrow> Message \<Rightarrow> 'c Client_scheme \<Rightarrow> 'c Client_scheme outcome" where
  "log_sent app msg c =
     (if m_wants_log_events c
      then obind (Message_ToString msg) (\<lambda>s. fire_event app (log_event (''--> '' @ s)) c)
      else Ok c)"

definition insert_in_flight :: "RequestMsg \<Rightarrow> 'c Client_scheme \<Rightarrow> 'c Client_scheme" where
  "insert_in_flight request c =
     (let seq = ProtocolMessage_seq (as_Request request)
      in if m_in_flight_requests c seq = None
         then c \<lparr>m_in_flight_requests := (m_in_flight_requests c)(seq \<mapsto> request)\<rparr> else c)"

definition SendRequest :: "'c App \<Rightarrow> RequestMsg \<Rightarrow> 'c Client_scheme \<Rightarrow> (bool \<times> 'c Client_scheme) outcome" where
  "SendRequest app request c =
     obind (rpc_Send (MRequest request) c) (\<lambda>r. case r of
       None \<Rightarrow> omap (\<lambda>c. (False, c)) (OnConnectionError app c)
     | Some c \<Rightarrow> omap (\<lambda>c. (True, insert_in_flight request c)) (log_sent app (MRequest request) c))"

definition SendResponse :: "'c App \<Rightarrow> ResponseMsg \<Rightarrow> 'c Client_scheme \<Rightarrow> (bool \<times> 'c Client_scheme) outcome" where
  "SendResponse app response c =
     obind (rpc_Send (MResponse response) c) (\<lambda>r. case r of
       None \<Rightarrow> omap (\<lambda>c. (False, c)) (OnConnectionError app c)
     | Some c \<Rightarrow> omap (\<lambda>c. (True, c)) (log_sent app (MResponse response) c))"

section \<open>The API\<close>

text \<open>\<^verbatim>\<open>threadId == wxNOT_FOUND ? GetActiveThreadId() : threadId\<close>.\<close>

definition thread_or_active :: "int \<Rightarrow> 'c Client_scheme \<Rightarrow> int" where
  "thread_or_active threadId c = (if threadId = wxNOT_FOUND then m_active_thread_id c else threadId)"

definition Client_Initialize :: "'c App \<Rightarrow> InitializeRequestArguments option \<Rightarrow> 'c Client_scheme \<Rightarrow> 'c Client_scheme outcome" where
  "Client_Initialize app initArgs c =
     (let (req, c) = MakeRequest new_InitializeRequest c;
          req = (case initArgs of
                   Some a \<Rightarrow> req \<lparr>InitializeRequest_arguments := a\<rparr>
                 | None \<Rightarrow> req \<lparr>InitializeRequest_arguments :=
                     (InitializeRequest_arguments req)
                       \<lparr>InitializeRequestArguments_clientID := ''wxdap'',
                        InitializeRequestArguments_clientName := ''wxdap''\<rparr>\<rparr>)
      in omap (\<lambda>(_, c). c \<lparr>m_handshake_state := kInProgress\<rparr>) (SendRequest app (MInitializeRequest req) c))"

definition SetBreakpointsFile :: "'c App \<Rightarrow> string \<Rightarrow> SourceBreakpoint list \<Rightarrow> 'c Client_scheme \<Rightarrow> 'c Client_scheme outcome" where
  "SetBreakpointsFile app file lines c =
     (let (req, c) = MakeRequest new_SetBreakpointsRequest c;
          a = SetBreakpointsRequest_arguments req;
          a = a \<lparr>SetBreakpointsArguments_breakpoints := lines,
                 SetBreakpointsArguments_source := (SetBreakpointsArguments_source a)
                   \<lparr>Source_path := file, Source_name := GetFullName app file\<rparr>\<rparr>;
          req = req \<lparr>SetBreakpointsRequest_arguments := a\<rparr>;
          c = c \<lparr>m_source_breakpoints_queue := m_source_breakpoints_queue c @ [file]\<rparr>
      in omap snd (SendRequest app (MSetBreakpointsRequest req) c))"

definition ConfigurationDone :: "'c App \<Rightarrow> 'c Client_scheme \<Rightarrow> 'c Client_scheme outcome" where
  "ConfigurationDone app c =
     (let (req, c) = MakeRequest new_ConfigurationDoneRequest c
      in omap snd (SendRequest app (MConfigurationDoneRequest req) c))"

text \<open>\<^verbatim>\<open>Launch\<close>: \<^verbatim>\<open>cmd[0]\<close> of an empty vector is undefined.\<close>

definition Launch :: "'c App \<Rightarrow> string list \<Rightarrow> string \<Rightarrow> Environment \<Rightarrow> 'c Client_scheme \<Rightarrow> 'c Client_scheme outcome" where
  "Launch app cmd workingDirectory env c =
     (let c = c \<lparr>m_active_thread_id := wxNOT_FOUND\<rparr>;
          (req, c) = MakeRequest new_LaunchRequest c
      in case cmd of
           [] \<Rightarrow> Undef Over_Read
         | prog # args \<Rightarrow>
            let req = req \<lparr>LaunchRequest_arguments := (LaunchRequest_arguments req)
                        \<lparr>LaunchRequestArguments_program := prog, LaunchRequestArguments_args := args,
                         LaunchRequestArguments_cwd := workingDirectory, LaunchRequestArguments_env := env\<rparr>\<rparr>
            in omap snd (SendRequest app (MLaunchRequest req) c))"

definition GetThreads :: "'c App \<Rightarrow> 'c Client_scheme \<Rightarrow> 'c Client_scheme outcome" where
  "GetThreads app c =
     (let (req, c) = MakeRequest new_ThreadsRequest c in omap snd (SendRequest app (MThreadsRequest req) c))"

definition GetScopes :: "'c App \<Rightarrow> int \<Rightarrow> 'c Client_scheme \<Rightarrow> 'c Client_scheme outcome" where
  "GetScopes app frameId c =
     (let (req, c) = MakeRequest new_ScopesRequest c;
          req = req \<lparr>ScopesRequest_arguments := (ScopesRequest_arguments req) \<lparr>ScopesArguments_frameId := frameId\<rparr>\<rparr>;
          c = c \<lparr>m_get_scopes_queue := m_get_scopes_queue c @ [frameId]\<rparr>
      in omap snd (SendRequest app (MScopesRequest req) c))"

definition GetFrames :: "'c App \<Rightarrow> int \<Rightarrow> int \<Rightarrow> int \<Rightarrow> 'c Client_scheme \<Rightarrow> 'c Client_scheme outcome" where
  "GetFrames app threadId starting_frame frame_count c =
     (let (req, c) = MakeRequest new_StackTraceRequest c;
          a = (StackTraceRequest_arguments req)
                \<lparr>StackTraceArguments_threadId := thread_or_active threadId c,
                 StackTraceArguments_levels := frame_count, StackTraceArguments_startFrame := starting_frame\<rparr>;
          req = req \<lparr>StackTraceRequest_arguments := a\<rparr>;
          c = c \<lparr>m_get_frames_queue := m_get_frames_queue c @ [StackTraceArguments_threadId a]\<rparr>
      in omap snd (SendRequest app (MStackTraceRequest req) c))"

fun granularity_text :: "SteppingGranularity \<Rightarrow> string" where
  "granularity_text LINE = ''line''"
| "granularity_text STATEMENT = ''statement''"
| "granularity_text INSTRUCTION = ''instruction''"

definition Next :: "'c App \<Rightarrow> int \<Rightarrow> bool \<Rightarrow> SteppingGranularity \<Rightarrow> 'c Client_scheme \<Rightarrow> 'c Client_scheme outcome" where
  "Next app threadId singleThread granularity c =
     (let (req, c) = MakeRequest new_NextRequest c;
          req = req \<lparr>NextRequest_arguments := (NextRequest_arguments req)
                  \<lparr>NextArguments_threadId := thread_or_active threadId c,
                   NextArguments_singleThread := singleThread,
                   NextArguments_granularity := granularity_text granularity\<rparr>\<rparr>
      in omap snd (SendRequest app (MNextRequest req) c))"

definition Continue :: "'c App \<Rightarrow> int \<Rightarrow> bool \<Rightarrow> 'c Client_scheme \<Rightarrow> 'c Client_scheme outcome" where
  "Continue app threadId all_threads c =
     (let (req, c) = MakeRequest new_ContinueRequest c;
          t = thread_or_active threadId c;
          req = req \<lparr>ContinueRequest_arguments := (ContinueRequest_arguments req)
                  \<lparr>ContinueArguments_threadId := t,
                   ContinueArguments_singleThread := (\<not> all_threads \<or> t = wxNOT_FOUND)\<rparr>\<rparr>
      in omap snd (SendRequest app (MContinueRequest req) c))"

definition SetFunctionBreakpoints :: "'c App \<Rightarrow> FunctionBreakpoint list \<Rightarrow> 'c Client_scheme \<Rightarrow> 'c Client_scheme outcome" where
  "SetFunctionBreakpoints app breakpoints c =
     (let (req, c) = MakeRequest new_SetFunctionBreakpointsRequest c;
          req = req \<lparr>SetFunctionBreakpointsRequest_arguments := (SetFunctionBreakpointsRequest_arguments req)
                  \<lparr>SetFunctionBreakpointsArguments_breakpoints := breakpoints\<rparr>\<rparr>
      in omap snd (SendRequest app (MSetFunctionBreakpointsRequest req) c))"

definition step_arguments :: "int \<Rightarrow> bool \<Rightarrow> StepRequest \<Rightarrow> StepRequest" where
  "step_arguments t singleThread req =
     req \<lparr>StepRequest_arguments := (StepRequest_arguments req)
            \<lparr>StepArguments_threadId := t, StepArguments_singleThread := singleThread\<rparr>\<rparr>"

definition StepIn :: "'c App \<Rightarrow> int \<Rightarrow> bool \<Rightarrow> 'c Client_scheme \<Rightarrow> 'c Client_scheme outcome" where
  "StepIn app threadId singleThread c =
     (let (req, c) = MakeRequest new_StepInRequest c
      in omap snd (SendRequest app (MStepInRequest (step_arguments (thread_or_active threadId c) singleThread req)) c))"

definition StepOut :: "'c App \<Rightarrow> int \<Rightarrow> bool \<Rightarrow> 'c Client_scheme \<Rightarrow> 'c Client_scheme outcome" where
  "StepOut app threadId singleThread c =
     (let (req, c) = MakeRequest new_StepOutRequest c
      in omap snd (SendRequest app (MStepOutRequest (step_arguments (thread_or_active threadId c) singleThread req)) c))"

definition GetChildrenVariables ::
  "'c App \<Rightarrow> int \<Rightarrow> EvaluateContext \<Rightarrow> 64 word \<Rightarrow> ValueDisplayFormat \<Rightarrow> 'c Client_scheme \<Rightarrow> 'c Client_scheme outcome" where
  "GetChildrenVariables app variablesReference context count format c =
     (let (req, c) = MakeRequest new_VariablesRequest c;
          a = VariablesRequest_arguments req;
          req = req \<lparr>VariablesRequest_arguments :=
                  a \<lparr>VariablesArguments_variablesReference := variablesReference,
                     VariablesArguments_count := to_int32 (uint count),
                     VariablesArguments_format := (VariablesArguments_format a) \<lparr>ValueFormat_hex := (format = HEX)\<rparr>\<rparr>\<rparr>;
          c = c \<lparr>m_get_variables_queue := m_get_variables_queue c @ [(variablesReference, context)]\<rparr>
      in omap snd (SendRequest app (MVariablesRequest req) c))"

definition Pause :: "'c App \<Rightarrow> int \<Rightarrow> 'c Client_scheme \<Rightarrow> 'c Client_scheme outcome" where
  "Pause app threadId c =
     (let (req, c) = MakeRequest new_PauseRequest c;
          req = req \<lparr>PauseRequest_arguments := (PauseRequest_arguments req)
                  \<lparr>PauseArguments_threadId := thread_or_active threadId c\<rparr>\<rparr>
      in omap snd (SendRequest app (MPauseRequest req) c))"

text \<open>\<^verbatim>\<open>BreakpointLocations\<close>: the file is remembered after the request was sent, or failed to be.\<close>

definition BreakpointLocations :: "'c App \<Rightarrow> string \<Rightarrow> int \<Rightarrow> int \<Rightarrow> 'c Client_scheme \<Rightarrow> 'c Client_scheme outcome" where
  "BreakpointLocations app filepath start_line end_line c =
     (if \<not> IsSupported supportsBreakpointLocationsRequest c then Ok c
      else let (req, c) = MakeRequest new_BreakpointLocationsRequest c;
               a = BreakpointLocationsRequest_arguments req;
               req = req \<lparr>BreakpointLocationsRequest_arguments :=
                       a \<lparr>BreakpointLocationsArguments_source :=
                            (BreakpointLocationsArguments_source a) \<lparr>Source_path := filepath\<rparr>,
                          BreakpointLocationsArguments_line := start_line,
                          BreakpointLocationsArguments_endLine := end_line\<rparr>\<rparr>;
               key = word_of_int (ProtocolMessage_seq req)
           in omap (\<lambda>(_, c). if m_requestIdToFilepath c key = None
                             then c \<lparr>m_requestIdToFilepath := (m_requestIdToFilepath c)(key \<mapsto> filepath)\<rparr> else c)
                (SendRequest app (MBreakpointLocationsRequest req) c))"

definition LoadSource :: "'c App \<Rightarrow> Source \<Rightarrow> nat \<Rightarrow> 'c Client_scheme \<Rightarrow> (bool \<times> 'c Client_scheme) outcome" where
  "LoadSource app source callback c =
     (if 0 < Source_sourceReference source then
        let c = c \<lparr>m_load_sources_queue := m_load_sources_queue c @ [callback]\<rparr>;
            (req, c) = MakeRequest new_SourceRequest c;
            req = req \<lparr>SourceRequest_arguments := (SourceRequest_arguments req)
                    \<lparr>SourceArguments_source := source, SourceArguments_sourceReference := Source_sourceReference source\<rparr>\<rparr>
        in omap (\<lambda>(_, c). (True, c)) (SendRequest app (MSourceRequest req) c)
      else Ok (False, c))"

fun context_text :: "EvaluateContext \<Rightarrow> string" where
  "context_text CLIPBOARD = ''clipboard''"
| "context_text HOVER = ''hover''"
| "context_text REPL = ''repl''"
| "context_text VARIABLES = ''variables''"
| "context_text WATCH = ''watch''"

definition EvaluateExpression ::
  "'c App \<Rightarrow> string \<Rightarrow> int \<Rightarrow> EvaluateContext \<Rightarrow> nat \<Rightarrow> ValueDisplayFormat \<Rightarrow> 'c Client_scheme \<Rightarrow> 'c Client_scheme outcome" where
  "EvaluateExpression app expression frameId context callback format c =
     (let c = c \<lparr>m_evaluate_queue := m_evaluate_queue c @ [callback]\<rparr>;
          (req, c) = MakeRequest new_EvaluateRequest c;
          a = EvaluateRequest_arguments req;
          req = req \<lparr>EvaluateRequest_arguments :=
                  a \<lparr>EvaluateArguments_frameId := frameId, EvaluateArguments_expression := expression,
                     EvaluateArguments_format := (EvaluateArguments_format a) \<lparr>ValueFormat_hex := (format = HEX)\<rparr>,
                     EvaluateArguments_context := context_text context\<rparr>\<rparr>
      in omap snd (SendRequest app (MEvaluateRequest req) c))"

text \<open>\<^verbatim>\<open>Attach\<close>: the argument \<^verbatim>\<open>pid\<close> is not used.\<close>

definition Attach :: "'c App \<Rightarrow> int \<Rightarrow> string list \<Rightarrow> 'c Client_scheme \<Rightarrow> 'c Client_scheme outcome" where
  "Attach app pid arguments c =
     (let (req, c) = MakeRequest new_AttachRequest c;
          req = req \<lparr>AttachRequest_arguments := (AttachRequest_arguments req) \<lparr>AttachRequestArguments_arguments := arguments\<rparr>\<rparr>
      in omap snd (SendRequest app (MAttachRequest req) c))"

section \<open>The API as data\<close>

text \<open>Every public operation of the client, so that an application is a sequence of calls.\<close>

datatype api =
    Api_Initialize "InitializeRequestArguments option"
  | Api_SetBreakpointsFile string "SourceBreakpoint list"
  | Api_ConfigurationDone
  | Api_Launch "string list" string Environment
  | Api_GetThreads
  | Api_GetScopes int
  | Api_GetFrames int int int
  | Api_Next int bool SteppingGranularity
  | Api_Continue int bool
  | Api_SetFunctionBreakpoints "FunctionBreakpoint list"
  | Api_StepIn int bool
  | Api_StepOut int bool
  | Api_GetChildrenVariables int EvaluateContext "64 word" ValueDisplayFormat
  | Api_Pause int
  | Api_BreakpointLocations string int int
  | Api_LoadSource Source nat
  | Api_EvaluateExpression string int EvaluateContext nat ValueDisplayFormat
  | Api_Attach int "string list"
  | Api_SendResponse ResponseMsg
  | Api_SetTransport bool
  | Api_Reset
  | Api_SetWantsLogEvents bool

fun run_api :: "'c App \<Rightarrow> api \<Rightarrow> 'c Client_scheme \<Rightarrow> 'c Client_scheme outcome" where
  "run_api app (Api_Initialize a) c = Client_Initialize app a c"
| "run_api app (Api_SetBreakpointsFile f ls) c = SetBreakpointsFile app f ls c"
| "run_api app Api_ConfigurationDone c = ConfigurationDone app c"
| "run_api app (Api_Launch cmd wd env) c = Launch app cmd wd env c"
| "run_api app Api_GetThreads c = GetThreads app c"
| "run_api app (Api_GetScopes f) c = GetScopes app f c"
| "run_api app (Api_GetFrames t s n) c = GetFrames app t s n c"
| "run_api app (Api_Next t s g) c = Next app t s g c"
| "run_api app (Api_Continue t a) c = Continue app t a c"
| "run_api app (Api_SetFunctionBreakpoints bs) c = SetFunctionBreakpoints app bs c"
| "run_api app (Api_StepIn t s) c = StepIn app t s c"
| "run_api app (Api_StepOut t s) c = StepOut app t s c"
| "run_api app (Api_GetChildrenVariables v x n f) c = GetChildrenVariables app v x n f c"
| "run_api app (Api_Pause t) c = Pause app t c"
| "run_api app (Api_BreakpointLocations f a b) c = BreakpointLocations app f a b c"
| "run_api app (Api_LoadSource s k) c = omap snd (LoadSource app s k c)"
| "run_api app (Api_EvaluateExpression e f x k d) c = EvaluateExpression app e f x k d c"
| "run_api app (Api_Attach p as) c = Attach app p as c"
| "run_api app (Api_SendResponse r) c = omap snd (SendResponse app r c)"
| "run_api app (Api_SetTransport t) c = Ok (SetTransport t c)"
| "run_api app Api_Reset c = Ok (Reset c)"
| "run_api app (Api_SetWantsLogEvents b) c = Ok (SetWantsLogEvents b c)"

text \<open>What the C++ types of the arguments guarantee, and that \<^verbatim>\<open>Launch\<close> gets a program.\<close>

fun valid_api :: "api \<Rightarrow> bool" where
  "valid_api (Api_SetBreakpointsFile f ls) \<longleftrightarrow> list_all ints_SourceBreakpoint ls"
| "valid_api (Api_Launch cmd wd env) \<longleftrightarrow> cmd \<noteq> []"
| "valid_api (Api_GetScopes f) \<longleftrightarrow> is_int32 f"
| "valid_api (Api_GetFrames t s n) \<longleftrightarrow> is_int32 t \<and> is_int32 s \<and> is_int32 n"
| "valid_api (Api_Next t s g) \<longleftrightarrow> is_int32 t"
| "valid_api (Api_Continue t a) \<longleftrightarrow> is_int32 t"
| "valid_api (Api_StepIn t s) \<longleftrightarrow> is_int32 t"
| "valid_api (Api_StepOut t s) \<longleftrightarrow> is_int32 t"
| "valid_api (Api_GetChildrenVariables v x n f) \<longleftrightarrow> is_int32 v"
| "valid_api (Api_Pause t) \<longleftrightarrow> is_int32 t"
| "valid_api (Api_BreakpointLocations f a b) \<longleftrightarrow> is_int32 a \<and> is_int32 b"
| "valid_api (Api_LoadSource s k) \<longleftrightarrow> ints_Source s"
| "valid_api (Api_EvaluateExpression e f x k d) \<longleftrightarrow> is_int32 f"
| "valid_api (Api_SendResponse r) \<longleftrightarrow> ints_ResponseMsg r"
| "valid_api _ \<longleftrightarrow> True"

section \<open>Basic facts\<close>

lemma Reset_new:
  "Reset c = Client.extend (new_Client \<lparr>m_wants_log_events := m_wants_log_events c, trace := trace c\<rparr>) (Client.more c)"
  by (cases c) (simp add: Reset_def StopReaderThread_def new_Client_def Let_def Client.defs)

lemma IsSupported_bit: "IsSupported i c \<longleftrightarrow> bit (m_features c) i"
  by (simp add: IsSupported_def bit_iff_and_push_bit_not_eq_0)

lemma bit_ENABLE_FEATURE:
  "bit (ENABLE_FEATURE body f i) n \<longleftrightarrow>
     bit f n \<or> n = i \<and> n < 64 \<and> GetBool (Json_at body (feature_names ! i)) False"
  by (auto simp: ENABLE_FEATURE_def bit_or_iff bit_exp_iff)

lemma bit_ENABLE_all:
  "bit (foldl (ENABLE_FEATURE body) f is) n \<longleftrightarrow>
     bit f n \<or> n \<in> set is \<and> n < 64 \<and> GetBool (Json_at body (feature_names ! n)) False"
  by (induction "is" arbitrary: f) (auto simp: bit_ENABLE_FEATURE)

lemma length_feature_names [simp]: "length feature_names = 22"
  by (simp add: feature_names_def)

section \<open>The invariant\<close>

text \<open>
  What holds between two steps of the client: there is a reader thread only with a transport;
  only known feature bits are set, and none before the handshake; the ids that the client
  remembers are in range; every request in flight is filed under its own sequence number.  The
  sequence number never exceeds the number of actions so far; as long as these are at most
  \<^verbatim>\<open>INT_MAX\<close>, the numbers in flight are positive and not larger than the last one given out, so
  that a new number is fresh.  The lag \<open>n\<close> is 1 between \<^verbatim>\<open>MakeRequest\<close> and the send.
\<close>

definition client_inv_at :: "nat \<Rightarrow> 'c Client_scheme \<Rightarrow> bool" where
  "client_inv_at n c \<longleftrightarrow>
     (m_readerThread c \<longrightarrow> m_transport c) \<and> \<not> m_shutdown c \<and>
     is_int32 (m_active_thread_id c) \<and> list_all is_int32 (m_get_frames_queue c) \<and>
     list_all is_int32 (m_get_scopes_queue c) \<and> list_all (\<lambda>(v, x). is_int32 v) (m_get_variables_queue c) \<and>
     (m_handshake_state c = kNotPerformed \<longrightarrow> m_features c = 0) \<and>
     (\<forall>i\<ge>22. \<not> bit (m_features c) i) \<and>
     uint (m_requestSeuqnce c) \<le> int (length (trace c) + n) \<and>
     (\<forall>k r. m_in_flight_requests c k = Some r \<longrightarrow>
        ProtocolMessage_seq (as_Request r) = k \<and> ints_RequestMsg r \<and>
        (int (length (trace c) + n) \<le> INT_MAX \<longrightarrow> 0 < k \<and> k \<le> uint (m_requestSeuqnce c) - int n))"

definition client_inv :: "'c Client_scheme \<Rightarrow> bool" where
  "client_inv c = client_inv_at 0 c"

lemma Reset_inv [simp]: "client_inv (Reset c)"
  by (simp add: client_inv_def client_inv_at_def Reset_new new_Client_def Client.defs)

lemma new_Client_inv: "client_inv new_Client"
  by (simp add: client_inv_def client_inv_at_def new_Client_def)

lemma Reset_simps [simp]: "trace (Reset c) = trace c" "m_rpc (Reset c) = []"
  "m_wants_log_events (Reset c) = m_wants_log_events c" "\<not> m_readerThread (Reset c)" "\<not> m_transport (Reset c)"
  by (simp_all add: Reset_new new_Client_def Client.defs)

lemma inv_irrelevant [simp]:
  "client_inv_at n (c \<lparr>m_rpc := x1\<rparr>) = client_inv_at n c"
  "client_inv_at n (c \<lparr>m_can_interact := x2\<rparr>) = client_inv_at n c"
  "client_inv_at n (c \<lparr>m_requestIdToFilepath := x3\<rparr>) = client_inv_at n c"
  "client_inv_at n (c \<lparr>m_wants_log_events := x4\<rparr>) = client_inv_at n c"
  "client_inv_at n (c \<lparr>m_load_sources_queue := x5\<rparr>) = client_inv_at n c"
  "client_inv_at n (c \<lparr>m_evaluate_queue := x6\<rparr>) = client_inv_at n c"
  "client_inv_at n (c \<lparr>m_source_breakpoints_queue := x7\<rparr>) = client_inv_at n c"
  "client_inv_at n (c \<lparr>m_terminated := x8\<rparr>) = client_inv_at n c"
  by (simp_all add: client_inv_at_def)

lemma inv_ids:
  "client_inv_at n c \<Longrightarrow> is_int32 i \<Longrightarrow> client_inv_at n (c \<lparr>m_active_thread_id := i\<rparr>)"
  "client_inv_at n c \<Longrightarrow> list_all is_int32 q \<Longrightarrow> client_inv_at n (c \<lparr>m_get_frames_queue := q\<rparr>)"
  "client_inv_at n c \<Longrightarrow> list_all is_int32 q \<Longrightarrow> client_inv_at n (c \<lparr>m_get_scopes_queue := q\<rparr>)"
  "client_inv_at n c \<Longrightarrow> list_all (\<lambda>(v, x). is_int32 v) w \<Longrightarrow> client_inv_at n (c \<lparr>m_get_variables_queue := w\<rparr>)"
  by (simp_all add: client_inv_at_def)

lemma inv_idsD:
  "client_inv_at n c \<Longrightarrow> is_int32 (m_active_thread_id c)"
  "client_inv_at n c \<Longrightarrow> list_all is_int32 (m_get_frames_queue c)"
  "client_inv_at n c \<Longrightarrow> list_all is_int32 (m_get_scopes_queue c)"
  "client_inv_at n c \<Longrightarrow> list_all (\<lambda>(v, x). is_int32 v) (m_get_variables_queue c)"
  by (simp_all add: client_inv_at_def)

lemma inv_in_flightD:
  "client_inv_at n c \<Longrightarrow> m_in_flight_requests c k = Some r \<Longrightarrow>
     ProtocolMessage_seq (as_Request r) = k \<and> ints_RequestMsg r \<and>
     (int (length (trace c) + n) \<le> INT_MAX \<longrightarrow> 0 < k \<and> k \<le> uint (m_requestSeuqnce c) - int n)"
  by (simp add: client_inv_at_def)

lemma inv_forget:
  "client_inv_at n c \<Longrightarrow> client_inv_at n (c \<lparr>m_in_flight_requests := (m_in_flight_requests c)(k := None)\<rparr>)"
  by (simp add: client_inv_at_def)

lemma inv_append_trace:
  assumes "client_inv_at n c" "n \<le> 1" shows "client_inv (c \<lparr>trace := trace c @ [a]\<rparr>)"
proof -
  have "ProtocolMessage_seq (as_Request r) = k \<and> ints_RequestMsg r \<and>
        (int (length (trace c) + 1) \<le> INT_MAX \<longrightarrow> 0 < k \<and> k \<le> uint (m_requestSeuqnce c))"
    if "m_in_flight_requests c k = Some r" for k r
    using inv_in_flightD [OF assms(1) that] assms(2) by linarith
  with assms show ?thesis by (simp add: client_inv_def client_inv_at_def)
qed

lemma inv_extend_trace: "client_inv_at n c \<Longrightarrow> n \<le> 1 \<Longrightarrow> client_inv (c \<lparr>trace := trace c @ a # as\<rparr>)"
proof (induction as rule: rev_induct)
  case Nil
  then show ?case by (rule inv_append_trace)
next
  case (snoc b as)
  then have "client_inv_at 0 (c \<lparr>trace := trace c @ a # as\<rparr>)" by (simp add: client_inv_def)
  from inv_append_trace [OF this, of b] show ?case by simp
qed

lemma uint_succ_le: "uint (s + 1) \<le> uint (s :: 64 word) + 1"
  by (simp add: uint_word_ariths zmod_le_nonneg_dividend)

lemma uint_succ: "uint s + 1 \<le> INT_MAX \<Longrightarrow> uint (s + 1) = uint (s :: 64 word) + 1"
  by (simp add: uint_word_ariths int_limits)

lemma inv_next:
  assumes "client_inv c" shows "client_inv_at 1 (c \<lparr>m_requestSeuqnce := m_requestSeuqnce c + 1\<rparr>)"
proof -
  let ?s = "m_requestSeuqnce c"
  have i: "client_inv_at 0 c" using assms by (simp add: client_inv_def)
  have s: "uint ?s \<le> int (length (trace c))" using i by (simp add: client_inv_at_def)
  have "ProtocolMessage_seq (as_Request r) = k \<and> ints_RequestMsg r \<and>
        (int (length (trace c) + 1) \<le> INT_MAX \<longrightarrow> 0 < k \<and> k \<le> uint (?s + 1) - 1)"
    if "m_in_flight_requests c k = Some r" for k r
    using inv_in_flightD [OF i that] uint_succ [of ?s] s by auto
  then show ?thesis using i s uint_succ_le [of ?s] by (simp add: client_inv_at_def)
qed

lemma inv_cong: "Client.truncate c' = Client.truncate c \<Longrightarrow> client_inv_at n c' = client_inv_at n c"
  by (cases c; cases c') (simp add: client_inv_at_def Client.defs)

section \<open>Sound steps\<close>

text \<open>
  A step is sound when it is defined, ends in the invariant, only appends to the trace, and
  leaves the input buffer alone or empties it.
\<close>

definition follows :: "'c Client_scheme \<Rightarrow> 'c Client_scheme \<Rightarrow> bool" where
  "follows c c' \<longleftrightarrow> prefix (trace c) (trace c') \<and> (m_rpc c' = m_rpc c \<or> m_rpc c' = [])"

definition sound :: "'c Client_scheme \<Rightarrow> 'c Client_scheme outcome \<Rightarrow> bool" where
  "sound c x \<longleftrightarrow> (\<exists>c'. x = Ok c' \<and> client_inv c' \<and> follows c c')"

lemma follows_refl [simp]: "follows c c"
  by (simp add: follows_def)

lemma follows_trans: "follows c c' \<Longrightarrow> follows c' c'' \<Longrightarrow> follows c c''"
  by (auto simp: follows_def)

lemma follows_Reset [simp]: "follows c (Reset c)"
  by (simp add: follows_def)

lemma follows_same: "trace c0 = trace c \<Longrightarrow> m_rpc c0 = m_rpc c \<Longrightarrow> follows c0 c' = follows c c'"
  by (simp add: follows_def)

lemma sound_Ok [simp]: "sound c (Ok c') \<longleftrightarrow> client_inv c' \<and> follows c c'"
  by (simp add: sound_def)

lemma sound_bind:
  "sound c x \<Longrightarrow> (\<And>c'. x = Ok c' \<Longrightarrow> client_inv c' \<Longrightarrow> sound c' (f c')) \<Longrightarrow> sound c (obind x f)"
  by (auto simp: sound_def) (metis follows_trans)

lemma sound_map:
  "sound c x \<Longrightarrow> (\<And>c'. client_inv c' \<Longrightarrow> client_inv (f c') \<and> follows c' (f c')) \<Longrightarrow> sound c (omap f x)"
  by (auto simp: sound_def) (metis follows_trans)

lemma sound_extend: "sound c1 x \<Longrightarrow> follows c c1 \<Longrightarrow> sound c x"
  by (auto simp: sound_def intro: follows_trans)

lemma sound_same: "trace c0 = trace c \<Longrightarrow> m_rpc c0 = m_rpc c \<Longrightarrow> sound c0 x \<Longrightarrow> sound c x"
  by (simp add: sound_def follows_def)

section \<open>The contract of the application\<close>

text \<open>
  An event as the client makes it carries an object of the class of its type, with members in
  range.  What the client relies on: a handler is a sound step; the handler of the log events,
  which runs in the middle of a send, does not touch the client.
\<close>

fun event_of :: "Message \<Rightarrow> wxEventType option" where
  "event_of (MResponse (MInitializeResponse r)) = Some wxEVT_DAP_INITIALIZE_RESPONSE"
| "event_of (MResponse (MStackTraceResponse r)) = Some wxEVT_DAP_STACKTRACE_RESPONSE"
| "event_of (MResponse (MScopesResponse r)) = Some wxEVT_DAP_SCOPES_RESPONSE"
| "event_of (MResponse (MVariablesResponse r)) = Some wxEVT_DAP_VARIABLES_RESPONSE"
| "event_of (MResponse (MSetBreakpointsResponse r)) = Some wxEVT_DAP_SET_SOURCE_BREAKPOINT_RESPONSE"
| "event_of (MResponse (MSetFunctionBreakpointsResponse r)) = Some wxEVT_DAP_SET_FUNCTION_BREAKPOINT_RESPONSE"
| "event_of (MResponse (MBreakpointLocationsResponse r)) = Some wxEVT_DAP_BREAKPOINT_LOCATIONS_RESPONSE"
| "event_of (MResponse (MConfigurationDoneResponse r)) = Some wxEVT_DAP_CONFIGURARIONE_DONE_RESPONSE"
| "event_of (MResponse (MLaunchResponse r)) = Some wxEVT_DAP_LAUNCH_RESPONSE"
| "event_of (MResponse (MThreadsResponse r)) = Some wxEVT_DAP_THREADS_RESPONSE"
| "event_of (MRequest (MRunInTerminalRequest r)) = Some wxEVT_DAP_RUN_IN_TERMINAL_REQUEST"
| "event_of (MEvent (MStoppedEvent e)) = Some wxEVT_DAP_STOPPED_EVENT"
| "event_of (MEvent (MProcessEvent e)) = Some wxEVT_DAP_PROCESS_EVENT"
| "event_of (MEvent (MExitedEvent e)) = Some wxEVT_DAP_EXITED_EVENT"
| "event_of (MEvent (MTerminatedEvent e)) = Some wxEVT_DAP_TERMINATED_EVENT"
| "event_of (MEvent (MInitializedEvent e)) = Some wxEVT_DAP_INITIALIZED_EVENT"
| "event_of (MEvent (MOutputEvent e)) = Some wxEVT_DAP_OUTPUT_EVENT"
| "event_of (MEvent (MBreakpointEvent e)) = Some wxEVT_DAP_BREAKPOINT_EVENT"
| "event_of (MEvent (MContinuedEvent e)) = Some wxEVT_DAP_CONTINUED_EVENT"
| "event_of (MEvent (MModuleEvent e)) = Some wxEVT_DAP_MODULE_EVENT"
| "event_of m = None"

lemma event_of_From [simp]: "event_of (Message_From json m) = event_of m"
proof (cases m)
  case (MRequest r)
  then show ?thesis by (cases r) simp_all
next
  case (MEvent e)
  then show ?thesis by (cases e) simp_all
next
  case (MResponse r)
  then show ?thesis by (cases r) simp_all
qed

definition ints_event :: "DAPEvent \<Rightarrow> bool" where
  "ints_event e \<longleftrightarrow>
     (case event_object e of
        None \<Rightarrow> event_type e \<in> {wxEVT_DAP_LOG_EVENT, wxEVT_DAP_LOST_CONNECTION}
      | Some m \<Rightarrow> ints_Message m \<and> event_of m = Some (event_type e)) \<and>
     (case event_request e of None \<Rightarrow> True | Some r \<Rightarrow> ints_RequestMsg r)"

text \<open>The log events of the texts \<open>ss\<close>.\<close>

definition logs :: "string list \<Rightarrow> action list" where
  "logs ss = map (\<lambda>s. Posted (log_event s)) ss"

locale debugger_app =
  fixes app :: "'c App"
  assumes event_sound: "client_inv c \<Longrightarrow> ints_event e \<Longrightarrow> sound c (on_event app e c)"
    and source_sound: "client_inv c \<Longrightarrow> sound c (on_source app k b s t c)"
    and evaluate_sound: "client_inv c \<Longrightarrow> is_int32 v \<Longrightarrow> sound c (on_evaluate app k b s t v c)"
    and log_quiet: "event_type e = wxEVT_DAP_LOG_EVENT \<Longrightarrow>
      \<exists>c'. on_event app e c = Ok c' \<and> Client.truncate c' = Client.truncate c"
begin

lemma fire_sound:
  assumes "client_inv_at n c" "n \<le> 1" "ints_event e" shows "sound c (fire_event app e c)"
proof -
  let ?c = "c \<lparr>trace := trace c @ [Posted e]\<rparr>"
  have "sound ?c (on_event app e ?c)" using inv_append_trace [OF assms(1,2)] assms(3) by (rule event_sound)
  moreover have "follows c ?c" by (simp add: follows_def)
  ultimately show ?thesis by (auto simp: fire_event_def sound_def intro: follows_trans)
qed

lemma connection_error_sound:
  "client_inv_at n c \<Longrightarrow> n \<le> 1 \<Longrightarrow> sound c (OnConnectionError app c)"
  unfolding OnConnectionError_def by (rule sound_map, rule fire_sound) (simp_all add: ints_event_def plain_event_def)

text \<open>The log of a message that is sent changes nothing but the trace.\<close>

lemma log_sent_quiet:
  assumes "ints_Message msg"
  shows "\<exists>c'. log_sent app msg c = Ok c' \<and>
     (\<exists>ss. Client.truncate c' = Client.truncate (c \<lparr>trace := trace c @ logs ss\<rparr>))"
proof (cases "m_wants_log_events c")
  case True
  obtain p where p: "Message_ToString msg = Ok p" using Message_ToString_defined [OF assms] by blast
  let ?e = "log_event (''--> '' @ p)"
  obtain c' where "fire_event app ?e c = Ok c'" "Client.truncate c' = Client.truncate (c \<lparr>trace := trace c @ [Posted ?e]\<rparr>)"
    using log_quiet [of ?e "c \<lparr>trace := trace c @ [Posted ?e]\<rparr>"]
    by (auto simp: fire_event_def log_event_def plain_event_def)
  moreover have "[Posted ?e] = logs [''--> '' @ p]" by (simp add: logs_def)
  ultimately show ?thesis using True p by (auto simp: log_sent_def)
next
  case False
  then have "log_sent app msg c = Ok c" "Client.truncate c = Client.truncate (c \<lparr>trace := trace c @ logs []\<rparr>)"
    by (simp_all add: log_sent_def logs_def)
  then show ?thesis by blast
qed

text \<open>Sending over a transport: the frame goes out, nothing else changes except by the log.\<close>

lemma send_frame:
  assumes "m_transport c" "ints_Message msg"
  shows "\<exists>p c1 c'. Message_ToString msg = Ok p \<and> rpc_Send msg c = Ok (Some c1) \<and> log_sent app msg c1 = Ok c' \<and>
     (\<exists>ss. Client.truncate c' = Client.truncate (c \<lparr>trace := trace c @ Sent (frame p) # logs ss\<rparr>))"
proof -
  obtain p where p: "Message_ToString msg = Ok p" using Message_ToString_defined [OF assms(2)] by blast
  define c1 where "c1 = c \<lparr>trace := trace c @ [Sent (frame p)]\<rparr>"
  obtain c' ss where "log_sent app msg c1 = Ok c'"
    "Client.truncate c' = Client.truncate (c1 \<lparr>trace := trace c1 @ logs ss\<rparr>)"
    using log_sent_quiet [OF assms(2), of c1] by blast
  moreover have "rpc_Send msg c = Ok (Some c1)" using assms(1) p by (simp add: rpc_Send_def c1_def)
  moreover have "c1 \<lparr>trace := trace c1 @ logs ss\<rparr> = c \<lparr>trace := trace c @ Sent (frame p) # logs ss\<rparr>" by (simp add: c1_def)
  ultimately show ?thesis using p by metis
qed

end

text \<open>The state in which \<^verbatim>\<open>SendRequest\<close> is called: the request has just got its number.\<close>

definition ready :: "RequestMsg \<Rightarrow> 'c Client_scheme \<Rightarrow> bool" where
  "ready r c \<longleftrightarrow> client_inv_at 1 c \<and> ints_RequestMsg r \<and>
     ProtocolMessage_seq (as_Request r) = seq_of (m_requestSeuqnce c) \<and>
     (int (length (trace c)) < INT_MAX \<longrightarrow> 0 < uint (m_requestSeuqnce c))"

lemma seq_of_small: "uint s \<le> INT_MAX \<Longrightarrow> seq_of s = uint s"
proof -
  assume "uint s \<le> INT_MAX"
  moreover have "0 \<le> uint s" by simp
  ultimately have "is_int32 (uint s)" unfolding is_int32_def int_limits by linarith
  then show ?thesis by (simp add: seq_of_def)
qed

lemma ready_fresh:
  assumes "ready r c" "int (length (trace c)) < INT_MAX"
  shows "0 < ProtocolMessage_seq (as_Request r)" "ProtocolMessage_seq (as_Request r) = uint (m_requestSeuqnce c)"
    "m_in_flight_requests c (ProtocolMessage_seq (as_Request r)) = None"
proof -
  have i: "client_inv_at 1 c" and s: "ProtocolMessage_seq (as_Request r) = seq_of (m_requestSeuqnce c)"
    and p: "0 < uint (m_requestSeuqnce c)" using assms by (auto simp: ready_def)
  have "uint (m_requestSeuqnce c) \<le> INT_MAX" using i assms(2) by (simp add: client_inv_at_def)
  then show u: "ProtocolMessage_seq (as_Request r) = uint (m_requestSeuqnce c)" using s by (simp add: seq_of_small)
  then show "0 < ProtocolMessage_seq (as_Request r)" using p by simp
  show "m_in_flight_requests c (ProtocolMessage_seq (as_Request r)) = None"
  proof (rule ccontr)
    assume "m_in_flight_requests c (ProtocolMessage_seq (as_Request r)) \<noteq> None"
    then obtain q where "m_in_flight_requests c (uint (m_requestSeuqnce c)) = Some q" using u by auto
    then show False using inv_in_flightD [OF i] assms(2) by auto
  qed
qed

text \<open>A request that has just got the next number is ready to be sent.\<close>

lemma request_ready:
  assumes "client_inv c" "client_inv_at 1 c1" "trace c1 = trace c"
    "m_requestSeuqnce c1 = m_requestSeuqnce c + 1" "ints_RequestMsg r"
    "ProtocolMessage_seq (as_Request r) = seq_of (m_requestSeuqnce c + 1)"
  shows "ready r c1"
proof -
  have "0 < uint (m_requestSeuqnce c + 1)" if "int (length (trace c)) < INT_MAX"
  proof -
    have "uint (m_requestSeuqnce c) \<le> int (length (trace c))"
      using assms(1) by (simp add: client_inv_def client_inv_at_def)
    then have "uint (m_requestSeuqnce c) + 1 \<le> INT_MAX" using that by simp
    from uint_succ [OF this] show ?thesis using uint_nonnegative [of "m_requestSeuqnce c"] by linarith
  qed
  then show ?thesis using assms by (simp add: ready_def)
qed

text \<open>The invariant after the request was filed.\<close>

lemma inv_insert_in_flight:
  assumes r: "ready r c" and t: "Client.truncate c' = Client.truncate (c \<lparr>trace := trace c @ Sent f # as\<rparr>)"
  shows "client_inv (insert_in_flight r c')"
proof -
  let ?c = "c \<lparr>trace := trace c @ Sent f # as\<rparr>" and ?k = "ProtocolMessage_seq (as_Request r)"
  have i: "client_inv_at 1 c" and ints: "ints_RequestMsg r" using r by (auto simp: ready_def)
  have "client_inv ?c" using inv_extend_trace [OF i] by simp
  then have c': "client_inv_at 0 c'" using inv_cong [OF t] by (simp add: client_inv_def)
  have tr: "trace c' = trace c @ Sent f # as" "m_requestSeuqnce c' = m_requestSeuqnce c"
    using t by (cases c; cases c'; simp add: Client.defs)+
  have "0 < ?k \<and> ?k \<le> uint (m_requestSeuqnce c')" if "int (length (trace c')) \<le> INT_MAX"
    using ready_fresh [OF r] that tr by simp
  then show ?thesis using c' ints by (auto simp: insert_in_flight_def Let_def client_inv_def client_inv_at_def)
qed

lemma truncate_simps:
  assumes "Client.truncate c' = Client.truncate c"
  shows "m_rpc c' = m_rpc c" "trace c' = trace c" "m_in_flight_requests c' = m_in_flight_requests c"
    "m_transport c' = m_transport c" "m_handshake_state c' = m_handshake_state c" "m_features c' = m_features c"
    "m_wants_log_events c' = m_wants_log_events c"
    "m_requestSeuqnce c' = m_requestSeuqnce c" "m_get_frames_queue c' = m_get_frames_queue c"
    "m_get_scopes_queue c' = m_get_scopes_queue c" "m_get_variables_queue c' = m_get_variables_queue c"
    "m_load_sources_queue c' = m_load_sources_queue c" "m_evaluate_queue c' = m_evaluate_queue c"
    "m_source_breakpoints_queue c' = m_source_breakpoints_queue c"
    "m_requestIdToFilepath c' = m_requestIdToFilepath c"
  using assms by (cases c; cases c'; simp add: Client.defs)+

lemma insert_in_flight_simps [simp]:
  "trace (insert_in_flight r c) = trace c" "m_rpc (insert_in_flight r c) = m_rpc c"
  "m_transport (insert_in_flight r c) = m_transport c"
  by (simp_all add: insert_in_flight_def Let_def)

context debugger_app
begin

lemma SendRequest_connected:
  assumes "ready r c" "m_transport c"
  shows "\<exists>p c1 ss. Message_ToString (MRequest r) = Ok p \<and> SendRequest app r c = Ok (True, insert_in_flight r c1) \<and>
     Client.truncate c1 = Client.truncate (c \<lparr>trace := trace c @ Sent (frame p) # logs ss\<rparr>)"
proof -
  have "ints_Message (MRequest r)" using assms(1) by (simp add: ready_def)
  from send_frame [OF assms(2) this] obtain p c1 c' ss where "Message_ToString (MRequest r) = Ok p"
    "rpc_Send (MRequest r) c = Ok (Some c1)" "log_sent app (MRequest r) c1 = Ok c'"
    "Client.truncate c' = Client.truncate (c \<lparr>trace := trace c @ Sent (frame p) # logs ss\<rparr>)" by blast
  then show ?thesis by (intro exI [of _ p] exI [of _ c'] exI [of _ ss]) (simp add: SendRequest_def)
qed

lemma SendRequest_sound: "ready r c \<Longrightarrow> sound c (omap snd (SendRequest app r c))"
proof (cases "m_transport c")
  case True
  assume r: "ready r c"
  obtain p c1 ss where s: "SendRequest app r c = Ok (True, insert_in_flight r c1)"
    and t: "Client.truncate c1 = Client.truncate (c \<lparr>trace := trace c @ Sent (frame p) # logs ss\<rparr>)"
    using SendRequest_connected [OF r True] by blast
  have "follows c (insert_in_flight r c1)" using truncate_simps [OF t] by (simp add: follows_def)
  then show ?thesis using inv_insert_in_flight [OF r t] s by simp
next
  case False
  assume "ready r c"
  then have "sound c (OnConnectionError app c)" using connection_error_sound [of 1] by (simp add: ready_def)
  with False show ?thesis by (auto simp: SendRequest_def rpc_Send_def sound_def)
qed

text \<open>What the API does after a send that keeps the contract.\<close>

lemma SendRequest_then:
  assumes "ready r c" "\<And>b c'. client_inv c' \<Longrightarrow> client_inv (f (b, c')) \<and> follows c' (f (b, c'))"
  shows "sound c (omap f (SendRequest app r c))"
proof -
  obtain b c' where "SendRequest app r c = Ok (b, c')" "client_inv c'" "follows c c'"
    using SendRequest_sound [OF assms(1)] by (auto simp: sound_def omap_eq_Ok)
  then show ?thesis using assms(2) [of c' b] by (auto intro: follows_trans)
qed

lemma SendResponse_sound:
  assumes "client_inv_at n c" "n \<le> 1" "ints_ResponseMsg r" shows "sound c (omap snd (SendResponse app r c))"
proof (cases "m_transport c")
  case True
  obtain p c1 c' ss where s: "rpc_Send (MResponse r) c = Ok (Some c1)" "log_sent app (MResponse r) c1 = Ok c'"
    and t: "Client.truncate c' = Client.truncate (c \<lparr>trace := trace c @ Sent (frame p) # logs ss\<rparr>)"
    using send_frame [OF True, of "MResponse r"] assms(3) by auto
  have "client_inv (c \<lparr>trace := trace c @ Sent (frame p) # logs ss\<rparr>)" using inv_extend_trace [OF assms(1,2)] by simp
  then have "client_inv c'" using inv_cong [OF t] by (simp add: client_inv_def)
  with s truncate_simps [OF t] show ?thesis by (simp add: SendResponse_def follows_def)
next
  case False
  have "sound c (OnConnectionError app c)" using connection_error_sound assms by simp
  with False show ?thesis by (auto simp: SendResponse_def rpc_Send_def sound_def)
qed

text \<open>A request with a new number on a state that differs from \<open>c\<close> only where the invariant allows it.\<close>

lemma request_then:
  assumes "client_inv c" "client_inv_at 1 c1" "trace c1 = trace c" "m_rpc c1 = m_rpc c"
    "m_requestSeuqnce c1 = m_requestSeuqnce c + 1" "ints_RequestMsg r"
    "ProtocolMessage_seq (as_Request r) = seq_of (m_requestSeuqnce c + 1)"
    "\<And>b c'. client_inv c' \<Longrightarrow> client_inv (f (b, c')) \<and> follows c' (f (b, c'))"
  shows "sound c (omap f (SendRequest app r c1))"
  using sound_same [OF assms(3,4) SendRequest_then [OF request_ready [OF assms(1-3,5-7)] assms(8)]] .

lemmas request_sound = request_then [where f = snd, simplified]

end

lemma MakeRequest_eq:
  "MakeRequest req c = (req \<lparr>ProtocolMessage_seq := seq_of (m_requestSeuqnce c + 1)\<rparr>,
     c \<lparr>m_requestSeuqnce := m_requestSeuqnce c + 1\<rparr>)"
  by (simp add: MakeRequest_def GetNextSequence_def Let_def)

lemma is_int32_seq_of [simp]: "is_int32 (seq_of s)"
  by (simp add: seq_of_def)

lemma thread_or_active_int32:
  "client_inv c \<Longrightarrow> is_int32 t \<Longrightarrow> is_int32 (thread_or_active t c)"
  "thread_or_active t (c \<lparr>m_requestSeuqnce := s\<rparr>) = thread_or_active t c"
  by (simp_all add: thread_or_active_def client_inv_def inv_idsD)

lemma inv_next_ids:
  "client_inv c \<Longrightarrow> is_int32 (m_active_thread_id c)"
  "client_inv c \<Longrightarrow> list_all is_int32 (m_get_frames_queue c)"
  "client_inv c \<Longrightarrow> list_all is_int32 (m_get_scopes_queue c)"
  "client_inv c \<Longrightarrow> list_all (\<lambda>(v, x). is_int32 v) (m_get_variables_queue c)"
  by (simp_all add: client_inv_def inv_idsD)

text \<open>The members in range of the requests that the API makes.\<close>

lemmas request_ints_defs = msg_defs Request.defs request_new_defs
  ints_InitializeRequest_def ints_ConfigurationDoneRequest_def ints_LaunchRequest_def ints_AttachRequest_def
  ints_BreakpointLocationsRequest_def ints_SetBreakpointsRequest_def ints_SetFunctionBreakpointsRequest_def
  ints_ContinueRequest_def ints_StepInRequest_def ints_StepOutRequest_def ints_NextRequest_def
  ints_ThreadsRequest_def ints_ScopesRequest_def ints_StackTraceRequest_def ints_VariablesRequest_def
  ints_PauseRequest_def ints_SourceRequest_def ints_EvaluateRequest_def
  ints_InitializeRequestArguments_def ints_LaunchRequestArguments_def ints_AttachRequestArguments_def
  ints_BreakpointLocationsArguments_def ints_SetBreakpointsArguments_def ints_SetFunctionBreakpointsArguments_def
  ints_ContinueArguments_def ints_StepArguments_def ints_NextArguments_def ints_ScopesArguments_def
  ints_StackTraceArguments_def ints_VariablesArguments_def ints_PauseArguments_def ints_SourceArguments_def
  ints_EvaluateArguments_def ints_ValueFormat_def ints_Source_def ints_FunctionBreakpoint_def

lemmas request_arg_defs = new_BreakpointLocationsArguments_def new_SetBreakpointsArguments_def
  new_ContinueArguments_def new_StepArguments_def new_NextArguments_def new_ScopesArguments_def
  new_StackTraceArguments_def new_VariablesArguments_def new_PauseArguments_def new_SourceArguments_def
  new_EvaluateArguments_def new_ValueFormat_def new_Source_def new_AttachRequestArguments_def
  new_LaunchRequestArguments_def new_SetFunctionBreakpointsArguments_def new_InitializeRequestArguments_def
  step_arguments_def

context debugger_app
begin

lemmas api_simps = MakeRequest_eq request_ints_defs request_arg_defs thread_or_active_int32
  inv_next [unfolded One_nat_def] inv_next_ids inv_ids

lemma plain_requests_sound:
  assumes "client_inv c"
  shows "sound c (ConfigurationDone app c)" "sound c (GetThreads app c)"
    "sound c (Attach app pid as c)" "sound c (SetFunctionBreakpoints app bs c)"
    "list_all ints_SourceBreakpoint ls \<Longrightarrow> sound c (SetBreakpointsFile app f ls c)"
  using assms
  by (auto simp: ConfigurationDone_def GetThreads_def Attach_def SetFunctionBreakpoints_def
      SetBreakpointsFile_def Let_def list_all_iff api_simps intro!: request_sound)

lemma thread_requests_sound:
  assumes "client_inv c" "is_int32 t"
  shows "sound c (Next app t s g c)" "sound c (Continue app t s c)" "sound c (StepIn app t s c)"
    "sound c (StepOut app t s c)" "sound c (Pause app t c)"
    "is_int32 a \<Longrightarrow> is_int32 b \<Longrightarrow> sound c (GetFrames app t a b c)" "sound c (GetScopes app t c)"
    "sound c (GetChildrenVariables app t x n fmt c)"
  using assms
  by (auto simp: Next_def Continue_def StepIn_def StepOut_def Pause_def GetFrames_def GetScopes_def
      GetChildrenVariables_def Let_def api_simps intro!: request_sound)

lemma other_requests_sound:
  assumes "client_inv c"
  shows "sound c (Client_Initialize app a c)" "cmd \<noteq> [] \<Longrightarrow> sound c (Launch app cmd wd env c)"
    "is_int32 i \<Longrightarrow> is_int32 j \<Longrightarrow> sound c (BreakpointLocations app f i j c)"
    "ints_Source s \<Longrightarrow> sound c (omap snd (LoadSource app s k c))"
    "is_int32 i \<Longrightarrow> sound c (EvaluateExpression app e i x k d c)"
proof -
  have started: "client_inv (c' \<lparr>m_handshake_state := kInProgress\<rparr>) \<and> follows c' (c' \<lparr>m_handshake_state := kInProgress\<rparr>)"
    if "client_inv c'" for c' :: "'a Client_scheme"
    using that by (simp add: client_inv_def client_inv_at_def follows_def)
  show "sound c (Client_Initialize app a c)"
    using assms started unfolding Client_Initialize_def MakeRequest_eq Let_def prod.case
    by (intro request_then) (auto simp: api_simps split: option.split)
  show "sound c (Launch app cmd wd env c)" if "cmd \<noteq> []"
  proof -
    let ?c = "c \<lparr>m_active_thread_id := wxNOT_FOUND\<rparr>"
    have "client_inv ?c" using assms by (simp add: client_inv_def inv_ids)
    then have "sound ?c (Launch app cmd wd env c)"
      using that inv_next [of ?c] by (cases cmd) (auto simp: Launch_def Let_def api_simps intro!: request_sound)
    then show ?thesis by (rule sound_same [rotated 2]) simp_all
  qed
  show "sound c (BreakpointLocations app f i j c)" if "is_int32 i" "is_int32 j"
    using assms that unfolding BreakpointLocations_def MakeRequest_eq Let_def prod.case
    by (auto simp: api_simps follows_def client_inv_def [of "_ \<lparr>m_requestIdToFilepath := _\<rparr>"] intro!: request_then)
      (simp_all add: client_inv_def)
  show "sound c (omap snd (LoadSource app s k c))" if "ints_Source s"
  proof -
    have "omap snd (omap (\<lambda>(_, c). (True, c)) y) = omap snd y" for y :: "(bool \<times> 'a Client_scheme) outcome"
      by (cases y) auto
    note drop = this
    show ?thesis
      using assms that unfolding LoadSource_def MakeRequest_eq Let_def prod.case if_distrib [of "omap snd"] drop
      using inv_next [of "c \<lparr>m_load_sources_queue := m_load_sources_queue c @ [k]\<rparr>"]
      by (auto simp: api_simps client_inv_def [of "c \<lparr>m_load_sources_queue := _\<rparr>"] client_inv_def [of c]
          intro!: request_sound)
  qed
  show "sound c (EvaluateExpression app e i x k d c)" if "is_int32 i"
    using assms that inv_next [of "c \<lparr>m_evaluate_queue := m_evaluate_queue c @ [k]\<rparr>"]
    by (auto simp: EvaluateExpression_def Let_def api_simps client_inv_def [of "c \<lparr>m_evaluate_queue := _\<rparr>"]
        client_inv_def [of c] intro!: request_sound)
qed

lemma run_api_sound: "client_inv c \<Longrightarrow> valid_api a \<Longrightarrow> sound c (run_api app a c)"
proof (cases a)
  case (Api_SetTransport t)
  assume "client_inv c"
  with Api_SetTransport show ?thesis
    using Reset_inv [of c] Reset_simps [of c]
    by (simp add: SetTransport_def StartReaderThread_def Let_def follows_def client_inv_def client_inv_at_def)
qed (simp_all add: plain_requests_sound thread_requests_sound other_requests_sound SendResponse_sound [of 0]
    SetWantsLogEvents_def client_inv_def [symmetric], simp_all add: client_inv_def follows_def)

section \<open>Incoming messages\<close>

lemma dap_event_sound:
  assumes "client_inv c" "ints_json json" "ints_Message m" "event_of m = Some t"
    "case req of None \<Rightarrow> True | Some r \<Rightarrow> ints_RequestMsg r"
  shows "sound c (SendDAPEvent app t m json req c)"
proof -
  let ?ptr = "Message_From json m"
  have i: "ints_Message ?ptr" using assms(2,3) by (rule Message_From_ints)
  have "client_inv_at 0 (if t = wxEVT_DAP_STOPPED_EVENT
      then case ?ptr of MEvent (MStoppedEvent e) \<Rightarrow> c \<lparr>m_active_thread_id := StoppedEvent_threadId e\<rparr> | _ \<Rightarrow> c else c)"
    (is "client_inv_at 0 ?c")
    using assms(1) i
    by (auto simp: client_inv_def ints_StoppedEvent_def intro!: inv_ids split: Message.split EventMsg.split)
  then have "sound ?c (fire_event app \<lparr>event_type = t, event_object = Some ?ptr, event_string = [], event_request = req\<rparr> ?c)"
    using i assms(4,5) by (intro fire_sound [of 0]) (simp_all add: ints_event_def)
  then have "sound ?c (SendDAPEvent app t m json req c)" by (simp add: SendDAPEvent_def Let_def)
  then show ?thesis by (rule sound_same [rotated 2]) (auto split: Message.split EventMsg.split)
qed

lemma answer_sound:
  assumes "client_inv c" "ints_json json" "ints_ResponseMsg response" "event_of (MResponse response) = Some t"
  shows "sound c (answer app t response json r c)"
proof -
  obtain req c1 where o: "GetOriginatingRequest r c = (req, c1)" by force
  have "client_inv c1" "case req of None \<Rightarrow> True | Some r \<Rightarrow> ints_RequestMsg r" "trace c1 = trace c" "m_rpc c1 = m_rpc c"
    using o assms(1)
    by (auto simp: GetOriginatingRequest_def client_inv_def inv_forget split: option.splits dest: inv_in_flightD)
  then show ?thesis
    using dap_event_sound [of c1 json "MResponse response" t req] assms(2-4) o
    by (auto simp: answer_def intro: sound_same)
qed

lemma evaluate_response_sound:
  assumes "client_inv c" "ints_json json" shows "sound c (HandleEvaluateResponse app json c)"
proof (cases "m_evaluate_queue c")
  case (Cons cb q)
  let ?r = "EvaluateResponse_From json new_EvaluateResponse"
  let ?c = "c \<lparr>m_evaluate_queue := q, trace := trace c @ [Called_evaluate cb (Response_success ?r)
    (EvaluateResponse_result ?r) (EvaluateResponse_type ?r) (EvaluateResponse_variablesReference ?r)]\<rparr>"
  have "client_inv_at 0 (c \<lparr>m_evaluate_queue := q\<rparr>)" using assms(1) by (simp add: client_inv_def)
  from inv_append_trace [OF this] have "client_inv ?c" by simp
  moreover have "is_int32 (EvaluateResponse_variablesReference ?r)"
    using EvaluateResponse_From_ints [OF assms(2) new_EvaluateResponse_ints] by (simp add: ints_EvaluateResponse_def)
  ultimately have "sound ?c (HandleEvaluateResponse app json c)"
    using Cons evaluate_sound by (simp add: HandleEvaluateResponse_def Let_def)
  then show ?thesis by (rule sound_extend) (simp add: follows_def)
qed (simp add: HandleEvaluateResponse_def assms)

lemma source_response_sound:
  assumes "client_inv c" shows "sound c (HandleSourceResponse app json c)"
proof (cases "m_load_sources_queue c")
  case (Cons cb q)
  let ?r = "SourceResponse_From json new_SourceResponse"
  let ?c = "c \<lparr>m_load_sources_queue := q, trace := trace c @ [Called_source cb (Response_success ?r)
    (SourceResponse_content ?r) (SourceResponse_mimeType ?r)]\<rparr>"
  have "client_inv_at 0 (c \<lparr>m_load_sources_queue := q\<rparr>)" using assms by (simp add: client_inv_def)
  from inv_append_trace [OF this] have "client_inv ?c" by simp
  then have "sound ?c (HandleSourceResponse app json c)"
    using Cons source_sound by (simp add: HandleSourceResponse_def Let_def)
  then show ?thesis by (rule sound_extend) (simp add: follows_def)
qed (simp add: HandleSourceResponse_def assms)

lemma interact_event_sound:
  assumes "client_inv c" "ints_json json" "ints_Message m" "event_of m = Some t"
  shows "sound c (SendDAPEvent app t m json None (c \<lparr>m_can_interact := b\<rparr>))"
proof -
  have "client_inv (c \<lparr>m_can_interact := b\<rparr>)" using assms(1) by (simp add: client_inv_def)
  from dap_event_sound [OF this assms(2-4), of None] show ?thesis by (rule sound_same [rotated 2]) simp_all
qed

lemma OnEvent_sound: "client_inv c \<Longrightarrow> ints_json json \<Longrightarrow> sound c (OnEvent app e json c)"
  unfolding OnEvent_def by (simp add: dap_event_sound interact_event_sound)

lemma pops:
  assumes "client_inv c"
  shows "pop_frames c = (r1, c1) \<Longrightarrow> client_inv c1 \<and> ints_StackTraceResponse r1 \<and> trace c1 = trace c \<and> m_rpc c1 = m_rpc c"
    "pop_scopes c = (r2, c1) \<Longrightarrow> client_inv c1 \<and> ints_ScopesResponse r2 \<and> trace c1 = trace c \<and> m_rpc c1 = m_rpc c"
    "pop_variables c = (r3, c1) \<Longrightarrow> client_inv c1 \<and> ints_VariablesResponse r3 \<and> trace c1 = trace c \<and> m_rpc c1 = m_rpc c"
    "pop_breakpoints c = (r4, c1) \<Longrightarrow> client_inv c1 \<and> ints_SetBreakpointsResponse r4 \<and> trace c1 = trace c \<and> m_rpc c1 = m_rpc c"
    "pop_filepath s c = (r5, c1) \<Longrightarrow> client_inv c1 \<and> ints_BreakpointLocationsResponse r5 \<and> trace c1 = trace c \<and> m_rpc c1 = m_rpc c"
  using assms inv_next_ids [OF assms] new_StackTraceResponse_ints new_ScopesResponse_ints new_VariablesResponse_ints
    new_SetBreakpointsResponse_ints new_BreakpointLocationsResponse_ints
  by (auto simp: pop_frames_def pop_scopes_def pop_variables_def pop_breakpoints_def pop_filepath_def client_inv_def
      inv_ids msg_defs ints_StackTraceResponse_def ints_ScopesResponse_def ints_VariablesResponse_def
      ints_SetBreakpointsResponse_def ints_BreakpointLocationsResponse_def split: list.splits option.splits)

lemma popped_answer_sound:
  assumes "client_inv c1 \<and> ints_ResponseMsg response \<and> trace c1 = trace c \<and> m_rpc c1 = m_rpc c" "ints_json json"
    "event_of (MResponse response) = Some t"
  shows "sound c (answer app t response json r c1)"
  using answer_sound [of c1 json response t r] assms by (auto intro: sound_same)

lemma OnResponse_sound:
  assumes "client_inv c" "ints_json json" shows "sound c (OnResponse app r json c)"
proof -
  have "sound c (Ok (c \<lparr>m_can_interact := False\<rparr>))" using assms(1) by (simp add: client_inv_def follows_def)
  moreover obtain r1 c1 where 1: "pop_frames c = (r1, c1)" by force
  moreover obtain r2 c2 where 2: "pop_scopes c = (r2, c2)" by force
  moreover obtain r3 c3 where 3: "pop_variables c = (r3, c3)" by force
  moreover obtain r4 c4 where 4: "pop_breakpoints c = (r4, c4)" by force
  moreover obtain r5 c5 where 5: "pop_filepath (Response_request_seq r) c = (r5, c5)" by force
  moreover note popped =
    popped_answer_sound [of c1 "MStackTraceResponse r1" c] popped_answer_sound [of c2 "MScopesResponse r2" c]
    popped_answer_sound [of c3 "MVariablesResponse r3" c] popped_answer_sound [of c4 "MSetBreakpointsResponse r4" c]
    popped_answer_sound [of c5 "MBreakpointLocationsResponse r5" c]
  ultimately show ?thesis
    using assms pops(1) [OF assms(1) 1] pops(2) [OF assms(1) 2] pops(3) [OF assms(1) 3] pops(4) [OF assms(1) 4]
      pops(5) [OF assms(1) 5]
    unfolding OnResponse_def Let_def
    by (simp add: answer_sound source_response_sound evaluate_response_sound popped client_inv_def [of "_ \<lparr>m_can_interact := _\<rparr>"])
qed

lemma reverse_request_sound: "client_inv c \<Longrightarrow> ints_json json \<Longrightarrow> sound c (OnReverseRequest app cmd json c)"
  by (simp add: OnReverseRequest_def dap_event_sound)

lemma OnHandshake_sound:
  assumes "client_inv c" "ints_json json" shows "sound c (OnHandshake app json c)"
proof -
  let ?c = "c \<lparr>m_handshake_state := kCompleted,
    m_features := foldl (ENABLE_FEATURE (Json_at json ''body'')) (m_features c) [0..<length feature_names]\<rparr>"
  have "client_inv ?c" using assms(1) by (simp add: client_inv_def client_inv_at_def bit_ENABLE_all)
  from dap_event_sound [OF this assms(2)] have
    "sound ?c (SendDAPEvent app wxEVT_DAP_INITIALIZE_RESPONSE (MResponse (MInitializeResponse new_InitializeResponse))
       json None ?c)" by simp
  then have "sound c (SendDAPEvent app wxEVT_DAP_INITIALIZE_RESPONSE (MResponse (MInitializeResponse new_InitializeResponse))
       json None ?c)" by (rule sound_same [rotated 2]) simp_all
  then show ?thesis using assms(1) by (simp add: OnHandshake_def Let_def)
qed

lemma session_message_sound: "client_inv c \<Longrightarrow> ints_json json \<Longrightarrow> sound c (OnSessionMessage app json c)"
  by (simp add: OnSessionMessage_def OnEvent_sound OnResponse_sound reverse_request_sound split: option.split)

text \<open>
  The whole handler is sound, except that the log of a message with a number too long for its
  buffer is undefined.
\<close>

lemma OnMessage_sound:
  assumes "client_inv c" "ints_json json" "m_wants_log_events c \<longrightarrow> defined (Json_ToString False json)"
  shows "sound c (OnMessage app json c)"
  unfolding OnMessage_def
proof (rule sound_bind)
  show "sound c (log_received app json c)"
    using assms fire_sound [of 0 c]
    by (auto simp: log_received_def defined_iff client_inv_def log_event_def plain_event_def ints_event_def)
qed (use assms(2) OnHandshake_sound session_message_sound in simp)

lemma OnMessage_Ok: "client_inv c \<Longrightarrow> ints_json json \<Longrightarrow> OnMessage app json c = Ok c' \<Longrightarrow> client_inv c' \<and> follows c c'"
proof -
  assume a: "client_inv c" "ints_json json" "OnMessage app json c = Ok c'"
  have "m_wants_log_events c \<longrightarrow> defined (Json_ToString False json)"
    using a(3) by (auto simp: OnMessage_def log_received_def obind_eq_Ok defined_iff)
  from OnMessage_sound [OF a(1,2) this] show ?thesis using a(3) by (simp add: sound_def)
qed

end

text \<open>The states of the receive loop: a client in its invariant, or an undefined one.\<close>

definition loop_state :: "'c Client_scheme outcome \<Rightarrow> bool" where
  "loop_state s = (case s of Ok c \<Rightarrow> client_inv c | Undef u \<Rightarrow> True)"

sublocale debugger_app \<subseteq> on_message: rpc_callback "rpc_callback_of app" loop_state
proof
  fix s :: "'c Client_scheme outcome" and j b
  assume s: "loop_state s" and j: "ints_json j"
  have "length (fst (rpc_callback_of app j (b, s))) \<le> length b \<and> loop_state (snd (rpc_callback_of app j (b, s)))"
  proof (cases "obind s (\<lambda>c. OnMessage app j (c \<lparr>m_rpc := b\<rparr>))")
    case (Ok c')
    then obtain c where c: "s = Ok c" "OnMessage app j (c \<lparr>m_rpc := b\<rparr>) = Ok c'" by (auto simp: obind_eq_Ok)
    have "client_inv (c \<lparr>m_rpc := b\<rparr>)" using s c(1) by (simp add: loop_state_def client_inv_def)
    from OnMessage_Ok [OF this j c(2)] show ?thesis
      by (auto simp: rpc_callback_of_def c loop_state_def follows_def client_inv_def)
  qed (auto simp: rpc_callback_of_def loop_state_def)
  then show "length (fst (rpc_callback_of app j (b, s))) \<le> length b" "loop_state (snd (rpc_callback_of app j (b, s)))"
    by simp_all
qed

context debugger_app
begin

lemma loop_state_start: "client_inv c \<Longrightarrow> loop_state (Ok (c \<lparr>m_rpc := []\<rparr>))"
  by (simp add: loop_state_def client_inv_def)

lemma OnDataRead_terminates: "client_inv c \<Longrightarrow> OnDataRead app buffer c \<noteq> Out_Of_Fuel"
  using on_message.enough_fuel [OF process_fuel_less loop_state_start, of c "AppendBuffer buffer (m_rpc c)"]
  by (auto simp: OnDataRead_def Let_def split: run.splits outcome.splits)

lemma OnDataRead_inv: "client_inv c \<Longrightarrow> OnDataRead app buffer c = Done c' \<Longrightarrow> client_inv c'"
  using on_message.final_state [OF _ loop_state_start, of "process_fuel (AppendBuffer buffer (m_rpc c))"
      "AppendBuffer buffer (m_rpc c)" c]
  by (auto simp: OnDataRead_def Let_def loop_state_def client_inv_def split: run.splits outcome.splits if_splits)

end

section \<open>The handshake\<close>

lemma is_initialize_response_iff:
  "is_initialize_response (FromJSON registered json) \<longleftrightarrow>
     GetString (Json_at json ''type'') [] = ''response'' \<and> GetString (Json_at json ''command'') [] = ''initialize''"
proof (cases "FromJSON registered json")
  case None
  have "m_responses registered ''initialize'' \<noteq> None"
    using response_pool [of "MInitializeResponse new_InitializeResponse"] by simp
  then show ?thesis
    using None by (auto simp: is_initialize_response_def FromJSON_def ObjGenerator_New_def New_from_pool_def Let_def
        IsOK_def Json_at_def GetString_def split: option.splits if_splits)
next
  case (Some m)
  then show ?thesis
    by (cases rule: FromJSON_cases)
      (auto simp: Some is_initialize_response_def AsResponse_def From_heads)
qed

text \<open>The client after the answer to \<^verbatim>\<open>initialize\<close>: the features are the flags that are true in its body.\<close>

definition initialized :: "Json \<Rightarrow> 'c Client_scheme \<Rightarrow> 'c Client_scheme" where
  "initialized json c = c \<lparr>m_handshake_state := kCompleted,
     m_features := foldl (ENABLE_FEATURE (Json_at json ''body'')) (m_features c) [0..<length feature_names]\<rparr>"

lemma IsSupported_initialized:
  "i < 22 \<Longrightarrow> m_features c = 0 \<Longrightarrow>
     IsSupported i (initialized json c) \<longleftrightarrow> GetBool (Json_at (Json_at json ''body'') (feature_names ! i)) False"
  by (simp add: IsSupported_bit initialized_def bit_ENABLE_all)

lemma OnMessage_handshake:
  assumes "m_handshake_state c \<noteq> kCompleted" "\<not> m_wants_log_events c"
  shows "OnMessage app json c =
     (if GetString (Json_at json ''type'') [] = ''response'' \<and> GetString (Json_at json ''command'') [] = ''initialize''
      then SendDAPEvent app wxEVT_DAP_INITIALIZE_RESPONSE (MResponse (MInitializeResponse new_InitializeResponse))
             json None (initialized json c)
      else Ok c)"
  using assms
  by (simp add: OnMessage_def log_received_def OnHandshake_def is_initialize_response_iff initialized_def Let_def)

section \<open>Responses\<close>

text \<open>A response of a registered command is dispatched on the members of the tree.\<close>

definition response_of :: "Json \<Rightarrow> Response" where
  "response_of json = as_Response (ResponseMsg_From json (MEmptyAckResponse new_EmptyAckResponse))"

lemma as_Response_From: "as_Response (ResponseMsg_From json s) = response_of json"
  by (cases s) (simp_all add: response_of_def response_from_defs msg_defs Response.defs Let_def)

lemma response_of_simps [simp]:
  "Response_command (response_of json) = GetString (Json_at json ''command'') []"
  "ProtocolMessage_type (response_of json) = GetString (Json_at json ''type'') []"
  "Response_request_seq (response_of json) = GetInteger (Json_at json ''request_seq'') (-1)"
  unfolding response_of_def From_heads by simp_all

lemma OnSessionMessage_response:
  assumes "GetString (Json_at json ''type'') [] = ''response''"
    "m_responses registered (GetString (Json_at json ''command'') []) = Some m"
  shows "OnSessionMessage app json c = OnResponse app (response_of json) json c"
proof -
  obtain s where m: "m = MResponse s" using pool_kinds(3) [OF assms(2)] by blast
  have "IsOK json" using assms(1) by (cases json) (simp_all add: IsOK_def Json_at_def GetString_def)
  then have "FromJSON registered json = Some (MResponse (ResponseMsg_From json s))"
    using assms m by (simp add: FromJSON_def ObjGenerator_New_def New_from_pool_def)
  then show ?thesis
    using assms(1) by (simp add: OnSessionMessage_def AsEvent_def AsResponse_def as_Response_From From_heads)
qed

text \<open>The event that answers a request carries the request filed under the number in the response.\<close>

definition forget :: "int \<Rightarrow> 'c Client_scheme \<Rightarrow> 'c Client_scheme" where
  "forget k c = c \<lparr>m_in_flight_requests := (m_in_flight_requests c)(k := None)\<rparr>"

definition answer_event :: "wxEventType \<Rightarrow> ResponseMsg \<Rightarrow> Json \<Rightarrow> RequestMsg option \<Rightarrow> DAPEvent" where
  "answer_event t response json req =
     \<lparr>event_type = t, event_object = Some (MResponse (ResponseMsg_From json response)), event_string = [],
      event_request = req\<rparr>"

lemma answer_fire:
  assumes "t \<noteq> wxEVT_DAP_STOPPED_EVENT"
  shows "answer app t response json r c =
     fire_event app (answer_event t response json (m_in_flight_requests c (Response_request_seq r)))
       (forget (Response_request_seq r) c)"
proof (cases "m_in_flight_requests c (Response_request_seq r)")
  case None
  then have "forget (Response_request_seq r) c = c" by (simp add: forget_def fun_upd_idem)
  then show ?thesis using assms None
    by (simp add: answer_def GetOriginatingRequest_def SendDAPEvent_def answer_event_def Let_def)
next
  case (Some q)
  then show ?thesis using assms
    by (simp add: answer_def GetOriginatingRequest_def SendDAPEvent_def answer_event_def forget_def Let_def)
qed

text \<open>
  The responses that answer an API call with an event, by what the client remembers of the
  call: the ids and files come off the front of their queue, in the order of the calls.
\<close>

lemma OnResponse_queues:
  "Response_command r = ''stackTrace'' \<Longrightarrow> m_get_frames_queue c = t # q \<Longrightarrow>
     OnResponse app r json c = answer app wxEVT_DAP_STACKTRACE_RESPONSE
       (MStackTraceResponse (new_StackTraceResponse \<lparr>StackTraceResponse_refId := t\<rparr>)) json r (c \<lparr>m_get_frames_queue := q\<rparr>)"
  "Response_command r = ''scopes'' \<Longrightarrow> m_get_scopes_queue c = t # q \<Longrightarrow>
     OnResponse app r json c = answer app wxEVT_DAP_SCOPES_RESPONSE
       (MScopesResponse (new_ScopesResponse \<lparr>ScopesResponse_refId := t\<rparr>)) json r (c \<lparr>m_get_scopes_queue := q\<rparr>)"
  "Response_command r = ''variables'' \<Longrightarrow> m_get_variables_queue c = (t, x) # vq \<Longrightarrow>
     OnResponse app r json c = answer app wxEVT_DAP_VARIABLES_RESPONSE
       (MVariablesResponse (new_VariablesResponse \<lparr>VariablesResponse_refId := t, VariablesResponse_context := x\<rparr>)) json r
       (c \<lparr>m_get_variables_queue := vq\<rparr>)"
  "Response_command r = ''setBreakpoints'' \<Longrightarrow> m_source_breakpoints_queue c = f # fq \<Longrightarrow>
     OnResponse app r json c = answer app wxEVT_DAP_SET_SOURCE_BREAKPOINT_RESPONSE
       (MSetBreakpointsResponse (new_SetBreakpointsResponse \<lparr>SetBreakpointsResponse_originSource := f\<rparr>)) json r
       (c \<lparr>m_source_breakpoints_queue := fq\<rparr>)"
  by (simp_all add: OnResponse_def Let_def pop_frames_def pop_scopes_def pop_variables_def pop_breakpoints_def)

text \<open>The step and continue responses only mark the debuggee as running.\<close>

lemma OnResponse_running:
  "Response_command r \<in> {''stepIn'', ''stepOut'', ''next'', ''continue''} \<Longrightarrow>
     OnResponse app r json c = Ok (c \<lparr>m_can_interact := False\<rparr>)"
  by (auto simp: OnResponse_def Let_def)

section \<open>An application without handlers\<close>

text \<open>A client to which nothing is bound: events are dropped.  It keeps the contract.\<close>

definition unbound_app :: "(string \<Rightarrow> string) \<Rightarrow> 'c App" where
  "unbound_app fullname = \<lparr>on_event = (\<lambda>e c. Ok c), on_source = (\<lambda>k b s t c. Ok c),
     on_evaluate = (\<lambda>k b s t v c. Ok c), GetFullName = fullname\<rparr>"

interpretation unbound: debugger_app "unbound_app fullname" for fullname
  by unfold_locales (simp_all add: unbound_app_def)

end
