(* ===== verification/Dap_Session.thy ===== *)
theory Dap_Session
  imports Dap_Client
begin

text \<open>
  A debug session as a sequence of steps of \<^verbatim>\<open>dap::Client\<close>: what a request over a transport leaves
  behind, how the answers of the server are matched with the calls of the application, and the
  reader thread of \<^verbatim>\<open>StartReaderThread\<close> together with the event queue of the main loop.
\<close>

section \<open>A request over a transport\<close>

text \<open>
  \<open>sent r p c c'\<close>: from \<open>c\<close> to \<open>c'\<close> the request \<open>r\<close> went out as the text \<open>p\<close> and was filed;
  nothing else changed but what the log appended to the trace.
\<close>

definition sent :: "RequestMsg \<Rightarrow> string \<Rightarrow> 'c Client_scheme \<Rightarrow> 'c Client_scheme \<Rightarrow> bool" where
  "sent r p c c' \<longleftrightarrow>
     Message_ToString (MRequest r) = Ok p \<and> client_inv c' \<and> (\<exists>ss. trace c' = trace c @ Sent (frame p) # logs ss) \<and>
     (int (length (trace c)) < INT_MAX \<longrightarrow>
        m_in_flight_requests c' = (m_in_flight_requests c)(ProtocolMessage_seq (as_Request r) \<mapsto> r)) \<and>
     Client.truncate (c' \<lparr>trace := trace c, m_in_flight_requests := m_in_flight_requests c\<rparr>) = Client.truncate c"

lemma sentD:
  assumes "sent r p c c'"
  shows "client_inv c'" "m_transport c' = m_transport c" "m_handshake_state c' = m_handshake_state c"
    "m_wants_log_events c' = m_wants_log_events c" "m_features c' = m_features c"
    "m_get_frames_queue c' = m_get_frames_queue c" "m_get_scopes_queue c' = m_get_scopes_queue c"
    "m_get_variables_queue c' = m_get_variables_queue c" "m_source_breakpoints_queue c' = m_source_breakpoints_queue c"
    "m_requestSeuqnce c' = m_requestSeuqnce c"
  using assms truncate_simps [of "c' \<lparr>trace := trace c, m_in_flight_requests := m_in_flight_requests c\<rparr>" c]
  by (simp_all add: sent_def)

context debugger_app
begin

lemma SendRequest_sent:
  assumes "ready r c" "m_transport c"
  shows "\<exists>p c'. SendRequest app r c = Ok (True, c') \<and> sent r p c c'"
proof -
  obtain p c1 ss where p: "Message_ToString (MRequest r) = Ok p"
    and s: "SendRequest app r c = Ok (True, insert_in_flight r c1)"
    and t: "Client.truncate c1 = Client.truncate (c \<lparr>trace := trace c @ Sent (frame p) # logs ss\<rparr>)"
    using SendRequest_connected [OF assms] by blast
  note t1 = truncate_simps [OF t]
  have "m_in_flight_requests (insert_in_flight r c1) = (m_in_flight_requests c)(ProtocolMessage_seq (as_Request r) \<mapsto> r)"
    if "int (length (trace c)) < INT_MAX"
    using ready_fresh(3) [OF assms(1) that] t1 by (simp add: insert_in_flight_def Let_def)
  moreover have "Client.truncate (insert_in_flight r c1 \<lparr>trace := trace c, m_in_flight_requests := m_in_flight_requests c\<rparr>)
      = Client.truncate c"
    using t by (cases c; cases c1) (auto simp: insert_in_flight_def Let_def Client.defs)
  ultimately have "sent r p c (insert_in_flight r c1)"
    using p t1 inv_insert_in_flight [OF assms(1) t] by (auto simp: sent_def)
  with s show ?thesis by blast
qed

text \<open>The same for the next number on a state that differs from \<open>c\<close> in the queues only.\<close>

lemma request_sent:
  assumes "client_inv c" "client_inv_at 1 c1" "trace c1 = trace c" "m_transport c1"
    "m_requestSeuqnce c1 = m_requestSeuqnce c + 1" "ints_RequestMsg r"
    "ProtocolMessage_seq (as_Request r) = seq_of (m_requestSeuqnce c + 1)"
  shows "\<exists>r' p c'. omap snd (SendRequest app r c1) = Ok c' \<and> sent r' p c1 c'"
proof -
  have "ready r c1" using assms by (intro request_ready)
  from SendRequest_sent [OF this assms(4)] obtain p c' where "SendRequest app r c1 = Ok (True, c')" "sent r p c1 c'"
    by blast
  then show ?thesis by auto
qed

end

section \<open>Calls and answers\<close>

text \<open>A sequence of API calls, and of received messages.\<close>

fun run_apis :: "'c App \<Rightarrow> api list \<Rightarrow> 'c Client_scheme \<Rightarrow> 'c Client_scheme outcome" where
  "run_apis app [] c = Ok c"
| "run_apis app (a # as) c = obind (run_api app a c) (run_apis app as)"

fun on_messages :: "'c App \<Rightarrow> Json list \<Rightarrow> 'c Client_scheme \<Rightarrow> 'c Client_scheme outcome" where
  "on_messages app [] c = Ok c"
| "on_messages app (j # js) c = obind (OnMessage app j c) (on_messages app js)"

text \<open>
  The kinds of calls whose answers the client matches by order: the call, the command of the
  answer, the queue, and the id that the event of the answer carries.
\<close>

datatype call = Frames int | Scopes int | Variables int EvaluateContext | Breakpoints string

fun call_api :: "call \<Rightarrow> api" where
  "call_api (Frames t) = Api_GetFrames t 0 100"
| "call_api (Scopes f) = Api_GetScopes f"
| "call_api (Variables v x) = Api_GetChildrenVariables v x 100 NATIVE"
| "call_api (Breakpoints f) = Api_SetBreakpointsFile f []"

fun call_command :: "call \<Rightarrow> string" where
  "call_command (Frames t) = ''stackTrace''"
| "call_command (Scopes f) = ''scopes''"
| "call_command (Variables v x) = ''variables''"
| "call_command (Breakpoints f) = ''setBreakpoints''"

fun valid_call :: "call \<Rightarrow> bool" where
  "valid_call (Frames t) \<longleftrightarrow> is_int32 t \<and> t \<noteq> wxNOT_FOUND"
| "valid_call (Scopes f) \<longleftrightarrow> is_int32 f"
| "valid_call (Variables v x) \<longleftrightarrow> is_int32 v"
| "valid_call (Breakpoints f) \<longleftrightarrow> True"

text \<open>The calls that are still unanswered, by kind, as the four queues of the client hold them.\<close>

definition pending :: "'c Client_scheme \<Rightarrow> string \<Rightarrow> call list" where
  "pending c cmd =
     (if cmd = ''stackTrace'' then map Frames (m_get_frames_queue c)
      else if cmd = ''scopes'' then map Scopes (m_get_scopes_queue c)
      else if cmd = ''variables'' then map (\<lambda>(v, x). Variables v x) (m_get_variables_queue c)
      else if cmd = ''setBreakpoints'' then map Breakpoints (m_source_breakpoints_queue c)
      else [])"

text \<open>What the event of an answer says it answers.\<close>

fun answered :: "action \<Rightarrow> call option" where
  "answered (Posted e) =
     (case event_object e of
        Some (MResponse (MStackTraceResponse r)) \<Rightarrow> Some (Frames (StackTraceResponse_refId r))
      | Some (MResponse (MScopesResponse r)) \<Rightarrow> Some (Scopes (ScopesResponse_refId r))
      | Some (MResponse (MVariablesResponse r)) \<Rightarrow>
          Some (Variables (VariablesResponse_refId r) (VariablesResponse_context r))
      | Some (MResponse (MSetBreakpointsResponse r)) \<Rightarrow> Some (Breakpoints (SetBreakpointsResponse_originSource r))
      | _ \<Rightarrow> None)"
| "answered _ = None"

definition is_answer :: "string \<Rightarrow> Json \<Rightarrow> bool" where
  "is_answer cmd j \<longleftrightarrow> GetString (Json_at j ''type'') [] = ''response'' \<and> GetString (Json_at j ''command'') [] = cmd"

text \<open>The state that the call hands to \<^verbatim>\<open>SendRequest\<close>: the next number is taken, the call is queued.\<close>

fun called :: "call \<Rightarrow> 'c Client_scheme \<Rightarrow> 'c Client_scheme" where
  "called (Frames t) c = c \<lparr>m_requestSeuqnce := m_requestSeuqnce c + 1, m_get_frames_queue := m_get_frames_queue c @ [t]\<rparr>"
| "called (Scopes f) c = c \<lparr>m_requestSeuqnce := m_requestSeuqnce c + 1, m_get_scopes_queue := m_get_scopes_queue c @ [f]\<rparr>"
| "called (Variables v x) c =
     c \<lparr>m_requestSeuqnce := m_requestSeuqnce c + 1, m_get_variables_queue := m_get_variables_queue c @ [(v, x)]\<rparr>"
| "called (Breakpoints f) c =
     c \<lparr>m_requestSeuqnce := m_requestSeuqnce c + 1, m_source_breakpoints_queue := m_source_breakpoints_queue c @ [f]\<rparr>"

lemma pending_called: "pending (called a c) = (pending c)(call_command a := pending c (call_command a) @ [a])"
  by (cases a) (auto simp: pending_def)

lemma called_same [simp]:
  "trace (called a c) = trace c" "m_transport (called a c) = m_transport c"
  "m_handshake_state (called a c) = m_handshake_state c" "m_wants_log_events (called a c) = m_wants_log_events c"
  by (cases a; simp)+

context debugger_app
begin

lemma call_sent:
  assumes "client_inv c" "m_transport c" "valid_call a"
  shows "\<exists>r p c'. run_api app (call_api a) c = Ok c' \<and> sent r p (called a c) c'"
proof (cases a)
  case (Frames t)
  have "is_int32 100" by (simp add: is_int32_def int_limits)
  with Frames assms show ?thesis
    by (simp add: GetFrames_def Let_def MakeRequest_eq thread_or_active_def)
      (rule request_sent, simp_all add: api_simps)
next
  case (Scopes f)
  with assms show ?thesis
    by (simp add: GetScopes_def Let_def MakeRequest_eq) (rule request_sent, simp_all add: api_simps)
next
  case (Variables v x)
  with assms show ?thesis
    by (simp add: GetChildrenVariables_def Let_def MakeRequest_eq) (rule request_sent, simp_all add: api_simps)
next
  case (Breakpoints f)
  with assms show ?thesis
    by (simp add: SetBreakpointsFile_def Let_def MakeRequest_eq) (rule request_sent, simp_all add: api_simps)
qed

end

lemma answered_logs [simp]: "List.map_filter answered (logs ss) = []"
  by (induction ss) (simp_all add: logs_def map_filter_simps log_event_def plain_event_def)

lemma map_filter_append: "List.map_filter f (xs @ ys) = List.map_filter f xs @ List.map_filter f ys"
  by (induction xs) (simp_all add: map_filter_simps split: option.split)

section \<open>Matching by order refines queues of calls\<close>

text \<open>
  The specification: one queue of calls per kind.  A call goes to the end of its queue; an answer
  takes the front off, and that is the call it answers.
\<close>

datatype op = Call call | Answer string Json

fun queue_step :: "op \<Rightarrow> (string \<Rightarrow> call list) \<times> call list \<Rightarrow> (string \<Rightarrow> call list) \<times> call list" where
  "queue_step (Call a) (Q, out) = (Q(call_command a := Q (call_command a) @ [a]), out)"
| "queue_step (Answer cmd j) (Q, out) = (case Q cmd of [] \<Rightarrow> (Q, out) | a # q \<Rightarrow> (Q(cmd := q), out @ [a]))"

text \<open>An operation that can happen: the server answers only what was asked.\<close>

fun possible :: "op \<Rightarrow> (string \<Rightarrow> call list) \<Rightarrow> bool" where
  "possible (Call a) Q \<longleftrightarrow> valid_call a"
| "possible (Answer cmd j) Q \<longleftrightarrow> is_answer cmd j \<and> ints_json j \<and> Q cmd \<noteq> []"

fun possible_run :: "op list \<Rightarrow> (string \<Rightarrow> call list) \<times> call list \<Rightarrow> bool" where
  "possible_run [] s \<longleftrightarrow> True"
| "possible_run (x # xs) s \<longleftrightarrow> possible x (fst s) \<and> possible_run xs (queue_step x s)"

fun client_step :: "'c App \<Rightarrow> op \<Rightarrow> 'c Client_scheme \<Rightarrow> 'c Client_scheme outcome" where
  "client_step app (Call a) c = run_api app (call_api a) c"
| "client_step app (Answer cmd j) c = OnMessage app j c"

fun client_steps :: "'c App \<Rightarrow> op list \<Rightarrow> 'c Client_scheme \<Rightarrow> 'c Client_scheme outcome" where
  "client_steps app [] c = Ok c"
| "client_steps app (x # xs) c = obind (client_step app x c) (client_steps app xs)"

text \<open>The abstraction: the queues of the client, and the calls that its events have answered.\<close>

definition queues :: "'c Client_scheme \<Rightarrow> (string \<Rightarrow> call list) \<times> call list" where
  "queues c = (pending c, List.map_filter answered (trace c))"

definition in_session :: "'c Client_scheme \<Rightarrow> bool" where
  "in_session c \<longleftrightarrow> client_inv c \<and> m_transport c \<and> m_handshake_state c = kCompleted \<and> \<not> m_wants_log_events c"

lemma pending_sent: "sent r p c c' \<Longrightarrow> pending c' = pending c"
  using sentD [of r p c c'] by (simp add: pending_def fun_eq_iff)

context debugger_app
begin

lemma call_refines:
  assumes "in_session c" "possible (Call a) (fst (queues c))"
  shows "\<exists>c'. client_step app (Call a) c = Ok c' \<and> in_session c' \<and> queues c' = queue_step (Call a) (queues c)"
proof -
  obtain r p c' where s: "run_api app (call_api a) c = Ok c'" "sent r p (called a c) c'"
    using call_sent [of c a] assms by (auto simp: in_session_def)
  obtain ss where "trace c' = trace c @ Sent (frame p) # logs ss" using s(2) by (auto simp: sent_def)
  then have "queues c' = queue_step (Call a) (queues c)"
    using pending_sent [OF s(2)] by (simp add: queues_def pending_called map_filter_append map_filter_simps)
  moreover have "in_session c'" using sentD [OF s(2)] assms(1) by (simp add: in_session_def)
  ultimately show ?thesis using s(1) by auto
qed

end

text \<open>The answers, for a client to which no handler is bound.\<close>

lemma refId_kept:
  "StackTraceResponse_refId (StackTraceResponse_From j r1) = StackTraceResponse_refId r1"
  "ScopesResponse_refId (ScopesResponse_From j r2) = ScopesResponse_refId r2"
  "VariablesResponse_refId (VariablesResponse_From j r3) = VariablesResponse_refId r3"
  "VariablesResponse_context (VariablesResponse_From j r3) = VariablesResponse_context r3"
  "SetBreakpointsResponse_originSource (SetBreakpointsResponse_From j r4) = SetBreakpointsResponse_originSource r4"
  by (simp_all add: StackTraceResponse_From_def ScopesResponse_From_def VariablesResponse_From_def
      SetBreakpointsResponse_From_def msg_defs Let_def)

lemma unbound_answer:
  assumes "t \<noteq> wxEVT_DAP_STOPPED_EVENT"
  shows "answer (unbound_app g) t response json r c =
     Ok ((forget (Response_request_seq r) c) \<lparr>trace := trace c @
       [Posted (answer_event t response json (m_in_flight_requests c (Response_request_seq r)))]\<rparr>)"
  by (simp add: answer_fire [OF assms] fire_event_def unbound_app_def forget_def)

lemma pending_forget [simp]: "pending (forget k c \<lparr>trace := ts\<rparr>) = pending c"
  by (simp add: pending_def forget_def fun_eq_iff)

lemma OnMessage_response:
  assumes "m_handshake_state c = kCompleted" "\<not> m_wants_log_events c" "is_answer cmd j" "m_responses registered cmd \<noteq> None"
  shows "OnMessage app j c = OnResponse app (response_of j) j c"
proof -
  obtain m where "m_responses registered (GetString (Json_at j ''command'') []) = Some m"
    using assms(3,4) by (auto simp: is_answer_def)
  with assms(3) have "OnSessionMessage app j c = OnResponse app (response_of j) j c"
    by (intro OnSessionMessage_response) (simp_all add: is_answer_def)
  then show ?thesis using assms(1,2) by (simp add: OnMessage_def log_received_def)
qed

lemma OnMessage_answer:
  "in_session c \<Longrightarrow> is_answer cmd j \<Longrightarrow> m_responses registered cmd \<noteq> None \<Longrightarrow>
     OnMessage app j c = OnResponse app (response_of j) j c"
  by (rule OnMessage_response) (simp_all add: in_session_def)

lemma call_commands_registered: "m_responses registered (call_command a) \<noteq> None"
  using response_pool [of "MStackTraceResponse r1" for r1] response_pool [of "MScopesResponse r2" for r2]
    response_pool [of "MVariablesResponse r3" for r3] response_pool [of "MSetBreakpointsResponse r4" for r4]
  by (cases a) simp_all

lemma pending_command: "pending c cmd = a # q \<Longrightarrow> cmd = call_command a"
  by (auto simp: pending_def split: if_splits prod.splits)

lemma answer_posts:
  assumes "in_session c" "is_answer cmd j" "pending c cmd = a # q"
  shows "\<exists>c' x. OnMessage (unbound_app g) j c = Ok c' \<and> trace c' = trace c @ [x] \<and> answered x = Some a \<and>
     pending c' = (pending c)(cmd := q) \<and> m_transport c' = m_transport c \<and>
     m_handshake_state c' = m_handshake_state c \<and> m_wants_log_events c' = m_wants_log_events c"
proof -
  have cmd: "cmd = call_command a" using assms(3) by (rule pending_command)
  have m: "OnMessage (unbound_app g) j c = OnResponse (unbound_app g) (response_of j) j c"
    using assms(1,2) call_commands_registered [of a] unfolding cmd by (rule OnMessage_answer)
  have k: "Response_command (response_of j) = call_command a" using assms(2) cmd by (simp add: is_answer_def)
  show ?thesis
  proof (cases a)
    case (Frames t)
    then obtain fq where "m_get_frames_queue c = t # fq" using assms(3) cmd by (auto simp: pending_def)
    then show ?thesis using Frames k m cmd assms(3)
      by (simp add: OnResponse_queues(1) unbound_answer answer_event_def refId_kept) (auto simp: pending_def forget_def fun_eq_iff)
  next
    case (Scopes f)
    then obtain fq where "m_get_scopes_queue c = f # fq" using assms(3) cmd by (auto simp: pending_def)
    then show ?thesis using Scopes k m cmd assms(3)
      by (simp add: OnResponse_queues(2) unbound_answer answer_event_def refId_kept) (auto simp: pending_def forget_def fun_eq_iff)
  next
    case (Variables v x)
    then obtain fq where "m_get_variables_queue c = (v, x) # fq" using assms(3) cmd by (auto simp: pending_def)
    then show ?thesis using Variables k m cmd assms(3)
      by (simp add: OnResponse_queues(3) unbound_answer answer_event_def refId_kept) (auto simp: pending_def forget_def fun_eq_iff)
  next
    case (Breakpoints f)
    then obtain fq where "m_source_breakpoints_queue c = f # fq" using assms(3) cmd by (auto simp: pending_def)
    then show ?thesis using Breakpoints k m cmd assms(3)
      by (simp add: OnResponse_queues(4) unbound_answer answer_event_def refId_kept) (auto simp: pending_def forget_def fun_eq_iff)
  qed
qed

lemma answer_refines:
  assumes "in_session c" "possible (Answer cmd j) (fst (queues c))"
  shows "\<exists>c'. client_step (unbound_app g) (Answer cmd j) c = Ok c' \<and> in_session c' \<and>
     queues c' = queue_step (Answer cmd j) (queues c)"
proof -
  obtain a q where "pending c cmd = a # q" using assms(2) by (cases "pending c cmd") (auto simp: queues_def)
  moreover from this obtain c' x where c': "OnMessage (unbound_app g) j c = Ok c'" "trace c' = trace c @ [x]"
    "answered x = Some a" "pending c' = (pending c)(cmd := q)" "m_transport c' = m_transport c"
    "m_handshake_state c' = m_handshake_state c" "m_wants_log_events c' = m_wants_log_events c"
    using answer_posts [OF assms(1), of cmd j a q g] assms(2) by auto
  moreover have "client_inv c'"
    using unbound.OnMessage_Ok [OF _ _ c'(1)] assms by (auto simp: in_session_def)
  ultimately show ?thesis
    using assms(1) by (auto simp: queues_def in_session_def map_filter_append map_filter_simps)
qed

lemma queues_refined:
  "in_session c \<Longrightarrow> possible_run xs (queues c) \<Longrightarrow>
     \<exists>c'. client_steps (unbound_app g) xs c = Ok c' \<and> in_session c' \<and> queues c' = fold queue_step xs (queues c)"
proof (induction xs arbitrary: c)
  case (Cons x xs)
  have "\<exists>c1. client_step (unbound_app g) x c = Ok c1 \<and> in_session c1 \<and> queues c1 = queue_step x (queues c)"
    using Cons.prems unbound.call_refines [of c _ g] answer_refines [of c _ _ g]
    by (cases x) (simp_all del: client_step.simps possible.simps)
  then obtain c1 where "client_step (unbound_app g) x c = Ok c1" "in_session c1" "queues c1 = queue_step x (queues c)"
    by blast
  then show ?case using Cons.IH [of c1] Cons.prems(2) by simp
qed simp

section \<open>From bytes to handled messages\<close>

text \<open>
  Without handlers no message touches the input buffer, so that the loop of \<^verbatim>\<open>OnDataRead\<close> handles
  the messages of a stream as if \<^verbatim>\<open>OnMessage\<close> had been called on each, however the stream was cut.
\<close>

abbreviation on_rpc :: "string \<Rightarrow> 'c Client_scheme outcome \<Rightarrow> 'c Client_scheme outcome" where
  "on_rpc b x \<equiv> omap (\<lambda>c. c \<lparr>m_rpc := b\<rparr>) x"

lemma fire_rpc: "fire_event (unbound_app g) e (c \<lparr>m_rpc := b\<rparr>) = on_rpc b (fire_event (unbound_app g) e c)"
  by (simp add: fire_event_def unbound_app_def)

lemma SendDAPEvent_rpc:
  "SendDAPEvent (unbound_app g) t m j req (c \<lparr>m_rpc := b\<rparr>) = on_rpc b (SendDAPEvent (unbound_app g) t m j req c)"
  by (simp add: SendDAPEvent_def Let_def fire_event_def unbound_app_def split: Message.split EventMsg.split)

lemma answer_rpc:
  "answer (unbound_app g) t s j r (c \<lparr>m_rpc := b\<rparr>) = on_rpc b (answer (unbound_app g) t s j r c)"
  by (simp add: answer_def GetOriginatingRequest_def SendDAPEvent_def fire_event_def unbound_app_def Let_def
      split: option.split Message.split EventMsg.split)

lemma pop_rpc:
  "pop_frames (c \<lparr>m_rpc := b\<rparr>) = map_prod id (\<lambda>c. c \<lparr>m_rpc := b\<rparr>) (pop_frames c)"
  "pop_scopes (c \<lparr>m_rpc := b\<rparr>) = map_prod id (\<lambda>c. c \<lparr>m_rpc := b\<rparr>) (pop_scopes c)"
  "pop_variables (c \<lparr>m_rpc := b\<rparr>) = map_prod id (\<lambda>c. c \<lparr>m_rpc := b\<rparr>) (pop_variables c)"
  "pop_breakpoints (c \<lparr>m_rpc := b\<rparr>) = map_prod id (\<lambda>c. c \<lparr>m_rpc := b\<rparr>) (pop_breakpoints c)"
  "pop_filepath k (c \<lparr>m_rpc := b\<rparr>) = map_prod id (\<lambda>c. c \<lparr>m_rpc := b\<rparr>) (pop_filepath k c)"
  by (simp_all add: pop_frames_def pop_scopes_def pop_variables_def pop_breakpoints_def pop_filepath_def
      split: list.split option.split)

lemma Handle_rpc:
  "HandleEvaluateResponse (unbound_app g) j (c \<lparr>m_rpc := b\<rparr>) = on_rpc b (HandleEvaluateResponse (unbound_app g) j c)"
  "HandleSourceResponse (unbound_app g) j (c \<lparr>m_rpc := b\<rparr>) = on_rpc b (HandleSourceResponse (unbound_app g) j c)"
  by (simp_all add: HandleEvaluateResponse_def HandleSourceResponse_def unbound_app_def Let_def split: list.split)

lemma interact_rpc: "c \<lparr>m_rpc := b, m_can_interact := x\<rparr> = (c \<lparr>m_can_interact := x\<rparr>) \<lparr>m_rpc := b\<rparr>"
  by simp

lemma OnResponse_rpc: "OnResponse (unbound_app g) r j (c \<lparr>m_rpc := b\<rparr>) = on_rpc b (OnResponse (unbound_app g) r j c)"
  unfolding OnResponse_def Let_def pop_rpc Handle_rpc
  by (simp add: answer_rpc split: prod.split)

lemma OnEvent_rpc: "OnEvent (unbound_app g) e j (c \<lparr>m_rpc := b\<rparr>) = on_rpc b (OnEvent (unbound_app g) e j c)"
  unfolding OnEvent_def interact_rpc SendDAPEvent_rpc by simp

lemma OnHandshake_rpc: "OnHandshake (unbound_app g) j (c \<lparr>m_rpc := b\<rparr>) = on_rpc b (OnHandshake (unbound_app g) j c)"
proof -
  have e: "c \<lparr>m_rpc := b, m_handshake_state := h, m_features := f\<rparr> = (c \<lparr>m_handshake_state := h, m_features := f\<rparr>) \<lparr>m_rpc := b\<rparr>"
    for h f by simp
  show ?thesis by (simp add: OnHandshake_def Let_def e SendDAPEvent_rpc)
qed

lemma OnMessage_rpc: "OnMessage (unbound_app g) j (c \<lparr>m_rpc := b\<rparr>) = on_rpc b (OnMessage (unbound_app g) j c)"
proof -
  have s: "OnSessionMessage (unbound_app g) j (c \<lparr>m_rpc := b\<rparr>) = on_rpc b (OnSessionMessage (unbound_app g) j c)" for c
    by (simp add: OnSessionMessage_def OnReverseRequest_def OnResponse_rpc OnEvent_rpc SendDAPEvent_rpc split: option.split)
  have l: "log_received (unbound_app g) j (c \<lparr>m_rpc := b\<rparr>) = on_rpc b (log_received (unbound_app g) j c)"
    by (cases "Json_ToString False j") (simp_all add: log_received_def fire_rpc)
  show ?thesis unfolding OnMessage_def l
    by (cases "log_received (unbound_app g) j c") (simp_all add: s OnHandshake_rpc)
qed

text \<open>Nor does it switch the log on.\<close>

lemma log_kept:
  "SendDAPEvent (unbound_app g) t m j req c = Ok c' \<Longrightarrow> m_wants_log_events c' = m_wants_log_events c"
  "answer (unbound_app g) t s j r c = Ok c' \<Longrightarrow> m_wants_log_events c' = m_wants_log_events c"
  "HandleEvaluateResponse (unbound_app g) j c = Ok c' \<Longrightarrow> m_wants_log_events c' = m_wants_log_events c"
  "HandleSourceResponse (unbound_app g) j c = Ok c' \<Longrightarrow> m_wants_log_events c' = m_wants_log_events c"
  by (auto simp: SendDAPEvent_def answer_def GetOriginatingRequest_def HandleEvaluateResponse_def
      HandleSourceResponse_def fire_event_def unbound_app_def Let_def
      split: option.splits Message.splits EventMsg.splits list.splits if_splits)

lemma pops_log:
  "m_wants_log_events (snd (pop_frames c)) = m_wants_log_events c"
  "m_wants_log_events (snd (pop_scopes c)) = m_wants_log_events c"
  "m_wants_log_events (snd (pop_variables c)) = m_wants_log_events c"
  "m_wants_log_events (snd (pop_breakpoints c)) = m_wants_log_events c"
  "m_wants_log_events (snd (pop_filepath k c)) = m_wants_log_events c"
  by (simp_all add: pop_frames_def pop_scopes_def pop_variables_def pop_breakpoints_def pop_filepath_def
      split: list.split option.split)

lemma OnMessage_log:
  assumes "OnMessage (unbound_app g) j c = Ok c'" "\<not> m_wants_log_events c" shows "\<not> m_wants_log_events c'"
proof -
  have "\<not> m_wants_log_events c'" if "OnEvent (unbound_app g) e j c = Ok c'" for e
    using that assms(2) by (auto simp: OnEvent_def dest!: log_kept(1) split: if_splits)
  moreover have "\<not> m_wants_log_events c'" if "OnResponse (unbound_app g) r j c = Ok c'" for r
    using that assms(2) pops_log [where c = c]
    by (auto simp: OnResponse_def Let_def case_prod_unfold dest!: log_kept split: if_splits)
  moreover have "\<not> m_wants_log_events c'" if "OnReverseRequest (unbound_app g) k j c = Ok c'" for k
    using that assms(2) by (auto simp: OnReverseRequest_def dest!: log_kept(1) split: if_splits)
  moreover have "\<not> m_wants_log_events c'" if "OnHandshake (unbound_app g) j c = Ok c'"
    using that assms(2) by (auto simp: OnHandshake_def Let_def dest!: log_kept(1) split: if_splits)
  ultimately show ?thesis
    using assms by (auto simp: OnMessage_def log_received_def OnSessionMessage_def split: if_splits option.splits)
qed

definition quiet_state :: "'c Client_scheme outcome \<Rightarrow> bool" where
  "quiet_state s \<longleftrightarrow> (\<exists>c. s = Ok c \<and> client_inv c \<and> \<not> m_wants_log_events c \<and> m_rpc c = [])"

lemma OnMessage_quiet:
  assumes "client_inv c" "\<not> m_wants_log_events c" "m_rpc c = []" "ints_json j"
  shows "\<exists>c'. OnMessage (unbound_app g) j c = Ok c' \<and> client_inv c' \<and> \<not> m_wants_log_events c' \<and> m_rpc c' = []"
proof -
  obtain c' where c': "OnMessage (unbound_app g) j c = Ok c'" "client_inv c'"
    using unbound.OnMessage_sound [OF assms(1,4)] assms(2) by (auto simp: sound_def)
  have "OnMessage (unbound_app g) j (c \<lparr>m_rpc := []\<rparr>) = Ok (c' \<lparr>m_rpc := []\<rparr>)"
    unfolding OnMessage_rpc c'(1) by simp
  moreover have "c \<lparr>m_rpc := []\<rparr> = c" using assms(3) by simp
  ultimately have "c' = c' \<lparr>m_rpc := []\<rparr>" using c'(1) by simp
  then have "m_rpc c' = []" by (metis Client.select_convs(2) Client.surjective Client.update_convs(2))
  then show ?thesis using c' OnMessage_log [OF c'(1) assms(2)] by blast
qed

interpretation handler: rpc_consumer "rpc_callback_of (unbound_app g)" quiet_state "\<lambda>j s. obind s (OnMessage (unbound_app g) j)"
  for g
proof
  fix s :: "'a Client_scheme outcome" and j b
  assume s: "quiet_state s" and j: "ints_json j"
  obtain c c' where c: "s = Ok c" "OnMessage (unbound_app g) j c = Ok c'" "quiet_state (Ok c')" "m_rpc c' = []"
    using s j OnMessage_quiet [of _ j g] unfolding quiet_state_def by blast
  then show cb: "rpc_callback_of (unbound_app g) j (b, s) = (b, obind s (OnMessage (unbound_app g) j))"
    by (simp add: rpc_callback_of_def OnMessage_rpc)
  show "length (fst (rpc_callback_of (unbound_app g) j (b, s))) \<le> length b"
    "quiet_state (snd (rpc_callback_of (unbound_app g) j (b, s)))"
    unfolding cb using c by simp_all
qed

text \<open>The pieces that the main loop hands to \<^verbatim>\<open>OnDataRead\<close>, one after the other.\<close>

fun on_data :: "'c App \<Rightarrow> string list \<Rightarrow> 'c Client_scheme \<Rightarrow> 'c Client_scheme run" where
  "on_data app [] c = Done c"
| "on_data app (s # ss) c =
     (case OnDataRead app s c of
        Done c' \<Rightarrow> on_data app ss c' | Run_Undef u \<Rightarrow> Run_Undef u | Out_Of_Fuel \<Rightarrow> Out_Of_Fuel)"

lemma fold_messages: "fold (\<lambda>j s. obind s (OnMessage app j)) js (Ok c) = on_messages app js c"
proof -
  have u: "fold (\<lambda>j s. obind s (OnMessage app j)) js (Undef u) = Undef u" for js u by (induction js) simp_all
  show ?thesis
  proof (induction js arbitrary: c)
    case (Cons j js)
    then show ?case by (cases "OnMessage app j c") (simp_all add: u)
  qed simp
qed

lemma on_messages_append: "on_messages app (js @ ks) c = obind (on_messages app js c) (on_messages app ks)"
proof (induction js arbitrary: c)
  case (Cons j js)
  then show ?case by (cases "OnMessage app j c") simp_all
qed simp

lemma on_messages_rpc:
  "on_messages (unbound_app g) js (c \<lparr>m_rpc := b\<rparr>) = on_rpc b (on_messages (unbound_app g) js c)"
proof (induction js arbitrary: c)
  case (Cons j js)
  then show ?case by (cases "OnMessage (unbound_app g) j c") (simp_all add: OnMessage_rpc)
qed simp

text \<open>The receiver holds \<open>b\<close>, the beginning of the next frame of \<open>ms\<close>, or nothing.\<close>

definition holds_next :: "string \<Rightarrow> (string \<times> Json) list \<Rightarrow> bool" where
  "holds_next b ms \<longleftrightarrow> b = [] \<or> ms \<noteq> [] \<and> strict_prefix b (frame (fst (hd ms)))"

lemma OnDataRead_stream:
  assumes "\<forall>(p, j)\<in>set ms. carries p j" "prefix (m_rpc c @ s) (stream ms)" "s \<noteq> []"
    "client_inv c" "\<not> m_wants_log_events c"
  shows "\<exists>done rest c'. ms = done @ rest \<and> m_rpc c @ s = stream done @ m_rpc c' \<and> holds_next (m_rpc c') rest \<and>
     OnDataRead (unbound_app g) s c = Done c' \<and> client_inv c' \<and> \<not> m_wants_log_events c' \<and>
     on_messages (unbound_app g) (map snd done) (c \<lparr>m_rpc := m_rpc c'\<rparr>) = Ok c'"
proof -
  have q: "quiet_state (Ok (c \<lparr>m_rpc := []\<rparr>))" using assms(4,5) by (simp add: quiet_state_def client_inv_def)
  obtain dn rest b' where h: "ms = dn @ rest" "m_rpc c @ s = stream dn @ b'" "holds_next b' rest"
    "ProcessBuffer (process_fuel (m_rpc c @ s)) (rpc_callback_of (unbound_app g)) (m_rpc c @ s, Ok (c \<lparr>m_rpc := []\<rparr>)) =
       Done (b', on_messages (unbound_app g) (map snd dn) (c \<lparr>m_rpc := []\<rparr>))"
    "quiet_state (on_messages (unbound_app g) (map snd dn) (c \<lparr>m_rpc := []\<rparr>))"
    using handler.process_stream [OF assms(1,2) process_fuel_less q, of g] unfolding fold_messages holds_next_def
    by blast
  obtain c1 where c1: "on_messages (unbound_app g) (map snd dn) (c \<lparr>m_rpc := []\<rparr>) = Ok c1" "client_inv c1"
    "\<not> m_wants_log_events c1" using h(5) by (auto simp: quiet_state_def)
  have "on_messages (unbound_app g) (map snd dn) (c \<lparr>m_rpc := []\<rparr> \<lparr>m_rpc := b'\<rparr>) = Ok (c1 \<lparr>m_rpc := b'\<rparr>)"
    unfolding on_messages_rpc [where c = "c \<lparr>m_rpc := []\<rparr>"] c1 by simp
  moreover have "OnDataRead (unbound_app g) s c = Done (c1 \<lparr>m_rpc := b'\<rparr>)"
    using assms(3) h(4) c1(1) by (simp add: OnDataRead_def AppendBuffer_def)
  ultimately show ?thesis using h(1-3) c1(2,3)
    by (intro exI [of _ dn] exI [of _ rest] exI [of _ "c1 \<lparr>m_rpc := b'\<rparr>"]) (simp add: client_inv_def)
qed

lemma on_data_stream:
  assumes "\<forall>(p, j)\<in>set ms. carries p j" "prefix (m_rpc c @ concat ss) (stream ms)" "\<forall>s\<in>set ss. s \<noteq> []"
    "client_inv c" "\<not> m_wants_log_events c" "holds_next (m_rpc c) ms"
  shows "\<exists>done rest c'. ms = done @ rest \<and> m_rpc c @ concat ss = stream done @ m_rpc c' \<and> holds_next (m_rpc c') rest \<and>
     on_data (unbound_app g) ss c = Done c' \<and>
     on_messages (unbound_app g) (map snd done) (c \<lparr>m_rpc := m_rpc c'\<rparr>) = Ok c'"
  using assms
proof (induction ss arbitrary: ms c)
  case Nil
  then show ?case by (intro exI [of _ "[]"] exI [of _ ms] exI [of _ c]) (simp add: stream_def)
next
  case (Cons s ss)
  have "prefix (m_rpc c @ s) (stream ms)" using Cons.prems(2) append_prefixD [of "m_rpc c @ s"] by simp
  moreover have "s \<noteq> []" using Cons.prems(3) by simp
  ultimately obtain dn rest c1 where h: "ms = dn @ rest" "m_rpc c @ s = stream dn @ m_rpc c1" "holds_next (m_rpc c1) rest"
    "OnDataRead (unbound_app g) s c = Done c1" "client_inv c1" "\<not> m_wants_log_events c1"
    "on_messages (unbound_app g) (map snd dn) (c \<lparr>m_rpc := m_rpc c1\<rparr>) = Ok c1"
    using OnDataRead_stream [OF Cons.prems(1) _ _ Cons.prems(4,5), of s g] by blast
  have "m_rpc c @ concat (s # ss) = (m_rpc c @ s) @ concat ss" by simp
  then have e: "m_rpc c @ concat (s # ss) = stream dn @ m_rpc c1 @ concat ss" unfolding h(2) by simp
  have "stream ms = stream dn @ stream rest" using h(1) by (simp add: stream_def)
  with Cons.prems(2) have "prefix (m_rpc c1 @ concat ss) (stream rest)" unfolding e by simp
  then obtain dn' rest' c' where h': "rest = dn' @ rest'" "m_rpc c1 @ concat ss = stream dn' @ m_rpc c'"
    "holds_next (m_rpc c') rest'" "on_data (unbound_app g) ss c1 = Done c'"
    "on_messages (unbound_app g) (map snd dn') (c1 \<lparr>m_rpc := m_rpc c'\<rparr>) = Ok c'"
    using Cons.IH [of rest c1] Cons.prems(1,3) h(1,3,5,6) by auto
  have "on_messages (unbound_app g) (map snd dn) (c \<lparr>m_rpc := m_rpc c1\<rparr> \<lparr>m_rpc := m_rpc c'\<rparr>) = Ok (c1 \<lparr>m_rpc := m_rpc c'\<rparr>)"
    unfolding on_messages_rpc [where c = "c \<lparr>m_rpc := m_rpc c1\<rparr>"] h(7) by simp
  then have "on_messages (unbound_app g) (map snd (dn @ dn')) (c \<lparr>m_rpc := m_rpc c'\<rparr>) = Ok c'"
    using h'(5) by (simp add: on_messages_append)
  moreover have "m_rpc c @ concat (s # ss) = stream (dn @ dn') @ m_rpc c'" using e h'(2) by (simp add: stream_def)
  ultimately show ?case using h(1,4) h'(1,3,4)
    by (intro exI [of _ "dn @ dn'"] exI [of _ rest'] exI [of _ c']) simp
qed

section \<open>Answers and the requests in flight\<close>

text \<open>The commands whose responses reach the application as an event that names their request.\<close>

definition answered_commands :: "string list" where
  "answered_commands = [''stackTrace'', ''scopes'', ''variables'', ''breakpointLocations'', ''setFunctionBreakpoints'',
     ''setBreakpoints'', ''configurationDone'', ''launch'', ''threads'']"

lemma pops_in_flight:
  "m_in_flight_requests (snd (pop_frames c)) = m_in_flight_requests c"
  "m_in_flight_requests (snd (pop_scopes c)) = m_in_flight_requests c"
  "m_in_flight_requests (snd (pop_variables c)) = m_in_flight_requests c"
  "m_in_flight_requests (snd (pop_breakpoints c)) = m_in_flight_requests c"
  "m_in_flight_requests (snd (pop_filepath k c)) = m_in_flight_requests c"
  by (simp_all add: pop_frames_def pop_scopes_def pop_variables_def pop_breakpoints_def pop_filepath_def
      split: list.split option.split)

lemma answered_responses_registered: "cmd \<in> set answered_commands \<Longrightarrow> m_responses registered cmd \<noteq> None"
  using response_pool [of "MStackTraceResponse r1" for r1] response_pool [of "MScopesResponse r2" for r2]
    response_pool [of "MVariablesResponse r3" for r3] response_pool [of "MSetBreakpointsResponse r4" for r4]
    response_pool [of "MBreakpointLocationsResponse r5" for r5] response_pool [of "MSetFunctionBreakpointsResponse r6" for r6]
    response_pool [of "MConfigurationDoneResponse r7" for r7] response_pool [of "MLaunchResponse r8" for r8]
    response_pool [of "MThreadsResponse r9" for r9]
  by (auto simp: answered_commands_def)

lemma OnResponse_answers:
  assumes "Response_command r \<in> set answered_commands"
  shows "\<exists>t response c1. OnResponse app r json c =
     fire_event app (answer_event t response json (m_in_flight_requests c (Response_request_seq r)))
       (forget (Response_request_seq r) c1) \<and> Response_name response = Response_command r \<and>
     m_in_flight_requests c1 = m_in_flight_requests c"
proof -
  have "\<exists>t response c1. OnResponse app r json c = answer app t response json r c1 \<and> t \<noteq> wxEVT_DAP_STOPPED_EVENT \<and>
     Response_name response = Response_command r \<and> m_in_flight_requests c1 = m_in_flight_requests c"
    using assms pops_in_flight [where c = c]
    by (auto simp: answered_commands_def OnResponse_def Let_def case_prod_unfold intro!: exI conjI)
  then show ?thesis using answer_fire by (metis (no_types, lifting))
qed

lemma OnResponse_silent:
  assumes "Response_command r \<notin> set answered_commands" "OnResponse (unbound_app g) r json c = Ok c'"
  shows "m_in_flight_requests c' = m_in_flight_requests c"
  using assms
  by (auto simp: answered_commands_def OnResponse_def Let_def HandleEvaluateResponse_def HandleSourceResponse_def
      unbound_app_def split: if_splits list.splits)

lemma in_flight_after_response:
  assumes "OnResponse (unbound_app g) r json c = Ok c'"
  shows "m_in_flight_requests c' =
     (if Response_command r \<in> set answered_commands
      then (m_in_flight_requests c)(Response_request_seq r := None) else m_in_flight_requests c)"
  using assms OnResponse_answers [of r "unbound_app g" json c] OnResponse_silent [OF _ assms]
  by (auto simp: fire_event_def unbound_app_def forget_def)

lemma run_apis_sound:
  assumes "debugger_app app"
  shows "client_inv c \<Longrightarrow> list_all valid_api as \<Longrightarrow> sound c (run_apis app as c)"
proof (induction as arbitrary: c)
  case (Cons a as)
  then show ?case using debugger_app.run_api_sound [OF assms, of c a] by (auto intro: sound_bind)
qed simp

lemma on_data_total:
  assumes "debugger_app app"
  shows "client_inv c \<Longrightarrow> on_data app ss c \<noteq> Out_Of_Fuel \<and> (\<forall>c'. on_data app ss c = Done c' \<longrightarrow> client_inv c')"
proof (induction ss arbitrary: c)
  case (Cons s ss)
  then show ?case
    using debugger_app.OnDataRead_terminates [OF assms Cons.prems, of s] debugger_app.OnDataRead_inv [OF assms Cons.prems, of s]
    by (auto split: run.splits)
qed simp

lemma SetTransport_new:
  "SetTransport t c = Client.extend (new_Client \<lparr>m_transport := t, m_readerThread := t,
     m_wants_log_events := m_wants_log_events c, trace := trace c\<rparr>) (Client.more c)"
  by (simp add: SetTransport_def StartReaderThread_def Reset_new new_Client_def Client.defs Let_def)

end
