(* ===== verification/Dap_MainFrame.thy ===== *)
theory Dap_MainFrame
  imports Dap_Session
begin

text \<open>
  The debugger front end of \<^verbatim>\<open>dbgcli/MainFrame.cpp\<close>, the application of the library: its members are a
  record extension of the client, its event handlers and callbacks an \<open>App\<close>.  A text control is the
  text it shows; the position of the view (\<^verbatim>\<open>center_line\<close>) is left out.  What comes from the desktop is
  the argument \<open>env\<close>.  The closures given to \<^verbatim>\<open>LoadSource\<close> and \<^verbatim>\<open>EvaluateExpression\<close> are kept in lists; the
  number of a callback is its index.
\<close>

section \<open>State\<close>

record MainFrame = Client +
  m_executableFileName :: string
  m_current_source :: Source
  m_frame_id :: int
  m_attaching :: bool
  m_filePickerDebugger :: string
  m_stcLog :: string
  m_stcStack :: string
  m_stcScopes :: string
  m_stcTextSourceFile :: string
  source_callbacks :: "(Source \<times> int) list"
  evaluate_callbacks :: "string list"
  message_boxes :: "string list"
  resets_posted :: nat

type_synonym Frame_App = "unit MainFrame_ext App"

record Desktop =
  wxGetCwd :: string
  GetFullPath :: "string \<Rightarrow> string"
  FileExists :: "string \<Rightarrow> bool"
  FileText :: "string \<Rightarrow> string"
  FullName :: "string \<Rightarrow> string"
  NextProcessId :: "32 word"
  ToCLong :: "string \<Rightarrow> int \<Rightarrow> int"

definition nl :: string where "nl = [CHR 0x0A]"

definition AddLog :: "string \<Rightarrow> MainFrame \<Rightarrow> MainFrame" where
  "AddLog text f = f \<lparr>m_stcLog := m_stcLog f @ text @ nl\<rparr>"

definition show_bool :: "bool \<Rightarrow> string" where
  "show_bool b = show_int (if b then 1 else 0)"

definition contains :: "string \<Rightarrow> string \<Rightarrow> bool" where
  "contains s p \<longleftrightarrow> find_sub p s \<noteq> None"

section \<open>Handlers that do not call the client\<close>

definition OnDapLog :: "DAPEvent \<Rightarrow> MainFrame \<Rightarrow> MainFrame" where
  "OnDapLog event f = AddLog (event_string event) f"

definition Frame_OnConnectionError :: "MainFrame \<Rightarrow> MainFrame" where
  "Frame_OnConnectionError f = f \<lparr>message_boxes := message_boxes f @ [''Lost connection to dap server'']\<rparr>"

text \<open>
  The handlers that can run inside a call of the API, which fires only log events and the loss
  of the connection.
\<close>

definition inner_app :: "Desktop \<Rightarrow> Frame_App" where
  "inner_app env = \<lparr>on_event = (\<lambda>e f.
       if event_type e = wxEVT_DAP_LOG_EVENT then Ok (OnDapLog e f)
       else if event_type e = wxEVT_DAP_LOST_CONNECTION then Ok (Frame_OnConnectionError f)
       else Ok f),
     on_source = (\<lambda>k b s t f. Ok f), on_evaluate = (\<lambda>k b s t v f. Ok f), GetFullName = FullName env\<rparr>"

definition client_call :: "Desktop \<Rightarrow> api \<Rightarrow> MainFrame \<Rightarrow> MainFrame outcome" where
  "client_call env a f = run_api (inner_app env) a f"

fun client_calls :: "Desktop \<Rightarrow> api list \<Rightarrow> MainFrame \<Rightarrow> MainFrame outcome" where
  "client_calls env [] f = Ok f"
| "client_calls env (a # as) f = obind (client_call env a f) (client_calls env as)"

section \<open>Event handlers\<close>

text \<open>\<^verbatim>\<open>m_client.CallAfter(&dap::Client::Reset)\<close> posts a reset to the main loop.\<close>

definition OnLaunchResponse :: "Message option \<Rightarrow> MainFrame \<Rightarrow> MainFrame outcome" where
  "OnLaunchResponse obj f =
     (case obj of
        Some (MResponse (MLaunchResponse resp)) \<Rightarrow>
          if \<not> Response_success resp
          then Ok (f \<lparr>message_boxes := message_boxes f @ [''Failed to launch debuggee: '' @ Response_message resp],
                      resets_posted := resets_posted f + 1\<rparr>)
          else Ok f
      | _ \<Rightarrow> Ok f)"

text \<open>\<^verbatim>\<open>exe.Replace("\\", "/")\<close>\<close>

definition forward_slashes :: "string \<Rightarrow> string" where
  "forward_slashes s = map (\<lambda>c. if c = BS then CHR ''/'' else c) s"

definition OnInitializeResponse :: "Desktop \<Rightarrow> MainFrame \<Rightarrow> MainFrame outcome" where
  "OnInitializeResponse env f =
     (if m_attaching f
      then client_call env (Api_Attach 0 []) (AddLog ''Attaching to dap server'' f)
      else
        let f = AddLog (''Launching program: '' @ m_executableFileName f) f;
            exe = (if contains (m_filePickerDebugger f) ''gdb'' then forward_slashes (m_executableFileName f)
                   else m_executableFileName f)
        in client_call env (Api_Launch [exe] (wxGetCwd env) new_Environment) f)"

definition OnInitializedEvent :: "Desktop \<Rightarrow> MainFrame \<Rightarrow> MainFrame outcome" where
  "OnInitializedEvent env f =
     client_calls env
       [Api_SetFunctionBreakpoints [\<lparr>FunctionBreakpoint_name = ''main'', FunctionBreakpoint_condition = []\<rparr>],
        Api_ConfigurationDone]
       (AddLog ''Placing breakpoint at main...'' (AddLog ''Got Initialized event'' f))"

definition OnStopped :: "Desktop \<Rightarrow> Message option \<Rightarrow> MainFrame \<Rightarrow> MainFrame outcome" where
  "OnStopped env obj f =
     (case obj of
        Some (MEvent (MStoppedEvent d)) \<Rightarrow>
          let f = AddLog (''Stopped reason:'' @ StoppedEvent_reason d) f;
              f = AddLog (''All threads stopped:'' @ show_bool (StoppedEvent_allThreadsStopped d)) f;
              f = AddLog (''Stopped thread ID:'' @ show_int (StoppedEvent_threadId d) @ ''(active thread ID:'' @
                    show_int (m_active_thread_id f) @ '')'') f
          in client_call env (Api_GetFrames wxNOT_FOUND 0 0) f
      | _ \<Rightarrow> Ok f)"

text \<open>\<^verbatim>\<open>RemoveLast(2)\<close> on a shorter string does nothing.\<close>

definition RemoveLast2 :: "string \<Rightarrow> string" where
  "RemoveLast2 s = (if length s < 2 then s else take (length s - 2) s)"

definition scope_label :: "Scope \<Rightarrow> string" where
  "scope_label s = Scope_name s @ '' id: '' @ show_int (Scope_variablesReference s) @ '', ''"

definition OnScopes :: "Desktop \<Rightarrow> Message option \<Rightarrow> MainFrame \<Rightarrow> MainFrame outcome" where
  "OnScopes env obj f =
     (let f = f \<lparr>m_stcScopes := m_stcScopes f @ ''-- Requesting variables for scopes --'' @ nl\<rparr>
      in case obj of
           Some (MResponse (MScopesResponse resp)) \<Rightarrow>
             let scopes = ScopesResponse_scopes resp;
                 display = RemoveLast2 (''['' @ concat (map scope_label scopes)) @ '']'' @ nl
             in omap (\<lambda>f. f \<lparr>m_stcScopes := m_stcScopes f @ display\<rparr>)
                  (client_calls env
                    (map (\<lambda>s. Api_GetChildrenVariables (Scope_variablesReference s) VARIABLES 10 NATIVE) scopes) f)
         | _ \<Rightarrow> Ok f)"

definition variable_line :: "int \<Rightarrow> Variable \<Rightarrow> string" where
  "variable_line refId v =
     (let button = (if Variable_variablesReference v > 0 then ''> '' else ''  '') @ '' [ref: '' @ show_int refId @ ''] '';
          value = (if Variable_value v = [] then [DQ, DQ] else Variable_value v)
      in button @ ''('' @ show_int (Variable_variablesReference v) @ '') '' @ Variable_name v @ '' = '' @ value @ nl)"

definition OnVariables :: "Message option \<Rightarrow> MainFrame \<Rightarrow> MainFrame outcome" where
  "OnVariables obj f =
     (case obj of
        Some (MResponse (MVariablesResponse resp)) \<Rightarrow>
          Ok (f \<lparr>m_stcScopes := m_stcScopes f @
                concat (map (variable_line (VariablesResponse_refId resp)) (VariablesResponse_variables resp))\<rparr>)
      | _ \<Rightarrow> Ok f)"

text \<open>\<^verbatim>\<open>LoadFile\<close>: from the view, from the server, or from the disk.\<close>

definition LoadFile :: "Desktop \<Rightarrow> Source \<Rightarrow> int \<Rightarrow> MainFrame \<Rightarrow> MainFrame outcome" where
  "LoadFile env sourceId line_number f =
     (if sourceId = m_current_source f then Ok f
      else
        let k = length (source_callbacks f);
            f = f \<lparr>source_callbacks := source_callbacks f @ [(sourceId, line_number)]\<rparr>
        in obind (LoadSource (inner_app env) sourceId k f) (\<lambda>(from_server, f).
             if from_server then Ok f
             else
               let file_to_load = GetFullPath env (Source_path sourceId);
                   f = AddLog (''Loading file..'' @ file_to_load) f
               in if FileExists env file_to_load
                  then Ok (f \<lparr>m_current_source := sourceId, m_stcTextSourceFile := FileText env file_to_load\<rparr>)
                  else Ok f))"

definition frame_line :: "StackFrame \<Rightarrow> string" where
  "frame_line s = show_int (StackFrame_id s) @ '','' @ StackFrame_name s @ '','' @ Source_path (StackFrame_source s) @
     '','' @ show_int (StackFrame_line s) @ nl"

definition OnStackTrace :: "Desktop \<Rightarrow> Message option \<Rightarrow> MainFrame \<Rightarrow> MainFrame outcome" where
  "OnStackTrace env obj f =
     (case obj of
        Some (MResponse (MStackTraceResponse d)) \<Rightarrow>
          let f = AddLog ''Received stack trace event'' (f \<lparr>m_stcStack := []\<rparr>);
              frames = StackTraceResponse_stackFrames d
          in omap (\<lambda>f. f \<lparr>m_stcStack := m_stcStack f @ concat (map frame_line frames)\<rparr>)
               (case frames of
                  [] \<Rightarrow> Ok f
                | frame0 # _ \<Rightarrow>
                   obind (LoadFile env (StackFrame_source frame0) (StackFrame_line frame0 - 1) f) (\<lambda>f.
                     client_call env (Api_GetScopes (StackFrame_id frame0)) (f \<lparr>m_frame_id := StackFrame_id frame0\<rparr>)))
      | _ \<Rightarrow> Ok f)"

text \<open>\<^verbatim>\<open>event.GetDapEvent()->As<dap::ExitedEvent>()->exitCode\<close>: an object of another class would be a null pointer.\<close>

definition OnExited :: "Message option \<Rightarrow> MainFrame \<Rightarrow> MainFrame outcome" where
  "OnExited obj f =
     (case obj of
        Some (MEvent (MExitedEvent d)) \<Rightarrow>
          Ok (AddLog (''Debuggee exited. Exit code:'' @ show_int (ExitedEvent_exitCode d)) f)
      | _ \<Rightarrow> Undef Over_Read)"

definition OnTerminated :: "MainFrame \<Rightarrow> MainFrame outcome" where
  "OnTerminated f =
     Ok ((Reset (AddLog ''Session terminated!'' f)) \<lparr>m_current_source := new_Source, m_frame_id := wxNOT_FOUND\<rparr>)"

definition OnOutput :: "Message option \<Rightarrow> MainFrame \<Rightarrow> MainFrame outcome" where
  "OnOutput obj f =
     (case obj of
        Some (MEvent (MOutputEvent d)) \<Rightarrow> Ok (AddLog (OutputEvent_category d @ '':'' @ OutputEvent_output d) f)
      | _ \<Rightarrow> Ok f)"

definition OnBreakpointLocations :: "Message option \<Rightarrow> MainFrame \<Rightarrow> MainFrame outcome" where
  "OnBreakpointLocations obj f =
     (case obj of
        Some (MResponse (MBreakpointLocationsResponse d)) \<Rightarrow>
          Ok (foldl (\<lambda>f bp. AddLog (BreakpointLocationsResponse_filepath d @ '':'' @ show_int (BreakpointLocation_line bp)) f)
                (AddLog (''==> Breakpoints:'' @ nl) f) (BreakpointLocationsResponse_breakpoints d))
      | _ \<Rightarrow> Ok f)"

definition breakpoint_line :: "string \<Rightarrow> Breakpoint \<Rightarrow> string" where
  "breakpoint_line path bp =
     ''ID: '' @ show_int (Breakpoint_id bp) @ ''. Verified: '' @ show_bool (Breakpoint_verified bp) @ ''. File: '' @
     (if Source_path (Breakpoint_source bp) = [] then path else Source_path (Breakpoint_source bp)) @
     ''. Line: '' @ show_int (Breakpoint_line bp)"

text \<open>\<^verbatim>\<open>SetFunctionBreakpointsResponse\<close> is derived from \<^verbatim>\<open>SetBreakpointsResponse\<close>.\<close>

definition OnBreakpointSet :: "Message option \<Rightarrow> RequestMsg option \<Rightarrow> MainFrame \<Rightarrow> MainFrame outcome" where
  "OnBreakpointSet obj request f =
     (case request of
        Some (MSetFunctionBreakpointsRequest q) \<Rightarrow>
          Ok (foldl (\<lambda>f bp. AddLog (''Got reply for SetFunctionBreakpoints command for function: '' @ FunctionBreakpoint_name bp) f)
                f (SetFunctionBreakpointsArguments_breakpoints (SetFunctionBreakpointsRequest_arguments q)))
      | Some (MSetBreakpointsRequest q) \<Rightarrow>
          let path = Source_path (SetBreakpointsArguments_source (SetBreakpointsRequest_arguments q));
              f = AddLog (''Got reply for setBreakpoint command for file: '' @ path) f;
              show_all = (\<lambda>bps. Ok (foldl (\<lambda>f bp. AddLog (breakpoint_line path bp) f) f bps))
          in (case obj of
                Some (MResponse (MSetBreakpointsResponse r)) \<Rightarrow> show_all (SetBreakpointsResponse_breakpoints r)
              | Some (MResponse (MSetFunctionBreakpointsResponse r)) \<Rightarrow> show_all (SetBreakpointsResponse_breakpoints r)
              | _ \<Rightarrow> Undef Over_Read)
      | _ \<Rightarrow> Ok f)"

definition OnDapModuleEvent :: "Message option \<Rightarrow> MainFrame \<Rightarrow> MainFrame outcome" where
  "OnDapModuleEvent obj f =
     (let f = AddLog ''Got MODULE event!'' f
      in case obj of
           Some (MEvent (MModuleEvent d)) \<Rightarrow>
             let m = ModuleEvent_module d
             in Ok (AddLog (Module_id m @ '': '' @ Module_name m @ '' '' @ Module_symbolStatus m @ Module_version m @ '' '' @
                     Module_path m) f)
         | _ \<Rightarrow> Ok f)"

text \<open>\<^verbatim>\<open>ExecuteProcess\<close> never answers a null pointer; the process id is what the system gives.\<close>

definition OnRunInTerminalRequest :: "Desktop \<Rightarrow> Message option \<Rightarrow> MainFrame \<Rightarrow> MainFrame outcome" where
  "OnRunInTerminalRequest env obj f =
     (let f = AddLog ''Handling `OnRunInTerminalRequest` event'' f
      in case obj of
           Some (MRequest (MRunInTerminalRequest request)) \<Rightarrow>
             let command = concat (map (\<lambda>cmd. cmd @ '' '') (RunInTerminalRequestArguments_args (RunInTerminalRequest_arguments request)));
                 f = AddLog (''Starting process: '' @ command) f;
                 (response, f) = MakeRequest new_RunInTerminalResponse f;
                 response = response \<lparr>Response_request_seq := ProtocolMessage_seq request, Response_success := True,
                              RunInTerminalResponse_processId := sint (NextProcessId env)\<rparr>
             in omap snd (SendResponse (inner_app env) (MRunInTerminalResponse response) f)
         | _ \<Rightarrow> Ok f)"

section \<open>The application\<close>

text \<open>The bindings of the constructor.\<close>

definition frame_event :: "Desktop \<Rightarrow> DAPEvent \<Rightarrow> MainFrame \<Rightarrow> MainFrame outcome" where
  "frame_event env e f =
     (let obj = event_object e in
      case event_type e of
        wxEVT_DAP_STOPPED_EVENT \<Rightarrow> OnStopped env obj f
      | wxEVT_DAP_INITIALIZED_EVENT \<Rightarrow> OnInitializedEvent env f
      | wxEVT_DAP_INITIALIZE_RESPONSE \<Rightarrow> OnInitializeResponse env f
      | wxEVT_DAP_EXITED_EVENT \<Rightarrow> OnExited obj f
      | wxEVT_DAP_TERMINATED_EVENT \<Rightarrow> OnTerminated f
      | wxEVT_DAP_STACKTRACE_RESPONSE \<Rightarrow> OnStackTrace env obj f
      | wxEVT_DAP_SCOPES_RESPONSE \<Rightarrow> OnScopes env obj f
      | wxEVT_DAP_VARIABLES_RESPONSE \<Rightarrow> OnVariables obj f
      | wxEVT_DAP_OUTPUT_EVENT \<Rightarrow> OnOutput obj f
      | wxEVT_DAP_BREAKPOINT_LOCATIONS_RESPONSE \<Rightarrow> OnBreakpointLocations obj f
      | wxEVT_DAP_LOST_CONNECTION \<Rightarrow> Ok (Frame_OnConnectionError f)
      | wxEVT_DAP_SET_SOURCE_BREAKPOINT_RESPONSE \<Rightarrow> OnBreakpointSet obj (event_request e) f
      | wxEVT_DAP_SET_FUNCTION_BREAKPOINT_RESPONSE \<Rightarrow> OnBreakpointSet obj (event_request e) f
      | wxEVT_DAP_LAUNCH_RESPONSE \<Rightarrow> OnLaunchResponse obj f
      | wxEVT_DAP_RUN_IN_TERMINAL_REQUEST \<Rightarrow> OnRunInTerminalRequest env obj f
      | wxEVT_DAP_LOG_EVENT \<Rightarrow> Ok (OnDapLog e f)
      | wxEVT_DAP_MODULE_EVENT \<Rightarrow> OnDapModuleEvent obj f
      | _ \<Rightarrow> Ok f)"

text \<open>The closure of \<^verbatim>\<open>LoadFile\<close> and the one of \<^verbatim>\<open>OnEval\<close>.\<close>

definition source_loaded :: "nat \<Rightarrow> bool \<Rightarrow> string \<Rightarrow> string \<Rightarrow> MainFrame \<Rightarrow> MainFrame outcome" where
  "source_loaded k success content mimeType f =
     (if \<not> success \<or> length (source_callbacks f) \<le> k then Ok f
      else Ok (f \<lparr>m_current_source := fst (source_callbacks f ! k), m_stcTextSourceFile := content\<rparr>))"

definition expression_evaluated :: "nat \<Rightarrow> bool \<Rightarrow> string \<Rightarrow> string \<Rightarrow> int \<Rightarrow> MainFrame \<Rightarrow> MainFrame outcome" where
  "expression_evaluated k success result type variablesReference f =
     (if length (evaluate_callbacks f) \<le> k then Ok f
      else
        let text = evaluate_callbacks f ! k
        in if \<not> success then Ok (AddLog (''ERROR: failed to evaluate expression: `'' @ text @ ''`'') f)
           else Ok (AddLog (text @ '' = '' @ result @ '' ['' @ type @ '']. variablesReference: '' @ show_int variablesReference) f))"

definition frame_app :: "Desktop \<Rightarrow> Frame_App" where
  "frame_app env = \<lparr>on_event = frame_event env, on_source = source_loaded, on_evaluate = expression_evaluated,
     GetFullName = FullName env\<rparr>"

section \<open>Commands of the user\<close>

definition InitializeClient :: "Desktop \<Rightarrow> MainFrame \<Rightarrow> MainFrame outcome" where
  "InitializeClient env f =
     (let f = SetTransport True (Reset f);
          f = f \<lparr>m_frame_id := wxNOT_FOUND, m_current_source := new_Source\<rparr>
      in client_call env
           (Api_Initialize (Some (new_InitializeRequestArguments \<lparr>InitializeRequestArguments_linesStartAt1 := True\<rparr>))) f)"

definition OnAttach :: "Desktop \<Rightarrow> MainFrame \<Rightarrow> MainFrame outcome" where
  "OnAttach env f = InitializeClient env (f \<lparr>m_attaching := True\<rparr>)"

definition OnConnect :: "Desktop \<Rightarrow> MainFrame \<Rightarrow> MainFrame outcome" where
  "OnConnect env f = InitializeClient env (f \<lparr>m_attaching := False\<rparr>)"

definition OnNext :: "Desktop \<Rightarrow> MainFrame \<Rightarrow> MainFrame outcome" where
  "OnNext env f = client_call env (Api_Next wxNOT_FOUND True LINE) f"

definition OnStepIn :: "Desktop \<Rightarrow> MainFrame \<Rightarrow> MainFrame outcome" where
  "OnStepIn env f = client_call env (Api_StepIn wxNOT_FOUND True) f"

definition OnStepOut :: "Desktop \<Rightarrow> MainFrame \<Rightarrow> MainFrame outcome" where
  "OnStepOut env f = client_call env (Api_StepOut wxNOT_FOUND True) f"

definition OnPause :: "Desktop \<Rightarrow> MainFrame \<Rightarrow> MainFrame outcome" where
  "OnPause env f = client_call env (Api_Pause wxNOT_FOUND) f"

definition OnContinue :: "Desktop \<Rightarrow> MainFrame \<Rightarrow> MainFrame outcome" where
  "OnContinue env f = client_call env (Api_Continue wxNOT_FOUND True) f"

text \<open>\<^verbatim>\<open>BeforeLast\<close> and \<^verbatim>\<open>AfterLast\<close> of a string that has a colon.\<close>

definition OnSetBreakpoint :: "Desktop \<Rightarrow> string \<Rightarrow> MainFrame \<Rightarrow> MainFrame outcome" where
  "OnSetBreakpoint env location f =
     (if location = [] then Ok f
      else if CHR '':'' \<in> set location then
        let file = wxTrim (rev (AfterFirst (rev location) (CHR '':'')));
            line = ToCLong env (rev (BeforeFirst (rev location) (CHR '':''))) wxNOT_FOUND
        in client_call env (Api_SetBreakpointsFile file
             [\<lparr>SourceBreakpoint_line = to_int32 line, SourceBreakpoint_condition = []\<rparr>]) f
      else client_call env
             (Api_SetFunctionBreakpoints [\<lparr>FunctionBreakpoint_name = location, FunctionBreakpoint_condition = []\<rparr>]) f)"

definition OnEval :: "Desktop \<Rightarrow> string \<Rightarrow> MainFrame \<Rightarrow> MainFrame outcome" where
  "OnEval env text f =
     (if text = [] then Ok f
      else
        let k = length (evaluate_callbacks f);
            f = f \<lparr>evaluate_callbacks := evaluate_callbacks f @ [text]\<rparr>
        in client_call env (Api_EvaluateExpression text (m_frame_id f) HOVER k NATIVE) f)"

definition OnClear :: "MainFrame \<Rightarrow> MainFrame" where
  "OnClear f = f \<lparr>m_stcLog := [], m_stcTextSourceFile := [], m_stcStack := [], m_stcScopes := []\<rparr>"

text \<open>When the commands are enabled.\<close>

definition can_step :: "MainFrame \<Rightarrow> bool" where
  "can_step f \<longleftrightarrow> IsConnected f \<and> m_can_interact f"

definition can_pause :: "MainFrame \<Rightarrow> bool" where
  "can_pause f \<longleftrightarrow> IsConnected f \<and> \<not> m_can_interact f"

definition can_connect :: "MainFrame \<Rightarrow> bool" where
  "can_connect f \<longleftrightarrow> \<not> IsConnected f"

section \<open>The configuration\<close>

record Config =
  debuggee :: string
  debugger :: string

definition GetDebuggerCommand :: "string \<Rightarrow> string list" where
  "GetDebuggerCommand path = (if contains path ''gdb'' then [path, ''-i=dap''] else [path])"

text \<open>\<^verbatim>\<open>SaveConfig\<close> and \<^verbatim>\<open>ReadConfig\<close>: the text of the file \<^verbatim>\<open>wxdap.json\<close>.\<close>

definition SaveConfig :: "Config \<Rightarrow> string outcome" where
  "SaveConfig config =
     Json_ToString True (Json_Add_string ''debugger'' (debugger config)
       (Json_Add_string ''debuggee'' (debuggee config) Json_CreateObject))"

definition ReadConfig :: "string \<Rightarrow> Config outcome" where
  "ReadConfig content =
     omap (\<lambda>root. \<lparr>debuggee = GetString (Json_at root ''debuggee'') [], debugger = GetString (Json_at root ''debugger'') []\<rparr>)
       (Json_Parse content)"

section \<open>The frame keeps the contract of the client\<close>

lemma frame_fields_inv [simp]:
  "client_inv (f \<lparr>m_current_source := x1\<rparr>) = client_inv (f :: MainFrame)"
  "client_inv (f \<lparr>m_frame_id := x2\<rparr>) = client_inv f"
  "client_inv (f \<lparr>m_attaching := x3\<rparr>) = client_inv f"
  "client_inv (f \<lparr>m_stcLog := x4\<rparr>) = client_inv f"
  "client_inv (f \<lparr>m_stcStack := x5\<rparr>) = client_inv f"
  "client_inv (f \<lparr>m_stcScopes := x6\<rparr>) = client_inv f"
  "client_inv (f \<lparr>m_stcTextSourceFile := x7\<rparr>) = client_inv f"
  "client_inv (f \<lparr>source_callbacks := x8\<rparr>) = client_inv f"
  "client_inv (f \<lparr>evaluate_callbacks := x9\<rparr>) = client_inv f"
  "client_inv (f \<lparr>message_boxes := x10\<rparr>) = client_inv f"
  "client_inv (f \<lparr>resets_posted := x11\<rparr>) = client_inv f"
  by (simp_all add: client_inv_def client_inv_at_def)

lemma AddLog_same [simp]:
  "client_inv (AddLog t f) = client_inv f" "trace (AddLog t f) = trace f" "m_rpc (AddLog t f) = m_rpc f"
  "m_attaching (AddLog t f) = m_attaching f" "Client.truncate (AddLog t f) = Client.truncate f"
  by (simp_all add: AddLog_def Client.defs)

lemma AddLogs_same:
  "client_inv (foldl (\<lambda>f x. AddLog (g x) f) f xs) = client_inv f"
  "trace (foldl (\<lambda>f x. AddLog (g x) f) f xs) = trace f" "m_rpc (foldl (\<lambda>f x. AddLog (g x) f) f xs) = m_rpc f"
  by (induction xs arbitrary: f) simp_all

interpretation inner: debugger_app "inner_app env" for env
  by unfold_locales
    (auto simp: inner_app_def OnDapLog_def Frame_OnConnectionError_def follows_def)

lemma client_call_sound: "client_inv f \<Longrightarrow> valid_api a \<Longrightarrow> sound f (client_call env a f)"
  unfolding client_call_def by (rule inner.run_api_sound)

lemma client_calls_sound: "client_inv f \<Longrightarrow> list_all valid_api as \<Longrightarrow> sound f (client_calls env as f)"
proof (induction as arbitrary: f)
  case (Cons a as)
  then show ?case using client_call_sound [of f a env] by (auto intro: sound_bind)
qed simp

lemma sound_logged:
  "sound f1 x \<Longrightarrow> trace f1 = trace f \<Longrightarrow> m_rpc f1 = m_rpc f \<Longrightarrow> sound f x"
  by (auto intro: sound_same)

lemma logged_call:
  "client_inv f1 \<Longrightarrow> trace f1 = trace f \<Longrightarrow> m_rpc f1 = m_rpc f \<Longrightarrow> valid_api a \<Longrightarrow> sound f (client_call env a f1)"
  by (rule sound_logged [OF client_call_sound])

lemma simple_handlers_sound:
  assumes "client_inv f"
  shows "sound f (OnLaunchResponse obj f)" "sound f (OnVariables obj f)" "sound f (OnOutput obj f)"
    "sound f (OnBreakpointLocations obj f)" "sound f (OnDapModuleEvent obj f)" "sound f (OnTerminated f)"
    "sound f (Ok (OnDapLog e f))" "sound f (Ok (Frame_OnConnectionError f))"
  using assms
  by (auto simp: OnLaunchResponse_def OnVariables_def OnOutput_def OnBreakpointLocations_def OnDapModuleEvent_def
      OnTerminated_def OnDapLog_def Frame_OnConnectionError_def follows_def AddLogs_same Let_def
      split: option.split Message.split ResponseMsg.split EventMsg.split)

lemma OnInitialize_sound:
  assumes "client_inv f" shows "sound f (OnInitializeResponse env f)" "sound f (OnInitializedEvent env f)"
  using assms
  by (simp_all add: OnInitializeResponse_def Let_def logged_call OnInitializedEvent_def
      sound_logged [OF client_calls_sound] del: client_calls.simps)

lemma LoadFile_sound:
  assumes "client_inv f" "ints_Source src" shows "sound f (LoadFile env src n f)"
proof (cases "src = m_current_source f")
  case True
  then show ?thesis using assms by (simp add: LoadFile_def)
next
  case False
  let ?k = "length (source_callbacks f)"
  let ?f = "f \<lparr>source_callbacks := source_callbacks f @ [(src, n)]\<rparr>"
  have "sound ?f (run_api (inner_app env) (Api_LoadSource src ?k) ?f)" using assms by (intro inner.run_api_sound) simp_all
  then obtain b f1 where f1: "LoadSource (inner_app env) src ?k ?f = Ok (b, f1)" "client_inv f1" "follows ?f f1"
    by (auto simp: sound_def omap_eq_Ok)
  have "follows f f1" using f1(3) by (simp add: follows_def)
  then show ?thesis using False f1(1,2) by (auto simp: LoadFile_def Let_def follows_def)
qed

lemma OnStopped_sound: "client_inv f \<Longrightarrow> sound f (OnStopped env obj f)"
  by (simp add: OnStopped_def Let_def logged_call wxNOT_FOUND_def is_int32_def int_limits
      split: option.split Message.split EventMsg.split)

lemma OnScopes_sound:
  assumes "client_inv f" "case obj of Some m \<Rightarrow> ints_Message m | None \<Rightarrow> True" shows "sound f (OnScopes env obj f)"
proof -
  let ?f = "f \<lparr>m_stcScopes := m_stcScopes f @ ''-- Requesting variables for scopes --'' @ nl\<rparr>"
  have "sound ?f (client_calls env
      (map (\<lambda>s. Api_GetChildrenVariables (Scope_variablesReference s) VARIABLES 10 NATIVE) (ScopesResponse_scopes r)) ?f)"
    if "ints_ScopesResponse r" for r
    using that assms(1)
    by (intro client_calls_sound) (auto simp: ints_ScopesResponse_def ints_Scope_def list_all_iff)
  then have "sound f (omap (\<lambda>f. f \<lparr>m_stcScopes := m_stcScopes f @ t\<rparr>) (client_calls env
      (map (\<lambda>s. Api_GetChildrenVariables (Scope_variablesReference s) VARIABLES 10 NATIVE) (ScopesResponse_scopes r)) ?f))"
    if "ints_ScopesResponse r" for r t
    using that by (intro sound_map sound_logged [of ?f _ f]) (auto simp: follows_def)
  with assms show ?thesis
    by (auto simp: OnScopes_def Let_def follows_def split: option.split Message.split ResponseMsg.split)
qed

lemma OnStackTrace_sound:
  assumes "client_inv f" "case obj of Some m \<Rightarrow> ints_Message m | None \<Rightarrow> True" shows "sound f (OnStackTrace env obj f)"
proof -
  let ?f = "AddLog ''Received stack trace event'' (f \<lparr>m_stcStack := []\<rparr>)"
  have top: "sound f (omap (\<lambda>f. f \<lparr>m_stcStack := m_stcStack f @ t\<rparr>)
      (obind (LoadFile env (StackFrame_source s) (StackFrame_line s - 1) ?f) (\<lambda>f.
         client_call env (Api_GetScopes (StackFrame_id s)) (f \<lparr>m_frame_id := StackFrame_id s\<rparr>))))"
    if "ints_StackFrame s" for s t
  proof (intro sound_map sound_logged [of ?f _ f] sound_bind)
    show "sound ?f (LoadFile env (StackFrame_source s) (StackFrame_line s - 1) ?f)"
      using that assms(1) by (intro LoadFile_sound) (simp_all add: ints_StackFrame_def)
    show "sound f1 (client_call env (Api_GetScopes (StackFrame_id s)) (f1 \<lparr>m_frame_id := StackFrame_id s\<rparr>))"
      if "client_inv f1" for f1
      by (rule logged_call) (use that \<open>ints_StackFrame s\<close> in \<open>simp_all add: ints_StackFrame_def\<close>)
  qed (auto simp: follows_def)
  show ?thesis
    using assms top
    by (auto simp: OnStackTrace_def Let_def follows_def ints_StackTraceResponse_def
        split: option.split Message.split ResponseMsg.split list.split)
qed

lemma OnRunInTerminal_sound:
  assumes "client_inv f" "case obj of Some m \<Rightarrow> ints_Message m | None \<Rightarrow> True"
  shows "sound f (OnRunInTerminalRequest env obj f)"
proof -
  have p: "is_int32 (sint (w :: 32 word))" for w
    using sint_greater_eq [of w] sint_less [of w] by (simp add: is_int32_def int_limits)
  have "sound f (omap snd (SendResponse (inner_app env) (MRunInTerminalResponse r)
      (f1 \<lparr>m_requestSeuqnce := m_requestSeuqnce f1 + 1\<rparr>)))"
    if "client_inv f1" "trace f1 = trace f" "m_rpc f1 = m_rpc f" "ints_RunInTerminalResponse r" for f1 r
    using that inv_next [OF that(1)]
    by (intro sound_logged [of "f1 \<lparr>m_requestSeuqnce := m_requestSeuqnce f1 + 1\<rparr>" _ f] inner.SendResponse_sound [of 1]) simp_all
  then show ?thesis
    using assms p
    by (auto simp: OnRunInTerminalRequest_def Let_def MakeRequest_eq follows_def ints_RunInTerminalRequest_def
        ints_RunInTerminalResponse_def new_RunInTerminalResponse_def msg_defs
        split: option.split Message.split RequestMsg.split)
qed

text \<open>The two handlers that dereference the object need its class, which the client guarantees.\<close>

lemma event_of_elims:
  "event_of m = Some wxEVT_DAP_EXITED_EVENT \<Longrightarrow> \<exists>e. m = MEvent (MExitedEvent e)"
  "event_of m = Some wxEVT_DAP_SET_SOURCE_BREAKPOINT_RESPONSE \<Longrightarrow> \<exists>r. m = MResponse (MSetBreakpointsResponse r)"
  "event_of m = Some wxEVT_DAP_SET_FUNCTION_BREAKPOINT_RESPONSE \<Longrightarrow> \<exists>r. m = MResponse (MSetFunctionBreakpointsResponse r)"
  by (cases m rule: event_of.cases; simp)+

lemma OnExited_sound: "client_inv f \<Longrightarrow> event_of m = Some wxEVT_DAP_EXITED_EVENT \<Longrightarrow> sound f (OnExited (Some m) f)"
  by (auto simp: OnExited_def follows_def dest!: event_of_elims(1))

lemma OnBreakpointSet_sound:
  "client_inv f \<Longrightarrow> event_of m = Some wxEVT_DAP_SET_SOURCE_BREAKPOINT_RESPONSE \<or>
     event_of m = Some wxEVT_DAP_SET_FUNCTION_BREAKPOINT_RESPONSE \<Longrightarrow> sound f (OnBreakpointSet (Some m) req f)"
  by (auto simp: OnBreakpointSet_def follows_def AddLogs_same Let_def dest!: event_of_elims(2,3)
      split: option.split RequestMsg.split)

lemma frame_event_sound:
  assumes "client_inv f" "ints_event e" shows "sound f (frame_event env e f)"
proof -
  have o: "case event_object e of Some m \<Rightarrow> ints_Message m | None \<Rightarrow> True"
    using assms(2) by (simp add: ints_event_def split: option.splits)
  have t: "event_type e \<in> {wxEVT_DAP_LOG_EVENT, wxEVT_DAP_LOST_CONNECTION} \<or>
    (\<exists>m. event_object e = Some m \<and> event_of m = Some (event_type e))"
    using assms(2) by (simp add: ints_event_def split: option.splits)
  have "sound f (Ok f)" using assms(1) by simp
  then show ?thesis
    using assms(1) o t
    by (cases "event_type e")
      (auto simp: frame_event_def Let_def simple_handlers_sound OnInitialize_sound OnStopped_sound
        OnScopes_sound OnStackTrace_sound OnRunInTerminal_sound OnExited_sound OnBreakpointSet_sound
        simp del: sound_Ok intro: simple_handlers_sound)
qed

interpretation frame: debugger_app "frame_app env" for env
proof
  fix c :: MainFrame and e k b s t v
  show "sound c (on_event (frame_app env) e c)" if "client_inv c" "ints_event e"
    using frame_event_sound [OF that] by (simp add: frame_app_def)
  show "sound c (on_source (frame_app env) k b s t c)" if "client_inv c"
    using that by (simp add: frame_app_def source_loaded_def follows_def)
  show "sound c (on_evaluate (frame_app env) k b s t v c)" if "client_inv c"
    using that by (auto simp: frame_app_def expression_evaluated_def follows_def Let_def)
  show "\<exists>c'. on_event (frame_app env) e c = Ok c' \<and> Client.truncate c' = Client.truncate c"
    if "event_type e = wxEVT_DAP_LOG_EVENT"
    using that by (simp add: frame_app_def frame_event_def OnDapLog_def)
qed

section \<open>Calls inside handlers\<close>

text \<open>
  A call of the API fires only log events and the loss of the connection: two applications that
  handle these alike cannot be told apart by it.  So the calls that the handlers make with
  \<open>inner_app\<close> are calls of the client with the whole application bound.
\<close>

definition same_inside :: "'c App \<Rightarrow> 'c App \<Rightarrow> bool" where
  "same_inside a b \<longleftrightarrow> GetFullName a = GetFullName b \<and>
     (\<forall>e c. event_type e \<in> {wxEVT_DAP_LOG_EVENT, wxEVT_DAP_LOST_CONNECTION} \<longrightarrow> on_event a e c = on_event b e c)"

lemma Send_same:
  assumes "same_inside a b"
  shows "SendRequest a r c = SendRequest b r c" "SendResponse a s c = SendResponse b s c"
proof -
  have "fire_event a (log_event t) c = fire_event b (log_event t) c" for t c
    using assms by (simp add: same_inside_def fire_event_def log_event_def plain_event_def)
  then have l: "log_sent a = log_sent b" by (simp add: log_sent_def fun_eq_iff)
  have e: "OnConnectionError a = OnConnectionError b"
    using assms by (simp add: same_inside_def fire_event_def OnConnectionError_def plain_event_def fun_eq_iff)
  show "SendRequest a r c = SendRequest b r c" "SendResponse a s c = SendResponse b s c"
    unfolding SendRequest_def SendResponse_def l e by simp_all
qed

lemma run_api_same: "same_inside a b \<Longrightarrow> run_api a x c = run_api b x c"
proof (cases x)
  case (Api_Launch cmd wd en)
  assume "same_inside a b"
  then show ?thesis using Api_Launch by (cases cmd) (simp_all add: Launch_def Send_same [of a b])
qed (simp_all add: Send_same [of a b] same_inside_def [of a b] Client_Initialize_def SetBreakpointsFile_def ConfigurationDone_def
    GetThreads_def GetScopes_def GetFrames_def Next_def Continue_def SetFunctionBreakpoints_def StepIn_def StepOut_def
    GetChildrenVariables_def Pause_def BreakpointLocations_def LoadSource_def EvaluateExpression_def Attach_def)

lemma inner_is_frame: "same_inside (inner_app env) (frame_app env)"
  by (auto simp: same_inside_def inner_app_def frame_app_def frame_event_def)

section \<open>The configuration is read back\<close>

lemma ReadConfig_SaveConfig:
  assumes "no_nul (debuggee config)" "no_nul (debugger config)"
  shows "\<exists>s. SaveConfig config = Ok s \<and> ReadConfig s = Ok config"
proof -
  let ?j = "Json_Add_string ''debugger'' (debugger config) (Json_Add_string ''debuggee'' (debuggee config) Json_CreateObject)"
  have "doc None ?j" by (intro doc_intros)
  then obtain s where s: "Json_ToString True ?j = Ok s" "Json_Parse s = Ok (reparsed ?j)"
    using Parse_ToString [of ?j "[]" True] by auto
  moreover have "GetString (Json_at ?j ''debuggee'') [] = debuggee config" "GetString (Json_at ?j ''debugger'') [] = debugger config"
    using assms by (simp_all add: json_simps GetString_def cJSON_CreateString_def set_name_def c_str_Cons NUL_def cjson_types)
  ultimately show ?thesis by (simp add: SaveConfig_def ReadConfig_def)
qed

section \<open>What the frame asks for when the debuggee stops\<close>

lemma FromJSON_event:
  assumes "GetString (Json_at j ''type'') [] = ''event''" "GetString (Json_at j ''event'') [] = Event_name e"
  shows "FromJSON registered j = Some (MEvent (EventMsg_From j (fresh_EventMsg e)))"
proof -
  have "IsOK j" using assms(1) by (cases j) (simp_all add: IsOK_def Json_at_def GetString_def)
  then show ?thesis
    using assms event_pool [of e] by (simp add: FromJSON_def ObjGenerator_New_def New_from_pool_def)
qed

lemma OnMessage_stopped:
  assumes "m_handshake_state f = kCompleted" "GetString (Json_at j ''type'') [] = ''event''"
    "GetString (Json_at j ''event'') [] = ''stopped''" "log_received app j f = Ok f1" "m_handshake_state f1 = kCompleted"
  shows "OnMessage app j f =
     SendDAPEvent app wxEVT_DAP_STOPPED_EVENT (MEvent (MStoppedEvent new_StoppedEvent)) j None (f1 \<lparr>m_can_interact := True\<rparr>)"
proof -
  have "FromJSON registered j = Some (MEvent (EventMsg_From j (fresh_EventMsg (MStoppedEvent new_StoppedEvent))))"
    using assms(2,3) by (intro FromJSON_event) simp_all
  then obtain e where "FromJSON registered j = Some (MEvent (EventMsg_From j e))" by blast
  moreover have "Event_event (as_Event (EventMsg_From j e)) = ''stopped''"
    "ProtocolMessage_type (as_Event (EventMsg_From j e)) = ''event''" for e
    using assms(2,3) From_heads by simp_all
  ultimately show ?thesis
    using assms(4,5) by (simp add: OnMessage_def OnSessionMessage_def AsEvent_def OnEvent_def)
qed

lemma inner_GetFrames:
  assumes "client_inv f" "m_transport f"
  shows "\<exists>f'. client_call env (Api_GetFrames wxNOT_FOUND 0 0) f = Ok f' \<and> client_inv f' \<and>
     m_get_frames_queue f' = m_get_frames_queue f @ [m_active_thread_id f] \<and>
     m_active_thread_id f' = m_active_thread_id f \<and> m_can_interact f' = m_can_interact f"
proof -
  let ?f = "f \<lparr>m_requestSeuqnce := m_requestSeuqnce f + 1,
    m_get_frames_queue := m_get_frames_queue f @ [m_active_thread_id f]\<rparr>"
  have "\<exists>r p f'. client_call env (Api_GetFrames wxNOT_FOUND 0 0) f = Ok f' \<and> sent r p ?f f'"
    using assms unfolding client_call_def
    by (simp add: GetFrames_def Let_def MakeRequest_eq thread_or_active_def)
      (rule inner.request_sent, simp_all add: inner.api_simps)
  then obtain r p f' where s: "client_call env (Api_GetFrames wxNOT_FOUND 0 0) f = Ok f'" "sent r p ?f f'" by blast
  have "Client.truncate (f' \<lparr>trace := trace ?f, m_in_flight_requests := m_in_flight_requests ?f\<rparr>) = Client.truncate ?f"
    using s(2) by (simp add: sent_def)
  then have "m_active_thread_id f' = m_active_thread_id f" "m_can_interact f' = m_can_interact f"
    by (cases f; cases f'; simp add: Client.defs)+
  then show ?thesis using s sentD [OF s(2)] by auto
qed

lemma frame_log_received:
  assumes "defined (Json_ToString False j)"
  shows "\<exists>f1. log_received (frame_app env) j f = Ok f1 \<and>
     Client.truncate (f1 \<lparr>trace := trace f\<rparr>) = Client.truncate f \<and> (client_inv f \<longrightarrow> client_inv f1)"
proof (cases "m_wants_log_events f")
  case True
  obtain s where s: "Json_ToString False j = Ok s" using assms by (auto simp: defined_iff)
  let ?e = "log_event (''<-- '' @ s)"
  have "log_received (frame_app env) j f = Ok (AddLog (event_string ?e) (f \<lparr>trace := trace f @ [Posted ?e]\<rparr>))"
    using True s
    by (simp add: log_received_def fire_event_def frame_app_def frame_event_def OnDapLog_def log_event_def plain_event_def)
  moreover have "client_inv f \<longrightarrow> client_inv (f \<lparr>trace := trace f @ [Posted ?e]\<rparr>)"
    using inv_append_trace [of 0 f "Posted ?e"] by (simp add: client_inv_def)
  ultimately show ?thesis by (auto simp: AddLog_def Client.defs client_inv_def client_inv_at_def)
qed (auto simp: log_received_def)

lemma OnStopped_calls:
  "\<exists>u v w. OnStopped env (Some (MEvent (MStoppedEvent d))) f =
     client_call env (Api_GetFrames wxNOT_FOUND 0 0) (AddLog w (AddLog v (AddLog u f)))"
  unfolding OnStopped_def Let_def option.case Message.case EventMsg.case by (intro exI) (rule refl)

lemma stopped_asks_for_frames:
  assumes "client_inv f" "m_transport f" "m_handshake_state f = kCompleted" "defined (Json_ToString False j)" "ints_json j"
    and "GetString (Json_at j ''type'') [] = ''event''" "GetString (Json_at j ''event'') [] = ''stopped''"
    and "t = GetInteger (Json_at (Json_at j ''body'') ''threadId'') wxNOT_FOUND"
  shows "\<exists>f'. OnMessage (frame_app env) j f = Ok f' \<and> client_inv f' \<and> m_can_interact f' \<and> m_active_thread_id f' = t \<and>
     m_get_frames_queue f' = m_get_frames_queue f @ [t]"
proof -
  obtain f1 where f1: "log_received (frame_app env) j f = Ok f1" "client_inv f1"
    "Client.truncate (f1 \<lparr>trace := trace f\<rparr>) = Client.truncate f"
    using frame_log_received [OF assms(4), of env f] assms(1) by blast
  have k: "m_handshake_state f1 = kCompleted" "m_transport f1" "m_get_frames_queue f1 = m_get_frames_queue f"
    using truncate_simps [OF f1(3)] assms(2,3) by simp_all
  let ?d = "StoppedEvent_From j new_StoppedEvent"
  let ?e = "\<lparr>event_type = wxEVT_DAP_STOPPED_EVENT, event_object = Some (MEvent (MStoppedEvent ?d)), event_string = [],
    event_request = None\<rparr>"
  let ?f2 = "f1 \<lparr>m_can_interact := True, m_active_thread_id := t, trace := trace f1 @ [Posted ?e]\<rparr>"
  have t: "StoppedEvent_threadId ?d = t"
    using assms(8) by (simp add: StoppedEvent_From_def Let_def)
  have m: "OnMessage (frame_app env) j f = OnStopped env (Some (MEvent (MStoppedEvent ?d))) ?f2"
    unfolding OnMessage_stopped [OF assms(3,6,7) f1(1) k(1)]
    by (simp add: SendDAPEvent_def Let_def t fire_event_def frame_app_def frame_event_def)
  have "is_int32 t"
    using StoppedEvent_From_ints [OF assms(5) new_StoppedEvent_ints] t by (simp add: ints_StoppedEvent_def)
  then have "client_inv_at 0 (f1 \<lparr>m_can_interact := True, m_active_thread_id := t\<rparr>)"
    using f1(2) by (simp add: client_inv_def inv_ids)
  from inv_append_trace [OF this, of "Posted ?e"] have i: "client_inv ?f2" by simp
  obtain u v w where o: "OnStopped env (Some (MEvent (MStoppedEvent ?d))) ?f2 =
      client_call env (Api_GetFrames wxNOT_FOUND 0 0) (AddLog w (AddLog v (AddLog u ?f2)))" (is "_ = client_call env _ ?f3")
    using OnStopped_calls by blast
  have "client_inv ?f3" "m_transport ?f3" using i k by (simp_all add: AddLog_def)
  from inner_GetFrames [OF this, of env] show ?thesis unfolding m o using k(3) by (auto simp: AddLog_def)
qed

end
