(* ===== verification/Dap_App.thy ===== *)
theory Dap_App
  imports Dap_MainFrame
begin

text \<open>
  The class \<^verbatim>\<open>DAPEvent\<close> (\<^verbatim>\<open>dap/DAPEvent.cpp\<close>), \<^verbatim>\<open>dap::Exception\<close>, the entry point of the demo (\<^verbatim>\<open>dbgcli/ConsoleApp.cpp\<close>) and the
  constructor and destructor of its window.
\<close>

section \<open>Events\<close>

text \<open>
  A \<^verbatim>\<open>DAPEvent\<close> with the fields of its base class that the library sets: the type (\<open>None\<close> is \<^verbatim>\<open>wxEVT_NULL\<close>), the window id
  and the string.
\<close>

record wxDAPEvent =
  wx_type :: "wxEventType option"
  wx_id :: int
  wx_string :: string
  m_object :: "Message option"
  m_originatingRequest :: "RequestMsg option"

definition new_wxDAPEvent :: "wxEventType option \<Rightarrow> int \<Rightarrow> wxDAPEvent" where
  "new_wxDAPEvent commandType winid =
     \<lparr>wx_type = commandType, wx_id = winid, wx_string = [], m_object = None, m_originatingRequest = None\<rparr>"

definition SetAnyObject :: "Message \<Rightarrow> wxDAPEvent \<Rightarrow> wxDAPEvent" where
  "SetAnyObject any e = e \<lparr>m_object := Some any\<rparr>"

definition SetOriginatingRequest :: "RequestMsg option \<Rightarrow> wxDAPEvent \<Rightarrow> wxDAPEvent" where
  "SetOriginatingRequest req e = e \<lparr>m_originatingRequest := req\<rparr>"

text \<open>\<^verbatim>\<open>operator=\<close> does not call the one of the base class; the copy constructor starts from a new event.\<close>

definition DAPEvent_assign :: "wxDAPEvent \<Rightarrow> wxDAPEvent \<Rightarrow> wxDAPEvent" where
  "DAPEvent_assign src this = this \<lparr>m_object := m_object src, m_originatingRequest := m_originatingRequest src\<rparr>"

definition DAPEvent_copy :: "wxDAPEvent \<Rightarrow> wxDAPEvent" where
  "DAPEvent_copy event = DAPEvent_assign event (new_wxDAPEvent None 0)"

definition DAPEvent_Clone :: "wxDAPEvent \<Rightarrow> wxDAPEvent" where
  "DAPEvent_Clone this = DAPEvent_copy this"

definition GetDapEvent :: "wxDAPEvent \<Rightarrow> EventMsg option" where
  "GetDapEvent e = (case m_object e of Some (MEvent m) \<Rightarrow> Some m | _ \<Rightarrow> None)"

definition GetDapResponse :: "wxDAPEvent \<Rightarrow> ResponseMsg option" where
  "GetDapResponse e = (case m_object e of Some (MResponse m) \<Rightarrow> Some m | _ \<Rightarrow> None)"

definition GetDapRequest :: "wxDAPEvent \<Rightarrow> RequestMsg option" where
  "GetDapRequest e = (case m_object e of Some (MRequest m) \<Rightarrow> Some m | _ \<Rightarrow> None)"

lemma one_kind:
  "m_object e = Some m \<Longrightarrow> of_bool (GetDapEvent e \<noteq> None) + of_bool (GetDapResponse e \<noteq> None) + of_bool (GetDapRequest e \<noteq> None) = (1 :: nat)"
  by (cases m) (simp_all add: GetDapEvent_def GetDapResponse_def GetDapRequest_def)

text \<open>What a copy keeps and what it loses.\<close>

lemma DAPEvent_Clone_spec:
  "GetDapEvent (DAPEvent_Clone e) = GetDapEvent e" "GetDapResponse (DAPEvent_Clone e) = GetDapResponse e"
  "GetDapRequest (DAPEvent_Clone e) = GetDapRequest e" "m_originatingRequest (DAPEvent_Clone e) = m_originatingRequest e"
  "wx_type (DAPEvent_Clone e) = None" "wx_string (DAPEvent_Clone e) = []"
  by (simp_all add: DAPEvent_Clone_def DAPEvent_copy_def DAPEvent_assign_def new_wxDAPEvent_def GetDapEvent_def GetDapResponse_def GetDapRequest_def)

section \<open>Exceptions\<close>

definition Exception_What :: "string \<Rightarrow> string" where
  "Exception_What what = wxTrim what"

section \<open>The entry point\<close>

text \<open>
  \<^verbatim>\<open>DoParseCommandLine\<close>: the answer of \<^verbatim>\<open>wxCmdLineParser::Parse\<close> and the parameters it found; \<open>normal\<close> is
  \<^verbatim>\<open>wxFileName::Normalize\<close>.  The result is whether the program goes on, and the name of the executable.
\<close>

definition DoParseCommandLine :: "(string \<Rightarrow> string) \<Rightarrow> (string \<Rightarrow> bool) \<Rightarrow> int \<Rightarrow> string list \<Rightarrow> bool \<times> string" where
  "DoParseCommandLine normal exists parsed params =
     (if parsed \<noteq> 0 then (False, [])
      else if length params = 1 then
        let paramFullPath = normal (params ! 0) in if exists paramFullPath then (True, paramFullPath) else (True, [])
      else (True, []))"

section \<open>The life of the window\<close>

text \<open>
  The file \<^verbatim>\<open>wxdap.json\<close> (its text, empty when it cannot be read) and the two file pickers.
\<close>

record frame_files =
  config_text :: string
  pick_debugger :: string
  pick_debuggee :: string
  ff_executable :: string

text \<open>The constructor: the configuration fills the pickers; an executable that was given replaces and saves the debuggee.\<close>

definition MainFrame_open :: "string \<Rightarrow> string \<Rightarrow> frame_files outcome" where
  "MainFrame_open content executableFileName =
     obind (ReadConfig content) (\<lambda>config.
       let f = \<lparr>config_text = content, pick_debugger = debugger config, pick_debuggee = debuggee config, ff_executable = executableFileName\<rparr>
       in if executableFileName \<noteq> [] then
            omap (\<lambda>s. f \<lparr>pick_debuggee := executableFileName, config_text := s\<rparr>) (SaveConfig (config \<lparr>debuggee := executableFileName\<rparr>))
          else Ok (f \<lparr>ff_executable := debuggee config\<rparr>))"

definition MainFrame_close :: "frame_files \<Rightarrow> string outcome" where
  "MainFrame_close f = SaveConfig \<lparr>debuggee = pick_debuggee f, debugger = pick_debugger f\<rparr>"

text \<open>What one window saves is what the next one shows.\<close>

lemma frames_keep_files:
  assumes "no_nul (pick_debugger f)" "no_nul (pick_debuggee f)"
  shows "\<exists>s. MainFrame_close f = Ok s \<and> MainFrame_open s [] =
     Ok \<lparr>config_text = s, pick_debugger = pick_debugger f, pick_debuggee = pick_debuggee f, ff_executable = pick_debuggee f\<rparr>"
proof -
  from ReadConfig_SaveConfig [of "\<lparr>debuggee = pick_debuggee f, debugger = pick_debugger f\<rparr>"] assms obtain s
    where "SaveConfig \<lparr>debuggee = pick_debuggee f, debugger = pick_debugger f\<rparr> = Ok s"
      "ReadConfig s = Ok \<lparr>debuggee = pick_debuggee f, debugger = pick_debugger f\<rparr>" by auto
  then show ?thesis by (simp add: MainFrame_close_def MainFrame_open_def Let_def)
qed

text \<open>
  \<^verbatim>\<open>DAPCli::OnInit\<close>: the window is opened with the executable of the command line, or the program
  ends.
\<close>

definition OnInit :: "(string \<Rightarrow> string) \<Rightarrow> (string \<Rightarrow> bool) \<Rightarrow> int \<Rightarrow> string list \<Rightarrow> string \<Rightarrow> frame_files option outcome" where
  "OnInit normal exists parsed params content =
     (let (go, m_ExecutableFileName) = DoParseCommandLine normal exists parsed params
      in if \<not> go then Ok None else omap Some (MainFrame_open content m_ExecutableFileName))"

lemma OnInit_opens:
  "OnInit normal exists parsed params content =
     (if parsed \<noteq> 0 then Ok None
      else omap Some (MainFrame_open content
        (case params of [p] \<Rightarrow> if exists (normal p) then normal p else [] | _ \<Rightarrow> [])))"
  by (cases params rule: remdups_adj.cases) (simp_all add: OnInit_def DoParseCommandLine_def Let_def)

section \<open>Showing a line\<close>

text \<open>The control of wxWidgets that shows a file: what \<^verbatim>\<open>center_line\<close> asks it, and what it tells it.\<close>

record 'c wxStyledTextCtrl =
  GetLastPosition :: "'c \<Rightarrow> int"
  LineFromPosition :: "int \<Rightarrow> 'c \<Rightarrow> int"
  PositionFromLine :: "int \<Rightarrow> 'c \<Rightarrow> int"
  LinesOnScreen :: "'c \<Rightarrow> int"

datatype stc_call =
  SetCurrentPos int | SetSelectionStart int | SetSelectionEnd int | SetAnchor int | EnsureCaretVisible
| MarkerDeleteAll int | MarkerAdd int int | SetFirstVisibleLine int

definition MARKER_NUMBER :: int where "MARKER_NUMBER = 4"

text \<open>The division of C rounds towards 0; the number of lines is not negative.\<close>

definition center_line :: "'c wxStyledTextCtrl \<Rightarrow> 'c \<Rightarrow> int \<Rightarrow> bool \<Rightarrow> stc_call list" where
  "center_line ctrl c line add_marker =
     (let line = (if line = wxNOT_FOUND then LineFromPosition ctrl (GetLastPosition ctrl c) c else line);
          lines_on_screen = LinesOnScreen ctrl c;
          first_visible_line = line - lines_on_screen div 2;
          first_visible_line = max 0 first_visible_line;
          pos = PositionFromLine ctrl line c
      in [SetCurrentPos pos, SetSelectionStart pos, SetSelectionEnd pos, SetAnchor pos, EnsureCaretVisible] @
         (if add_marker then [MarkerDeleteAll MARKER_NUMBER, MarkerAdd line MARKER_NUMBER] else []) @
         [SetFirstVisibleLine first_visible_line])"

text \<open>The line that is asked for is among the lines on the screen, and no line before the first is.\<close>

lemma center_line_visible:
  assumes "0 \<le> line" "0 < LinesOnScreen ctrl c"
  shows "\<exists>first. last (center_line ctrl c line add_marker) = SetFirstVisibleLine first \<and> 0 \<le> first \<and> first \<le> line \<and> line < first + LinesOnScreen ctrl c"
  using assms by (auto simp: center_line_def Let_def wxNOT_FOUND_def)

end
