(* ===== verification/Dap_Process.thy ===== *)
theory Dap_Process
  imports Dap_Transport
begin

text \<open>
  \<^verbatim>\<open>Queue\<close>, \<^verbatim>\<open>Process\<close> and \<^verbatim>\<open>UnixProcess\<close>, the transport \<^verbatim>\<open>StdoutTransport\<close> on top of them, and the
  interface \<open>transport\<close> that both transports keep.
\<close>

section \<open>The queue between two threads\<close>

text \<open>\<^verbatim>\<open>pop\<close>: \<open>arrived\<close> is what the other thread pushes while the call waits.\<close>

definition Queue_push :: "'a \<Rightarrow> 'a list \<Rightarrow> 'a list" where
  "Queue_push x Q = Q @ [x]"

definition Queue_pop :: "'a list \<Rightarrow> 'a list \<Rightarrow> 'a option \<times> 'a list" where
  "Queue_pop arrived Q =
     (let Q = foldl (\<lambda>Q x. Queue_push x Q) Q arrived
      in case Q of [] \<Rightarrow> (None, Q) | x # Q' \<Rightarrow> (Some x, Q'))"

lemma Queue_pushes: "foldl (\<lambda>Q x. Queue_push x Q) Q xs = Q @ xs"
  by (induction xs arbitrary: Q) (simp_all add: Queue_push_def)

lemma Queue_pop_spec:
  "Queue_pop arrived Q = (r, Q') \<Longrightarrow> (case r of None \<Rightarrow> [] | Some x \<Rightarrow> [x]) @ Q' = Q @ arrived \<and> (r = None \<longrightarrow> Q' = [])"
  by (auto simp: Queue_pop_def Queue_pushes Let_def split: list.splits)

section \<open>Reading and writing the pipes\<close>

text \<open>
  \<^verbatim>\<open>ReadAll\<close>: \<^verbatim>\<open>select\<close>, then \<^verbatim>\<open>read\<close> of at most 1023 bytes.  \<^verbatim>\<open>content.append(buff)\<close> appends the C string,
  which ends at the first NUL.
\<close>

definition MAX_BUFF_SIZE :: nat where "MAX_BUFF_SIZE = 1024 * 2048"

function ReadAll :: "string \<Rightarrow> os \<Rightarrow> (bool \<times> string) io" where
  "ReadAll content w =
     (case script w of
        [] \<Rightarrow> Blocked
      | r # rs \<Rightarrow>
         if ret r > 0 then
           (case rs of
              [] \<Rightarrow> Blocked
            | q # qs \<Rightarrow>
               let w = w \<lparr>script := qs\<rparr>
               in if ret q > 0 then
                    let content = content @ c_str (take (min (nat (ret q)) 1023) (data q))
                    in if length content \<ge> MAX_BUFF_SIZE then Return (True, content) w else ReadAll content w
                  else Return (False, content) w)
         else Return (ret r = 0, content) (w \<lparr>script := rs\<rparr>))"
  by pat_completeness auto
termination
  by (relation "measure (\<lambda>(c, w). length (script w))") auto

declare ReadAll.simps [simp del]

text \<open>\<^verbatim>\<open>Write\<close>: the flag \<^verbatim>\<open>m_goingDown\<close> is never set; an interrupted or refused write is tried again.\<close>

function write_loop :: "string \<Rightarrow> os \<Rightarrow> bool io" where
  "write_loop tmp w =
     (if tmp = [] then Return True w
      else case script w of
             [] \<Rightarrow> Blocked
           | r # rs \<Rightarrow>
              let w = w \<lparr>script := rs\<rparr>
              in if ret r < 0 then
                   if errno r = EWOULDBLOCK \<or> errno r = EAGAIN \<or> errno r = EINTR then write_loop tmp w
                   else Return False w
                 else let n = min (nat (ret r)) (min 4096 (length tmp))
                      in write_loop (drop n tmp) (w \<lparr>os_out := os_out w @ take n tmp\<rparr>))"
  by pat_completeness auto
termination
  by (relation "measure (\<lambda>(t, w). length (script w))") auto

declare write_loop.simps [simp del]

definition UnixProcess_Write :: "string \<Rightarrow> os \<Rightarrow> bool io" where
  "UnixProcess_Write message w = write_loop message w"

definition UnixProcess_WriteLn :: "string \<Rightarrow> os \<Rightarrow> bool io" where
  "UnixProcess_WriteLn message w = UnixProcess_Write (message @ [CHR 0x0A]) w"

lemma write_loop_spec:
  "write_loop tmp w = Return ok w' \<Longrightarrow>
     (if ok then os_out w' = os_out w @ tmp else \<exists>q. prefix q tmp \<and> os_out w' = os_out w @ q)"
proof (induction tmp w rule: write_loop.induct)
  case (1 tmp w)
  show ?case
  proof (cases "tmp = [] \<or> script w = []")
    case True
    then show ?thesis using "1.prems" by (subst (asm) write_loop.simps) (auto split: if_splits)
  next
    case False
    then obtain r rs where t: "tmp \<noteq> []" and r: "script w = r # rs" by (cases "script w") auto
    let ?w = "w \<lparr>script := rs\<rparr>" and ?n = "min (nat (ret r)) (min 4096 (length tmp))"
    consider (again) "ret r < 0" "errno r = EWOULDBLOCK \<or> errno r = EAGAIN \<or> errno r = EINTR"
      | (error) "ret r < 0" "\<not> (errno r = EWOULDBLOCK \<or> errno r = EAGAIN \<or> errno r = EINTR)"
      | (some) "\<not> ret r < 0" by blast
    then show ?thesis
    proof cases
      case again
      then have "write_loop tmp ?w = Return ok w'" using "1.prems" t r by (subst (asm) write_loop.simps) simp
      with "1.IH"(1) [OF t r refl again] show ?thesis by (auto split: if_splits)
    next
      case error
      then show ?thesis using "1.prems" t r by (subst (asm) write_loop.simps) auto
    next
      case some
      let ?w' = "?w \<lparr>os_out := os_out ?w @ take ?n tmp\<rparr>"
      have "write_loop (drop ?n tmp) ?w' = Return ok w'"
        using "1.prems" t r some by (subst (asm) write_loop.simps) (simp add: Let_def)
      with "1.IH"(2) [OF t r refl some refl] have
        ih: "if ok then os_out w' = os_out ?w' @ drop ?n tmp else \<exists>q. prefix q (drop ?n tmp) \<and> os_out w' = os_out ?w' @ q"
        by simp
      show ?thesis
      proof (cases ok)
        case False
        then obtain q where "prefix q (drop ?n tmp)" "os_out w' = os_out w @ take ?n tmp @ q" using ih by auto
        then show ?thesis using False by (auto intro!: exI [of _ "take ?n tmp @ q"]) (metis append_take_drop_id same_prefix_prefix)
      qed (use ih in simp)
    qed
  qed
qed

text \<open>What \<^verbatim>\<open>ReadAll\<close> collects: with chunks without NUL, every byte.\<close>

definition readable :: "string \<Rightarrow> sysret list" where
  "readable chunk = [\<lparr>ret = 1, errno = 0, data = []\<rparr>, \<lparr>ret = int (length chunk), errno = 0, data = chunk\<rparr>]"

definition no_more :: sysret where
  "no_more = \<lparr>ret = 0, errno = 0, data = []\<rparr>"

lemma ReadAll_chunks:
  assumes "\<forall>c\<in>set chunks. c \<noteq> [] \<and> length c \<le> 1023" "length content + length (concat chunks) < MAX_BUFF_SIZE"
  shows "ReadAll content (w \<lparr>script := concat (map readable chunks) @ no_more # rs\<rparr>) =
     Return (True, content @ concat (map c_str chunks)) (w \<lparr>script := rs\<rparr>)"
  using assms
proof (induction chunks arbitrary: content)
  case Nil
  then show ?case by (subst ReadAll.simps) (simp add: no_more_def)
next
  case (Cons c chunks)
  have l: "length (c_str c) \<le> length c" by (simp add: c_str_def length_takeWhile_le)
  then have "length content + length (c_str c) < MAX_BUFF_SIZE" using Cons.prems(2) by simp
  moreover have "length (content @ c_str c) + length (concat chunks) < MAX_BUFF_SIZE" using l Cons.prems(2) by simp
  note Cons.IH [OF _ this]
  ultimately show ?case
    using Cons.prems(1) by (subst ReadAll.simps) (simp add: readable_def [of c] Let_def min_def)
qed

section \<open>The process\<close>

record UnixProcess =
  child_pid :: int
  m_stdoutQueue :: "string list"
  m_stderrQueue :: "string list"

text \<open>\<^verbatim>\<open>kill(child_pid, 0) == 0\<close>\<close>

definition IsAlive :: "os \<Rightarrow> bool io" where
  "IsAlive w = io_bind (sys_call w) (\<lambda>r w. Return (ret r = 0) w)"

definition DoRead :: "os \<Rightarrow> (bool \<times> string \<times> string) io" where
  "DoRead w =
     io_bind (IsAlive w) (\<lambda>alive w.
       if \<not> alive then Return (False, [], []) w
       else io_bind (ReadAll [] w) (\<lambda>(_, str) w.
              io_bind (ReadAll [] w) (\<lambda>(_, err_buff) w.
                Return (str \<noteq> [] \<or> err_buff \<noteq> [], str, err_buff) w)))"

text \<open>The body of the loop of the reader thread of \<^verbatim>\<open>StartThreads\<close>; what it read is recorded.\<close>

definition process_reader :: "UnixProcess \<Rightarrow> os \<Rightarrow> UnixProcess io" where
  "process_reader p w =
     io_bind (DoRead w) (\<lambda>(readSuccess, stdoutBuff, stderrBuff) w.
       let readSomething = (stdoutBuff \<noteq> [] \<or> stderrBuff \<noteq> [])
       in if readSomething \<and> readSuccess then
            let p = (if stdoutBuff \<noteq> [] then p \<lparr>m_stdoutQueue := Queue_push stdoutBuff (m_stdoutQueue p)\<rparr> else p);
                p = (if stderrBuff \<noteq> [] then p \<lparr>m_stderrQueue := Queue_push stderrBuff (m_stderrQueue p)\<rparr> else p)
            in Return p (w \<lparr>os_in := os_in w @ stdoutBuff\<rparr>)
          else Return p w)"

text \<open>
  \<^verbatim>\<open>ExecuteProcess\<close>: the arguments of the child are what \<^verbatim>\<open>BuildArgv\<close> makes of the command; the working
  directory is not used.  The answer of \<^verbatim>\<open>fork\<close> is the process id, also when it is -1.
\<close>

definition ExecuteProcess :: "string \<Rightarrow> string \<Rightarrow> os \<Rightarrow> (UnixProcess \<times> string list) io" where
  "ExecuteProcess cmd workingDir w =
     io_bind (sys_call w) (\<lambda>r w.
       Return (\<lparr>child_pid = ret r, m_stdoutQueue = [], m_stderrQueue = []\<rparr>, BuildArgv cmd) w)"

section \<open>The transport over the standard streams\<close>

definition StdoutTransport_IsAlive :: "UnixProcess option \<Rightarrow> os \<Rightarrow> bool io" where
  "StdoutTransport_IsAlive m_process w = (case m_process of None \<Rightarrow> Return False w | Some p \<Rightarrow> IsAlive w)"

definition StdoutTransport_Execute ::
  "string list \<Rightarrow> string \<Rightarrow> os \<Rightarrow> (bool \<times> UnixProcess option \<times> string list) io" where
  "StdoutTransport_Execute cmd workingDirectory w =
     io_bind (ExecuteProcess (command_line cmd) workingDirectory w) (\<lambda>(p, argv) w.
       io_bind (StdoutTransport_IsAlive (Some p) w) (\<lambda>alive w. Return (alive, Some p, argv) w))"

definition StdoutTransport_Read :: "UnixProcess option \<Rightarrow> int \<Rightarrow> os \<Rightarrow> (bool \<times> string \<times> UnixProcess option) io" where
  "StdoutTransport_Read m_process msTimeout w =
     io_bind (StdoutTransport_IsAlive m_process w) (\<lambda>alive w.
       if \<not> alive then Return (False, [], None) w
       else case m_process of
              None \<Rightarrow> Return (False, [], None) w
            | Some p \<Rightarrow>
               (case Queue_pop [] (m_stdoutQueue p) of
                  (None, Q) \<Rightarrow> Return (True, [], Some (p \<lparr>m_stdoutQueue := Q\<rparr>)) w
                | (Some message, Q) \<Rightarrow>
                    let p = p \<lparr>m_stdoutQueue := Q\<rparr>; (_, E) = Queue_pop [] (m_stderrQueue p)
                    in Return (True, message, Some (p \<lparr>m_stderrQueue := E\<rparr>)) w))"

definition StdoutTransport_Send :: "UnixProcess option \<Rightarrow> string \<Rightarrow> os \<Rightarrow> nat io" where
  "StdoutTransport_Send m_process buffer w =
     io_bind (StdoutTransport_IsAlive m_process w) (\<lambda>alive w.
       if \<not> alive then Return 0 w
       else io_bind (UnixProcess_Write buffer w) (\<lambda>ok w. Return (if ok then length buffer else 0) w))"

lemma StdoutTransport_Send_spec:
  assumes "StdoutTransport_Send m_process buffer w = Return n w'"
  shows "n = length buffer \<and> os_out w' = os_out w @ buffer \<or> n = 0 \<and> (\<exists>q. prefix q buffer \<and> os_out w' = os_out w @ q)"
proof -
  obtain alive w1 where a: "StdoutTransport_IsAlive m_process w = Return alive w1" "os_out w1 = os_out w"
    using assms by (auto simp: StdoutTransport_Send_def StdoutTransport_IsAlive_def IsAlive_def sys_call_def
        split: option.splits list.splits)
  show ?thesis
  proof (cases alive)
    case True
    obtain ok w2 where "write_loop buffer w1 = Return ok w2" "n = (if ok then length buffer else 0)" "w' = w2"
      using assms a True by (cases "write_loop buffer w1") (auto simp: StdoutTransport_Send_def UnixProcess_Write_def)
    then show ?thesis using write_loop_spec [of buffer w1 ok w2] a(2) by (auto split: if_splits)
  qed (use assms a in \<open>auto simp: StdoutTransport_Send_def\<close>)
qed

section \<open>The interface of a transport\<close>

text \<open>
  What the client relies on: \<^verbatim>\<open>Read\<close> hands over bytes in the order in which the system delivered
  them and loses none; \<open>held\<close> are bytes that were delivered and not yet handed over.  Between two
  reads a thread of the transport may take more bytes from the system (\<open>background\<close>).
\<close>

locale transport =
  fixes read :: "'s \<Rightarrow> os \<Rightarrow> (bool \<times> string \<times> 's) io"
    and background :: "'s \<Rightarrow> os \<Rightarrow> 's io"
    and held :: "'s \<Rightarrow> string"
  assumes read_conserves: "read s w = Return (True, buf, s') w' \<Longrightarrow>
      \<exists>new. os_in w' = os_in w @ new \<and> held s @ new = buf @ held s'"
    and background_conserves: "background s w = Return s' w' \<Longrightarrow>
      \<exists>new. os_in w' = os_in w @ new \<and> held s' = held s @ new"
text \<open>The two transports of the library keep it.\<close>

definition socket_read :: "Socket \<Rightarrow> os \<Rightarrow> (bool \<times> string \<times> Socket) io" where
  "socket_read s w = io_bind (SocketTransport_Read s 5 w) (\<lambda>(ok, buf) w. Return (ok, buf, s) w)"

interpretation socket: transport socket_read "\<lambda>s w. Blocked" "\<lambda>s. []"
proof
  fix s w buf s' w'
  assume "socket_read s w = Return (True, buf, s') w'"
  then have "SocketTransport_Read s 5 w = Return (True, buf) w'"
    by (cases "SocketTransport_Read s 5 w") (auto simp: socket_read_def)
  then show "\<exists>new. os_in w' = os_in w @ new \<and> [] @ new = buf @ []" by (auto dest: SocketTransport_Read_spec)
qed simp

definition stdout_read :: "UnixProcess option \<Rightarrow> os \<Rightarrow> (bool \<times> string \<times> UnixProcess option) io" where
  "stdout_read s w = StdoutTransport_Read s 5 w"

definition stdout_background :: "UnixProcess option \<Rightarrow> os \<Rightarrow> UnixProcess option io" where
  "stdout_background s w = (case s of None \<Rightarrow> Blocked | Some p \<Rightarrow> io_bind (process_reader p w) (\<lambda>p w. Return (Some p) w))"

definition stdout_held :: "UnixProcess option \<Rightarrow> string" where
  "stdout_held s = (case s of None \<Rightarrow> [] | Some p \<Rightarrow> concat (m_stdoutQueue p))"

lemma IsAlive_in: "IsAlive w = Return a w' \<Longrightarrow> os_in w' = os_in w"
  by (auto simp: IsAlive_def sys_call_def split: list.splits)

lemma ReadAll_in: "ReadAll c w = Return z w' \<Longrightarrow> os_in w' = os_in w"
proof (induction c w rule: ReadAll.induct)
  case (1 content w)
  note e = "1.prems" [unfolded ReadAll.simps [of content w]]
  show ?case
  proof (cases "script w")
    case (Cons r rs)
    note r = Cons
    show ?thesis
    proof (cases rs)
      case (Cons q qs)
      show ?thesis using e r Cons "1.IH" [OF r _ Cons refl _ refl] by (auto simp: Let_def split: if_splits)
    qed (use e r in \<open>auto split: if_splits\<close>)
  qed (use e in simp)
qed

lemma DoRead_in: "DoRead w = Return r w' \<Longrightarrow> os_in w' = os_in w"
proof -
  assume d: "DoRead w = Return r w'"
  obtain a w1 where a: "IsAlive w = Return a w1" using d by (cases "IsAlive w") (auto simp: DoRead_def)
  show ?thesis
  proof (cases a)
    case True
    obtain x w2 where x: "ReadAll [] w1 = Return x w2" using d a True by (cases "ReadAll [] w1") (auto simp: DoRead_def)
    obtain y w3 where y: "ReadAll [] w2 = Return y w3"
      using d a True x by (cases "ReadAll [] w2") (auto simp: DoRead_def split: prod.splits)
    show ?thesis using d a True x y IsAlive_in [OF a] ReadAll_in [OF x] ReadAll_in [OF y]
      by (auto simp: DoRead_def split: prod.splits)
  qed (use d a IsAlive_in [OF a] in \<open>auto simp: DoRead_def\<close>)
qed

interpretation stdout: transport stdout_read stdout_background stdout_held
proof
  fix s w buf s' w'
  assume r: "stdout_read s w = Return (True, buf, s') w'"
  then obtain p where s: "s = Some p"
    by (cases s) (auto simp: stdout_read_def StdoutTransport_Read_def StdoutTransport_IsAlive_def)
  obtain a w1 where a: "IsAlive w = Return a w1"
    using r s by (cases "IsAlive w") (auto simp: stdout_read_def StdoutTransport_Read_def StdoutTransport_IsAlive_def)
  show "\<exists>new. os_in w' = os_in w @ new \<and> stdout_held s @ new = buf @ stdout_held s'"
    using r s a IsAlive_in [OF a]
    by (auto simp: stdout_read_def StdoutTransport_Read_def StdoutTransport_IsAlive_def stdout_held_def Queue_pop_def Let_def
        split: if_splits list.splits)
next
  fix s w s' w'
  assume b: "stdout_background s w = Return s' w'"
  then obtain p where s: "s = Some p" by (cases s) (auto simp: stdout_background_def)
  obtain ok x y w1 where d: "DoRead w = Return (ok, x, y) w1"
    using b s by (cases "DoRead w") (auto simp: stdout_background_def process_reader_def)
  show "\<exists>new. os_in w' = os_in w @ new \<and> stdout_held s' = stdout_held s @ new"
    using b s d DoRead_in [OF d]
    by (auto simp: stdout_background_def process_reader_def stdout_held_def Queue_push_def Let_def split: if_splits)
qed

end
