(* ===== verification/Dap_Reader.thy ===== *)
theory Dap_Reader
  imports Dap_Session Dap_Process
begin

text \<open>
  The whole program as a step relation: the reader thread of \<^verbatim>\<open>StartReaderThread\<close>, which reads
  from the transport and posts to the main loop with \<^verbatim>\<open>CallAfter\<close>; the main loop, which runs what
  was posted, in order; the threads of the transport; and the application, which calls the API
  between two events.  \<open>sys_pieces\<close> records the arguments of \<^verbatim>\<open>OnDataRead\<close>.
\<close>

section \<open>The system\<close>

datatype posted = Post_OnDataRead string | Post_OnConnectionError

record ('c, 's) System =
  sys_client :: "'c Client_scheme"
  sys_transport :: 's
  sys_os :: os
  sys_posted :: "posted list"
  sys_pieces :: "string list"

text \<open>
  Receiving: a turn of the reader thread that reads something or times out, a turn of a thread
  of the transport, and the main loop running \<^verbatim>\<open>OnDataRead\<close>.  The loop of the reader thread runs
  while there is a thread and it has not broken out of the loop, which is \<^verbatim>\<open>IsConnected\<close>.
\<close>

inductive receive_step ::
  "'c App \<Rightarrow> ('s \<Rightarrow> os \<Rightarrow> (bool \<times> string \<times> 's) io) \<Rightarrow> ('s \<Rightarrow> os \<Rightarrow> 's io) \<Rightarrow> ('c, 's) System \<Rightarrow> ('c, 's) System \<Rightarrow> bool"
  for app :: "'c App" and read :: "'s \<Rightarrow> os \<Rightarrow> (bool \<times> string \<times> 's) io" and background :: "'s \<Rightarrow> os \<Rightarrow> 's io" where
  read_data: "IsConnected (sys_client s) \<Longrightarrow> read (sys_transport s) (sys_os s) = Return (True, buf, t) w \<Longrightarrow> buf \<noteq> [] \<Longrightarrow>
    receive_step app read background s
      (s \<lparr>sys_transport := t, sys_os := w, sys_posted := sys_posted s @ [Post_OnDataRead buf]\<rparr>)"
| read_idle: "IsConnected (sys_client s) \<Longrightarrow> read (sys_transport s) (sys_os s) = Return (True, [], t) w \<Longrightarrow>
    receive_step app read background s (s \<lparr>sys_transport := t, sys_os := w\<rparr>)"
| other_thread: "background (sys_transport s) (sys_os s) = Return t w \<Longrightarrow>
    receive_step app read background s (s \<lparr>sys_transport := t, sys_os := w\<rparr>)"
| run_data: "sys_posted s = Post_OnDataRead buf # ps \<Longrightarrow> OnDataRead app buf (sys_client s) = Done c \<Longrightarrow>
    receive_step app read background s
      (s \<lparr>sys_client := c, sys_posted := ps, sys_pieces := sys_pieces s @ [buf]\<rparr>)"

text \<open>The application calls the API; \<^verbatim>\<open>SetTransport\<close> is the step \<open>connect\<close> below.\<close>

inductive call_step :: "'c App \<Rightarrow> ('c, 's) System \<Rightarrow> ('c, 's) System \<Rightarrow> bool" for app :: "'c App" where
  call: "valid_api a \<Longrightarrow> (\<forall>t. a \<noteq> Api_SetTransport t) \<Longrightarrow> run_api app a (sys_client s) = Ok c \<Longrightarrow>
    call_step app s (s \<lparr>sys_client := c\<rparr>)"

text \<open>All steps: also the end of the reader thread, the error that it posted, and a new transport.\<close>

inductive sys_step ::
  "'c App \<Rightarrow> ('s \<Rightarrow> os \<Rightarrow> (bool \<times> string \<times> 's) io) \<Rightarrow> ('s \<Rightarrow> os \<Rightarrow> 's io) \<Rightarrow> ('c, 's) System \<Rightarrow> ('c, 's) System \<Rightarrow> bool"
  for app :: "'c App" and read :: "'s \<Rightarrow> os \<Rightarrow> (bool \<times> string \<times> 's) io" and background :: "'s \<Rightarrow> os \<Rightarrow> 's io" where
  receive: "receive_step app read background s s' \<Longrightarrow> sys_step app read background s s'"
| api: "call_step app s s' \<Longrightarrow> sys_step app read background s s'"
| read_lost: "IsConnected (sys_client s) \<Longrightarrow> read (sys_transport s) (sys_os s) = Return (False, buf, t) w \<Longrightarrow>
    sys_step app read background s
      (s \<lparr>sys_client := (sys_client s) \<lparr>m_terminated := True\<rparr>, sys_transport := t, sys_os := w,
          sys_posted := sys_posted s @ [Post_OnConnectionError]\<rparr>)"
| run_error: "sys_posted s = Post_OnConnectionError # ps \<Longrightarrow> OnConnectionError app (sys_client s) = Ok c \<Longrightarrow>
    sys_step app read background s (s \<lparr>sys_client := c, sys_posted := ps\<rparr>)"
| connect: "sys_step app read background s
      (s \<lparr>sys_client := SetTransport True (sys_client s), sys_transport := t, sys_os := w\<rparr>)"

section \<open>Safety of the whole system\<close>

text \<open>The pieces posted to the main loop and not yet handled.\<close>

fun posted_data :: "posted list \<Rightarrow> string list" where
  "posted_data [] = []"
| "posted_data (Post_OnDataRead b # ps) = b # posted_data ps"
| "posted_data (Post_OnConnectionError # ps) = posted_data ps"

lemma posted_data_append [simp]: "posted_data (ps @ qs) = posted_data ps @ posted_data qs"
  by (induction ps rule: posted_data.induct) simp_all

definition sys_inv :: "('c, 's) System \<Rightarrow> bool" where
  "sys_inv s \<longleftrightarrow> client_inv (sys_client s) \<and> [] \<notin> set (posted_data (sys_posted s)) \<and> [] \<notin> set (sys_pieces s)"

context debugger_app
begin

lemma receive_step_inv:
  assumes "receive_step app read background s s'" "sys_inv s" shows "sys_inv s'"
  using assms
proof (cases rule: receive_step.cases)
  case (run_data buf ps c)
  then show ?thesis using assms(2) OnDataRead_inv [of "sys_client s" buf c] by (auto simp: sys_inv_def)
qed (auto simp: sys_inv_def)

lemma call_step_inv: "call_step app s s' \<Longrightarrow> sys_inv s \<Longrightarrow> sys_inv s'"
  using run_api_sound [of "sys_client s"] by (auto simp: sys_inv_def sound_def elim!: call_step.cases) fastforce

lemma sys_step_inv:
  assumes "sys_step app read background s s'" "sys_inv s" shows "sys_inv s'"
  using assms
proof (cases rule: sys_step.cases)
  case (run_error ps c)
  then show ?thesis using assms(2) connection_error_sound [of 0 "sys_client s"] by (auto simp: sys_inv_def sound_def client_inv_def)
next
  case (connect t w)
  then show ?thesis using assms(2) run_api_sound [of "sys_client s" "Api_SetTransport True"] by (auto simp: sys_inv_def)
qed (auto simp: sys_inv_def client_inv_def dest: receive_step_inv call_step_inv)

lemma reachable_inv: "(sys_step app read background)\<^sup>*\<^sup>* s0 s \<Longrightarrow> sys_inv s0 \<Longrightarrow> sys_inv s"
  by (induction rule: rtranclp_induct) (auto intro: sys_step_inv)

text \<open>
  Progress: what is posted first can be run; only an undefined operation stops the main loop.
\<close>

lemma posted_runs:
  assumes "sys_inv s" "sys_posted s = p # ps"
  shows "(\<exists>s'. sys_step app read background s s' \<and> sys_posted s' = ps) \<or>
    (\<exists>buf u. p = Post_OnDataRead buf \<and> OnDataRead app buf (sys_client s) = Run_Undef u)"
proof (cases p)
  case (Post_OnDataRead buf)
  show ?thesis
  proof (cases "OnDataRead app buf (sys_client s)")
    case (Done c)
    then have "sys_step app read background s
        (s \<lparr>sys_client := c, sys_posted := ps, sys_pieces := sys_pieces s @ [buf]\<rparr>)"
      using assms(2) Post_OnDataRead by (auto intro: sys_step.receive receive_step.run_data)
    then show ?thesis by (intro disjI1 exI conjI) (assumption, simp)
  qed (use assms Post_OnDataRead OnDataRead_terminates [of "sys_client s" buf] in \<open>auto simp: sys_inv_def\<close>)
next
  case Post_OnConnectionError
  obtain c where "OnConnectionError app (sys_client s) = Ok c"
    using assms(1) connection_error_sound [of 0 "sys_client s"] by (auto simp: sys_inv_def sound_def client_inv_def)
  then have "sys_step app read background s (s \<lparr>sys_client := c, sys_posted := ps\<rparr>)"
    using assms(2) Post_OnConnectionError by (auto intro: sys_step.run_error)
  then show ?thesis by (intro disjI1 exI conjI) (assumption, simp)
qed

end

section \<open>No byte is lost or reordered on the way\<close>

text \<open>
  On one connection every byte that the system delivered was given to \<^verbatim>\<open>OnDataRead\<close>, is posted, or is
  still held by the transport, in this order.
\<close>

definition conserved :: "('s \<Rightarrow> string) \<Rightarrow> ('c, 's) System \<Rightarrow> bool" where
  "conserved held s \<longleftrightarrow>
     os_in (sys_os s) = concat (sys_pieces s) @ concat (posted_data (sys_posted s)) @ held (sys_transport s)"

context transport
begin

lemma receive_conserves:
  assumes "receive_step app read background s s'" "conserved held s" shows "conserved held s'"
  using assms
proof (cases rule: receive_step.cases)
  case (read_data buf t w)
  then obtain new where "os_in w = os_in (sys_os s) @ new" "held (sys_transport s) @ new = buf @ held t"
    using read_conserves by blast
  then show ?thesis using assms(2) read_data by (simp add: conserved_def)
next
  case (read_idle t w)
  then obtain new where "os_in w = os_in (sys_os s) @ new" "held (sys_transport s) @ new = held t"
    using read_conserves by force
  then show ?thesis using assms(2) read_idle by (simp add: conserved_def)
next
  case (other_thread t w)
  then obtain new where "os_in w = os_in (sys_os s) @ new" "held t = held (sys_transport s) @ new"
    using background_conserves by blast
  then show ?thesis using assms(2) other_thread by (simp add: conserved_def)
qed (auto simp: conserved_def)

lemma session_conserves:
  "(\<lambda>s s'. receive_step app read background s s' \<or> call_step app s s')\<^sup>*\<^sup>* s0 s \<Longrightarrow> conserved held s0 \<Longrightarrow> conserved held s"
proof (induction rule: rtranclp_induct)
  case (step s s')
  then show ?case by (auto simp: conserved_def dest: receive_conserves elim!: call_step.cases)
qed

end

text \<open>Without calls of the application, the client is in the state that the pieces lead to.\<close>

lemma on_data_append:
  "on_data app (ss @ ts) c = (case on_data app ss c of
     Done c' \<Rightarrow> on_data app ts c' | Run_Undef u \<Rightarrow> Run_Undef u | Out_Of_Fuel \<Rightarrow> Out_Of_Fuel)"
  by (induction ss arbitrary: c) (simp_all split: run.split)

lemma receive_on_data:
  "(receive_step app read background)\<^sup>*\<^sup>* s0 s \<Longrightarrow> sys_pieces s0 = [] \<Longrightarrow> on_data app (sys_pieces s) (sys_client s0) = Done (sys_client s)"
proof (induction rule: rtranclp_induct)
  case (step s s')
  from step.hyps(2) step.IH [OF step.prems] show ?case
    by (cases rule: receive_step.cases) (simp_all add: on_data_append)
qed simp

text \<open>From the bytes of the system to handled messages, for a peer that sends frames.\<close>

context transport
begin

lemma delivered_messages:
  assumes "(receive_step (unbound_app g) read background)\<^sup>*\<^sup>* s0 s"
    and "conserved held s0" "sys_inv s0" "sys_pieces s0 = []"
    and "\<not> m_wants_log_events (sys_client s0)" "m_rpc (sys_client s0) = []"
    and "\<forall>(p, j)\<in>set ms. carries p j" "prefix (os_in (sys_os s)) (stream ms)"
  shows "\<exists>done rest. ms = done @ rest \<and>
     os_in (sys_os s) = stream done @ m_rpc (sys_client s) @ concat (posted_data (sys_posted s)) @ held (sys_transport s) \<and>
     on_messages (unbound_app g) (map snd done) ((sys_client s0) \<lparr>m_rpc := m_rpc (sys_client s)\<rparr>) = Ok (sys_client s)"
proof -
  have r: "(\<lambda>s s'. receive_step (unbound_app g) read background s s' \<or> call_step (unbound_app g) s s')\<^sup>*\<^sup>* s0 s"
    using assms(1) by (rule rtranclp_mono [THEN predicate2D, rotated]) auto
  have k: "(sys_step (unbound_app g) read background)\<^sup>*\<^sup>* s0 s"
    using assms(1) by (rule rtranclp_mono [THEN predicate2D, rotated]) (auto intro: sys_step.receive)
  have c: "os_in (sys_os s) = concat (sys_pieces s) @ concat (posted_data (sys_posted s)) @ held (sys_transport s)"
    using session_conserves [OF r assms(2)] by (simp add: conserved_def)
  have n: "\<forall>p\<in>set (sys_pieces s). p \<noteq> []" using unbound.reachable_inv [OF k assms(3)] by (auto simp: sys_inv_def)
  have d: "on_data (unbound_app g) (sys_pieces s) (sys_client s0) = Done (sys_client s)"
    using receive_on_data [OF assms(1,4)] .
  have "prefix (m_rpc (sys_client s0) @ concat (sys_pieces s)) (stream ms)"
    using assms(6,8) c append_prefixD by fastforce
  moreover have "client_inv (sys_client s0)" using assms(3) by (simp add: sys_inv_def)
  moreover have "holds_next (m_rpc (sys_client s0)) ms" using assms(6) by (simp add: holds_next_def)
  ultimately show ?thesis
    using on_data_stream [OF assms(7) _ n _ assms(5), of g] d c assms(6) by fastforce
qed

end

section \<open>An error posted late\<close>

text \<open>
  \<^verbatim>\<open>OnConnectionError\<close> does not say which connection it is about: when it runs after the application
  has connected again, it takes the new connection down.
\<close>

lemma late_error_disconnects:
  assumes "sys_posted s = Post_OnConnectionError # ps"
  shows "\<exists>s1 s2. sys_step (unbound_app g) read background s s1 \<and> sys_step (unbound_app g) read background s1 s2 \<and>
     IsConnected (sys_client s1) \<and> sys_transport s1 = t \<and> sys_transport s2 = t \<and> sys_posted s2 = ps \<and>
     \<not> IsConnected (sys_client s2) \<and> \<not> m_transport (sys_client s2)"
proof -
  let ?s1 = "s \<lparr>sys_client := SetTransport True (sys_client s), sys_transport := t, sys_os := w\<rparr>"
  obtain c where c: "OnConnectionError (unbound_app g) (sys_client ?s1) = Ok (Reset c)"
    by (simp add: OnConnectionError_def fire_event_def unbound_app_def)
  have "sys_step (unbound_app g) read background s ?s1" by (rule sys_step.connect)
  moreover have "sys_step (unbound_app g) read background ?s1 (?s1 \<lparr>sys_client := Reset c, sys_posted := ps\<rparr>)"
    using assms c by (intro sys_step.run_error) simp_all
  moreover have "IsConnected (sys_client ?s1)"
    by (simp add: IsConnected_def SetTransport_new new_Client_def Client.defs)
  ultimately show ?thesis by (intro exI [of _ ?s1] exI conjI) (assumption | simp add: IsConnected_def)+
qed

end
