(* ===== verification/Dap_Server.thy ===== *)
theory Dap_Server
  imports Dap_Session Dap_Transport
begin

text \<open>
  \<^verbatim>\<open>ServerProtocol\<close> of \<^verbatim>\<open>dap/ServerProtocol.cpp\<close>, the other end of the connection: the loop that waits for
  \<^verbatim>\<open>initialize\<close> and answers it, the poll for further messages, and the relay of messages of the
  debugger.  The log is left out.
\<close>

section \<open>Sending\<close>

lemma io_bind_assoc: "io_bind (io_bind x f) g = io_bind x (\<lambda>y w. io_bind (f y w) g)"
  by (cases x) simp_all

definition server_Send :: "int \<Rightarrow> Message \<Rightarrow> os \<Rightarrow> unit io" where
  "server_Send sock msg w =
     (case Message_ToString msg of Ok payload \<Rightarrow> Socket_Send sock (frame payload) w | Undef u \<Rightarrow> Fault)"

definition ProcessGdbMessage :: "int \<Rightarrow> Message \<Rightarrow> os \<Rightarrow> unit io" where
  "ProcessGdbMessage sock message w = server_Send sock message w"

section \<open>Waiting for the client\<close>

definition is_initialize_request :: "Message option \<Rightarrow> bool" where
  "is_initialize_request request =
     (case request of
        Some (MRequest (MInitializeRequest r)) \<Rightarrow> ProtocolMessage_type r = ''request''
      | _ \<Rightarrow> False)"

definition init_response :: Message where
  "init_response = MResponse (MInitializeResponse new_InitializeResponse)"

definition init_event :: Message where
  "init_event = MEvent (MInitializedEvent new_InitializedEvent)"

text \<open>The callback of \<^verbatim>\<open>Initialize\<close>; its state is the flag \<^verbatim>\<open>kDone\<close> and the system.\<close>

definition init_act :: "int \<Rightarrow> Json \<Rightarrow> bool io \<Rightarrow> bool io" where
  "init_act sock json st =
     io_bind st (\<lambda>done w.
       if is_initialize_request (FromJSON registered json)
       then io_bind (server_Send sock init_response w) (\<lambda>_ w. io_bind (server_Send sock init_event w) (\<lambda>_ w. Return True w))
       else Return done w)"

definition init_callback :: "int \<Rightarrow> Json \<Rightarrow> string \<times> bool io \<Rightarrow> string \<times> bool io" where
  "init_callback sock json bs = (fst bs, init_act sock json (snd bs))"

text \<open>A turn of the loop: the buffer and the flag after it.\<close>

definition init_turn :: "int \<Rightarrow> string \<Rightarrow> os \<Rightarrow> (bool \<times> string) io" where
  "init_turn sock buffer w =
     io_bind (SelectReadMS sock 10 w) (\<lambda>k w.
       if k \<noteq> kSuccess then Return (False, buffer) w
       else io_bind (Socket_Read sock w) (\<lambda>(k, network_buffer) w.
              if k \<noteq> kSuccess then Return (False, buffer) w
              else let b = AppendBuffer network_buffer buffer
                   in case ProcessBuffer (process_fuel b) (init_callback sock) (b, Return False w) of
                        Done (b, st) \<Rightarrow> io_bind st (\<lambda>done w. Return (done, b) w)
                      | Run_Undef u \<Rightarrow> Fault
                      | Out_Of_Fuel \<Rightarrow> Blocked))"

text \<open>\<^verbatim>\<open>Initialize\<close>: the loop after at most \<open>n\<close> turns; \<open>Blocked\<close> when it is still waiting.\<close>

primrec server_Initialize :: "nat \<Rightarrow> int \<Rightarrow> string \<Rightarrow> os \<Rightarrow> string io" where
  "server_Initialize 0 sock buffer w = Blocked"
| "server_Initialize (Suc n) sock buffer w =
     io_bind (init_turn sock buffer w) (\<lambda>(done, buffer) w.
       if done then Return buffer w else server_Initialize n sock buffer w)"

section \<open>Further messages\<close>

text \<open>
  \<^verbatim>\<open>Check\<close>: \<open>handler\<close> is \<^verbatim>\<open>m_onNetworkMessage\<close>, \<open>None\<close> when it is not set; its own state is \<open>s\<close>.
\<close>

definition check_callback :: "(Message \<Rightarrow> 's \<Rightarrow> 's) \<Rightarrow> Json \<Rightarrow> string \<times> 's \<Rightarrow> string \<times> 's" where
  "check_callback h json bs =
     (case FromJSON registered json of None \<Rightarrow> bs | Some message \<Rightarrow> (fst bs, h message (snd bs)))"

definition server_Check :: "(Message \<Rightarrow> 's \<Rightarrow> 's) option \<Rightarrow> int \<Rightarrow> string \<Rightarrow> 's \<Rightarrow> os \<Rightarrow> (string \<times> 's) io" where
  "server_Check handler sock buffer s w =
     (case handler of
        None \<Rightarrow> Return (buffer, s) w
      | Some h \<Rightarrow>
         io_bind (io_bind (SelectReadMS sock 10 w) (\<lambda>k w.
             if k \<noteq> kSuccess then Return buffer w
             else io_bind (Socket_Read sock w) (\<lambda>(k, content) w.
                    Return (if k = kSuccess then AppendBuffer content buffer else buffer) w)))
           (\<lambda>b w. case ProcessBuffer (process_fuel b) (check_callback h) (b, s) of
                    Done bs \<Rightarrow> Return bs w | Run_Undef u \<Rightarrow> Fault | Out_Of_Fuel \<Rightarrow> Blocked))"

section \<open>The callbacks keep the contract of the framing\<close>

interpretation server: rpc_consumer "init_callback sock" "\<lambda>_. True" "init_act sock" for sock
  by unfold_locales (simp_all add: init_callback_def)

interpretation server_check: rpc_consumer "check_callback h" "\<lambda>_. True"
  "\<lambda>json s. case FromJSON registered json of None \<Rightarrow> s | Some m \<Rightarrow> h m s" for h :: "Message \<Rightarrow> 's \<Rightarrow> 's"
  by unfold_locales (auto simp: check_callback_def split: option.split)

section \<open>The server answers the handshake\<close>

text \<open>A socket on which a chunk of bytes has arrived.\<close>

definition arrives :: "string \<Rightarrow> sysret list" where
  "arrives chunk = [\<lparr>ret = 1, errno = 0, data = []\<rparr>, \<lparr>ret = int (length chunk), errno = 0, data = chunk\<rparr>]"

lemma init_turn_arrives:
  assumes "sock \<noteq> INVALID_SOCKET" "chunk \<noteq> []" "length chunk \<le> 16384"
  shows "init_turn sock b (w \<lparr>script := arrives chunk @ rs\<rparr>) =
     (case ProcessBuffer (process_fuel (b @ chunk)) (init_callback sock)
         (b @ chunk, Return False (w \<lparr>script := rs, os_in := os_in w @ chunk\<rparr>)) of
        Done (b, st) \<Rightarrow> io_bind st (\<lambda>done w. Return (done, b) w) | Run_Undef u \<Rightarrow> Fault | Out_Of_Fuel \<Rightarrow> Blocked)"
  using assms
  by (simp add: init_turn_def SelectReadMS_def SelectMS_def Socket_Read_def sys_call_def arrives_def Let_def AppendBuffer_def
      min_def)

lemma init_turn_partial:
  assumes "sock \<noteq> INVALID_SOCKET" "chunk \<noteq> []" "length chunk \<le> 16384" "carries p j"
    "strict_prefix (b @ chunk) (frame p)"
  shows "init_turn sock b (w \<lparr>script := arrives chunk @ rs\<rparr>) =
     Return (False, b @ chunk) (w \<lparr>script := rs, os_in := os_in w @ chunk\<rparr>)"
proof -
  have "DoProcessBuffer (b @ chunk) = Ok (None, b @ chunk)"
    using DoProcessBuffer_partial [of "b @ chunk" p] assms(4,5) by (simp add: carries_def)
  then show ?thesis unfolding init_turn_arrives [OF assms(1-3)] by (simp add: process_fuel_def IsOK_def)
qed

lemma init_turn_complete:
  assumes "sock \<noteq> INVALID_SOCKET" "chunk \<noteq> []" "length chunk \<le> 16384" "carries p j" "b @ chunk = frame p"
    "is_initialize_request (FromJSON registered j)"
  shows "init_turn sock b (w \<lparr>script := arrives chunk @ rs\<rparr>) =
     io_bind (server_Send sock init_response (w \<lparr>script := rs, os_in := os_in w @ chunk\<rparr>)) (\<lambda>_ w.
       io_bind (server_Send sock init_event w) (\<lambda>_ w. Return (True, []) w))"
proof -
  have m: "\<forall>(p, j)\<in>set [(p, j)]. carries p j" using assms(4) by simp
  have st: "stream [(p, j)] = frame p" by (simp add: stream_def)
  let ?s = "Return False (w \<lparr>script := rs, os_in := os_in w @ chunk\<rparr>)"
  have "receive_all_with (init_callback sock) [frame p] ([], ?s) = Done ([], fold (init_act sock) (map snd [(p, j)]) ?s)"
    by (rule server.receive_whole_stream [OF m]) (simp_all add: st)
  then have "ProcessBuffer (process_fuel (frame p)) (init_callback sock) (frame p, ?s) = Done ([], init_act sock j ?s)"
    by (auto simp: receive_with_def AppendBuffer_def Let_def split: run.splits)
  then show ?thesis
    unfolding init_turn_arrives [OF assms(1-3)] assms(5)
    using assms(6) by (cases "server_Send sock init_response (w \<lparr>script := rs, os_in := os_in w @ chunk\<rparr>)")
      (auto simp: init_act_def io_bind_assoc)
qed

text \<open>The loop returns once the request is there, whatever the pieces, and has written both answers.\<close>

lemma server_Initialize_returns:
  assumes "sock \<noteq> INVALID_SOCKET" "\<forall>c\<in>set chunks. c \<noteq> [] \<and> length c \<le> 16384" "carries p j" "chunks \<noteq> []"
    "b @ concat chunks = frame p" "is_initialize_request (FromJSON registered j)"
    "server_Send sock init_response (w \<lparr>script := rs, os_in := os_in w @ concat chunks\<rparr>) = Return () w1"
    "server_Send sock init_event w1 = Return () w2"
  shows "server_Initialize (length chunks) sock b (w \<lparr>script := concat (map arrives chunks) @ rs\<rparr>) = Return [] w2"
  using assms(2,4,5,7)
proof (induction chunks arbitrary: b w)
  case (Cons c chunks)
  show ?case
  proof (cases "chunks = []")
    case True
    then show ?thesis
      using init_turn_complete [OF assms(1) _ _ assms(3), where chunk = c and b = b and w = w and rs = rs] Cons.prems assms(6,8) by simp
  next
    case False
    let ?w = "w \<lparr>os_in := os_in w @ c\<rparr>"
    have c: "c \<noteq> []" "length c \<le> 16384" using Cons.prems(1) by simp_all
    obtain y ys where y: "concat chunks = y # ys" using False Cons.prems(1) by (cases chunks; cases "hd chunks") auto
    have "frame p = (b @ c) @ y # ys" using Cons.prems(3) y by simp
    then have "strict_prefix (b @ c) (frame p)" by (simp only: strict_prefix_def prefix_def) simp
    from init_turn_partial [OF assms(1) c assms(3) this, where w = w and rs = "concat (map arrives chunks) @ rs"]
    have t: "init_turn sock b (w \<lparr>script := arrives c @ concat (map arrives chunks) @ rs\<rparr>) =
        Return (False, b @ c) (?w \<lparr>script := concat (map arrives chunks) @ rs\<rparr>)" by simp
    have "?w \<lparr>script := rs, os_in := os_in ?w @ concat chunks\<rparr> = w \<lparr>script := rs, os_in := os_in w @ concat (c # chunks)\<rparr>"
      by simp
    then have "server_Initialize (length chunks) sock (b @ c) (?w \<lparr>script := concat (map arrives chunks) @ rs\<rparr>) = Return [] w2"
      using Cons.IH [of "b @ c" ?w] Cons.prems False by simp
    then show ?thesis using t by simp
  qed
qed simp

end
