(* ===== verification/Spec2Isabelle.thy ===== *)
theory Spec2Isabelle
  imports Dap_Handles Dap_HeapAdd Dap_Objects Dap_Log Dap_Child Dap_Msw Dap_SocketServer Dap_App Dap_Reader Dap_MainFrame Dap_Server
begin

text \<open>
  wxdap: a client library for the Debug Adapter Protocol, with a server side and a demo front end.

  \<^bold>\<open>The program.\<close>  A debugger front end makes a \<^verbatim>\<open>Client\<close> (\<^verbatim>\<open>src/dap/Client.cpp\<close>), gives it a transport, and
  calls its API; each call builds a message of the protocol (\<^verbatim>\<open>src/dap/dap.cpp\<close>), prints it as JSON
  (\<^verbatim>\<open>src/dap/JSON.cpp\<close> over \<^verbatim>\<open>src/dap/cJSON.cpp\<close>) and sends it as a frame with a header
  (\<^verbatim>\<open>src/dap/JsonRPC.cpp\<close>).  A reader thread reads bytes from the transport and posts them to the main loop,
  where the client appends them to its buffer, takes complete frames off, parses them, makes a message object
  of the right class and fires an event at the application.  The transport is a socket or the
  standard streams of a child process.  \<^verbatim>\<open>ServerProtocol.cpp\<close> is the other end.

  \<^bold>\<open>The theories\<close>, each over the ones before it.
  \<^item> \<open>Dap_Prelude\<close>: outcomes with undefined behaviour as a value, C strings, decimal numbers, \<^verbatim>\<open>int\<close> ranges, the
    collections of rules that the components fill.
  \<^item> \<open>Dap_Double\<close>: IEEE doubles as rationals with correct rounding, and what \<^verbatim>\<open>printf\<close> makes of them.
  \<^item> \<open>Dap_CJson\<close>, \<open>Dap_CJson_Parse\<close>, \<open>Dap_CJson_Print\<close>, \<open>Dap_CJson_Roundtrip\<close>, \<open>Dap_CJson_Edit\<close>: the functions of
    \<^verbatim>\<open>cJSON.cpp\<close>, on trees as values; what the parser ends with, what the printer writes into which buffer, the
    round trip, and the laws of look-up and edit.
  \<^item> \<open>Dap_Heap\<close>, \<open>Dap_HeapTree\<close>, \<open>Dap_Forest\<close>: the same trees in memory.  Nodes are blocks at addresses, linked by pointers;
    \<^verbatim>\<open>malloc\<close> and \<^verbatim>\<open>free\<close> are explicit, and each function is proved to do to the memory what its counterpart on values does to
    the tree.  A forest (\<open>mem_ok\<close>) is a memory that consists of disjoint trees and nothing else.
  \<^item> \<open>Dap_HeapParse\<close>: the parser as it builds its tree in that memory, with an allocator that may fail; the contracts of one
    element of a container (\<open>element\<close>) and of the recursive call (\<open>value_in_memory\<close>) against the parser on values.
  \<^item> \<open>Dap_HeapPrint\<close>: the printer on such a tree, with its temporary blocks, an allocator that may fail, and the contract of one element
    (\<open>printer\<close>) against the printer on values.  \<open>Dap_HeapAdd\<close>: what \<^verbatim>\<open>Json::Add\<close> leaves when allocations fail.
  \<^item> \<open>Dap_Json\<close>: the class \<^verbatim>\<open>Json\<close>; documents built by its methods (\<open>doc\<close>) and what survives printing and parsing
    (\<open>reparsed\<close>).
  \<^item> \<open>Dap_Handles\<close>: \<^verbatim>\<open>Json\<close> objects as handles with reference counts over that memory; programs over them (\<open>jop\<close>), the discipline
    that they follow (\<open>legal\<close>), and the invariant that counters, handles and trees agree (\<open>hinv\<close>).
  \<^item> \<open>Dap_StringUtils\<close>, \<open>Dap_JsonRPC\<close>: \<^verbatim>\<open>StringUtils.cpp\<close> and the framing; the locales \<open>rpc_callback\<close> and
    \<open>rpc_consumer\<close> are the contract between the message loop and its callback.
  \<^item> \<open>Dap_Messages\<close>, \<open>Dap_Data\<close>, \<open>Dap_Events\<close>, \<open>Dap_Requests\<close>, \<open>Dap_Responses\<close>, \<open>Dap_ObjGenerator\<close>: the classes of
    \<^verbatim>\<open>dap.hpp\<close> with \<^verbatim>\<open>To\<close> and \<^verbatim>\<open>From\<close>, a record per class that extends the record of its base class, and the
    generator that dispatches a received tree.  For each class: \<^verbatim>\<open>To\<close> builds a document, \<^verbatim>\<open>From\<close> keeps ints in
    range, and \<^verbatim>\<open>From\<close> after \<^verbatim>\<open>To\<close> is the identity on what its \<open>wire_\<close> predicate admits.
  \<^item> \<open>Dap_Objects\<close>: what the constructors of those classes register, and the equalities and hashes of breakpoints (the
    locale \<open>hashed\<close> is the contract of unordered containers).
  \<^item> \<open>Dap_Client\<close>, \<open>Dap_Session\<close>: the class \<^verbatim>\<open>Client\<close> as a record, \<open>trace\<close> being what it sent and posted; an operation
    per method.  The application is a parameter with the contract \<open>debugger_app\<close>: its handlers are
    defined on what the client fires and keep \<open>client_inv\<close>.  \<open>Dap_Session\<close> has the API as a
    datatype and the refinement by queues.
  \<^item> \<open>Dap_Transport\<close>, \<open>Dap_Process\<close>: connection strings, sockets, the child process, both transports and their common
    contract, the locale \<open>transport\<close>.  The system is a script of answers, which are arbitrary.
  \<^item> \<open>Dap_SocketServer\<close>: the listening socket, and the operations of sockets and connection strings that only a server uses.
  \<^item> \<open>Dap_Child\<close>: the descriptors of parent and child around \<^verbatim>\<open>fork\<close>; the child, the threads of \<^verbatim>\<open>Process.cpp\<close> and the
    destructor as a step relation.  \<open>Dap_Msw\<close>: the process on Windows (\<^verbatim>\<open>msw.cpp\<close>).  \<open>Dap_Log\<close>: \<^verbatim>\<open>Log.cpp\<close>.
  \<^item> \<open>Dap_Reader\<close>: reader thread, main loop, transport threads and application as a step relation.
  \<^item> \<open>Dap_MainFrame\<close>: the front end of \<^verbatim>\<open>src/dbgcli/MainFrame.cpp\<close>, an interpretation of \<open>debugger_app\<close>.  \<open>Dap_App\<close>:
    the event objects of \<^verbatim>\<open>DAPEvent.cpp\<close>, the command line, and the paths that the frame opens and closes with.
  \<^item> \<open>Dap_Server\<close>: \<^verbatim>\<open>ServerProtocol.cpp\<close>, an interpretation of \<open>rpc_consumer\<close>.

  \<^bold>\<open>What is shown\<close>, in this theory.  Delivery: what one side sends the other receives, through JSON, the
  framing, any cutting by the transport, the reader thread and the main loop.  Safety: the invariant
  of the client under every API call, every received byte and every interleaving.  The session: how requests,
  answers, queues and the handshake correspond, between client and server as well.
  Types: the object of an event has the class of its type.  Transports: sends are exact and return, connecting leaks
  nothing.  Parser and printer: termination, buffers, round trips.  Memory: handles never dangle and leave nothing
  behind, and the pointer code, parser and printer included, refines the functions on trees, also when allocations fail.  Processes: descriptors, and the end of the destructor.
  Errors: the inputs on which the code fails, as theorems.

  \<^bold>\<open>Bounds and fuel.\<close>  \<open>parse_value\<close> has the length of the input plus one as its fuel and is proved never to run out
  (\<open>parser_terminates\<close>); \<open>ProcessBuffer\<close> has one more than the length of the buffer, each
  turn takes a frame off, and \<open>receive_keeps_invariant\<close> shows that it suffices.  The loops over system calls
  recurse on the script: a script that ends is a system that has not answered (\<open>Blocked\<close>).
  \<open>server_Initialize\<close> counts turns.  The printer in memory has the number of blocks of the tree as its fuel.
  Lengths are below $10^{18}$ where they are written in a header.

  \<^bold>\<open>Undefined behaviour\<close> is a value: \<open>Undef\<close>, \<open>PUndef\<close>, \<open>Run_Undef\<close> and \<open>Fault\<close> stand for writes and reads out of
  bounds, the use of uninitialised variables and signed overflow.

  \<^bold>\<open>Not modelled\<close>, and why.  Failed allocation outside the parser, the printer and the addition of a string.  The encodings
  behind \<^verbatim>\<open>wxString\<close>: strings are strings of bytes, so what conversions do to bytes above 127 is not covered.  The
  Windows variants of the sockets and of the console; \<^verbatim>\<open>execvp\<close> itself; data races between \<^verbatim>\<open>Read\<close> and \<^verbatim>\<open>Send\<close> of one
  transport: a step runs to its end.  Of the front end, fonts and dialogs, the generated windows, and
  the main loop of wxWidgets.  The client reads with the pools after \<^verbatim>\<open>dap::Initialize\<close>; \<open>Dap_Objects\<close> says what later constructors add.
\<close>

section \<open>Messages on the wire\<close>

definition wire_text :: "Message \<Rightarrow> string" where
  "wire_text m = (case Message_ToString m of Ok s \<Rightarrow> s | Undef u \<Rightarrow> [])"

lemma wire_ok_carries:
  assumes "wire_ok m" "length (wire_text m) < 10 ^ 18"
  shows "carries (wire_text m) (reparsed (Message_To m))" "Message_ToString m = Ok (wire_text m)"
proof -
  obtain s where s: "Json_ToString False (Message_To m) = Ok s" "s \<noteq> []" "Json_Parse s = Ok (reparsed (Message_To m))"
    using Parse_ToString [OF wire_ok_doc [OF assms(1)], of "[]" False] by auto
  then have w: "wire_text m = s" by (simp add: wire_text_def Message_ToString_def)
  show "Message_ToString m = Ok (wire_text m)" using s w by (simp add: Message_ToString_def)
  have "IsOK (Message_To m)" by (cases m) simp_all
  then show "carries (wire_text m) (reparsed (Message_To m))" using s w assms(2) by (simp add: carries_def)
qed

text \<open>
  C1.  Delivery of messages: when the sender frames the texts of any messages whose classes are
  registered and whose members survive JSON, and the transport delivers the bytes cut into
  pieces in any way, the receiver's loop ends with an empty buffer and has handed over, in
  order, exactly one tree per message, from which \<^verbatim>\<open>ObjGenerator::FromJSON\<close> rebuilds the
  message with its class and all its members.
\<close>

theorem message_delivery:
  assumes "\<forall>m\<in>set ms. wire_ok m \<and> length (wire_text m) < 10 ^ 18"
    and "concat chunks = concat (map (\<lambda>m. frame (wire_text m)) ms)"
  shows "\<exists>js. receive_all chunks ([], []) = Done ([], js) \<and> map (FromJSON registered) js = map Some ms"
proof -
  let ?ms = "map (\<lambda>m. (wire_text m, reparsed (Message_To m))) ms"
  have st: "concat chunks = stream ?ms" using assms(2) by (simp add: stream_def comp_def)
  have c: "\<forall>(p, j)\<in>set ?ms. carries p j" using assms(1) wire_ok_carries(1) by auto
  have "receive_all chunks ([], []) = Done ([], map snd ?ms)"
    using receive_all_whole [OF c st] by simp
  moreover have "map (FromJSON registered) (map snd ?ms) = map Some ms"
    using assms(1) by (simp add: wire_ok_FromJSON)
  ultimately show ?thesis by blast
qed

text \<open>A request and an event as the library makes them.\<close>

lemma wire_ok_examples:
  "wire_ok (MRequest (MThreadsRequest (new_ThreadsRequest \<lparr>ProtocolMessage_seq := 7\<rparr>)))"
  "wire_ok (MEvent (MInitializedEvent new_InitializedEvent))"
  by (simp_all add: wire_ThreadsRequest_def ints_ThreadsRequest_def new_ThreadsRequest_def
      wire_InitializedEvent_def ints_InitializedEvent_def new_InitializedEvent_def
      msg_defs Request.defs Event.defs is_int32_def int_limits NUL_def)

lemma initialized_event_tree:
  "InitializedEvent_To new_InitializedEvent =
     Some (node_of 0 None (JObj [(''seq'', JNum (- 1)), (''type'', JStr ''event''), (''event'', JStr ''initialized'')]))"
  by (simp add: InitializedEvent_To_def new_InitializedEvent_def msg_defs Let_def Json_CreateObject_def json_build_defs
      create_defs cjson_types IsObject_def IsArray_def has_type_def c_str_Cons NUL_def)

lemma show_int_minus_1: "show_int (- 1) = ''-1''"
  using char_of_char [of "CHR ''1''", where 'a = nat]
  by (simp add: show_int_def show_nat.simps digit_char_def del: char_of_char)

lemma wire_text_example:
  "wire_text (MEvent (MInitializedEvent new_InitializedEvent)) =
     ''{'' @ quote ''seq'' @ '':-1,'' @ quote ''type'' @ '':'' @ quote ''event'' @ '','' @ quote ''event'' @ '':'' @
     quote ''initialized'' @ ''}''"
  by (simp add: wire_text_def Message_ToString_def initialized_event_tree Json_ToString_def cJSON_PrintUnformatted_def
      print_node_of object_text_def indent_def show_int_minus_1 is_int32_def int_limits NUL_def del: node_of.simps)

theorem message_delivery_witness:
  "\<exists>js. receive_all [frame (wire_text (MEvent (MInitializedEvent new_InitializedEvent)))] ([], []) = Done ([], js) \<and>
     map (FromJSON registered) js = map Some [MEvent (MInitializedEvent new_InitializedEvent)]"
  by (rule message_delivery) (simp_all add: wire_ok_examples wire_text_example quote_def esc_char_def del: wire_ok.simps)

text \<open>
  C12.  Reassembly of the byte stream: when the transport delivers any prefix of a stream of
  frames, cut into pieces in any way, \<^verbatim>\<open>AppendBuffer\<close> and \<^verbatim>\<open>ProcessBuffer\<close> after every piece
  hand exactly the messages whose frames are complete to the callback, once each and in order,
  and keep the bytes of the next frame in the buffer; the loop always ends.
\<close>

theorem stream_reassembly:
  assumes "\<forall>(p, j)\<in>set ms. carries p j" "prefix (concat chunks) (stream ms)"
  shows "\<exists>received pending rest. ms = received @ pending \<and> concat chunks = stream received @ rest \<and>
           (rest = [] \<or> pending \<noteq> [] \<and> strict_prefix rest (frame (fst (hd pending)))) \<and>
           receive_all chunks ([], []) = Done (rest, map snd received)"
  using receive_all_stream [OF assms(1), of "[]" chunks "[]"] assms(2) by auto

lemma carries_null: "carries ''null'' (Some cJSON_CreateNull)"
  by (simp add: carries_def Json_Parse_def cJSON_Parse_def IsOK_def skip_def is_ws_def parse_fuel_def NUL_def)

theorem stream_reassembly_witness:
  "\<exists>received pending rest. [(''null'', Some cJSON_CreateNull)] = received @ pending \<and>
     concat [''Cont'', ''ent-''] = stream received @ rest \<and>
     (rest = [] \<or> pending \<noteq> [] \<and> strict_prefix rest (frame (fst (hd pending)))) \<and>
     receive_all [''Cont'', ''ent-''] ([], []) = Done (rest, map snd received)"
  by (rule stream_reassembly) (simp_all add: carries_null stream_def frame_def)

section \<open>The JSON library\<close>

text \<open>
  C6.  Round trip of documents: for every document whose integers fit \<^verbatim>\<open>int\<close> and whose strings
  hold no NUL, the printer is defined in both formats, and the parser reads its text back to
  the same tree (\<^verbatim>\<open>true\<close> gets \<^verbatim>\<open>valueint\<close> 1), leaving whatever text follows.
\<close>

theorem json_roundtrip:
  assumes "wf_json j" "stops r" "no_nul r"
  shows "\<exists>s. (if fmt then cJSON_Print else cJSON_PrintUnformatted) (node_of 0 None j) = Ok (Some s) \<and>
           cJSON_Parse (s @ r) = Parsed (node_of 1 None j) r"
  using assms print_node_of [OF assms(1), of 0 None 0 fmt] cJSON_Parse_text [OF assms, of fmt 0]
  by (cases fmt) (auto simp: cJSON_Print_def cJSON_PrintUnformatted_def)

definition sample_json :: json where
  "sample_json = JObj [(''a'', JArr [JNum (-3), JBool True, JNull]), ([CHR 0x22], JStr [CHR 0x0A, CHR 0x01, CHR 0x5C])]"

theorem json_roundtrip_witness:
  "\<exists>s. (if True then cJSON_Print else cJSON_PrintUnformatted) (node_of 0 None sample_json) = Ok (Some s) \<and>
     cJSON_Parse (s @ '', x'') = Parsed (node_of 1 None sample_json) '', x''"
  by (rule json_roundtrip) (simp_all add: sample_json_def NUL_def is_int32_def int_limits)

text \<open>
  C19.  Termination of the parser: on every input the recursion of \<^verbatim>\<open>parse_value\<close> ends (the fuel that
  the model takes from the length of the input is never used up), and more fuel gives the same
  result.
\<close>

theorem parser_terminates:
  "cJSON_Parse s \<noteq> No_Fuel \<and> cJSON_Parse s = parse_value (parse_fuel (skip (c_str s)) + n) (skip (c_str s))"
proof -
  let ?t = "skip (c_str s)"
  have l: "length ?t < parse_fuel ?t" "length ?t < parse_fuel ?t + n" by (simp_all add: parse_fuel_def)
  show ?thesis
    using parse_value_total [OF l(1)] parse_value_fuel_irrelevant [OF l] unfolding cJSON_Parse_def Let_def by blast
qed

text \<open>
  Buffer sizes of the printer: for every tree, of whatever shape, depth and names, whose
  numbers fit the fixed buffers of \<^verbatim>\<open>print_number\<close>, the sizes that \<^verbatim>\<open>print_string_ptr\<close>,
  \<^verbatim>\<open>print_array\<close> and \<^verbatim>\<open>print_object\<close> compute are large enough: nothing is written past the end.
\<close>

lemma printer_stays_in_buffers:
  assumes "numbers_fit item" shows "defined (print_value item depth fmt)"
  using assms by (rule print_value_defined)






text \<open>
  The member functions on objects and arrays: a look-up after \<^verbatim>\<open>cJSON_AddItemToObject\<close> finds the
  oldest entry of that name, ignoring case, and the new one only when there was none;
  \<^verbatim>\<open>cJSON_ReplaceItemInObject\<close> makes the look-up find the new item; \<^verbatim>\<open>cJSON_DetachItemFromObject\<close>
  answers what the look-up finds and takes exactly one child out.
\<close>

lemma object_edit_laws:
  "cJSON_GetObjectItem (cJSON_AddItemToObject s (Some x) obj) t =
     (case cJSON_GetObjectItem obj t of Some c \<Rightarrow> Some c
      | None \<Rightarrow> if map tolower (c_str s) = map tolower (c_str t) then Some (set_name (Some (c_str s)) x) else None) \<and>
   (case cJSON_GetObjectItem obj s of
      None \<Rightarrow> cJSON_ReplaceItemInObject s x obj = obj \<and> cJSON_DetachItemFromObject s obj = (None, obj)
    | Some c \<Rightarrow>
        cJSON_GetObjectItem (cJSON_ReplaceItemInObject s x obj) s = Some (set_name (Some (c_str s)) x) \<and>
        fst (cJSON_DetachItemFromObject s obj) = Some c \<and>
        Suc (length (children (snd (cJSON_DetachItemFromObject s obj)))) = length (children obj))"
  using ReplaceItemInObject_lookup [of obj s] index_of_name_less [of obj s] DetachItemFromObject_fst [of s obj]
  by (auto simp: AddItemToObject_lookup cJSON_ReplaceItemInObject_def cJSON_DetachItemFromObject_def
      DetachItemFromArray_spec split: option.split)

section \<open>The client\<close>

text \<open>A client on a new connection, with nothing bound to it.\<close>

definition fresh_client :: Client where
  "fresh_client = SetTransport True new_Client"

lemma fresh_client_facts:
  "client_inv fresh_client" "m_transport fresh_client" "trace fresh_client = []" "m_requestSeuqnce fresh_client = 0"
  "\<not> m_wants_log_events fresh_client" "m_handshake_state fresh_client = kNotPerformed" "m_features fresh_client = 0"
  "m_in_flight_requests fresh_client = Map.empty" "m_rpc fresh_client = []"
  by (simp_all add: fresh_client_def SetTransport_new new_Client_def Client.defs client_inv_def client_inv_at_def)

text \<open>
  C5.  The API keeps the invariant: with any application that keeps the contract
  \<open>debugger_app\<close>, every sequence of API calls, connected or not, is defined, ends in the
  invariant and only adds to what was sent and posted.
\<close>

theorem api_keeps_invariant:
  assumes "debugger_app app" "client_inv c" "list_all valid_api as"
  shows "\<exists>c'. run_apis app as c = Ok c' \<and> client_inv c' \<and> prefix (trace c) (trace c')"
  using run_apis_sound [OF assms] by (auto simp: sound_def follows_def)

theorem api_keeps_invariant_witness:
  "\<exists>c'. run_apis (unbound_app id) [Api_Initialize None, Api_Launch [''a.out''] [] new_Environment, Api_Next (-1) False LINE]
     fresh_client = Ok c' \<and> client_inv c' \<and> prefix (trace fresh_client) (trace c')"
  by (rule api_keeps_invariant) (simp_all add: unbound.debugger_app_axioms fresh_client_facts is_int32_def int_limits)

text \<open>
  C13.  Whatever bytes arrive, in whatever pieces: the loops of \<^verbatim>\<open>OnDataRead\<close> end, and if no undefined
  operation was reached the client is in its invariant.
\<close>

theorem receive_keeps_invariant:
  assumes "debugger_app app" "client_inv c"
  shows "case on_data app ss c of Done c' \<Rightarrow> client_inv c' | Run_Undef u \<Rightarrow> True | Out_Of_Fuel \<Rightarrow> False"
  using on_data_total [OF assms, of ss] by (auto split: run.split)

theorem receive_keeps_invariant_witness:
  "case on_data (unbound_app id) [''Content-Length: 3'', ''garbage''] fresh_client of
     Done c' \<Rightarrow> client_inv c' | Run_Undef u \<Rightarrow> True | Out_Of_Fuel \<Rightarrow> False"
  by (rule receive_keeps_invariant) (simp_all add: unbound.debugger_app_axioms fresh_client_facts)

text \<open>
  C15.  A request on a connection: \<^verbatim>\<open>MakeRequest\<close> and \<^verbatim>\<open>SendRequest\<close> write exactly one frame with the
  text of the request and file the request under its number, which no other request in flight
  has (as long as the actions so far fit an \<^verbatim>\<open>int\<close>).
\<close>

theorem request_is_filed:
  assumes "debugger_app app" "client_inv c" "m_transport c" "int (length (trace c)) < INT_MAX"
    and "ints_RequestMsg r" "ProtocolMessage_seq (as_Request r) = seq_of (m_requestSeuqnce c + 1)"
  shows "\<exists>p ss c'. SendRequest app r (c \<lparr>m_requestSeuqnce := m_requestSeuqnce c + 1\<rparr>) = Ok (True, c') \<and>
     Message_ToString (MRequest r) = Ok p \<and> trace c' = trace c @ Sent (frame p) # logs ss \<and>
     m_in_flight_requests c (ProtocolMessage_seq (as_Request r)) = None \<and>
     m_in_flight_requests c' = (m_in_flight_requests c)(ProtocolMessage_seq (as_Request r) \<mapsto> r)"
proof -
  let ?c = "c \<lparr>m_requestSeuqnce := m_requestSeuqnce c + 1\<rparr>"
  have r: "ready r ?c" using assms(5,6) by (intro request_ready [OF assms(2) inv_next [OF assms(2)]]) simp_all
  obtain p c' where "SendRequest app r ?c = Ok (True, c')" "sent r p ?c c'"
    using debugger_app.SendRequest_sent [OF assms(1) r] assms(3) by auto
  then show ?thesis using ready_fresh(3) [OF r] assms(4) by (auto simp: sent_def)
qed

theorem request_is_filed_witness:
  "\<exists>p ss c'. SendRequest (unbound_app id) (MThreadsRequest (new_ThreadsRequest \<lparr>ProtocolMessage_seq := 1\<rparr>))
       (fresh_client \<lparr>m_requestSeuqnce := m_requestSeuqnce fresh_client + 1\<rparr>) = Ok (True, c') \<and>
     Message_ToString (MRequest (MThreadsRequest (new_ThreadsRequest \<lparr>ProtocolMessage_seq := 1\<rparr>))) = Ok p \<and>
     trace c' = trace fresh_client @ Sent (frame p) # logs ss \<and>
     m_in_flight_requests fresh_client
       (ProtocolMessage_seq (as_Request (MThreadsRequest (new_ThreadsRequest \<lparr>ProtocolMessage_seq := 1\<rparr>)))) = None \<and>
     m_in_flight_requests c' = (m_in_flight_requests fresh_client)
       (ProtocolMessage_seq (as_Request (MThreadsRequest (new_ThreadsRequest \<lparr>ProtocolMessage_seq := 1\<rparr>))) \<mapsto>
        MThreadsRequest (new_ThreadsRequest \<lparr>ProtocolMessage_seq := 1\<rparr>))"
  by (rule request_is_filed)
    (simp_all add: unbound.debugger_app_axioms fresh_client_facts seq_of_small int_limits ints_ThreadsRequest_def is_int32_def
      Request.defs msg_defs)

text \<open>
  C16.  An answer reaches the application with its request: a response to one of the
  \<open>answered_commands\<close> fires one event, whose object is a response of that command read from
  the message and whose request is the one filed under \<^verbatim>\<open>request_seq\<close>, which is then forgotten.
\<close>

theorem answer_names_its_request:
  assumes "m_handshake_state c = kCompleted" "\<not> m_wants_log_events c"
    and "is_answer cmd j" "cmd \<in> set answered_commands" "k = GetInteger (Json_at j ''request_seq'') (-1)"
  shows "\<exists>t response c1. Response_name response = cmd \<and> m_in_flight_requests c1 = m_in_flight_requests c \<and>
     OnMessage app j c = fire_event app
       \<lparr>event_type = t, event_object = Some (MResponse (ResponseMsg_From j response)), event_string = [],
        event_request = m_in_flight_requests c k\<rparr>
       (c1 \<lparr>m_in_flight_requests := (m_in_flight_requests c)(k := None)\<rparr>)"
proof -
  have m: "OnMessage app j c = OnResponse app (response_of j) j c"
    using assms(1-3) answered_responses_registered [OF assms(4)] by (rule OnMessage_response)
  have "Response_command (response_of j) \<in> set answered_commands" using assms(3,4) by (simp add: is_answer_def)
  from OnResponse_answers [OF this, of app j c] obtain t response c1 where
    "OnResponse app (response_of j) j c = fire_event app (answer_event t response j (m_in_flight_requests c k)) (forget k c1)"
    "Response_name response = cmd" "m_in_flight_requests c1 = m_in_flight_requests c"
    using assms(3,5) by (auto simp: is_answer_def)
  then show ?thesis unfolding m answer_event_def forget_def by metis
qed

definition threads_answer :: Json where
  "threads_answer = Json_Add_int ''request_seq'' 1 (Json_Add_string ''command'' ''threads'' (Json_Add_string ''type'' ''response''
     Json_CreateObject))"

lemma threads_answer_reads:
  "is_answer ''threads'' threads_answer" "GetInteger (Json_at threads_answer ''request_seq'') (-1) = 1"
  by (simp_all add: is_answer_def threads_answer_def json_simps GetInteger_def GetString_def cJSON_CreateNumber_def
      cJSON_CreateString_def set_name_def i2d_def rtrunc_def is_int32_def int_limits c_str_Cons NUL_def cjson_types)

theorem answer_names_its_request_witness:
  "\<exists>t response c1. Response_name response = ''threads'' \<and> m_in_flight_requests c1 = Map.empty \<and>
     OnMessage (unbound_app id) threads_answer (fresh_client \<lparr>m_handshake_state := kCompleted\<rparr>) = fire_event (unbound_app id)
       \<lparr>event_type = t, event_object = Some (MResponse (ResponseMsg_From threads_answer response)), event_string = [],
        event_request = None\<rparr> (c1 \<lparr>m_in_flight_requests := Map.empty\<rparr>)"
  using answer_names_its_request [of "fresh_client \<lparr>m_handshake_state := kCompleted\<rparr>" "''threads''" threads_answer 1 "unbound_app id"]
    threads_answer_reads by (simp add: fresh_client_facts answered_commands_def)

text \<open>
  An application that checks every event it gets: a handler that casts the object of an event to the class that the
  type of the event promises (\<open>event_of\<close>) would read memory of another class if the object were not of that class.
\<close>

definition classed :: "DAPEvent \<Rightarrow> bool" where
  "classed e \<longleftrightarrow> event_type e \<in> {wxEVT_DAP_LOG_EVENT, wxEVT_DAP_LOST_CONNECTION} \<or>
     (\<exists>m. event_object e = Some m \<and> event_of m = Some (event_type e))"

definition casting_app :: "'c App \<Rightarrow> 'c App" where
  "casting_app app = app \<lparr>on_event := \<lambda>e c. if classed e then on_event app e c else Undef Over_Read\<rparr>"

lemma casting_app_contract: "debugger_app app \<Longrightarrow> debugger_app (casting_app app)"
proof (unfold_locales)
  assume a: "debugger_app app"
  have i: "ints_event e \<Longrightarrow> classed e" for e by (auto simp: ints_event_def classed_def split: option.splits)
  show "sound c (on_event (casting_app app) e c)" if "client_inv c" "ints_event e" for c e
    using debugger_app.event_sound [OF a that] i [OF that(2)] by (simp add: casting_app_def)
  show "sound c (on_source (casting_app app) k b s t c)" if "client_inv c" for c k b s t
    using debugger_app.source_sound [OF a that] by (simp add: casting_app_def)
  show "sound c (on_evaluate (casting_app app) k b s t v c)" if "client_inv c" "is_int32 v" for c k b s t v
    using debugger_app.evaluate_sound [OF a that] by (simp add: casting_app_def)
  show "\<exists>c'. on_event (casting_app app) e c = Ok c' \<and> Client.truncate c' = Client.truncate c"
    if "event_type e = wxEVT_DAP_LOG_EVENT" for e c
    using debugger_app.log_quiet [OF a that] that by (simp add: casting_app_def classed_def)
qed

text \<open>
  C17.  Events carry objects of their class: a message that the client handles, and every sequence of calls of its
  API, fires only events whose object has the class that the type of the event stands for, so the casts of the handlers are right: an
  application that would read foreign memory on any other event is served without a fault.
\<close>

theorem events_have_their_class:
  assumes "debugger_app app" "client_inv c"
  shows "(ints_json json \<longrightarrow> (m_wants_log_events c \<longrightarrow> defined (Json_ToString False json)) \<longrightarrow>
       (\<exists>c'. OnMessage (casting_app app) json c = Ok c' \<and> client_inv c')) \<and>
     (list_all valid_api as \<longrightarrow> (\<exists>c'. run_apis (casting_app app) as c = Ok c' \<and> client_inv c'))"
  using debugger_app.OnMessage_sound [OF casting_app_contract [OF assms(1)] assms(2)]
    run_apis_sound [OF casting_app_contract [OF assms(1)] assms(2)]
  by (auto simp: sound_def)

theorem events_have_their_class_witness:
  "(\<exists>c'. OnMessage (casting_app (unbound_app id)) threads_answer (fresh_client \<lparr>m_handshake_state := kCompleted\<rparr>) = Ok c' \<and> client_inv c') \<and>
   (\<exists>c'. run_apis (casting_app (unbound_app id)) [Api_Next (-1) False LINE] (fresh_client \<lparr>m_handshake_state := kCompleted\<rparr>) = Ok c' \<and> client_inv c')"
proof -
  let ?c = "fresh_client \<lparr>m_handshake_state := kCompleted\<rparr>"
  have "client_inv ?c" "\<not> m_wants_log_events ?c"
    by (simp_all add: fresh_client_def SetTransport_new new_Client_def Client.defs client_inv_def client_inv_at_def)
  moreover have "ints_json threads_answer" by code_simp
  ultimately show ?thesis
    using events_have_their_class [of "unbound_app id" ?c threads_answer "[Api_Next (-1) False LINE]"]
    by (simp add: unbound.debugger_app_axioms is_int32_def int_limits)
qed

text \<open>
  C18.  The handshake: until it is completed the client ignores every message but a response to
  \<^verbatim>\<open>initialize\<close>; that one completes it, fires one event and turns on exactly the features whose
  flag the body has.
\<close>

theorem handshake:
  assumes "m_handshake_state c \<noteq> kCompleted" "\<not> m_wants_log_events c" "m_features c = 0"
  shows "if is_answer ''initialize'' j
     then \<exists>c1 e. OnMessage app j c = fire_event app e c1 \<and> event_type e = wxEVT_DAP_INITIALIZE_RESPONSE \<and>
            m_handshake_state c1 = kCompleted \<and>
            (\<forall>i. IsSupported i c1 = (i < 22 \<and> GetBool (Json_at (Json_at j ''body'') (feature_names ! i)) False))
     else OnMessage app j c = Ok c"
proof -
  have f: "IsSupported i (initialized j c) = (i < 22 \<and> GetBool (Json_at (Json_at j ''body'') (feature_names ! i)) False)" for i
    using assms(3) by (auto simp: IsSupported_bit initialized_def bit_ENABLE_all)
  let ?e = "\<lparr>event_type = wxEVT_DAP_INITIALIZE_RESPONSE,
    event_object = Some (Message_From j (MResponse (MInitializeResponse new_InitializeResponse))),
    event_string = [], event_request = None\<rparr>"
  have "m_handshake_state (initialized j c) = kCompleted" by (simp add: initialized_def)
  moreover have "OnMessage app j c = (if is_answer ''initialize'' j then fire_event app ?e (initialized j c) else Ok c)"
    unfolding OnMessage_handshake [OF assms(1,2)] is_answer_def by (simp add: SendDAPEvent_def)
  ultimately show ?thesis using f
    by (cases "is_answer ''initialize'' j") (simp_all, intro exI [of _ "initialized j c"] exI [of _ ?e] conjI, simp_all)
qed

definition initialize_answer :: Json where
  "initialize_answer = Json_AddObject ''body'' (Json_Add_bool ''supportsStepBack'' True Json_CreateObject)
     (Json_Add_string ''command'' ''initialize'' (Json_Add_string ''type'' ''response'' Json_CreateObject))"

lemma initialize_answer_reads:
  "is_answer ''initialize'' initialize_answer"
  "GetBool (Json_at (Json_at initialize_answer ''body'') (feature_names ! 5)) False"
  by (simp_all add: is_answer_def initialize_answer_def json_simps GetBool_def GetString_def cJSON_CreateBool_def feature_names_def
      cJSON_CreateString_def set_name_def c_str_Cons NUL_def cjson_types create_defs)

theorem handshake_witness:
  "\<exists>c1 e. OnMessage (unbound_app id) initialize_answer fresh_client = fire_event (unbound_app id) e c1 \<and>
     event_type e = wxEVT_DAP_INITIALIZE_RESPONSE \<and> m_handshake_state c1 = kCompleted \<and> IsSupported 5 c1"
  using handshake [of fresh_client initialize_answer "unbound_app id"] initialize_answer_reads
  by (fastforce simp: fresh_client_facts)

text \<open>
  C11.  Answers are matched with calls in order: seen through its four queues, a session of calls of
  \<^verbatim>\<open>GetFrames\<close>, \<^verbatim>\<open>GetScopes\<close>, \<^verbatim>\<open>GetChildrenVariables\<close> and \<^verbatim>\<open>SetBreakpointsFile\<close> and of answers to them, in any
  interleaving, behaves as one queue per command: an answer is reported for the oldest open call.
\<close>

theorem queues_refinement:
  assumes "in_session c" "possible_run xs (queues c)"
  shows "\<exists>c'. client_steps (unbound_app g) xs c = Ok c' \<and> in_session c' \<and> queues c' = fold queue_step xs (queues c)"
  using assms by (rule queues_refined)

definition session_client :: Client where
  "session_client = fresh_client \<lparr>m_handshake_state := kCompleted\<rparr>"

lemma session_client_facts: "in_session session_client" "queues session_client = (\<lambda>cmd. [], [])"
proof -
  have "client_inv session_client"
    using fresh_client_facts(1) by (simp add: session_client_def client_inv_def client_inv_at_def)
  then show "in_session session_client" using fresh_client_facts by (simp add: in_session_def session_client_def)
  show "queues session_client = (\<lambda>cmd. [], [])"
    by (simp add: queues_def pending_def session_client_def fresh_client_def SetTransport_new new_Client_def Client.defs
        map_filter_simps fun_eq_iff)
qed

definition scopes_answer :: Json where
  "scopes_answer = Json_Add_string ''command'' ''scopes'' (Json_Add_string ''type'' ''response'' Json_CreateObject)"

lemma scopes_answer_reads: "is_answer ''scopes'' scopes_answer"
  by (simp add: is_answer_def scopes_answer_def json_simps GetString_def cJSON_CreateString_def set_name_def c_str_Cons
      NUL_def cjson_types)

lemma scopes_answer_ints: "ints_json scopes_answer"
  by (simp add: scopes_answer_def ints_json_def Json_CreateObject_def json_build_defs create_defs cjson_types
      is_int32_def int_limits IsObject_def IsArray_def has_type_def)

theorem queues_refinement_witness:
  "\<exists>c'. client_steps (unbound_app id) [Call (Scopes 4), Call (Scopes 9), Answer ''scopes'' scopes_answer] session_client = Ok c' \<and>
     in_session c' \<and> queues c' = ((\<lambda>cmd. [])(''scopes'' := [Scopes 9]), [Scopes 4])"
  using queues_refinement [OF session_client_facts(1),
      of "[Call (Scopes 4), Call (Scopes 9), Answer ''scopes'' scopes_answer]" id] scopes_answer_reads scopes_answer_ints
  by (simp add: session_client_facts(2) is_int32_def int_limits)

text \<open>
  C14.  From bytes to handled messages: when the bytes of a stream of frames reach \<^verbatim>\<open>OnDataRead\<close> in any
  pieces, the client ends in exactly the state that \<^verbatim>\<open>OnMessage\<close> called on each complete message
  gives, with the beginning of the next frame in its buffer.
\<close>

theorem bytes_are_messages:
  assumes "\<forall>(p, j)\<in>set ms. carries p j" "prefix (concat ss) (stream ms)" "\<forall>s\<in>set ss. s \<noteq> []"
    and "client_inv c" "\<not> m_wants_log_events c" "m_rpc c = []"
  shows "\<exists>done rest c'. ms = done @ rest \<and> concat ss = stream done @ m_rpc c' \<and>
     (m_rpc c' = [] \<or> rest \<noteq> [] \<and> strict_prefix (m_rpc c') (frame (fst (hd rest)))) \<and>
     on_data (unbound_app g) ss c = Done c' \<and>
     on_messages (unbound_app g) (map snd done) (c \<lparr>m_rpc := m_rpc c'\<rparr>) = Ok c'"
  using on_data_stream [OF assms(1) _ assms(3-5), of g] assms(2,6) by (auto simp: holds_next_def)

theorem bytes_are_messages_witness:
  "\<exists>done rest c'. [(''null'', Some cJSON_CreateNull)] = done @ rest \<and>
     concat [''Content-'', ''Length: ''] = stream done @ m_rpc c' \<and>
     (m_rpc c' = [] \<or> rest \<noteq> [] \<and> strict_prefix (m_rpc c') (frame (fst (hd rest)))) \<and>
     on_data (unbound_app id) [''Content-'', ''Length: ''] fresh_client = Done c' \<and>
     on_messages (unbound_app id) (map snd done) (fresh_client \<lparr>m_rpc := m_rpc c'\<rparr>) = Ok c'"
  by (rule bytes_are_messages) (simp_all add: carries_null stream_def frame_def fresh_client_facts)

text \<open>
  C29.  What a response does to the requests in flight: one of the \<open>answered_commands\<close> takes its request
  out; every other response (\<^verbatim>\<open>next\<close>, \<^verbatim>\<open>stepIn\<close>, \<^verbatim>\<open>stepOut\<close>, \<^verbatim>\<open>continue\<close>, \<^verbatim>\<open>pause\<close>, \<^verbatim>\<open>source\<close>, \<^verbatim>\<open>evaluate\<close>,
  \<^verbatim>\<open>attach\<close> and the rest) leaves it there until the next \<^verbatim>\<open>Reset\<close>.
\<close>

theorem in_flight_after_answer:
  assumes "m_handshake_state c = kCompleted" "\<not> m_wants_log_events c" "is_answer cmd j"
    and "m_responses registered cmd \<noteq> None" "OnMessage (unbound_app g) j c = Ok c'"
  shows "m_in_flight_requests c' =
     (if cmd \<in> set answered_commands
      then (m_in_flight_requests c)(GetInteger (Json_at j ''request_seq'') (-1) := None) else m_in_flight_requests c)"
proof -
  have "OnResponse (unbound_app g) (response_of j) j c = Ok c'"
    using assms(5) OnMessage_response [OF assms(1-4), of "unbound_app g"] by simp
  from in_flight_after_response [OF this] show ?thesis using assms(3) by (simp add: is_answer_def)
qed

definition next_answer :: Json where
  "next_answer = Json_Add_int ''request_seq'' 1 (Json_Add_string ''command'' ''next'' (Json_Add_string ''type'' ''response''
     Json_CreateObject))"

lemma next_answer_reads:
  "is_answer ''next'' next_answer" "GetInteger (Json_at next_answer ''request_seq'') (-1) = 1"
  by (simp_all add: is_answer_def next_answer_def json_simps GetInteger_def GetString_def cJSON_CreateNumber_def
      cJSON_CreateString_def set_name_def i2d_def rtrunc_def is_int32_def int_limits c_str_Cons NUL_def cjson_types)

theorem in_flight_after_answer_witness:
  "\<exists>c'. OnMessage (unbound_app id) next_answer
      (session_client \<lparr>m_in_flight_requests := [1 \<mapsto> MNextRequest new_NextRequest]\<rparr>) = Ok c' \<and>
     m_in_flight_requests c' 1 = Some (MNextRequest new_NextRequest)"
proof -
  let ?c = "session_client \<lparr>m_in_flight_requests := [1 \<mapsto> MNextRequest new_NextRequest]\<rparr>"
  have s: "m_handshake_state ?c = kCompleted" "\<not> m_wants_log_events ?c"
    using session_client_facts(1) by (simp_all add: in_session_def)
  have r: "m_responses registered ''next'' \<noteq> None" using response_pool [of "MNextResponse r" for r] by simp
  have "OnMessage (unbound_app id) next_answer ?c = OnResponse (unbound_app id) (response_of next_answer) next_answer ?c"
    using s next_answer_reads(1) r by (rule OnMessage_response)
  moreover have "Response_command (response_of next_answer) \<in> {''stepIn'', ''stepOut'', ''next'', ''continue''}"
    using next_answer_reads(1) by (simp add: is_answer_def)
  ultimately have o: "OnMessage (unbound_app id) next_answer ?c = Ok (?c \<lparr>m_can_interact := False\<rparr>)"
    by (simp only: OnResponse_running)
  show ?thesis
    using in_flight_after_answer [OF s next_answer_reads(1) r o] o by (simp add: answered_commands_def)
qed

section \<open>The whole system\<close>

text \<open>The system at the start of a connection.\<close>

definition start :: "'s \<Rightarrow> (unit, 's) System" where
  "start t = \<lparr>sys_client = fresh_client, sys_transport = t,
     sys_os = \<lparr>script = [], os_out = [], os_in = [], opened = [], closed = [], peer = None\<rparr>, sys_posted = [], sys_pieces = []\<rparr>"






text \<open>
  C40.  A late error takes the next connection down: when the loss of a connection is still posted
  and the application has connected again, the main loop runs \<^verbatim>\<open>OnConnectionError\<close> on the new session
  and resets it, although its transport never failed.
\<close>

theorem late_error_kills_new_session:
  assumes "sys_posted s = Post_OnConnectionError # ps"
  shows "\<exists>s1 s2. sys_step (unbound_app g) read background s s1 \<and> IsConnected (sys_client s1) \<and> sys_transport s1 = t \<and>
     sys_step (unbound_app g) read background s1 s2 \<and> sys_transport s2 = t \<and>
     \<not> IsConnected (sys_client s2) \<and> \<not> m_transport (sys_client s2)"
  using late_error_disconnects [OF assms, of g read background t] by blast

theorem late_error_kills_new_session_witness:
  "\<exists>s1 s2. sys_step (unbound_app id) socket_read (\<lambda>s w. Blocked) ((start new_Socket) \<lparr>sys_posted := [Post_OnConnectionError]\<rparr>) s1 \<and>
     IsConnected (sys_client s1) \<and> sys_transport s1 = new_Socket \<and>
     sys_step (unbound_app id) socket_read (\<lambda>s w. Blocked) s1 s2 \<and> sys_transport s2 = new_Socket \<and>
     \<not> IsConnected (sys_client s2) \<and> \<not> m_transport (sys_client s2)"
  by (rule late_error_kills_new_session) simp

section \<open>The transports\<close>


definition idle_os :: os where
  "idle_os = \<lparr>script = [], os_out = [], os_in = [], opened = [], closed = [], peer = None\<rparr>"


text \<open>
  C23.  \<^verbatim>\<open>Send\<close> returns: a message of at most \<^verbatim>\<open>INT_MAX\<close> bytes is sent completely by a system that becomes
  writable again and again, after any number of time-outs, and accepts at least one byte each time.
\<close>

theorem socket_send_returns:
  assumes "sock \<noteq> INVALID_SOCKET" "\<forall>(k, n)\<in>set ts. 0 < n" "length p \<le> length ts" "int (length p) \<le> INT_MAX"
  shows "\<exists>w'. Socket_Send sock p (w \<lparr>script := writable ts\<rparr>) = Return () w' \<and> os_out w' = os_out w @ p"
  using Socket_Send_returns [OF assms, of w] by auto

theorem socket_send_returns_witness:
  "\<exists>w'. Socket_Send 3 ''abc'' (idle_os \<lparr>script := writable [(2, 1), (0, 5), (1, 1)]\<rparr>) = Return () w' \<and>
     os_out w' = os_out idle_os @ ''abc''"
  by (rule socket_send_returns) (simp_all add: INVALID_SOCKET_def int_limits)

text \<open>
  C24.  No descriptor leaks while connecting: however many tries \<^verbatim>\<open>SocketTransport::Connect\<close> makes and whatever
  they answer, every descriptor that was opened is the one of the socket or was closed exactly once.
\<close>

theorem connect_leaks_nothing:
  assumes "owns s w" "SocketTransport_Connect str timeout s w = Return (ok, s') w'"
  shows "owns s' w'"
  using assms connect_loop_owns by (auto simp: SocketTransport_Connect_def split: if_splits)

theorem connect_leaks_nothing_witness:
  "\<exists>s' w'. SocketTransport_Connect (''tcp://'' @ ''127.0.0.1'' @ '':'' @ show_nat 4711) 1 new_Socket
       (idle_os \<lparr>script := map (\<lambda>k. \<lparr>ret = k, errno = 0, data = []\<rparr>) [3, 1, -1, 4, 1, 0]\<rparr>) = Return (True, s') w' \<and>
     owns s' w' \<and> opened w' = [3, 4] \<and> closed w' = [3] \<and> sock_fd s' = 4"
proof -
  let ?w = "idle_os \<lparr>script := map (\<lambda>k. \<lparr>ret = k, errno = 0, data = []\<rparr>) [3, 1, -1, 4, 1, 0]\<rparr>"
  let ?s = "new_Socket \<lparr>sock_fd := 4\<rparr>" and ?w' = "idle_os \<lparr>opened := [3, 4], closed := [3], peer := Some (''127.0.0.1'', 4711)\<rparr>"
  have d: "DoParse (''tcp://'' @ ''127.0.0.1'' @ '':'' @ show_nat 4711) =
      Some \<lparr>cs_protocol = Some kTcp, cs_host = ''127.0.0.1'', cs_port = 4711, cs_path = [], cs_isOK = True\<rparr>"
    by (subst DoParse_tcp) (simp_all add: LONG_MAX_def)
  have "connect_loop (Suc (Suc n)) (''tcp://'' @ ''127.0.0.1'' @ '':'' @ show_nat 4711) new_Socket ?w = Return (True, ?s) ?w'" for n
    by (simp only: connect_loop.simps SocketClient_Connect_def d option.case)
      (simp add: ConnectRemote_def DestroySocket_def sys_call_def idle_os_def new_Socket_def INVALID_SOCKET_def
        is_int32_def int_limits)
  from this [of 998] have "SocketTransport_Connect (''tcp://'' @ ''127.0.0.1'' @ '':'' @ show_nat 4711) 1 new_Socket ?w = Return (True, ?s) ?w'"
    by (simp add: SocketTransport_Connect_def del: connect_loop.simps)
  moreover from this have "owns ?s ?w'"
    by (rule connect_leaks_nothing [rotated]) (simp add: owns_def new_Socket_def idle_os_def)
  ultimately show ?thesis by (auto simp: idle_os_def)
qed

section \<open>Client and server\<close>

text \<open>The request that \<^verbatim>\<open>Initialize\<close> sends on a new connection.\<close>

definition first_request :: InitializeRequest where
  "first_request = new_InitializeRequest \<lparr>ProtocolMessage_seq := 1, InitializeRequest_arguments :=
     new_InitializeRequestArguments \<lparr>InitializeRequestArguments_clientID := ''wxdap'',
       InitializeRequestArguments_clientName := ''wxdap''\<rparr>\<rparr>"

definition first_message :: Message where
  "first_message = MRequest (MInitializeRequest first_request)"

text \<open>The tree of an object built by the methods of \<^verbatim>\<open>Json\<close>, member by member.\<close>

definition obj :: "string option \<Rightarrow> (string \<times> json) list \<Rightarrow> Json" where
  "obj nm ms = Some (node_of 0 nm (JObj ms))"

lemma on_last_same: "on_last (\<lambda>body. body) (node_of 0 nm (JObj (ms @ [m]))) = node_of 0 nm (JObj (ms @ [m]))"
  by (cases m) (simp add: on_last_def set_children_def)

lemma cJSON_CreateBool_node:
  "cJSON_CreateBool 1 = node_of 0 None (JBool True)" "cJSON_CreateBool 0 = node_of 0 None (JBool False)"
  by (simp_all add: cJSON_CreateBool_def create_defs cjson_types)

lemma add_item_obj:
  "add_item k (Some (node_of 0 nm' v)) (obj nm ms) = obj nm (ms @ [(c_str k, v)])"
  by (simp add: add_item_def obj_def IsArray_def IsObject_def has_type_def node_of_Obj_append del: node_of.simps)

lemma create_node_of:
  "cJSON_CreateString v = node_of 0 None (JStr (c_str v))" "is_int32 i \<Longrightarrow> cJSON_CreateNumber (i2d i) = node_of 0 None (JNum i)"
  "cJSON_CreateTrue = node_of 0 None (JBool True)" "cJSON_CreateFalse = node_of 0 None (JBool False)"
  "cJSON_CreateObject = node_of 0 None (JObj [])"
  by (simp_all add: create_defs cjson_types)

lemma obj_simps:
  "Json_CreateObject = obj None []"
  "Json_Add_string k v (obj nm ms) = obj nm (ms @ [(c_str k, JStr (c_str v))])"
  "is_int32 i \<Longrightarrow> Json_Add_int k i (obj nm ms) = obj nm (ms @ [(c_str k, JNum i)])"
  "Json_Add_bool k b (obj nm ms) = obj nm (ms @ [(c_str k, JBool b)])"
  "Json_AddObject k (obj nm' ms') (obj nm ms) = obj nm (ms @ [(c_str k, JObj ms')])"
  "Json_AddNewObject k (\<lambda>body. body) (obj nm ms) = obj nm (ms @ [(c_str k, JObj [])])"
proof -
  show "Json_CreateObject = obj None []" by (simp add: Json_CreateObject_def obj_def create_node_of del: node_of.simps)
  show "Json_Add_string k v (obj nm ms) = obj nm (ms @ [(c_str k, JStr (c_str v))])"
    by (simp add: Json_Add_string_def create_node_of add_item_obj del: node_of.simps)
  show "Json_Add_int k i (obj nm ms) = obj nm (ms @ [(c_str k, JNum i)])" if "is_int32 i"
    using that by (simp add: Json_Add_int_def Json_Add_double_def create_node_of add_item_obj del: node_of.simps)
  show "Json_Add_bool k b (obj nm ms) = obj nm (ms @ [(c_str k, JBool b)])"
    by (cases b) (simp_all add: Json_Add_bool_def cJSON_CreateBool_node add_item_obj del: node_of.simps)
  show "Json_AddObject k (obj nm' ms') (obj nm ms) = obj nm (ms @ [(c_str k, JObj ms')])"
    by (simp add: Json_AddObject_def obj_def node_of_Obj_append del: node_of.simps)
  show "Json_AddNewObject k (\<lambda>body. body) (obj nm ms) = obj nm (ms @ [(c_str k, JObj [])])"
    by (simp add: Json_AddNewObject_def Json_AddItem_def obj_def create_node_of node_of_Obj_append on_last_same
        del: node_of.simps)
qed

lemma handshake_trees:
  "Message_To first_message = obj None [(''seq'', JNum 1), (''type'', JStr ''request''),
     (''command'', JStr ''initialize''), (''arguments'', JObj [(''clientID'', JStr ''wxdap''), (''clientName'', JStr ''wxdap''),
     (''adapterID'', JStr []), (''locale'', JStr ''en-US''), (''linesStartAt1'', JBool False),
     (''columnsStartAt1'', JBool False), (''pathFormat'', JStr ''path''), (''supportsInvalidatedEvent'', JBool False)])]"
  "Message_To init_response = obj None [(''seq'', JNum (- 1)), (''type'', JStr ''response''),
     (''request_seq'', JNum (- 1)), (''success'', JBool True), (''message'', JStr []), (''command'', JStr ''initialize''),
     (''body'', JObj [])]"
  "Message_To init_event = obj None [(''seq'', JNum (- 1)), (''type'', JStr ''event''), (''event'', JStr ''initialized'')]"
  by (simp_all add: first_message_def first_request_def init_response_def init_event_def InitializeRequest_To_def
      new_InitializeRequest_def InitializeRequestArguments_To_def new_InitializeRequestArguments_def InitializeResponse_To_def
      new_InitializeResponse_def InitializedEvent_To_def new_InitializedEvent_def msg_defs Let_def obj_simps is_int32_def int_limits
      c_str_Cons NUL_def)

lemma show_int_1: "show_int 1 = ''1''"
  using char_of_char [of "CHR ''1''", where 'a = nat]
  by (simp add: show_int_def show_nat.simps digit_char_def del: char_of_char)

text \<open>A bound on the length of the text of a document.\<close>

fun text_bound :: "json \<Rightarrow> nat" where
  "text_bound JNull = 4"
| "text_bound (JBool v) = 5"
| "text_bound (JNum i) = length (show_int i)"
| "text_bound (JStr s) = 6 * length s + 2"
| "text_bound (JArr js) = 2 + sum_list (map (\<lambda>j. text_bound j + 1) js)"
| "text_bound (JObj ms) = 2 + sum_list (map (\<lambda>(k, j). 6 * length k + 4 + text_bound j) ms)"

lemma length_quote: "length (quote s) \<le> 6 * length s + 2"
proof -
  have "length (esc_char c) \<le> 6" for c by (simp add: esc_char_def u_escape_def)
  then have "length (concat (map esc_char s)) \<le> 6 * length s" by (induction s) (auto intro: add_mono)
  then show ?thesis by (simp add: quote_def)
qed

lemma join_object_bound:
  "length (join_object d False es) \<le> sum_list (map (\<lambda>(k, e). length k + length e + 2) es)"
  by (induction d False es rule: join_object.induct) (auto simp: indent_def)

lemma join_array_bound: "length (join_array False es) \<le> sum_list (map (\<lambda>e. length e + 1) es)"
  by (induction False es rule: join_array.induct) auto

lemma length_json_text: "length (json_text False d v) \<le> text_bound v"
proof (induction v arbitrary: d)
  case (JArr js)
  have "sum_list (map (\<lambda>e. length e + 1) (map (json_text False (d + 1)) js)) \<le> sum_list (map (\<lambda>j. text_bound j + 1) js)"
    using JArr by (auto simp: comp_def intro!: sum_list_mono)
  then show ?case using join_array_bound [of "map (json_text False (d + 1)) js"] by (simp add: array_text_def)
next
  case (JObj ms)
  let ?es = "map (\<lambda>(k, j). (quote k, json_text False (d + 1) j)) ms"
  have "length (quote k) + length (json_text False (d + 1) j) + 2 \<le> 6 * length k + 4 + text_bound j" if "(k, j) \<in> set ms" for k j
    using JObj [of "(k, j)" j "d + 1"] that length_quote [of k] by simp
  then have "sum_list (map (\<lambda>(k, e). length k + length e + 2) ?es) \<le> sum_list (map (\<lambda>(k, j). 6 * length k + 4 + text_bound j) ms)"
    by (auto simp: comp_def case_prod_unfold intro!: sum_list_mono)
  then show ?case using join_object_bound [of "d + 1" ?es] by (simp add: object_text_def indent_def)
qed (use length_quote in simp_all)

lemma wire_text_bound:
  assumes "Message_To m = Some (node_of 0 None v)" "wf_json v" shows "length (wire_text m) \<le> text_bound v"
  using assms(1) length_json_text [of 0 v]
  by (simp add: wire_text_def Message_ToString_def Json_ToString_def cJSON_PrintUnformatted_def print_node_of [OF assms(2)])

lemma handshake_texts:
  "length (wire_text first_message) < 2000" "length (wire_text init_response) < 2000" "length (wire_text init_event) < 2000"
proof -
  show "length (wire_text first_message) < 2000"
    by (rule le_less_trans [OF wire_text_bound [OF handshake_trees(1) [unfolded obj_def]]])
      (simp_all add: is_int32_def int_limits NUL_def show_int_1)
  show "length (wire_text init_response) < 2000"
    by (rule le_less_trans [OF wire_text_bound [OF handshake_trees(2) [unfolded obj_def]]])
      (simp_all add: is_int32_def int_limits NUL_def show_int_minus_1)
  show "length (wire_text init_event) < 2000"
    by (rule le_less_trans [OF wire_text_bound [OF handshake_trees(3) [unfolded obj_def]]])
      (simp_all add: is_int32_def int_limits NUL_def show_int_minus_1)
qed

lemma handshake_wire: "wire_ok first_message" "wire_ok init_response" "wire_ok init_event"
  using wire_ok_examples(2)
  by (simp_all add: first_message_def first_request_def init_response_def init_event_def wire_InitializeRequest_def ints_InitializeRequest_def
      new_InitializeRequest_def wire_InitializeRequestArguments_def ints_InitializeRequestArguments_def
      new_InitializeRequestArguments_def wire_InitializeResponse_def ints_InitializeResponse_def new_InitializeResponse_def
      msg_defs Request.defs Response.defs is_int32_def int_limits NUL_def del: wire_ok.simps(2))

lemmas handshake_carries =
  wire_ok_carries [OF handshake_wire(1)] wire_ok_carries [OF handshake_wire(2)] wire_ok_carries [OF handshake_wire(3)]

text \<open>A stream that arrives completely is handled completely.\<close>

lemma on_data_whole:
  assumes "\<forall>(p, j)\<in>set ms. carries p j" "concat ss = stream ms" "\<forall>s\<in>set ss. s \<noteq> []"
    "client_inv c" "\<not> m_wants_log_events c" "m_rpc c = []"
  shows "\<exists>c'. on_data (unbound_app g) ss c = Done c' \<and> on_messages (unbound_app g) (map snd ms) c = Ok c'"
proof -
  obtain dn rest c' where h: "ms = dn @ rest" "concat ss = stream dn @ m_rpc c'" "holds_next (m_rpc c') rest"
    "on_data (unbound_app g) ss c = Done c'" "on_messages (unbound_app g) (map snd dn) (c \<lparr>m_rpc := m_rpc c'\<rparr>) = Ok c'"
    using on_data_stream [OF assms(1) _ assms(3-5), of g] assms(2,6) by (auto simp: holds_next_def)
  have "stream rest = m_rpc c'" using assms(2) h(2) unfolding h(1) by (simp add: stream_def)
  then have "rest = []" "m_rpc c' = []"
    using h(3) by (cases rest; auto simp: stream_def strict_prefix_def prefix_def holds_next_def)+
  moreover from this have "c \<lparr>m_rpc := m_rpc c'\<rparr> = c" using assms(6) by simp
  ultimately show ?thesis using h by auto
qed

lemma frame_length: "length p < 2000 \<Longrightarrow> length (frame p) < 2100"
proof -
  assume p: "length p < 2000"
  have "length (show_nat n) \<le> 4" if "n < 2000" for n
    using that by (simp add: show_nat.simps [of n] show_nat.simps [of "n div 10"] show_nat.simps [of "n div 10 div 10"]
        show_nat.simps [of "n div 10 div 10 div 10"])
  from this [OF p] p show ?thesis by (simp add: frame_def CRLFCRLF_def)
qed

text \<open>The server on a socket that becomes writable often enough for its two answers.\<close>

lemma server_answers:
  assumes "sock \<noteq> INVALID_SOCKET" "\<forall>c\<in>set chunks. c \<noteq> [] \<and> length c \<le> 16384" "concat chunks = frame (wire_text first_message)"
    "\<forall>(k, n)\<in>set ts. 0 < n" "length ts = 5000"
  shows "\<exists>w'. server_Initialize (length chunks) sock [] (w \<lparr>script := concat (map arrives chunks) @ writable ts\<rparr>) = Return [] w' \<and>
     os_out w' = os_out w @ frame (wire_text init_response) @ frame (wire_text init_event)"
proof -
  let ?w = "w \<lparr>os_in := os_in w @ concat chunks\<rparr>"
  have l: "length (frame (wire_text init_response)) < 2100" "length (frame (wire_text init_event)) < 2100"
    using frame_length handshake_texts(2,3) by blast+
  obtain m where m: "m \<le> length (frame (wire_text init_response))"
    "Socket_Send sock (frame (wire_text init_response)) (?w \<lparr>script := writable ts\<rparr>) =
       Return () (?w \<lparr>script := writable (drop m ts), os_out := os_out ?w @ frame (wire_text init_response)\<rparr>)"
    using Socket_Send_returns [OF assms(1,4), of "frame (wire_text init_response)" ?w] l(1) assms(5) by (auto simp: int_limits)
  let ?w1 = "?w \<lparr>os_out := os_out ?w @ frame (wire_text init_response)\<rparr>"
  have d: "\<forall>(k, n)\<in>set (drop m ts). 0 < n" using assms(4) by (auto dest: in_set_dropD)
  have "length (frame (wire_text init_event)) \<le> length (drop m ts)" using m(1) l assms(5) by simp
  then obtain k where k: "Socket_Send sock (frame (wire_text init_event)) (?w1 \<lparr>script := writable (drop m ts)\<rparr>) =
       Return () (?w1 \<lparr>script := writable (drop k (drop m ts)), os_out := os_out ?w1 @ frame (wire_text init_event)\<rparr>)"
    using Socket_Send_returns [OF assms(1) d, of "frame (wire_text init_event)" ?w1] l(2) by (auto simp: int_limits)
  have s: "Message_ToString init_response = Ok (wire_text init_response)" "Message_ToString init_event = Ok (wire_text init_event)"
    using handshake_carries(4,6) handshake_texts(2,3) by simp_all
  have e: "?w \<lparr>script := rs\<rparr> = w \<lparr>script := rs, os_in := os_in w @ concat chunks\<rparr>"
    "?w \<lparr>script := rs, os_out := os_out ?w @ x\<rparr> = ?w \<lparr>os_out := os_out ?w @ x, script := rs\<rparr>" for rs x by simp_all
  have ne: "chunks \<noteq> []" using assms(3) by (auto simp: frame_def)
  have f: "FromJSON registered (reparsed (Message_To first_message)) = Some first_message"
    using wire_ok_FromJSON [OF handshake_wire(1)] by simp
  have r: "is_initialize_request (FromJSON registered (reparsed (Message_To first_message)))"
    unfolding f by (simp add: is_initialize_request_def first_message_def first_request_def new_InitializeRequest_def)
  have s1: "server_Send sock init_response (w \<lparr>script := writable ts, os_in := os_in w @ concat chunks\<rparr>) =
      Return () (?w1 \<lparr>script := writable (drop m ts)\<rparr>)"
    using m(2) unfolding e by (simp add: server_Send_def s)
  have s2: "server_Send sock init_event (?w1 \<lparr>script := writable (drop m ts)\<rparr>) =
      Return () (?w1 \<lparr>script := writable (drop k (drop m ts)), os_out := os_out ?w1 @ frame (wire_text init_event)\<rparr>)"
    using k by (simp add: server_Send_def s)
  have c: "carries (wire_text first_message) (reparsed (Message_To first_message))"
    using handshake_carries(1) handshake_texts(1) by simp
  have "[] @ concat chunks = frame (wire_text first_message)" using assms(3) by simp
  from server_Initialize_returns [OF assms(1,2) c ne this r s1 s2]
  have "server_Initialize (length chunks) sock [] (w \<lparr>script := concat (map arrives chunks) @ writable ts\<rparr>) =
      Return [] (?w1 \<lparr>script := writable (drop k (drop m ts)), os_out := os_out ?w1 @ frame (wire_text init_event)\<rparr>)" .
  then show ?thesis by simp
qed

text \<open>The client sends it and waits.\<close>

lemma client_opens:
  "\<exists>c. run_api (unbound_app g) (Api_Initialize None) fresh_client = Ok c \<and> trace c = [Sent (frame (wire_text first_message))] \<and>
     client_inv c \<and> \<not> m_wants_log_events c \<and> m_rpc c = [] \<and> m_features c = 0 \<and> m_handshake_state c = kInProgress"
proof -
  have s: "seq_of 1 = 1" by (simp add: seq_of_small int_limits)
  have t: "Message_ToString (MRequest (MInitializeRequest first_request)) = Ok (wire_text first_message)"
    using handshake_carries(2) handshake_texts(1) by (simp add: first_message_def)
  have "\<exists>c. run_api (unbound_app g) (Api_Initialize None) fresh_client = Ok c \<and> trace c = [Sent (frame (wire_text first_message))] \<and>
     \<not> m_wants_log_events c \<and> m_rpc c = [] \<and> m_features c = 0 \<and> m_handshake_state c = kInProgress"
    using t
    by (simp add: Client_Initialize_def MakeRequest_eq Let_def fresh_client_facts s SendRequest_def rpc_Send_def log_sent_def
        insert_in_flight_def first_request_def new_InitializeRequest_def)
  moreover have "sound fresh_client (run_api (unbound_app g) (Api_Initialize None) fresh_client)"
    by (rule unbound.run_api_sound) (simp_all add: fresh_client_facts)
  ultimately show ?thesis by (auto simp: sound_def)
qed

text \<open>The two answers of the server, as the client reads them.\<close>

definition answers :: "(string \<times> Json) list" where
  "answers = [(wire_text init_response, reparsed (Message_To init_response)), (wire_text init_event, reparsed (Message_To init_event))]"

lemma answers_carry: "\<forall>(p, j)\<in>set answers. carries p j"
  using handshake_carries(3,5) handshake_texts(2,3) by (simp add: answers_def)

lemma client_completes:
  fixes c :: Client
  assumes "m_handshake_state c \<noteq> kCompleted" "\<not> m_wants_log_events c"
  shows "\<exists>c' e1 e2. on_messages (unbound_app g) (map snd answers) c = Ok c' \<and> m_handshake_state c' = kCompleted \<and>
     trace c' = trace c @ [Posted e1, Posted e2] \<and>
     event_type e1 = wxEVT_DAP_INITIALIZE_RESPONSE \<and> event_type e2 = wxEVT_DAP_INITIALIZED_EVENT"
proof -
  have h: "GetString (Json_at (reparsed (Message_To init_response)) ''type'') [] = ''response''"
    "GetString (Json_at (reparsed (Message_To init_response)) ''command'') [] = ''initialize''"
    by (simp_all, simp_all add: handshake_trees obj_def Json_at_def GetString_def cjson_types c_str_Cons NUL_def)
  let ?j = "reparsed (Message_To init_event)"
  have f: "FromJSON registered ?j = Some init_event" using wire_ok_FromJSON [OF handshake_wire(3)] by simp
  have o: "OnMessage (unbound_app g) ?j d =
      SendDAPEvent (unbound_app g) wxEVT_DAP_INITIALIZED_EVENT (MEvent (MInitializedEvent new_InitializedEvent)) ?j None d"
    if "m_handshake_state d = kCompleted" "\<not> m_wants_log_events d" for d :: Client
    using that f
    by (simp add: OnMessage_def log_received_def OnSessionMessage_def init_event_def AsEvent_def new_InitializedEvent_def OnEvent_def Event.defs)
  have s: "SendDAPEvent (unbound_app g) t m j None d = Ok (d \<lparr>trace := trace d @
      [Posted \<lparr>event_type = t, event_object = Some (Message_From j m), event_string = [], event_request = None\<rparr>]\<rparr>)"
    if "t \<noteq> wxEVT_DAP_STOPPED_EVENT" for t m j and d :: Client
    using that by (simp add: SendDAPEvent_def Let_def fire_event_def unbound_app_def)
  show ?thesis
    using assms h by (simp add: answers_def OnMessage_handshake s o initialized_def)
qed

text \<open>
  C2.  The handshake between client and server: the request that \<^verbatim>\<open>Client::Initialize\<close> writes, received by the
  server in any pieces, makes \<^verbatim>\<open>ServerProtocol::Initialize\<close> return after writing its two answers, over
  a socket that takes them in any portions; these, received by the client in any pieces, complete
  its handshake and reach the application as the two events, in order.
\<close>

theorem client_server_handshake:
  assumes "sock \<noteq> INVALID_SOCKET" "\<forall>c\<in>set chunks. c \<noteq> [] \<and> length c \<le> 16384" "concat chunks = frame (wire_text first_message)"
    and "\<forall>(k, n)\<in>set ts. 0 < n" "length ts = 5000"
    and "concat pieces = frame (wire_text init_response) @ frame (wire_text init_event)" "\<forall>s\<in>set pieces. s \<noteq> []"
  shows "\<exists>c1 w' c2 e1 e2.
     run_api (unbound_app g) (Api_Initialize None) fresh_client = Ok c1 \<and> trace c1 = [Sent (concat chunks)] \<and>
     server_Initialize (length chunks) sock [] (w \<lparr>script := concat (map arrives chunks) @ writable ts\<rparr>) = Return [] w' \<and>
     os_out w' = os_out w @ concat pieces \<and>
     on_data (unbound_app g) pieces c1 = Done c2 \<and> m_handshake_state c2 = kCompleted \<and>
     trace c2 = trace c1 @ [Posted e1, Posted e2] \<and>
     event_type e1 = wxEVT_DAP_INITIALIZE_RESPONSE \<and> event_type e2 = wxEVT_DAP_INITIALIZED_EVENT"
proof -
  obtain c1 where c1: "run_api (unbound_app g) (Api_Initialize None) fresh_client = Ok c1"
    "trace c1 = [Sent (frame (wire_text first_message))]" "client_inv c1" "\<not> m_wants_log_events c1" "m_rpc c1 = []"
    "m_handshake_state c1 = kInProgress" using client_opens by blast
  obtain w' where w': "server_Initialize (length chunks) sock [] (w \<lparr>script := concat (map arrives chunks) @ writable ts\<rparr>) = Return [] w'"
    "os_out w' = os_out w @ frame (wire_text init_response) @ frame (wire_text init_event)"
    using server_answers [OF assms(1-5), of w] by blast
  have st: "concat pieces = stream answers" using assms(6) by (simp add: answers_def stream_def)
  obtain c2 where "on_data (unbound_app g) pieces c1 = Done c2" "on_messages (unbound_app g) (map snd answers) c1 = Ok c2"
    using on_data_whole [OF answers_carry st assms(7) c1(3-5), of g] by blast
  moreover obtain c' e1 e2 where "on_messages (unbound_app g) (map snd answers) c1 = Ok c'" "m_handshake_state c' = kCompleted"
    "trace c' = trace c1 @ [Posted e1, Posted e2]" "event_type e1 = wxEVT_DAP_INITIALIZE_RESPONSE"
    "event_type e2 = wxEVT_DAP_INITIALIZED_EVENT"
    using client_completes [of c1 g] c1(4,6) by auto
  ultimately show ?thesis using c1(1,2) w' assms(3,6) by auto
qed

theorem client_server_handshake_witness:
  "\<exists>c1 w' c2 e1 e2.
     run_api (unbound_app id) (Api_Initialize None) fresh_client = Ok c1 \<and>
     trace c1 = [Sent (concat [frame (wire_text first_message)])] \<and>
     server_Initialize (length [frame (wire_text first_message)]) 3 []
       (idle_os \<lparr>script := concat (map arrives [frame (wire_text first_message)]) @ writable (replicate 5000 (1, 1))\<rparr>) = Return [] w' \<and>
     os_out w' = os_out idle_os @ concat [frame (wire_text init_response), frame (wire_text init_event)] \<and>
     on_data (unbound_app id) [frame (wire_text init_response), frame (wire_text init_event)] c1 = Done c2 \<and>
     m_handshake_state c2 = kCompleted \<and> trace c2 = trace c1 @ [Posted e1, Posted e2] \<and>
     event_type e1 = wxEVT_DAP_INITIALIZE_RESPONSE \<and> event_type e2 = wxEVT_DAP_INITIALIZED_EVENT"
proof (rule client_server_handshake)
  show "\<forall>c\<in>set [frame (wire_text first_message)]. c \<noteq> [] \<and> length c \<le> 16384"
    using frame_length [OF handshake_texts(1)] by (simp add: frame_def)
qed (simp_all add: INVALID_SOCKET_def frame_def)

section \<open>The front end\<close>






section \<open>Strings\<close>

text \<open>
  C30.  The command line round trip: \<^verbatim>\<open>BuildArgv\<close> splits the line that \<^verbatim>\<open>ExecuteProcess\<close> joins with
  \<^verbatim>\<open>WrapWithQuotes\<close> back into the words, for the words that the quoting covers (\<open>safe_arg\<close>: not
  empty, without double quotes, and without backslashes when quoted or other quotes and tabs when not).
\<close>

theorem command_line_roundtrip:
  assumes "\<forall>s\<in>set cmd. safe_arg s" shows "BuildArgv (command_line cmd) = cmd"
  by (rule BuildArgv_command_line [OF assms])

theorem command_line_roundtrip_witness:
  "BuildArgv (command_line [''/opt/my tools/gdb'', ''-i=dap'', ''it is a' program'']) = [''/opt/my tools/gdb'', ''-i=dap'', ''it is a' program'']"
  by (rule command_line_roundtrip) (simp add: safe_arg_def NUL_def argv_chars)

lemma convert_slashes_others:
  "filter (\<lambda>c. c \<noteq> src \<and> c \<noteq> t) (convert_slashes src t l s) = filter (\<lambda>c. c \<noteq> src \<and> c \<noteq> t) s"
  by (induction s arbitrary: l) (auto simp: Let_def)

text \<open>
  The normal form of paths: \<^verbatim>\<open>ToUnixPath\<close> leaves no backslash and no doubled slash, keeps every
  other character in its order, and changes nothing when applied again.
\<close>

lemma unix_path_normal:
  "BS \<notin> set (ToUnixPath p) \<and> no_double (CHR ''/'') (ToUnixPath p) \<and> ToUnixPath (ToUnixPath p) = ToUnixPath p \<and>
   filter (\<lambda>c. c \<noteq> BS \<and> c \<noteq> CHR ''/'') (ToUnixPath p) = filter (\<lambda>c. c \<noteq> BS \<and> c \<noteq> CHR ''/'') p"
proof (intro conjI)
  show "BS \<notin> set (ToUnixPath p)" "no_double (CHR ''/'') (ToUnixPath p)"
    by (simp_all add: ToUnixPath_def ConvertSlashes_def convert_slashes_no_double convert_slashes_no_source BS_def)
  show "filter (\<lambda>c. c \<noteq> BS \<and> c \<noteq> CHR ''/'') (ToUnixPath p) = filter (\<lambda>c. c \<noteq> BS \<and> c \<noteq> CHR ''/'') p"
    by (simp only: ToUnixPath_def ConvertSlashes_def convert_slashes_others)
qed (rule ToUnixPath_idem)

section \<open>Where the receiver fails\<close>

lemma on_data_keeps:
  assumes "\<And>t. DoProcessBuffer (b @ t) = Ok (None, f (b @ t))" "\<And>t. f (b @ t) = b @ g t" "\<And>t u. g (g t @ u) = g (t @ u)"
  shows "m_rpc c = b @ g t \<Longrightarrow> on_data app ss c = Done (c \<lparr>m_rpc := b @ g (t @ concat ss)\<rparr>)"
proof (induction ss arbitrary: c t)
  case (Cons s ss)
  have "OnDataRead app s c = Done (c \<lparr>m_rpc := b @ g (t @ s)\<rparr>)"
  proof (cases "s = []")
    case True
    then show ?thesis using Cons.prems by (simp add: OnDataRead_def)
  next
    case False
    have "DoProcessBuffer (b @ g t @ s) = Ok (None, b @ g (t @ s))" using assms(1) [of "g t @ s"] assms(2,3) by simp
    then show ?thesis
      using False Cons.prems by (simp add: OnDataRead_def Let_def AppendBuffer_def process_fuel_def IsOK_def)
  qed
  then show ?case using Cons.IH [of "c \<lparr>m_rpc := b @ g (t @ s)\<rparr>" "t @ s"] by simp
qed simp

lemma on_data_first:
  "s \<noteq> [] \<Longrightarrow> m_rpc c = [] \<Longrightarrow> DoProcessBuffer s = Ok (None, b) \<Longrightarrow> on_data app (s # ss) c = on_data app ss (c \<lparr>m_rpc := b\<rparr>)"
  by (simp add: OnDataRead_def Let_def AppendBuffer_def process_fuel_def IsOK_def)

text \<open>
  C31.  A header section without \<^verbatim>\<open>Content-Length\<close> makes the client deaf: \<^verbatim>\<open>DoProcessBuffer\<close> erases what
  follows the header section instead of the section itself, so that nothing that arrives later,
  however much, is handled: it is thrown away, and the client stays as it is.
\<close>

theorem receiver_deaf:
  assumes "ReadHeaders b = (hs, int k)" "hs ''Content-Length'' = None" "int (length b) \<le> INT_MAX" "m_rpc c = []"
  shows "on_data app (b # ss) c = Done (c \<lparr>m_rpc := take k b\<rparr>)"
proof -
  have "b \<noteq> []" using assms(1) by (auto simp: ReadHeaders_def CRLFCRLF_def)
  then have "on_data app (b # ss) c = on_data app ss (c \<lparr>m_rpc := take k b\<rparr>)"
    by (rule on_data_first [OF _ assms(4) no_length_deaf(1) [OF assms(1-3)]])
  also have "\<dots> = Done (c \<lparr>m_rpc := take k b\<rparr>)"
    using on_data_keeps [of "take k b" "\<lambda>_. take k b" "\<lambda>_. []" "c \<lparr>m_rpc := take k b\<rparr>" "[]" app ss]
      no_length_deaf(2) [OF assms(1-3)] by simp
  finally show ?thesis .
qed

lemma ReadHeaders_other: "ReadHeaders (''X: 1'' @ CRLFCRLF @ t) = ([''X'' \<mapsto> ''1''], int 8)"
proof -
  have "find_sub CRLFCRLF (''X: 1'' @ CRLFCRLF @ t) = Some 4"
    using find_sub_append [of "''X: 1''" CRLFCRLF t] by (simp add: CRLFCRLF_def)
  moreover have "Split ''X: 1'' [CHR 0x0A] = [''X: 1'']" by code_simp
  moreover have "Trim (BeforeFirst (Trim ''X: 1'') (CHR '':'')) = ''X''" "Trim (AfterFirst (Trim ''X: 1'') (CHR '':'')) = ''1''"
    by code_simp+
  ultimately show ?thesis by (simp add: ReadHeaders_def insert_header_def is_int32_def int_limits)
qed

theorem receiver_deaf_witness:
  "on_data (unbound_app id) ((''X: 1'' @ CRLFCRLF @ frame ''null'') # [frame ''null'', frame ''null'']) fresh_client =
     Done (fresh_client \<lparr>m_rpc := take 8 (''X: 1'' @ CRLFCRLF @ frame ''null'')\<rparr>)"
  by (rule receiver_deaf [OF ReadHeaders_other])
    (simp_all add: fresh_client_facts frame_def CRLFCRLF_def show_nat.simps int_limits)

text \<open>
  C32.  A \<^verbatim>\<open>Content-Length\<close> that is not positive blocks the client: the frame stays at the front of the
  buffer, every later byte is kept behind it, and no message is handled any more.
\<close>

theorem receiver_stuck:
  assumes "ReadHeaders b = (hs, int k)" "hs ''Content-Length'' = Some v" "atol v \<le> 0" "int (length b) \<le> INT_MAX" "m_rpc c = []"
  shows "on_data app (b # ss) c = Done (c \<lparr>m_rpc := b @ concat ss\<rparr>)"
proof -
  have "b \<noteq> []" using assms(1) by (auto simp: ReadHeaders_def CRLFCRLF_def)
  then have "on_data app (b # ss) c = on_data app ss (c \<lparr>m_rpc := b\<rparr>)"
    using no_payload_stuck [OF assms(1-4), of "[]"] by (intro on_data_first assms(5)) simp_all
  also have "\<dots> = Done (c \<lparr>m_rpc := b @ concat ss\<rparr>)"
    using on_data_keeps [of b id id "c \<lparr>m_rpc := b\<rparr>" "[]" app ss] no_payload_stuck [OF assms(1-4)] by simp
  finally show ?thesis .
qed

theorem receiver_stuck_witness:
  "on_data (unbound_app id) (frame [] # [frame ''null'', frame ''null'']) fresh_client =
     Done (fresh_client \<lparr>m_rpc := frame [] @ concat [frame ''null'', frame ''null'']\<rparr>)"
proof (rule receiver_stuck)
  show "ReadHeaders (frame []) = ([''Content-Length'' \<mapsto> show_nat (length [])], int (length (header_text []) + 4))"
    using ReadHeaders_frame [of "[]" "[]"] by (simp add: frame_header)
  show "atol (show_nat (length [])) \<le> 0" by (subst atol_show_nat) (simp_all add: int_limits)
qed (simp_all add: fresh_client_facts frame_def CRLFCRLF_def show_nat.simps int_limits)

text \<open>
  C33.  A payload that makes the parser write past its buffer: a string that ends in the middle of
  an \<^verbatim>\<open>\u\<close> escape, received as one frame by a client in any state and with any application, makes
  \<^verbatim>\<open>parse_string\<close> step over the closing quote and copy what follows behind the end of what it allocated.
\<close>

theorem short_escape_overflows:
  assumes "4 < k" "k < 1000" "m_rpc c = []"
  shows "OnDataRead app (frame (overflow_text k)) c = Run_Undef Over_Write"
proof -
  have "DoProcessBuffer (frame (overflow_text k) @ []) = Undef Over_Write"
    using assms(1,2) by (subst DoProcessBuffer_frame) (simp_all add: Json_Parse_def cJSON_Parse_overflow, simp_all add: overflow_text_def)
  then show ?thesis using assms(3) by (simp add: OnDataRead_def Let_def AppendBuffer_def process_fuel_def)
qed

theorem short_escape_overflows_witness:
  "OnDataRead (unbound_app id) (frame (overflow_text 5)) fresh_client = Run_Undef Over_Write"
  by (rule short_escape_overflows) (simp_all add: fresh_client_facts)

section \<open>Numbers that do not fit the buffer of the printer\<close>

lemma double_1e64: "rnd (10 ^ 64) = Fin (of_int (6842277657836021 * 2 ^ 160))"
  "rnd (of_int (6842277657836021 * 2 ^ 160)) = Fin (of_int (6842277657836021 * 2 ^ 160))"
proof -
  have "\<lfloor>of_int (10 ^ 64) / 2 ^ 160 :: rat\<rfloor> = 6842277657836020" by (rule floor_unique) simp_all
  then have "round_half_even (of_int (10 ^ 64) / 2 ^ 160) = 6842277657836021"
    "round_half_even (of_int (6842277657836021 * 2 ^ 160) / 2 ^ 160) = 6842277657836021"
    by (simp_all add: round_half_even_def Let_def)
  from rnd_int [OF _ _ this(1)] rnd_int [OF _ _ this(2)]
  show "rnd (10 ^ 64) = Fin (of_int (6842277657836021 * 2 ^ 160))"
    "rnd (of_int (6842277657836021 * 2 ^ 160)) = Fin (of_int (6842277657836021 * 2 ^ 160))" by simp_all
qed

lemma parse_1e64:
  "Json_Parse ''1e64'' = Ok (Some (Item cJsonDap_Number None INT_MIN (Fin (of_int (6842277657836021 * 2 ^ 160))) None []))"
proof -
  have d: "digit_val CHR ''6'' = 6" "digit_val CHR ''4'' = 4" "digit_val CHR ''1'' = 1" by code_simp+
  have "add_subscale 0 ''64'' = Ok 64" by (simp add: d Let_def is_int32_def int_limits)
  moreover have "add_digits (i2d 0) ''1'' = i2d 1" 
    using dmul_int [of 0 10] dadd_int [of 0 1] by (simp add: d add_digits_def add_digit_def)
  ultimately show ?thesis
    using double_1e64 dmul_int [of 1 1]
    by (simp add: add_digits_def [of _ "[]"] pow10_def i2d_def rtrunc_def is_int32_def int_limits
       Json_Parse_def cJSON_Parse_def skip_def is_ws_def parse_fuel_def NUL_def parse_number_def int_digits_def
      frac_digits_def exp_part_def is_digit_def)
qed

text \<open>
  C34.  A number that makes the printer write past its buffer: a client whose log is wanted prints
  every message that it receives; the payload \<^verbatim>\<open>1e64\<close>, a frame of 25 bytes, makes \<^verbatim>\<open>print_number\<close> write
  all 65 digits of it and the NUL into 64 bytes.
\<close>

theorem number_overflows_log:
  fixes c :: "'a Client_scheme"
  assumes "m_wants_log_events c" "m_rpc c = []"
  shows "OnDataRead app (frame ''1e64'') c = Run_Undef Over_Write"
proof -
  let ?n = "Item cJsonDap_Number None INT_MIN (Fin (of_int (6842277657836021 * 2 ^ 160))) None []"
  have "print_number ?n = Undef Over_Write" by (rule print_number_overflow) simp
  then have "Json_ToString False (Some ?n) = Undef Over_Write"
    by (simp add: Json_ToString_def cJSON_PrintUnformatted_def cjson_types)
  then have "OnMessage app (Some ?n) d = Undef Over_Write" if "m_wants_log_events d" for d
    using that by (simp add: OnMessage_def log_received_def)
  moreover have "DoProcessBuffer (frame ''1e64'' @ []) = Ok (Some ?n, [])"
    by (subst DoProcessBuffer_frame) (simp_all add: parse_1e64)
  moreover have "ProcessBuffer (length (frame p)) cb ([], s) = Done ([], s)" for p cb and s :: "'a Client_scheme outcome"
    by (cases "frame p") (simp_all add: DoProcessBuffer_def IsOK_def)
  ultimately show ?thesis
    using assms
    by (simp add: OnDataRead_def Let_def AppendBuffer_def process_fuel_def IsOK_def rpc_callback_of_def)
qed

theorem number_overflows_log_witness:
  "OnDataRead (unbound_app id) (frame ''1e64'') (fresh_client \<lparr>m_wants_log_events := True\<rparr>) = Run_Undef Over_Write"
  by (rule number_overflows_log) (simp_all add: fresh_client_facts)

section \<open>What is lost on the way through JSON\<close>

text \<open>
  C35.  Members that a message loses when it is written and read back: both places that read a
  \<^verbatim>\<open>BreakpointLocation\<close> look for \<^verbatim>\<open>restart\<close> in place of \<^verbatim>\<open>line\<close> and never for \<^verbatim>\<open>endLine\<close>;
  \<^verbatim>\<open>CancelRequest\<close> reads its arguments as a number; \<^verbatim>\<open>ContinueResponse\<close> reads a bool as a number; and
  \<^verbatim>\<open>GetBool\<close> cannot tell \<^verbatim>\<open>false\<close> from a missing member, so that no \<^verbatim>\<open>ProcessEvent\<close> is remote.
\<close>

theorem lost_members:
  assumes "ints_BreakpointLocation loc" "ints_CancelRequest cancel" "wire_Request cancel" "ints_Response continued" "wire_Response continued"
    and "wire_Event process" "ints_ProcessEvent process" "no_nul (ProcessEvent_name process)" "no_nul (ProcessEvent_startMethod process)"
  shows "BreakpointLocation_From (BreakpointLocation_To loc) new_BreakpointLocation =
       loc \<lparr>BreakpointLocation_line := -1, BreakpointLocation_endLine := -1\<rparr> \<and>
     CancelRequest_From (CancelRequest_To cancel) new_CancelRequest = cancel \<lparr>CancelRequest_requestId := -1\<rparr> \<and>
     ContinueResponse_From (ContinueResponse_To continued) new_ContinueResponse =
       continued \<lparr>ContinueResponse_allThreadsContinued := True\<rparr> \<and>
     ProcessEvent_From (ProcessEvent_To process) new_ProcessEvent = process \<lparr>ProcessEvent_isLocalProcess := True\<rparr>"
proof (intro conjI)
  show "BreakpointLocation_From (BreakpointLocation_To loc) new_BreakpointLocation =
      loc \<lparr>BreakpointLocation_line := -1, BreakpointLocation_endLine := -1\<rparr>"
    using assms(1)
    by (cases loc) (simp add: ints_BreakpointLocation_def new_BreakpointLocation_def BreakpointLocation_To_def
        BreakpointLocation_From_def Let_def msg_defs json_simps msg_simps)
  show "CancelRequest_From (CancelRequest_To cancel) new_CancelRequest = cancel \<lparr>CancelRequest_requestId := -1\<rparr>"
    using assms(2,3)
    by (cases cancel) (simp add: ints_CancelRequest_def new_CancelRequest_def CancelRequest_To_def
        CancelRequest_From_def Let_def msg_defs json_simps msg_simps)
  show "ContinueResponse_From (ContinueResponse_To continued) new_ContinueResponse =
      continued \<lparr>ContinueResponse_allThreadsContinued := True\<rparr>"
    using assms(4,5)
    by (cases continued) (simp add: new_ContinueResponse_def ContinueResponse_To_def
        ContinueResponse_From_def Let_def msg_defs json_simps msg_simps)
  show "ProcessEvent_From (ProcessEvent_To process) new_ProcessEvent = process \<lparr>ProcessEvent_isLocalProcess := True\<rparr>"
    using assms(6-9)
    by (cases process) (simp add: ints_ProcessEvent_def new_ProcessEvent_def ProcessEvent_To_def
        ProcessEvent_From_def Let_def msg_defs json_simps msg_simps)
qed

theorem lost_members_witness:
  "BreakpointLocation_From (BreakpointLocation_To (new_BreakpointLocation \<lparr>BreakpointLocation_line := 12\<rparr>)) new_BreakpointLocation =
       new_BreakpointLocation \<and>
     CancelRequest_From (CancelRequest_To (new_CancelRequest \<lparr>CancelRequest_requestId := 5\<rparr>)) new_CancelRequest = new_CancelRequest \<and>
     ContinueResponse_From (ContinueResponse_To (new_ContinueResponse \<lparr>ContinueResponse_allThreadsContinued := False\<rparr>)) new_ContinueResponse =
       new_ContinueResponse \<lparr>ContinueResponse_allThreadsContinued := True\<rparr> \<and>
     ProcessEvent_From (ProcessEvent_To (new_ProcessEvent \<lparr>ProcessEvent_isLocalProcess := False\<rparr>)) new_ProcessEvent =
       new_ProcessEvent \<lparr>ProcessEvent_isLocalProcess := True\<rparr>"
  using lost_members [of "new_BreakpointLocation \<lparr>BreakpointLocation_line := 12\<rparr>" "new_CancelRequest \<lparr>CancelRequest_requestId := 5\<rparr>"
      "new_ContinueResponse \<lparr>ContinueResponse_allThreadsContinued := False\<rparr>" "new_ProcessEvent \<lparr>ProcessEvent_isLocalProcess := False\<rparr>"]
  by (simp add: ints_BreakpointLocation_def new_BreakpointLocation_def ints_CancelRequest_def new_CancelRequest_def
      new_ContinueResponse_def new_ProcessEvent_def ints_ProcessEvent_def msg_defs is_int32_def int_limits NUL_def PTR_SIZE_def)

text \<open>
  C36.  The generator does not know the request \<^verbatim>\<open>variables\<close>, the only one that \<^verbatim>\<open>dap::Initialize\<close> leaves out, until the
  program itself makes an object of that class: whatever objects have been made since, whose constructors register their
  classes, it reads every other request that a client sends, and that one only when one of the objects was a
  \<^verbatim>\<open>VariablesRequest\<close>.  A server built on this library makes none, and so cannot read it.
\<close>

theorem variables_request_unknown:
  assumes "wire_RequestMsg r" "ProtocolMessage_type (as_Request r) = ''request''" "Request_command (as_Request r) = Request_name r"
  shows "FromJSON (fold construct ms registered) (RequestMsg_To r) =
     (if is_VariablesRequest r \<and> \<not> list_ex is_variables ms then None else Some (MRequest r))"
proof (cases "list_ex is_variables ms")
  case True
  then show ?thesis using with_variables_reads [OF assms] by (simp add: constructed)
next
  case False
  have "FromJSON registered (RequestMsg_To r) = (if is_VariablesRequest r then None else Some (MRequest r))"
  proof (cases "is_VariablesRequest r")
    case True
    then have "Request_name r = ''variables''" "m_requests registered ''variables'' = None"
      by (cases r; simp add: registered_pools request_registrations_def)+
    with True assms show ?thesis
      by (simp add: FromJSON_def Let_def Request_heads ObjGenerator_New_def New_from_pool_def msg_simps)
  qed (use assms wire_ok_FromJSON [of "MRequest r"] in simp)
  then show ?thesis using False by (simp add: constructed)
qed

theorem variables_request_unknown_witness:
  "FromJSON registered (RequestMsg_To (MVariablesRequest new_VariablesRequest)) = None \<and>
   FromJSON (construct (MRequest (MVariablesRequest new_VariablesRequest)) registered) (RequestMsg_To (MVariablesRequest new_VariablesRequest)) =
     Some (MRequest (MVariablesRequest new_VariablesRequest))"
  using variables_request_unknown [of "MVariablesRequest new_VariablesRequest" "[]"]
    variables_request_unknown [of "MVariablesRequest new_VariablesRequest" "[MRequest (MVariablesRequest new_VariablesRequest)]"]
  by (simp add: wire_VariablesRequest_def ints_VariablesRequest_def new_VariablesRequest_def wire_VariablesArguments_def ints_VariablesArguments_def new_VariablesArguments_def wire_ValueFormat_def ints_ValueFormat_def new_ValueFormat_def msg_defs Request.defs is_int32_def int_limits NUL_def)

section \<open>Memory\<close>




text \<open>
  C8.  The pointer code of \<^verbatim>\<open>cJSON.cpp\<close> implements the functions on trees: on two trees in memory that share no block,
  adding the one to the other under a name leaves the tree that the function on values gives, and deleting a member
  does too, frees exactly the blocks of that member and touches no other memory; neither runs into memory that is not
  allocated, and the result is again a well-linked tree.
\<close>

theorem memory_refines_trees:
  assumes "root_at h w" "root_at h u" "distinct (owned w @ owned u)" "h sa = None"
  shows "(\<exists>g w'. heap_AddItemToObject (node_addr w) s sa (Some (node_addr u)) h = Some g \<and> root_at g w' \<and> node_addr w' = node_addr w \<and>
       tree_of w' = cJSON_AddItemToObject s (Some (tree_of u)) (tree_of w) \<and>
       (\<forall>x. x \<notin> set (owned w @ owned u) \<union> {sa} \<longrightarrow> g x = h x)) \<and>
     (\<exists>g w'. heap_DeleteItemFromObject (node_addr w) s h = Some g \<and> root_at g w' \<and> node_addr w' = node_addr w \<and>
       tree_of w' = cJSON_DeleteItemFromObject s (tree_of w) \<and>
       (\<forall>x. x \<notin> set (owned w) \<longrightarrow> g x = h x) \<and> (\<forall>x\<in>set (owned w) - set (owned w'). g x = None))"
proof (rule conjI)
  let ?w = "set_kids (kids w @ [set_aname (Some (sa, c_str s)) u]) w"
  have "node_addr ?w = node_addr w" by (cases w) simp
  then show "\<exists>g w'. heap_AddItemToObject (node_addr w) s sa (Some (node_addr u)) h = Some g \<and> root_at g w' \<and> node_addr w' = node_addr w \<and>
       tree_of w' = cJSON_AddItemToObject s (Some (tree_of u)) (tree_of w) \<and>
       (\<forall>x. x \<notin> set (owned w @ owned u) \<union> {sa} \<longrightarrow> g x = h x)"
    using heap_AddItemToObject_refines [of h None "Some (node_addr w)" w None u sa s] assms
    by (auto simp: root_at_def intro!: exI [of _ ?w])
  show "\<exists>g w'. heap_DeleteItemFromObject (node_addr w) s h = Some g \<and> root_at g w' \<and> node_addr w' = node_addr w \<and>
       tree_of w' = cJSON_DeleteItemFromObject s (tree_of w) \<and>
       (\<forall>x. x \<notin> set (owned w) \<longrightarrow> g x = h x) \<and> (\<forall>x\<in>set (owned w) - set (owned w'). g x = None)"
    using heap_DeleteItemFromObject_refines [of h None "Some (node_addr w)" w None s] assms(1)
    unfolding root_at_def by metis
qed

definition two_nodes :: heap where
  "two_nodes = [1 \<mapsto> Cell (new_cell \<lparr>c_type := cJsonDap_Object\<rparr>),
     2 \<mapsto> Cell (new_cell \<lparr>c_type := cJsonDap_String, c_valuestring := Some 3\<rparr>), 3 \<mapsto> Chars ''x'']"

theorem memory_refines_trees_witness:
  "\<exists>g w'. heap_AddItemToObject 1 ''k'' 4 (Some 2) two_nodes = Some g \<and> root_at g w' \<and> node_addr w' = 1 \<and>
     tree_of w' = cJSON_AddItemToObject ''k'' (Some (Item cJsonDap_String (Some ''x'') 0 (Fin 0) None [])) (Item cJsonDap_Object None 0 (Fin 0) None [])"
proof -
  let ?w = "ANode 1 cJsonDap_Object None 0 (Fin 0) None []" and ?u = "ANode 2 cJsonDap_String (Some (3, ''x'')) 0 (Fin 0) None []"
  have "root_at two_nodes ?w" "root_at two_nodes ?u" "distinct (owned ?w @ owned ?u)" "two_nodes 4 = None"
    by (simp_all add: root_at_def two_nodes_def new_cell_def chars_at_def ptrs_def is_ref_def cjson_types)
  from memory_refines_trees [OF this, of "''k''"] show ?thesis by auto
qed

text \<open>
  C9.  The parser in memory implements the parser on values, whatever the allocator returns, as long as it hands out only blocks
  that are not in use: for an accepted text the memory has grown by exactly the blocks of one well-linked tree, which
  is the tree that the parser on values gives, and for a rejected text it is as before.  An allocator that fails, at any of the
  allocations, makes the parser answer the null pointer with the memory as before.  So the parser never uses memory that is not
  allocated, and deleting what it returned gives the memory from before back.
\<close>

theorem parser_in_memory:
  assumes "allocator alloc" "finite (dom h)"
  shows "(\<not> never_fails alloc \<and> mem_cJSON_Parse alloc src h = Ok (Some (None, h)) \<or>
     (case cJSON_Parse src of
        Parsed x r \<Rightarrow> \<exists>w g. mem_cJSON_Parse alloc src h = Ok (Some (Some (node_addr w), g)) \<and> root_at g w \<and> tree_of w = x \<and>
          (\<forall>y. y \<notin> set (owned w) \<longrightarrow> g y = h y) \<and> (\<forall>y\<in>set (owned w). h y = None)
      | Failed e \<Rightarrow> mem_cJSON_Parse alloc src h = Ok (Some (None, h))
      | PUndef u \<Rightarrow> mem_cJSON_Parse alloc src h = Undef u
      | No_Fuel \<Rightarrow> False)) \<and>
    (\<forall>p g. mem_cJSON_Parse alloc src h = Ok (Some (p, g)) \<longrightarrow> heap_Delete p g = Some h)"
  using mem_cJSON_Parse_spec [OF assms, of src] parse_then_delete [OF assms, of src] by blast

text \<open>In a memory without bound the document is there; in one of two cells the parser gives up and cleans up.\<close>

definition small_document :: cJsonDap where
  "small_document = Item cJsonDap_Array None 0 (Fin 0) None [Item cJsonDap_True None 1 (Fin 0) None [], Item cJsonDap_Object None 0 (Fin 0) None []]"

lemma two_cells: "case mem_cJSON_Parse (first_free_below 2) ''[true,{}]'' Map.empty of Ok (Some (None, g)) \<Rightarrow> True | _ \<Rightarrow> False"
  by code_simp

theorem parser_in_memory_witness:
  "(\<exists>w g. mem_cJSON_Parse first_free ''[true,{}]'' Map.empty = Ok (Some (Some (node_addr w), g)) \<and> root_at g w \<and>
      tree_of w = small_document \<and> heap_Delete (Some (node_addr w)) g = Some Map.empty) \<and>
   mem_cJSON_Parse (first_free_below 2) ''[true,{}]'' Map.empty = Ok (Some (None, Map.empty))"
proof (rule conjI)
  have "cJSON_Parse ''[true,{}]'' = Parsed small_document []" by code_simp
  then show "\<exists>w g. mem_cJSON_Parse first_free ''[true,{}]'' Map.empty = Ok (Some (Some (node_addr w), g)) \<and> root_at g w \<and>
      tree_of w = small_document \<and> heap_Delete (Some (node_addr w)) g = Some Map.empty"
    using parser_in_memory [OF first_free_allocator(1), of Map.empty "''[true,{}]''"] first_free_allocator(2) by auto
  obtain g where "mem_cJSON_Parse (first_free_below 2) ''[true,{}]'' Map.empty = Ok (Some (None, g))"
    using two_cells by (auto split: outcome.splits option.splits prod.splits)
  moreover from this have "heap_Delete None g = Some Map.empty"
    using parser_in_memory [OF first_free_below_allocator [of 2], of Map.empty "''[true,{}]''"] by simp
  ultimately show "mem_cJSON_Parse (first_free_below 2) ''[true,{}]'' Map.empty = Ok (Some (None, Map.empty))" by simp
qed





section \<open>Processes, sockets and the log\<close>

text \<open>
  C25.  The parent of a child process keeps its descriptors in order: whichever of the three pipes can be opened, the
  constructor and the destructors of the pipes close every descriptor that was opened, each once, and no other: the
  table is the one from before.  In the child, 0, 1 and 2 are its ends of the pipes and nothing else is open when the program starts.
\<close>

theorem child_descriptors:
  assumes "new_fds [a_in, a_err, a_out] t"
  shows "(\<exists>p t'. UnixProcess_new a_in a_err a_out pid t = Some (p, t') \<and> UnixProcess_close p t' = Some t) \<and>
     (\<forall>ri wi re we ro wo p t'. (a_in, a_err, a_out) = (Some (ri, wi), Some (re, we), Some (ro, wo)) \<longrightarrow>
        (\<forall>fd\<in>{ri, wi, re, we, ro, wo}. 3 \<le> fd) \<longrightarrow> (\<forall>fd\<in>dom t. 0 \<le> fd \<and> fd < fd_max) \<longrightarrow>
        open_pipes a_in a_err a_out t = (True, p, t') \<longrightarrow>
        child_setup fd_max p t' = Some [0 \<mapsto> Read_end 0, 1 \<mapsto> Write_end 1, 2 \<mapsto> Write_end 2])"
  using UnixProcess_descriptors [OF assms] child_setup_streams assms by blast

theorem child_descriptors_witness:
  "\<exists>p t'. UnixProcess_new (Some (3, 4)) (Some (5, 6)) (Some (7, 8)) 42 [0 \<mapsto> File 0] = Some (p, t') \<and> UnixProcess_close p t' = Some [0 \<mapsto> File 0]"
proof -
  have "new_fds [Some (3, 4), Some (5, 6), Some (7, 8)] [0 \<mapsto> File 0]" by (simp add: new_fds_def)
  from child_descriptors [OF this, of 42] show ?thesis by blast
qed





text \<open>
  C39.  On Windows, \<^verbatim>\<open>Terminate\<close> followed by the destructor terminates the program itself: \<^verbatim>\<open>Terminate\<close> closes each valid
  handle once and sets it to \<^verbatim>\<open>INVALID_HANDLE_VALUE\<close>, which is the pseudo handle of the calling process; the
  destructor asks whether that process is alive, and terminates it.
\<close>

theorem windows_terminates_itself:
  assumes "MSW_Terminate p w = Some (p', w')" "w_script w' = r # rs" "w_ok r" "w_value r = STILL_ACTIVE"
  shows "w_closed w' = w_closed w @ filter (\<lambda>h. h \<noteq> INVALID_HANDLE_VALUE) (handles p) \<and>
     (\<exists>w''. MSW_destroy p' w' = Some w'' \<and> w_terminated w'' = w_terminated w' @ [GetCurrentProcess] \<and> w_closed w'' = w_closed w')"
  using MSW_Cleanup_twice [OF assms] MSW_Cleanup_spec(2) [of p w p' w'] assms(1) by (simp add: MSW_Terminate_def)

definition still_active :: winret where
  "still_active = \<lparr>w_ok = True, w_value = STILL_ACTIVE, w_count = 0, w_data = [], w_handles = (0, 0)\<rparr>"

theorem windows_terminates_itself_witness:
  "\<exists>p' w' w''. MSW_Terminate (new_ProcessMSW (40, 44)) \<lparr>w_script = [still_active, still_active], w_out = [], w_closed = [], w_terminated = []\<rparr> = Some (p', w') \<and>
     w_closed w' = [40, 44] \<and> MSW_destroy p' w' = Some w'' \<and> w_terminated w'' = w_terminated w' @ [GetCurrentProcess]"
proof -
  let ?p = "new_ProcessMSW (40, 44)" and ?w = "\<lparr>w_script = [still_active, still_active], w_out = [], w_closed = [], w_terminated = []\<rparr>"
  obtain p' w' where t: "MSW_Terminate ?p ?w = Some (p', w')" "w_script w' = [still_active]"
    by (simp add: MSW_Terminate_def MSW_Cleanup_def CheckIsAlive_def win_call_def still_active_def fold_CLOSE_HANDLE Let_def)
  then show ?thesis using windows_terminates_itself [OF t]
    by (auto simp: still_active_def handles_def new_ProcessMSW_def all_invalid_def INVALID_HANDLE_VALUE_def)
qed







end
